(* ===== verification/Prelude.thy ===== *)
theory Prelude
  imports Complex_Main "HOL-Library.Multiset" "HOL-Library.Sublist" "HOL-Library.Char_ord" "HOL-Library.List_Lexorder"
begin

text \<open>
  Shared vocabulary of the development.

  \<^item> The insertion-ordered \<open>Map\<close> and \<open>Set\<close> of JavaScript, as association lists and
    duplicate-free lists: iteration order is observable in the code (the oldest key is the first
    one evicted), so a HOL function or set would lose it.
  \<^item> The named collections \<open>js_simps\<close> (container rewriting) and \<open>step_inv\<close> (an operation
    keeps an invariant), which the component theories extend.
  \<^item> The locale \<open>simulation\<close>: a machine that refines a labelled specification.
  \<^item> The locale \<open>invariant_machine\<close>: the contract of a component whose every operation keeps
    an invariant, with its run lemma proved once.
\<close>

named_theorems js_simps \<open>rewriting of JavaScript containers\<close>
named_theorems step_inv \<open>one operation keeps the component invariant\<close>

section \<open>Insertion-ordered maps\<close>

type_synonym ('k, 'v) js_map = "('k \<times> 'v) list"

abbreviation js_keys :: "('k, 'v) js_map \<Rightarrow> 'k list" where
  "js_keys m \<equiv> map fst m"

abbreviation js_wf :: "('k, 'v) js_map \<Rightarrow> bool" where
  "js_wf m \<equiv> distinct (js_keys m)"

abbreviation js_get :: "('k, 'v) js_map \<Rightarrow> 'k \<Rightarrow> 'v option" where
  "js_get m k \<equiv> map_of m k"

declare map_of_eq_Some_iff [simp del] Some_eq_map_of_iff [simp del]

text \<open>\<open>Map.set\<close>: overwrites in place, or appends a new key at the end.\<close>

fun js_set :: "'k \<Rightarrow> 'v \<Rightarrow> ('k, 'v) js_map \<Rightarrow> ('k, 'v) js_map" where
  "js_set k v [] = [(k, v)]"
| "js_set k v ((k', v') # m) = (if k = k' then (k, v) # m else (k', v') # js_set k v m)"

definition js_delete :: "'k \<Rightarrow> ('k, 'v) js_map \<Rightarrow> ('k, 'v) js_map" where
  "js_delete k m = filter (\<lambda>p. fst p \<noteq> k) m"

lemma js_delete_simps [simp, js_simps]:
  "js_delete k [] = []"
  "js_delete k ((k', v) # m) = (if k = k' then js_delete k m else (k', v) # js_delete k m)"
  by (auto simp: js_delete_def)

lemma js_get_set [simp, js_simps]: "js_get (js_set k v m) k' = (if k = k' then Some v else js_get m k')"
  by (induction m) auto

lemma js_get_delete [simp, js_simps]: "js_get (js_delete k m) k' = (if k = k' then None else js_get m k')"
  by (induction m) auto

lemma set_js_keys_set [simp, js_simps]: "fst ` set (js_set k v m) = insert k (fst ` set m)"
proof (induction m)
  case (Cons p m)
  then show ?case by (cases p) (simp add: insert_commute)
qed simp

lemma set_js_keys_delete [simp, js_simps]: "fst ` set (js_delete k m) = fst ` set m - {k}"
  by (auto simp: js_delete_def)

lemma js_wf_set [simp, js_simps]: "js_wf m \<Longrightarrow> js_wf (js_set k v m)"
proof (induction m)
  case Nil
  then show ?case by simp
next
  case (Cons p m)
  obtain k' v' where p: "p = (k', v')" by (cases p)
  show ?case using Cons by (simp add: p)
qed

lemma js_wf_delete [simp, js_simps]: "js_wf m \<Longrightarrow> js_wf (js_delete k m)"
  by (simp add: js_delete_def distinct_map_filter)

lemma js_wf_filter: "js_wf m \<Longrightarrow> js_wf (filter P m)"
  by (rule distinct_map_filter)

lemma js_get_None_keys: "js_get m k = None \<longleftrightarrow> k \<notin> set (js_keys m)"
  by (induction m) auto

lemma js_get_Some_in: "js_get m k = Some v \<Longrightarrow> (k, v) \<in> set m"
  by (rule map_of_SomeD)

lemma js_get_iff: "js_wf m \<Longrightarrow> js_get m k = Some v \<longleftrightarrow> (k, v) \<in> set m"
  by (rule map_of_eq_Some_iff)

lemma js_set_fresh: "k \<notin> set (js_keys m) \<Longrightarrow> js_set k v m = m @ [(k, v)]"
  by (induction m) auto

lemma length_js_set: "length (js_set k v m) = (if k \<in> set (js_keys m) then length m else Suc (length m))"
proof (induction m)
  case (Cons p m)
  then show ?case by (cases p) simp
qed simp

lemma length_js_delete_le: "length (js_delete k m) \<le> length m"
  by (simp add: js_delete_def)

lemma js_delete_absent: "k \<notin> set (js_keys m) \<Longrightarrow> js_delete k m = m"
  by (induction m) auto

lemma length_js_delete_present:
  "js_wf m \<Longrightarrow> k \<in> set (js_keys m) \<Longrightarrow> Suc (length (js_delete k m)) = length m"
proof (induction m)
  case (Cons p m)
  then show ?case by (cases p) (auto simp: js_delete_absent)
qed simp

lemma js_get_filter:
  "js_wf m \<Longrightarrow> js_get (filter P m) k = (case js_get m k of None \<Rightarrow> None | Some v \<Rightarrow> if P (k, v) then Some v else None)"
proof (induction m)
  case Nil
  then show ?case by simp
next
  case (Cons p m)
  obtain k' v' where p: "p = (k', v')" by (cases p)
  have "js_get m k' = None" using Cons.prems by (simp add: p js_get_None_keys)
  then show ?case using Cons by (auto simp: p split: option.splits)
qed

lemma js_set_in: "(k', v') \<in> set (js_set k v m) \<Longrightarrow> (k', v') = (k, v) \<or> (k', v') \<in> set m"
  by (induction m) (auto split: if_splits)

lemma js_get_key: "js_get m k = Some v \<Longrightarrow> k \<in> fst ` set m"
  by (force dest: js_get_Some_in)

text \<open>A map whose keys come from \<open>ks\<close> has room for a key of \<open>ks\<close> it lacks.\<close>

lemma js_room_within:
  assumes "js_wf m" and "set (js_keys m) \<subseteq> set ks" and "k \<in> set ks" and "k \<notin> set (js_keys m)"
  shows "length m < length (remdups ks)"
proof -
  have "length m = card (set (js_keys m))" using assms(1) distinct_card [of "js_keys m"] by simp
  also have "\<dots> < card (set ks)" by (rule psubset_card_mono) (use assms in auto)
  finally show ?thesis by (simp add: length_remdups_card_conv)
qed

section \<open>Insertion-ordered sets\<close>

definition set_add :: "'a \<Rightarrow> 'a list \<Rightarrow> 'a list" where
  "set_add x xs = (if x \<in> set xs then xs else xs @ [x])"

definition set_del :: "'a \<Rightarrow> 'a list \<Rightarrow> 'a list" where
  "set_del x xs = filter (\<lambda>y. y \<noteq> x) xs"

lemma set_set_add [simp, js_simps]: "set (set_add x xs) = insert x (set xs)"
  by (auto simp: set_add_def)

lemma set_set_del [simp, js_simps]: "set (set_del x xs) = set xs - {x}"
  by (auto simp: set_del_def)

lemma distinct_set_add [simp, js_simps]: "distinct xs \<Longrightarrow> distinct (set_add x xs)"
  by (auto simp: set_add_def)

lemma distinct_set_del [simp, js_simps]: "distinct xs \<Longrightarrow> distinct (set_del x xs)"
  by (simp add: set_del_def)

lemma set_add_fresh: "x \<notin> set xs \<Longrightarrow> set_add x xs = xs @ [x]"
  by (simp add: set_add_def)

lemma set_del_absent: "x \<notin> set xs \<Longrightarrow> set_del x xs = xs"
  by (induction xs) (auto simp: set_del_def)

lemma set_del_Nil_iff: "set_del x xs = [] \<longleftrightarrow> (\<forall>y \<in> set xs. y = x)"
  by (induction xs) (auto simp: set_del_def)

lemma length_set_del_le: "length (set_del x xs) \<le> length xs"
  by (simp add: set_del_def)

text \<open>Overwriting one cell of a list changes the number of occurrences by that cell only.\<close>

lemma count_list_update_other:
  "i < length xs \<Longrightarrow> xs ! i \<noteq> z \<Longrightarrow> y \<noteq> z \<Longrightarrow> count_list (xs[i := y]) z = count_list xs z"
proof (induction xs arbitrary: i)
  case (Cons x xs)
  then show ?case by (cases i) auto
qed simp

lemma count_list_update_remove:
  "i < length xs \<Longrightarrow> y \<noteq> xs ! i \<Longrightarrow> Suc (count_list (xs[i := y]) (xs ! i)) = count_list xs (xs ! i)"
proof (induction xs arbitrary: i)
  case (Cons x xs)
  then show ?case by (cases i) auto
qed simp

section \<open>Components that keep an invariant\<close>

locale invariant_machine =
  fixes step :: "'s \<Rightarrow> 'e \<Rightarrow> 's"
    and inv :: "'s \<Rightarrow> bool"
  assumes step_keeps: "inv s \<Longrightarrow> inv (step s e)"
begin

lemma run_keeps: "inv s \<Longrightarrow> inv (foldl step s es)"
proof (induction es arbitrary: s)
  case Nil
  then show ?case by simp
next
  case (Cons e es)
  then show ?case by (simp add: step_keeps)
qed

end

text \<open>
  A machine with a monotone quantity: what a step never takes back, no run takes back. Used for
  one-way flags, generations and identifier counters.
\<close>

locale monotone_machine = invariant_machine +
  fixes weight :: "'a \<Rightarrow> nat"
  assumes step_mono: "inv s \<Longrightarrow> weight s \<le> weight (step s e)"
begin

lemma run_mono: "inv s \<Longrightarrow> weight s \<le> weight (foldl step s es)"
proof (induction es arbitrary: s)
  case Nil
  then show ?case by simp
next
  case (Cons e es)
  have "weight s \<le> weight (step s e)" by (rule step_mono [OF Cons.prems])
  also have "\<dots> \<le> weight (foldl step (step s e) es)"
    by (rule Cons.IH) (rule step_keeps [OF Cons.prems])
  finally show ?case by simp
qed

end

section \<open>Refinement of a specification\<close>

text \<open>
  The runs of a specification given as a labelled relation, and the contract of a machine that
  implements it: each concrete step is a step of the specification between the abstracted states.
\<close>

inductive spec_run :: "('a \<Rightarrow> 'l \<Rightarrow> 'a \<Rightarrow> bool) \<Rightarrow> 'a \<Rightarrow> 'l list \<Rightarrow> 'a \<Rightarrow> bool" for spec where
  spec_refl: "spec_run spec a [] a"
| spec_more: "spec a l b \<Longrightarrow> spec_run spec b ls c \<Longrightarrow> spec_run spec a (l # ls) c"

inductive_simps spec_run_simps [simp]: "spec_run spec a [] b" "spec_run spec a (l # ls) b"

lemma spec_run_invariant:
  assumes "spec_run spec a ls b" and "\<And>x l y. spec x l y \<Longrightarrow> I x \<Longrightarrow> I y" and "I a"
  shows "I b"
  using assms(1,3) by induction (auto intro: assms(2))

fun labels_of :: "('s \<Rightarrow> 'e \<Rightarrow> 's) \<Rightarrow> ('s \<Rightarrow> 'e \<Rightarrow> 'l) \<Rightarrow> 's \<Rightarrow> 'e list \<Rightarrow> 'l list" where
  "labels_of step lab s [] = []"
| "labels_of step lab s (e # es) = lab s e # labels_of step lab (step s e) es"

locale simulation = invariant_machine step inv
  for step :: "'s \<Rightarrow> 'e \<Rightarrow> 's" and inv :: "'s \<Rightarrow> bool" +
  fixes abs :: "'s \<Rightarrow> 'a"
    and lab :: "'s \<Rightarrow> 'e \<Rightarrow> 'l"
    and spec :: "'a \<Rightarrow> 'l \<Rightarrow> 'a \<Rightarrow> bool"
  assumes refines: "inv s \<Longrightarrow> spec (abs s) (lab s e) (abs (step s e))"
begin

lemma run_refines: "inv s \<Longrightarrow> spec_run spec (abs s) (labels_of step lab s es) (abs (foldl step s es))"
  by (induction es arbitrary: s) (auto intro: step_keeps refines)

lemma spec_invariant:
  assumes "\<And>x l y. spec x l y \<Longrightarrow> I x \<Longrightarrow> I y" and "inv s" and "I (abs s)"
  shows "I (abs (foldl step s es))"
  by (rule spec_run_invariant [where I = I, OF run_refines [OF assms(2), of es]]) (blast intro: assms)+

end

section \<open>Memo tables\<close>

text \<open>
  A bounded memo table in front of a function: what the table holds is what the function computes.
  The eviction policy is the client's \<open>put\<close>; it may forget entries and never invent them.
\<close>

definition memo_ok :: "('k \<Rightarrow> 'v) \<Rightarrow> nat \<Rightarrow> ('k, 'v) js_map \<Rightarrow> bool" where
  "memo_ok f cap c \<longleftrightarrow> js_wf c \<and> length c \<le> cap \<and> (\<forall>k v. js_get c k = Some v \<longrightarrow> v = f k)"

locale memo_table =
  fixes f :: "'k \<Rightarrow> 'v"
    and put :: "'k \<Rightarrow> 'v \<Rightarrow> ('k, 'v) js_map \<Rightarrow> ('k, 'v) js_map"
    and cap :: nat
  assumes put_bounded: "js_wf c \<Longrightarrow> length c \<le> cap \<Longrightarrow> js_wf (put k v c) \<and> length (put k v c) \<le> cap"
    and put_get: "js_wf c \<Longrightarrow> js_get (put k v c) k' = Some a \<Longrightarrow> k' = k \<and> a = v \<or> js_get c k' = Some a"
begin

lemma memo_hit: "memo_ok f cap c \<Longrightarrow> js_get c k = Some v \<Longrightarrow> v = f k"
  by (simp add: memo_ok_def)

lemma memo_put: "memo_ok f cap c \<Longrightarrow> memo_ok f cap (put k (f k) c)"
  using put_bounded [of c k "f k"] put_get [of c k "f k"] by (fastforce simp: memo_ok_def)

lemma memo_empty: "memo_ok f cap []"
  by (simp add: memo_ok_def)

end

end
