(* ===== verification/JS_Strings.thy ===== *)
theory JS_Strings
  imports Prelude
begin

text \<open>
  JavaScript strings whose UTF-16 code units are below 256 (Latin-1), as lists of \<open>char\<close>: on this
  range \<open>trim\<close>, \<open>toLowerCase\<close> and the ASCII character classes of the code's regular expressions
  are exact. Also the normalizers of \<open>packages/normalization-core/src/string-coerce.ts\<close>.
  An \<open>undefined\<close> or \<open>null\<close> string argument is \<open>None\<close>.
\<close>

section \<open>Character classes\<close>

definition js_is_space :: "char \<Rightarrow> bool" where
  "js_is_space c \<longleftrightarrow> (let n = (of_char c :: nat) in 9 \<le> n \<and> n \<le> 13 \<or> n = 32 \<or> n = 160)"

definition js_is_upper :: "char \<Rightarrow> bool" where
  "js_is_upper c \<longleftrightarrow> (let n = (of_char c :: nat) in 65 \<le> n \<and> n \<le> 90 \<or> 192 \<le> n \<and> n \<le> 222 \<and> n \<noteq> 215)"

definition js_lower_char :: "char \<Rightarrow> char" where
  "js_lower_char c = (if js_is_upper c then char_of ((of_char c :: nat) + 32) else c)"

text \<open>The character classes on the bits of a character, for evaluation.\<close>

definition letter_bits :: "bool \<Rightarrow> bool \<Rightarrow> bool \<Rightarrow> bool \<Rightarrow> bool \<Rightarrow> bool" where
  "letter_bits b0 b1 b2 b3 b4 \<longleftrightarrow> (b0 \<or> b1 \<or> b2 \<or> b3 \<or> b4) \<and> \<not> (b4 \<and> b3 \<and> (b2 \<or> b1 \<and> b0))"

lemma js_is_space_code [code]:
  "js_is_space (Char b0 b1 b2 b3 b4 b5 b6 b7) \<longleftrightarrow>
     \<not> b6 \<and> \<not> b4 \<and>
     (if b5 then \<not> b0 \<and> \<not> b1 \<and> \<not> b2 \<and> \<not> b3
      else \<not> b7 \<and> b3 \<and> (b0 \<or> b1 \<or> b2) \<and> \<not> (b2 \<and> b1))"
  by (cases b0; cases b1; cases b2; cases b3; cases b4; cases b5; cases b6; cases b7)
    (simp_all add: js_is_space_def)

lemma js_is_upper_code [code]:
  "js_is_upper (Char b0 b1 b2 b3 b4 b5 b6 b7) \<longleftrightarrow>
     b6 \<and> \<not> b5 \<and>
     (if b7 then \<not> (b0 \<and> b1 \<and> b2 \<and> b4) else letter_bits b0 b1 b2 b3 b4)"
  by (cases b0; cases b1; cases b2; cases b3; cases b4; cases b5; cases b6; cases b7)
    (simp_all add: js_is_upper_def letter_bits_def)

lemma js_lower_char_code [code]:
  "js_lower_char (Char b0 b1 b2 b3 b4 b5 b6 b7) =
     Char b0 b1 b2 b3 b4 (b5 \<or> js_is_upper (Char b0 b1 b2 b3 b4 b5 b6 b7)) b6 b7"
  by (cases b0; cases b1; cases b2; cases b3; cases b4; cases b5; cases b6; cases b7)
    (simp_all add: js_lower_char_def js_is_upper_def char_of_eq_iff take_bit_eq_mod)

lemma js_lower_char_not_upper [simp]: "\<not> js_is_upper (js_lower_char c)"
  by (auto simp: js_lower_char_def js_is_upper_def Let_def)

lemma js_lower_char_idem [simp]: "js_lower_char (js_lower_char c) = js_lower_char c"
  using js_lower_char_not_upper [of c] by (simp add: js_lower_char_def [of "js_lower_char c"])

lemma js_is_space_lower [simp]: "js_is_space (js_lower_char c) = js_is_space c"
  by (auto simp: js_lower_char_def js_is_upper_def js_is_space_def Let_def)

section \<open>Trimming and lowercasing\<close>

definition js_trim :: "string \<Rightarrow> string" where
  "js_trim s = rev (dropWhile js_is_space (rev (dropWhile js_is_space s)))"

definition js_lower :: "string \<Rightarrow> string" where
  "js_lower s = map js_lower_char s"

lemma js_lower_idem [simp]: "js_lower (js_lower s) = js_lower s"
  by (simp add: js_lower_def)

lemma js_lower_Nil [simp]: "js_lower [] = []"
  by (simp add: js_lower_def)

lemma js_lower_append [simp]: "js_lower (s @ t) = js_lower s @ js_lower t"
  by (simp add: js_lower_def)

lemma js_lower_Nil_iff [simp]: "js_lower s = [] \<longleftrightarrow> s = []"
  by (simp add: js_lower_def)

lemma length_js_lower [simp]: "length (js_lower s) = length s"
  by (simp add: js_lower_def)

lemma js_trim_Nil [simp]: "js_trim [] = []"
  by (simp add: js_trim_def)

lemma js_trim_eq_self:
  "s = [] \<or> (\<not> js_is_space (hd s) \<and> \<not> js_is_space (last s)) \<Longrightarrow> js_trim s = s"
proof -
  assume a: "s = [] \<or> (\<not> js_is_space (hd s) \<and> \<not> js_is_space (last s))"
  then have "dropWhile js_is_space s = s" by (auto simp: dropWhile_eq_self_iff)
  moreover have "dropWhile js_is_space (rev s) = rev s" using a by (auto simp: dropWhile_eq_self_iff hd_rev)
  ultimately show ?thesis by (simp add: js_trim_def)
qed

lemma js_trim_ends:
  "js_trim s = [] \<or> (\<not> js_is_space (hd (js_trim s)) \<and> \<not> js_is_space (last (js_trim s)))"
proof (cases "js_trim s = []")
  case False
  let ?a = "dropWhile js_is_space s" and ?b = "dropWhile js_is_space (rev (dropWhile js_is_space s))"
  have b: "?b \<noteq> []" using False by (simp add: js_trim_def)
  then have "\<not> js_is_space (hd ?b)" by (rule hd_dropWhile)
  then have l: "\<not> js_is_space (last (js_trim s))" using b by (simp add: js_trim_def last_rev)
  obtain k where "?b = drop k (rev ?a)" by (metis dropWhile_eq_drop)
  then have pre: "js_trim s = take (length ?a - k) ?a" by (simp add: js_trim_def rev_drop)
  then have "hd (js_trim s) = hd ?a" using False by (metis hd_take take_eq_Nil gr0I)
  moreover have "?a \<noteq> []" using False pre by auto
  ultimately have "\<not> js_is_space (hd (js_trim s))" using hd_dropWhile [of js_is_space s] by simp
  with l show ?thesis by simp
qed simp

lemma js_trim_idem [simp]: "js_trim (js_trim s) = js_trim s"
  by (rule js_trim_eq_self) (rule js_trim_ends)

lemma js_trim_lower: "js_trim (js_lower s) = js_lower (js_trim s)"
  by (simp add: js_trim_def js_lower_def dropWhile_map rev_map o_def)

section \<open>Normalizers\<close>

text \<open>\<open>normalizeNullableString\<close> and \<open>normalizeOptionalString\<close>: both absent values are \<open>None\<close> here.\<close>

definition normalize_optional_string :: "string option \<Rightarrow> string option" where
  "normalize_optional_string v =
     (case v of
        None \<Rightarrow> None
      | Some s \<Rightarrow> (let t = js_trim s in if t \<noteq> [] then Some t else None))"

definition normalize_optional_lowercase_string :: "string option \<Rightarrow> string option" where
  "normalize_optional_lowercase_string v = map_option js_lower (normalize_optional_string v)"

definition normalize_lowercase_string_or_empty :: "string option \<Rightarrow> string" where
  "normalize_lowercase_string_or_empty v =
     (case normalize_optional_lowercase_string v of None \<Rightarrow> [] | Some s \<Rightarrow> s)"

lemma normalize_lowercase_eq:
  "normalize_lowercase_string_or_empty (Some s) = js_lower (js_trim s)"
  by (simp add: normalize_lowercase_string_or_empty_def normalize_optional_lowercase_string_def
      normalize_optional_string_def Let_def)

lemma normalize_lowercase_None [simp]: "normalize_lowercase_string_or_empty None = []"
  by (simp add: normalize_lowercase_string_or_empty_def normalize_optional_lowercase_string_def
      normalize_optional_string_def)

lemma normalize_lowercase_idem [simp]:
  "normalize_lowercase_string_or_empty (Some (normalize_lowercase_string_or_empty v)) =
   normalize_lowercase_string_or_empty v"
  by (cases v) (simp_all add: normalize_lowercase_eq js_trim_lower)

text \<open>\<open>toUpperCase\<close> on Latin-1; the two letters whose capital lies outside are kept.\<close>

definition js_upper_char :: "char \<Rightarrow> string" where
  "js_upper_char c =
     (let n = (of_char c :: nat)
      in if n = 223 then ''SS''
         else if 97 \<le> n \<and> n \<le> 122 \<or> 224 \<le> n \<and> n \<le> 254 \<and> n \<noteq> 247 then [char_of (n - 32)] else [c])"

definition js_upper :: "string \<Rightarrow> string" where
  "js_upper s = concat (map js_upper_char s)"

section \<open>Splitting and joining\<close>

text \<open>\<open>s.split(sep)\<close> for a one-character separator: always at least one part.\<close>

fun js_split :: "char \<Rightarrow> string \<Rightarrow> string list" where
  "js_split sep [] = [[]]"
| "js_split sep (c # s) =
     (if c = sep then [] # js_split sep s
      else (case js_split sep s of [] \<Rightarrow> [[c]] | p # ps \<Rightarrow> (c # p) # ps))"

fun js_join :: "char \<Rightarrow> string list \<Rightarrow> string" where
  "js_join sep [] = []"
| "js_join sep [p] = p"
| "js_join sep (p # q # ps) = p @ sep # js_join sep (q # ps)"

lemma js_split_nonempty [simp]: "js_split sep s \<noteq> []"
  by (induction s) (auto split: list.splits)

lemma js_join_split [simp]: "js_join sep (js_split sep s) = s"
proof (induction s)
  case (Cons c s)
  obtain p ps where p: "js_split sep s = p # ps" by (cases "js_split sep s") auto
  show ?case using Cons by (cases ps) (auto simp: p)
qed simp

lemma js_split_no_sep: "sep \<notin> set s \<Longrightarrow> js_split sep s = [s]"
  by (induction s) auto

lemma js_split_append: "sep \<notin> set p \<Longrightarrow> js_split sep (p @ sep # s) = p # js_split sep s"
  by (induction p) auto

lemma js_split_parts_no_sep: "p \<in> set (js_split sep s) \<Longrightarrow> sep \<notin> set p"
proof (induction s arbitrary: p)
  case (Cons c s)
  obtain q qs where "js_split sep s = q # qs" by (cases "js_split sep s") auto
  then show ?case using Cons by (auto split: if_splits)
qed simp

end
