(* ===== verification/JS_Numbers.thy ===== *)
theory JS_Numbers
  imports JS_Strings
begin

text \<open>
  JavaScript numbers and the coercions of \<open>packages/normalization-core/src/number-coercion.ts\<close>.

  A number is a finite rational, an infinity or \<open>NaN\<close>; a value of unknown type is a number, a string
  or anything else (\<open>undefined\<close>, \<open>null\<close>, booleans, objects: the code treats them alike). Arithmetic
  on finite numbers is exact here; the doubles of the code agree on integers below \<open>2^53\<close>, the range
  of every timestamp and delay, and the functions that could leave it test \<open>Number.isSafeInteger\<close>.
\<close>

datatype js_number = Fin rat | PosInf | NegInf | NaN

datatype js_value = JNum js_number | JStr string | JOther

definition max_safe_integer :: int where
  "max_safe_integer = 9007199254740991"

definition max_timer_timeout_ms :: int where
  "max_timer_timeout_ms = 2147000000"

definition max_timer_timeout_seconds :: int where
  "max_timer_timeout_seconds = max_timer_timeout_ms div 1000"

definition max_date_timestamp_ms :: int where
  "max_date_timestamp_ms = 8640000000000000"

definition is_integral :: "rat \<Rightarrow> bool" where
  "is_integral q \<longleftrightarrow> of_int \<lfloor>q\<rfloor> = q"

definition is_safe_integer :: "rat \<Rightarrow> bool" where
  "is_safe_integer q \<longleftrightarrow> is_integral q \<and> \<bar>\<lfloor>q\<rfloor>\<bar> \<le> max_safe_integer"

section \<open>Finite numbers and ranges\<close>

fun as_finite_number :: "js_value \<Rightarrow> rat option" where
  "as_finite_number (JNum (Fin q)) = Some q"
| "as_finite_number _ = None"

record number_range =
  nr_min :: "rat option"
  nr_max :: "rat option"
  nr_min_exclusive :: bool
  nr_max_exclusive :: bool

definition as_finite_number_in_range :: "js_value \<Rightarrow> number_range \<Rightarrow> rat option" where
  "as_finite_number_in_range v rng =
     (case as_finite_number v of
        None \<Rightarrow> None
      | Some n \<Rightarrow>
          if (case nr_min rng of None \<Rightarrow> False
              | Some lo \<Rightarrow> (if nr_min_exclusive rng then n \<le> lo else n < lo)) then None
          else if (case nr_max rng of None \<Rightarrow> False
              | Some hi \<Rightarrow> (if nr_max_exclusive rng then n \<ge> hi else n > hi)) then None
          else Some n)"

definition as_safe_integer_in_range :: "js_value \<Rightarrow> int option \<Rightarrow> int option \<Rightarrow> int option" where
  "as_safe_integer_in_range v lo hi =
     (case as_finite_number v of
        None \<Rightarrow> None
      | Some q \<Rightarrow>
          if \<not> is_safe_integer q then None
          else if (case lo of None \<Rightarrow> False | Some l \<Rightarrow> \<lfloor>q\<rfloor> < l) then None
          else if (case hi of None \<Rightarrow> False | Some h \<Rightarrow> \<lfloor>q\<rfloor> > h) then None
          else Some \<lfloor>q\<rfloor>)"

section \<open>Strict integer parsing\<close>

definition is_digit :: "char \<Rightarrow> bool" where
  "is_digit c \<longleftrightarrow> (let n = (of_char c :: nat) in 48 \<le> n \<and> n \<le> 57)"

fun digits_value :: "int \<Rightarrow> string \<Rightarrow> int" where
  "digits_value acc [] = acc"
| "digits_value acc (c # s) = digits_value (10 * acc + (int (of_char c) - 48)) s"

text \<open>\<open>/^[+-]?\d+$/\<close> and \<open>Number(\<dots>)\<close> of a token that matches it.\<close>

definition decimal_integer :: "string \<Rightarrow> int option" where
  "decimal_integer s =
     (let (sign, ds) = (case s of
                          c # r \<Rightarrow> if c = CHR ''-'' then (- 1, r) else if c = CHR ''+'' then (1, r) else (1, s)
                        | [] \<Rightarrow> (1, s))
      in if ds \<noteq> [] \<and> list_all is_digit ds then Some (sign * digits_value 0 ds) else None)"

definition normalize_numeric_string :: "string \<Rightarrow> string option" where
  "normalize_numeric_string s = (let t = js_trim s in if t \<noteq> [] then Some t else None)"

fun parse_strict_integer :: "js_value \<Rightarrow> int option" where
  "parse_strict_integer (JNum (Fin q)) = (if is_safe_integer q then Some \<lfloor>q\<rfloor> else None)"
| "parse_strict_integer (JStr s) =
     (case normalize_numeric_string s of
        None \<Rightarrow> None
      | Some t \<Rightarrow>
          (case decimal_integer t of
             None \<Rightarrow> None
           | Some n \<Rightarrow> if \<bar>n\<bar> \<le> max_safe_integer then Some n else None))"
| "parse_strict_integer _ = None"

definition parse_strict_positive_integer :: "js_value \<Rightarrow> int option" where
  "parse_strict_positive_integer v =
     (case parse_strict_integer v of None \<Rightarrow> None | Some n \<Rightarrow> if n > 0 then Some n else None)"

definition parse_strict_non_negative_integer :: "js_value \<Rightarrow> int option" where
  "parse_strict_non_negative_integer v =
     (case parse_strict_integer v of None \<Rightarrow> None | Some n \<Rightarrow> if n \<ge> 0 then Some n else None)"

definition as_positive_safe_integer :: "js_value \<Rightarrow> int option" where
  "as_positive_safe_integer v =
     (case as_finite_number v of
        None \<Rightarrow> None
      | Some q \<Rightarrow> if is_safe_integer q \<and> q > 0 then Some \<lfloor>q\<rfloor> else None)"

section \<open>Timer bounds\<close>

definition clamp_timer_timeout_ms :: "js_value \<Rightarrow> rat \<Rightarrow> int option" where
  "clamp_timer_timeout_ms v min_ms =
     (case as_finite_number v of
        None \<Rightarrow> None
      | Some q \<Rightarrow> Some (min (max \<lfloor>q\<rfloor> (max 1 \<lfloor>min_ms\<rfloor>)) max_timer_timeout_ms))"

definition clamp_positive_timer_timeout_ms :: "js_value \<Rightarrow> int option" where
  "clamp_positive_timer_timeout_ms v =
     (case as_finite_number v of
        None \<Rightarrow> None
      | Some q \<Rightarrow> if q \<le> 0 then None else clamp_timer_timeout_ms v 1)"

definition resolve_timer_timeout_ms :: "js_value \<Rightarrow> js_value \<Rightarrow> rat \<Rightarrow> int" where
  "resolve_timer_timeout_ms v fallback min_ms =
     (let value = (case as_finite_number v of Some q \<Rightarrow> Some q | None \<Rightarrow> as_finite_number fallback);
          lo = max 0 \<lfloor>min_ms\<rfloor>
      in (case value of None \<Rightarrow> lo | Some q \<Rightarrow> min (max \<lfloor>q\<rfloor> lo) max_timer_timeout_ms))"

definition resolve_positive_timer_timeout_ms :: "js_value \<Rightarrow> js_value \<Rightarrow> int" where
  "resolve_positive_timer_timeout_ms v fallback =
     (case clamp_positive_timer_timeout_ms v of
        Some n \<Rightarrow> n | None \<Rightarrow> resolve_timer_timeout_ms fallback (JNum (Fin 1)) 1)"

definition add_timer_timeout_grace_ms :: "js_value \<Rightarrow> js_value \<Rightarrow> int option" where
  "add_timer_timeout_grace_ms timeout grace =
     (case (as_finite_number timeout, as_finite_number grace) of
        (Some t, Some g) \<Rightarrow> clamp_timer_timeout_ms (JNum (Fin (t + g))) 1
      | _ \<Rightarrow> None)"

definition finite_seconds_to_timer_ms :: "js_value \<Rightarrow> bool \<Rightarrow> int option" where
  "finite_seconds_to_timer_ms v floor_seconds =
     (case as_finite_number v of
        None \<Rightarrow> None
      | Some s \<Rightarrow>
          if s \<le> 0 then None
          else
            (let bounded = (if floor_seconds then of_int \<lfloor>s\<rfloor> else s)
             in if bounded \<ge> of_int max_timer_timeout_seconds then Some max_timer_timeout_ms
                else
                  (let ms = \<lfloor>bounded * 1000\<rfloor>
                   in if ms \<le> 0 then None else Some (min ms max_timer_timeout_ms))))"

section \<open>Integer options\<close>

definition resolve_integer_option :: "js_value \<Rightarrow> rat \<Rightarrow> int option \<Rightarrow> int option \<Rightarrow> int" where
  "resolve_integer_option v fallback lo hi =
     (let candidate = (case as_finite_number v of Some q \<Rightarrow> q | None \<Rightarrow> fallback);
          floored = \<lfloor>candidate\<rfloor>;
          min_bounded = (case lo of None \<Rightarrow> floored | Some l \<Rightarrow> max l floored)
      in (case hi of None \<Rightarrow> min_bounded | Some h \<Rightarrow> min h min_bounded))"

definition resolve_optional_integer_option :: "js_value \<Rightarrow> int option \<Rightarrow> int option \<Rightarrow> int option" where
  "resolve_optional_integer_option v lo hi =
     (case as_finite_number v of
        None \<Rightarrow> None
      | Some q \<Rightarrow> Some (resolve_integer_option v q lo hi))"

definition resolve_non_negative_integer_option :: "js_value \<Rightarrow> rat \<Rightarrow> int" where
  "resolve_non_negative_integer_option v fallback = resolve_integer_option v fallback (Some 0) None"

section \<open>Expirations\<close>

text \<open>\<open>asDateTimestampMs\<close>; \<open>timestampMsToIsoString\<close> is defined on exactly these timestamps.\<close>

definition as_date_timestamp_ms :: "js_value \<Rightarrow> rat option" where
  "as_date_timestamp_ms v =
     as_finite_number_in_range v
       \<lparr>nr_min = Some (of_int (- max_date_timestamp_ms)), nr_max = Some (of_int max_date_timestamp_ms),
        nr_min_exclusive = False, nr_max_exclusive = False\<rparr>"

definition date_valid :: "rat \<Rightarrow> bool" where
  "date_valid q \<longleftrightarrow> as_date_timestamp_ms (JNum (Fin q)) \<noteq> None"

definition is_future_date_timestamp_ms :: "js_value \<Rightarrow> js_value \<Rightarrow> bool" where
  "is_future_date_timestamp_ms v now_ms =
     (case (as_date_timestamp_ms v, as_date_timestamp_ms now_ms) of
        (Some t, Some n) \<Rightarrow> t > n | _ \<Rightarrow> False)"

definition resolve_date_timestamp_ms :: "js_value \<Rightarrow> js_value \<Rightarrow> rat" where
  "resolve_date_timestamp_ms v fallback =
     (case as_date_timestamp_ms v of
        Some t \<Rightarrow> t
      | None \<Rightarrow> (case as_date_timestamp_ms fallback of Some t \<Rightarrow> t | None \<Rightarrow> 0))"

definition positive_seconds_to_safe_ms :: "js_value \<Rightarrow> int option" where
  "positive_seconds_to_safe_ms v =
     (case parse_strict_positive_integer v of
        None \<Rightarrow> None
      | Some s \<Rightarrow> if \<bar>s * 1000\<bar> \<le> max_safe_integer then Some (s * 1000) else None)"

definition non_negative_seconds_to_safe_ms :: "js_value \<Rightarrow> int option" where
  "non_negative_seconds_to_safe_ms v =
     (case parse_strict_non_negative_integer v of
        None \<Rightarrow> None
      | Some s \<Rightarrow> if \<bar>s * 1000\<bar> \<le> max_safe_integer then Some (s * 1000) else None)"

definition resolve_expires_at_from_duration_ms ::
    "js_value \<Rightarrow> js_value \<Rightarrow> js_value \<Rightarrow> rat option \<Rightarrow> rat option" where
  "resolve_expires_at_from_duration_ms v now_ms buffer_ms min_remaining =
     (case as_positive_safe_integer v of
        None \<Rightarrow> None
      | Some d \<Rightarrow>
          (case (as_date_timestamp_ms now_ms, as_finite_number buffer_ms) of
             (Some now, Some buffer) \<Rightarrow>
               (let expires_at = now + of_int d - buffer
                in if \<not> is_safe_integer expires_at \<or> \<not> date_valid expires_at then None
                   else
                     (case min_remaining of
                        None \<Rightarrow> Some expires_at
                      | Some r \<Rightarrow>
                          (let min_expires_at = now + r
                           in if \<not> is_safe_integer min_expires_at \<or> \<not> date_valid min_expires_at
                              then Some expires_at
                              else Some (max expires_at min_expires_at))))
           | _ \<Rightarrow> None))"

definition resolve_expires_at_from_duration_seconds ::
    "js_value \<Rightarrow> js_value \<Rightarrow> js_value \<Rightarrow> rat option \<Rightarrow> rat option" where
  "resolve_expires_at_from_duration_seconds v now_ms buffer_ms min_remaining =
     (case positive_seconds_to_safe_ms v of
        None \<Rightarrow> None
      | Some ms \<Rightarrow> resolve_expires_at_from_duration_ms (JNum (Fin (of_int ms))) now_ms buffer_ms min_remaining)"

text \<open>\<open>Math.trunc\<close> of a positive number is its floor.\<close>

definition resolve_expires_at_from_epoch_seconds :: "js_value \<Rightarrow> rat \<Rightarrow> rat option \<Rightarrow> rat option" where
  "resolve_expires_at_from_epoch_seconds v buffer_ms max_ms =
     (let epoch_ms = (case as_finite_number v of
                        Some q \<Rightarrow> if q > 0 then Some (\<lfloor>q\<rfloor> * 1000) else positive_seconds_to_safe_ms v
                      | None \<Rightarrow> positive_seconds_to_safe_ms v)
      in (case epoch_ms of
            None \<Rightarrow> None
          | Some e \<Rightarrow>
              (let expires_at = of_int e - buffer_ms
               in if \<not> is_safe_integer expires_at then None
                  else if \<not> date_valid expires_at then None
                  else if (case max_ms of None \<Rightarrow> True | Some m \<Rightarrow> expires_at \<le> m) then Some expires_at
                  else None)))"

definition resolve_expires_at_from_duration_or_epoch ::
    "js_value \<Rightarrow> js_value \<Rightarrow> rat \<Rightarrow> rat \<Rightarrow> rat option" where
  "resolve_expires_at_from_duration_or_epoch v now_ms relative_seconds_threshold absolute_ms_threshold =
     (case parse_strict_positive_integer v of
        None \<Rightarrow> None
      | Some parsed \<Rightarrow>
          if of_int parsed < relative_seconds_threshold then
            resolve_expires_at_from_duration_seconds (JNum (Fin (of_int parsed))) now_ms (JNum (Fin 0)) None
          else if of_int parsed < absolute_ms_threshold then
            resolve_expires_at_from_epoch_seconds (JNum (Fin (of_int parsed))) 0 None
          else as_date_timestamp_ms (JNum (Fin (of_int parsed))))"

section \<open>Bounds\<close>

lemma clamp_positive_timer_bounds:
  "clamp_positive_timer_timeout_ms v = Some n \<Longrightarrow> 1 \<le> n \<and> n \<le> max_timer_timeout_ms"
  by (auto simp: clamp_positive_timer_timeout_ms_def clamp_timer_timeout_ms_def
      max_timer_timeout_ms_def split: option.splits if_splits)

lemma resolve_integer_option_lower: "resolve_integer_option v f (Some l) None \<ge> l"
  by (simp add: resolve_integer_option_def Let_def)

lemma resolve_non_negative_integer_option_nonneg [simp]: "0 \<le> resolve_non_negative_integer_option v f"
  by (simp add: resolve_non_negative_integer_option_def resolve_integer_option_lower)

section \<open>Decimal tokens\<close>

text \<open>The canonical decimal text of an integer, \<open>String(n)\<close>.\<close>

fun digits_of :: "nat \<Rightarrow> string" where
  "digits_of n = (if n < 10 then [char_of (48 + n)] else digits_of (n div 10) @ [char_of (48 + n mod 10)])"

declare digits_of.simps [simp del]

definition decimal_text :: "int \<Rightarrow> string" where
  "decimal_text n = (if n < 0 then CHR ''-'' # digits_of (nat (- n)) else digits_of (nat n))"

lemma digits_value_append: "digits_value acc (s @ t) = digits_value (digits_value acc s) t"
  by (induction s arbitrary: acc) simp_all

lemma of_char_digit: "n < 10 \<Longrightarrow> of_char (char_of (48 + n :: nat) :: char) = (48 + n :: nat)"
  by simp

lemma digits_of_props: "list_all is_digit (digits_of n) \<and> digits_of n \<noteq> [] \<and> digits_value 0 (digits_of n) = int n"
proof (induction n rule: digits_of.induct)
  case (1 n)
  have d: "is_digit (char_of (48 + m))" "int (of_char (char_of (48 + m) :: char)) - 48 = int m" if "m < 10" for m :: nat
    using that by (simp_all add: is_digit_def Let_def)
  show ?case
  proof (cases "n < 10")
    case True
    then show ?thesis using d [of n] by (simp add: digits_of.simps [of n])
  next
    case False
    have "10 * int (n div 10) + int (n mod 10) = int n" by presburger
    then show ?thesis using False 1 [OF False] d [of "n mod 10"]
      by (simp add: digits_of.simps [of n] digits_value_append)
  qed
qed

lemma digit_not_special: "is_digit c \<Longrightarrow> c \<noteq> CHR ''-'' \<and> c \<noteq> CHR ''+'' \<and> \<not> js_is_space c"
  by (auto simp: is_digit_def js_is_space_def Let_def)

lemma decimal_integer_text: "decimal_integer (decimal_text n) = Some n"
proof -
  have d: "list_all is_digit (digits_of m)" "digits_of m \<noteq> []" "digits_value 0 (digits_of m) = int m" for m
    using digits_of_props by auto
  obtain c r where c: "digits_of (nat n) = c # r" using d(2) by (cases "digits_of (nat n)") auto
  then have "c \<noteq> CHR ''-''" "c \<noteq> CHR ''+''" using d(1) [of "nat n"] digit_not_special [of c] by auto
  then show ?thesis using d [of "nat n"] d [of "nat (- n)"] c by (simp add: decimal_text_def decimal_integer_def)
qed

lemma trim_decimal_text:
  assumes "list_all js_is_space pre" and "list_all js_is_space post"
  shows "js_trim (pre @ decimal_text n @ post) = decimal_text n"
proof -
  have d: "\<not> js_is_space c" if "c \<in> set (decimal_text n)" for c
    using that digits_of_props [of "nat n"] digits_of_props [of "nat (- n)"] digit_not_special [of c]
    by (auto simp: decimal_text_def list_all_iff js_is_space_def split: if_splits)
  have ne: "decimal_text n \<noteq> []" using digits_of_props by (simp add: decimal_text_def)
  have drop: "dropWhile js_is_space (ws @ t) = t" if "list_all js_is_space ws" "t \<noteq> []" "\<not> js_is_space (hd t)" for ws t
    using that by (induction ws) (auto simp: dropWhile_eq_self_iff)
  have "dropWhile js_is_space (pre @ decimal_text n @ post) = decimal_text n @ post"
    by (rule drop) (use assms ne d [of "hd (decimal_text n)"] in auto)
  moreover have "dropWhile js_is_space (rev post @ rev (decimal_text n)) = rev (decimal_text n)"
    by (rule drop) (use assms ne d [of "last (decimal_text n)"] in \<open>auto simp: hd_rev list_all_iff\<close>)
  ultimately show ?thesis by (simp add: js_trim_def)
qed

text \<open>Strict parsing reads back the decimal text of every safe integer, with any white space around
  it, and reads the text of no other integer.\<close>

theorem strict_integer_roundtrip:
  assumes "list_all js_is_space pre" and "list_all js_is_space post"
  shows "parse_strict_integer (JStr (pre @ decimal_text n @ post)) = (if \<bar>n\<bar> \<le> max_safe_integer then Some n else None)"
proof -
  have "decimal_text n \<noteq> []" using digits_of_props by (simp add: decimal_text_def)
  then show ?thesis
    by (simp add: normalize_numeric_string_def trim_decimal_text [OF assms] decimal_integer_text Let_def)
qed

theorem strict_integer_roundtrip_witness:
  "parse_strict_integer (JStr ('' '' @ decimal_text (-120) @ [CHR 0x0A])) =
     (if \<bar>- 120 :: int\<bar> \<le> max_safe_integer then Some (- 120) else None)"
  by (rule strict_integer_roundtrip) (simp_all add: js_is_space_def)

section \<open>Expirations are dates\<close>

lemma expires_from_duration_valid:
  "resolve_expires_at_from_duration_ms v now buffer m = Some t \<Longrightarrow> is_safe_integer t \<and> date_valid t"
  by (auto simp: resolve_expires_at_from_duration_ms_def Let_def max_def split: option.splits if_splits)

text \<open>An expiration computed from a duration is always a safe integer and a valid date, and when the
  minimal remaining time is given and its instant is a date, the expiration is not before it.\<close>

theorem expiration_is_valid_date:
  assumes "resolve_expires_at_from_duration_ms v now_ms buffer m = Some t"
  shows "is_safe_integer t \<and> date_valid t \<and>
    (case (as_date_timestamp_ms now_ms, m) of
       (Some now, Some r) \<Rightarrow> if is_safe_integer (now + r) \<and> date_valid (now + r) then now + r \<le> t else True
     | _ \<Rightarrow> True)"
proof -
  note v = expires_from_duration_valid [OF assms]
  show ?thesis
  proof (cases "as_date_timestamp_ms now_ms")
    case None
    then show ?thesis using v by simp
  next
    case (Some now)
    then show ?thesis using v assms
      by (auto simp: resolve_expires_at_from_duration_ms_def Let_def split: option.splits if_splits)
  qed
qed

theorem expiration_is_valid_date_witness:
  "is_safe_integer 61000 \<and> date_valid 61000 \<and>
    (case (as_date_timestamp_ms (JNum (Fin 1000)), Some (60000 :: rat)) of
       (Some now, Some r) \<Rightarrow> if is_safe_integer (now + r) \<and> date_valid (now + r) then now + r \<le> 61000 else True
     | _ \<Rightarrow> True)"
  by (rule expiration_is_valid_date [where v = "JNum (Fin 50000)" and buffer = "JNum (Fin 0)"])
    (simp add: resolve_expires_at_from_duration_ms_def as_positive_safe_integer_def is_safe_integer_def
      is_integral_def max_safe_integer_def as_date_timestamp_ms_def as_finite_number_in_range_def
      max_date_timestamp_ms_def date_valid_def)

end
