(* ===== verification/ISO_Time.thy ===== *)
theory ISO_Time
  imports JS_Numbers
begin

text \<open>
  The date strings of the standard library that the stores of the program use: \<open>toISOString\<close> of a time in
  milliseconds since 1970 in UTC, for the years 0 to 9999, and \<open>Date.parse\<close> of such a string. A civil date is
  counted in eras of 400 years that start on the first of March. A string of another shape does not
  parse here; the code only writes strings of this shape.
\<close>

section \<open>Civil dates\<close>

definition civil_of_days :: "int \<Rightarrow> int \<times> int \<times> int" where
  "civil_of_days d =
     (let z = d + 719468;
          doe = z mod 146097;
          century = min 3 (doe div 36524);
          r = doe - 36524 * century;
          year = min 3 (r mod 1461 div 365);
          yoe = 100 * century + 4 * (r div 1461) + year;
          doy = r mod 1461 - 365 * year;
          mp = (5 * doy + 2) div 153;
          m = (if mp < 10 then mp + 3 else mp - 9)
      in (yoe + z div 146097 * 400 + (if m \<le> 2 then 1 else 0), m, doy - (153 * mp + 2) div 5 + 1))"

definition days_of_civil :: "int \<Rightarrow> int \<Rightarrow> int \<Rightarrow> int" where
  "days_of_civil y m d =
     (let y' = (if m \<le> 2 then y - 1 else y);
          yoe = y' mod 400;
          doy = (153 * (if m > 2 then m - 3 else m + 9) + 2) div 5 + d - 1
      in y' div 400 * 146097 + (yoe * 365 + yoe div 4 - yoe div 100 + doy) - 719468)"

lemma year_in_era:
  fixes doe :: int
  assumes "0 \<le> doe" "doe < 146097"
  defines "c \<equiv> min 3 (doe div 36524)"
  defines "r \<equiv> doe - 36524 * c"
  defines "y \<equiv> min 3 (r mod 1461 div 365)"
  defines "yoe \<equiv> 100 * c + 4 * (r div 1461) + y" and "doy \<equiv> r mod 1461 - 365 * y"
  shows "0 \<le> yoe" and "yoe < 400" and "0 \<le> doy" and "doy \<le> 365"
    and "yoe * 365 + yoe div 4 - yoe div 100 + doy = doe"
proof -
  have c: "0 \<le> c" "c \<le> 3" "0 \<le> r" "r \<le> 36524" using assms(1,2) unfolding c_def r_def by linarith+
  define q where "q = r div 1461"
  have q: "0 \<le> q" "q \<le> 24" using c unfolding q_def by linarith+
  have r: "r = 1461 * q + r mod 1461" by (simp add: q_def)
  have m: "0 \<le> r mod 1461" "r mod 1461 < 1461" by simp_all
  then have y: "0 \<le> y" "y \<le> 3" "0 \<le> doy" "doy \<le> 365" unfolding y_def doy_def by linarith+
  have yoe: "yoe = 100 * c + 4 * q + y" by (simp add: yoe_def q_def)
  show "0 \<le> yoe" "yoe < 400" "0 \<le> doy" "doy \<le> 365" using c q y by (simp_all add: yoe)
  have "yoe div 4 = 25 * c + q" "yoe div 100 = c" using c q y unfolding yoe by linarith+
  then show "yoe * 365 + yoe div 4 - yoe div 100 + doy = doe"
    using r unfolding yoe doy_def r_def by simp
qed

lemma month_of_day:
  fixes doy :: int
  assumes "0 \<le> doy" "doy \<le> 365"
  defines "mp \<equiv> (5 * doy + 2) div 153"
  shows "0 \<le> mp" and "mp \<le> 11" and "0 \<le> doy - (153 * mp + 2) div 5" and "doy - (153 * mp + 2) div 5 \<le> 30"
proof -
  have mp: "153 * mp \<le> 5 * doy + 2" "5 * doy + 2 < 153 * mp + 153" unfolding mp_def by linarith+
  show "0 \<le> mp" "mp \<le> 11" using mp assms(1,2) by linarith+
  have "mp \<in> {0, 1, 2, 3, 4, 5, 6, 7, 8, 9, 10, 11}" using \<open>0 \<le> mp\<close> \<open>mp \<le> 11\<close> by simp presburger
  then show "0 \<le> doy - (153 * mp + 2) div 5" "doy - (153 * mp + 2) div 5 \<le> 30" using mp by auto
qed

lemma civil_round_trip:
  assumes "civil_of_days d = (y, m, k)"
  shows "days_of_civil y m k = d" and "1 \<le> m" and "m \<le> 12" and "1 \<le> k" and "k \<le> 31"
    and "400 * ((d + 719468) div 146097) \<le> y" and "y \<le> 400 * ((d + 719468) div 146097) + 400"
proof -
  define z where "z = d + 719468"
  define doe where "doe = z mod 146097"
  define c where "c = min 3 (doe div 36524)"
  define r where "r = doe - 36524 * c"
  define yr where "yr = min 3 (r mod 1461 div 365)"
  define yoe where "yoe = 100 * c + 4 * (r div 1461) + yr"
  define doy where "doy = r mod 1461 - 365 * yr"
  define mp where "mp = (5 * doy + 2) div 153"
  have doe: "0 \<le> doe" "doe < 146097" by (simp_all add: doe_def)
  note era = year_in_era [OF doe, folded c_def, folded r_def, folded yr_def, folded yoe_def doy_def]
  note mon = month_of_day [OF era(3,4), folded mp_def]
  have eq: "(yoe + z div 146097 * 400 + (if (if mp < 10 then mp + 3 else mp - 9) \<le> 2 then 1 else 0),
      if mp < 10 then mp + 3 else mp - 9, doy - (153 * mp + 2) div 5 + 1) = (y, m, k)"
    using assms unfolding civil_of_days_def Let_def z_def [symmetric] doe_def [symmetric] c_def [symmetric]
      r_def [symmetric] yr_def [symmetric] yoe_def [symmetric] doy_def [symmetric] mp_def [symmetric] .
  note e = eq [unfolded prod.inject]
  note mk = conjunct1 [OF conjunct2 [OF e]]
  have res: "y = yoe + z div 146097 * 400 + (if m \<le> 2 then 1 else 0)"
      "m = (if mp < 10 then mp + 3 else mp - 9)" "k = doy - (153 * mp + 2) div 5 + 1"
    by (rule conjunct1 [OF e, unfolded mk, symmetric], rule mk [symmetric], rule conjunct2 [OF conjunct2 [OF e], symmetric])
  show "1 \<le> m" "m \<le> 12" using mon(1,2) by (simp_all add: res(2))
  show "1 \<le> k" "k \<le> 31" using mon(3,4) by (simp_all only: res(3))
  define y' where "y' = (if m \<le> 2 then y - 1 else y)"
  have y': "y' = yoe + z div 146097 * 400" unfolding y'_def res(1) by simp
  then have "y' mod 400 = yoe" "y' div 400 = z div 146097" using era(1,2) by simp_all
  moreover have "(if m > 2 then m - 3 else m + 9) = mp" using mon(1,2) by (simp add: res(2))
  ultimately have "days_of_civil y m k =
      z div 146097 * 146097 + (yoe * 365 + yoe div 4 - yoe div 100 + ((153 * mp + 2) div 5 + k - 1)) - 719468"
    unfolding days_of_civil_def Let_def y'_def [symmetric] by simp
  also have "\<dots> = z div 146097 * 146097 + (yoe * 365 + yoe div 4 - yoe div 100 + doy) - 719468" by (simp add: res(3))
  also have "\<dots> = z div 146097 * 146097 + doe - 719468" using era(5) by simp
  also have "\<dots> = d" by (simp add: doe_def z_def)
  finally show "days_of_civil y m k = d" .
  show "400 * ((d + 719468) div 146097) \<le> y" "y \<le> 400 * ((d + 719468) div 146097) + 400"
    using era(1,2) by (simp_all add: res(1) z_def)
qed

section \<open>Writing and reading\<close>

fun fixed_digits :: "nat \<Rightarrow> nat \<Rightarrow> string" where
  "fixed_digits 0 n = []"
| "fixed_digits (Suc k) n = fixed_digits k (n div 10) @ [char_of (48 + n mod 10)]"

fun read_digits :: "nat \<Rightarrow> int \<Rightarrow> string \<Rightarrow> (int \<times> string) option" where
  "read_digits 0 acc s = Some (acc, s)"
| "read_digits (Suc k) acc [] = None"
| "read_digits (Suc k) acc (c # s) = (if is_digit c then read_digits k (10 * acc + int (of_char c - 48)) s else None)"

fun read_char :: "char \<Rightarrow> string \<Rightarrow> string option" where
  "read_char c [] = None"
| "read_char c (d # s) = (if c = d then Some s else None)"

definition two_digits :: "int \<Rightarrow> string" where
  "two_digits n = fixed_digits 2 (nat n)"

text \<open>\<open>new Date(t).toISOString()\<close>.\<close>

definition to_iso_string :: "int \<Rightarrow> string" where
  "to_iso_string t =
     (let r = t mod 86400000
      in case civil_of_days (t div 86400000) of
           (y, m, d) \<Rightarrow>
             fixed_digits 4 (nat y) @ ''-'' @ two_digits m @ ''-'' @ two_digits d @ ''T'' @
             two_digits (r div 3600000) @ '':'' @ two_digits (r div 60000 mod 60) @ '':'' @
             two_digits (r div 1000 mod 60) @ ''.'' @ fixed_digits 3 (nat (r mod 1000)) @ ''Z'')"

text \<open>\<open>Date.parse\<close>, with the failure value \<open>NaN\<close> as \<open>None\<close>.\<close>

definition read_field :: "nat \<Rightarrow> char \<Rightarrow> string \<Rightarrow> (int \<times> string) option" where
  "read_field k c s =
     (case read_digits k 0 s of
        None \<Rightarrow> None
      | Some (n, s) \<Rightarrow> (case read_char c s of None \<Rightarrow> None | Some s \<Rightarrow> Some (n, s)))"

definition date_parse :: "string \<Rightarrow> int option" where
  "date_parse s = Option.bind (read_field 4 (CHR ''-'') s) (\<lambda>(y, s).
     Option.bind (read_field 2 (CHR ''-'') s) (\<lambda>(m, s).
     Option.bind (read_field 2 (CHR ''T'') s) (\<lambda>(d, s).
     Option.bind (read_field 2 (CHR '':'') s) (\<lambda>(h, s).
     Option.bind (read_field 2 (CHR '':'') s) (\<lambda>(mi, s).
     Option.bind (read_field 2 (CHR ''.'') s) (\<lambda>(sec, s).
     Option.bind (read_field 3 (CHR ''Z'') s) (\<lambda>(ms, s).
       if s = [] \<and> 1 \<le> m \<and> m \<le> 12 \<and> 1 \<le> d \<and> d \<le> 31 \<and> h < 24 \<and> mi < 60 \<and> sec < 60
       then Some ((((days_of_civil y m d * 24 + h) * 60 + mi) * 60 + sec) * 1000 + ms)
       else None)))))))"

text \<open>Times whose year has four digits, from 1970 to February 9600.\<close>

definition iso_time :: "int \<Rightarrow> bool" where
  "iso_time t \<longleftrightarrow> 0 \<le> t \<and> t < 240784704000000"

lemma read_digits_append: "read_digits j acc (s @ u) = Some (n, u) \<Longrightarrow> length s = j \<Longrightarrow>
    read_digits (j + k) acc (s @ u) = read_digits k n u"
  by (induction j acc s rule: read_digits.induct) (auto split: if_splits)

lemma length_fixed_digits [simp]: "length (fixed_digits k n) = k"
  by (induction k n rule: fixed_digits.induct) simp_all

lemma read_fixed_digits:
  "n < 10 ^ k \<Longrightarrow> read_digits k acc (fixed_digits k n @ u) = Some (acc * 10 ^ k + int n, u)"
proof (induction k n arbitrary: acc u rule: fixed_digits.induct)
  case (1 n)
  then show ?case by simp
next
  case (2 k n)
  have d: "is_digit (char_of (48 + n mod 10))" "of_char (char_of (48 + n mod 10) :: char) = (48 + n mod 10 :: nat)"
    by (simp_all add: is_digit_def of_char_digit)
  have "n div 10 < 10 ^ k" using "2.prems" by (simp add: less_mult_imp_div_less)
  note IH = "2.IH" [OF this, of acc "char_of (48 + n mod 10) # u"]
  have "read_digits (k + 1) acc (fixed_digits k (n div 10) @ char_of (48 + n mod 10) # u) =
      read_digits 1 (acc * 10 ^ k + int (n div 10)) (char_of (48 + n mod 10) # u)"
    by (rule read_digits_append [OF IH]) simp
  then show ?case using d by (simp add: algebra_simps zdiv_int zmod_int)
qed

lemma read_field_digits [simp]:
  "n < 10 ^ k \<Longrightarrow> read_field k c (fixed_digits k n @ c # u) = Some (int n, u)"
  by (simp add: read_field_def read_fixed_digits)

lemma iso_year:
  assumes "iso_time t" and "civil_of_days (t div 86400000) = (y, m, d)"
  shows "0 \<le> y" and "y < 10000"
proof -
  have "0 \<le> (t div 86400000 + 719468) div 146097" "(t div 86400000 + 719468) div 146097 < 24"
    using assms(1) unfolding iso_time_def by linarith+
  then show "0 \<le> y" "y < 10000" using civil_round_trip(6,7) [OF assms(2)] by linarith+
qed

lemma date_parse_to_iso:
  assumes "iso_time t"
  shows "date_parse (to_iso_string t) = Some t"
proof -
  obtain y m d where c: "civil_of_days (t div 86400000) = (y, m, d)" by (metis prod_cases3)
  define r where "r = t mod 86400000"
  have r: "0 \<le> r" "r < 86400000" "t = 86400000 * (t div 86400000) + r" by (simp_all add: r_def)
  note cv = civil_round_trip(1-5) [OF c] and y = iso_year [OF assms c]
  have two: "two_digits n = fixed_digits 2 (nat n)" for n by (simp add: two_digits_def)
  have h: "0 \<le> r div 3600000" "r div 3600000 < 24" using r by linarith+
  have parts: "((r div 3600000 * 60 + r div 60000 mod 60) * 60 + r div 1000 mod 60) * 1000 + r mod 1000 = r"
  proof -
    have "r div 3600000 = r div 1000 div 60 div 60" "r div 60000 = r div 1000 div 60"
      by (simp_all add: zdiv_zmult2_eq [symmetric])
    then show ?thesis by simp
  qed
  have w: "nat y < 10 ^ 4" "nat m < 10 ^ 2" "nat d < 10 ^ 2" "nat (r div 3600000) < 10 ^ 2"
      "nat (r div 60000 mod 60) < 10 ^ 2" "nat (r div 1000 mod 60) < 10 ^ 2" "nat (r mod 1000) < 10 ^ 3"
    using cv y h pos_mod_bound [of 60 "r div 60000"] pos_mod_bound [of 60 "r div 1000"] pos_mod_bound [of 1000 r]
    by (simp_all add: nat_less_iff)
  have "date_parse (to_iso_string t) =
      Some ((((days_of_civil y m d * 24 + r div 3600000) * 60 + r div 60000 mod 60) * 60 + r div 1000 mod 60) * 1000 + r mod 1000)"
    unfolding date_parse_def to_iso_string_def Let_def c two r_def [symmetric] case_prod_conv append_Cons append_Nil
    using cv(2-5) y h by (simp only: read_field_digits [OF w(1)] read_field_digits [OF w(2)] read_field_digits [OF w(3)]
      read_field_digits [OF w(4)] read_field_digits [OF w(5)] read_field_digits [OF w(6)] read_field_digits [OF w(7)]
      bind.simps case_prod_conv) simp
  also have "\<dots> = Some (days_of_civil y m d * 86400000 + r)" using parts by simp
  also have "\<dots> = Some t" using cv(1) r(3) by simp
  finally show ?thesis .
qed

lemma fixed_digits_digit: "c \<in> set (fixed_digits k n) \<Longrightarrow> is_digit c"
  by (induction k n rule: fixed_digits.induct) (auto simp: is_digit_def)

text \<open>A timestamp is not blank and has no white space at its ends, so the stores read it back unchanged.\<close>

lemma to_iso_stored: "to_iso_string t \<noteq> []" "js_trim (to_iso_string t) = to_iso_string t"
proof -
  obtain y m d where c: "civil_of_days (t div 86400000) = (y, m, d)" by (metis prod_cases3)
  obtain a as where a: "fixed_digits 4 (nat y) = a # as"
    using length_fixed_digits [of 4 "nat y"] by (cases "fixed_digits 4 (nat y)") auto
  then have "is_digit a" using fixed_digits_digit [of a 4 "nat y"] by simp
  then have "\<not> js_is_space a" using digit_not_special by blast
  moreover obtain s where s: "to_iso_string t = a # s @ ''Z''"
    using that by (simp add: to_iso_string_def Let_def c a)
  ultimately show "to_iso_string t \<noteq> []" "js_trim (to_iso_string t) = to_iso_string t"
    by (simp, intro js_trim_eq_self) (simp add: s js_is_space_def)
qed

end
