(* ===== verification/String_Lists.thy ===== *)
theory String_Lists
  imports JS_Numbers
begin

text \<open>
  String lists: \<open>packages/normalization-core/src/string-normalization.ts\<close> without its Unicode slugs. A list
  item of the configuration is a string or an integer; \<open>String(item)\<close> is \<open>item_text\<close>. A loosely typed
  argument is an array of items, one item, or anything else.
\<close>

section \<open>Normalizers\<close>

datatype item = Text string | Number int

fun item_text :: "item \<Rightarrow> string" where
  "item_text (Text s) = s"
| "item_text (Number n) = decimal_text n"

datatype loose_list = Items "item list" | Single item | NoList

definition unique_values :: "'a list \<Rightarrow> 'a list" where
  "unique_values xs = fold set_add xs []"

abbreviation unique_strings :: "string list \<Rightarrow> string list" where
  "unique_strings \<equiv> unique_values"

definition normalize_string_entries :: "item list \<Rightarrow> string list" where
  "normalize_string_entries xs =
     filter (\<lambda>s. s \<noteq> []) (map (\<lambda>x. case normalize_optional_string (Some (item_text x)) of Some s \<Rightarrow> s | None \<Rightarrow> []) xs)"

definition normalize_string_entries_lower :: "item list \<Rightarrow> string list" where
  "normalize_string_entries_lower xs =
     map (\<lambda>s. case normalize_optional_lowercase_string (Some s) of Some t \<Rightarrow> t | None \<Rightarrow> []) (normalize_string_entries xs)"

definition sort_unique_strings :: "string list \<Rightarrow> string list" where
  "sort_unique_strings xs = sort (unique_strings xs)"

definition normalize_unique_string_entries :: "item list \<Rightarrow> string list" where
  "normalize_unique_string_entries xs = unique_strings (normalize_string_entries xs)"

definition normalize_unique_string_entries_lower :: "item list \<Rightarrow> string list" where
  "normalize_unique_string_entries_lower xs = unique_strings (filter (\<lambda>s. s \<noteq> []) (normalize_string_entries_lower xs))"

definition normalize_sorted_unique_string_entries :: "item list \<Rightarrow> string list" where
  "normalize_sorted_unique_string_entries xs = sort_unique_strings (normalize_unique_string_entries xs)"

text \<open>The trimmed lists keep strings only.\<close>

fun trimmed_item :: "item \<Rightarrow> string list" where
  "trimmed_item (Text s) = (case normalize_optional_string (Some s) of Some t \<Rightarrow> [t] | None \<Rightarrow> [])"
| "trimmed_item (Number n) = []"

fun normalize_trimmed_string_list :: "loose_list \<Rightarrow> string list" where
  "normalize_trimmed_string_list (Items xs) = concat (map trimmed_item xs)"
| "normalize_trimmed_string_list _ = []"

definition normalize_unique_trimmed_string_list :: "loose_list \<Rightarrow> string list" where
  "normalize_unique_trimmed_string_list v = unique_strings (normalize_trimmed_string_list v)"

definition normalize_sorted_unique_trimmed_string_list :: "loose_list \<Rightarrow> string list" where
  "normalize_sorted_unique_trimmed_string_list v = sort_unique_strings (normalize_trimmed_string_list v)"

definition normalize_optional_trimmed_string_list :: "loose_list \<Rightarrow> string list option" where
  "normalize_optional_trimmed_string_list v =
     (let n = normalize_trimmed_string_list v in if n \<noteq> [] then Some n else None)"

fun normalize_array_backed_trimmed_string_list :: "loose_list \<Rightarrow> string list option" where
  "normalize_array_backed_trimmed_string_list (Items xs) = Some (normalize_trimmed_string_list (Items xs))"
| "normalize_array_backed_trimmed_string_list _ = None"

fun normalize_single_or_trimmed_string_list :: "loose_list \<Rightarrow> string list" where
  "normalize_single_or_trimmed_string_list (Items xs) = normalize_trimmed_string_list (Items xs)"
| "normalize_single_or_trimmed_string_list (Single x) = trimmed_item x"
| "normalize_single_or_trimmed_string_list NoList = []"

definition normalize_unique_single_or_trimmed_string_list :: "loose_list \<Rightarrow> string list" where
  "normalize_unique_single_or_trimmed_string_list v = unique_strings (normalize_single_or_trimmed_string_list v)"

fun normalize_csv_or_loose_string_list :: "loose_list \<Rightarrow> string list" where
  "normalize_csv_or_loose_string_list (Items xs) = normalize_string_entries xs"
| "normalize_csv_or_loose_string_list (Single (Text s)) = filter (\<lambda>e. e \<noteq> []) (map js_trim (js_split CHR '','' s))"
| "normalize_csv_or_loose_string_list _ = []"

section \<open>Facts\<close>

lemma fold_set_add: "set (fold set_add xs acc) = set acc \<union> set xs"
  by (induction xs arbitrary: acc) auto

lemma distinct_fold_set_add: "distinct acc \<Longrightarrow> distinct (fold set_add xs acc)"
  by (induction xs arbitrary: acc) auto

lemma set_unique_values [simp]: "set (unique_values xs) = set xs"
  by (simp add: unique_values_def fold_set_add)

lemma distinct_unique_values [simp]: "distinct (unique_values xs)"
  by (simp add: unique_values_def distinct_fold_set_add)

lemma unique_values_Nil [simp]: "unique_values [] = []"
  by (simp add: unique_values_def)

lemma unique_values_empty_iff [simp]: "unique_values xs = [] \<longleftrightarrow> xs = []"
  by (metis set_empty set_unique_values)

lemma fold_set_add_distinct: "distinct (acc @ xs) \<Longrightarrow> fold set_add xs acc = acc @ xs"
  by (induction xs arbitrary: acc) (auto simp: set_add_def)

lemma unique_values_distinct: "distinct xs \<Longrightarrow> unique_values xs = xs"
  by (simp add: unique_values_def fold_set_add_distinct)

lemma normalize_string_entries_eq:
  "normalize_string_entries xs = filter (\<lambda>s. s \<noteq> []) (map (\<lambda>x. js_trim (item_text x)) xs)"
proof -
  have "(case normalize_optional_string (Some (item_text x)) of Some s \<Rightarrow> s | None \<Rightarrow> []) = js_trim (item_text x)" for x
    by (simp add: normalize_optional_string_def Let_def)
  then show ?thesis by (simp add: normalize_string_entries_def)
qed

lemma normalized_entry_trimmed: "s \<in> set (normalize_string_entries xs) \<Longrightarrow> s \<noteq> [] \<and> js_trim s = s"
  by (auto simp: normalize_string_entries_eq)

lemma normalize_string_entries_texts:
  "(\<And>s. s \<in> set ss \<Longrightarrow> s \<noteq> [] \<and> js_trim s = s) \<Longrightarrow> normalize_string_entries (map Text ss) = ss"
  by (induction ss) (auto simp: normalize_string_entries_eq)

lemma normalize_string_entries_idem [simp]:
  "normalize_string_entries (map Text (normalize_string_entries xs)) = normalize_string_entries xs"
  by (rule normalize_string_entries_texts) (rule normalized_entry_trimmed)

lemma normalize_string_entries_append:
  "normalize_string_entries (xs @ ys) = normalize_string_entries xs @ normalize_string_entries ys"
  by (simp add: normalize_string_entries_eq)

text \<open>Every normalizer yields trimmed, non-empty strings, and the sorted ones are strictly ordered.\<close>

lemma trimmed_list_entry: "s \<in> set (normalize_single_or_trimmed_string_list v) \<Longrightarrow> s \<noteq> [] \<and> js_trim s = s"
proof -
  have item: "s \<in> set (trimmed_item x) \<Longrightarrow> s \<noteq> [] \<and> js_trim s = s" for x
    by (cases x) (auto simp: normalize_optional_string_def Let_def split: if_splits)
  then show "s \<in> set (normalize_single_or_trimmed_string_list v) \<Longrightarrow> s \<noteq> [] \<and> js_trim s = s"
    by (cases v) auto
qed

lemma sorted_unique_strict: "sorted_wrt (<) (sort_unique_strings xs)"
  by (simp add: sort_unique_strings_def strict_sorted_iff)

end
