(* ===== verification/Route_Ids.thy ===== *)
theory Route_Ids
  imports JS_Strings
begin

text \<open>
  Canonical agent and account ids and the conversation kinds of routing:
  \<open>packages/normalization-core/src/agent-id.ts\<close>, \<open>src/src/routing/account-id.ts\<close>,
  \<open>src/src/infra/prototype-keys.ts\<close>, \<open>src/src/channels/chat-type.ts\<close> and
  \<open>src/src/routing/peer-kind-match.ts\<close>. The regular expressions are functions on the characters.
\<close>

section \<open>Identifier characters\<close>

definition is_lower_alnum :: "char \<Rightarrow> bool" where
  "is_lower_alnum c \<longleftrightarrow> (let n = (of_char c :: nat) in 97 \<le> n \<and> n \<le> 122 \<or> 48 \<le> n \<and> n \<le> 57)"

definition is_id_char :: "char \<Rightarrow> bool" where
  "is_id_char c \<longleftrightarrow> is_lower_alnum c \<or> c = CHR ''_'' \<or> c = CHR ''-''"

text \<open>\<open>VALID_ID_RE = /^[a-z0-9][a-z0-9_-]{0,63}$/i\<close>; the flag folds ASCII letters.\<close>

definition fold_case :: "char \<Rightarrow> char" where
  "fold_case c = (let n = (of_char c :: nat) in if 65 \<le> n \<and> n \<le> 90 then char_of (n + 32) else c)"

lemma is_lower_alnum_code [code]:
  "is_lower_alnum (Char b0 b1 b2 b3 b4 b5 b6 b7) \<longleftrightarrow>
     b5 \<and> \<not> b7 \<and> (if b6 then letter_bits b0 b1 b2 b3 b4 else b4 \<and> \<not> (b3 \<and> (b2 \<or> b1)))"
  by (cases b0; cases b1; cases b2; cases b3; cases b4; cases b5; cases b6; cases b7)
    (simp_all add: is_lower_alnum_def letter_bits_def)

lemma fold_case_code [code]:
  "fold_case (Char b0 b1 b2 b3 b4 b5 b6 b7) =
     Char b0 b1 b2 b3 b4 (b5 \<or> b6 \<and> \<not> b7 \<and> letter_bits b0 b1 b2 b3 b4) b6 b7"
  by (cases b0; cases b1; cases b2; cases b3; cases b4; cases b5; cases b6; cases b7)
    (simp_all add: fold_case_def letter_bits_def char_of_eq_iff take_bit_eq_mod)

fun valid_id :: "string \<Rightarrow> bool" where
  "valid_id [] = False"
| "valid_id (c # s) =
     (is_lower_alnum (fold_case c) \<and> list_all (\<lambda>d. is_id_char (fold_case d)) s \<and> length s \<le> 63)"

text \<open>\<open>replace(/[^a-z0-9_-]+/g, "-")\<close>: each maximal run of other characters becomes one dash.\<close>

function replace_invalid :: "string \<Rightarrow> string" where
  "replace_invalid [] = []"
| "replace_invalid (c # s) =
     (if is_id_char c then c # replace_invalid s
      else CHR ''-'' # replace_invalid (dropWhile (\<lambda>d. \<not> is_id_char d) s))"
  by pat_completeness auto
termination by (relation "measure length") (auto simp: length_dropWhile_le less_Suc_eq_le)

definition strip_leading_dashes :: "string \<Rightarrow> string" where
  "strip_leading_dashes = dropWhile (\<lambda>c. c = CHR ''-'')"

definition strip_trailing_dashes :: "string \<Rightarrow> string" where
  "strip_trailing_dashes s = rev (dropWhile (\<lambda>c. c = CHR ''-'') (rev s))"

definition canonical_chars :: "string \<Rightarrow> string" where
  "canonical_chars s = take 64 (strip_trailing_dashes (strip_leading_dashes (replace_invalid s)))"

section \<open>Agent ids\<close>

definition default_agent_id :: string where
  "default_agent_id = ''main''"

definition normalize_agent_id :: "string option \<Rightarrow> string" where
  "normalize_agent_id v =
     (let trimmed = js_trim (case v of None \<Rightarrow> [] | Some s \<Rightarrow> s) in
      if trimmed = [] then default_agent_id
      else
        (let normalized = normalize_lowercase_string_or_empty (Some trimmed) in
         if valid_id trimmed then normalized
         else (let r = canonical_chars normalized in if r \<noteq> [] then r else default_agent_id)))"

definition is_valid_agent_id :: "string option \<Rightarrow> bool" where
  "is_valid_agent_id v =
     (let trimmed = js_trim (case v of None \<Rightarrow> [] | Some s \<Rightarrow> s) in trimmed \<noteq> [] \<and> valid_id trimmed)"

section \<open>Account ids\<close>

definition default_account_id :: string where
  "default_account_id = ''default''"

definition is_blocked_object_key :: "string \<Rightarrow> bool" where
  "is_blocked_object_key k \<longleftrightarrow> k \<in> set [''__proto__'', ''prototype'', ''constructor'']"

definition canonicalize_account_id :: "string \<Rightarrow> string" where
  "canonicalize_account_id v =
     (let normalized = normalize_lowercase_string_or_empty (Some v) in
      if valid_id v then normalized else canonical_chars normalized)"

definition normalize_canonical_account_id :: "string \<Rightarrow> string option" where
  "normalize_canonical_account_id v =
     (let canonical = canonicalize_account_id v in
      if canonical = [] \<or> is_blocked_object_key canonical then None else Some canonical)"

text \<open>
  \<open>normalizeAccountId\<close> with its bounded cache, and what it computes without one. An entry found in
  the cache counts only when it is a non-empty string.
\<close>

definition account_id_cache_max :: nat where
  "account_id_cache_max = 512"

definition set_normalize_cache :: "(string, 'v) js_map \<Rightarrow> string \<Rightarrow> 'v \<Rightarrow> (string, 'v) js_map" where
  "set_normalize_cache cache k v =
     (let cache' = js_set k v cache in
      if length cache' \<le> account_id_cache_max then cache'
      else (case cache' of [] \<Rightarrow> cache' | (oldest, _) # _ \<Rightarrow> js_delete oldest cache'))"

definition account_id_of :: "string option \<Rightarrow> string" where
  "account_id_of v =
     (let trimmed = js_trim (case v of None \<Rightarrow> [] | Some s \<Rightarrow> s) in
      if trimmed = [] then default_account_id
      else (case normalize_canonical_account_id trimmed of None \<Rightarrow> default_account_id | Some a \<Rightarrow> a))"

definition normalize_account_id ::
    "string option \<Rightarrow> (string, string) js_map \<Rightarrow> string \<times> (string, string) js_map" where
  "normalize_account_id v cache =
     (let trimmed = js_trim (case v of None \<Rightarrow> [] | Some s \<Rightarrow> s) in
      if trimmed = [] then (default_account_id, cache)
      else
        (case js_get cache trimmed of
           Some (c # cs) \<Rightarrow> (c # cs, cache)
         | _ \<Rightarrow>
             (let normalized = (case normalize_canonical_account_id trimmed of
                                  None \<Rightarrow> default_account_id | Some a \<Rightarrow> a)
              in (normalized, set_normalize_cache cache trimmed normalized))))"

definition normalize_optional_account_id ::
    "string option \<Rightarrow> (string, string option) js_map \<Rightarrow> string option \<times> (string, string option) js_map" where
  "normalize_optional_account_id v cache =
     (let trimmed = js_trim (case v of None \<Rightarrow> [] | Some s \<Rightarrow> s) in
      if trimmed = [] then (None, cache)
      else
        (case js_get cache trimmed of
           Some hit \<Rightarrow> (hit, cache)
         | None \<Rightarrow>
             (let normalized = normalize_canonical_account_id trimmed
              in (normalized, set_normalize_cache cache trimmed normalized))))"

section \<open>Conversation kinds\<close>

datatype chat_type = Direct | Group | Channel

definition normalize_chat_type :: "string option \<Rightarrow> chat_type option" where
  "normalize_chat_type raw =
     (case normalize_optional_lowercase_string raw of
        None \<Rightarrow> None
      | Some v \<Rightarrow>
          if v = ''direct'' \<or> v = ''dm'' then Some Direct
          else if v = ''group'' then Some Group
          else if v = ''channel'' then Some Channel
          else None)"

fun peer_kind_matches :: "chat_type \<Rightarrow> chat_type \<Rightarrow> bool" where
  "peer_kind_matches binding_kind scope_kind =
     (binding_kind = scope_kind \<or>
      binding_kind = Group \<and> scope_kind = Channel \<or>
      binding_kind = Channel \<and> scope_kind = Group)"

section \<open>Canonical form\<close>

definition canonical_id :: "string \<Rightarrow> bool" where
  "canonical_id s \<longleftrightarrow> s \<noteq> [] \<and> length s \<le> 64 \<and> list_all is_id_char s \<and> hd s \<noteq> CHR ''-''"

lemma is_id_char_facts:
  assumes "is_id_char c"
  shows "fold_case c = c" and "js_lower_char c = c" and "\<not> js_is_space c"
  using assms
  by (auto simp: is_id_char_def is_lower_alnum_def fold_case_def js_lower_char_def js_is_upper_def js_is_space_def Let_def)

lemma fold_case_lower:
  assumes "is_id_char (fold_case c)"
  shows "js_lower_char c = fold_case c" and "\<not> js_is_space c"
proof -
  consider "65 \<le> (of_char c :: nat)" "(of_char c :: nat) \<le> 90" | "fold_case c = c"
    by (cases "65 \<le> (of_char c :: nat) \<and> (of_char c :: nat) \<le> 90") (auto simp: fold_case_def Let_def)
  then show "js_lower_char c = fold_case c"
  proof cases
    case 1
    then show ?thesis by (simp add: fold_case_def js_lower_char_def js_is_upper_def Let_def)
  next
    case 2
    then show ?thesis using assms by (simp add: is_id_char_facts(2))
  qed
  show "\<not> js_is_space c"
    using assms is_id_char_facts(3) [of c]
    by (cases "fold_case c = c") (auto simp: fold_case_def js_is_space_def Let_def split: if_splits)
qed

lemma lower_id: "list_all (\<lambda>d. is_id_char (fold_case d)) s \<Longrightarrow> list_all is_id_char (js_lower s)"
  by (induction s) (auto simp: js_lower_def fold_case_lower)

lemma lower_id_id: "list_all is_id_char s \<Longrightarrow> js_lower s = s"
  by (induction s) (auto simp: js_lower_def is_id_char_facts)

lemma trim_id: "list_all is_id_char s \<Longrightarrow> js_trim s = s"
  by (rule js_trim_eq_self) (cases "s = []", auto simp: list_all_iff is_id_char_facts)

lemma replace_invalid_id: "list_all is_id_char (replace_invalid s)"
  by (induction s rule: replace_invalid.induct) (auto simp: is_id_char_def)

lemma replace_invalid_same: "list_all is_id_char s \<Longrightarrow> replace_invalid s = s"
  by (induction s) auto

lemma strip_trailing_prefix: "\<exists>k. strip_trailing_dashes s = take k s"
proof -
  obtain k where "dropWhile (\<lambda>c. c = CHR ''-'') (rev s) = drop k (rev s)" by (metis dropWhile_eq_drop)
  then show ?thesis by (metis strip_trailing_dashes_def rev_drop rev_rev_ident length_rev)
qed

lemma canonical_chars_props:
  "list_all is_id_char (canonical_chars s)" "length (canonical_chars s) \<le> 64"
  "canonical_chars s \<noteq> [] \<Longrightarrow> hd (canonical_chars s) \<noteq> CHR ''-''"
proof -
  let ?a = "strip_leading_dashes (replace_invalid s)"
  obtain k where k: "strip_trailing_dashes ?a = take k ?a" using strip_trailing_prefix by blast
  have a: "list_all is_id_char ?a"
    using replace_invalid_id [of s] by (auto simp: strip_leading_dashes_def list_all_iff dest: set_dropWhileD)
  show "list_all is_id_char (canonical_chars s)"
    using a by (auto simp: canonical_chars_def k list_all_iff dest: in_set_takeD)
  show "length (canonical_chars s) \<le> 64" by (simp add: canonical_chars_def)
  show "hd (canonical_chars s) \<noteq> CHR ''-''" if ne: "canonical_chars s \<noteq> []"
  proof -
    have "hd (canonical_chars s) = hd ?a" using ne by (simp add: canonical_chars_def k hd_take)
    moreover have "?a \<noteq> []" using ne by (auto simp: canonical_chars_def k)
    ultimately show ?thesis using hd_dropWhile [of "\<lambda>c. c = CHR ''-''"] by (auto simp: strip_leading_dashes_def)
  qed
qed

lemma canonical_chars_last:
  assumes "canonical_chars s \<noteq> []" and "length (canonical_chars s) < 64"
  shows "last (canonical_chars s) \<noteq> CHR ''-''"
proof -
  let ?a = "strip_leading_dashes (replace_invalid s)"
  have e: "canonical_chars s = strip_trailing_dashes ?a"
    using assms(2) by (simp add: canonical_chars_def)
  then have "dropWhile (\<lambda>c. c = CHR ''-'') (rev ?a) \<noteq> []" using assms(1) by (simp add: strip_trailing_dashes_def)
  from hd_dropWhile [OF this] show ?thesis by (simp add: e strip_trailing_dashes_def last_rev)
qed

lemma canonical_chars_same:
  assumes "list_all is_id_char s" and "s \<noteq> []" and "hd s \<noteq> CHR ''-''" and "last s \<noteq> CHR ''-''" and "length s \<le> 64"
  shows "canonical_chars s = s"
proof -
  have "strip_leading_dashes s = s" using assms(2,3) by (cases s) (auto simp: strip_leading_dashes_def)
  moreover have "strip_trailing_dashes s = s"
    using assms(2,4) by (cases s rule: rev_cases) (auto simp: strip_trailing_dashes_def)
  ultimately show ?thesis using assms(1,5) by (simp add: canonical_chars_def replace_invalid_same)
qed

lemma valid_lower:
  assumes "valid_id s"
  shows "canonical_id (js_lower s)" and "is_lower_alnum (hd (js_lower s))" and "js_trim s = s"
proof -
  obtain c r where s: "s = c # r" using assms by (cases s) auto
  have c: "is_lower_alnum (fold_case c)" and r: "list_all (\<lambda>d. is_id_char (fold_case d)) r" "length r \<le> 63"
    using assms by (auto simp: s)
  have all: "list_all (\<lambda>d. is_id_char (fold_case d)) s" using c r by (simp add: s is_id_char_def)
  have h: "hd (js_lower s) = fold_case c" using c fold_case_lower(1) [of c] by (simp add: s js_lower_def is_id_char_def)
  then show "is_lower_alnum (hd (js_lower s))" using c by simp
  moreover have "\<not> is_lower_alnum (CHR ''-'')" by (simp add: is_lower_alnum_def Let_def)
  ultimately show "canonical_id (js_lower s)"
    using r lower_id [OF all] by (auto simp: canonical_id_def s js_lower_def)
  show "js_trim s = s"
    by (rule js_trim_eq_self) (use all in \<open>auto simp: s list_all_iff dest: fold_case_lower(2)\<close>)
qed

lemma canonical_valid:
  assumes "canonical_id s" and "hd s \<noteq> CHR ''_''"
  shows "valid_id s"
proof -
  obtain c r where s: "s = c # r" using assms(1) by (cases s) (auto simp: canonical_id_def)
  have "list_all (\<lambda>d. is_id_char (fold_case d)) r"
    using assms(1) by (auto simp: canonical_id_def s list_all_iff is_id_char_facts)
  moreover have "is_lower_alnum (fold_case c)"
    using assms by (auto simp: canonical_id_def s is_id_char_facts(1)) (auto simp: is_id_char_def)
  ultimately show ?thesis using assms(1) by (simp add: s canonical_id_def)
qed

lemma canonical_default: "canonical_id default_agent_id" "canonical_id default_account_id"
  by code_simp+

lemma normalize_agent_id_canonical: "canonical_id (normalize_agent_id v)"
proof -
  let ?t = "js_trim (case v of None \<Rightarrow> [] | Some s \<Rightarrow> s)"
  consider "?t = []" | "?t \<noteq> []" "valid_id ?t" | "?t \<noteq> []" "\<not> valid_id ?t" by blast
  then show ?thesis
  proof cases
    case 2
    then show ?thesis using valid_lower [of ?t] by (simp add: normalize_agent_id_def normalize_lowercase_eq Let_def)
  next
    case 3
    then show ?thesis
      using canonical_chars_props [of "js_lower ?t"] canonical_default(1)
      by (auto simp: normalize_agent_id_def normalize_lowercase_eq Let_def canonical_id_def)
  qed (simp add: normalize_agent_id_def canonical_default)
qed

text \<open>A canonical id is a fixed point, unless it starts with an underscore and ends with a dash.\<close>

lemma normalize_agent_id_fixed:
  assumes "canonical_id s" and "hd s \<noteq> CHR ''_'' \<or> last s \<noteq> CHR ''-''"
  shows "normalize_agent_id (Some s) = s"
proof -
  have all: "list_all is_id_char s" and ne: "s \<noteq> []" using assms(1) by (auto simp: canonical_id_def)
  have low: "normalize_lowercase_string_or_empty (Some s) = s"
    by (simp add: normalize_lowercase_eq trim_id [OF all] lower_id_id [OF all])
  show ?thesis
  proof (cases "valid_id s")
    case True
    then show ?thesis by (simp add: normalize_agent_id_def trim_id [OF all] ne low)
  next
    case False
    then have "last s \<noteq> CHR ''-''" using assms canonical_valid by blast
    then have "canonical_chars s = s"
      using assms(1) by (intro canonical_chars_same) (auto simp: canonical_id_def)
    then show ?thesis using False by (simp add: normalize_agent_id_def trim_id [OF all] ne low)
  qed
qed

lemma normalize_agent_id_unstable_shape:
  assumes "hd (normalize_agent_id v) = CHR ''_''" and "last (normalize_agent_id v) = CHR ''-''"
  shows "length (normalize_agent_id v) = 64"
proof -
  let ?t = "js_trim (case v of None \<Rightarrow> [] | Some s \<Rightarrow> s)"
  have d: "hd default_agent_id \<noteq> CHR ''_''" by (simp add: default_agent_id_def)
  have nv: "\<not> is_lower_alnum (CHR ''_'')" by (simp add: is_lower_alnum_def Let_def)
  have t: "?t \<noteq> []" "\<not> valid_id ?t" "canonical_chars (js_lower ?t) \<noteq> []"
    using assms(1) d nv valid_lower(2) [of ?t]
    by (auto simp: normalize_agent_id_def normalize_lowercase_eq Let_def split: if_splits)
  then have e: "normalize_agent_id v = canonical_chars (js_lower ?t)"
    by (simp add: normalize_agent_id_def normalize_lowercase_eq Let_def)
  then show ?thesis
    using canonical_chars_last [of "js_lower ?t"] canonical_chars_props(2) [of "js_lower ?t"] t(3) assms(2) by fastforce
qed

lemma account_id_of_canonical: "canonical_id (account_id_of v) \<and> \<not> is_blocked_object_key (account_id_of v)"
proof -
  let ?t = "js_trim (case v of None \<Rightarrow> [] | Some s \<Rightarrow> s)"
  have d: "canonical_id default_account_id \<and> \<not> is_blocked_object_key default_account_id" by code_simp
  have c: "canonical_id (canonicalize_account_id ?t)" if "canonicalize_account_id ?t \<noteq> []"
    using that canonical_chars_props [of "js_lower ?t"] valid_lower(1) [of ?t]
    by (auto simp: canonicalize_account_id_def normalize_lowercase_eq Let_def canonical_id_def split: if_splits)
  show ?thesis
    using d c by (auto simp: account_id_of_def normalize_canonical_account_id_def Let_def split: option.splits if_splits)
qed

section \<open>The caches are transparent and bounded\<close>

lemma js_set_nonempty [simp]: "js_set k v m \<noteq> []"
  by (induction k v m rule: js_set.induct) auto

lemma set_normalize_cache_get:
  "js_get (set_normalize_cache cache k v) k' = Some a \<Longrightarrow> k' = k \<and> a = v \<or> js_get cache k' = Some a"
proof -
  assume a: "js_get (set_normalize_cache cache k v) k' = Some a"
  obtain old v0 m where m: "js_set k v cache = (old, v0) # m" by (cases "js_set k v cache") auto
  have "js_get (js_delete old (js_set k v cache)) k' = Some a \<or> js_get (js_set k v cache) k' = Some a"
    using a by (auto simp: set_normalize_cache_def Let_def m split: if_splits)
  then show ?thesis by (auto split: if_splits)
qed

lemma set_normalize_cache_bounded:
  assumes "js_wf cache" and "length cache \<le> account_id_cache_max"
  shows "js_wf (set_normalize_cache cache k v) \<and> length (set_normalize_cache cache k v) \<le> account_id_cache_max"
proof -
  obtain old v0 m where m: "js_set k v cache = (old, v0) # m" by (cases "js_set k v cache") auto
  have wf: "js_wf (js_set k v cache)" using assms(1) by simp
  have le: "length (js_set k v cache) \<le> Suc account_id_cache_max" using assms(2) by (simp add: length_js_set)
  have "Suc (length (js_delete old (js_set k v cache))) = length (js_set k v cache)"
    by (rule length_js_delete_present [OF wf]) (simp add: m)
  then show ?thesis using wf le js_wf_delete [OF wf, of old]
    by (auto simp: set_normalize_cache_def Let_def m)
qed

interpretation account_memo: memo_table "\<lambda>k. account_id_of (Some k)"
  "\<lambda>k v c. set_normalize_cache c k v" account_id_cache_max
  by unfold_locales (simp_all add: set_normalize_cache_bounded set_normalize_cache_get)

interpretation optional_account_memo: memo_table normalize_canonical_account_id
  "\<lambda>k v c. set_normalize_cache c k v" account_id_cache_max
  by unfold_locales (simp_all add: set_normalize_cache_bounded set_normalize_cache_get)

lemma account_id_of_trim: "account_id_of (Some (js_trim s)) = account_id_of (Some s)"
  by (simp add: account_id_of_def)

text \<open>Caching never changes a normalized account id: with any cache built by earlier calls the result
  is the uncached one, is a canonical non-empty id of at most 64 characters and never a key that could
  reach an object prototype, and the cache stays correct and bounded.\<close>

theorem account_id_cache_transparent:
  assumes "memo_ok (\<lambda>k. account_id_of (Some k)) account_id_cache_max cache"
  shows "fst (normalize_account_id v cache) = account_id_of v \<and>
         canonical_id (account_id_of v) \<and> \<not> is_blocked_object_key (account_id_of v) \<and>
         memo_ok (\<lambda>k. account_id_of (Some k)) account_id_cache_max (snd (normalize_account_id v cache))"
proof -
  let ?t = "js_trim (case v of None \<Rightarrow> [] | Some s \<Rightarrow> s)"
  let ?n = "case normalize_canonical_account_id ?t of None \<Rightarrow> default_account_id | Some a \<Rightarrow> a"
  have t: "account_id_of (Some ?t) = account_id_of v" by (simp add: account_id_of_def)
  have n: "?t \<noteq> [] \<Longrightarrow> ?n = account_id_of (Some ?t)" by (simp add: account_id_of_def)
  have miss: "normalize_account_id v cache = (?n, set_normalize_cache cache ?t ?n)"
    if "?t \<noteq> []" "\<forall>c cs. js_get cache ?t \<noteq> Some (c # cs)"
    using that by (auto simp: normalize_account_id_def Let_def split: option.split list.split)
  have "fst (normalize_account_id v cache) = account_id_of v \<and>
        memo_ok (\<lambda>k. account_id_of (Some k)) account_id_cache_max (snd (normalize_account_id v cache))"
  proof (cases "?t = [] \<or> (\<exists>c cs. js_get cache ?t = Some (c # cs))")
    case True
    then show ?thesis
    proof
      assume "?t = []"
      then show ?thesis using assms by (simp add: normalize_account_id_def account_id_of_def)
    next
      assume "\<exists>c cs. js_get cache ?t = Some (c # cs)"
      then obtain c cs where hit: "js_get cache ?t = Some (c # cs)" by blast
      have c: "c # cs = account_id_of v" using account_memo.memo_hit [OF assms hit] by (simp add: t)
      have "normalize_account_id v cache = (account_id_of v, cache)"
      proof (cases "?t = []")
        case True
        then show ?thesis by (simp add: normalize_account_id_def account_id_of_def)
      next
        case False
        then show ?thesis by (simp add: normalize_account_id_def hit Let_def c [symmetric])
      qed
      then show ?thesis using assms by simp
    qed
  next
    case False
    then have m: "normalize_account_id v cache = (?n, set_normalize_cache cache ?t ?n)" by (intro miss) auto
    have "?n = account_id_of (Some ?t)" using False n by blast
    then show ?thesis unfolding m using account_memo.memo_put [OF assms, of ?t] t by simp
  qed
  then show ?thesis using account_id_of_canonical by blast
qed

theorem account_id_cache_transparent_witness:
  "fst (normalize_account_id (Some ''My Acct'') [(''My Acct'', ''my-acct'')]) = ''my-acct''"
proof -
  have a: "account_id_of (Some ''My Acct'') = ''my-acct''" by code_simp
  then have "memo_ok (\<lambda>k. account_id_of (Some k)) account_id_cache_max [(''My Acct'', ''my-acct'')]"
    by (simp add: memo_ok_def account_id_cache_max_def)
  from account_id_cache_transparent [OF this, of "Some ''My Acct''"] a show ?thesis by simp
qed

text \<open>C37: A normalized agent id is canonical: non-empty, at most 64 characters of \<open>[a-z0-9_-]\<close>, not starting
  with a dash; and normalizing it again changes nothing, except for a truncated id of exactly 64
  characters that starts with an underscore and ends with a dash.\<close>

theorem agent_id_canonical_and_stable:
  "canonical_id (normalize_agent_id v) \<and>
   (normalize_agent_id (Some (normalize_agent_id v)) = normalize_agent_id v \<or>
    (hd (normalize_agent_id v) = CHR ''_'' \<and> last (normalize_agent_id v) = CHR ''-'' \<and>
     length (normalize_agent_id v) = 64))"
  using normalize_agent_id_canonical [of v] normalize_agent_id_fixed [of "normalize_agent_id v"]
    normalize_agent_id_unstable_shape [of v] by blast

text \<open>The exception occurs: an agent id that begins with an underscore and is cut at a dash normalizes to
  an id that normalizes to another one, so the two spellings of one agent are told apart.\<close>

theorem agent_id_normalization_not_idempotent:
  "let v = CHR ''_'' # replicate 62 (CHR ''a'') @ ''-b''
   in normalize_agent_id (Some v) = CHR ''_'' # replicate 62 (CHR ''a'') @ ''-'' \<and>
      normalize_agent_id (Some (normalize_agent_id (Some v))) = CHR ''_'' # replicate 62 (CHR ''a'')"
  by code_simp

end
