(* ===== verification/Pairing_Store.thy ===== *)
theory Pairing_Store
  imports ISO_Time String_Lists Route_Ids
begin

text \<open>
  Pairing requests and approved senders of a channel: \<open>src/pairing/pairing-store-keys.ts\<close>,
  \<open>pairing-store-sqlite.ts\<close> and \<open>pairing-store.ts\<close>. The two SQLite tables are lists of rows with their primary
  keys checked on insertion; a write transaction that throws leaves the database as it was. The column
  \<open>meta_json\<close> holds the string fields of the record it encodes, or nothing for any other text. Account
  ids that are properties of every JavaScript object (\<open>__proto__\<close>, \<open>constructor\<close>) are outside the model.
  An operation reads the clock once.
\<close>

section \<open>Keys\<close>

datatype key_kind = ChannelKey | AccountKey

text \<open>The errors: an invalid key with its reason and a description of the input, a violated primary key,
  and a code generator that only found used codes.\<close>

datatype pairing_error = InvalidPairingKey key_kind string string | RowExists | NoUniqueCode nat

definition and_then :: "'e + 'a \<Rightarrow> ('a \<Rightarrow> 'e + 'b) \<Rightarrow> 'e + 'b" where
  "and_then r f = (case r of Inl e \<Rightarrow> Inl e | Inr x \<Rightarrow> f x)"

lemma and_then_simps [simp]: "and_then (Inl e) f = Inl e" "and_then (Inr x) f = f x"
  by (simp_all add: and_then_def)

definition describe_pairing_key_input :: "string \<Rightarrow> string" where
  "describe_pairing_key_input v =
     (let t = js_trim v in if t \<noteq> [] then ''string length '' @ decimal_text (int (length t)) else ''empty string'')"

text \<open>\<open>replace(/\.\./g, "_")\<close>.\<close>

fun replace_dots :: "string \<Rightarrow> string" where
  "replace_dots [] = []"
| "replace_dots [c] = [c]"
| "replace_dots (c # d # s) =
     (if c = CHR ''.'' \<and> d = CHR ''.'' then CHR ''_'' # replace_dots s else c # replace_dots (d # s))"

definition path_char :: "char \<Rightarrow> bool" where
  "path_char c \<longleftrightarrow> c \<in> set [CHR 0x5C, CHR ''/'', CHR '':'', CHR ''*'', CHR ''?'', CHR 0x22, CHR ''<'', CHR ''>'', CHR ''|'']"

definition normalize_pairing_key :: "string \<Rightarrow> key_kind \<Rightarrow> pairing_error + string" where
  "normalize_pairing_key v kind =
     (let raw = normalize_lowercase_string_or_empty (Some v)
      in if raw = [] then Inl (InvalidPairingKey kind ''expected non-empty string'' (describe_pairing_key_input v))
         else
           (let safe = replace_dots (map (\<lambda>c. if path_char c then CHR ''_'' else c) raw)
            in if safe = [] \<or> safe = ''_'' then Inl (InvalidPairingKey kind ''sanitized key is empty'' (describe_pairing_key_input v))
               else Inr safe))"

definition safe_channel_key :: "string \<Rightarrow> pairing_error + string" where
  "safe_channel_key channel = normalize_pairing_key channel ChannelKey"

definition safe_account_key :: "string \<Rightarrow> pairing_error + string" where
  "safe_account_key account_id = normalize_pairing_key account_id AccountKey"

definition dedupe_preserve_order :: "string list \<Rightarrow> string list" where
  "dedupe_preserve_order xs = normalize_unique_string_entries (map Text xs)"

definition resolve_allow_from_account_id :: "string option \<Rightarrow> string" where
  "resolve_allow_from_account_id a =
     (let t = normalize_lowercase_string_or_empty a in if t = [] then default_account_id else t)"

section \<open>Requests and tables\<close>

type_synonym meta = "(string, string) js_map"

record pairing_request =
  pq_id :: string
  pq_code :: string
  pq_created_at :: string
  pq_last_seen_at :: string
  pq_meta :: "meta option"

record pairing_row =
  pw_channel_key :: string
  pw_account_id :: string
  pw_request_id :: string
  pw_code :: string
  pw_created_at :: string
  pw_last_seen_at :: string
  pw_meta_json :: "meta option"

record allow_row =
  aw_channel_key :: string
  aw_account_id :: string
  aw_entry :: string
  aw_sort_order :: nat
  aw_updated_at :: int

record pairing_db =
  db_requests :: "pairing_row list"
  db_allow :: "allow_row list"

text \<open>The state of one channel as the operations see it.\<close>

record channel_pairing =
  cs_requests :: "pairing_request list"
  cs_allow_from :: "(string, string list) js_map"

definition parse_timestamp :: "string option \<Rightarrow> int option" where
  "parse_timestamp v = (case v of None \<Rightarrow> None | Some s \<Rightarrow> if s = [] then None else date_parse s)"

definition normalize_persisted_pairing_meta :: "meta option \<Rightarrow> meta option" where
  "normalize_persisted_pairing_meta v =
     (case v of
        None \<Rightarrow> None
      | Some m \<Rightarrow>
          (let out = List.map_filter (\<lambda>(k, x). map_option (Pair k) (normalize_optional_string (Some x))) m
           in if out = [] then None else Some out))"

definition normalize_persisted_pairing_request :: "pairing_request \<Rightarrow> pairing_request option" where
  "normalize_persisted_pairing_request r =
     (case (normalize_optional_string (Some (pq_id r)), normalize_optional_string (Some (pq_code r)),
            normalize_optional_string (Some (pq_created_at r))) of
        (Some i, Some c, Some created) \<Rightarrow>
          (let seen = (case normalize_optional_string (Some (pq_last_seen_at r)) of Some t \<Rightarrow> t | None \<Rightarrow> created)
           in if parse_timestamp (Some created) = None \<or> parse_timestamp (Some seen) = None then None
              else Some \<lparr>pq_id = i, pq_code = c, pq_created_at = created, pq_last_seen_at = seen,
                         pq_meta = normalize_persisted_pairing_meta (pq_meta r)\<rparr>)
      | _ \<Rightarrow> None)"

definition meta_account_id :: "pairing_request \<Rightarrow> string option" where
  "meta_account_id r = (case pq_meta r of None \<Rightarrow> None | Some m \<Rightarrow> js_get m ''accountId'')"

text \<open>The result of \<open>resolveAllowFromAccountId\<close> is never empty, so the final default is not reached.\<close>

definition resolve_pairing_request_account_id :: "pairing_request \<Rightarrow> string" where
  "resolve_pairing_request_account_id r =
     (let a = resolve_allow_from_account_id (meta_account_id r) in if a = [] then default_account_id else a)"

section \<open>Reading and writing a channel\<close>

definition request_of_row :: "pairing_row \<Rightarrow> pairing_request option" where
  "request_of_row w =
     (let meta = (case normalize_persisted_pairing_meta (pw_meta_json w) of Some m \<Rightarrow> m | None \<Rightarrow> [])
      in normalize_persisted_pairing_request
           \<lparr>pq_id = pw_request_id w, pq_code = pw_code w, pq_created_at = pw_created_at w,
            pq_last_seen_at = pw_last_seen_at w,
            pq_meta = Some (js_set ''accountId'' (resolve_allow_from_account_id (Some (pw_account_id w))) meta)\<rparr>)"

text \<open>\<open>ORDER BY\<close> with several columns: stable sorts from the last column to the first.\<close>

definition order_requests :: "pairing_row list \<Rightarrow> pairing_row list" where
  "order_requests rows = sort_key pw_created_at (sort_key pw_account_id (sort_key pw_request_id rows))"

definition order_allow :: "allow_row list \<Rightarrow> allow_row list" where
  "order_allow rows = sort_key aw_account_id (sort_key aw_sort_order (sort_key aw_entry rows))"

definition push_allow :: "allow_row \<Rightarrow> (string, string list) js_map \<Rightarrow> (string, string list) js_map" where
  "push_allow w m =
     (let a = resolve_allow_from_account_id (Some (aw_account_id w));
          old = (case js_get m a of Some es \<Rightarrow> es | None \<Rightarrow> [])
      in js_set a (old @ [aw_entry w]) m)"

definition read_channel_pairing_state :: "pairing_db \<Rightarrow> string \<Rightarrow> pairing_error + channel_pairing" where
  "read_channel_pairing_state db channel =
     and_then (safe_channel_key channel) (\<lambda>key.
       Inr \<lparr>cs_requests = List.map_filter request_of_row
                (order_requests (filter (\<lambda>w. pw_channel_key w = key) (db_requests db))),
            cs_allow_from = fold push_allow (order_allow (filter (\<lambda>w. aw_channel_key w = key) (db_allow db))) []\<rparr>)"

definition row_of_request :: "string \<Rightarrow> pairing_request \<Rightarrow> pairing_row" where
  "row_of_request key r =
     \<lparr>pw_channel_key = key, pw_account_id = resolve_pairing_request_account_id r, pw_request_id = pq_id r,
      pw_code = pq_code r, pw_created_at = pq_created_at r, pw_last_seen_at = pq_last_seen_at r, pw_meta_json = pq_meta r\<rparr>"

definition request_key :: "pairing_row \<Rightarrow> string \<times> string \<times> string" where
  "request_key w = (pw_channel_key w, pw_account_id w, pw_request_id w)"

definition allow_key :: "allow_row \<Rightarrow> string \<times> string \<times> string" where
  "allow_key w = (aw_channel_key w, aw_account_id w, aw_entry w)"

text \<open>Insertion of rows one after the other, each under its primary key.\<close>

fun insert_rows :: "('r \<Rightarrow> 'k) \<Rightarrow> 'r list \<Rightarrow> 'r list \<Rightarrow> pairing_error + 'r list" where
  "insert_rows key table [] = Inr table"
| "insert_rows key table (w # ws) =
     (if key w \<in> key ` set table then Inl RowExists else insert_rows key (table @ [w]) ws)"

definition stored_entries :: "string list \<Rightarrow> string list" where
  "stored_entries es =
     dedupe_preserve_order
       (filter (\<lambda>e. e \<noteq> [] \<and> e \<noteq> ''*'') (map (\<lambda>e. case normalize_optional_string (Some e) of Some t \<Rightarrow> t | None \<Rightarrow> []) es))"

definition allow_rows_of :: "string \<Rightarrow> int \<Rightarrow> string \<times> string list \<Rightarrow> allow_row list" where
  "allow_rows_of key updated_at = (\<lambda>(account_id, es).
     map (\<lambda>(i, e). \<lparr>aw_channel_key = key, aw_account_id = resolve_allow_from_account_id (Some account_id),
                    aw_entry = e, aw_sort_order = i, aw_updated_at = updated_at\<rparr>)
       (enumerate 0 (stored_entries es)))"

definition write_channel_pairing_state ::
    "pairing_db \<Rightarrow> string \<Rightarrow> int \<Rightarrow> channel_pairing \<Rightarrow> pairing_error + pairing_db" where
  "write_channel_pairing_state db channel updated_at st =
     and_then (safe_channel_key channel) (\<lambda>key.
     and_then (insert_rows request_key (filter (\<lambda>w. pw_channel_key w \<noteq> key) (db_requests db))
         (map (row_of_request key) (List.map_filter normalize_persisted_pairing_request (cs_requests st)))) (\<lambda>requests.
     and_then (insert_rows allow_key (filter (\<lambda>w. aw_channel_key w \<noteq> key) (db_allow db))
         (concat (map (allow_rows_of key updated_at) (cs_allow_from st)))) (\<lambda>allow.
       Inr \<lparr>db_requests = requests, db_allow = allow\<rparr>)))"

text \<open>A write transaction commits what its body returns and rolls back when it throws.\<close>

definition write_transaction ::
    "(pairing_db \<Rightarrow> pairing_error + pairing_db \<times> 'a) \<Rightarrow> pairing_db \<Rightarrow> pairing_db \<times> (pairing_error + 'a)" where
  "write_transaction body db = (case body db of Inl e \<Rightarrow> (db, Inl e) | Inr (db', x) \<Rightarrow> (db', Inr x))"

definition update_channel_pairing_state_snapshot ::
    "string \<Rightarrow> int \<Rightarrow> (channel_pairing \<Rightarrow> channel_pairing \<times> 'a) \<Rightarrow> pairing_db \<Rightarrow> pairing_db \<times> (pairing_error + 'a)" where
  "update_channel_pairing_state_snapshot channel now update =
     write_transaction (\<lambda>db.
       and_then (read_channel_pairing_state db channel) (\<lambda>st.
         case update st of
           (st', x) \<Rightarrow> and_then (write_channel_pairing_state db channel now st') (\<lambda>db'. Inr (db', x))))"


section \<open>Pending requests\<close>

definition pairing_code_alphabet :: string where
  "pairing_code_alphabet = ''ABCDEFGHJKLMNPQRSTUVWXYZ23456789''"

definition pairing_code_length :: nat where "pairing_code_length = 8"

definition pairing_code_max_attempts :: nat where "pairing_code_max_attempts = 500"

definition pairing_pending_ttl_ms :: int where "pairing_pending_ttl_ms = 60 * 60 * 1000"

definition pairing_pending_max :: nat where "pairing_pending_max = 3"

definition is_expired :: "int \<Rightarrow> pairing_request \<Rightarrow> bool" where
  "is_expired now r =
     (case parse_timestamp (Some (pq_created_at r)) of
        None \<Rightarrow> True
      | Some created \<Rightarrow> now - created > pairing_pending_ttl_ms)"

text \<open>The pruning functions return the kept requests and whether any was removed.\<close>

definition prune_expired_requests :: "pairing_request list \<Rightarrow> int \<Rightarrow> pairing_request list \<times> bool" where
  "prune_expired_requests rs now = (filter (\<lambda>r. \<not> is_expired now r) rs, list_ex (is_expired now) rs)"

definition resolve_last_seen_at :: "pairing_request \<Rightarrow> int" where
  "resolve_last_seen_at r =
     (case parse_timestamp (Some (pq_last_seen_at r)) of
        Some t \<Rightarrow> t
      | None \<Rightarrow> (case parse_timestamp (Some (pq_created_at r)) of Some t \<Rightarrow> t | None \<Rightarrow> 0))"

definition normalize_pairing_account_id :: "string option \<Rightarrow> string" where
  "normalize_pairing_account_id a = normalize_lowercase_string_or_empty a"

definition request_matches_account_id :: "string \<Rightarrow> pairing_request \<Rightarrow> bool" where
  "request_matches_account_id account_id r \<longleftrightarrow> account_id = [] \<or> resolve_pairing_request_account_id r = account_id"

text \<open>The indexed requests of each account, accounts in the order of their first request.\<close>

definition group_by_account :: "(nat \<times> pairing_request) list \<Rightarrow> (string, (nat \<times> pairing_request) list) js_map" where
  "group_by_account irs =
     fold (\<lambda>(i, r) m.
       let a = resolve_pairing_request_account_id r
       in js_set a ((case js_get m a of Some xs \<Rightarrow> xs | None \<Rightarrow> []) @ [(i, r)]) m) irs []"

definition dropped_indexes :: "nat \<Rightarrow> (nat \<times> pairing_request) list \<Rightarrow> nat list" where
  "dropped_indexes max_pending irs =
     (if length irs \<le> max_pending then []
      else map fst (take (length irs - max_pending) (sort_key (\<lambda>(i, r). resolve_last_seen_at r) irs)))"

definition prune_excess_requests_by_account :: "pairing_request list \<Rightarrow> nat \<Rightarrow> pairing_request list \<times> bool" where
  "prune_excess_requests_by_account rs max_pending =
     (if max_pending = 0 \<or> length rs \<le> max_pending then (rs, False)
      else
        (let irs = enumerate 0 rs;
             dropped = concat (map (\<lambda>(a, xs). dropped_indexes max_pending xs) (group_by_account irs))
         in if dropped = [] then (rs, False)
            else (map snd (filter (\<lambda>(i, r). i \<notin> set dropped) irs), True)))"

text \<open>Codes: the \<open>k\<close>-th call of \<open>crypto.randomInt\<close> returns \<open>random k\<close> modulo the size of the alphabet.\<close>

definition random_code :: "(nat \<Rightarrow> nat) \<Rightarrow> nat \<Rightarrow> string" where
  "random_code random attempt =
     map (\<lambda>i. pairing_code_alphabet ! (random (pairing_code_length * attempt + i) mod length pairing_code_alphabet))
       [0..<pairing_code_length]"

fun try_codes :: "(nat \<Rightarrow> nat) \<Rightarrow> string list \<Rightarrow> nat list \<Rightarrow> string option" where
  "try_codes random existing [] = None"
| "try_codes random existing (attempt # as) =
     (let code = random_code random attempt
      in if code \<in> set existing then try_codes random existing as else Some code)"

definition generate_unique_code :: "(nat \<Rightarrow> nat) \<Rightarrow> string list \<Rightarrow> pairing_error + string" where
  "generate_unique_code random existing =
     (case try_codes random existing [0..<pairing_code_max_attempts] of
        Some code \<Rightarrow> Inr code
      | None \<Rightarrow> Inl (NoUniqueCode (length (unique_strings existing))))"

section \<open>Adapters\<close>

record pairing_adapter =
  pd_normalize_allow_entry :: "(string \<Rightarrow> string) option"
  pd_resolve_approval :: "(string \<Rightarrow> meta option \<Rightarrow> string option) option"

definition normalize_pairing_id :: "item \<Rightarrow> string" where
  "normalize_pairing_id v = (case normalize_optional_string (Some (item_text v)) of Some s \<Rightarrow> s | None \<Rightarrow> [])"

text \<open>The adapter of a call: the given one, else the one of the channel registry.\<close>

definition resolve_pairing_adapter ::
    "(string \<Rightarrow> pairing_adapter option) \<Rightarrow> string \<Rightarrow> pairing_adapter option \<Rightarrow> pairing_adapter option" where
  "resolve_pairing_adapter registry channel given = (case given of Some a \<Rightarrow> Some a | None \<Rightarrow> registry channel)"

definition normalize_allow_entry ::
    "(string \<Rightarrow> pairing_adapter option) \<Rightarrow> string \<Rightarrow> string \<Rightarrow> pairing_adapter option \<Rightarrow> string" where
  "normalize_allow_entry registry channel entry given =
     (let trimmed = js_trim entry
      in if trimmed = [] \<or> trimmed = ''*'' then []
         else
           (let normalized = (case resolve_pairing_adapter registry channel given of
                    Some a \<Rightarrow> (case pd_normalize_allow_entry a of Some f \<Rightarrow> f trimmed | None \<Rightarrow> trimmed)
                  | None \<Rightarrow> trimmed);
                e = (case normalize_optional_string (Some normalized) of Some s \<Rightarrow> s | None \<Rightarrow> [])
            in if e = ''*'' then [] else e))"

definition normalize_allow_from_input ::
    "(string \<Rightarrow> pairing_adapter option) \<Rightarrow> string \<Rightarrow> item \<Rightarrow> pairing_adapter option \<Rightarrow> string" where
  "normalize_allow_from_input registry channel entry given =
     normalize_allow_entry registry channel (normalize_pairing_id entry) given"

section \<open>Operations\<close>

definition allow_list :: "channel_pairing \<Rightarrow> string \<Rightarrow> string list" where
  "allow_list st account_id = (case js_get (cs_allow_from st) account_id of Some es \<Rightarrow> es | None \<Rightarrow> [])"

definition read_channel_allow_from_store :: "pairing_db \<Rightarrow> string \<Rightarrow> string option \<Rightarrow> pairing_error + string list" where
  "read_channel_allow_from_store db channel account_id =
     and_then (read_channel_pairing_state db channel) (\<lambda>st. Inr (allow_list st (resolve_allow_from_account_id account_id)))"

text \<open>The result of an allowlist update: whether it changed, and the list.\<close>

definition update_allow_from_store_entry ::
    "(string \<Rightarrow> pairing_adapter option) \<Rightarrow> int \<Rightarrow> string \<Rightarrow> item \<Rightarrow> string option \<Rightarrow> pairing_adapter option \<Rightarrow>
     (string list \<Rightarrow> string \<Rightarrow> string list option) \<Rightarrow> pairing_db \<Rightarrow> pairing_db \<times> (pairing_error + bool \<times> string list)" where
  "update_allow_from_store_entry registry now channel entry account given apply =
     (let account_id = resolve_allow_from_account_id account;
          normalized = normalize_allow_from_input registry channel entry given
      in write_transaction (\<lambda>db.
           and_then (read_channel_pairing_state db channel) (\<lambda>st.
             let current = allow_list st account_id
             in if normalized = [] then Inr (db, False, current)
                else case apply current normalized of
                  None \<Rightarrow> Inr (db, False, current)
                | Some next \<Rightarrow>
                    and_then (write_channel_pairing_state db channel now
                        (st\<lparr>cs_allow_from := js_set account_id next (cs_allow_from st)\<rparr>)) (\<lambda>db'. Inr (db', True, next)))))"

definition add_channel_allow_from_store_entry ::
    "(string \<Rightarrow> pairing_adapter option) \<Rightarrow> int \<Rightarrow> string \<Rightarrow> item \<Rightarrow> string option \<Rightarrow> pairing_adapter option \<Rightarrow>
     pairing_db \<Rightarrow> pairing_db \<times> (pairing_error + bool \<times> string list)" where
  "add_channel_allow_from_store_entry registry now channel entry account given =
     update_allow_from_store_entry registry now channel entry account given
       (\<lambda>current normalized. if normalized \<in> set current then None else Some (current @ [normalized]))"

definition remove_channel_allow_from_store_entry ::
    "(string \<Rightarrow> pairing_adapter option) \<Rightarrow> int \<Rightarrow> string \<Rightarrow> item \<Rightarrow> string option \<Rightarrow> pairing_adapter option \<Rightarrow>
     pairing_db \<Rightarrow> pairing_db \<times> (pairing_error + bool \<times> string list)" where
  "remove_channel_allow_from_store_entry registry now channel entry account given =
     update_allow_from_store_entry registry now channel entry account given
       (\<lambda>current normalized.
          let next = filter (\<lambda>e. e \<noteq> normalized) current
          in if length next = length current then None else Some next)"


text \<open>\<open>localeCompare\<close> is the total preorder \<open>le\<close>; the pending list is sorted by creation, account and id.\<close>

definition listed_before :: "(string \<Rightarrow> string \<Rightarrow> bool) \<Rightarrow> pairing_request \<Rightarrow> pairing_request \<Rightarrow> bool" where
  "listed_before le x y \<longleftrightarrow>
     (let same = (\<lambda>a b. le a b \<and> le b a);
          ax = resolve_pairing_request_account_id x;
          ay = resolve_pairing_request_account_id y
      in if \<not> same (pq_created_at x) (pq_created_at y) then le (pq_created_at x) (pq_created_at y)
         else if \<not> same ax ay then le ax ay
         else le (pq_id x) (pq_id y))"

fun insert_listed :: "(string \<Rightarrow> string \<Rightarrow> bool) \<Rightarrow> pairing_request \<Rightarrow> pairing_request list \<Rightarrow> pairing_request list" where
  "insert_listed le x [] = [x]"
| "insert_listed le x (y # ys) = (if listed_before le x y then x # y # ys else y # insert_listed le x ys)"

definition list_channel_pairing_requests ::
    "(string \<Rightarrow> string \<Rightarrow> bool) \<Rightarrow> int \<Rightarrow> string \<Rightarrow> string option \<Rightarrow>
     pairing_db \<Rightarrow> pairing_db \<times> (pairing_error + pairing_request list)" where
  "list_channel_pairing_requests le now channel account =
     write_transaction (\<lambda>db.
       and_then (read_channel_pairing_state db channel) (\<lambda>st.
         let (unexpired, expired_removed) = prune_expired_requests (cs_requests st) now;
             (capped, capped_removed) = prune_excess_requests_by_account unexpired pairing_pending_max;
             account_id = normalize_pairing_account_id account;
             listed = foldr (insert_listed le) (filter (request_matches_account_id account_id) capped) []
         in if expired_removed \<or> capped_removed
            then and_then (write_channel_pairing_state db channel now (st\<lparr>cs_requests := capped\<rparr>)) (\<lambda>db'. Inr (db', listed))
            else Inr (db, listed)))"

definition find_index :: "('a \<Rightarrow> bool) \<Rightarrow> 'a list \<Rightarrow> nat option" where
  "find_index P xs = (let i = length (takeWhile (\<lambda>x. \<not> P x) xs) in if i < length xs then Some i else None)"

record upsert_result =
  ur_code :: string
  ur_created :: bool

text \<open>The metadata of a new request: its non-blank fields and the account.\<close>

definition request_meta :: "(string, string option) js_map option \<Rightarrow> string \<Rightarrow> meta" where
  "request_meta meta account_id =
     js_set ''accountId'' account_id
       (case meta of
          None \<Rightarrow> []
        | Some m \<Rightarrow> fold (\<lambda>(k, v). js_set k v) (List.map_filter (\<lambda>(k, v). map_option (Pair k) (normalize_optional_string v)) m) [])"

definition upsert_channel_pairing_request ::
    "(nat \<Rightarrow> nat) \<Rightarrow> int \<Rightarrow> string \<Rightarrow> item \<Rightarrow> string \<Rightarrow> (string, string option) js_map option \<Rightarrow>
     pairing_db \<Rightarrow> pairing_db \<times> (pairing_error + upsert_result)" where
  "upsert_channel_pairing_request random clock channel ident account raw_meta =
     write_transaction (\<lambda>db.
       let now = to_iso_string clock;
           i = normalize_pairing_id ident;
           normalized_account = normalize_pairing_account_id (Some account);
           account_id = (if normalized_account = [] then default_account_id else normalized_account);
           meta = request_meta raw_meta account_id
       in and_then (read_channel_pairing_state db channel) (\<lambda>st.
         let (unexpired, expired_removed) = prune_expired_requests (cs_requests st) clock;
             existing_codes = map (\<lambda>r. js_upper (case normalize_optional_string (Some (pq_code r)) of Some c \<Rightarrow> c | None \<Rightarrow> [])) unexpired
         in case find_index (\<lambda>r. pq_id r = i \<and> request_matches_account_id account_id r) unexpired of
              Some k \<Rightarrow>
                (let existing = unexpired ! k
                 in and_then (case normalize_optional_string (Some (pq_code existing)) of
                                 Some c \<Rightarrow> Inr c | None \<Rightarrow> generate_unique_code random existing_codes) (\<lambda>code.
                    let updated = \<lparr>pq_id = i, pq_code = code, pq_created_at = pq_created_at existing,
                                   pq_last_seen_at = now, pq_meta = Some meta\<rparr>;
                        requests = fst (prune_excess_requests_by_account (unexpired[k := updated]) pairing_pending_max)
                    in and_then (write_channel_pairing_state db channel clock (st\<lparr>cs_requests := requests\<rparr>)) (\<lambda>db'.
                         Inr (db', \<lparr>ur_code = code, ur_created = False\<rparr>))))
            | None \<Rightarrow>
                (let (capped, capped_removed) = prune_excess_requests_by_account unexpired pairing_pending_max;
                     count = length (filter (request_matches_account_id account_id) capped)
                 in if pairing_pending_max > 0 \<and> count \<ge> pairing_pending_max then
                      (if expired_removed \<or> capped_removed
                       then and_then (write_channel_pairing_state db channel clock (st\<lparr>cs_requests := capped\<rparr>)) (\<lambda>db'.
                              Inr (db', \<lparr>ur_code = [], ur_created = False\<rparr>))
                       else Inr (db, \<lparr>ur_code = [], ur_created = False\<rparr>))
                    else
                      and_then (generate_unique_code random existing_codes) (\<lambda>code.
                        let new = \<lparr>pq_id = i, pq_code = code, pq_created_at = now, pq_last_seen_at = now, pq_meta = Some meta\<rparr>
                        in and_then (write_channel_pairing_state db channel clock (st\<lparr>cs_requests := capped @ [new]\<rparr>)) (\<lambda>db'.
                             Inr (db', \<lparr>ur_code = code, ur_created = True\<rparr>))))))"

text \<open>The approval of a code: the approved request, or nothing when no pending request has the code.\<close>

definition approval_entry :: "pairing_adapter option \<Rightarrow> pairing_request \<Rightarrow> string option" where
  "approval_entry adapter r =
     (case adapter of
        Some a \<Rightarrow> (case pd_resolve_approval a of Some f \<Rightarrow> f (pq_id r) (pq_meta r) | None \<Rightarrow> Some (pq_id r))
      | None \<Rightarrow> Some (pq_id r))"

definition approve_channel_pairing_code ::
    "(string \<Rightarrow> pairing_adapter option) \<Rightarrow> int \<Rightarrow> string \<Rightarrow> string \<Rightarrow> string option \<Rightarrow> pairing_adapter option \<Rightarrow>
     pairing_db \<Rightarrow> pairing_db \<times> (pairing_error + pairing_request option)" where
  "approve_channel_pairing_code registry now channel raw_code account given db =
     (let code = js_upper (case normalize_optional_string (Some raw_code) of Some c \<Rightarrow> c | None \<Rightarrow> [])
      in if code = [] then (db, Inr None)
         else write_transaction (\<lambda>db.
           and_then (read_channel_pairing_state db channel) (\<lambda>st.
             let (unexpired, removed) = prune_expired_requests (cs_requests st) now;
                 account_id = normalize_pairing_account_id account
             in case find_index (\<lambda>r. js_upper (pq_code r) = code \<and> request_matches_account_id account_id r) unexpired of
                  None \<Rightarrow>
                    if removed
                    then and_then (write_channel_pairing_state db channel now (st\<lparr>cs_requests := unexpired\<rparr>)) (\<lambda>db'. Inr (db', None))
                    else Inr (db, None)
                | Some k \<Rightarrow>
                    (let entry = unexpired ! k;
                         remaining = take k unexpired @ drop (Suc k) unexpired;
                         allow_account = resolve_allow_from_account_id
                           (case normalize_optional_string account of
                              Some a \<Rightarrow> Some a
                            | None \<Rightarrow> normalize_optional_string (meta_account_id entry));
                         current = allow_list st allow_account;
                         adapter = resolve_pairing_adapter registry channel given;
                         normalized = (case approval_entry adapter entry of
                             None \<Rightarrow> [] | Some e \<Rightarrow> normalize_allow_from_input registry channel (Text e) adapter);
                         allow_from = (if normalized \<noteq> [] \<and> normalized \<notin> set current
                             then js_set allow_account (current @ [normalized]) (cs_allow_from st) else cs_allow_from st)
                     in and_then (write_channel_pairing_state db channel now
                            (st\<lparr>cs_requests := remaining, cs_allow_from := allow_from\<rparr>)) (\<lambda>db'. Inr (db', Some entry))))) db)"

end
