(* ===== verification/Pairing_Inv.thy ===== *)
theory Pairing_Inv
  imports Pairing_Store
begin

text \<open>
  The invariant of the pairing store: a channel read back is the channel written, and every operation on a
  well-formed database succeeds, keeps it well-formed and leaves the other channels alone. Each operation
  has a lemma that lists its outcomes over the pending requests and the stored allowlists.
\<close>

section \<open>Grouping, filtering and inserting\<close>

lemma js_get_group:
  "js_get (fold (\<lambda>x m. js_set (k x) ((case js_get m (k x) of Some ys \<Rightarrow> ys | None \<Rightarrow> []) @ [v x]) m) xs m) a =
     (if filter (\<lambda>x. k x = a) xs = [] then js_get m a
      else Some ((case js_get m a of Some ys \<Rightarrow> ys | None \<Rightarrow> []) @ map v (filter (\<lambda>x. k x = a) xs)))"
  by (induction xs arbitrary: m) (auto split: option.splits)

lemma js_wf_group:
  "js_wf m \<Longrightarrow> js_wf (fold (\<lambda>x m. js_set (k x) ((case js_get m (k x) of Some ys \<Rightarrow> ys | None \<Rightarrow> []) @ [v x]) m) xs m)"
  by (induction xs arbitrary: m) auto

lemma insert_rows_distinct:
  "distinct (map key (table @ ws)) \<Longrightarrow> insert_rows key table ws = Inr (table @ ws)"
proof (induction ws arbitrary: table)
  case (Cons w ws)
  then have "key w \<notin> key ` set table" "distinct (map key ((table @ [w]) @ ws))" by auto
  then show ?case using Cons.IH [of "table @ [w]"] by simp
qed simp

lemma map_filter_app: "List.map_filter f (xs @ ys) = List.map_filter f xs @ List.map_filter f ys"
  by (simp add: List.map_filter_def)

lemma map_filter_id: "(\<And>x. x \<in> set xs \<Longrightarrow> f (g x) = Some x) \<Longrightarrow> List.map_filter f (map g xs) = xs"
  by (induction xs) (simp_all add: List.map_filter_simps)

lemma map_filter_subset: "(\<And>x y. f x = Some y \<Longrightarrow> y = x) \<Longrightarrow> set (List.map_filter f xs) \<subseteq> set xs"
  by (induction xs) (auto simp: List.map_filter_simps split: option.splits)

section \<open>Well-formed channels\<close>

definition account_ok :: "string \<Rightarrow> bool" where
  "account_ok a \<longleftrightarrow> resolve_allow_from_account_id (Some a) = a"

definition entry_ok :: "string \<Rightarrow> bool" where
  "entry_ok e \<longleftrightarrow> e \<noteq> [] \<and> js_trim e = e \<and> e \<noteq> ''*''"

definition stamp_ok :: "string \<Rightarrow> bool" where
  "stamp_ok s \<longleftrightarrow> s \<noteq> [] \<and> js_trim s = s \<and> date_parse s \<noteq> None"

definition meta_ok :: "meta \<Rightarrow> bool" where
  "meta_ok m \<longleftrightarrow> js_wf m \<and> (\<forall>(k, v) \<in> set m. v \<noteq> [] \<and> js_trim v = v) \<and>
     (case js_get m ''accountId'' of Some a \<Rightarrow> account_ok a | None \<Rightarrow> False)"

definition request_ok :: "pairing_request \<Rightarrow> bool" where
  "request_ok r \<longleftrightarrow> pq_id r \<noteq> [] \<and> js_trim (pq_id r) = pq_id r \<and> pq_code r \<noteq> [] \<and> js_trim (pq_code r) = pq_code r \<and>
     stamp_ok (pq_created_at r) \<and> stamp_ok (pq_last_seen_at r) \<and>
     (case pq_meta r of Some m \<Rightarrow> meta_ok m | None \<Rightarrow> False)"

definition requests_ok :: "pairing_request list \<Rightarrow> bool" where
  "requests_ok rs \<longleftrightarrow> list_all request_ok rs \<and>
     distinct (map (\<lambda>r. (resolve_pairing_request_account_id r, pq_id r)) rs) \<and>
     distinct (map (\<lambda>r. js_upper (pq_code r)) rs) \<and>
     (\<forall>a. length (filter (\<lambda>r. resolve_pairing_request_account_id r = a) rs) \<le> pairing_pending_max)"

definition allow_ok :: "(string, string list) js_map \<Rightarrow> bool" where
  "allow_ok m \<longleftrightarrow> js_wf m \<and> (\<forall>(a, es) \<in> set m. account_ok a \<and> distinct es \<and> list_all entry_ok es)"

lemma account_ok_resolved [simp, intro]: "account_ok (resolve_allow_from_account_id a)"
proof -
  have d: "normalize_lowercase_string_or_empty (Some default_account_id) = default_account_id" by code_simp
  show ?thesis
    using normalize_lowercase_idem [of a] by (simp add: account_ok_def resolve_allow_from_account_id_def Let_def d)
qed

lemma account_okD:
  assumes "account_ok a"
  shows "resolve_allow_from_account_id (Some a) = a" "a \<noteq> []" "js_trim a = a" "js_lower a = a"
proof -
  show r: "resolve_allow_from_account_id (Some a) = a" using assms by (simp add: account_ok_def)
  have d: "default_account_id \<noteq> []" "js_trim default_account_id = default_account_id" "js_lower default_account_id = default_account_id"
    by code_simp+
  have "a \<noteq> [] \<and> js_trim a = a \<and> js_lower a = a"
  proof (cases "js_lower (js_trim a) = []")
    case True
    then show ?thesis using r d by (simp add: resolve_allow_from_account_id_def normalize_lowercase_eq)
  next
    case False
    then have "js_lower (js_trim a) = a" using r by (simp add: resolve_allow_from_account_id_def normalize_lowercase_eq)
    then show ?thesis using False by (metis js_lower_idem js_trim_idem js_trim_lower)
  qed
  then show "a \<noteq> []" "js_trim a = a" "js_lower a = a" by simp_all
qed

lemma trimmed_optional [simp]: "s \<noteq> [] \<Longrightarrow> js_trim s = s \<Longrightarrow> normalize_optional_string (Some s) = Some s"
  by (simp add: normalize_optional_string_def)

lemma optional_trimmed: "normalize_optional_string v = Some s \<Longrightarrow> s \<noteq> [] \<and> js_trim s = s"
  by (auto simp: normalize_optional_string_def Let_def split: option.splits if_splits)

lemma meta_ok_normal:
  assumes "meta_ok m"
  shows "normalize_persisted_pairing_meta (Some m) = Some m"
proof -
  have v: "\<forall>(k, v) \<in> set m. v \<noteq> [] \<and> js_trim v = v" and "m \<noteq> []" using assms by (auto simp: meta_ok_def)
  from v have "List.map_filter (\<lambda>(k, x). map_option (Pair k) (normalize_optional_string (Some x))) m = m"
    by (induction m) (auto simp: List.map_filter_simps split: prod.splits)
  then show ?thesis using \<open>m \<noteq> []\<close> by (simp add: normalize_persisted_pairing_meta_def)
qed

lemma request_ok_normal: "request_ok r \<Longrightarrow> normalize_persisted_pairing_request r = Some r"
  by (cases r) (auto simp: normalize_persisted_pairing_request_def request_ok_def stamp_ok_def parse_timestamp_def
      meta_ok_normal split: option.splits)

lemma request_ok_account:
  assumes "request_ok r"
  obtains m where "pq_meta r = Some m" "meta_ok m" "js_get m ''accountId'' = Some (resolve_pairing_request_account_id r)"
    "account_ok (resolve_pairing_request_account_id r)"
proof -
  obtain m a where m: "pq_meta r = Some m" "meta_ok m" "js_get m ''accountId'' = Some a" "account_ok a"
    using assms by (auto simp: request_ok_def meta_ok_def split: option.splits)
  then have "resolve_pairing_request_account_id r = a"
    using account_okD [OF m(4)] by (simp add: resolve_pairing_request_account_id_def meta_account_id_def)
  then show ?thesis using that m by simp
qed

lemma js_set_present: "js_get m k = Some v \<Longrightarrow> js_set k v m = m"
  by (induction m) (auto split: if_splits)

lemma request_of_row_of:
  assumes "request_ok r"
  shows "request_of_row (row_of_request key r) = Some r"
proof -
  obtain m where m: "pq_meta r = Some m" "meta_ok m" "js_get m ''accountId'' = Some (resolve_pairing_request_account_id r)"
    "account_ok (resolve_pairing_request_account_id r)" by (rule request_ok_account [OF assms])
  have "request_of_row (row_of_request key r) = normalize_persisted_pairing_request r"
    by (cases r) (use m in \<open>simp add: request_of_row_def row_of_request_def meta_ok_normal account_okD js_set_present\<close>)
  then show ?thesis by (simp add: request_ok_normal [OF assms])
qed


section \<open>The invariant of the database\<close>

definition rows_of_key :: "string \<Rightarrow> pairing_db \<Rightarrow> pairing_row list" where
  "rows_of_key key db = filter (\<lambda>w. pw_channel_key w = key) (db_requests db)"

definition allow_of_key :: "string \<Rightarrow> pairing_db \<Rightarrow> allow_row list" where
  "allow_of_key key db = filter (\<lambda>w. aw_channel_key w = key) (db_allow db)"

definition allow_rows_ok :: "allow_row list \<Rightarrow> bool" where
  "allow_rows_ok ws \<longleftrightarrow> (\<forall>w \<in> set ws. account_ok (aw_account_id w) \<and> entry_ok (aw_entry w)) \<and>
     distinct (map (\<lambda>w. (aw_account_id w, aw_sort_order w)) ws)"

definition db_ok :: "pairing_db \<Rightarrow> bool" where
  "db_ok db \<longleftrightarrow> distinct (map request_key (db_requests db)) \<and> distinct (map allow_key (db_allow db)) \<and>
     (\<forall>key. (\<exists>rs. requests_ok rs \<and> rows_of_key key db = map (row_of_request key) rs) \<and> allow_rows_ok (allow_of_key key db))"

text \<open>The entries stored for an account, in their order.\<close>

definition stored_allow :: "string \<Rightarrow> string \<Rightarrow> pairing_db \<Rightarrow> string list" where
  "stored_allow key a db = map aw_entry (sort_key aw_sort_order (filter (\<lambda>w. aw_account_id w = a) (allow_of_key key db)))"

lemma distinct_map_mset: "mset xs = mset ys \<Longrightarrow> distinct (map f xs) = distinct (map f ys)"
  by (rule mset_eq_imp_distinct_iff) simp

lemma sorted_map_const: "(\<And>x. x \<in> set xs \<Longrightarrow> f x = a) \<Longrightarrow> sorted (map f xs)"
  by (induction xs) auto

lemma requests_ok_mset:
  assumes "requests_ok rs" and "mset rs' = mset rs"
  shows "requests_ok rs'"
proof -
  note d = distinct_map_mset [OF assms(2)]
  have "length (filter P rs') = length (filter P rs)" for P
    by (metis assms(2) mset_filter size_mset)
  moreover have "set rs' = set rs" by (metis assms(2) set_mset_mset)
  ultimately show ?thesis using assms(1) by (simp add: requests_ok_def list_all_iff d)
qed

lemma mset_map_filter: "mset xs = mset ys \<Longrightarrow> mset (List.map_filter f xs) = mset (List.map_filter f ys)"
  by (simp add: List.map_filter_def)

lemma sort_key_of_filter: "filter P (sort_key f xs) = sort_key f (filter P xs)"
  by (rule filter_sort)

lemma filter_order_allow:
  assumes "distinct (map aw_sort_order (filter (\<lambda>w. aw_account_id w = a) ws))"
  shows "filter (\<lambda>w. aw_account_id w = a) (order_allow ws) = sort_key aw_sort_order (filter (\<lambda>w. aw_account_id w = a) ws)"
proof -
  let ?f = "filter (\<lambda>w. aw_account_id w = a)"
  have "?f (order_allow ws) = sort_key aw_account_id (sort_key aw_sort_order (sort_key aw_entry (?f ws)))"
    by (simp add: order_allow_def sort_key_of_filter)
  also have "\<dots> = sort_key aw_sort_order (sort_key aw_entry (?f ws))"
    by (rule sort_key_id_if_sorted) (rule sorted_map_const [of _ _ a], simp)
  also have "\<dots> = sort_key aw_sort_order (?f ws)"
    by (rule sort_key_inj_key_eq) (use assms in \<open>auto simp: distinct_map inj_on_def\<close>)
  finally show ?thesis .
qed

lemma read_allow:
  assumes "allow_rows_ok ws"
  shows "js_get (fold push_allow (order_allow ws) []) a =
      (if filter (\<lambda>w. aw_account_id w = a) ws = [] then None
       else Some (map aw_entry (sort_key aw_sort_order (filter (\<lambda>w. aw_account_id w = a) ws))))"
    and "js_wf (fold push_allow (order_allow ws) [])"
proof -
  have set: "set (order_allow ws) = set ws" by (simp add: order_allow_def)
  have fold: "fold push_allow (order_allow ws) [] =
      fold (\<lambda>w m. js_set (aw_account_id w) ((case js_get m (aw_account_id w) of Some ys \<Rightarrow> ys | None \<Rightarrow> []) @ [aw_entry w]) m) (order_allow ws) []"
    by (rule fold_cong) (use assms set in \<open>auto simp: push_allow_def Let_def allow_rows_ok_def account_ok_def fun_eq_iff\<close>)
  have "distinct (map aw_sort_order (filter (\<lambda>w. aw_account_id w = a) ws))"
    using assms by (auto simp: allow_rows_ok_def distinct_map inj_on_def)
  note f = filter_order_allow [OF this]
  have "filter (\<lambda>w. aw_account_id w = a) ws = [] \<longleftrightarrow> filter (\<lambda>w. aw_account_id w = a) (order_allow ws) = []"
    by (simp add: filter_empty_conv set)
  then show "js_get (fold push_allow (order_allow ws) []) a =
      (if filter (\<lambda>w. aw_account_id w = a) ws = [] then None
       else Some (map aw_entry (sort_key aw_sort_order (filter (\<lambda>w. aw_account_id w = a) ws))))"
    unfolding fold js_get_group by (simp add: f)
  show "js_wf (fold push_allow (order_allow ws) [])" unfolding fold by (rule js_wf_group) simp
qed


text \<open>Reading a channel of a well-formed database.\<close>

lemma read_ok:
  assumes "db_ok db" and "safe_channel_key ch = Inr key"
  obtains st rs where "read_channel_pairing_state db ch = Inr st" "rows_of_key key db = map (row_of_request key) rs"
    "mset (cs_requests st) = mset rs" "requests_ok rs" "requests_ok (cs_requests st)" "allow_ok (cs_allow_from st)"
    "\<And>a. allow_list st a = stored_allow key a db"
proof -
  obtain rs where rs: "requests_ok rs" "rows_of_key key db = map (row_of_request key) rs" and ws: "allow_rows_ok (allow_of_key key db)"
    using assms(1) by (auto simp: db_ok_def)
  define st where "st = \<lparr>cs_requests = List.map_filter request_of_row (order_requests (rows_of_key key db)),
     cs_allow_from = fold push_allow (order_allow (allow_of_key key db)) []\<rparr>"
  have read: "read_channel_pairing_state db ch = Inr st"
    by (simp add: read_channel_pairing_state_def assms(2) st_def rows_of_key_def allow_of_key_def)
  have "mset (cs_requests st) = mset (List.map_filter request_of_row (map (row_of_request key) rs))"
    unfolding st_def rs(2) by (simp, rule mset_map_filter) (simp add: order_requests_def)
  also have "\<dots> = mset rs"
    using rs(1) by (subst map_filter_id) (auto simp: requests_ok_def list_all_iff request_of_row_of)
  finally have m: "mset (cs_requests st) = mset rs" .
  note get = read_allow [OF ws]
  have al: "allow_list st a = stored_allow key a db" for a
    by (simp add: allow_list_def st_def get(1) stored_allow_def)
  have "account_ok a \<and> distinct es \<and> list_all entry_ok es" if "(a, es) \<in> set (cs_allow_from st)" for a es
  proof -
    let ?ws = "filter (\<lambda>w. aw_account_id w = a) (allow_of_key key db)"
    have "js_get (cs_allow_from st) a = Some es" using that get(2) by (simp add: st_def js_get_iff)
    then have es: "?ws \<noteq> []" "es = map aw_entry (sort_key aw_sort_order ?ws)" by (simp_all add: st_def get(1) split: if_splits)
    then obtain w where "w \<in> set (allow_of_key key db)" "aw_account_id w = a" by (auto simp: filter_empty_conv)
    then have "account_ok a" using ws by (auto simp: allow_rows_ok_def)
    moreover have "list_all entry_ok es" using ws by (auto simp: es(2) list_all_iff allow_rows_ok_def)
    moreover have "distinct (map aw_entry ?ws)"
      using assms(1) by (auto simp: db_ok_def distinct_map inj_on_def allow_of_key_def allow_key_def)
    then have "distinct es" unfolding es(2) by (subst distinct_map_mset [where ys = ?ws]) simp_all
    ultimately show ?thesis by blast
  qed
  then have "allow_ok (cs_allow_from st)" using get(2) by (auto simp: allow_ok_def st_def)
  then show ?thesis using that [OF read rs(2) m rs(1) requests_ok_mset [OF rs(1) m]] al by blast
qed

text \<open>The rows written for an allowlist.\<close>

lemma stored_entries_ok: "distinct es \<Longrightarrow> list_all entry_ok es \<Longrightarrow> stored_entries es = es"
proof -
  assume a: "distinct es" "list_all entry_ok es"
  have "filter (\<lambda>e. e \<noteq> [] \<and> e \<noteq> ''*'') (map (\<lambda>e. case normalize_optional_string (Some e) of Some t \<Rightarrow> t | None \<Rightarrow> []) es) = es"
    using a(2) by (induction es) (auto simp: entry_ok_def)
  moreover have "normalize_string_entries (map Text es) = es"
    by (rule normalize_string_entries_texts) (use a(2) in \<open>auto simp: list_all_iff entry_ok_def\<close>)
  ultimately show ?thesis
    using a(1) by (simp add: stored_entries_def dedupe_preserve_order_def normalize_unique_string_entries_def unique_values_distinct)
qed

lemma allow_rows_of_ok:
  assumes "account_ok a" "distinct es" "list_all entry_ok es"
  shows "map aw_entry (allow_rows_of key now (a, es)) = es"
    and "map aw_sort_order (allow_rows_of key now (a, es)) = [0..<length es]"
    and "\<forall>w \<in> set (allow_rows_of key now (a, es)). aw_account_id w = a \<and> aw_channel_key w = key \<and> entry_ok (aw_entry w)"
proof -
  have s: "stored_entries es = es" by (rule stored_entries_ok [OF assms(2,3)])
  have c: "(\<lambda>(i, e). f i e) = (\<lambda>p. f (fst p) (snd p))" for f :: "nat \<Rightarrow> string \<Rightarrow> 'b" by (simp add: fun_eq_iff)
  show "map aw_entry (allow_rows_of key now (a, es)) = es" "map aw_sort_order (allow_rows_of key now (a, es)) = [0..<length es]"
    by (simp_all add: allow_rows_of_def s c o_def)
  show "\<forall>w \<in> set (allow_rows_of key now (a, es)). aw_account_id w = a \<and> aw_channel_key w = key \<and> entry_ok (aw_entry w)"
    using assms(3) by (auto simp: allow_rows_of_def s account_okD [OF assms(1)] list_all_iff in_set_enumerate_eq)
qed

lemma allow_rows_concat:
  fixes key :: string and now :: int
  assumes "allow_ok m"
  defines "ws \<equiv> concat (map (allow_rows_of key now) m)"
  shows "\<forall>w \<in> set ws. aw_channel_key w = key \<and> aw_account_id w \<in> fst ` set m \<and> account_ok (aw_account_id w) \<and> entry_ok (aw_entry w)"
    and "distinct (map allow_key ws)" and "distinct (map (\<lambda>w. (aw_account_id w, aw_sort_order w)) ws)"
    and "map aw_entry (sort_key aw_sort_order (filter (\<lambda>w. aw_account_id w = a) ws)) = (case js_get m a of Some es \<Rightarrow> es | None \<Rightarrow> [])"
proof -
  have "(\<forall>w \<in> set ws. aw_channel_key w = key \<and> aw_account_id w \<in> fst ` set m \<and> account_ok (aw_account_id w) \<and> entry_ok (aw_entry w)) \<and>
     distinct (map allow_key ws) \<and> distinct (map (\<lambda>w. (aw_account_id w, aw_sort_order w)) ws) \<and>
     map aw_entry (sort_key aw_sort_order (filter (\<lambda>w. aw_account_id w = a) ws)) = (case js_get m a of Some es \<Rightarrow> es | None \<Rightarrow> [])"
    using assms(1) unfolding ws_def
  proof (induction m)
    case (Cons p m)
    obtain b es where p: "p = (b, es)" by (cases p)
    let ?ws = "concat (map (allow_rows_of key now) m)" and ?new = "allow_rows_of key now (b, es)"
    have ok: "allow_ok m" "account_ok b" "distinct es" "list_all entry_ok es" "b \<notin> fst ` set m"
      using Cons.prems by (auto simp: allow_ok_def p)
    note IH = Cons.IH [OF ok(1)] and new = allow_rows_of_ok [OF ok(2-4), of key now]
    have apart: "aw_account_id w = b" "aw_account_id v \<noteq> b" if "w \<in> set ?new" "v \<in> set ?ws" for w v
      using that new(3) IH ok(5) by auto
    have de: "distinct (map aw_entry ?new)" "distinct (map aw_sort_order ?new)" using ok(3) by (simp_all only: new(1,2) distinct_upt)
    have "distinct (map allow_key ?new)" "distinct (map (\<lambda>w. (aw_account_id w, aw_sort_order w)) ?new)"
      using de by (auto simp: distinct_map inj_on_def allow_key_def)
    moreover have "allow_key ` set ?new \<inter> allow_key ` set ?ws = {}"
        "(\<lambda>w. (aw_account_id w, aw_sort_order w)) ` set ?new \<inter> (\<lambda>w. (aw_account_id w, aw_sort_order w)) ` set ?ws = {}"
      using apart by (fastforce simp: allow_key_def)+
    ultimately have d: "distinct (map allow_key (?new @ ?ws))" "distinct (map (\<lambda>w. (aw_account_id w, aw_sort_order w)) (?new @ ?ws))"
      using IH by simp_all
    have "map aw_entry (sort_key aw_sort_order (filter (\<lambda>w. aw_account_id w = a) (?new @ ?ws))) =
        (case js_get (p # m) a of Some es \<Rightarrow> es | None \<Rightarrow> [])"
    proof (cases "a = b")
      case True
      have "filter (\<lambda>w. aw_account_id w = a) ?new = ?new" "filter (\<lambda>w. aw_account_id w = a) ?ws = []"
        using new(3) IH ok(5) True by (auto simp: filter_id_conv filter_empty_conv)
      moreover have "sort_key aw_sort_order ?new = ?new" by (rule sort_key_id_if_sorted) (simp only: new(2) sorted_upt)
      ultimately show ?thesis using True by (simp add: p new(1))
    next
      case False
      then have "filter (\<lambda>w. aw_account_id w = a) ?new = []" using new(3) by (auto simp: filter_empty_conv)
      then show ?thesis using IH False by (simp add: p)
    qed
    moreover have "\<forall>w \<in> set (?new @ ?ws). aw_channel_key w = key \<and> aw_account_id w \<in> fst ` set (p # m) \<and>
        account_ok (aw_account_id w) \<and> entry_ok (aw_entry w)"
      using new(3) IH ok(2) by (auto simp: p)
    ultimately show ?case using d by (simp add: p)
  qed simp
  then show "\<forall>w \<in> set ws. aw_channel_key w = key \<and> aw_account_id w \<in> fst ` set m \<and> account_ok (aw_account_id w) \<and> entry_ok (aw_entry w)"
    "distinct (map allow_key ws)" "distinct (map (\<lambda>w. (aw_account_id w, aw_sort_order w)) ws)"
    "map aw_entry (sort_key aw_sort_order (filter (\<lambda>w. aw_account_id w = a) ws)) = (case js_get m a of Some es \<Rightarrow> es | None \<Rightarrow> [])"
    by simp_all
qed

text \<open>Writing a well-formed channel succeeds, keeps the database well-formed and touches no other channel.\<close>

lemma write_ok:
  fixes st :: channel_pairing
  assumes "db_ok db" and "safe_channel_key ch = Inr key" and "allow_ok (cs_allow_from st)"
  defines "rs \<equiv> List.map_filter normalize_persisted_pairing_request (cs_requests st)"
  assumes "requests_ok rs"
  obtains db' where "write_channel_pairing_state db ch now st = Inr db'" "db_ok db'"
    "rows_of_key key db' = map (row_of_request key) rs" "\<And>a. stored_allow key a db' = allow_list st a"
    "\<And>k. k \<noteq> key \<Longrightarrow> rows_of_key k db' = rows_of_key k db" "\<And>k. k \<noteq> key \<Longrightarrow> allow_of_key k db' = allow_of_key k db"
proof -
  let ?ws = "concat (map (allow_rows_of key now) (cs_allow_from st))"
  let ?R = "filter (\<lambda>w. pw_channel_key w \<noteq> key) (db_requests db) @ map (row_of_request key) rs"
  let ?A = "filter (\<lambda>w. aw_channel_key w \<noteq> key) (db_allow db) @ ?ws"
  let ?db = "\<lparr>db_requests = ?R, db_allow = ?A\<rparr>"
  note ws = allow_rows_concat [OF assms(3), where key = key and now = now]
  have new: "pw_channel_key (row_of_request key r) = key" for r by (simp add: row_of_request_def)
  have "distinct (map request_key (map (row_of_request key) rs))"
    using assms(5) by (auto simp: requests_ok_def distinct_map inj_on_def request_key_def row_of_request_def)
  moreover have "request_key ` set (filter (\<lambda>w. pw_channel_key w \<noteq> key) (db_requests db)) \<inter> request_key ` set (map (row_of_request key) rs) = {}"
    using new by (fastforce simp: request_key_def)
  ultimately have R: "distinct (map request_key ?R)"
    using assms(1) by (simp add: db_ok_def distinct_map_filter image_image)
  have "allow_key ` set (filter (\<lambda>w. aw_channel_key w \<noteq> key) (db_allow db)) \<inter> allow_key ` set ?ws = {}"
    using ws(1) by (fastforce simp: allow_key_def)
  then have A: "distinct (map allow_key ?A)"
    using assms(1) ws(2) by (simp add: db_ok_def distinct_map_filter)
  have wr: "write_channel_pairing_state db ch now st = Inr ?db"
    by (simp only: write_channel_pairing_state_def assms(2) and_then_simps insert_rows_distinct [OF R] insert_rows_distinct [OF A] rs_def [symmetric])
  have rows: "rows_of_key key ?db = map (row_of_request key) rs" "k \<noteq> key \<Longrightarrow> rows_of_key k ?db = rows_of_key k db" for k
    by (auto simp: rows_of_key_def filter_map o_def new conj_commute intro!: filter_cong)
  have allow: "allow_of_key key ?db = ?ws" "k \<noteq> key \<Longrightarrow> allow_of_key k ?db = allow_of_key k db" for k
    using ws(1) by (auto simp: allow_of_key_def filter_id_conv filter_empty_conv conj_commute intro!: filter_cong)
  have "(\<exists>rs. requests_ok rs \<and> rows_of_key k ?db = map (row_of_request k) rs) \<and> allow_rows_ok (allow_of_key k ?db)" for k
  proof (cases "k = key")
    case True
    then show ?thesis using rows(1) allow(1) ws(1,3) assms(5) by (auto simp: allow_rows_ok_def)
  next
    case False
    then show ?thesis using assms(1) rows(2) allow(2) by (auto simp: db_ok_def)
  qed
  then have ok: "db_ok ?db" using R A by (simp add: db_ok_def)
  have "stored_allow key a ?db = allow_list st a" for a
    unfolding stored_allow_def allow(1) allow_list_def by (rule ws(4))
  then show ?thesis using that [OF wr ok rows(1)] rows(2) allow(2) by blast
qed


section \<open>Pending requests\<close>

definition pending :: "string \<Rightarrow> pairing_db \<Rightarrow> pairing_request list" where
  "pending key db = List.map_filter request_of_row (rows_of_key key db)"

lemma pending_rows: "requests_ok rs \<Longrightarrow> rows_of_key key db = map (row_of_request key) rs \<Longrightarrow> pending key db = rs"
  unfolding pending_def by (simp add: requests_ok_def list_all_iff map_filter_id request_of_row_of)

lemma requests_ok_subset:
  assumes "requests_ok rs" and "mset rs' \<subseteq># mset rs"
  shows "requests_ok rs'"
proof -
  obtain us where us: "mset rs = mset (rs' @ us)"
    by (metis assms(2) ex_mset mset_append mset_subset_eq_exists_conv)
  have "requests_ok (rs' @ us)" by (rule requests_ok_mset [OF assms(1)]) (simp add: us)
  then show ?thesis
    by (auto simp: requests_ok_def list_all_iff) (metis add_leD1)
qed

lemma requests_ok_filter: "requests_ok rs \<Longrightarrow> requests_ok (filter P rs)"
  by (erule requests_ok_subset) (simp add: mset_filter)

lemma normal_requests: "requests_ok rs \<Longrightarrow> List.map_filter normalize_persisted_pairing_request rs = rs"
  using map_filter_id [of rs normalize_persisted_pairing_request id]
  by (simp add: requests_ok_def list_all_iff request_ok_normal)

text \<open>The cap does nothing to channels that respect it.\<close>

lemma group_by_account_get:
  "js_get (group_by_account irs) a =
     (let g = filter (\<lambda>(i, r). resolve_pairing_request_account_id r = a) irs in if g = [] then None else Some g)"
  "js_wf (group_by_account irs)"
proof -
  have fold: "group_by_account irs = fold (\<lambda>p m. js_set ((\<lambda>(i, r). resolve_pairing_request_account_id r) p)
      ((case js_get m ((\<lambda>(i, r). resolve_pairing_request_account_id r) p) of Some ys \<Rightarrow> ys | None \<Rightarrow> []) @ [id p]) m) irs []"
    unfolding group_by_account_def by (rule fold_cong) (auto simp: Let_def fun_eq_iff)
  show "js_get (group_by_account irs) a =
     (let g = filter (\<lambda>(i, r). resolve_pairing_request_account_id r = a) irs in if g = [] then None else Some g)"
    unfolding fold js_get_group Let_def by (simp add: case_prod_beta')
  show "js_wf (group_by_account irs)" unfolding fold by (rule js_wf_group) simp
qed

lemma length_account_group:
  "length (filter (\<lambda>(i, r). resolve_pairing_request_account_id r = a) (enumerate n rs)) =
     length (filter (\<lambda>r. resolve_pairing_request_account_id r = a) rs)"
  by (induction rs arbitrary: n) simp_all

lemma prune_excess_ok:
  assumes "requests_ok rs"
  shows "prune_excess_requests_by_account rs pairing_pending_max = (rs, False)"
proof -
  have "dropped_indexes pairing_pending_max xs = []" if "(a, xs) \<in> set (group_by_account (enumerate 0 rs))" for a xs
  proof -
    have "js_get (group_by_account (enumerate 0 rs)) a = Some xs" using that group_by_account_get(2) by (simp add: js_get_iff)
    then have "xs = filter (\<lambda>(i, r). resolve_pairing_request_account_id r = a) (enumerate 0 rs)"
      by (simp add: group_by_account_get(1) Let_def split: if_splits)
    then have "length xs \<le> pairing_pending_max" using assms by (simp add: length_account_group requests_ok_def)
    then show ?thesis by (simp add: dropped_indexes_def)
  qed
  then have "concat (map (\<lambda>(a, xs). dropped_indexes pairing_pending_max xs) (group_by_account (enumerate 0 rs))) = []"
    by auto
  then show ?thesis by (simp add: prune_excess_requests_by_account_def Let_def)
qed

lemma find_index_Some: "find_index P xs = Some k \<Longrightarrow> k < length xs \<and> P (xs ! k)"
  using nth_length_takeWhile [of "\<lambda>x. \<not> P x" xs] by (auto simp: find_index_def Let_def split: if_splits)

lemma find_index_None: "find_index P xs = None \<longleftrightarrow> (\<forall>x \<in> set xs. \<not> P x)"
proof -
  have "find_index P xs = None \<longleftrightarrow> length xs \<le> length (takeWhile (\<lambda>x. \<not> P x) xs)"
    by (simp add: find_index_def Let_def not_less)
  also have "\<dots> \<longleftrightarrow> takeWhile (\<lambda>x. \<not> P x) xs = xs"
    by (metis order_refl take_all takeWhile_eq_take)
  finally show ?thesis by (simp add: takeWhile_eq_all_conv)
qed


section \<open>Operations on a well-formed database\<close>

definition same_elsewhere :: "string \<Rightarrow> pairing_db \<Rightarrow> pairing_db \<Rightarrow> bool" where
  "same_elsewhere key db db' \<longleftrightarrow>
     (\<forall>k. k \<noteq> key \<longrightarrow> rows_of_key k db' = rows_of_key k db \<and> allow_of_key k db' = allow_of_key k db)"

lemma same_elsewhere_refl [simp]: "same_elsewhere key db db"
  by (simp add: same_elsewhere_def)

lemma same_elsewhereD: "same_elsewhere key db db' \<Longrightarrow> k \<noteq> key \<Longrightarrow> pending k db' = pending k db \<and> stored_allow k a db' = stored_allow k a db"
  by (simp add: same_elsewhere_def pending_def stored_allow_def)

lemma read_channel:
  assumes "db_ok db" and "safe_channel_key ch = Inr key"
  obtains st where "read_channel_pairing_state db ch = Inr st" "mset (cs_requests st) = mset (pending key db)"
    "requests_ok (cs_requests st)" "allow_ok (cs_allow_from st)" "\<And>a. allow_list st a = stored_allow key a db"
proof -
  obtain st rs where "read_channel_pairing_state db ch = Inr st" "rows_of_key key db = map (row_of_request key) rs"
    "mset (cs_requests st) = mset rs" "requests_ok rs" "requests_ok (cs_requests st)" "allow_ok (cs_allow_from st)"
    "\<And>a. allow_list st a = stored_allow key a db"
    by (rule read_ok [OF assms]) blast
  then show ?thesis using that pending_rows by metis
qed

lemma write_channel:
  assumes "db_ok db" and "safe_channel_key ch = Inr key" and "allow_ok (cs_allow_from st)"
    and "requests_ok (List.map_filter normalize_persisted_pairing_request (cs_requests st))"
  obtains db' where "write_channel_pairing_state db ch now st = Inr db'" "db_ok db'"
    "pending key db' = List.map_filter normalize_persisted_pairing_request (cs_requests st)"
    "\<And>a. stored_allow key a db' = allow_list st a" "same_elsewhere key db db'"
proof -
  obtain db' where "write_channel_pairing_state db ch now st = Inr db'" "db_ok db'"
    "rows_of_key key db' = map (row_of_request key) (List.map_filter normalize_persisted_pairing_request (cs_requests st))"
    "\<And>a. stored_allow key a db' = allow_list st a"
    "\<And>k. k \<noteq> key \<Longrightarrow> rows_of_key k db' = rows_of_key k db" "\<And>k. k \<noteq> key \<Longrightarrow> allow_of_key k db' = allow_of_key k db"
    by (rule write_ok [OF assms(1-4)]) blast
  then show ?thesis using that pending_rows [OF assms(4)] by (simp add: same_elsewhere_def)
qed

text \<open>Writing back requests that were read, all or some of them.\<close>

lemma write_requests:
  assumes "db_ok db" and "safe_channel_key ch = Inr key" and "allow_ok (cs_allow_from st)" and "requests_ok rs"
  obtains db' where "write_channel_pairing_state db ch now (st\<lparr>cs_requests := rs\<rparr>) = Inr db'" "db_ok db'"
    "pending key db' = rs" "\<And>a. stored_allow key a db' = allow_list st a" "same_elsewhere key db db'"
  using write_channel [of db ch key "st\<lparr>cs_requests := rs\<rparr>" now] assms
  by (simp add: normal_requests allow_list_def) blast

lemma normalized_entry_ok: "normalize_allow_from_input registry ch e given = [] \<or> entry_ok (normalize_allow_from_input registry ch e given)"
  by (auto simp: normalize_allow_from_input_def normalize_allow_entry_def Let_def entry_ok_def
      dest: optional_trimmed split: option.splits)

lemma allow_ok_set:
  assumes "allow_ok m" and "account_ok a" and "distinct es" and "list_all entry_ok es"
  shows "allow_ok (js_set a es m)"
  using assms by (auto simp: allow_ok_def dest!: js_set_in)

lemma allow_ok_list: "allow_ok (cs_allow_from st) \<Longrightarrow> distinct (allow_list st a) \<and> list_all entry_ok (allow_list st a)"
  by (auto simp: allow_ok_def allow_list_def split: option.splits dest: js_get_Some_in)

text \<open>An approval: where the grant goes, and the entry it grants.\<close>

definition grant_account :: "string option \<Rightarrow> pairing_request \<Rightarrow> string" where
  "grant_account account r = resolve_allow_from_account_id
     (case normalize_optional_string account of Some a \<Rightarrow> Some a | None \<Rightarrow> normalize_optional_string (meta_account_id r))"

definition granted_entry :: "(string \<Rightarrow> pairing_adapter option) \<Rightarrow> string \<Rightarrow> pairing_adapter option \<Rightarrow> pairing_request \<Rightarrow> string" where
  "granted_entry registry ch given r =
     (let adapter = resolve_pairing_adapter registry ch given
      in case approval_entry adapter r of None \<Rightarrow> [] | Some e \<Rightarrow> normalize_allow_from_input registry ch (Text e) adapter)"

definition typed_code :: "string \<Rightarrow> string" where
  "typed_code raw = js_upper (js_trim raw)"

definition has_code :: "string \<Rightarrow> string option \<Rightarrow> pairing_request \<Rightarrow> bool" where
  "has_code raw account r \<longleftrightarrow> js_upper (pq_code r) = typed_code raw \<and>
     request_matches_account_id (normalize_pairing_account_id account) r"

lemma typed_code_eq: "js_upper (case normalize_optional_string (Some raw) of Some c \<Rightarrow> c | None \<Rightarrow> []) = typed_code raw"
  by (simp add: typed_code_def normalize_optional_string_def Let_def js_upper_def)

text \<open>A found request is the only one, and without it the rest is well-formed.\<close>

lemma mset_take_drop: "k < length xs \<Longrightarrow> mset (take k xs @ drop (Suc k) xs) = mset xs - {#xs ! k#}"
  by (metis add_mset_remove_trivial id_take_nth_drop mset.simps(2) mset_append union_mset_add_mset_right)

lemma approve_result:
  assumes "db_ok db" and "safe_channel_key ch = Inr key"
  obtains (none) db' where "approve_channel_pairing_code registry now ch raw account given db = (db', Inr None)" "db_ok db'"
      "mset (pending key db') \<subseteq># mset (pending key db)" "\<And>a. stored_allow key a db' = stored_allow key a db"
      "same_elsewhere key db db'" "typed_code raw = [] \<or> (\<forall>r \<in> set (pending key db). is_expired now r \<or> \<not> has_code raw account r)"
    | (some) r db' where "approve_channel_pairing_code registry now ch raw account given db = (db', Inr (Some r))" "db_ok db'"
      "r \<in> set (pending key db)" "\<not> is_expired now r" "has_code raw account r" "typed_code raw \<noteq> []"
      "mset (pending key db') = mset (filter (\<lambda>q. \<not> is_expired now q) (pending key db)) - {#r#}"
      "\<And>a. stored_allow key a db' =
         (if a = grant_account account r \<and> granted_entry registry ch given r \<noteq> []
          then set_add (granted_entry registry ch given r) (stored_allow key a db) else stored_allow key a db)"
      "same_elsewhere key db db'"
proof (cases "typed_code raw = []")
  case True
  then show ?thesis using none [of db] assms(1) by (simp add: approve_channel_pairing_code_def typed_code_eq Let_def)
next
  case code: False
  obtain st where st: "read_channel_pairing_state db ch = Inr st" "mset (cs_requests st) = mset (pending key db)"
    "requests_ok (cs_requests st)" "allow_ok (cs_allow_from st)" "\<And>a. allow_list st a = stored_allow key a db"
    by (rule read_channel [OF assms]) blast
  let ?un = "filter (\<lambda>r. \<not> is_expired now r) (cs_requests st)"
  have un: "requests_ok ?un" "mset ?un = mset (filter (\<lambda>r. \<not> is_expired now r) (pending key db))"
    using requests_ok_filter [OF st(3)] by (simp_all add: mset_filter st(2))
  have set: "set (cs_requests st) = set (pending key db)" by (metis st(2) set_mset_mset)
  have P: "(\<lambda>r. js_upper (pq_code r) = typed_code raw \<and> request_matches_account_id (normalize_pairing_account_id account) r) = has_code raw account"
    by (simp add: has_code_def fun_eq_iff)
  show ?thesis
  proof (cases "find_index (has_code raw account) ?un")
    case None
    then have no: "\<forall>r \<in> set (pending key db). is_expired now r \<or> \<not> has_code raw account r"
      by (auto simp: find_index_None set)
    show ?thesis
    proof (cases "list_ex (is_expired now) (cs_requests st)")
      case True
      obtain db' where db': "write_channel_pairing_state db ch now (st\<lparr>cs_requests := ?un\<rparr>) = Inr db'" "db_ok db'"
          "pending key db' = ?un" "\<And>a. stored_allow key a db' = allow_list st a" "same_elsewhere key db db'"
        by (rule write_requests [OF assms st(4) un(1)]) blast
      have "approve_channel_pairing_code registry now ch raw account given db = (db', Inr None)"
        using code None True by (simp add: approve_channel_pairing_code_def typed_code_eq Let_def write_transaction_def st(1)
            prune_expired_requests_def P db'(1))
      then show ?thesis using none [of db'] db' no un(2) by (simp add: st(5) mset_filter)
    next
      case False
      have "approve_channel_pairing_code registry now ch raw account given db = (db, Inr None)"
        using code None False by (simp add: approve_channel_pairing_code_def typed_code_eq Let_def write_transaction_def st(1)
            prune_expired_requests_def P)
      then show ?thesis using none [of db] assms(1) no by simp
    qed
  next
    case (Some k)
    let ?r = "?un ! k" let ?rest = "take k ?un @ drop (Suc k) ?un"
    let ?n = "granted_entry registry ch given ?r" and ?a = "grant_account account ?r"
    let ?m = "if ?n \<noteq> [] \<and> ?n \<notin> set (allow_list st ?a) then js_set ?a (allow_list st ?a @ [?n]) (cs_allow_from st) else cs_allow_from st"
    have k: "k < length ?un" "has_code raw account ?r" using find_index_Some [OF Some] by simp_all
    then have r: "?r \<in> set (pending key db)" "\<not> is_expired now ?r" using nth_mem [OF k(1)] set by auto
    have rest: "mset ?rest = mset ?un - {#?r#}" by (rule mset_take_drop [OF k(1)])
    then have ok: "requests_ok ?rest" by (intro requests_ok_subset [OF un(1)]) simp
    have n: "?n = [] \<or> entry_ok ?n"
      using normalized_entry_ok by (auto simp: granted_entry_def Let_def split: option.splits)
    have "account_ok ?a" by (simp add: grant_account_def)
    then have m: "allow_ok ?m" using st(4) allow_ok_list [OF st(4)] n by (auto intro!: allow_ok_set)
    obtain db' where db': "write_channel_pairing_state db ch now (st\<lparr>cs_allow_from := ?m, cs_requests := ?rest\<rparr>) = Inr db'" "db_ok db'"
        "pending key db' = ?rest" "\<And>a. stored_allow key a db' = allow_list (st\<lparr>cs_allow_from := ?m\<rparr>) a" "same_elsewhere key db db'"
      by (rule write_requests [OF assms _ ok, of "st\<lparr>cs_allow_from := ?m\<rparr>"]) (use m in auto)
    have flip: "st\<lparr>cs_allow_from := x, cs_requests := y\<rparr> = st\<lparr>cs_requests := y, cs_allow_from := x\<rparr>" for x y by simp
    note wr = db'(1) [unfolded flip granted_entry_def grant_account_def Let_def]
    have ap: "approve_channel_pairing_code registry now ch raw account given db = (db', Inr (Some ?r))"
      using code by (simp add: approve_channel_pairing_code_def typed_code_eq Let_def write_transaction_def st(1)
          prune_expired_requests_def P Some wr)
    have al: "stored_allow key a db' = (if a = ?a \<and> ?n \<noteq> [] then set_add ?n (stored_allow key a db) else stored_allow key a db)" for a
      by (auto simp: db'(4) allow_list_def set_add_def st(5) [symmetric] split: option.splits)
    show ?thesis using some [OF ap db'(2) r k(2) code _ al db'(5)] db'(3) rest un(2) by simp
  qed
qed


section \<open>Issuing codes\<close>

lemma alphabet_char: "c \<in> set pairing_code_alphabet \<Longrightarrow> js_upper_char c = [c] \<and> \<not> js_is_space c"
proof -
  have "list_all (\<lambda>c. js_upper_char c = [c] \<and> \<not> js_is_space c) pairing_code_alphabet" by code_simp
  then show "c \<in> set pairing_code_alphabet \<Longrightarrow> js_upper_char c = [c] \<and> \<not> js_is_space c" unfolding list_all_iff by blast
qed

lemma random_code_chars: "set (random_code random k) \<subseteq> set pairing_code_alphabet" "length (random_code random k) = 8"
proof -
  have "0 < length pairing_code_alphabet" by code_simp
  then show "set (random_code random k) \<subseteq> set pairing_code_alphabet" by (auto simp: random_code_def intro!: nth_mem)
  show "length (random_code random k) = 8" by (simp add: random_code_def pairing_code_length_def)
qed

text \<open>A code of the generator is its own canonical form.\<close>

lemma random_code_ok:
  "random_code random k \<noteq> []" "js_trim (random_code random k) = random_code random k" "js_upper (random_code random k) = random_code random k"
proof -
  note c = random_code_chars [of random k]
  have up: "js_upper s = s" if "set s \<subseteq> set pairing_code_alphabet" for s
    using that by (induction s) (auto simp: js_upper_def alphabet_char)
  show ne: "random_code random k \<noteq> []" using c(2) by auto
  then show "js_trim (random_code random k) = random_code random k"
    using c(1) alphabet_char by (intro js_trim_eq_self) (auto dest: hd_in_set last_in_set)
  show "js_upper (random_code random k) = random_code random k" by (rule up [OF c(1)])
qed

lemma try_codes_Some: "try_codes random existing ks = Some c \<Longrightarrow> c \<notin> set existing \<and> (\<exists>k. c = random_code random k)"
  by (induction ks) (auto simp: Let_def split: if_splits)

lemma generated_code:
  assumes "generate_unique_code random existing = Inr c"
  shows "c \<notin> set existing" "c \<noteq> []" "js_trim c = c" "js_upper c = c"
  using assms try_codes_Some [of random existing "[0..<pairing_code_max_attempts]" c] random_code_ok
  by (auto simp: generate_unique_code_def split: option.splits)

lemma generate_error: "generate_unique_code random existing = Inl e \<Longrightarrow> \<exists>n. e = NoUniqueCode n"
  by (auto simp: generate_unique_code_def split: option.splits)

text \<open>Adding a request to a well-formed list.\<close>

lemma requests_ok_Cons:
  "requests_ok (r # rs) \<longleftrightarrow> request_ok r \<and> requests_ok rs \<and>
     (\<forall>q \<in> set rs. \<not> (resolve_pairing_request_account_id q = resolve_pairing_request_account_id r \<and> pq_id q = pq_id r) \<and>
        js_upper (pq_code q) \<noteq> js_upper (pq_code r)) \<and>
     length (filter (\<lambda>q. resolve_pairing_request_account_id q = resolve_pairing_request_account_id r) rs) < pairing_pending_max"
  by (auto simp: requests_ok_def Suc_le_eq image_iff; metis)

lemma meta_fold_ok:
  assumes "js_wf m" and "\<forall>(k, v) \<in> set m. v \<noteq> [] \<and> js_trim v = v" and "\<forall>(k, v) \<in> set xs. v \<noteq> [] \<and> js_trim v = v"
  shows "js_wf (fold (\<lambda>(k, v). js_set k v) xs m) \<and> (\<forall>(k, v) \<in> set (fold (\<lambda>(k, v). js_set k v) xs m). v \<noteq> [] \<and> js_trim v = v)"
  using assms
proof (induction xs arbitrary: m)
  case (Cons p xs)
  obtain k v where p: "p = (k, v)" by (cases p)
  have "\<forall>(k', v') \<in> set (js_set k v m). v' \<noteq> [] \<and> js_trim v' = v'" using Cons.prems by (auto simp: p dest!: js_set_in)
  then show ?case using Cons.IH [of "js_set k v m"] Cons.prems by (simp add: p)
qed simp

lemma request_meta_ok:
  assumes "account_ok a"
  shows "meta_ok (request_meta raw a)" "js_get (request_meta raw a) ''accountId'' = Some a"
proof -
  define base where "base = (case raw of None \<Rightarrow> []
    | Some m \<Rightarrow> fold (\<lambda>(k, v). js_set k v) (List.map_filter (\<lambda>(k, v). map_option (Pair k) (normalize_optional_string v)) m) [])"
  have mf: "\<forall>(k, v) \<in> set (List.map_filter (\<lambda>(k, v). map_option (Pair k) (normalize_optional_string v)) m). v \<noteq> [] \<and> js_trim v = v"
    for m :: "(string, string option) js_map"
    by (induction m) (auto simp: List.map_filter_simps split: option.splits prod.splits dest!: optional_trimmed)
  have "js_wf base \<and> (\<forall>(k, v) \<in> set base. v \<noteq> [] \<and> js_trim v = v)"
  proof (cases raw)
    case (Some m)
    show ?thesis using meta_fold_ok [OF _ _ mf [of m], of "[]"] by (simp add: base_def Some)
  qed (simp add: base_def)
  then have base: "js_wf base" "\<forall>(k, v) \<in> set base. v \<noteq> [] \<and> js_trim v = v" by blast+
  have req: "request_meta raw a = js_set ''accountId'' a base" by (simp add: request_meta_def base_def)
  show "js_get (request_meta raw a) ''accountId'' = Some a" by (simp add: req)
  show "meta_ok (request_meta raw a)"
    using base account_okD [OF assms] assms by (auto simp: meta_ok_def req dest!: js_set_in)
qed

lemma request_built:
  assumes "account_ok a" and "pq_meta r = Some (request_meta raw a)"
  shows "resolve_pairing_request_account_id r = a"
  using assms account_okD [OF assms(1)] by (simp add: resolve_pairing_request_account_id_def meta_account_id_def request_meta_ok)

lemma stamp_now: "iso_time t \<Longrightarrow> stamp_ok (to_iso_string t)"
  by (simp add: stamp_ok_def to_iso_stored date_parse_to_iso)

lemma request_account: "account_ok a \<Longrightarrow> request_matches_account_id a r \<longleftrightarrow> resolve_pairing_request_account_id r = a"
  using account_okD(2) by (auto simp: request_matches_account_id_def)

lemma normalized_account: "normalize_pairing_account_id (Some a) = [] \<Longrightarrow> resolve_allow_from_account_id (Some a) = default_account_id"
  "normalize_pairing_account_id (Some a) \<noteq> [] \<Longrightarrow> resolve_allow_from_account_id (Some a) = normalize_pairing_account_id (Some a)"
  by (simp_all add: normalize_pairing_account_id_def resolve_allow_from_account_id_def)


text \<open>The request an upsert stores.\<close>

definition issued_request :: "int \<Rightarrow> item \<Rightarrow> string \<Rightarrow> (string, string option) js_map option \<Rightarrow> string \<Rightarrow> string \<Rightarrow> pairing_request" where
  "issued_request clock ident account_id raw code created =
     \<lparr>pq_id = normalize_pairing_id ident, pq_code = code, pq_created_at = created, pq_last_seen_at = to_iso_string clock,
      pq_meta = Some (request_meta raw account_id)\<rparr>"

lemma issued_ok:
  assumes "iso_time clock" and "account_ok a" and "code \<noteq> []" "js_trim code = code" and "stamp_ok created"
    and "normalize_pairing_id ident \<noteq> []"
  shows "request_ok (issued_request clock ident a raw code created)"
proof -
  have "js_trim (normalize_pairing_id ident) = normalize_pairing_id ident"
    by (auto simp: normalize_pairing_id_def dest: optional_trimmed split: option.splits)
  then show ?thesis
    using assms by (simp add: request_ok_def issued_request_def stamp_now request_meta_ok)
qed

lemma issued_blank: "normalize_pairing_id ident = [] \<Longrightarrow> normalize_persisted_pairing_request (issued_request clock ident a raw code created) = None"
  by (simp add: normalize_persisted_pairing_request_def issued_request_def normalize_optional_string_def)

lemma issued_account: "account_ok a \<Longrightarrow> resolve_pairing_request_account_id (issued_request clock ident a raw code created) = a"
  by (rule request_built) (simp_all add: issued_request_def)

lemma replace_request_ok:
  assumes "requests_ok rs" and "k < length rs" and "request_ok q" and "pq_code q = pq_code (rs ! k)" and "pq_id q = pq_id (rs ! k)"
    and "resolve_pairing_request_account_id q = resolve_pairing_request_account_id (rs ! k)"
  shows "requests_ok (rs[k := q])"
proof -
  let ?rest = "take k rs @ drop (Suc k) rs"
  have "mset rs = mset ((rs ! k) # ?rest)" using assms(2) by (metis id_take_nth_drop mset.simps(2) mset_append union_mset_add_mset_right)
  then have "requests_ok ((rs ! k) # ?rest)" by (intro requests_ok_mset [OF assms(1)]) simp
  then have q: "requests_ok (q # ?rest)" using assms(3-6) by (simp add: requests_ok_Cons)
  have "mset (rs[k := q]) = mset (q # ?rest)" using assms(2) by (simp add: upd_conv_take_nth_drop)
  then show ?thesis by (rule requests_ok_mset [OF q])
qed

lemma mset_replace: "k < length xs \<Longrightarrow> mset (xs[k := y]) = add_mset y (mset xs - {#xs ! k#})"
  by (simp add: mset_update)

definition issue_account :: "string \<Rightarrow> string" where
  "issue_account account = resolve_allow_from_account_id (Some account)"

lemma issue_account_eq: "(if normalize_pairing_account_id (Some account) = [] then default_account_id else normalize_pairing_account_id (Some account)) = issue_account account"
  by (simp add: issue_account_def normalized_account)

lemma issue_account_ok [simp]: "account_ok (issue_account account)"
  by (simp add: issue_account_def)

lemma upsert_result:
  fixes clock account raw and ident :: item
  assumes "db_ok db" and "safe_channel_key ch = Inr key" and "iso_time clock"
  defines "a \<equiv> issue_account account" and "unexpired \<equiv> filter (\<lambda>q. \<not> is_expired clock q) (pending key db)"
  obtains (reuse) r db' where "upsert_channel_pairing_request random clock ch ident account raw db = (db', Inr \<lparr>ur_code = pq_code r, ur_created = False\<rparr>)"
      "r \<in> set unexpired" "pq_id r = normalize_pairing_id ident" "resolve_pairing_request_account_id r = a"
      "mset (pending key db') = add_mset (issued_request clock ident a raw (pq_code r) (pq_created_at r)) (mset unexpired - {#r#})"
      "db_ok db'" "\<And>b. stored_allow key b db' = stored_allow key b db" "same_elsewhere key db db'"
    | (full) db' where "upsert_channel_pairing_request random clock ch ident account raw db = (db', Inr \<lparr>ur_code = [], ur_created = False\<rparr>)"
      "pairing_pending_max \<le> length (filter (\<lambda>r. resolve_pairing_request_account_id r = a) unexpired)"
      "mset (pending key db') = mset unexpired"
      "db_ok db'" "\<And>b. stored_allow key b db' = stored_allow key b db" "same_elsewhere key db db'"
    | (new) code db' where "upsert_channel_pairing_request random clock ch ident account raw db = (db', Inr \<lparr>ur_code = code, ur_created = True\<rparr>)"
      "code \<noteq> []" "js_trim code = code" "js_upper code = code" "\<forall>r \<in> set unexpired. js_upper (pq_code r) \<noteq> code"
      "mset (pending key db') = (if normalize_pairing_id ident = [] then mset unexpired
         else add_mset (issued_request clock ident a raw code (to_iso_string clock)) (mset unexpired))"
      "db_ok db'" "\<And>b. stored_allow key b db' = stored_allow key b db" "same_elsewhere key db db'"
    | (exhausted) n where "upsert_channel_pairing_request random clock ch ident account raw db = (db, Inl (NoUniqueCode n))"
proof -
  obtain st where st: "read_channel_pairing_state db ch = Inr st" "mset (cs_requests st) = mset (pending key db)"
    "requests_ok (cs_requests st)" "allow_ok (cs_allow_from st)" "\<And>b. allow_list st b = stored_allow key b db"
    by (rule read_channel [OF assms(1,2)]) blast
  define un where "un = filter (\<lambda>r. \<not> is_expired clock r) (cs_requests st)"
  let ?codes = "map (\<lambda>r. js_upper (case normalize_optional_string (Some (pq_code r)) of Some c \<Rightarrow> c | None \<Rightarrow> [])) un"
  have un: "requests_ok un" "mset un = mset unexpired"
    using requests_ok_filter [OF st(3)] by (simp_all add: un_def mset_filter st(2) unexpired_def)
  have set: "set un = set unexpired" by (metis un(2) set_mset_mset)
  have aok: "account_ok a" by (simp add: a_def)
  have code: "pq_code r \<noteq> []" "js_trim (pq_code r) = pq_code r" if "r \<in> set un" for r
    using un(1) that by (auto simp: requests_ok_def list_all_iff request_ok_def)
  then have codes: "?codes = map (\<lambda>r. js_upper (pq_code r)) un" by simp
  have pos: "0 < pairing_pending_max" by (simp add: pairing_pending_max_def)
  have ra: "request_matches_account_id a = (\<lambda>r. resolve_pairing_request_account_id r = a)"
    using request_account [OF aok] by (simp add: fun_eq_iff)
  note defs = upsert_channel_pairing_request_def write_transaction_def issue_account_eq a_def [symmetric] st(1)
    prune_expired_requests_def issued_request_def [symmetric] un_def [symmetric] ra prune_excess_ok [OF un(1)]
  show ?thesis
  proof (cases "find_index (\<lambda>r. pq_id r = normalize_pairing_id ident \<and> resolve_pairing_request_account_id r = a) un")
    case (Some k)
    let ?r = "un ! k"
    let ?q = "issued_request clock ident a raw (pq_code ?r) (pq_created_at ?r)"
    have k: "k < length un" "pq_id ?r = normalize_pairing_id ident" "resolve_pairing_request_account_id ?r = a"
      using find_index_Some [OF Some] by simp_all
    have r: "?r \<in> set un" using nth_mem [OF k(1)] .
    have rok: "request_ok ?r" using un(1) r unfolding requests_ok_def list_all_iff by blast
    have ident: "normalize_pairing_id ident \<noteq> []" using rok k(2) by (simp add: request_ok_def)
    have q: "request_ok ?q"
      using rok code [OF r] ident by (intro issued_ok [OF assms(3) aok]) (simp_all add: request_ok_def)
    have ok: "requests_ok (un[k := ?q])"
      by (rule replace_request_ok [OF un(1) k(1) q]) (use k(2,3) in \<open>simp_all add: issued_account [OF aok], simp_all add: issued_request_def\<close>)
    obtain db' where db': "write_channel_pairing_state db ch clock (st\<lparr>cs_requests := un[k := ?q]\<rparr>) = Inr db'" "db_ok db'"
        "pending key db' = un[k := ?q]" "\<And>b. stored_allow key b db' = allow_list st b" "same_elsewhere key db db'"
      by (rule write_requests [OF assms(1,2) st(4) ok]) blast
    have "upsert_channel_pairing_request random clock ch ident account raw db = (db', Inr \<lparr>ur_code = pq_code ?r, ur_created = False\<rparr>)"
      using code [OF r] by (simp add: defs Let_def Some prune_excess_ok [OF ok] db'(1))
    then show ?thesis
      using reuse [of db' ?r] r db' k(2,3) by (simp add: set mset_replace [OF k(1)] un(2) st(5))
  next
    case None
    then have no: "\<forall>r \<in> set un. \<not> (pq_id r = normalize_pairing_id ident \<and> resolve_pairing_request_account_id r = a)"
      by (simp only: find_index_None)
    have len: "length (filter (\<lambda>r. resolve_pairing_request_account_id r = a) un) =
        length (filter (\<lambda>r. resolve_pairing_request_account_id r = a) unexpired)"
      by (metis mset_filter size_mset un(2))
    show ?thesis
    proof (cases "pairing_pending_max \<le> length (filter (\<lambda>r. resolve_pairing_request_account_id r = a) un)")
      case True
      then have cap: "pairing_pending_max \<le> length (filter (\<lambda>r. resolve_pairing_request_account_id r = a) unexpired)" by (simp add: len)
      show ?thesis
      proof (cases "list_ex (is_expired clock) (cs_requests st)")
        case ex: True
        obtain db' where db': "write_channel_pairing_state db ch clock (st\<lparr>cs_requests := un\<rparr>) = Inr db'" "db_ok db'"
            "pending key db' = un" "\<And>b. stored_allow key b db' = allow_list st b" "same_elsewhere key db db'"
          by (rule write_requests [OF assms(1,2) st(4) un(1)]) blast
        have "upsert_channel_pairing_request random clock ch ident account raw db = (db', Inr \<lparr>ur_code = [], ur_created = False\<rparr>)"
          using True ex by (simp add: defs Let_def None db'(1) pos)
        then show ?thesis using cap full [of db'] db' st(5) un(2) by simp
      next
        case False
        then have "un = cs_requests st" by (auto simp: un_def list_ex_iff filter_id_conv)
        have "upsert_channel_pairing_request random clock ch ident account raw db = (db, Inr \<lparr>ur_code = [], ur_created = False\<rparr>)"
          using True False by (simp add: defs Let_def None pos)
        then show ?thesis using full [of db] assms(1) cap un(2) st(2) \<open>un = cs_requests st\<close> by simp
      qed
    next
      case room: False
      have stamp: "stamp_ok (to_iso_string clock)" by (rule stamp_now [OF assms(3)])
      show ?thesis
      proof (cases "generate_unique_code random ?codes")
        case (Inl e)
        then obtain n where "e = NoUniqueCode n" using generate_error by blast
        then have "upsert_channel_pairing_request random clock ch ident account raw db = (db, Inl (NoUniqueCode n))"
          using room Inl by (simp add: defs Let_def None)
        then show ?thesis by (rule exhausted)
      next
        case (Inr code)
        note gen = generated_code [OF Inr]
        let ?q = "issued_request clock ident a raw code (to_iso_string clock)"
        have fresh: "\<forall>r \<in> set un. js_upper (pq_code r) \<noteq> code" using gen(1) unfolding codes by auto
        let ?rs = "List.map_filter normalize_persisted_pairing_request (un @ [?q])"
        have rs: "?rs = (if normalize_pairing_id ident = [] then un else un @ [?q])"
          using issued_ok [OF assms(3) aok gen(2,3) stamp] normal_requests [OF un(1)] request_ok_normal
          by (simp add: map_filter_app List.map_filter_simps issued_blank)
        have "requests_ok (?q # un)" if "normalize_pairing_id ident \<noteq> []"
          using issued_ok [OF assms(3) aok gen(2,3) stamp that] un(1) fresh no room gen(4)
          by (auto simp: requests_ok_Cons issued_account [OF aok]) (auto simp: issued_request_def)
        then have ok: "requests_ok ?rs" using un(1) requests_ok_mset [of "?q # un" "un @ [?q]"] by (simp add: rs)
        obtain db' where db': "write_channel_pairing_state db ch clock (st\<lparr>cs_requests := un @ [?q]\<rparr>) = Inr db'" "db_ok db'"
            "pending key db' = ?rs" "\<And>b. stored_allow key b db' = allow_list st b" "same_elsewhere key db db'"
          using write_channel [of db ch key "st\<lparr>cs_requests := un @ [?q]\<rparr>" clock] assms(1,2) st(4) ok
          by (simp add: allow_list_def) blast
        have "upsert_channel_pairing_request random clock ch ident account raw db = (db', Inr \<lparr>ur_code = code, ur_created = True\<rparr>)"
          using room Inr by (simp add: defs Let_def None db'(1))
        then show ?thesis using new [of db' code] gen fresh db' un(2) st(5) by (simp add: set rs)
      qed
    qed
  qed
qed


section \<open>Allowlist updates and the pending list\<close>

lemma update_allow_result:
  fixes account registry entry given
  assumes "db_ok db" and "safe_channel_key ch = Inr key"
    and keeps: "\<And>cur n next. entry_ok n \<Longrightarrow> distinct cur \<Longrightarrow> list_all entry_ok cur \<Longrightarrow> f cur n = Some next \<Longrightarrow> distinct next \<and> list_all entry_ok next"
  defines "a \<equiv> resolve_allow_from_account_id account" and "n \<equiv> normalize_allow_from_input registry ch entry given"
  obtains (same) "update_allow_from_store_entry registry now ch entry account given f db = (db, Inr (False, stored_allow key a db))"
      "n = [] \<or> f (stored_allow key a db) n = None"
    | (changed) db' where "update_allow_from_store_entry registry now ch entry account given f db = (db', Inr (True, stored_allow key a db'))"
      "n \<noteq> []" "f (stored_allow key a db) n = Some (stored_allow key a db')"
      "\<And>b. b \<noteq> a \<Longrightarrow> stored_allow key b db' = stored_allow key b db" "mset (pending key db') = mset (pending key db)"
      "db_ok db'" "same_elsewhere key db db'"
proof -
  obtain st where st: "read_channel_pairing_state db ch = Inr st" "mset (cs_requests st) = mset (pending key db)"
    "requests_ok (cs_requests st)" "allow_ok (cs_allow_from st)" "\<And>b. allow_list st b = stored_allow key b db"
    by (rule read_channel [OF assms(1,2)]) blast
  note defs = update_allow_from_store_entry_def write_transaction_def st(1) st(5) a_def [symmetric] n_def [symmetric] Let_def
  show ?thesis
  proof (cases "n = [] \<or> f (stored_allow key a db) n = None")
    case True
    then have "update_allow_from_store_entry registry now ch entry account given f db = (db, Inr (False, stored_allow key a db))"
      by (auto simp: defs)
    then show ?thesis using True by (rule same)
  next
    case False
    then obtain nxt where nxt: "n \<noteq> []" "f (stored_allow key a db) n = Some nxt" by auto
    let ?st = "st\<lparr>cs_allow_from := js_set a nxt (cs_allow_from st)\<rparr>"
    have "entry_ok n" using nxt(1) normalized_entry_ok by (auto simp: n_def)
    moreover have "distinct (stored_allow key a db)" "list_all entry_ok (stored_allow key a db)"
      using allow_ok_list [OF st(4), of a] by (simp_all add: st(5))
    ultimately have "distinct nxt \<and> list_all entry_ok nxt" using nxt(2) by (rule keeps)
    then have al: "allow_ok (cs_allow_from ?st)" using allow_ok_set [OF st(4)] by (simp add: a_def)
    obtain db' where db': "write_channel_pairing_state db ch now ?st = Inr db'" "db_ok db'" "pending key db' = cs_requests st"
        "\<And>b. stored_allow key b db' = allow_list ?st b" "same_elsewhere key db db'"
      using write_channel [OF assms(1,2) al, of now] normal_requests [OF st(3)] st(3) by auto
    have new: "stored_allow key a db' = nxt" "b \<noteq> a \<Longrightarrow> stored_allow key b db' = stored_allow key b db" for b
      using db'(4) st(5) by (simp_all add: allow_list_def)
    have "update_allow_from_store_entry registry now ch entry account given f db = (db', Inr (True, stored_allow key a db'))"
      using nxt by (simp add: defs db'(1) new(1))
    then show ?thesis using changed [of db'] nxt new db' st(2) by simp
  qed
qed

text \<open>The two updates: an entry is added at the end, or removed.\<close>

lemma add_result:
  fixes account registry entry given
  assumes "db_ok db" and "safe_channel_key ch = Inr key"
  defines "a \<equiv> resolve_allow_from_account_id account" and "n \<equiv> normalize_allow_from_input registry ch entry given"
  obtains db' changed where "add_channel_allow_from_store_entry registry now ch entry account given db = (db', Inr (changed, stored_allow key a db'))"
    "\<And>b. stored_allow key b db' = (if b = a \<and> n \<noteq> [] then set_add n (stored_allow key b db) else stored_allow key b db)" "mset (pending key db') = mset (pending key db)"
    "db_ok db'" "same_elsewhere key db db'"
proof -
  let ?f = "\<lambda>current normalized. if normalized \<in> set current then None else Some (current @ [normalized])"
  have f: "distinct nxt \<and> list_all entry_ok nxt"
    if "entry_ok n" "distinct cur" "list_all entry_ok cur" "?f cur n = Some nxt" for cur n nxt
    using that by (auto split: if_splits)
  show ?thesis
  proof (cases rule: update_allow_result [OF assms(1,2), where f = ?f and registry = registry and entry = entry and
      account = account and given = given and now = now, folded a_def n_def, case_names keeps same changed])
    case (keeps cur n nxt)
    then show ?case by (rule f)
  next
    case same
    then show ?thesis using that [of db False] assms(1)
      by (auto simp: add_channel_allow_from_store_entry_def set_add_def split: if_splits)
  next
    case (changed db')
    then show ?thesis using that [of db' True]
      by (auto simp: add_channel_allow_from_store_entry_def set_add_def split: if_splits)
  qed
qed

lemma remove_result:
  fixes account registry entry given
  assumes "db_ok db" and "safe_channel_key ch = Inr key"
  defines "a \<equiv> resolve_allow_from_account_id account" and "n \<equiv> normalize_allow_from_input registry ch entry given"
  obtains db' changed where "remove_channel_allow_from_store_entry registry now ch entry account given db = (db', Inr (changed, stored_allow key a db'))"
    "\<And>b. stored_allow key b db' =
       (if b = a \<and> n \<noteq> [] then filter (\<lambda>e. e \<noteq> n) (stored_allow key b db) else stored_allow key b db)" "mset (pending key db') = mset (pending key db)"
    "db_ok db'" "same_elsewhere key db db'"
proof -
  let ?f = "\<lambda>current normalized. let next = filter (\<lambda>e. e \<noteq> normalized) current in if length next = length current then None else Some next"
  have f: "distinct nxt \<and> list_all entry_ok nxt"
    if "entry_ok n" "distinct cur" "list_all entry_ok cur" "?f cur n = Some nxt" for cur n nxt
    using that by (auto simp: Let_def list_all_iff split: if_splits)
  have same_length: "filter P xs = xs" if "length (filter P xs) = length xs" for P :: "string \<Rightarrow> bool" and xs
    using that by (metis filter_id_conv length_filter_less nat_less_le)
  show ?thesis
  proof (cases rule: update_allow_result [OF assms(1,2), where f = ?f and registry = registry and entry = entry and
      account = account and given = given and now = now, folded a_def n_def, case_names keeps same changed])
    case (keeps cur n nxt)
    then show ?case by (rule f)
  next
    case same
    have "n = [] \<or> filter (\<lambda>e. e \<noteq> n) (stored_allow key a db) = stored_allow key a db"
      using same(2) same_length [of "\<lambda>e. e \<noteq> n" "stored_allow key a db"] by (simp add: Let_def split: if_splits)
    then show ?thesis using that [of db False] assms(1) same(1)
      by (auto simp: remove_channel_allow_from_store_entry_def)
  next
    case (changed db')
    then show ?thesis using that [of db' True]
      by (auto simp: remove_channel_allow_from_store_entry_def Let_def split: if_splits)
  qed
qed

lemma list_result:
  assumes "db_ok db" and "safe_channel_key ch = Inr key"
  obtains rs db' where "list_channel_pairing_requests le now ch account db = (db', Inr rs)" "db_ok db'"
    "mset (pending key db') = mset (filter (\<lambda>r. \<not> is_expired now r) (pending key db))"
    "\<And>a. stored_allow key a db' = stored_allow key a db" "same_elsewhere key db db'"
    "set rs = {r \<in> set (pending key db'). request_matches_account_id (normalize_pairing_account_id account) r}"
proof -
  obtain st where st: "read_channel_pairing_state db ch = Inr st" "mset (cs_requests st) = mset (pending key db)"
    "requests_ok (cs_requests st)" "allow_ok (cs_allow_from st)" "\<And>a. allow_list st a = stored_allow key a db"
    by (rule read_channel [OF assms]) blast
  define un where "un = filter (\<lambda>r. \<not> is_expired now r) (cs_requests st)"
  have un: "requests_ok un" "mset un = mset (filter (\<lambda>r. \<not> is_expired now r) (pending key db))"
    using requests_ok_filter [OF st(3)] by (simp_all add: un_def mset_filter st(2))
  define rs where "rs = foldr (insert_listed le) (filter (request_matches_account_id (normalize_pairing_account_id account)) un) []"
  have ins: "set (insert_listed le x xs) = insert x (set xs)" for x xs
    by (induction xs) auto
  have "set (foldr (insert_listed le) xs []) = set xs" for xs
    by (induction xs) (simp_all add: ins)
  then have rs: "set rs = {r \<in> set un. request_matches_account_id (normalize_pairing_account_id account) r}" by (simp add: rs_def)
  note defs = list_channel_pairing_requests_def write_transaction_def st(1) prune_expired_requests_def un_def [symmetric]
    prune_excess_ok [OF un(1)] rs_def [symmetric] Let_def
  show ?thesis
  proof (cases "list_ex (is_expired now) (cs_requests st)")
    case True
    obtain db' where db': "write_channel_pairing_state db ch now (st\<lparr>cs_requests := un\<rparr>) = Inr db'" "db_ok db'"
        "pending key db' = un" "\<And>b. stored_allow key b db' = allow_list st b" "same_elsewhere key db db'"
      by (rule write_requests [OF assms st(4) un(1)]) blast
    have "list_channel_pairing_requests le now ch account db = (db', Inr rs)" using True by (simp add: defs db'(1))
    then show ?thesis using that [of db' rs] db' un(2) st(5) rs by simp
  next
    case False
    then have u: "un = cs_requests st" by (auto simp: un_def list_ex_iff filter_id_conv)
    have "list_channel_pairing_requests le now ch account db = (db, Inr rs)" using False by (simp add: defs)
    moreover have "set un = set (pending key db)" by (metis st(2) set_mset_mset u)
    ultimately show ?thesis using that [of db rs] assms(1) un(2) st(2) rs by (simp add: u)
  qed
qed

end
