(* ===== verification/Pairing_Props.thy ===== *)
theory Pairing_Props
  imports Pairing_Inv
begin

text \<open>
  The pairing store as a machine over its operations, and what it promises: the store stays consistent and
  small, an approval takes exactly the request whose code was typed, nobody is approved in any other way, and
  a code that was handed out can be approved.
\<close>

section \<open>The machine\<close>

text \<open>The calls of the store; the clock of a call is its current time in milliseconds.\<close>

datatype pairing_call =
  Upsert item string "(string, string option) js_map option" "nat \<Rightarrow> nat"
| Approve string "string option" "pairing_adapter option"
| AddEntry item "string option" "pairing_adapter option"
| RemoveEntry item "string option" "pairing_adapter option"
| ListPending "string option"

text \<open>The outcome of a call as far as it can fail.\<close>

definition outcome :: "'d \<times> (pairing_error + 'a) \<Rightarrow> 'd \<times> pairing_error option" where
  "outcome r = (fst r, case snd r of Inl e \<Rightarrow> Some e | Inr _ \<Rightarrow> None)"

record pairing_event =
  pe_clock :: int
  pe_channel :: string
  pe_call :: pairing_call

definition pairing_call_result ::
    "(string \<Rightarrow> pairing_adapter option) \<Rightarrow> (string \<Rightarrow> string \<Rightarrow> bool) \<Rightarrow> pairing_event \<Rightarrow> pairing_db \<Rightarrow>
     pairing_db \<times> pairing_error option" where
  "pairing_call_result registry le e db =
     (case pe_call e of
        Upsert i account meta random \<Rightarrow> outcome (upsert_channel_pairing_request random (pe_clock e) (pe_channel e) i account meta db)
      | Approve code account given \<Rightarrow> outcome (approve_channel_pairing_code registry (pe_clock e) (pe_channel e) code account given db)
      | AddEntry i account given \<Rightarrow> outcome (add_channel_allow_from_store_entry registry (pe_clock e) (pe_channel e) i account given db)
      | RemoveEntry i account given \<Rightarrow> outcome (remove_channel_allow_from_store_entry registry (pe_clock e) (pe_channel e) i account given db)
      | ListPending account \<Rightarrow> outcome (list_channel_pairing_requests le (pe_clock e) (pe_channel e) account db))"

text \<open>Events outside the times that \<open>toISOString\<close> is modelled for are left out.\<close>

definition pairing_step ::
    "(string \<Rightarrow> pairing_adapter option) \<Rightarrow> (string \<Rightarrow> string \<Rightarrow> bool) \<Rightarrow> pairing_db \<Rightarrow> pairing_event \<Rightarrow> pairing_db" where
  "pairing_step registry le db e = (if iso_time (pe_clock e) then fst (pairing_call_result registry le e db) else db)"

definition empty_pairing_db :: pairing_db where
  "empty_pairing_db = \<lparr>db_requests = [], db_allow = []\<rparr>"

lemma empty_db_ok: "db_ok empty_pairing_db"
  by (auto simp: db_ok_def empty_pairing_db_def rows_of_key_def allow_of_key_def requests_ok_def allow_rows_ok_def)

lemma invalid_channel:
  assumes "safe_channel_key ch = Inl x"
  shows "read_channel_pairing_state db ch = Inl x"
  by (simp add: read_channel_pairing_state_def assms)

text \<open>What a call does to a well-formed database: it fails before it writes, or the outcome is well-formed.\<close>

lemma call_ok:
  assumes "db_ok db" and "iso_time (pe_clock e)"
  shows "db_ok (fst (pairing_call_result registry le e db)) \<and>
    (\<forall>x. snd (pairing_call_result registry le e db) = Some x \<longrightarrow> fst (pairing_call_result registry le e db) = db \<and> x \<noteq> RowExists)"
proof (cases "safe_channel_key (pe_channel e)")
  case (Inl x)
  have "x \<noteq> RowExists" using Inl by (auto simp: safe_channel_key_def normalize_pairing_key_def Let_def split: if_splits)
  then show ?thesis
    using assms(1) by (cases "pe_call e")
      (auto simp: pairing_call_result_def outcome_def upsert_channel_pairing_request_def approve_channel_pairing_code_def
        add_channel_allow_from_store_entry_def remove_channel_allow_from_store_entry_def update_allow_from_store_entry_def
        list_channel_pairing_requests_def write_transaction_def invalid_channel [OF Inl] Let_def)
next
  case key: (Inr key)
  show ?thesis
  proof (cases "pe_call e")
    case (Upsert i account meta random)
    show ?thesis
      by (rule upsert_result [OF assms(1) key assms(2), of random i account meta])
        (simp_all add: pairing_call_result_def Upsert outcome_def assms(1))
  next
    case (Approve code account given)
    show ?thesis
      by (rule approve_result [OF assms(1) key, of registry "pe_clock e" code account given])
        (simp_all add: pairing_call_result_def Approve outcome_def)
  next
    case (AddEntry i account given)
    show ?thesis
      by (rule add_result [OF assms(1) key, of registry "pe_clock e" i account given])
        (simp add: pairing_call_result_def AddEntry outcome_def)
  next
    case (RemoveEntry i account given)
    show ?thesis
      by (rule remove_result [OF assms(1) key, of registry "pe_clock e" i account given])
        (simp add: pairing_call_result_def RemoveEntry outcome_def)
  next
    case (ListPending account)
    show ?thesis
      by (rule list_result [OF assms(1) key, of le "pe_clock e" account])
        (simp_all add: pairing_call_result_def ListPending outcome_def)
  qed
qed

interpretation pairing: invariant_machine "pairing_step registry le" db_ok for registry le
  by unfold_locales (simp add: pairing_step_def call_ok)

text \<open>The store after a sequence of calls.\<close>

definition pairing_store ::
    "(string \<Rightarrow> pairing_adapter option) \<Rightarrow> (string \<Rightarrow> string \<Rightarrow> bool) \<Rightarrow> pairing_event list \<Rightarrow> pairing_db" where
  "pairing_store registry le es = foldl (pairing_step registry le) empty_pairing_db es"

lemma pairing_reachable: "db_ok (pairing_store registry le es)"
  unfolding pairing_store_def by (rule pairing.run_keeps [OF empty_db_ok])


lemma call_invalid:
  assumes "safe_channel_key (pe_channel e) = Inl x"
  shows "fst (pairing_call_result registry le e db) = db"
  by (cases "pe_call e")
    (auto simp: pairing_call_result_def outcome_def upsert_channel_pairing_request_def approve_channel_pairing_code_def
      add_channel_allow_from_store_entry_def remove_channel_allow_from_store_entry_def update_allow_from_store_entry_def
      list_channel_pairing_requests_def write_transaction_def invalid_channel [OF assms] Let_def)

lemma db_requests_ok: "db_ok db \<Longrightarrow> requests_ok (pending key db)"
  using pending_rows by (metis db_ok_def)

lemma pending_codes_unique:
  "db_ok db \<Longrightarrow> q \<in> set (pending key db) \<Longrightarrow> r \<in> set (pending key db) \<Longrightarrow> js_upper (pq_code q) = js_upper (pq_code r) \<Longrightarrow> q = r"
  using db_requests_ok [of db key] by (auto simp: requests_ok_def distinct_map dest: inj_onD)


section \<open>Properties\<close>


text \<open>C14: Approving takes exactly the pending request whose code was typed, in any letter case and with white
  space around it: a call succeeds with a request if and only if that request is pending in the channel, is not
  older than an hour, carries the code, and belongs to the account when one is given.\<close>

theorem approval_takes_the_typed_code:
  fixes registry le es
  assumes "safe_channel_key ch = Inr key"
  defines "db \<equiv> pairing_store registry le es"
  shows "snd (approve_channel_pairing_code registry now ch raw account given db) = Inr (Some r) \<longleftrightarrow>
    typed_code raw \<noteq> [] \<and> r \<in> set (pending key db) \<and> \<not> is_expired now r \<and> has_code raw account r"
proof -
  have ok: "db_ok db" unfolding db_def by (rule pairing_reachable)
  have unique: "q = r" if "q \<in> set (pending key db)" "r \<in> set (pending key db)" "has_code raw account q" "has_code raw account r" for q
    using pending_codes_unique [OF ok that(1,2)] that(3,4) by (simp add: has_code_def)
  show ?thesis
    by (rule approve_result [OF ok assms(1), of registry now raw account given]) (use unique in auto)
qed

text \<open>C15: Nobody is approved in any other way: an entry that a call puts on the allowlist of an account is one the
  owner added, or the entry of a pending, unexpired request whose code the call approved.\<close>

theorem grants_need_code_or_owner:
  fixes registry le es
  assumes "iso_time (pe_clock ev)"
  defines "db \<equiv> pairing_store registry le es"
  assumes "e \<in> set (stored_allow key a (pairing_step registry le db ev))" and "e \<notin> set (stored_allow key a db)"
  shows "safe_channel_key (pe_channel ev) = Inr key \<and>
    (case pe_call ev of
       AddEntry i account given \<Rightarrow> a = resolve_allow_from_account_id account \<and> e = normalize_allow_from_input registry (pe_channel ev) i given
     | Approve raw account given \<Rightarrow> \<exists>r \<in> set (pending key db). \<not> is_expired (pe_clock ev) r \<and> has_code raw account r \<and>
         a = grant_account account r \<and> e = granted_entry registry (pe_channel ev) given r
     | _ \<Rightarrow> False)"
proof -
  have ok: "db_ok db" unfolding db_def by (rule pairing_reachable)
  have e: "e \<in> set (stored_allow key a (fst (pairing_call_result registry le ev db)))"
    using assms(1,3) by (simp add: pairing_step_def)
  obtain key' where key': "safe_channel_key (pe_channel ev) = Inr key'"
    using call_ok [OF ok assms(1), of registry le] call_invalid [of ev _ registry le db] e assms(4)
    by (cases "safe_channel_key (pe_channel ev)") auto
  have other: "key' = key" if "same_elsewhere key' db (fst (pairing_call_result registry le ev db))"
    using same_elsewhereD [OF that, of key a] e assms(4) by metis
  show ?thesis
  proof (cases "pe_call ev")
    case (Upsert i account meta random)
    have "False"
      by (rule upsert_result [OF ok key' assms(1), of random i account meta])
        (use e assms(4) other in \<open>auto simp: pairing_call_result_def Upsert outcome_def\<close>)
    then show ?thesis ..
  next
    case (Approve raw account given)
    show ?thesis
      by (rule approve_result [OF ok key', of registry "pe_clock ev" raw account given])
        (use e assms(4) other key' in \<open>auto simp: pairing_call_result_def Approve outcome_def split: if_splits\<close>)
  next
    case (AddEntry i account given)
    show ?thesis
      by (rule add_result [OF ok key', of registry "pe_clock ev" i account given])
        (use e assms(4) other key' in \<open>auto simp: pairing_call_result_def AddEntry outcome_def split: if_splits\<close>)
  next
    case (RemoveEntry i account given)
    have "False"
      by (rule remove_result [OF ok key', of registry "pe_clock ev" i account given])
        (use e assms(4) other in \<open>auto simp: pairing_call_result_def RemoveEntry outcome_def split: if_splits\<close>)
    then show ?thesis ..
  next
    case (ListPending account)
    have "False"
      by (rule list_result [OF ok key', of le "pe_clock ev" account])
        (use e assms(4) other in \<open>auto simp: pairing_call_result_def ListPending outcome_def\<close>)
    then show ?thesis ..
  qed
qed


text \<open>C17: A code that was handed out can be approved: the request just created by an upsert with a non-blank
  sender is found again by its code for an hour, with the account it was issued for, and its entry is then on
  the allowlist of that account.\<close>

theorem issued_code_is_approved:
  assumes "safe_channel_key ch = Inr key" and "iso_time t" and "normalize_pairing_id ident \<noteq> []"
    and "upsert_channel_pairing_request random t ch ident account raw (pairing_store registry le es) =
      (db, Inr \<lparr>ur_code = code, ur_created = True\<rparr>)"
    and "t' - t \<le> pairing_pending_ttl_ms"
  defines "r \<equiv> issued_request t ident (issue_account account) raw code (to_iso_string t)"
  shows "\<exists>db'. approve_channel_pairing_code registry t' ch code (Some account) given db = (db', Inr (Some r)) \<and>
    (granted_entry registry ch given r \<noteq> [] \<longrightarrow> granted_entry registry ch given r \<in> set (stored_allow key (issue_account account) db'))"
proof -
  let ?a = "issue_account account"
  have ok: "db_ok (pairing_store registry le es)" by (rule pairing_reachable)
  have new: "db_ok db \<and> r \<in> set (pending key db) \<and> code \<noteq> [] \<and> js_trim code = code \<and> js_upper code = code"
  proof (rule upsert_result [OF ok assms(1,2), of random ident account raw], goal_cases)
    case (3 c db')
    then have "code = c" "db' = db" using assms(4) by auto
    moreover have "r \<in># mset (pending key db')" using 3(6) assms(3) \<open>code = c\<close> by (simp add: r_def)
    ultimately show ?case using 3 by simp
  qed (use assms(4) in auto)
  have acct: "resolve_pairing_request_account_id r = ?a" unfolding r_def by (rule issued_account) simp
  have "has_code code (Some account) r"
    using normalized_account(2) [of account] acct new
    by (auto simp: has_code_def typed_code_def request_matches_account_id_def issue_account_def r_def issued_request_def)
  moreover have "\<not> is_expired t' r"
    using assms(5) by (simp add: is_expired_def r_def issued_request_def parse_timestamp_def to_iso_stored date_parse_to_iso [OF assms(2)])
  moreover have "typed_code code \<noteq> []" using new by (simp add: typed_code_def)
  moreover have "grant_account (Some account) r = ?a"
  proof (cases "js_trim account = []")
    case True
    have "meta_account_id r = Some ?a" by (simp add: r_def issued_request_def meta_account_id_def request_meta_ok)
    then show ?thesis using True account_okD [of ?a] by (simp add: grant_account_def normalize_optional_string_def)
  next
    case False
    then show ?thesis
      by (simp add: grant_account_def normalize_optional_string_def issue_account_def resolve_allow_from_account_id_def normalize_lowercase_eq)
  qed
  ultimately have facts: "has_code code (Some account) r" "\<not> is_expired t' r" "typed_code code \<noteq> []" "grant_account (Some account) r = ?a"
    by blast+
  have okr: "db_ok db" and pend: "r \<in> set (pending key db)" using new by blast+
  show ?thesis
  proof (rule approve_result [OF okr assms(1), of registry t' code "Some account" given], goal_cases)
    case (1 db')
    then show ?case using facts(1-3) pend by blast
  next
    case (2 q db')
    have "q = r"
      using 2(5) facts(1) by (intro pending_codes_unique [OF okr 2(3) pend]) (simp add: has_code_def)
    then show ?case using 2(1) 2(8) [of ?a] facts(4) by auto
  qed
qed

section \<open>Samples\<close>

text \<open>A sender asks for pairing on Telegram; the typed code is approved later.\<close>

definition sample_events :: "pairing_event list" where
  "sample_events =
     [\<lparr>pe_clock = 1700000000000, pe_channel = ''Telegram'', pe_call = Upsert (Number 42) ''Main'' None (\<lambda>n. n)\<rparr>]"

definition sample_store :: pairing_db where
  "sample_store = pairing_store (\<lambda>_. None) (\<le>) sample_events"

definition sample_request :: pairing_request where
  "sample_request =
     \<lparr>pq_id = ''42'', pq_code = ''ABCDEFGH'', pq_created_at = ''2023-11-14T22:13:20.000Z'',
      pq_last_seen_at = ''2023-11-14T22:13:20.000Z'', pq_meta = Some [(''accountId'', ''main'')]\<rparr>"

lemma sample_store_value: "sample_store = \<lparr>db_requests = [row_of_request ''telegram'' sample_request], db_allow = []\<rparr>"
  by code_simp

lemma sample_key: "safe_channel_key ''telegram'' = Inr ''telegram''"
  by code_simp

lemma sample_pending:
  "pending ''telegram'' sample_store = [sample_request]" "\<not> is_expired 1700000100000 sample_request"
  "has_code '' abcdefgh '' None sample_request" "typed_code '' abcdefgh '' \<noteq> []"
  unfolding sample_store_value by code_simp+

theorem approval_takes_the_typed_code_witness:
  "snd (approve_channel_pairing_code (\<lambda>_. None) 1700000100000 ''telegram'' '' abcdefgh '' None None sample_store) =
     Inr (Some sample_request)"
proof -
  have "typed_code '' abcdefgh '' \<noteq> [] \<and> sample_request \<in> set (pending ''telegram'' sample_store) \<and>
      \<not> is_expired 1700000100000 sample_request \<and> has_code '' abcdefgh '' None sample_request"
    by (simp add: sample_pending)
  then show ?thesis
    unfolding sample_store_def by (subst approval_takes_the_typed_code [OF sample_key])
qed

definition sample_approval :: pairing_event where
  "sample_approval = \<lparr>pe_clock = 1700000100000, pe_channel = ''telegram'', pe_call = Approve '' abcdefgh '' None None\<rparr>"

lemma sample_approved:
  "stored_allow ''telegram'' ''main'' (pairing_step (\<lambda>_. None) (\<le>) sample_store sample_approval) = [''42'']"
  unfolding sample_store_value by code_simp

theorem grants_need_code_or_owner_witness:
  "\<exists>r \<in> set (pending ''telegram'' sample_store). \<not> is_expired 1700000100000 r \<and> has_code '' abcdefgh '' None r \<and>
      ''main'' = grant_account None r \<and> ''42'' = granted_entry (\<lambda>_. None) ''telegram'' None r"
proof -
  have "iso_time (pe_clock sample_approval)" by code_simp
  moreover have "''42'' \<in> set (stored_allow ''telegram'' ''main'' (pairing_step (\<lambda>_. None) (\<le>) (pairing_store (\<lambda>_. None) (\<le>) sample_events) sample_approval))"
    by (simp add: sample_approved [unfolded sample_store_def])
  moreover have "''42'' \<notin> set (stored_allow ''telegram'' ''main'' (pairing_store (\<lambda>_. None) (\<le>) sample_events))"
    by (simp add: sample_store_value [unfolded sample_store_def] stored_allow_def allow_of_key_def)
  ultimately have "case pe_call sample_approval of
      AddEntry i account given \<Rightarrow> ''main'' = resolve_allow_from_account_id account \<and>
        ''42'' = normalize_allow_from_input (\<lambda>_. None) (pe_channel sample_approval) i given
    | Approve raw account given \<Rightarrow> \<exists>r \<in> set (pending ''telegram'' (pairing_store (\<lambda>_. None) (\<le>) sample_events)).
        \<not> is_expired (pe_clock sample_approval) r \<and> has_code raw account r \<and>
        ''main'' = grant_account account r \<and> ''42'' = granted_entry (\<lambda>_. None) (pe_channel sample_approval) given r
    | _ \<Rightarrow> False"
    by (rule conjunct2 [OF grants_need_code_or_owner])
  then show ?thesis by (simp add: sample_store_def sample_approval_def)
qed

lemma sample_issued:
  "upsert_channel_pairing_request (\<lambda>n. n) 1700000000000 ''telegram'' (Number 42) ''Main'' None (pairing_store (\<lambda>_. None) (\<le>) []) =
     (sample_store, Inr \<lparr>ur_code = ''ABCDEFGH'', ur_created = True\<rparr>)"
  unfolding sample_store_value by code_simp

theorem issued_code_is_approved_witness:
  "\<exists>db'. approve_channel_pairing_code (\<lambda>_. None) 1700003600000 ''telegram'' ''ABCDEFGH'' (Some ''Main'') None sample_store =
     (db', Inr (Some sample_request)) \<and> ''42'' \<in> set (stored_allow ''telegram'' ''main'' db')"
proof -
  have t: "iso_time 1700000000000" and ident: "normalize_pairing_id (Number 42) \<noteq> []"
    and now: "1700003600000 - 1700000000000 \<le> pairing_pending_ttl_ms" and acct: "issue_account ''Main'' = ''main''"
    and req: "issued_request 1700000000000 (Number 42) ''main'' None ''ABCDEFGH'' (to_iso_string 1700000000000) = sample_request"
    and entry: "granted_entry (\<lambda>_. None) ''telegram'' None sample_request = ''42''"
    by code_simp+
  show ?thesis
    using issued_code_is_approved [OF sample_key t ident sample_issued now, where given = None]
    unfolding acct req entry by auto
qed

end
