(* ===== verification/Message_Gating.thy ===== *)
theory Message_Gating
  imports String_Lists
begin

text \<open>
  The small policies that the ingress decision is made of: \<open>channels/command-gating.ts\<close> (who may use
  text control commands), \<open>channels/mention-gating.ts\<close> (which group messages address the agent) and
  \<open>channels/allow-from.ts\<close> (how allowlists are merged). The deprecated flat call shape of
  \<open>resolveInboundMentionDecision\<close> is the nested one after its normalization.
\<close>

section \<open>Command gating\<close>

record authorizer =
  az_configured :: bool
  az_allowed :: bool

datatype off_mode = AllowWhenOff | DenyWhenOff | ConfiguredWhenOff

definition resolve_command_authorized :: "bool \<Rightarrow> authorizer list \<Rightarrow> off_mode option \<Rightarrow> bool" where
  "resolve_command_authorized use_access_groups authorizers mode =
     (let m = (case mode of Some m \<Rightarrow> m | None \<Rightarrow> AllowWhenOff);
          granted = list_ex (\<lambda>a. az_configured a \<and> az_allowed a) authorizers
      in if \<not> use_access_groups then
           (if m = AllowWhenOff then True
            else if m = DenyWhenOff then False
            else if \<not> list_ex az_configured authorizers then True
            else granted)
         else granted)"

text \<open>Result: authorized, and whether to block.\<close>

definition resolve_control_command_gate :: "bool \<Rightarrow> authorizer list \<Rightarrow> bool \<Rightarrow> bool \<Rightarrow> off_mode option \<Rightarrow> bool \<times> bool" where
  "resolve_control_command_gate use_access_groups authorizers allow_text has_command mode =
     (let authorized = resolve_command_authorized use_access_groups authorizers mode
      in (authorized, allow_text \<and> has_command \<and> \<not> authorized))"

definition resolve_dual_text_control_command_gate :: "bool \<Rightarrow> authorizer \<Rightarrow> authorizer \<Rightarrow> bool \<Rightarrow> off_mode option \<Rightarrow> bool \<times> bool" where
  "resolve_dual_text_control_command_gate use_access_groups primary secondary has_command mode =
     resolve_control_command_gate use_access_groups [primary, secondary] True has_command mode"

section \<open>Mention gating\<close>

datatype mention_kind = ReplyToBot | QuotedBot | BotThreadParticipant | NativeMention

record mention_facts =
  mf_can_detect :: bool
  mf_was_mentioned :: bool
  mf_has_any :: "bool option"
  mf_kinds :: "mention_kind list option"

record implicit_mentions =
  im_reply_to_bot :: "bool option"
  im_quoted_bot :: "bool option"
  im_thread_participation :: "bool option"

record mention_policy =
  mp_is_group :: bool
  mp_require_mention :: bool
  mp_implicit :: "implicit_mentions option"
  mp_allowed_kinds :: "mention_kind list option"
  mp_allow_text_commands :: bool
  mp_has_control_command :: bool
  mp_command_authorized :: bool

record mention_decision =
  md_effective :: bool
  md_skip :: bool
  md_implicit :: bool
  md_matched_kinds :: "mention_kind list"
  md_bypass :: bool

definition implicit_mention_kind_when :: "mention_kind \<Rightarrow> bool \<Rightarrow> mention_kind list" where
  "implicit_mention_kind_when kind enabled = (if enabled then [kind] else [])"

definition allowed_kinds_from_config :: "implicit_mentions \<Rightarrow> mention_kind list" where
  "allowed_kinds_from_config c =
     implicit_mention_kind_when ReplyToBot (im_reply_to_bot c \<noteq> Some False) @
     implicit_mention_kind_when QuotedBot (im_quoted_bot c \<noteq> Some False) @
     implicit_mention_kind_when BotThreadParticipant (im_thread_participation c \<noteq> Some False) @ [NativeMention]"

fun collect_kinds :: "mention_kind list option \<Rightarrow> mention_kind list \<Rightarrow> mention_kind list \<Rightarrow> mention_kind list" where
  "collect_kinds allowed [] matched = matched"
| "collect_kinds allowed (k # ks) matched =
     (if (case allowed of Some a \<Rightarrow> k \<notin> set a | None \<Rightarrow> False) then collect_kinds allowed ks matched
      else collect_kinds allowed ks (if k \<in> set matched then matched else matched @ [k]))"

definition matched_implicit_kinds :: "mention_kind list option \<Rightarrow> mention_kind list option \<Rightarrow> mention_kind list" where
  "matched_implicit_kinds kinds allowed = (case kinds of None \<Rightarrow> [] | Some ks \<Rightarrow> collect_kinds allowed ks [])"

definition mention_decision_core ::
    "bool \<Rightarrow> bool \<Rightarrow> bool \<Rightarrow> mention_kind list option \<Rightarrow> mention_kind list option \<Rightarrow> bool \<Rightarrow> mention_decision" where
  "mention_decision_core require_mention can_detect was_mentioned kinds allowed bypass =
     (let matched = matched_implicit_kinds kinds allowed;
          implicit = (matched \<noteq> []);
          effective = (was_mentioned \<or> implicit \<or> bypass)
      in \<lparr>md_effective = effective, md_skip = (require_mention \<and> can_detect \<and> \<not> effective),
          md_implicit = implicit, md_matched_kinds = matched, md_bypass = bypass\<rparr>)"

definition resolve_inbound_mention_decision :: "mention_facts \<Rightarrow> mention_policy \<Rightarrow> mention_decision" where
  "resolve_inbound_mention_decision f p =
     (let allowed = (case mp_allowed_kinds p of Some ks \<Rightarrow> Some ks
                     | None \<Rightarrow> map_option allowed_kinds_from_config (mp_implicit p));
          bypass = (mp_is_group p \<and> mp_require_mention p \<and> \<not> mf_was_mentioned f \<and> mf_has_any f \<noteq> Some True \<and>
                    mp_allow_text_commands p \<and> mp_command_authorized p \<and> mp_has_control_command p)
      in mention_decision_core (mp_require_mention p) (mf_can_detect f) (mf_was_mentioned f) (mf_kinds f) allowed bypass)"

section \<open>Allowlist sources\<close>

definition access_group_prefix :: string where
  "access_group_prefix = ''accessGroup:''"

definition parse_access_group_entry :: "string \<Rightarrow> string option" where
  "parse_access_group_entry entry =
     (let trimmed = js_trim entry
      in if \<not> prefix access_group_prefix trimmed then None
         else (let name = js_trim (drop (length access_group_prefix) trimmed)
               in if name \<noteq> [] then Some name else None))"

datatype dm_policy = DmPairing | DmAllowlist | DmOpen | DmDisabled

definition merge_dm_allow_from_sources :: "item list option \<Rightarrow> item list option \<Rightarrow> dm_policy option \<Rightarrow> string list" where
  "merge_dm_allow_from_sources allow_from store_allow_from policy =
     (let store = (if policy = Some DmAllowlist \<or> policy = Some DmOpen then []
                   else case store_allow_from of Some xs \<Rightarrow> xs | None \<Rightarrow> [])
      in normalize_string_entries ((case allow_from of Some xs \<Rightarrow> xs | None \<Rightarrow> []) @ store))"

definition resolve_group_allow_from_sources :: "item list option \<Rightarrow> item list option \<Rightarrow> bool option \<Rightarrow> string list" where
  "resolve_group_allow_from_sources allow_from group_allow_from fallback =
     (let explicit = (case group_allow_from of Some xs \<Rightarrow> if xs \<noteq> [] then Some xs else None | None \<Rightarrow> None);
          scoped = (case explicit of Some xs \<Rightarrow> xs
                    | None \<Rightarrow> if fallback = Some False then []
                              else case allow_from of Some xs \<Rightarrow> xs | None \<Rightarrow> [])
      in normalize_string_entries scoped)"

fun first_defined :: "'a option list \<Rightarrow> 'a option" where
  "first_defined [] = None"
| "first_defined (Some v # vs) = Some v"
| "first_defined (None # vs) = first_defined vs"

record sender_allowlist =
  sl_entries :: "string list"
  sl_has_wildcard :: bool
  sl_has_entries :: bool

definition is_sender_id_allowed :: "sender_allowlist \<Rightarrow> string option \<Rightarrow> bool \<Rightarrow> bool" where
  "is_sender_id_allowed allow sender allow_when_empty =
     (if \<not> sl_has_entries allow then allow_when_empty
      else if sl_has_wildcard allow then True
      else (case sender of None \<Rightarrow> False | Some s \<Rightarrow> s \<noteq> [] \<and> s \<in> set (sl_entries allow)))"

section \<open>Facts\<close>

lemma set_collect_kinds:
  "set (collect_kinds allowed ks m) = set m \<union> {k \<in> set ks. case allowed of Some a \<Rightarrow> k \<in> set a | None \<Rightarrow> True}"
  by (induction allowed ks m rule: collect_kinds.induct) (auto split: option.splits)

lemma matched_implicit_kinds_nonempty:
  "matched_implicit_kinds kinds allowed \<noteq> [] \<longleftrightarrow>
   (\<exists>ks. kinds = Some ks \<and> (\<exists>k \<in> set ks. case allowed of Some a \<Rightarrow> k \<in> set a | None \<Rightarrow> True))"
proof (cases kinds)
  case (Some ks)
  have "collect_kinds allowed ks [] \<noteq> [] \<longleftrightarrow> (\<exists>k. k \<in> set (collect_kinds allowed ks []))" by (metis all_not_in_conv set_empty)
  then show ?thesis using Some by (auto simp: matched_implicit_kinds_def set_collect_kinds)
qed (simp add: matched_implicit_kinds_def)

text \<open>Only a configured and allowed source grants a command once access groups are on.\<close>

lemma command_authorized_on:
  "resolve_command_authorized True authorizers mode \<longleftrightarrow> (\<exists>a \<in> set authorizers. az_configured a \<and> az_allowed a)"
  by (simp add: resolve_command_authorized_def Let_def list_ex_iff)

lemma sources_normalized:
  "s \<in> set (merge_dm_allow_from_sources a b p) \<Longrightarrow> s \<noteq> [] \<and> js_trim s = s"
  "s \<in> set (resolve_group_allow_from_sources a g f) \<Longrightarrow> s \<noteq> [] \<and> js_trim s = s"
  by (simp_all add: merge_dm_allow_from_sources_def resolve_group_allow_from_sources_def Let_def normalized_entry_trimmed)

end
