(* ===== verification/Ingress_Allowlist.thy ===== *)
theory Ingress_Allowlist
  imports Message_Gating
begin

text \<open>
  The data of the channel ingress access graph (\<open>channels/message-access/types.ts\<close>) and its allowlist
  operations (\<open>allowlist.ts\<close>). An optional flag that the code only tests for truth is a \<open>bool\<close>, an
  optional value that it distinguishes from an absent one is an option.
\<close>

section \<open>Identifiers and entries\<close>

datatype identifier_kind = StableId | Username | Email | Phone | RoleKind | PluginKind string

datatype sensitivity = NormalSensitivity | Pii

record match_material =
  id_opaque :: string
  id_kind :: identifier_kind
  id_value :: string
  id_dangerous :: bool
  id_sensitivity :: "sensitivity option"

type_synonym ingress_subject = "match_material list"

record redacted_entry =
  en_id :: string
  en_kind :: identifier_kind
  en_dangerous :: bool
  en_sensitivity :: "sensitivity option"

record normalized_entry = redacted_entry +
  en_value :: string

datatype reason =
    Allowed | RouteBlocked | RouteSenderEmpty
  | DmPolicyDisabled | DmPolicyOpen | DmPolicyAllowlisted | DmPolicyPairingRequired | DmPolicyNotAllowlisted
  | GroupPolicyDisabled | GroupPolicyOpen | GroupPolicyAllowed | GroupPolicyEmptyAllowlist | GroupPolicyNotAllowlisted
  | CommandAuthorized | ControlCommandUnauthorized
  | EventAuthorized | EventUnauthorized | EventPairingNotAllowed | SenderNotRequired
  | OriginSubjectMissing | OriginSubjectNotMatched | ActivationAllowed | ActivationSkipped
  | AccessGroupMissing | AccessGroupUnsupported | AccessGroupFailed | MutableIdentifierDisabled | NoPolicyMatch

record entry_diagnostic =
  ed_id :: "string option"
  ed_reason :: reason

record ingress_match =
  im_matched :: bool
  im_ids :: "string list"

record access_group_facts =
  ag_referenced :: "string list"
  ag_matched :: "string list"
  ag_missing :: "string list"
  ag_unsupported :: "string list"
  ag_failed :: "string list"

record ingress_allowlist =
  ia_raw_count :: nat
  ia_normalized :: "redacted_entry list"
  ia_invalid :: "entry_diagnostic list"
  ia_disabled :: "entry_diagnostic list"
  ia_matched_ids :: "string list"
  ia_configured :: bool
  ia_matchable :: bool
  ia_wildcard :: bool
  ia_groups :: access_group_facts
  ia_match :: ingress_match

record allowlist_facts =
  af_configured :: bool
  af_matched :: bool
  af_reason :: reason
  af_matched_ids :: "string list"
  af_invalid_count :: nat
  af_disabled_count :: nat
  af_groups :: access_group_facts

section \<open>Routes, events and policies\<close>

datatype route_state = NotConfigured | RouteMatched | RouteNotMatched | RouteDisabled | LookupFailed

datatype route_kind = RouteKind | RouteSenderKind | MembershipKind | OwnerAllowlistKind | NestedAllowlistKind

datatype route_effect = RouteAllow | RouteBlock | RouteIgnore

datatype route_sender_policy = InheritSenders | ReplaceSenders | DenyWhenEmpty

record ingress_route =
  rr_id :: string
  rr_kind :: route_kind
  rr_gate :: route_state
  rr_effect :: route_effect
  rr_precedence :: int
  rr_sender_policy :: route_sender_policy
  rr_match :: "ingress_match option"
  rr_senders :: "ingress_allowlist option"

datatype event_kind = MessageEvent | Reaction | Button | Postback | NativeCommand | SlashCommand | SystemEvent

datatype auth_mode = InboundAuth | CommandAuth | OriginSubjectAuth | RouteOnlyAuth | NoAuth

record ingress_event =
  ie_kind :: event_kind
  ie_auth_mode :: auth_mode
  ie_may_pair :: bool
  ie_has_origin :: bool
  ie_origin_matched :: bool

datatype group_policy = GroupAllowlist | GroupOpen | GroupDisabled

datatype mutable_matching = MutableDisabled | MutableEnabled

datatype activation_order = BeforeSender | AfterCommand

record activation_policy =
  ap_require_mention :: bool
  ap_allow_text_commands :: bool
  ap_implicit :: "implicit_mentions option"
  ap_allowed_kinds :: "mention_kind list option"
  ap_order :: "activation_order option"

record command_policy =
  cp_use_access_groups :: "bool option"
  cp_allow_text_commands :: bool
  cp_has_control_command :: bool
  cp_off_mode :: "off_mode option"

record ingress_policy =
  ip_dm :: dm_policy
  ip_group :: group_policy
  ip_group_fallback :: "bool option"
  ip_mutable :: "mutable_matching option"
  ip_activation :: "activation_policy option"
  ip_command :: "command_policy option"

datatype conversation_kind = DirectConversation | GroupConversation | ChannelConversation

record ingress_state =
  is_channel_id :: string
  is_account_id :: string
  is_conversation :: conversation_kind
  is_event :: ingress_event
  is_mentions :: "mention_facts option"
  is_routes :: "ingress_route list"
  is_dm :: ingress_allowlist
  is_pairing_store :: ingress_allowlist
  is_group :: ingress_allowlist
  is_command_owner :: ingress_allowlist
  is_command_group :: ingress_allowlist

section \<open>Allowlists\<close>

definition allowlist_failure_reason :: "ingress_allowlist \<Rightarrow> reason option" where
  "allowlist_failure_reason a =
     (if ag_failed (ia_groups a) \<noteq> [] then Some AccessGroupFailed
      else if ag_unsupported (ia_groups a) \<noteq> [] then Some AccessGroupUnsupported
      else if ag_missing (ia_groups a) \<noteq> [] then Some AccessGroupMissing
      else None)"

definition redacted_allowlist_diagnostics :: "ingress_allowlist \<Rightarrow> reason \<Rightarrow> allowlist_facts" where
  "redacted_allowlist_diagnostics a r =
     \<lparr>af_configured = ia_configured a, af_matched = im_matched (ia_match a), af_reason = r,
      af_matched_ids = ia_matched_ids a, af_invalid_count = length (ia_invalid a),
      af_disabled_count = length (ia_disabled a), af_groups = ia_groups a\<rparr>"

definition merge_resolved_allowlists :: "ingress_allowlist list \<Rightarrow> ingress_allowlist" where
  "merge_resolved_allowlists as =
     (let matched_ids = unique_strings (concat (map ia_matched_ids as));
          groups = (\<lambda>f. unique_strings (concat (map (\<lambda>a. f (ia_groups a)) as)))
      in \<lparr>ia_raw_count = sum_list (map ia_raw_count as),
          ia_normalized = concat (map ia_normalized as),
          ia_invalid = concat (map ia_invalid as),
          ia_disabled = concat (map ia_disabled as),
          ia_matched_ids = matched_ids,
          ia_configured = list_ex ia_configured as,
          ia_matchable = list_ex ia_matchable as,
          ia_wildcard = list_ex ia_wildcard as,
          ia_groups = \<lparr>ag_referenced = groups ag_referenced, ag_matched = groups ag_matched,
            ag_missing = groups ag_missing, ag_unsupported = groups ag_unsupported, ag_failed = groups ag_failed\<rparr>,
          ia_match = \<lparr>im_matched = (list_ex (\<lambda>a. im_matched (ia_match a)) as \<or> matched_ids \<noteq> []), im_ids = matched_ids\<rparr>\<rparr>)"

definition dangerous_ids :: "ingress_allowlist \<Rightarrow> string list" where
  "dangerous_ids a = unique_strings (map en_id (filter en_dangerous (ia_normalized a)))"

definition apply_mutable_identifier_policy :: "ingress_policy \<Rightarrow> ingress_allowlist \<Rightarrow> ingress_allowlist" where
  "apply_mutable_identifier_policy p a =
     (if ip_mutable p = Some MutableEnabled then a
      else if dangerous_ids a = [] then a
      else
        (let matched_ids = filter (\<lambda>i. i \<notin> set (dangerous_ids a)) (ia_matched_ids a);
             disabled = ia_disabled a @
               map (\<lambda>e. \<lparr>ed_id = Some (en_id e), ed_reason = MutableIdentifierDisabled\<rparr>) (filter en_dangerous (ia_normalized a))
         in a\<lparr>ia_disabled := disabled, ia_matched_ids := matched_ids,
              ia_matchable := list_ex (\<lambda>e. \<not> en_dangerous e) (ia_normalized a),
              ia_match := \<lparr>im_matched = (matched_ids \<noteq> []), im_ids = matched_ids\<rparr>\<rparr>))"

definition effective_group_sender_allowlist :: "ingress_state \<Rightarrow> ingress_policy \<Rightarrow> ingress_allowlist" where
  "effective_group_sender_allowlist s p =
     (let start = (if ip_group_fallback p = Some True \<and> \<not> ia_configured (is_group s) then is_dm s else is_group s);
          effective = foldl (\<lambda>eff r.
             case rr_senders r of
               None \<Rightarrow> eff
             | Some senders \<Rightarrow>
                 if rr_gate r \<noteq> RouteMatched then eff
                 else if rr_sender_policy r = InheritSenders then merge_resolved_allowlists [eff, senders]
                 else senders) start (is_routes s)
      in apply_mutable_identifier_policy p effective)"

section \<open>Facts\<close>

lemma mutable_policy_keeps [simp]:
  "ia_configured (apply_mutable_identifier_policy p a) = ia_configured a"
  "ia_wildcard (apply_mutable_identifier_policy p a) = ia_wildcard a"
  "ia_groups (apply_mutable_identifier_policy p a) = ia_groups a"
  "ia_normalized (apply_mutable_identifier_policy p a) = ia_normalized a"
  by (simp_all add: apply_mutable_identifier_policy_def Let_def)

lemma mutable_policy_enabled: "ip_mutable p = Some MutableEnabled \<Longrightarrow> apply_mutable_identifier_policy p a = a"
  by (simp add: apply_mutable_identifier_policy_def)

text \<open>Unless mutable matching is on, a match that survives the policy comes from an entry that is not dangerous.\<close>

lemma mutable_policy_match:
  assumes "ip_mutable p \<noteq> Some MutableEnabled" and "im_matched (ia_match (apply_mutable_identifier_policy p a))"
  shows "(\<forall>e \<in> set (ia_normalized a). \<not> en_dangerous e) \<or>
    (\<exists>i \<in> set (ia_matched_ids a). \<forall>e \<in> set (ia_normalized a). en_id e = i \<longrightarrow> \<not> en_dangerous e)"
proof (cases "dangerous_ids a = []")
  case True
  then show ?thesis by (auto simp: dangerous_ids_def filter_empty_conv)
next
  case False
  then have "filter (\<lambda>i. i \<notin> set (dangerous_ids a)) (ia_matched_ids a) \<noteq> []"
    using assms by (simp add: apply_mutable_identifier_policy_def Let_def)
  then obtain i where "i \<in> set (ia_matched_ids a)" and "i \<notin> set (dangerous_ids a)" by (auto simp: filter_empty_conv)
  then have "\<forall>e \<in> set (ia_normalized a). en_id e = i \<longrightarrow> \<not> en_dangerous e" by (auto simp: dangerous_ids_def)
  with \<open>i \<in> set (ia_matched_ids a)\<close> show ?thesis by blast
qed

lemma mutable_policy_ids:
  "set (ia_matched_ids (apply_mutable_identifier_policy p a)) \<subseteq> set (ia_matched_ids a)"
  by (auto simp: apply_mutable_identifier_policy_def Let_def)

end
