(* ===== verification/Ingress_Decision.thy ===== *)
theory Ingress_Decision
  imports Ingress_Allowlist
begin

text \<open>
  The ingress decision: the sender gates of \<open>channels/message-access/sender-gates.ts\<close> and the ordered
  route, sender, command, event and activation gates of \<open>decision.ts\<close>. A decision is its admission, its
  verdict, the decisive gate and the graph of the gates evaluated before it.
\<close>

section \<open>Gates\<close>

datatype gate_phase = RoutePhase | SenderPhase | CommandPhase | EventPhase | ActivationPhase

datatype gate_kind = RouteGate route_kind | DmSenderGate | GroupSenderGate | CommandGateKind | EventGateKind | MentionGateKind

datatype gate_effect = AllowEffect | BlockDispatch | BlockCommand | SkipEffect | ObserveEffect | IgnoreEffect

datatype sender_policy = DmSender dm_policy | GroupSender group_policy

record command_facts =
  cf_use_access_groups :: bool
  cf_allow_text_commands :: bool
  cf_off_mode :: "off_mode option"
  cf_should_block :: bool

record activation_facts =
  at_has_mention_facts :: bool
  at_require_mention :: bool
  at_allow_text_commands :: bool
  at_allowed_kinds :: "mention_kind list option"
  at_order :: "activation_order option"
  at_should_skip :: bool
  at_can_detect :: "bool option"
  at_was_mentioned :: "bool option"
  at_has_any :: "bool option"
  at_kinds :: "mention_kind list option"
  at_effective :: "bool option"
  at_bypass :: "bool option"

record gate =
  ga_id :: string
  ga_phase :: gate_phase
  ga_kind :: gate_kind
  ga_effect :: gate_effect
  ga_allowed :: bool
  ga_reason :: reason
  ga_match :: "ingress_match option"
  ga_allowlist :: "allowlist_facts option"
  ga_sender :: "sender_policy option"
  ga_command :: "command_facts option"
  ga_event :: "ingress_event option"
  ga_activation :: "activation_facts option"

definition bare_gate :: "string \<Rightarrow> gate_phase \<Rightarrow> gate_kind \<Rightarrow> gate_effect \<Rightarrow> bool \<Rightarrow> reason \<Rightarrow> gate" where
  "bare_gate i ph k eff ok r =
     \<lparr>ga_id = i, ga_phase = ph, ga_kind = k, ga_effect = eff, ga_allowed = ok, ga_reason = r, ga_match = None,
      ga_allowlist = None, ga_sender = None, ga_command = None, ga_event = None, ga_activation = None\<rparr>"

datatype admission_kind = Dispatch | Observe | Skip | Drop | PairingRequired

datatype verdict = AllowVerdict | BlockVerdict | PairingVerdict

record ingress_decision =
  de_admission :: admission_kind
  de_verdict :: verdict
  de_gate_id :: string
  de_reason :: reason
  de_gates :: "gate list"

definition decisive_decision :: "admission_kind \<Rightarrow> verdict \<Rightarrow> gate \<Rightarrow> gate list \<Rightarrow> ingress_decision" where
  "decisive_decision a v g gs =
     \<lparr>de_admission = a, de_verdict = v, de_gate_id = ga_id g, de_reason = ga_reason g, de_gates = gs\<rparr>"

section \<open>Sender gates\<close>

definition sender_gate ::
    "string \<Rightarrow> gate_kind \<Rightarrow> sender_policy \<Rightarrow> ingress_allowlist \<Rightarrow> gate_effect \<Rightarrow> bool \<Rightarrow> reason \<Rightarrow> gate" where
  "sender_gate i k pol source eff ok r =
     (bare_gate i SenderPhase k eff ok r)
       \<lparr>ga_match := Some (ia_match source), ga_sender := Some pol,
        ga_allowlist := Some (redacted_allowlist_diagnostics source r)\<rparr>"

definition sender_gate_for_direct :: "ingress_state \<Rightarrow> ingress_policy \<Rightarrow> gate" where
  "sender_gate_for_direct s p =
     (let dm = apply_mutable_identifier_policy p (is_dm s);
          store = apply_mutable_identifier_policy p (is_pairing_store s);
          allow = sender_gate ''sender:dm'' DmSenderGate (DmSender (ip_dm p)) dm AllowEffect True;
          block = sender_gate ''sender:dm'' DmSenderGate (DmSender (ip_dm p)) dm BlockDispatch False
      in if ip_dm p = DmDisabled then block DmPolicyDisabled
         else if ip_dm p = DmOpen then
           (if ia_wildcard dm then allow DmPolicyOpen
            else if im_matched (ia_match dm) then allow DmPolicyAllowlisted
            else block DmPolicyNotAllowlisted)
         else if im_matched (ia_match dm) then allow DmPolicyAllowlisted
         else if ip_dm p = DmPairing \<and> im_matched (ia_match store) then
           sender_gate ''sender:dm'' DmSenderGate (DmSender (ip_dm p)) store AllowEffect True DmPolicyAllowlisted
         else if ip_dm p = DmPairing \<and> ie_may_pair (is_event s) then block DmPolicyPairingRequired
         else block (if ip_dm p = DmPairing then EventPairingNotAllowed
                     else case allowlist_failure_reason dm of Some r \<Rightarrow> r | None \<Rightarrow> DmPolicyNotAllowlisted))"

definition sender_gate_for_group :: "ingress_state \<Rightarrow> ingress_policy \<Rightarrow> gate" where
  "sender_gate_for_group s p =
     (let grp = effective_group_sender_allowlist s p;
          allow = sender_gate ''sender:group'' GroupSenderGate (GroupSender (ip_group p)) grp AllowEffect True;
          block = sender_gate ''sender:group'' GroupSenderGate (GroupSender (ip_group p)) grp BlockDispatch False
      in if ip_group p = GroupDisabled then block GroupPolicyDisabled
         else if ip_group p = GroupOpen then allow GroupPolicyOpen
         else if \<not> ia_configured grp then block GroupPolicyEmptyAllowlist
         else if im_matched (ia_match grp) then allow GroupPolicyAllowed
         else block (case allowlist_failure_reason grp of Some r \<Rightarrow> r | None \<Rightarrow> GroupPolicyNotAllowlisted))"

definition apply_event_auth_mode :: "ingress_state \<Rightarrow> gate \<Rightarrow> gate" where
  "apply_event_auth_mode s g =
     (if ie_auth_mode (is_event s) = InboundAuth \<or> ga_allowed g then g
      else g\<lparr>ga_effect := IgnoreEffect, ga_allowed := True, ga_reason := SenderNotRequired,
             ga_allowlist := map_option (\<lambda>a. a\<lparr>af_reason := SenderNotRequired\<rparr>) (ga_allowlist g)\<rparr>)"

section \<open>The decision\<close>

fun route_gate_effect :: "route_effect \<Rightarrow> gate_effect" where
  "route_gate_effect RouteAllow = AllowEffect"
| "route_gate_effect RouteBlock = BlockDispatch"
| "route_gate_effect RouteIgnore = IgnoreEffect"

definition route_gates :: "ingress_state \<Rightarrow> gate list" where
  "route_gates s =
     map (\<lambda>r. (bare_gate (rr_id r) RoutePhase (RouteGate (rr_kind r)) (route_gate_effect (rr_effect r))
                 (rr_effect r \<noteq> RouteBlock) (if rr_effect r = RouteBlock then RouteBlocked else Allowed))
               \<lparr>ga_match := rr_match r\<rparr>) (is_routes s)"

definition route_sender_empty :: "ingress_route \<Rightarrow> bool" where
  "route_sender_empty r \<longleftrightarrow>
     rr_sender_policy r = DenyWhenEmpty \<and> rr_gate r = RouteMatched \<and>
     \<not> (case rr_senders r of Some a \<Rightarrow> ia_configured a | None \<Rightarrow> False)"

definition route_sender_empty_gate :: "ingress_state \<Rightarrow> gate option" where
  "route_sender_empty_gate s =
     map_option (\<lambda>r.
       (bare_gate (rr_id r @ '':sender'') RoutePhase (RouteGate RouteSenderKind) BlockDispatch False RouteSenderEmpty)
         \<lparr>ga_match := rr_match r,
          ga_allowlist := map_option (\<lambda>a. redacted_allowlist_diagnostics a RouteSenderEmpty) (rr_senders r)\<rparr>)
       (find route_sender_empty (is_routes s))"

definition merge_command_match :: "ingress_match \<Rightarrow> ingress_match \<Rightarrow> ingress_match" where
  "merge_command_match owner grp =
     (let ids = unique_strings (im_ids owner @ im_ids grp)
      in \<lparr>im_matched = (im_matched owner \<or> im_matched grp \<or> ids \<noteq> []), im_ids = ids\<rparr>)"

definition command_gate :: "ingress_state \<Rightarrow> ingress_policy \<Rightarrow> gate" where
  "command_gate s p =
     (case ip_command p of
        None \<Rightarrow> bare_gate ''command'' CommandPhase CommandGateKind AllowEffect True CommandAuthorized
      | Some c \<Rightarrow>
          (let use = (case cp_use_access_groups c of Some u \<Rightarrow> u | None \<Rightarrow> True);
               owner = apply_mutable_identifier_policy p (is_command_owner s);
               grp = apply_mutable_identifier_policy p (is_command_group s);
               authorized = resolve_command_authorized use
                 [\<lparr>az_configured = ia_configured owner, az_allowed = im_matched (ia_match owner)\<rparr>,
                  \<lparr>az_configured = ia_configured grp, az_allowed = im_matched (ia_match grp)\<rparr>] (cp_off_mode c);
               should_block = (cp_allow_text_commands c \<and> cp_has_control_command c \<and> \<not> authorized)
           in (bare_gate ''command'' CommandPhase CommandGateKind (if should_block then BlockCommand else AllowEffect)
                 authorized (if should_block then ControlCommandUnauthorized else CommandAuthorized))
              \<lparr>ga_match := Some (merge_command_match (ia_match owner) (ia_match grp)),
               ga_command := Some \<lparr>cf_use_access_groups = use, cf_allow_text_commands = cp_allow_text_commands c,
                 cf_off_mode = cp_off_mode c, cf_should_block = should_block\<rparr>\<rparr>))"

definition event_result :: "ingress_event \<Rightarrow> bool \<Rightarrow> reason \<Rightarrow> gate" where
  "event_result e ok r =
     (bare_gate ''event'' EventPhase EventGateKind (if ok then AllowEffect else BlockDispatch) ok r)\<lparr>ga_event := Some e\<rparr>"

definition event_gate :: "ingress_state \<Rightarrow> gate \<Rightarrow> gate \<Rightarrow> gate" where
  "event_gate s sender command =
     (let e = is_event s in
      case ie_auth_mode e of
        NoAuth \<Rightarrow> event_result e True EventAuthorized
      | RouteOnlyAuth \<Rightarrow> event_result e True EventAuthorized
      | CommandAuth \<Rightarrow> event_result e (ga_allowed command) (if ga_allowed command then EventAuthorized else EventUnauthorized)
      | OriginSubjectAuth \<Rightarrow>
          if \<not> ie_has_origin e then event_result e False OriginSubjectMissing
          else event_result e (ie_origin_matched e) (if ie_origin_matched e then EventAuthorized else OriginSubjectNotMatched)
      | InboundAuth \<Rightarrow> event_result e (ga_allowed sender) (if ga_allowed sender then EventAuthorized else EventUnauthorized))"

definition resolve_allowed_kinds :: "activation_policy option \<Rightarrow> mention_kind list option" where
  "resolve_allowed_kinds a =
     (case a of None \<Rightarrow> None
      | Some ap \<Rightarrow> (case ap_allowed_kinds ap of Some ks \<Rightarrow> Some ks | None \<Rightarrow> map_option allowed_kinds_from_config (ap_implicit ap)))"

definition activation_metadata ::
    "activation_policy option \<Rightarrow> mention_facts option \<Rightarrow> bool \<Rightarrow> bool option \<Rightarrow> bool option \<Rightarrow> activation_facts" where
  "activation_metadata a m skip effective bypass =
     \<lparr>at_has_mention_facts = (m \<noteq> None),
      at_require_mention = (case a of Some ap \<Rightarrow> ap_require_mention ap | None \<Rightarrow> False),
      at_allow_text_commands = (case a of Some ap \<Rightarrow> ap_allow_text_commands ap | None \<Rightarrow> False),
      at_allowed_kinds = resolve_allowed_kinds a,
      at_order = (case a of Some ap \<Rightarrow> ap_order ap | None \<Rightarrow> None),
      at_should_skip = skip,
      at_can_detect = map_option mf_can_detect m,
      at_was_mentioned = map_option mf_was_mentioned m,
      at_has_any = Option.bind m mf_has_any,
      at_kinds = Option.bind m mf_kinds,
      at_effective = effective, at_bypass = bypass\<rparr>"

definition activation_result ::
    "activation_policy option \<Rightarrow> mention_facts option \<Rightarrow> bool \<Rightarrow> bool option \<Rightarrow> bool option \<Rightarrow> gate" where
  "activation_result a m skip effective bypass =
     (bare_gate ''activation'' ActivationPhase MentionGateKind (if skip then SkipEffect else AllowEffect) (\<not> skip)
        (if skip then ActivationSkipped else ActivationAllowed))
       \<lparr>ga_activation := Some (activation_metadata a m skip effective bypass)\<rparr>"

definition activation_gate :: "ingress_state \<Rightarrow> ingress_policy \<Rightarrow> gate \<Rightarrow> gate" where
  "activation_gate s p command =
     (case (ip_activation p, is_mentions s) of
        (Some ap, Some m) \<Rightarrow>
          (let d = resolve_inbound_mention_decision m
                 \<lparr>mp_is_group = (is_conversation s \<noteq> DirectConversation), mp_require_mention = ap_require_mention ap,
                  mp_implicit = None, mp_allowed_kinds = resolve_allowed_kinds (Some ap),
                  mp_allow_text_commands = ap_allow_text_commands ap,
                  mp_has_control_command = (case ip_command p of Some c \<Rightarrow> cp_has_control_command c | None \<Rightarrow> False),
                  mp_command_authorized = ga_allowed command\<rparr>
           in activation_result (Some ap) (Some m) (md_skip d) (Some (md_effective d)) (Some (md_bypass d)))
      | (a, m) \<Rightarrow> activation_result a m False
          (map_option (\<lambda>f. mf_was_mentioned f \<or> (case mf_kinds f of Some ks \<Rightarrow> ks \<noteq> [] | None \<Rightarrow> False)) m) None)"

text \<open>The gate that runs before the sender gate, for the policies that ask for it.\<close>

definition activation_before_sender :: "ingress_state \<Rightarrow> ingress_policy \<Rightarrow> gate option" where
  "activation_before_sender s p =
     (case ip_activation p of
        Some ap \<Rightarrow>
          if ap_order ap = Some BeforeSender \<and> \<not> ap_allow_text_commands ap
          then Some (activation_gate s p (command_gate s (p\<lparr>ip_command := None\<rparr>))) else None
      | None \<Rightarrow> None)"

text \<open>The part of \<open>decideChannelIngress\<close> after the activation gate that may precede the sender.\<close>

definition decide_sender :: "ingress_state \<Rightarrow> ingress_policy \<Rightarrow> gate option \<Rightarrow> gate list \<Rightarrow> ingress_decision" where
  "decide_sender s p before gs =
     (let sender = apply_event_auth_mode s
            (if is_conversation s = DirectConversation then sender_gate_for_direct s p else sender_gate_for_group s p);
          gs1 = gs @ [sender]
      in if \<not> ga_allowed sender then
           (if ga_reason sender = DmPolicyPairingRequired then decisive_decision PairingRequired PairingVerdict sender gs1
            else decisive_decision Drop BlockVerdict sender gs1)
         else
           (let command = command_gate s p;
                gs2 = gs1 @ [command]
            in if ga_effect command = BlockCommand then decisive_decision Drop BlockVerdict command gs2
               else
                 (let event = event_gate s sender command;
                      gs3 = gs2 @ [event]
                  in if \<not> ga_allowed event then decisive_decision Drop BlockVerdict event gs3
                     else
                       (let activation = (case before of Some g \<Rightarrow> g | None \<Rightarrow> activation_gate s p command);
                            gs4 = (if before = None then gs3 @ [activation] else gs3)
                        in if ga_effect activation = SkipEffect then decisive_decision Skip AllowVerdict activation gs4
                           else if ga_effect activation = ObserveEffect then decisive_decision Observe AllowVerdict activation gs4
                           else decisive_decision Dispatch AllowVerdict activation gs4))))"

definition decide_channel_ingress :: "ingress_state \<Rightarrow> ingress_policy \<Rightarrow> ingress_decision" where
  "decide_channel_ingress s p =
     (let gs = route_gates s @ (case route_sender_empty_gate s of Some g \<Rightarrow> [g] | None \<Rightarrow> [])
      in case find (\<lambda>g. ga_effect g = BlockDispatch) gs of
           Some g \<Rightarrow> decisive_decision Drop BlockVerdict g gs
         | None \<Rightarrow>
             (case activation_before_sender s p of
                Some g \<Rightarrow>
                  if ga_effect g = SkipEffect then decisive_decision Skip AllowVerdict g (gs @ [g])
                  else decide_sender s p (Some g) (gs @ [g])
              | None \<Rightarrow> decide_sender s p None gs))"

end
