(* ===== verification/Ingress_Decision_Props.thy ===== *)
theory Ingress_Decision_Props
  imports Ingress_Decision
begin

text \<open>
  What the ingress decision promises: its pipeline of gates computes one flat admission policy, the graph
  it reports explains its verdict, and the lists and identifiers that a policy switches off do not count.
\<close>

section \<open>The flat policy\<close>

definition routes_open :: "ingress_state \<Rightarrow> bool" where
  "routes_open s \<longleftrightarrow> (\<forall>r \<in> set (is_routes s). rr_effect r \<noteq> RouteBlock \<and> \<not> route_sender_empty r)"

definition allows :: "ingress_policy \<Rightarrow> ingress_allowlist \<Rightarrow> bool" where
  "allows p a \<longleftrightarrow> im_matched (ia_match (apply_mutable_identifier_policy p a))"

definition direct_sender_admitted :: "ingress_state \<Rightarrow> ingress_policy \<Rightarrow> bool" where
  "direct_sender_admitted s p \<longleftrightarrow>
     (case ip_dm p of
        DmDisabled \<Rightarrow> False
      | DmOpen \<Rightarrow> ia_wildcard (is_dm s) \<or> allows p (is_dm s)
      | DmAllowlist \<Rightarrow> allows p (is_dm s)
      | DmPairing \<Rightarrow> allows p (is_dm s) \<or> allows p (is_pairing_store s))"

definition group_sender_admitted :: "ingress_state \<Rightarrow> ingress_policy \<Rightarrow> bool" where
  "group_sender_admitted s p \<longleftrightarrow>
     (case ip_group p of
        GroupDisabled \<Rightarrow> False
      | GroupOpen \<Rightarrow> True
      | GroupAllowlist \<Rightarrow> ia_configured (effective_group_sender_allowlist s p) \<and>
                         im_matched (ia_match (effective_group_sender_allowlist s p)))"

definition sender_admitted :: "ingress_state \<Rightarrow> ingress_policy \<Rightarrow> bool" where
  "sender_admitted s p \<longleftrightarrow>
     (if is_conversation s = DirectConversation then direct_sender_admitted s p else group_sender_admitted s p)"

definition command_authorized :: "ingress_state \<Rightarrow> ingress_policy \<Rightarrow> bool" where
  "command_authorized s p \<longleftrightarrow>
     (case ip_command p of
        None \<Rightarrow> True
      | Some c \<Rightarrow> resolve_command_authorized (case cp_use_access_groups c of Some u \<Rightarrow> u | None \<Rightarrow> True)
          [\<lparr>az_configured = ia_configured (is_command_owner s), az_allowed = allows p (is_command_owner s)\<rparr>,
           \<lparr>az_configured = ia_configured (is_command_group s), az_allowed = allows p (is_command_group s)\<rparr>] (cp_off_mode c))"

definition control_command :: "ingress_policy \<Rightarrow> bool" where
  "control_command p \<longleftrightarrow> (case ip_command p of Some c \<Rightarrow> cp_allow_text_commands c \<and> cp_has_control_command c | None \<Rightarrow> False)"

definition event_admitted :: "ingress_state \<Rightarrow> ingress_policy \<Rightarrow> bool" where
  "event_admitted s p \<longleftrightarrow>
     (case ie_auth_mode (is_event s) of
        NoAuth \<Rightarrow> True
      | RouteOnlyAuth \<Rightarrow> True
      | CommandAuth \<Rightarrow> command_authorized s p
      | OriginSubjectAuth \<Rightarrow> ie_has_origin (is_event s) \<and> ie_origin_matched (is_event s)
      | InboundAuth \<Rightarrow> sender_admitted s p)"

text \<open>The message does not address the agent although the policy requires it.\<close>

definition unaddressed :: "ingress_state \<Rightarrow> ingress_policy \<Rightarrow> bool" where
  "unaddressed s p \<longleftrightarrow>
     (case (ip_activation p, is_mentions s) of
        (Some ap, Some m) \<Rightarrow>
          ap_require_mention ap \<and> mf_can_detect m \<and> \<not> mf_was_mentioned m \<and>
          matched_implicit_kinds (mf_kinds m) (resolve_allowed_kinds (Some ap)) = [] \<and>
          \<not> (is_conversation s \<noteq> DirectConversation \<and> mf_has_any m \<noteq> Some True \<and> ap_allow_text_commands ap \<and>
             (case ip_command p of Some c \<Rightarrow> cp_has_control_command c | None \<Rightarrow> False) \<and> command_authorized s p)
      | _ \<Rightarrow> False)"

definition may_dispatch :: "ingress_state \<Rightarrow> ingress_policy \<Rightarrow> bool" where
  "may_dispatch s p \<longleftrightarrow>
     routes_open s \<and> event_admitted s p \<and> \<not> (control_command p \<and> \<not> command_authorized s p) \<and> \<not> unaddressed s p"

section \<open>The gates compute it\<close>

lemma gate_fields [simp]:
  "ga_effect (bare_gate i ph k eff ok r) = eff" "ga_allowed (bare_gate i ph k eff ok r) = ok"
  "ga_reason (bare_gate i ph k eff ok r) = r" "ga_phase (bare_gate i ph k eff ok r) = ph"
  "ga_id (bare_gate i ph k eff ok r) = i"
  by (simp_all add: bare_gate_def)

lemma decisive_fields [simp]:
  "de_admission (decisive_decision a v g gs) = a" "de_verdict (decisive_decision a v g gs) = v"
  "de_gate_id (decisive_decision a v g gs) = ga_id g" "de_reason (decisive_decision a v g gs) = ga_reason g"
  "de_gates (decisive_decision a v g gs) = gs"
  by (simp_all add: decisive_decision_def)

lemma sender_gate_fields [simp]:
  "ga_effect (sender_gate i k pol a eff ok r) = eff" "ga_allowed (sender_gate i k pol a eff ok r) = ok"
  "ga_reason (sender_gate i k pol a eff ok r) = r" "ga_phase (sender_gate i k pol a eff ok r) = SenderPhase"
  by (simp_all add: sender_gate_def)

lemma direct_gate:
  "ga_allowed (sender_gate_for_direct s p) = direct_sender_admitted s p"
  "ga_effect (sender_gate_for_direct s p) = (if direct_sender_admitted s p then AllowEffect else BlockDispatch)"
  "ga_reason (sender_gate_for_direct s p) = DmPolicyPairingRequired \<longleftrightarrow>
     ip_dm p = DmPairing \<and> \<not> direct_sender_admitted s p \<and> ie_may_pair (is_event s)"
  by (cases "ip_dm p"; auto simp: sender_gate_for_direct_def direct_sender_admitted_def allows_def Let_def
      allowlist_failure_reason_def split: option.split)+

lemma group_gate:
  "ga_allowed (sender_gate_for_group s p) = group_sender_admitted s p"
  "ga_effect (sender_gate_for_group s p) = (if group_sender_admitted s p then AllowEffect else BlockDispatch)"
  "ga_reason (sender_gate_for_group s p) \<noteq> DmPolicyPairingRequired"
  by (cases "ip_group p"; auto simp: sender_gate_for_group_def group_sender_admitted_def Let_def
      allowlist_failure_reason_def split: option.split)+

definition sender_gate_of :: "ingress_state \<Rightarrow> ingress_policy \<Rightarrow> gate" where
  "sender_gate_of s p =
     apply_event_auth_mode s (if is_conversation s = DirectConversation then sender_gate_for_direct s p else sender_gate_for_group s p)"

lemma sender_gate_facts:
  "ga_allowed (sender_gate_of s p) \<longleftrightarrow> ie_auth_mode (is_event s) \<noteq> InboundAuth \<or> sender_admitted s p"
  "ga_effect (sender_gate_of s p) =
     (if sender_admitted s p then AllowEffect
      else if ie_auth_mode (is_event s) = InboundAuth then BlockDispatch else IgnoreEffect)"
  "ga_reason (sender_gate_of s p) = DmPolicyPairingRequired \<longleftrightarrow>
     is_conversation s = DirectConversation \<and> ie_auth_mode (is_event s) = InboundAuth \<and> ip_dm p = DmPairing \<and>
     \<not> direct_sender_admitted s p \<and> ie_may_pair (is_event s)"
  by (auto simp: sender_gate_of_def apply_event_auth_mode_def sender_admitted_def direct_gate group_gate)

lemma command_gate_fields:
  "ga_allowed (command_gate s p) = command_authorized s p"
  "ga_effect (command_gate s p) = (if control_command p \<and> \<not> command_authorized s p then BlockCommand else AllowEffect)"
  by (auto simp: command_gate_def command_authorized_def control_command_def allows_def Let_def split: option.split)

lemma event_gate_fields:
  "ga_allowed (event_gate s (sender_gate_of s p) (command_gate s p)) = event_admitted s p"
  "ga_effect (event_gate s sg cg) = (if ga_allowed (event_gate s sg cg) then AllowEffect else BlockDispatch)"
  by (auto simp: event_gate_def event_result_def event_admitted_def sender_gate_facts command_gate_fields Let_def
      split: auth_mode.split)

lemma activation_gate_skip:
  assumes "\<And>ap. ip_activation p = Some ap \<Longrightarrow> ap_allow_text_commands ap \<Longrightarrow> ga_allowed cg = command_authorized s p"
  shows "ga_effect (activation_gate s p cg) = (if unaddressed s p then SkipEffect else AllowEffect)"
proof (cases "ip_activation p")
  case (Some ap)
  show ?thesis
  proof (cases "is_mentions s")
    case m: (Some m)
    then show ?thesis using Some assms
      by (auto simp: activation_gate_def activation_result_def unaddressed_def resolve_inbound_mention_decision_def
          mention_decision_core_def Let_def resolve_allowed_kinds_def split: option.splits)
  qed (simp add: Some activation_gate_def activation_result_def unaddressed_def)
qed (simp add: activation_gate_def activation_result_def unaddressed_def)

definition route_blocks :: "ingress_state \<Rightarrow> gate list" where
  "route_blocks s = route_gates s @ (case route_sender_empty_gate s of Some g \<Rightarrow> [g] | None \<Rightarrow> [])"

lemma route_gate_blocks: "route_gate_effect e = BlockDispatch \<longleftrightarrow> e = RouteBlock"
  by (cases e) simp_all

lemma route_gates_block: "(\<exists>g \<in> set (route_gates s). ga_effect g = BlockDispatch) \<longleftrightarrow> (\<exists>r \<in> set (is_routes s). rr_effect r = RouteBlock)"
  by (simp add: route_gates_def route_gate_blocks)

lemma route_sender_empty_gate_None: "route_sender_empty_gate s = None \<longleftrightarrow> (\<forall>r \<in> set (is_routes s). \<not> route_sender_empty r)"
  by (auto simp: route_sender_empty_gate_def find_None_iff)

lemma route_sender_empty_gate_Some: "route_sender_empty_gate s = Some g \<Longrightarrow> ga_effect g = BlockDispatch"
  by (auto simp: route_sender_empty_gate_def)

lemma route_blocks_effect:
  assumes "g \<in> set (route_blocks s)" and "ga_effect g \<noteq> BlockDispatch"
  shows "ga_effect g \<in> {AllowEffect, IgnoreEffect}"
proof -
  have "g \<in> set (route_gates s)"
    using assms route_sender_empty_gate_Some by (auto simp: route_blocks_def split: option.splits)
  then have "ga_effect g \<in> range route_gate_effect" by (auto simp: route_gates_def)
  then obtain e where "ga_effect g = route_gate_effect e" by auto
  then show ?thesis using assms(2) by (cases e) simp_all
qed

lemma routes_open_iff: "find (\<lambda>g. ga_effect g = BlockDispatch) (route_blocks s) = None \<longleftrightarrow> routes_open s"
proof -
  have "find (\<lambda>g. ga_effect g = BlockDispatch) (route_blocks s) = None \<longleftrightarrow>
    \<not> (\<exists>g \<in> set (route_gates s). ga_effect g = BlockDispatch) \<and> route_sender_empty_gate s = None"
    by (cases "route_sender_empty_gate s") (auto simp: find_None_iff route_blocks_def dest: route_sender_empty_gate_Some)
  then show ?thesis by (auto simp: route_gates_block route_sender_empty_gate_None routes_open_def)
qed

lemma before_sender:
  assumes "activation_before_sender s p = Some g"
  shows "ga_effect g = (if unaddressed s p then SkipEffect else AllowEffect)"
proof -
  obtain ap where ap: "ip_activation p = Some ap" "\<not> ap_allow_text_commands ap"
    and g: "g = activation_gate s p (command_gate s (p\<lparr>ip_command := None\<rparr>))"
    using assms by (auto simp: activation_before_sender_def split: option.splits if_splits)
  show ?thesis unfolding g by (rule activation_gate_skip) (use ap in simp)
qed

text \<open>The decision in terms of the flat policy.\<close>

lemma decide_sender_admission:
  assumes "\<And>g. before = Some g \<Longrightarrow> ga_effect g = (if unaddressed s p then SkipEffect else AllowEffect)"
  shows "de_admission (decide_sender s p before gs) =
    (if ie_auth_mode (is_event s) = InboundAuth \<and> \<not> sender_admitted s p then
       (if is_conversation s = DirectConversation \<and> ip_dm p = DmPairing \<and> ie_may_pair (is_event s) then PairingRequired else Drop)
     else if (control_command p \<and> \<not> command_authorized s p) \<or> \<not> event_admitted s p then Drop
     else if unaddressed s p then Skip else Dispatch)"
proof -
  have act: "ga_effect (case before of Some g \<Rightarrow> g | None \<Rightarrow> activation_gate s p (command_gate s p)) =
      (if unaddressed s p then SkipEffect else AllowEffect)"
    using assms activation_gate_skip [of p "command_gate s p" s] by (cases before) (simp_all add: command_gate_fields)
  have sg: "apply_event_auth_mode s (if is_conversation s = DirectConversation then sender_gate_for_direct s p
      else sender_gate_for_group s p) = sender_gate_of s p" by (simp add: sender_gate_of_def)
  show ?thesis
    unfolding decide_sender_def Let_def sg
    by (auto simp: act sender_gate_facts command_gate_fields event_gate_fields sender_admitted_def)
qed

lemma decide_admission:
  "de_admission (decide_channel_ingress s p) =
    (if \<not> routes_open s then Drop
     else if activation_before_sender s p \<noteq> None \<and> unaddressed s p then Skip
     else if ie_auth_mode (is_event s) = InboundAuth \<and> \<not> sender_admitted s p then
       (if is_conversation s = DirectConversation \<and> ip_dm p = DmPairing \<and> ie_may_pair (is_event s) then PairingRequired else Drop)
     else if (control_command p \<and> \<not> command_authorized s p) \<or> \<not> event_admitted s p then Drop
     else if unaddressed s p then Skip else Dispatch)"
proof (cases "routes_open s")
  case False
  then obtain g where "find (\<lambda>g. ga_effect g = BlockDispatch) (route_blocks s) = Some g"
    using routes_open_iff by (metis option.exhaust)
  then show ?thesis using False by (simp add: decide_channel_ingress_def Let_def route_blocks_def)
next
  case True
  then have f: "find (\<lambda>g. ga_effect g = BlockDispatch) (route_blocks s) = None" by (simp add: routes_open_iff)
  show ?thesis
  proof (cases "activation_before_sender s p")
    case None
    then show ?thesis using f True decide_sender_admission [of None s p "route_blocks s"]
      by (simp add: decide_channel_ingress_def Let_def route_blocks_def)
  next
    case (Some g)
    have e: "ga_effect g = (if unaddressed s p then SkipEffect else AllowEffect)" by (rule before_sender [OF Some])
    then show ?thesis using f True Some decide_sender_admission [of "Some g" s p "route_blocks s @ [g]"]
      by (simp add: decide_channel_ingress_def Let_def route_blocks_def)
  qed
qed

lemma dispatch_flat: "de_admission (decide_channel_ingress s p) = Dispatch \<longleftrightarrow> may_dispatch s p"
  by (auto simp: decide_admission may_dispatch_def event_admitted_def)

section \<open>Properties\<close>

text \<open>C18: The gate pipeline implements the flat admission policy: an inbound event is dispatched exactly when no
  route blocks it, its event mode is satisfied (for messages, the sender is admitted by the direct or
  group policy), it is not an unauthorized control command, and it addresses the agent where a mention is required.\<close>

theorem dispatch_iff_admitted:
  "de_admission (decide_channel_ingress s p) = Dispatch \<longleftrightarrow> may_dispatch s p"
  by (rule dispatch_flat)

text \<open>Pairing is offered exactly to a direct inbound sender that the pairing policy does not know, when the event
  may pair and no route blocks it and no early mention check skips it; nobody else gets a pairing prompt.\<close>

theorem pairing_offered_iff:
  "de_admission (decide_channel_ingress s p) = PairingRequired \<longleftrightarrow>
     routes_open s \<and> \<not> (activation_before_sender s p \<noteq> None \<and> unaddressed s p) \<and>
     is_conversation s = DirectConversation \<and> ie_auth_mode (is_event s) = InboundAuth \<and> ip_dm p = DmPairing \<and>
     ie_may_pair (is_event s) \<and> \<not> allows p (is_dm s) \<and> \<not> allows p (is_pairing_store s)"
  by (auto simp: decide_admission sender_admitted_def direct_sender_admitted_def)

text \<open>What each verdict says of its graph.\<close>

definition explained :: "ingress_decision \<Rightarrow> bool" where
  "explained d \<longleftrightarrow>
     (\<exists>g \<in> set (de_gates d). ga_id g = de_gate_id d \<and> ga_reason g = de_reason d \<and>
        (de_admission d = Drop \<longrightarrow> ga_effect g \<in> {BlockDispatch, BlockCommand})) \<and>
     (de_admission d = Dispatch \<longrightarrow> (\<forall>g \<in> set (de_gates d). ga_effect g \<in> {AllowEffect, IgnoreEffect})) \<and>
     (de_verdict d = AllowVerdict \<longleftrightarrow> de_admission d \<in> {Dispatch, Observe, Skip}) \<and>
     (de_verdict d = PairingVerdict \<longleftrightarrow> de_admission d = PairingRequired)"

lemma explainedI:
  assumes "g \<in> set gs" and "a = Drop \<Longrightarrow> ga_effect g \<in> {BlockDispatch, BlockCommand}"
    and "a = Dispatch \<Longrightarrow> \<forall>g \<in> set gs. ga_effect g \<in> {AllowEffect, IgnoreEffect}"
    and "v = AllowVerdict \<longleftrightarrow> a \<in> {Dispatch, Observe, Skip}" and "v = PairingVerdict \<longleftrightarrow> a = PairingRequired"
  shows "explained (decisive_decision a v g gs)"
  using assms by (auto simp: explained_def)

lemma explained_sender:
  assumes gs: "\<And>g. g \<in> set gs \<Longrightarrow> ga_effect g \<in> {AllowEffect, IgnoreEffect, SkipEffect}"
    and before: "\<And>g. before = Some g \<Longrightarrow> g \<in> set gs"
    and skip: "\<And>g. g \<in> set gs \<Longrightarrow> ga_effect g = SkipEffect \<Longrightarrow> before = Some g"
  shows "explained (decide_sender s p before gs)"
proof -
  let ?sender = "sender_gate_of s p" let ?command = "command_gate s p"
  let ?event = "event_gate s ?sender ?command"
  let ?activation = "case before of Some g \<Rightarrow> g | None \<Rightarrow> activation_gate s p ?command"
  have sg: "apply_event_auth_mode s (if is_conversation s = DirectConversation then sender_gate_for_direct s p
      else sender_gate_for_group s p) = ?sender" by (simp add: sender_gate_of_def)
  have act: "ga_effect (activation_gate s p ?command) \<in> {AllowEffect, SkipEffect}"
    using activation_gate_skip [of p ?command s] by (simp add: command_gate_fields)
  note eff = sender_gate_facts(1,2) [of s p] command_gate_fields [of s p] event_gate_fields(2) [of s ?sender ?command]
  show ?thesis
  proof (cases "ga_allowed ?sender")
    case False
    then show ?thesis unfolding decide_sender_def Let_def sg
      by (auto intro!: explainedI simp: eff split: if_splits)
  next
    case sender: True
    show ?thesis
    proof (cases "ga_effect ?command = BlockCommand")
      case True
      then show ?thesis using sender unfolding decide_sender_def Let_def sg by (auto intro!: explainedI)
    next
      case command: False
      show ?thesis
      proof (cases "ga_allowed ?event")
        case False
        then show ?thesis using sender command eff(5) unfolding decide_sender_def Let_def sg by (auto intro!: explainedI)
      next
        case event: True
        have ok: "ga_effect ?sender \<in> {AllowEffect, IgnoreEffect}" "ga_effect ?command = AllowEffect" "ga_effect ?event = AllowEffect"
          using sender command event eff by (auto split: if_splits)
        show ?thesis
        proof (cases before)
          case None
          have "\<forall>g \<in> set gs. ga_effect g \<in> {AllowEffect, IgnoreEffect}" using gs skip None by blast
          then show ?thesis using sender command event ok act None unfolding decide_sender_def Let_def sg
            by (auto intro!: explainedI)
        next
          case (Some a)
          have a: "a \<in> set gs" by (rule before [OF Some])
          have "\<forall>g \<in> set gs. ga_effect g \<in> {AllowEffect, IgnoreEffect}" if "ga_effect a \<noteq> SkipEffect"
            using gs skip Some that by blast
          then show ?thesis using sender command event ok gs [OF a] a Some unfolding decide_sender_def Let_def sg
            by (auto intro!: explainedI)
        qed
      qed
    qed
  qed
qed

text \<open>The access graph explains the decision: the decisive gate is a gate of the graph with the reported
  reason, it blocks when the event is dropped, on a dispatch no gate of the graph blocks or skips, and the verdict
  and the admission agree.\<close>

theorem graph_explains_decision: "explained (decide_channel_ingress s p)"
proof (cases "find (\<lambda>g. ga_effect g = BlockDispatch) (route_blocks s)")
  case (Some g)
  then have "g \<in> set (route_blocks s)" "ga_effect g = BlockDispatch" by (auto simp: find_Some_iff)
  then show ?thesis using Some
    by (auto simp: decide_channel_ingress_def Let_def route_blocks_def intro!: explainedI)
next
  case None
  then have gs: "\<forall>g \<in> set (route_blocks s). ga_effect g \<in> {AllowEffect, IgnoreEffect}"
    using route_blocks_effect by (auto simp: find_None_iff)
  show ?thesis
  proof (cases "activation_before_sender s p")
    case b: None
    have "explained (decide_sender s p None (route_blocks s))" by (rule explained_sender) (use gs in fastforce)+
    then show ?thesis using None b by (simp add: decide_channel_ingress_def Let_def route_blocks_def)
  next
    case b: (Some a)
    note e = before_sender [OF b]
    have "explained (decide_sender s p (Some a) (route_blocks s @ [a]))"
      by (rule explained_sender) (use gs e in \<open>fastforce split: if_splits\<close>)+
    then show ?thesis using None b e
      by (auto simp: decide_channel_ingress_def Let_def route_blocks_def intro!: explainedI)
  qed
qed

text \<open>The pairing store counts only under the pairing policy: with any other direct policy, whatever the store
  holds or matches, the whole decision with its graph stays the same.\<close>

theorem pairing_store_only_when_pairing:
  assumes "ip_dm p \<noteq> DmPairing"
  shows "decide_channel_ingress (s\<lparr>is_pairing_store := a\<rparr>) p = decide_channel_ingress s p"
proof -
  let ?s = "s\<lparr>is_pairing_store := a\<rparr>"
  have dm: "sender_gate_for_direct ?s p = sender_gate_for_direct s p"
    using assms by (cases "ip_dm p") (simp_all add: sender_gate_for_direct_def Let_def)
  have grp: "sender_gate_for_group ?s p = sender_gate_for_group s p"
    by (simp add: sender_gate_for_group_def effective_group_sender_allowlist_def)
  have cmd: "command_gate ?s q = command_gate s q" for q by (cases "ip_command q") (simp_all add: command_gate_def)
  have act: "activation_gate ?s p g = activation_gate s p g" for g
    by (cases "ip_activation p"; cases "is_mentions s") (simp_all add: activation_gate_def)
  have "activation_before_sender ?s p = activation_before_sender s p"
    by (cases "ip_activation p") (simp_all add: activation_before_sender_def act cmd)
  moreover have "decide_sender ?s p b gs = decide_sender s p b gs" for b gs
  proof -
    have "apply_event_auth_mode ?s = apply_event_auth_mode s" "event_gate ?s = event_gate s" "is_conversation ?s = is_conversation s"
      by (simp_all add: fun_eq_iff apply_event_auth_mode_def event_gate_def)
    then show ?thesis unfolding decide_sender_def dm grp cmd act by (simp only:)
  qed
  moreover have "route_gates ?s = route_gates s" "route_sender_empty_gate ?s = route_sender_empty_gate s"
    by (simp_all add: route_gates_def route_sender_empty_gate_def)
  ultimately show ?thesis unfolding decide_channel_ingress_def by (simp only:)
qed

text \<open>An unauthorized text control command is never dispatched, in whatever mode its event is authorized and
  whatever the sender policies say.\<close>

theorem unauthorized_control_command_stopped:
  assumes "ip_command p = Some c" and "cp_allow_text_commands c" and "cp_has_control_command c"
    and "cp_use_access_groups c \<noteq> Some False"
    and "\<not> (ia_configured (is_command_owner s) \<and> allows p (is_command_owner s))"
    and "\<not> (ia_configured (is_command_group s) \<and> allows p (is_command_group s))"
  shows "de_admission (decide_channel_ingress s p) \<noteq> Dispatch"
proof -
  have "control_command p" using assms(1-3) by (simp add: control_command_def)
  moreover have "\<not> command_authorized s p"
    using assms by (auto simp: command_authorized_def command_authorized_on split: option.splits)
  ultimately show ?thesis by (simp add: decide_admission)
qed

section \<open>Mutable identifiers\<close>

text \<open>A list whose matches all come from entries with mutable identifiers.\<close>

definition only_dangerous :: "ingress_allowlist \<Rightarrow> bool" where
  "only_dangerous a \<longleftrightarrow>
     (im_matched (ia_match a) \<longrightarrow> ia_matched_ids a \<noteq> []) \<and>
     (\<forall>i \<in> set (ia_matched_ids a). \<exists>e \<in> set (ia_normalized a). en_dangerous e \<and> en_id e = i)"

lemma only_dangerous_merge: "only_dangerous a \<Longrightarrow> only_dangerous b \<Longrightarrow> only_dangerous (merge_resolved_allowlists [a, b])"
  by (auto simp: only_dangerous_def merge_resolved_allowlists_def Let_def)

lemma only_dangerous_denied:
  assumes "only_dangerous a" and "ip_mutable p \<noteq> Some MutableEnabled"
  shows "\<not> im_matched (ia_match (apply_mutable_identifier_policy p a))"
proof (cases "dangerous_ids a = []")
  case True
  then have "\<not> (\<exists>e \<in> set (ia_normalized a). en_dangerous e)" by (auto simp: dangerous_ids_def filter_empty_conv)
  then have "ia_matched_ids a = []" using assms(1) by (cases "ia_matched_ids a") (auto simp: only_dangerous_def)
  then have "\<not> im_matched (ia_match a)" using assms(1) by (auto simp: only_dangerous_def)
  then show ?thesis using True by (simp add: apply_mutable_identifier_policy_def)
next
  case False
  have "filter (\<lambda>i. i \<notin> set (dangerous_ids a)) (ia_matched_ids a) = []"
    using assms(1) by (force simp: filter_empty_conv only_dangerous_def dangerous_ids_def)
  then show ?thesis using False assms(2) by (simp add: apply_mutable_identifier_policy_def Let_def)
qed

lemma only_dangerous_routes:
  assumes "\<forall>r \<in> set rs. \<forall>a. rr_senders r = Some a \<longrightarrow> only_dangerous a" and "only_dangerous start"
  shows "only_dangerous (foldl (\<lambda>eff r. case rr_senders r of None \<Rightarrow> eff | Some senders \<Rightarrow>
      if rr_gate r \<noteq> RouteMatched then eff
      else if rr_sender_policy r = InheritSenders then merge_resolved_allowlists [eff, senders] else senders) start rs)"
  using assms
proof (induction rs arbitrary: start)
  case (Cons r rs)
  show ?case unfolding foldl_Cons
    by (rule Cons.IH) (use Cons.prems in \<open>auto simp: only_dangerous_merge split: option.split\<close>)
qed simp

text \<open>C19: Unless mutable identifier matching is enabled, user names and other mutable identifiers never admit
  anyone: an inbound sender whose every match, in whichever direct, group, pairing or route list, is an entry
  marked dangerous is not dispatched under any policy that looks at senders.\<close>

theorem mutable_identifiers_never_admit:
  assumes "ip_mutable p \<noteq> Some MutableEnabled" and "ie_auth_mode (is_event s) = InboundAuth"
    and "ip_group p \<noteq> GroupOpen" and "ip_dm p = DmOpen \<longrightarrow> \<not> ia_wildcard (is_dm s)"
    and "only_dangerous (is_dm s)" and "only_dangerous (is_pairing_store s)" and "only_dangerous (is_group s)"
    and "\<forall>r \<in> set (is_routes s). \<forall>a. rr_senders r = Some a \<longrightarrow> only_dangerous a"
  shows "de_admission (decide_channel_ingress s p) \<noteq> Dispatch"
proof -
  have "\<not> direct_sender_admitted s p"
    using only_dangerous_denied [OF assms(5,1)] only_dangerous_denied [OF assms(6,1)] assms(4)
    by (cases "ip_dm p") (simp_all add: direct_sender_admitted_def allows_def)
  moreover have "\<not> group_sender_admitted s p"
  proof -
    have "\<not> im_matched (ia_match (effective_group_sender_allowlist s p))"
      unfolding effective_group_sender_allowlist_def Let_def
      by (rule only_dangerous_denied [OF only_dangerous_routes [OF assms(8)] assms(1)]) (simp add: assms(5,7))
    then show ?thesis using assms(3) by (cases "ip_group p") (simp_all add: group_sender_admitted_def)
  qed
  ultimately have "\<not> sender_admitted s p" by (simp add: sender_admitted_def)
  then show ?thesis using assms(2) by (simp add: decide_admission)
qed

section \<open>Witnesses\<close>

definition sample_groups :: access_group_facts where
  "sample_groups = \<lparr>ag_referenced = [], ag_matched = [], ag_missing = [], ag_unsupported = [], ag_failed = []\<rparr>"

definition sample_list :: "redacted_entry list \<Rightarrow> string list \<Rightarrow> ingress_allowlist" where
  "sample_list es ids =
     \<lparr>ia_raw_count = length es, ia_normalized = es, ia_invalid = [], ia_disabled = [], ia_matched_ids = ids,
      ia_configured = (es \<noteq> []), ia_matchable = (es \<noteq> []), ia_wildcard = False, ia_groups = sample_groups,
      ia_match = \<lparr>im_matched = (ids \<noteq> []), im_ids = ids\<rparr>\<rparr>"

definition nick_entry :: redacted_entry where
  "nick_entry = \<lparr>en_id = ''entry-1:nick'', en_kind = Username, en_dangerous = True, en_sensitivity = None\<rparr>"

definition sample_state :: "ingress_allowlist \<Rightarrow> ingress_state" where
  "sample_state dm =
     \<lparr>is_channel_id = ''irc'', is_account_id = ''default'', is_conversation = DirectConversation,
      is_event = \<lparr>ie_kind = MessageEvent, ie_auth_mode = InboundAuth, ie_may_pair = True, ie_has_origin = False,
        ie_origin_matched = False\<rparr>,
      is_mentions = None, is_routes = [], is_dm = dm, is_pairing_store = sample_list [] [], is_group = sample_list [] [],
      is_command_owner = sample_list [] [], is_command_group = sample_list [] []\<rparr>"

definition sample_policy :: "dm_policy \<Rightarrow> command_policy option \<Rightarrow> ingress_policy" where
  "sample_policy d c =
     \<lparr>ip_dm = d, ip_group = GroupAllowlist, ip_group_fallback = None, ip_mutable = None, ip_activation = None, ip_command = c\<rparr>"

text \<open>A sender on the list by nick only is stopped, although the list matches.\<close>

theorem mutable_identifiers_never_admit_witness:
  "im_matched (ia_match (is_dm (sample_state (sample_list [nick_entry] [''entry-1:nick''])))) \<and>
   de_admission (decide_channel_ingress (sample_state (sample_list [nick_entry] [''entry-1:nick''])) (sample_policy DmAllowlist None)) \<noteq> Dispatch"
proof
  let ?s = "sample_state (sample_list [nick_entry] [''entry-1:nick''])"
  show "im_matched (ia_match (is_dm ?s))" by (simp add: sample_state_def sample_list_def)
  show "de_admission (decide_channel_ingress ?s (sample_policy DmAllowlist None)) \<noteq> Dispatch"
    by (rule mutable_identifiers_never_admit)
      (simp_all add: sample_state_def sample_policy_def sample_list_def only_dangerous_def nick_entry_def)
qed

theorem pairing_store_only_when_pairing_witness:
  "decide_channel_ingress ((sample_state (sample_list [] []))\<lparr>is_pairing_store := sample_list [] [''paired'']\<rparr>) (sample_policy DmAllowlist None) =
   decide_channel_ingress (sample_state (sample_list [] [])) (sample_policy DmAllowlist None)"
  by (rule pairing_store_only_when_pairing) (simp add: sample_policy_def)

theorem unauthorized_control_command_stopped_witness:
  "de_admission (decide_channel_ingress (sample_state (sample_list [] []))
     (sample_policy DmOpen (Some \<lparr>cp_use_access_groups = None, cp_allow_text_commands = True, cp_has_control_command = True,
        cp_off_mode = None\<rparr>))) \<noteq> Dispatch"
  by (rule unauthorized_control_command_stopped [where c = "\<lparr>cp_use_access_groups = None, cp_allow_text_commands = True,
        cp_has_control_command = True, cp_off_mode = None\<rparr>"])
    (simp_all add: sample_state_def sample_policy_def sample_list_def)

end
