(* ===== verification/Ingress_State.thy ===== *)
theory Ingress_State
  imports Ingress_Allowlist
begin

text \<open>
  The ingress state resolver, \<open>channels/message-access/state.ts\<close>: allowlists are normalized and matched
  through the channel's adapter, access groups are expanded or taken from membership facts, and route
  facts get their own sender lists. The adapter is a record of functions, its promises their results.
  \<open>localeCompare\<close> is the parameter \<open>le\<close>. Access groups and their members are looked up among their own keys.
\<close>

section \<open>Adapters and input\<close>

datatype match_context = DmContext | GroupContext | RouteContext | CommandContext

record normalize_result =
  nr_matchable :: "normalized_entry list"
  nr_invalid :: "entry_diagnostic list"
  nr_disabled :: "entry_diagnostic list"

record adapter =
  normalize_entries :: "string list \<Rightarrow> match_context \<Rightarrow> string \<Rightarrow> normalize_result"
  match_subject :: "ingress_subject \<Rightarrow> normalized_entry list \<Rightarrow> match_context \<Rightarrow> ingress_match"

datatype access_group = DiscordAudience string string | MessageSenders "(string, item list) js_map"

datatype fact_source = StaticFact | DynamicFact

datatype group_problem = GroupMissing | GroupUnsupported | GroupFailed

datatype membership_fact =
    FactMatched string fact_source "string list"
  | FactNotMatched string fact_source
  | FactProblem group_problem string fact_source reason "string option"

fun fact_group :: "membership_fact \<Rightarrow> string" where
  "fact_group (FactMatched n _ _) = n"
| "fact_group (FactNotMatched n _) = n"
| "fact_group (FactProblem _ n _ _ _) = n"

datatype sender_source = EffectiveDm | EffectiveGroup

record route_facts =
  rf_id :: string
  rf_kind :: route_kind
  rf_gate :: route_state
  rf_effect :: route_effect
  rf_precedence :: int
  rf_sender_policy :: route_sender_policy
  rf_senders :: "item list option"
  rf_source :: "sender_source option"
  rf_match :: "ingress_match option"

record event_input =
  ev_kind :: event_kind
  ev_auth_mode :: auth_mode
  ev_may_pair :: bool
  ev_origin :: "ingress_subject option"

record ingress_input =
  ii_channel_id :: string
  ii_account_id :: string
  ii_subject :: ingress_subject
  ii_conversation :: conversation_kind
  ii_access_groups :: "(string, access_group) js_map"
  ii_membership :: "membership_fact list"
  ii_routes :: "route_facts list"
  ii_mentions :: "mention_facts option"
  ii_event :: event_input
  ii_dm :: "item list option"
  ii_group :: "item list option"
  ii_command_owner :: "item list option"
  ii_command_group :: "item list option"
  ii_pairing_store :: "item list option"

section \<open>Matching\<close>

definition redacted_entries :: "normalized_entry list \<Rightarrow> redacted_entry list" where
  "redacted_entries es = map redacted_entry.truncate es"

definition empty_match :: ingress_match where
  "empty_match = \<lparr>im_matched = False, im_ids = []\<rparr>"

definition merge_matches :: "ingress_match list \<Rightarrow> ingress_match" where
  "merge_matches ms =
     (let ids = unique_strings (concat (map im_ids ms))
      in \<lparr>im_matched = (list_ex im_matched ms \<or> ids \<noteq> []), im_ids = ids\<rparr>)"

text \<open>The groups of \<open>mergeDiagnostics\<close>; an absent group is empty.\<close>

definition merge_diagnostics :: "entry_diagnostic list list \<Rightarrow> entry_diagnostic list" where
  "merge_diagnostics gs = concat gs"

definition access_group_fact_by_name :: "membership_fact list \<Rightarrow> (string, membership_fact) js_map" where
  "access_group_fact_by_name facts = fold (\<lambda>f m. js_set (fact_group f) f m) facts []"

record matched_entries =
  me_normalized :: "redacted_entry list"
  me_invalid :: "entry_diagnostic list"
  me_disabled :: "entry_diagnostic list"
  me_match :: ingress_match

definition normalize_and_match :: "adapter \<Rightarrow> ingress_subject \<Rightarrow> string \<Rightarrow> string list \<Rightarrow> match_context \<Rightarrow> matched_entries" where
  "normalize_and_match a subject account_id entries ctx =
     (if entries = [] then \<lparr>me_normalized = [], me_invalid = [], me_disabled = [], me_match = empty_match\<rparr>
      else
        (let n = normalize_entries a entries ctx account_id
         in \<lparr>me_normalized = redacted_entries (nr_matchable n), me_invalid = nr_invalid n, me_disabled = nr_disabled n,
             me_match = (if nr_matchable n \<noteq> [] then match_subject a subject (nr_matchable n) ctx else empty_match)\<rparr>))"

definition referenced_access_groups :: "string list \<Rightarrow> string list" where
  "referenced_access_groups es = unique_strings (List.map_filter parse_access_group_entry es)"

definition direct_allowlist_entries :: "string list \<Rightarrow> string list" where
  "direct_allowlist_entries es = filter (\<lambda>e. parse_access_group_entry e = None) es"

definition group_sender_entries :: "ingress_input \<Rightarrow> string \<Rightarrow> string list" where
  "group_sender_entries inp name =
     (case js_get (ii_access_groups inp) name of
        Some (MessageSenders members) \<Rightarrow>
          normalize_string_entries
            ((case js_get members ''*'' of Some xs \<Rightarrow> xs | None \<Rightarrow> []) @
             (case js_get members (ii_channel_id inp) of Some xs \<Rightarrow> xs | None \<Rightarrow> []))
      | _ \<Rightarrow> [])"

section \<open>Origin subjects\<close>

definition event_subject_match_context :: "ingress_input \<Rightarrow> match_context" where
  "event_subject_match_context inp = (if ii_conversation inp = DirectConversation then DmContext else GroupContext)"

definition normalize_subject_identifiers ::
    "adapter \<Rightarrow> ingress_input \<Rightarrow> ingress_subject \<Rightarrow> match_context \<Rightarrow> string \<Rightarrow> normalized_entry list" where
  "normalize_subject_identifiers a inp subject ctx opaque_prefix =
     concat (map (\<lambda>(i, ident).
       map (\<lambda>(j, e). e\<lparr>en_id := opaque_prefix @ ''-'' @ digits_of (i + 1) @ '':'' @ digits_of (j + 1)\<rparr>)
         (enumerate 0
           (filter (\<lambda>e. en_kind e = id_kind ident \<and> en_value e \<noteq> ''*'')
             (nr_matchable (normalize_entries a [id_value ident] ctx (ii_account_id inp))))))
       (enumerate 0 subject))"

definition same_identifier :: "ingress_subject \<Rightarrow> ingress_subject \<Rightarrow> bool" where
  "same_identifier origin current \<longleftrightarrow>
     list_ex (\<lambda>o'. list_ex (\<lambda>c. id_kind c = id_kind o' \<and> id_value c = id_value o') current) origin"

definition origin_subject_matched :: "adapter \<Rightarrow> ingress_input \<Rightarrow> bool" where
  "origin_subject_matched a inp =
     (case ev_origin (ii_event inp) of
        None \<Rightarrow> False
      | Some origin \<Rightarrow>
          if same_identifier origin (ii_subject inp) then True
          else
            (let ctx = event_subject_match_context inp;
                 origin_entries = normalize_subject_identifiers a inp origin ctx ''origin''
             in if origin_entries \<noteq> [] \<and> im_matched (match_subject a (ii_subject inp) origin_entries ctx) then True
                else
                  (let current_entries = normalize_subject_identifiers a inp (ii_subject inp) ctx ''current''
                   in if current_entries = [] then False
                      else im_matched (match_subject a origin current_entries ctx))))"

section \<open>Access groups\<close>

record group_resolution =
  gr_normalized :: "redacted_entry list"
  gr_invalid :: "entry_diagnostic list"
  gr_disabled :: "entry_diagnostic list"
  gr_matches :: "ingress_match list"
  gr_groups :: access_group_facts

fun add_group_problem :: "group_problem \<Rightarrow> string \<Rightarrow> access_group_facts \<Rightarrow> access_group_facts" where
  "add_group_problem GroupMissing n g = g\<lparr>ag_missing := ag_missing g @ [n]\<rparr>"
| "add_group_problem GroupUnsupported n g = g\<lparr>ag_unsupported := ag_unsupported g @ [n]\<rparr>"
| "add_group_problem GroupFailed n g = g\<lparr>ag_failed := ag_failed g @ [n]\<rparr>"

definition add_group_match :: "string \<Rightarrow> ingress_match \<Rightarrow> group_resolution \<Rightarrow> group_resolution" where
  "add_group_match n m r =
     r\<lparr>gr_matches := gr_matches r @ [m], gr_groups := (gr_groups r)\<lparr>ag_matched := ag_matched (gr_groups r) @ [n]\<rparr>\<rparr>"

text \<open>One turn of the loop over the referenced groups.\<close>

definition resolve_access_group ::
    "adapter \<Rightarrow> ingress_input \<Rightarrow> match_context \<Rightarrow> string \<Rightarrow> group_resolution \<Rightarrow> group_resolution" where
  "resolve_access_group a inp ctx n r =
     (case js_get (access_group_fact_by_name (ii_membership inp)) n of
        Some (FactMatched _ _ ids) \<Rightarrow> add_group_match n \<lparr>im_matched = True, im_ids = ids\<rparr> r
      | Some (FactProblem pk _ _ _ _) \<Rightarrow> r\<lparr>gr_groups := add_group_problem pk n (gr_groups r)\<rparr>
      | Some (FactNotMatched _ _) \<Rightarrow> r
      | None \<Rightarrow>
          (case js_get (ii_access_groups inp) n of
             None \<Rightarrow> r\<lparr>gr_groups := add_group_problem GroupMissing n (gr_groups r)\<rparr>
           | Some (DiscordAudience _ _) \<Rightarrow> r\<lparr>gr_groups := add_group_problem GroupUnsupported n (gr_groups r)\<rparr>
           | Some (MessageSenders _) \<Rightarrow>
               (let m = normalize_and_match a (ii_subject inp) (ii_account_id inp) (group_sender_entries inp n) ctx;
                    r1 = r\<lparr>gr_normalized := gr_normalized r @ me_normalized m, gr_invalid := gr_invalid r @ me_invalid m,
                           gr_disabled := gr_disabled r @ me_disabled m\<rparr>
                in if im_matched (me_match m) then add_group_match n (me_match m) r1 else r1)))"

definition resolve_access_group_entries ::
    "adapter \<Rightarrow> ingress_input \<Rightarrow> match_context \<Rightarrow> string list \<Rightarrow> group_resolution" where
  "resolve_access_group_entries a inp ctx referenced =
     fold (resolve_access_group a inp ctx) referenced
       \<lparr>gr_normalized = [], gr_invalid = [], gr_disabled = [], gr_matches = [],
        gr_groups = \<lparr>ag_referenced = referenced, ag_matched = [], ag_missing = [], ag_unsupported = [], ag_failed = []\<rparr>\<rparr>"

section \<open>The state\<close>

definition resolve_ingress_allowlist :: "adapter \<Rightarrow> ingress_input \<Rightarrow> item list option \<Rightarrow> match_context \<Rightarrow> ingress_allowlist" where
  "resolve_ingress_allowlist a inp raw ctx =
     (let entries = normalize_string_entries (case raw of Some xs \<Rightarrow> xs | None \<Rightarrow> []);
          direct_entries = direct_allowlist_entries entries;
          direct = normalize_and_match a (ii_subject inp) (ii_account_id inp) direct_entries ctx;
          groups = resolve_access_group_entries a inp ctx (referenced_access_groups entries);
          match = merge_matches (me_match direct # gr_matches groups)
      in \<lparr>ia_raw_count = length entries,
          ia_normalized = me_normalized direct @ gr_normalized groups,
          ia_invalid = merge_diagnostics [me_invalid direct, gr_invalid groups],
          ia_disabled = merge_diagnostics [me_disabled direct, gr_disabled groups],
          ia_matched_ids = im_ids match,
          ia_configured = (entries \<noteq> []),
          ia_matchable = (me_normalized direct \<noteq> [] \<or> gr_normalized groups \<noteq> []),
          ia_wildcard = (''*'' \<in> set direct_entries),
          ia_groups = gr_groups groups,
          ia_match = match\<rparr>)"

definition route_before :: "(string \<Rightarrow> string \<Rightarrow> bool) \<Rightarrow> route_facts \<Rightarrow> route_facts \<Rightarrow> bool" where
  "route_before le x y \<longleftrightarrow> rf_precedence x < rf_precedence y \<or> rf_precedence x = rf_precedence y \<and> le (rf_id x) (rf_id y)"

fun insert_route :: "(string \<Rightarrow> string \<Rightarrow> bool) \<Rightarrow> route_facts \<Rightarrow> route_facts list \<Rightarrow> route_facts list" where
  "insert_route le x [] = [x]"
| "insert_route le x (y # ys) = (if route_before le x y then x # y # ys else y # insert_route le x ys)"

definition sort_routes :: "(string \<Rightarrow> string \<Rightarrow> bool) \<Rightarrow> route_facts list \<Rightarrow> route_facts list" where
  "sort_routes le rs = foldr (insert_route le) rs []"

definition route_sender_allow_from :: "ingress_input \<Rightarrow> route_facts \<Rightarrow> item list option" where
  "route_sender_allow_from inp r =
     (case rf_senders r of
        Some xs \<Rightarrow> Some xs
      | None \<Rightarrow> (case rf_source r of
                   Some EffectiveDm \<Rightarrow> ii_dm inp
                 | Some EffectiveGroup \<Rightarrow> ii_group inp
                 | None \<Rightarrow> None))"

definition resolve_route_facts :: "(string \<Rightarrow> string \<Rightarrow> bool) \<Rightarrow> adapter \<Rightarrow> ingress_input \<Rightarrow> ingress_route list" where
  "resolve_route_facts le a inp =
     map (\<lambda>r. \<lparr>rr_id = rf_id r, rr_kind = rf_kind r, rr_gate = rf_gate r, rr_effect = rf_effect r,
               rr_precedence = rf_precedence r, rr_sender_policy = rf_sender_policy r, rr_match = rf_match r,
               rr_senders = map_option (\<lambda>xs. resolve_ingress_allowlist a inp (Some xs) RouteContext)
                 (route_sender_allow_from inp r)\<rparr>)
       (sort_routes le (ii_routes inp))"

definition resolve_channel_ingress_state :: "(string \<Rightarrow> string \<Rightarrow> bool) \<Rightarrow> adapter \<Rightarrow> ingress_input \<Rightarrow> ingress_state" where
  "resolve_channel_ingress_state le a inp =
     \<lparr>is_channel_id = ii_channel_id inp, is_account_id = ii_account_id inp, is_conversation = ii_conversation inp,
      is_event = \<lparr>ie_kind = ev_kind (ii_event inp), ie_auth_mode = ev_auth_mode (ii_event inp),
        ie_may_pair = ev_may_pair (ii_event inp), ie_has_origin = (ev_origin (ii_event inp) \<noteq> None),
        ie_origin_matched = origin_subject_matched a inp\<rparr>,
      is_mentions = ii_mentions inp,
      is_routes = resolve_route_facts le a inp,
      is_dm = resolve_ingress_allowlist a inp (ii_dm inp) DmContext,
      is_pairing_store = resolve_ingress_allowlist a inp (ii_pairing_store inp) DmContext,
      is_group = resolve_ingress_allowlist a inp (ii_group inp) GroupContext,
      is_command_owner = resolve_ingress_allowlist a inp (ii_command_owner inp) CommandContext,
      is_command_group = resolve_ingress_allowlist a inp (ii_command_group inp) CommandContext\<rparr>"

end
