(* ===== verification/Ingress_Identity.thy ===== *)
theory Ingress_Identity
  imports Ingress_State
begin

text \<open>
  Identity descriptors and the adapter made from one: \<open>channels/message-access/runtime-identity.ts\<close>. A
  descriptor's hooks are functions; a hook that is not given is \<open>None\<close>. \<open>expectDefined(fields[0])\<close> never fails:
  the primary field is always there.
\<close>

section \<open>Descriptors\<close>

datatype danger = DangerFlag bool | DangerHook "string \<Rightarrow> bool"

record identity_field =
  fd_key :: "string option"
  fd_kind :: "identifier_kind option"
  fd_normalize :: "(string \<Rightarrow> string option) option"
  fd_normalize_entry :: "(string \<Rightarrow> string option) option"
  fd_normalize_subject :: "(string \<Rightarrow> string option) option"
  fd_dangerous :: danger
  fd_sensitivity :: "sensitivity option"

text \<open>A field with its key and kind resolved.\<close>

record resolved_field =
  sf_key :: string
  sf_kind :: identifier_kind
  sf_field :: identity_field

record identity =
  id_primary :: identity_field
  id_aliases :: "(string \<times> identity_field) list"
  id_is_wildcard :: "(string \<Rightarrow> bool) option"
  id_match_entry :: "(ingress_subject \<Rightarrow> normalized_entry \<Rightarrow> match_context \<Rightarrow> bool option) option"
  id_entry_id :: "(string \<Rightarrow> nat \<Rightarrow> string \<Rightarrow> nat \<Rightarrow> string) option"

text \<open>The descriptor of a channel with one stable id: a field, and the rest of the descriptor.\<close>

definition define_stable_identity ::
    "identity_field \<Rightarrow> (string \<times> identity_field) list \<Rightarrow> (string \<Rightarrow> bool) option \<Rightarrow>
     (ingress_subject \<Rightarrow> normalized_entry \<Rightarrow> match_context \<Rightarrow> bool option) option \<Rightarrow>
     string option \<Rightarrow> (string \<Rightarrow> nat \<Rightarrow> string \<Rightarrow> nat \<Rightarrow> string) option \<Rightarrow> identity" where
  "define_stable_identity field aliases wildcard hook id_prefix entry_id =
     \<lparr>id_primary = field, id_aliases = aliases, id_is_wildcard = wildcard, id_match_entry = hook,
      id_entry_id = (case entry_id of
        Some f \<Rightarrow> Some f
      | None \<Rightarrow> (case id_prefix of
                   Some p \<Rightarrow> if p \<noteq> [] then Some (\<lambda>e i k j. p @ ''-'' @ digits_of (i + 1)) else None
                 | None \<Rightarrow> None))\<rparr>"

datatype field_mode = EntryMode | SubjectMode

definition normalize_field_value :: "resolved_field \<Rightarrow> string \<Rightarrow> field_mode \<Rightarrow> string option" where
  "normalize_field_value f v mode =
     (let specific = (if mode = EntryMode then fd_normalize_entry (sf_field f) else fd_normalize_subject (sf_field f));
          nrm = (case specific of Some g \<Rightarrow> g
                  | None \<Rightarrow> (case fd_normalize (sf_field f) of Some g \<Rightarrow> g | None \<Rightarrow> Some))
      in case nrm v of
           None \<Rightarrow> None
         | Some t \<Rightarrow> (let u = js_trim t in if u \<noteq> [] then Some u else None))"

fun danger_of :: "danger \<Rightarrow> string \<Rightarrow> bool" where
  "danger_of (DangerFlag b) v = b"
| "danger_of (DangerHook h) v = h v"

definition field_dangerous :: "resolved_field \<Rightarrow> string \<Rightarrow> bool" where
  "field_dangerous f v = danger_of (fd_dangerous (sf_field f)) v"

definition primary_field :: "identity \<Rightarrow> resolved_field" where
  "primary_field idy =
     \<lparr>sf_key = (case fd_key (id_primary idy) of Some k \<Rightarrow> k | None \<Rightarrow> ''stableId''),
      sf_kind = (case fd_kind (id_primary idy) of Some k \<Rightarrow> k | None \<Rightarrow> StableId),
      sf_field = id_primary idy\<rparr>"

definition identity_fields :: "identity \<Rightarrow> resolved_field list" where
  "identity_fields idy =
     primary_field idy #
     map (\<lambda>(k, f). \<lparr>sf_key = k, sf_kind = (case fd_kind f of Some kd \<Rightarrow> kd | None \<Rightarrow> PluginKind k), sf_field = f\<rparr>)
       (id_aliases idy)"

fun kind_text :: "identifier_kind \<Rightarrow> string" where
  "kind_text StableId = ''stable-id''"
| "kind_text Username = ''username''"
| "kind_text Email = ''email''"
| "kind_text Phone = ''phone''"
| "kind_text RoleKind = ''role''"
| "kind_text (PluginKind k) = ''plugin:'' @ k"

definition identity_match_key :: "identifier_kind \<Rightarrow> string \<Rightarrow> string" where
  "identity_match_key k v = kind_text k @ '':'' @ v"

section \<open>The adapter\<close>

definition adapter_entry ::
    "identity \<Rightarrow> resolved_field \<Rightarrow> nat \<Rightarrow> string \<Rightarrow> nat \<Rightarrow> string \<Rightarrow> string option \<Rightarrow> normalized_entry" where
  "adapter_entry idy f field_index entry entry_index v fallback_suffix =
     \<lparr>en_id = (case id_entry_id idy of
         Some g \<Rightarrow> g entry entry_index (sf_key f) field_index
       | None \<Rightarrow> ''entry-'' @ digits_of (entry_index + 1) @ '':'' @ (case fallback_suffix of Some x \<Rightarrow> x | None \<Rightarrow> sf_key f)),
      en_kind = sf_kind f, en_dangerous = field_dangerous f entry,
      en_sensitivity = fd_sensitivity (sf_field f), en_value = v\<rparr>"

definition is_wildcard_entry :: "identity \<Rightarrow> string \<Rightarrow> bool" where
  "is_wildcard_entry idy e = (case id_is_wildcard idy of Some w \<Rightarrow> w e | None \<Rightarrow> e = ''*'')"

definition matchable_entries :: "identity \<Rightarrow> nat \<Rightarrow> string \<Rightarrow> normalized_entry list" where
  "matchable_entries idy i e =
     (if is_wildcard_entry idy e then [adapter_entry idy (primary_field idy) 0 e i ''*'' (Some ''wildcard'')]
      else concat (map (\<lambda>(j, f).
             case normalize_field_value f e EntryMode of
               None \<Rightarrow> []
             | Some v \<Rightarrow> [adapter_entry idy f j e i v None]) (enumerate 0 (identity_fields idy))))"

definition identity_normalize_entries :: "identity \<Rightarrow> string list \<Rightarrow> normalize_result" where
  "identity_normalize_entries idy es =
     \<lparr>nr_matchable = concat (map (\<lambda>(i, e). matchable_entries idy i e) (enumerate 0 es)), nr_invalid = [], nr_disabled = []\<rparr>"

definition subject_keys :: "identity \<Rightarrow> ingress_subject \<Rightarrow> string list" where
  "subject_keys idy subject =
     concat (map (\<lambda>ident.
       case find (\<lambda>f. sf_kind f = id_kind ident) (identity_fields idy) of
         None \<Rightarrow> []
       | Some f \<Rightarrow> (case normalize_field_value f (id_value ident) SubjectMode of
                      Some v \<Rightarrow> [identity_match_key (id_kind ident) v] | None \<Rightarrow> [])) subject)"

definition entry_matches :: "identity \<Rightarrow> ingress_subject \<Rightarrow> match_context \<Rightarrow> normalized_entry \<Rightarrow> bool" where
  "entry_matches idy subject ctx e =
     (let fallback = (en_value e = ''*'' \<or> identity_match_key (en_kind e) (en_value e) \<in> set (subject_keys idy subject))
      in case id_match_entry idy of
           None \<Rightarrow> fallback
         | Some hook \<Rightarrow> (case hook subject e ctx of Some b \<Rightarrow> b | None \<Rightarrow> fallback))"

definition identity_match_subject :: "identity \<Rightarrow> ingress_subject \<Rightarrow> normalized_entry list \<Rightarrow> match_context \<Rightarrow> ingress_match" where
  "identity_match_subject idy subject es ctx =
     (let ids = map en_id (filter (entry_matches idy subject ctx) es)
      in \<lparr>im_matched = (ids \<noteq> []), im_ids = ids\<rparr>)"

definition create_identity_adapter :: "identity \<Rightarrow> adapter" where
  "create_identity_adapter idy =
     \<lparr>normalize_entries = (\<lambda>es ctx account_id. identity_normalize_entries idy es),
      match_subject = identity_match_subject idy\<rparr>"

record subject_input =
  si_stable_id :: "item option"
  si_aliases :: "(string, item) js_map"

definition subject_identifier :: "nat \<Rightarrow> resolved_field \<Rightarrow> subject_input \<Rightarrow> match_material list" where
  "subject_identifier i f inp =
     (case (if i = 0 then si_stable_id inp else js_get (si_aliases inp) (sf_key f)) of
        None \<Rightarrow> []
      | Some raw \<Rightarrow>
          [\<lparr>id_opaque = sf_key f, id_kind = sf_kind f, id_value = item_text raw,
            id_dangerous = field_dangerous f (item_text raw), id_sensitivity = fd_sensitivity (sf_field f)\<rparr>])"

definition create_identity_subject :: "identity \<Rightarrow> subject_input \<Rightarrow> ingress_subject" where
  "create_identity_subject idy inp =
     concat (map (\<lambda>(i, f). subject_identifier i f inp) (enumerate 0 (identity_fields idy)))"

end
