(* ===== verification/Ingress_Runtime.thy ===== *)
theory Ingress_Runtime
  imports Ingress_Decision Ingress_Identity
begin

text \<open>
  The runtime resolver, \<open>channels/message-access/runtime.ts\<close>, with the effective allowlists
  (\<open>effective-allow-from.ts\<close>), the pairing-store read (\<open>store-allow-from.ts\<close>), the audit of direct
  allowlists (\<open>dm-allow-state.ts\<close>) and dynamic access groups (\<open>runtime-access-groups.ts\<close>). A callback that
  may reject is a function into an option, \<open>None\<close> its rejection; the pairing store read by default is such a
  parameter too.
\<close>

section \<open>Effective allowlists\<close>

definition items_of :: "item list option \<Rightarrow> item list" where
  "items_of v = (case v of Some xs \<Rightarrow> xs | None \<Rightarrow> [])"

definition effective_allow_from_lists ::
    "item list option \<Rightarrow> item list option \<Rightarrow> item list option \<Rightarrow> dm_policy option \<Rightarrow> bool option \<Rightarrow> string list \<times> string list" where
  "effective_allow_from_lists allow_from group_allow_from store_allow_from pol fallback =
     (normalize_string_entries (map Text (merge_dm_allow_from_sources allow_from store_allow_from pol)),
      normalize_string_entries (map Text (resolve_group_allow_from_sources allow_from group_allow_from fallback)))"

type_synonym store_reader = "string \<Rightarrow> string \<Rightarrow> dm_policy \<Rightarrow> item list option option"

text \<open>\<open>readChannelIngressStoreAllowFromForDmPolicy\<close>; \<open>read\<close> is the given reader or the default store.\<close>

definition read_store_for_dm_policy ::
    "(string \<Rightarrow> string \<Rightarrow> string list option) \<Rightarrow> string \<Rightarrow> string \<Rightarrow> dm_policy option \<Rightarrow> bool option \<Rightarrow> string list" where
  "read_store_for_dm_policy read provider account_id pol should_read =
     (if should_read = Some False \<or> pol = Some DmAllowlist \<or> pol = Some DmOpen then []
      else case read provider account_id of Some xs \<Rightarrow> xs | None \<Rightarrow> [])"

record dm_audit =
  da_config :: "string list"
  da_wildcard :: bool
  da_count :: nat
  da_multi_user :: bool

definition resolve_dm_allow_audit_state ::
    "(string \<Rightarrow> string \<Rightarrow> string list option) \<Rightarrow> (string \<Rightarrow> string) option \<Rightarrow> string \<Rightarrow> string \<Rightarrow>
     item list option \<Rightarrow> dm_policy option \<Rightarrow> dm_audit" where
  "resolve_dm_allow_audit_state read nrm provider account_id allow_from pol =
     (let config = normalize_string_entries (items_of allow_from);
          wildcard = (''*'' \<in> set config);
          store = read_store_for_dm_policy read provider account_id pol None;
          nrm' = (case nrm of Some f \<Rightarrow> f | None \<Rightarrow> (\<lambda>s. s));
          cfg = normalize_string_entries (map (\<lambda>s. Text (nrm' s)) (filter (\<lambda>s. s \<noteq> ''*'') config));
          st = normalize_string_entries (map (\<lambda>s. Text (nrm' s)) store);
          count = length (unique_strings (cfg @ st))
      in \<lparr>da_config = config, da_wildcard = wildcard, da_count = count, da_multi_user = (wildcard \<or> count > 1)\<rparr>)"

section \<open>Access groups at run time\<close>

definition access_group_names :: "item list \<Rightarrow> string list" where
  "access_group_names es = unique_strings (List.map_filter (\<lambda>e. parse_access_group_entry (item_text e)) es)"

definition all_referenced_access_group_names :: "item list list \<Rightarrow> string list" where
  "all_referenced_access_group_names gs = unique_strings (concat (map access_group_names gs))"

definition normalize_effective_entries :: "adapter \<Rightarrow> string \<Rightarrow> item list \<Rightarrow> match_context \<Rightarrow> string list" where
  "normalize_effective_entries a account_id entries ctx =
     (let raw = normalize_string_entries entries;
          grp = filter (\<lambda>e. parse_access_group_entry e \<noteq> None) raw;
          direct = filter (\<lambda>e. parse_access_group_entry e = None) raw
      in if direct = [] then grp
         else unique_strings (grp @ map en_value (nr_matchable (normalize_entries a direct ctx account_id))))"

text \<open>A resolver answers, or fails (\<open>None\<close>).\<close>

type_synonym membership_resolver = "string \<Rightarrow> access_group \<Rightarrow> string \<Rightarrow> string \<Rightarrow> subject_input \<Rightarrow> bool option"

definition runtime_membership_fact ::
    "membership_resolver \<Rightarrow> string \<Rightarrow> string \<Rightarrow> subject_input \<Rightarrow> string \<Rightarrow> access_group \<Rightarrow> membership_fact" where
  "runtime_membership_fact resolver channel_id account_id subject n g =
     (case resolver n g channel_id account_id subject of
        Some True \<Rightarrow> FactMatched n DynamicFact [''access-group:'' @ n]
      | Some False \<Rightarrow> FactNotMatched n DynamicFact
      | None \<Rightarrow> FactProblem GroupFailed n DynamicFact AccessGroupFailed (Some (''access-group:'' @ n)))"

definition runtime_membership_facts ::
    "membership_resolver option \<Rightarrow> (string, access_group) js_map \<Rightarrow> string \<Rightarrow> string \<Rightarrow> subject_input \<Rightarrow> string list \<Rightarrow> membership_fact list" where
  "runtime_membership_facts resolver groups channel_id account_id subject names =
     (case resolver of
        None \<Rightarrow> []
      | Some f \<Rightarrow>
          concat (map (\<lambda>n. case js_get groups n of
              Some (DiscordAudience g c) \<Rightarrow> [runtime_membership_fact f channel_id account_id subject n (DiscordAudience g c)]
            | _ \<Rightarrow> []) names))"

section \<open>Parameters and presets\<close>

record command_input = command_policy +
  ci_owner_allow_from :: "item list option"
  ci_group_owner_none :: bool
  ci_direct_group_effective :: bool
  ci_group_fallback :: "bool option"

record route_descriptor =
  ro_id :: string
  ro_kind :: "route_kind option"
  ro_configured :: "bool option"
  ro_matched :: "bool option"
  ro_allowed :: "bool option"
  ro_enabled :: "bool option"
  ro_precedence :: "int option"
  ro_sender_policy :: "route_sender_policy option"
  ro_senders :: "item list option"
  ro_source :: "sender_source option"
  ro_match_id :: "string option"
  ro_block_reason :: "string option"

record ingress_params =
  pa_channel_id :: string
  pa_account_id :: string
  pa_identity :: identity
  pa_subject :: subject_input
  pa_conversation :: conversation_kind
  pa_event :: event_input
  pa_policy :: ingress_policy
  pa_allow_from :: "item list option"
  pa_group_allow_from :: "item list option"
  pa_routes :: "route_descriptor list"
  pa_route_facts :: "route_facts list"
  pa_access_groups :: "(string, access_group) js_map"
  pa_membership :: "membership_fact list"
  pa_resolver :: "membership_resolver option"
  pa_matched_entry :: "item option"
  pa_fallback_applied :: "bool option"
  pa_mentions :: "mention_facts option"
  pa_reader :: "store_reader option"
  pa_default_store :: bool
  pa_command :: "command_input option"

definition should_read_store :: "conversation_kind \<Rightarrow> dm_policy \<Rightarrow> bool" where
  "should_read_store c pol \<longleftrightarrow> c = DirectConversation \<and> pol \<noteq> DmAllowlist \<and> pol \<noteq> DmOpen"

definition read_store_allow_from :: "(string \<Rightarrow> string \<Rightarrow> string list option) \<Rightarrow> ingress_params \<Rightarrow> string \<Rightarrow> item list" where
  "read_store_allow_from default_store p channel_id =
     (if \<not> should_read_store (pa_conversation p) (ip_dm (pa_policy p)) then []
      else case pa_reader p of
             Some read \<Rightarrow> (case read channel_id (pa_account_id p) (ip_dm (pa_policy p)) of
                             Some (Some xs) \<Rightarrow> xs | Some None \<Rightarrow> [] | None \<Rightarrow> [])
           | None \<Rightarrow> if pa_default_store p
                     then map Text (read_store_for_dm_policy default_store channel_id (pa_account_id p) (Some (ip_dm (pa_policy p))) None)
                     else [])"

text \<open>\<open>normalizeChannelId\<close> throws on a blank id.\<close>

definition normalize_channel_id :: "string \<Rightarrow> string option" where
  "normalize_channel_id i = (let t = js_trim i in if t = [] then None else Some t)"

section \<open>Routes\<close>

text \<open>\<open>channelIngressRoutes\<close>: an omitted descriptor is \<open>None\<close>.\<close>

definition channel_ingress_routes :: "route_descriptor option list \<Rightarrow> route_descriptor list" where
  "channel_ingress_routes rs = List.map_filter (\<lambda>r. r) rs"

definition route_descriptor_match :: "route_descriptor \<Rightarrow> ingress_match" where
  "route_descriptor_match d =
     (let matched = (case ro_matched d of Some b \<Rightarrow> b
                     | None \<Rightarrow> (case ro_allowed d of Some b \<Rightarrow> b | None \<Rightarrow> ro_enabled d \<noteq> Some False))
      in \<lparr>im_matched = matched,
          im_ids = (if matched then (case ro_match_id d of Some i \<Rightarrow> if i \<noteq> [] then [i] else [] | None \<Rightarrow> []) else [])\<rparr>)"

text \<open>\<open>routeFact\<close> on the defaults of \<open>routeFactDefaults\<close>.\<close>

definition route_fact :: "route_descriptor \<Rightarrow> route_state \<Rightarrow> route_effect \<Rightarrow> route_facts" where
  "route_fact d st eff =
     \<lparr>rf_id = ro_id d, rf_kind = (case ro_kind d of Some k \<Rightarrow> k | None \<Rightarrow> RouteKind), rf_gate = st, rf_effect = eff,
      rf_precedence = (case ro_precedence d of Some n \<Rightarrow> n | None \<Rightarrow> 0),
      rf_sender_policy = (case ro_sender_policy d of Some x \<Rightarrow> x | None \<Rightarrow> InheritSenders),
      rf_senders = ro_senders d, rf_source = ro_source d, rf_match = Some (route_descriptor_match d)\<rparr>"

definition route_facts_from_descriptor :: "route_descriptor \<Rightarrow> route_facts list" where
  "route_facts_from_descriptor d =
     (if ro_configured d = Some False then []
      else if ro_enabled d = Some False then [route_fact d RouteDisabled RouteBlock]
      else
        (case ro_allowed d of
           Some ok \<Rightarrow> [route_fact d (if ok then RouteMatched else RouteNotMatched) (if ok then RouteAllow else RouteBlock)]
         | None \<Rightarrow>
             if ro_sender_policy d \<noteq> Some DenyWhenEmpty \<and> ro_senders d = None \<and> ro_source d = None then []
             else
               (let f = route_fact d RouteMatched RouteAllow
                in [if ro_sender_policy d = Some DenyWhenEmpty then f else f\<lparr>rf_kind := RouteSenderKind\<rparr>])))"

definition route_facts_from_descriptors :: "route_descriptor list \<Rightarrow> route_facts list" where
  "route_facts_from_descriptors ds = concat (map route_facts_from_descriptor ds)"

section \<open>Command sources\<close>

definition command_owner_allow_from :: "command_input option \<Rightarrow> bool \<Rightarrow> item list \<Rightarrow> string list \<Rightarrow> item list" where
  "command_owner_allow_from c in_group configured effective =
     (case Option.bind c ci_owner_allow_from of
        Some xs \<Rightarrow> xs
      | None \<Rightarrow> if \<not> in_group then map Text effective
                else if (case c of Some ci \<Rightarrow> ci_group_owner_none ci | None \<Rightarrow> False) then [] else configured)"

definition command_group_allow_from :: "command_input option \<Rightarrow> bool \<Rightarrow> string list \<Rightarrow> item list" where
  "command_group_allow_from c in_group effective =
     (if in_group then map Text effective
      else if (case c of Some ci \<Rightarrow> ci_direct_group_effective ci | None \<Rightarrow> False) then map Text effective else [])"

section \<open>Resolving one message\<close>

definition effective_ingress_policy :: "ingress_params \<Rightarrow> ingress_policy" where
  "effective_ingress_policy p =
     (case pa_command p of
        None \<Rightarrow> pa_policy p
      | Some c \<Rightarrow> (pa_policy p)\<lparr>ip_command := Some (command_policy.truncate c)\<rparr>)"

definition is_group_message :: "ingress_params \<Rightarrow> bool" where
  "is_group_message p \<longleftrightarrow> pa_conversation p \<noteq> DirectConversation"

definition ingress_input_of :: "(string \<Rightarrow> string \<Rightarrow> string list option) \<Rightarrow> ingress_params \<Rightarrow> string \<Rightarrow> ingress_input" where
  "ingress_input_of default_store p channel_id =
     (let routes = route_facts_from_descriptors (pa_routes p) @ pa_route_facts p;
          raw_allow = normalize_string_entries (items_of (pa_allow_from p));
          raw_store = normalize_string_entries (read_store_allow_from default_store p channel_id);
          raw_group = normalize_string_entries (items_of (pa_group_allow_from p));
          names = all_referenced_access_group_names
            ([map Text raw_allow, map Text raw_group, map Text raw_store,
              items_of (Option.bind (pa_command p) ci_owner_allow_from)] @ map (\<lambda>r. items_of (rf_senders r)) routes);
          raw_effective = effective_allow_from_lists (Some (map Text raw_allow)) (Some (map Text raw_group))
            (Some (map Text raw_store)) (Some (ip_dm (pa_policy p))) (ip_group_fallback (pa_policy p));
          raw_command_group = effective_allow_from_lists (Some (map Text raw_allow)) (Some (map Text raw_group)) None
            (Some (ip_dm (pa_policy p)))
            (case Option.bind (pa_command p) ci_group_fallback of Some b \<Rightarrow> Some b | None \<Rightarrow> ip_group_fallback (pa_policy p))
      in \<lparr>ii_channel_id = channel_id, ii_account_id = pa_account_id p,
          ii_subject = create_identity_subject (pa_identity p) (pa_subject p), ii_conversation = pa_conversation p,
          ii_access_groups = pa_access_groups p,
          ii_membership = runtime_membership_facts (pa_resolver p) (pa_access_groups p) channel_id (pa_account_id p)
            (pa_subject p) names @ pa_membership p,
          ii_routes = routes, ii_mentions = pa_mentions p, ii_event = pa_event p,
          ii_dm = Some (map Text raw_allow), ii_group = Some (map Text (snd raw_effective)),
          ii_command_owner = Some (command_owner_allow_from (pa_command p) (is_group_message p) (map Text raw_allow) (fst raw_effective)),
          ii_command_group = Some (command_group_allow_from (pa_command p) (is_group_message p) (snd raw_command_group)),
          ii_pairing_store = Some (map Text raw_store)\<rparr>)"

definition resolve_message_state ::
    "(string \<Rightarrow> string \<Rightarrow> bool) \<Rightarrow> (string \<Rightarrow> string \<Rightarrow> string list option) \<Rightarrow> ingress_params \<Rightarrow> string \<Rightarrow> ingress_state" where
  "resolve_message_state le default_store p channel_id =
     resolve_channel_ingress_state le (create_identity_adapter (pa_identity p)) (ingress_input_of default_store p channel_id)"

section \<open>Projections\<close>

definition find_ingress_gate :: "ingress_decision \<Rightarrow> gate_phase \<Rightarrow> gate_kind \<Rightarrow> gate option" where
  "find_ingress_gate d ph k = find (\<lambda>g. ga_phase g = ph \<and> ga_kind g = k) (de_gates d)"

definition find_sender_gate :: "ingress_decision \<Rightarrow> bool \<Rightarrow> gate option" where
  "find_sender_gate d in_group = find_ingress_gate d SenderPhase (if in_group then GroupSenderGate else DmSenderGate)"

record sender_access =
  sa_allowed :: bool
  sa_verdict :: verdict
  sa_reason :: reason
  sa_gate :: "gate option"
  sa_effective :: "string list"
  sa_effective_group :: "string list"
  sa_fallback_applied :: bool

definition project_sender_access ::
    "ingress_decision \<Rightarrow> bool \<Rightarrow> string list \<Rightarrow> string list \<Rightarrow> bool option \<Rightarrow> sender_access" where
  "project_sender_access d in_group effective effective_group fallback =
     (let g = find_sender_gate d in_group;
          r = (if g = None \<and> in_group \<and> de_reason d = RouteSenderEmpty \<and> effective_group = []
               then GroupPolicyEmptyAllowlist
               else case g of Some x \<Rightarrow> ga_reason x | None \<Rightarrow> de_reason d);
          v = (if r = DmPolicyPairingRequired then PairingVerdict
               else if (case g of Some x \<Rightarrow> ga_allowed x | None \<Rightarrow> False) then AllowVerdict else BlockVerdict)
      in \<lparr>sa_allowed = (v = AllowVerdict), sa_verdict = v, sa_reason = r, sa_gate = g,
          sa_effective = effective, sa_effective_group = effective_group,
          sa_fallback_applied = (fallback = Some True)\<rparr>)"

record route_access =
  ra_allowed :: bool
  ra_reason_code :: "reason option"
  ra_reason :: "string option"
  ra_gate :: "gate option"

text \<open>A present but empty block reason counts as none.\<close>

definition block_reason :: "route_descriptor \<Rightarrow> string option" where
  "block_reason d = (case ro_block_reason d of Some r \<Rightarrow> if r \<noteq> [] then Some r else None | None \<Rightarrow> None)"

definition route_descriptor_for_gate :: "route_descriptor list \<Rightarrow> gate \<Rightarrow> route_descriptor option" where
  "route_descriptor_for_gate ds g =
     (let base = (if suffix '':sender'' (ga_id g) then take (length (ga_id g) - 7) (ga_id g) else ga_id g)
      in find (\<lambda>d. ro_id d = ga_id g \<or> ro_id d = base) ds)"

definition project_route_access :: "ingress_decision \<Rightarrow> route_descriptor list \<Rightarrow> route_access" where
  "project_route_access d ds =
     (case find (\<lambda>g. ga_phase g = RoutePhase \<and> ga_effect g = BlockDispatch) (de_gates d) of
        Some g \<Rightarrow> \<lparr>ra_allowed = ga_allowed g, ra_reason_code = Some (ga_reason g),
                   ra_reason = Option.bind (route_descriptor_for_gate ds g) block_reason, ra_gate = Some g\<rparr>
      | None \<Rightarrow>
          (case (find (\<lambda>x. ro_sender_policy x = Some ReplaceSenders \<and> block_reason x \<noteq> None) ds,
                 find (\<lambda>g. ga_phase g = SenderPhase \<and> ga_effect g = BlockDispatch) (de_gates d)) of
             (Some x, Some g) \<Rightarrow> \<lparr>ra_allowed = False, ra_reason_code = Some (ga_reason g), ra_reason = ro_block_reason x, ra_gate = Some g\<rparr>
           | _ \<Rightarrow>
               (case find (\<lambda>g. ga_phase g = RoutePhase) (de_gates d) of
                  Some g \<Rightarrow> \<lparr>ra_allowed = ga_allowed g, ra_reason_code = Some (ga_reason g), ra_reason = None, ra_gate = Some g\<rparr>
                | None \<Rightarrow> \<lparr>ra_allowed = True, ra_reason_code = None, ra_reason = None, ra_gate = None\<rparr>)))"

record command_access =
  ca_requested :: bool
  ca_authorized :: bool
  ca_should_block :: bool
  ca_reason :: reason
  ca_gate :: "gate option"

definition project_command_access :: "ingress_decision \<Rightarrow> ingress_policy \<Rightarrow> command_access" where
  "project_command_access d p =
     (let g = find_ingress_gate d CommandPhase CommandGateKind
      in \<lparr>ca_requested = (ip_command p \<noteq> None),
          ca_authorized = (ip_command p \<noteq> None \<and> (case g of Some x \<Rightarrow> ga_allowed x | None \<Rightarrow> False)),
          ca_should_block = (case Option.bind g ga_command of Some c \<Rightarrow> cf_should_block c | None \<Rightarrow> False),
          ca_reason = (case g of Some x \<Rightarrow> ga_reason x | None \<Rightarrow> de_reason d), ca_gate = g\<rparr>)"

record activation_access =
  aa_ran :: bool
  aa_allowed :: bool
  aa_should_skip :: bool
  aa_reason :: reason
  aa_effective :: "bool option"
  aa_bypass :: "bool option"
  aa_gate :: "gate option"

definition project_activation_access :: "ingress_decision \<Rightarrow> activation_access" where
  "project_activation_access d =
     (let g = find_ingress_gate d ActivationPhase MentionGateKind;
          facts = Option.bind g ga_activation
      in \<lparr>aa_ran = (g \<noteq> None), aa_allowed = (case g of Some x \<Rightarrow> ga_allowed x | None \<Rightarrow> False),
          aa_should_skip = (case facts of Some f \<Rightarrow> at_should_skip f | None \<Rightarrow> False),
          aa_reason = (case g of Some x \<Rightarrow> ga_reason x | None \<Rightarrow> de_reason d),
          aa_effective = Option.bind facts at_effective, aa_bypass = Option.bind facts at_bypass, aa_gate = g\<rparr>)"

definition access_group_matched_entry :: "ingress_params \<Rightarrow> string option" where
  "access_group_matched_entry p =
     map_option item_text (case pa_matched_entry p of Some e \<Rightarrow> Some e | None \<Rightarrow> si_stable_id (pa_subject p))"

definition append_access_group_matched_entry :: "string list \<Rightarrow> ingress_allowlist \<Rightarrow> string option \<Rightarrow> string list" where
  "append_access_group_matched_entry entries a matched =
     (case matched of
        Some e \<Rightarrow> if e \<noteq> [] \<and> ag_matched (ia_groups a) \<noteq> [] then unique_strings (entries @ [e]) else entries
      | None \<Rightarrow> entries)"

record resolved_ingress =
  ri_state :: ingress_state
  ri_decision :: ingress_decision
  ri_sender :: sender_access
  ri_route :: route_access
  ri_command :: command_access
  ri_activation :: activation_access

definition base_effective_lists :: "(string \<Rightarrow> string \<Rightarrow> string list option) \<Rightarrow> ingress_params \<Rightarrow> string \<Rightarrow> string list \<times> string list" where
  "base_effective_lists default_store p channel_id =
     (let nrm = (\<lambda>es ctx. normalize_effective_entries (create_identity_adapter (pa_identity p)) (pa_account_id p)
                   (map Text (normalize_string_entries es)) ctx)
      in effective_allow_from_lists
           (Some (map Text (nrm (items_of (pa_allow_from p)) DmContext)))
           (Some (map Text (nrm (items_of (pa_group_allow_from p)) GroupContext)))
           (Some (map Text (nrm (read_store_allow_from default_store p channel_id) DmContext)))
           (Some (ip_dm (pa_policy p))) (ip_group_fallback (pa_policy p)))"

text \<open>\<open>None\<close> is the thrown error of a blank channel id.\<close>

definition resolve_channel_message_ingress ::
    "(string \<Rightarrow> string \<Rightarrow> bool) \<Rightarrow> (string \<Rightarrow> string \<Rightarrow> string list option) \<Rightarrow> ingress_params \<Rightarrow> resolved_ingress option" where
  "resolve_channel_message_ingress le default_store p =
     (case normalize_channel_id (pa_channel_id p) of
        None \<Rightarrow> None
      | Some channel_id \<Rightarrow>
          (let st = resolve_message_state le default_store p channel_id;
               pol = effective_ingress_policy p;
               d = decide_channel_ingress st pol;
               (effective, effective_group) = base_effective_lists default_store p channel_id;
               matched = access_group_matched_entry p
           in Some \<lparr>ri_state = st, ri_decision = d,
                ri_sender = project_sender_access d (is_group_message p)
                  (append_access_group_matched_entry effective (is_dm st) matched)
                  (append_access_group_matched_entry effective_group (is_group st) matched) (pa_fallback_applied p),
                ri_route = project_route_access d (pa_routes p),
                ri_command = project_command_access d pol,
                ri_activation = project_activation_access d\<rparr>))"

section \<open>Resolvers\<close>

text \<open>
  Presets leave fields out; a field given as \<open>undefined\<close> counts as left out. \<open>createChannelIngressResolver\<close>
  turns its base and the parameters of one message into the parameters of \<open>resolveChannelMessageIngress\<close>.
\<close>

record event_preset =
  ep_is_group :: "bool option"
  ep_kind :: "event_kind option"
  ep_auth_mode :: "auth_mode option"
  ep_may_pair :: "bool option"
  ep_origin :: "ingress_subject option"

definition override_with :: "'a option \<Rightarrow> 'a option \<Rightarrow> 'a option" where
  "override_with a b = (case a of Some x \<Rightarrow> Some x | None \<Rightarrow> b)"

definition or_default :: "'a option \<Rightarrow> 'a \<Rightarrow> 'a" where
  "or_default a d = (case a of Some x \<Rightarrow> x | None \<Rightarrow> d)"

text \<open>The spread of presets: later ones win.\<close>

definition override_preset :: "event_preset \<Rightarrow> event_preset \<Rightarrow> event_preset" where
  "override_preset a b =
     \<lparr>ep_is_group = override_with (ep_is_group b) (ep_is_group a), ep_kind = override_with (ep_kind b) (ep_kind a),
      ep_auth_mode = override_with (ep_auth_mode b) (ep_auth_mode a), ep_may_pair = override_with (ep_may_pair b) (ep_may_pair a),
      ep_origin = override_with (ep_origin b) (ep_origin a)\<rparr>"

definition channel_ingress_event :: "event_preset \<Rightarrow> event_input" where
  "channel_ingress_event e =
     \<lparr>ev_kind = or_default (ep_kind e) MessageEvent, ev_auth_mode = or_default (ep_auth_mode e) InboundAuth,
      ev_may_pair = or_default (ep_may_pair e) (\<not> or_default (ep_is_group e) False), ev_origin = ep_origin e\<rparr>"

record command_preset =
  pr_requested :: "bool option"
  pr_use_access_groups :: "bool option"
  pr_allow_text :: "bool option"
  pr_has_control :: "bool option"
  pr_off_mode :: "off_mode option"
  pr_owner_allow_from :: "item list option"
  pr_group_owner_none :: bool
  pr_direct_group_effective :: bool
  pr_group_fallback :: "bool option"

definition use_access_groups_from_config :: "bool option \<Rightarrow> bool" where
  "use_access_groups_from_config u = or_default u True"

definition channel_ingress_command :: "command_preset \<Rightarrow> command_input option" where
  "channel_ingress_command c =
     (if pr_requested c = Some False then None
      else Some \<lparr>cp_use_access_groups = Some (use_access_groups_from_config (pr_use_access_groups c)),
             cp_allow_text_commands = or_default (pr_allow_text c) False,
             cp_has_control_command = or_default (pr_has_control c) True, cp_off_mode = pr_off_mode c,
             ci_owner_allow_from = pr_owner_allow_from c, ci_group_owner_none = pr_group_owner_none c,
             ci_direct_group_effective = pr_direct_group_effective c, ci_group_fallback = pr_group_fallback c\<rparr>)"

text \<open>\<open>None\<close> is a command that is \<open>false\<close> or not given.\<close>

definition resolve_command_input :: "command_preset option \<Rightarrow> bool option \<Rightarrow> command_input option" where
  "resolve_command_input c use =
     (case c of None \<Rightarrow> None
      | Some x \<Rightarrow> channel_ingress_command (x\<lparr>pr_use_access_groups := override_with (pr_use_access_groups x) use\<rparr>))"

record resolver_base =
  rb_channel_id :: string
  rb_account_id :: string
  rb_identity :: identity
  rb_access_groups :: "(string, access_group) js_map option"
  rb_cfg_access_groups :: "(string, access_group) js_map option"
  rb_membership :: "membership_fact list"
  rb_resolver :: "membership_resolver option"
  rb_matched_entry :: "item option"
  rb_reader :: "store_reader option"
  rb_default_store :: bool
  rb_use_access_groups :: "bool option"
  rb_dm_policy :: "dm_policy option"
  rb_group_policy :: "group_policy option"
  rb_group_fallback :: "bool option"
  rb_mutable :: "mutable_matching option"

record message_input =
  mi_subject :: subject_input
  mi_conversation :: conversation_kind
  mi_event :: event_preset
  mi_dm_policy :: "dm_policy option"
  mi_group_policy :: "group_policy option"
  mi_group_fallback :: "bool option"
  mi_mutable :: "mutable_matching option"
  mi_activation :: "activation_policy option"
  mi_allow_from :: "item list option"
  mi_group_allow_from :: "item list option"
  mi_routes :: "route_descriptor list"
  mi_route_facts :: "route_facts list"
  mi_membership :: "membership_fact list"
  mi_fallback_applied :: "bool option"
  mi_mentions :: "mention_facts option"
  mi_command :: "command_preset option"

definition resolve_resolver_policy :: "resolver_base \<Rightarrow> message_input \<Rightarrow> ingress_policy" where
  "resolve_resolver_policy b m =
     \<lparr>ip_dm = or_default (override_with (mi_dm_policy m) (rb_dm_policy b)) DmPairing,
      ip_group = or_default (override_with (mi_group_policy m) (rb_group_policy b)) GroupDisabled,
      ip_group_fallback = override_with (mi_group_fallback m) (rb_group_fallback b),
      ip_mutable = override_with (mi_mutable m) (rb_mutable b), ip_activation = mi_activation m, ip_command = None\<rparr>"

definition resolver_params :: "resolver_base \<Rightarrow> message_input \<Rightarrow> event_preset \<Rightarrow> ingress_params" where
  "resolver_params b m defaults =
     (let in_group = (mi_conversation m \<noteq> DirectConversation);
          start = \<lparr>ep_is_group = Some in_group, ep_kind = None, ep_auth_mode = None, ep_may_pair = None, ep_origin = None\<rparr>
      in \<lparr>pa_channel_id = rb_channel_id b, pa_account_id = rb_account_id b, pa_identity = rb_identity b,
          pa_subject = mi_subject m, pa_conversation = mi_conversation m,
          pa_event = channel_ingress_event (override_preset (override_preset start defaults) (mi_event m)),
          pa_policy = resolve_resolver_policy b m, pa_allow_from = mi_allow_from m, pa_group_allow_from = mi_group_allow_from m,
          pa_routes = mi_routes m, pa_route_facts = mi_route_facts m,
          pa_access_groups = or_default (override_with (rb_access_groups b) (rb_cfg_access_groups b)) [],
          pa_membership = rb_membership b @ mi_membership m, pa_resolver = rb_resolver b,
          pa_matched_entry = rb_matched_entry b, pa_fallback_applied = mi_fallback_applied m,
          pa_mentions = mi_mentions m, pa_reader = rb_reader b, pa_default_store = rb_default_store b,
          pa_command = resolve_command_input (mi_command m)
            (Some (use_access_groups_from_config (rb_use_access_groups b)))\<rparr>)"

definition no_preset :: event_preset where
  "no_preset = \<lparr>ep_is_group = None, ep_kind = None, ep_auth_mode = None, ep_may_pair = None, ep_origin = None\<rparr>"

text \<open>The three operations of a resolver differ in the presets of their event.\<close>

datatype resolver_call = ResolveMessage | ResolveCommand | ResolveEvent

fun call_preset :: "resolver_call \<Rightarrow> event_preset" where
  "call_preset ResolveMessage = no_preset"
| "call_preset ResolveCommand = no_preset\<lparr>ep_auth_mode := Some CommandAuth, ep_may_pair := Some False\<rparr>"
| "call_preset ResolveEvent = no_preset\<lparr>ep_may_pair := Some False\<rparr>"

definition resolver_resolve ::
    "(string \<Rightarrow> string \<Rightarrow> bool) \<Rightarrow> (string \<Rightarrow> string \<Rightarrow> string list option) \<Rightarrow> resolver_base \<Rightarrow> resolver_call \<Rightarrow>
     message_input \<Rightarrow> resolved_ingress option" where
  "resolver_resolve le default_store b call m =
     resolve_channel_message_ingress le default_store (resolver_params b m (call_preset call))"

text \<open>\<open>resolveStableChannelMessageIngress\<close>: a resolver for a stable identity, used once.\<close>

definition resolve_stable_channel_message_ingress ::
    "(string \<Rightarrow> string \<Rightarrow> bool) \<Rightarrow> (string \<Rightarrow> string \<Rightarrow> string list option) \<Rightarrow> resolver_base \<Rightarrow>
     identity_field \<Rightarrow> (string \<times> identity_field) list \<Rightarrow> (string \<Rightarrow> bool) option \<Rightarrow>
     (ingress_subject \<Rightarrow> normalized_entry \<Rightarrow> match_context \<Rightarrow> bool option) option \<Rightarrow>
     string option \<Rightarrow> (string \<Rightarrow> nat \<Rightarrow> string \<Rightarrow> nat \<Rightarrow> string) option \<Rightarrow> message_input \<Rightarrow> resolved_ingress option" where
  "resolve_stable_channel_message_ingress le default_store b field aliases wildcard hook id_prefix entry_id m =
     resolver_resolve le default_store
       (b\<lparr>rb_identity := define_stable_identity field aliases wildcard hook id_prefix entry_id\<rparr>) ResolveMessage m"

end
