(* ===== verification/Ingress_Props.thy ===== *)
theory Ingress_Props
  imports Ingress_Decision_Props Ingress_Runtime
begin

text \<open>
  From allowlist text to admission. The locale \<open>naming_adapter\<close> is what the state resolver relies on of a
  channel adapter: an allowlist matches exactly when one of its entries names the subject. The adapter made
  from an identity descriptor without a match hook provides it.
\<close>

section \<open>The contract of an adapter\<close>

text \<open>Whether an access group admits the subject: by a membership fact, else by its static senders.\<close>

definition group_admits :: "(ingress_subject \<Rightarrow> string \<Rightarrow> bool) \<Rightarrow> ingress_input \<Rightarrow> string \<Rightarrow> bool" where
  "group_admits names inp n \<longleftrightarrow>
     (case js_get (access_group_fact_by_name (ii_membership inp)) n of
        Some (FactMatched _ _ _) \<Rightarrow> True
      | Some _ \<Rightarrow> False
      | None \<Rightarrow> (case js_get (ii_access_groups inp) n of
                   Some (MessageSenders ms) \<Rightarrow> \<exists>e \<in> set (group_sender_entries inp n). names (ii_subject inp) e
                 | _ \<Rightarrow> False))"

definition list_admits :: "(ingress_subject \<Rightarrow> string \<Rightarrow> bool) \<Rightarrow> ingress_input \<Rightarrow> string list \<Rightarrow> bool" where
  "list_admits names inp es \<longleftrightarrow>
     (\<exists>e \<in> set es. case parse_access_group_entry e of None \<Rightarrow> names (ii_subject inp) e | Some n \<Rightarrow> group_admits names inp n)"

lemma list_admits_split:
  "list_admits names inp es \<longleftrightarrow>
     (\<exists>e \<in> set es. parse_access_group_entry e = None \<and> names (ii_subject inp) e) \<or>
     (\<exists>e \<in> set es. \<exists>n. parse_access_group_entry e = Some n \<and> group_admits names inp n)"
proof -
  have "(case parse_access_group_entry e of None \<Rightarrow> names (ii_subject inp) e | Some n \<Rightarrow> group_admits names inp n) \<longleftrightarrow>
      parse_access_group_entry e = None \<and> names (ii_subject inp) e \<or>
      (\<exists>n. parse_access_group_entry e = Some n \<and> group_admits names inp n)" for e
    by (simp split: option.split)
  then show ?thesis unfolding list_admits_def by blast
qed

locale naming_adapter =
  fixes a :: adapter
    and names :: "ingress_subject \<Rightarrow> string \<Rightarrow> bool"
  assumes match_names: "im_matched (match_subject a subject (nr_matchable (normalize_entries a es ctx acc)) ctx) \<longleftrightarrow>
      (\<exists>e \<in> set es. names subject e)"
    and nothing_matchable: "nr_matchable (normalize_entries a es ctx acc) = [] \<Longrightarrow> e \<in> set es \<Longrightarrow> \<not> names subject e"
    and match_ids: "im_matched (match_subject a subject ns ctx) \<longleftrightarrow> im_ids (match_subject a subject ns ctx) \<noteq> []"
begin

lemma normalize_and_match_matched:
  "im_matched (me_match (normalize_and_match a subject acc es ctx)) \<longleftrightarrow> (\<exists>e \<in> set es. names subject e)"
  "im_matched (me_match (normalize_and_match a subject acc es ctx)) \<longleftrightarrow> im_ids (me_match (normalize_and_match a subject acc es ctx)) \<noteq> []"
proof -
  show "im_matched (me_match (normalize_and_match a subject acc es ctx)) \<longleftrightarrow> (\<exists>e \<in> set es. names subject e)"
    using nothing_matchable [of es ctx acc _ subject]
    by (auto simp: normalize_and_match_def Let_def empty_match_def match_names)
  show "im_matched (me_match (normalize_and_match a subject acc es ctx)) \<longleftrightarrow> im_ids (me_match (normalize_and_match a subject acc es ctx)) \<noteq> []"
    by (simp add: normalize_and_match_def Let_def empty_match_def match_ids)
qed

lemma resolve_access_group_match:
  "list_ex im_matched (gr_matches (resolve_access_group a inp ctx n r)) \<longleftrightarrow>
     list_ex im_matched (gr_matches r) \<or> group_admits names inp n"
  "\<forall>m \<in> set (gr_matches r). im_matched m \<Longrightarrow> \<forall>m \<in> set (gr_matches (resolve_access_group a inp ctx n r)). im_matched m"
  by (auto simp: resolve_access_group_def add_group_match_def group_admits_def Let_def normalize_and_match_matched(1)
      split: option.split membership_fact.split access_group.split)

lemma resolve_access_groups_match:
  "list_ex im_matched (gr_matches (fold (resolve_access_group a inp ctx) ns r)) \<longleftrightarrow>
     list_ex im_matched (gr_matches r) \<or> (\<exists>n \<in> set ns. group_admits names inp n)"
  "\<forall>m \<in> set (gr_matches r). im_matched m \<Longrightarrow>
     \<forall>m \<in> set (gr_matches (fold (resolve_access_group a inp ctx) ns r)). im_matched m"
proof (induction ns arbitrary: r)
  case (Cons n ns)
  { case 1 show ?case using Cons.IH(1) by (auto simp: resolve_access_group_match(1)) }
  { case 2 then show ?case using Cons.IH(2) [OF resolve_access_group_match(2)] by simp }
qed simp_all

text \<open>An allowlist matches exactly when one of its entries names the subject or a group it references admits it.\<close>

lemma allowlist_matched:
  "im_matched (ia_match (resolve_ingress_allowlist a inp raw ctx)) \<longleftrightarrow>
     list_admits names inp (normalize_string_entries (items_of raw))"
proof -
  let ?es = "normalize_string_entries (items_of raw)"
  let ?direct = "me_match (normalize_and_match a (ii_subject inp) (ii_account_id inp) (direct_allowlist_entries ?es) ctx)"
  let ?groups = "gr_matches (resolve_access_group_entries a inp ctx (referenced_access_groups ?es))"
  have groups: "list_ex im_matched ?groups \<longleftrightarrow> (\<exists>n \<in> set (referenced_access_groups ?es). group_admits names inp n)"
    by (simp add: resolve_access_group_entries_def resolve_access_groups_match(1))
  have all: "\<forall>m \<in> set ?groups. im_matched m"
    unfolding resolve_access_group_entries_def by (rule resolve_access_groups_match(2)) simp
  have "im_matched (merge_matches (?direct # ?groups)) \<longleftrightarrow> im_matched ?direct \<or> list_ex im_matched ?groups"
    using all normalize_and_match_matched(2) by (auto simp: merge_matches_def Let_def list_ex_iff)
  moreover have "n \<in> set (referenced_access_groups ?es) \<longleftrightarrow> (\<exists>e \<in> set ?es. parse_access_group_entry e = Some n)" for n
    by (force simp: referenced_access_groups_def List.map_filter_def)
  ultimately show ?thesis
    unfolding resolve_ingress_allowlist_def Let_def list_admits_split items_of_def [symmetric]
    by (auto simp: normalize_and_match_matched(1) groups direct_allowlist_entries_def)
qed

lemma allowlist_configured:
  "ia_configured (resolve_ingress_allowlist a inp raw ctx) \<longleftrightarrow> normalize_string_entries (items_of raw) \<noteq> []"
  "list_admits names inp (normalize_string_entries (items_of raw)) \<Longrightarrow> ia_configured (resolve_ingress_allowlist a inp raw ctx)"
  by (auto simp: resolve_ingress_allowlist_def Let_def items_of_def list_admits_def)

end

section \<open>Identity adapters\<close>

text \<open>An entry names a subject when it is the wildcard or one of its normal forms is one of the subject's.\<close>

definition entry_names :: "identity \<Rightarrow> ingress_subject \<Rightarrow> string \<Rightarrow> bool" where
  "entry_names idy subject e \<longleftrightarrow>
     is_wildcard_entry idy e \<or>
     (\<exists>f \<in> set (identity_fields idy).
        case normalize_field_value f e EntryMode of
          Some v \<Rightarrow> v = ''*'' \<or> identity_match_key (sf_kind f) v \<in> set (subject_keys idy subject)
        | None \<Rightarrow> False)"

definition hookless :: "identity \<Rightarrow> identity" where
  "hookless idy = idy\<lparr>id_match_entry := None\<rparr>"

lemma hookless_same:
  "is_wildcard_entry (hookless idy) = is_wildcard_entry idy" "identity_fields (hookless idy) = identity_fields idy"
  "subject_keys (hookless idy) = subject_keys idy" "entry_names (hookless idy) = entry_names idy"
  "id_match_entry (hookless idy) = None" "create_identity_subject (hookless idy) = create_identity_subject idy"
proof -
  show w: "is_wildcard_entry (hookless idy) = is_wildcard_entry idy"
    by (simp add: fun_eq_iff is_wildcard_entry_def hookless_def)
  show f: "identity_fields (hookless idy) = identity_fields idy"
    by (simp add: identity_fields_def primary_field_def hookless_def)
  show k: "subject_keys (hookless idy) = subject_keys idy" by (simp add: fun_eq_iff subject_keys_def f)
  show "entry_names (hookless idy) = entry_names idy" by (intro ext) (simp only: entry_names_def w f k)
  show "id_match_entry (hookless idy) = None" by (simp add: hookless_def)
  show "create_identity_subject (hookless idy) = create_identity_subject idy"
    by (simp add: fun_eq_iff create_identity_subject_def f)
qed

lemma snd_enumerate: "snd ` set (enumerate n xs) = set xs"
  by (metis list.set_map map_snd_enumerate)

lemma bex_snd: "(\<exists>(i, x) \<in> S. P x) \<longleftrightarrow> (\<exists>x \<in> snd ` S. P x)"
  by force

lemma bex_concat_map: "(\<exists>x \<in> set (concat (map g xs)). P x) \<longleftrightarrow> (\<exists>y \<in> set xs. \<exists>x \<in> set (g y). P x)"
  by auto

lemma adapter_entry_matches:
  "id_match_entry idy = None \<Longrightarrow>
   entry_matches idy subject ctx (adapter_entry idy f j e i v sx) \<longleftrightarrow>
     v = ''*'' \<or> identity_match_key (sf_kind f) v \<in> set (subject_keys idy subject)"
  by (simp add: entry_matches_def adapter_entry_def Let_def)

lemma matchable_entry_matches:
  assumes "id_match_entry idy = None"
  shows "(\<exists>x \<in> set (matchable_entries idy i e). entry_matches idy subject ctx x) \<longleftrightarrow> entry_names idy subject e"
proof (cases "is_wildcard_entry idy e")
  case True
  then show ?thesis by (simp add: matchable_entries_def entry_matches_def assms adapter_entry_def entry_names_def)
next
  case False
  let ?names = "\<lambda>f. case normalize_field_value f e EntryMode of
          Some v \<Rightarrow> v = ''*'' \<or> identity_match_key (sf_kind f) v \<in> set (subject_keys idy subject) | None \<Rightarrow> False"
  have each: "(\<exists>x \<in> set (case normalize_field_value f e EntryMode of None \<Rightarrow> []
      | Some v \<Rightarrow> [adapter_entry idy f j e i v None]). entry_matches idy subject ctx x) \<longleftrightarrow> ?names f" for j f
    by (cases "normalize_field_value f e EntryMode") (simp_all add: adapter_entry_matches [OF assms])
  have "(\<exists>x \<in> set (matchable_entries idy i e). entry_matches idy subject ctx x) \<longleftrightarrow>
      (\<exists>p \<in> set (enumerate 0 (identity_fields idy)). ?names (snd p))"
    unfolding matchable_entries_def using False by (simp only: if_False case_prod_beta bex_concat_map each)
  also have "\<dots> \<longleftrightarrow> (\<exists>f \<in> snd ` set (enumerate 0 (identity_fields idy)). ?names f)" by simp
  finally show ?thesis using False by (simp add: snd_enumerate entry_names_def del: bex_simps)
qed

interpretation identity: naming_adapter "create_identity_adapter (hookless idy)" "entry_names idy" for idy
proof
  fix subject es ctx acc
  let ?a = "create_identity_adapter (hookless idy)"
  have m: "im_matched (match_subject ?a subject ns ctx) \<longleftrightarrow> (\<exists>x \<in> set ns. entry_matches (hookless idy) subject ctx x)" for ns
    by (auto simp: create_identity_adapter_def identity_match_subject_def filter_empty_conv)
  have n: "set (nr_matchable (normalize_entries ?a es ctx acc)) = (\<Union>(i, e) \<in> set (enumerate 0 es). set (matchable_entries (hookless idy) i e))"
    by (auto simp: create_identity_adapter_def identity_normalize_entries_def)
  show eq: "im_matched (match_subject ?a subject (nr_matchable (normalize_entries ?a es ctx acc)) ctx) \<longleftrightarrow>
      (\<exists>e \<in> set es. entry_names idy subject e)"
  proof -
    have "im_matched (match_subject ?a subject (nr_matchable (normalize_entries ?a es ctx acc)) ctx) \<longleftrightarrow>
        (\<exists>(i, e) \<in> set (enumerate 0 es). entry_names (hookless idy) subject e)"
      unfolding m n using matchable_entry_matches [of "hookless idy", OF hookless_same(5)] by fastforce
    also have "\<dots> \<longleftrightarrow> (\<exists>e \<in> snd ` set (enumerate 0 es). entry_names idy subject e)" by (simp add: hookless_same(4) bex_snd)
    finally show ?thesis by (simp add: snd_enumerate)
  qed
  show "\<not> entry_names idy subject e" if "nr_matchable (normalize_entries ?a es ctx acc) = []" "e \<in> set es" for e
  proof -
    have "\<not> im_matched (match_subject ?a subject (nr_matchable (normalize_entries ?a es ctx acc)) ctx)"
      unfolding m that(1) by simp
    then show ?thesis using eq that(2) by blast
  qed
  show "im_matched (match_subject ?a subject ns ctx) \<longleftrightarrow> im_ids (match_subject ?a subject ns ctx) \<noteq> []" for ns ctx
    by (simp add: create_identity_adapter_def identity_match_subject_def Let_def)
qed

section \<open>Properties\<close>

lemma hookless_self: "id_match_entry idy = None \<Longrightarrow> hookless idy = idy"
  by (cases idy) (simp add: hookless_def)

text \<open>Who a direct policy admits, in terms of the configured and the stored entries.\<close>

definition direct_policy_admits :: "dm_policy \<Rightarrow> (string list \<Rightarrow> bool) \<Rightarrow> string list \<Rightarrow> string list \<Rightarrow> bool" where
  "direct_policy_admits pol admits allow_from store =
     (case pol of
        DmDisabled \<Rightarrow> False
      | DmOpen \<Rightarrow> ''*'' \<in> set allow_from \<or> admits allow_from
      | DmAllowlist \<Rightarrow> admits allow_from
      | DmPairing \<Rightarrow> admits allow_from \<or> admits store)"

text \<open>A direct message with nothing but the sender policy to decide it.\<close>

definition plain_direct_message :: "ingress_params \<Rightarrow> bool" where
  "plain_direct_message p \<longleftrightarrow>
     js_trim (pa_channel_id p) \<noteq> [] \<and> pa_conversation p = DirectConversation \<and>
     ev_auth_mode (pa_event p) = InboundAuth \<and> ip_mutable (pa_policy p) = Some MutableEnabled \<and>
     ip_activation (pa_policy p) = None \<and> ip_command (pa_policy p) = None \<and> pa_command p = None \<and>
     pa_routes p = [] \<and> pa_route_facts p = [] \<and> id_match_entry (pa_identity p) = None"

lemma wildcard_not_group: "parse_access_group_entry ''*'' = None"
  by code_simp

lemma direct_state:
  fixes default_store :: "string \<Rightarrow> string \<Rightarrow> string list option"
  assumes "plain_direct_message p" and mut: "ip_mutable q = Some MutableEnabled"
  defines "c \<equiv> js_trim (pa_channel_id p)"
  defines "admits \<equiv> list_admits (entry_names (pa_identity p)) (ingress_input_of default_store p c)"
  shows "allows q (is_dm (resolve_message_state le default_store p c)) \<longleftrightarrow> admits (normalize_string_entries (items_of (pa_allow_from p)))"
    and "allows q (is_pairing_store (resolve_message_state le default_store p c)) \<longleftrightarrow>
      admits (normalize_string_entries (read_store_allow_from default_store p c))"
    and "ia_wildcard (is_dm (resolve_message_state le default_store p c)) \<longleftrightarrow> ''*'' \<in> set (normalize_string_entries (items_of (pa_allow_from p)))"
proof -
  have id: "hookless (pa_identity p) = pa_identity p"
    using assms(1) by (intro hookless_self) (simp add: plain_direct_message_def)
  note m = identity.allowlist_matched [of "pa_identity p", unfolded id]
  have dm: "is_dm (resolve_message_state le default_store p c) = resolve_ingress_allowlist (create_identity_adapter (pa_identity p))
      (ingress_input_of default_store p c) (Some (map Text (normalize_string_entries (items_of (pa_allow_from p))))) DmContext"
    and store: "is_pairing_store (resolve_message_state le default_store p c) = resolve_ingress_allowlist (create_identity_adapter (pa_identity p))
      (ingress_input_of default_store p c) (Some (map Text (normalize_string_entries (read_store_allow_from default_store p c)))) DmContext"
    by (simp_all add: resolve_message_state_def resolve_channel_ingress_state_def) (simp_all add: ingress_input_of_def Let_def)
  show "allows q (is_dm (resolve_message_state le default_store p c)) \<longleftrightarrow> admits (normalize_string_entries (items_of (pa_allow_from p)))"
    unfolding dm allows_def mutable_policy_enabled [OF mut] m by (simp add: items_of_def admits_def)
  show "allows q (is_pairing_store (resolve_message_state le default_store p c)) \<longleftrightarrow>
      admits (normalize_string_entries (read_store_allow_from default_store p c))"
    unfolding store allows_def mutable_policy_enabled [OF mut] m by (simp add: items_of_def admits_def)
  show "ia_wildcard (is_dm (resolve_message_state le default_store p c)) \<longleftrightarrow> ''*'' \<in> set (normalize_string_entries (items_of (pa_allow_from p)))"
    unfolding dm by (simp add: resolve_ingress_allowlist_def Let_def direct_allowlist_entries_def wildcard_not_group)
qed

lemma direct_message_flat:
  assumes "plain_direct_message p"
  defines "c \<equiv> js_trim (pa_channel_id p)"
  shows "map_option (\<lambda>r. de_admission (ri_decision r) = Dispatch) (resolve_channel_message_ingress le default_store p) =
    Some (direct_policy_admits (ip_dm (pa_policy p)) (list_admits (entry_names (pa_identity p)) (ingress_input_of default_store p c))
      (normalize_string_entries (items_of (pa_allow_from p)))
      (normalize_string_entries (read_store_allow_from default_store p c)))"
proof -
  let ?s = "resolve_message_state le default_store p c"
  let ?q = "effective_ingress_policy p"
  have q: "?q = pa_policy p" using assms(1) by (simp add: effective_ingress_policy_def plain_direct_message_def)
  have mut: "ip_mutable (pa_policy p) = Some MutableEnabled" using assms(1) by (simp add: plain_direct_message_def)
  note lists = direct_state [OF assms(1) mut, folded c_def]
  have parts: "is_conversation ?s = DirectConversation" "ie_auth_mode (is_event ?s) = InboundAuth" "is_routes ?s = []"
    using assms(1)
    by (simp_all add: plain_direct_message_def resolve_message_state_def resolve_channel_ingress_state_def resolve_route_facts_def
        ingress_input_of_def Let_def route_facts_from_descriptors_def sort_routes_def)
  have "may_dispatch ?s (pa_policy p) \<longleftrightarrow> direct_sender_admitted ?s (pa_policy p)"
    using assms(1) parts
    by (simp add: may_dispatch_def routes_open_def event_admitted_def sender_admitted_def control_command_def unaddressed_def
        plain_direct_message_def)
  also have "\<dots> \<longleftrightarrow> direct_policy_admits (ip_dm (pa_policy p)) (list_admits (entry_names (pa_identity p)) (ingress_input_of default_store p c))
      (normalize_string_entries (items_of (pa_allow_from p))) (normalize_string_entries (read_store_allow_from default_store p c))"
    by (simp add: direct_sender_admitted_def direct_policy_admits_def lists split: dm_policy.split)
  finally show ?thesis
    using assms(1) by (simp add: resolve_channel_message_ingress_def normalize_channel_id_def plain_direct_message_def Let_def
        c_def q dispatch_flat split: prod.split)
qed

text \<open>From configuration text to admission: a plain direct message is dispatched exactly when the direct policy
  admits its sender, that is when a configured entry (or, under pairing, a stored one) names the sender in one of the
  channel's identity fields or refers to an access group that admits the sender; the open policy also takes the
  wildcard and the disabled policy nobody.\<close>

theorem direct_message_admission:
  assumes "plain_direct_message p"
  defines "c \<equiv> js_trim (pa_channel_id p)"
  shows "map_option (\<lambda>r. de_admission (ri_decision r) = Dispatch) (resolve_channel_message_ingress le default_store p) =
    Some (direct_policy_admits (ip_dm (pa_policy p)) (list_admits (entry_names (pa_identity p)) (ingress_input_of default_store p c))
      (normalize_string_entries (items_of (pa_allow_from p)))
      (normalize_string_entries (read_store_allow_from default_store p c)))"
  unfolding c_def by (rule direct_message_flat [OF assms(1)])

section \<open>Failed lookups and samples\<close>

lemma find_appended: "find P (xs @ ys) = (case find P xs of Some x \<Rightarrow> Some x | None \<Rightarrow> find P ys)"
  by (induction xs) auto

text \<open>The last fact of a name is the one that counts.\<close>

lemma fold_facts:
  "js_get (fold (\<lambda>f m. js_set (fact_group f) f m) facts m) n =
     (case find (\<lambda>f. fact_group f = n) (rev facts) of Some f \<Rightarrow> Some f | None \<Rightarrow> js_get m n)"
proof (induction facts arbitrary: m)
  case (Cons f facts)
  show ?case using Cons.IH [of "js_set (fact_group f) f m"]
    by (cases "find (\<lambda>f. fact_group f = n) (rev facts)") (auto simp: find_appended)
qed simp

text \<open>A group whose membership lookup failed, is missing or is of an unsupported type admits nobody: an allowlist
  that only refers to groups whose membership fact is a problem does not match.\<close>

theorem unresolved_groups_admit_nobody:
  assumes "\<forall>e \<in> set (normalize_string_entries (items_of raw)). \<exists>n k src r d. parse_access_group_entry e = Some n \<and>
      find (\<lambda>f. fact_group f = n) (rev (ii_membership inp)) = Some (FactProblem k n src r d)"
  shows "\<not> im_matched (ia_match (resolve_ingress_allowlist (create_identity_adapter (hookless idy)) inp raw ctx))"
proof -
  have "\<not> group_admits (entry_names idy) inp n"
    if "find (\<lambda>f. fact_group f = n) (rev (ii_membership inp)) = Some (FactProblem k n src r d)" for n k src r d
    using that by (simp add: group_admits_def access_group_fact_by_name_def fold_facts)
  then have "\<not> list_admits (entry_names idy) inp (normalize_string_entries (items_of raw))"
    using assms by (fastforce simp: list_admits_split)
  then show ?thesis by (simp add: identity.allowlist_matched)
qed

definition plain_field :: identity_field where
  "plain_field = \<lparr>fd_key = None, fd_kind = None, fd_normalize = None, fd_normalize_entry = None,
     fd_normalize_subject = None, fd_dangerous = DangerFlag False, fd_sensitivity = None\<rparr>"

definition plain_identity :: identity where
  "plain_identity = define_stable_identity plain_field [] None None None None"

definition sample_params :: "identity \<Rightarrow> mutable_matching \<Rightarrow> string \<Rightarrow> item list \<Rightarrow> (string, access_group) js_map \<Rightarrow> ingress_params" where
  "sample_params idy mut sender allow groups =
     \<lparr>pa_channel_id = ''irc'', pa_account_id = ''default'', pa_identity = idy,
      pa_subject = \<lparr>si_stable_id = Some (Text sender), si_aliases = []\<rparr>, pa_conversation = DirectConversation,
      pa_event = \<lparr>ev_kind = MessageEvent, ev_auth_mode = InboundAuth, ev_may_pair = False, ev_origin = None\<rparr>,
      pa_policy = \<lparr>ip_dm = DmAllowlist, ip_group = GroupDisabled, ip_group_fallback = None, ip_mutable = Some mut,
        ip_activation = None, ip_command = None\<rparr>,
      pa_allow_from = Some allow, pa_group_allow_from = None, pa_routes = [], pa_route_facts = [],
      pa_access_groups = groups, pa_membership = [], pa_resolver = None, pa_matched_entry = None,
      pa_fallback_applied = None, pa_mentions = None, pa_reader = None, pa_default_store = False, pa_command = None\<rparr>"

text \<open>Alice is on the list through a static access group, Bob is not.\<close>

definition ops_groups :: "(string, access_group) js_map" where
  "ops_groups = [(''ops'', MessageSenders [(''irc'', [Text ''alice''])])]"

theorem direct_message_admission_witness:
  "map (\<lambda>who. map_option (\<lambda>r. de_admission (ri_decision r) = Dispatch) (resolve_channel_message_ingress (\<le>) (\<lambda>_ _. None)
     (sample_params plain_identity MutableEnabled who [Text '' accessGroup:ops ''] ops_groups))) [''alice'', ''bob''] =
   [Some True, Some False]"
proof -
  let ?p = "\<lambda>who. sample_params plain_identity MutableEnabled who [Text '' accessGroup:ops ''] ops_groups"
  have plain: "plain_direct_message (?p ''alice'')" "plain_direct_message (?p ''bob'')" by code_simp+
  have rhs: "direct_policy_admits (ip_dm (pa_policy (?p ''alice''))) (list_admits (entry_names (pa_identity (?p ''alice'')))
      (ingress_input_of (\<lambda>_ _. None) (?p ''alice'') (js_trim (pa_channel_id (?p ''alice'')))))
      (normalize_string_entries (items_of (pa_allow_from (?p ''alice''))))
      (normalize_string_entries (read_store_allow_from (\<lambda>_ _. None) (?p ''alice'') (js_trim (pa_channel_id (?p ''alice''))))) = True"
    "direct_policy_admits (ip_dm (pa_policy (?p ''bob''))) (list_admits (entry_names (pa_identity (?p ''bob'')))
      (ingress_input_of (\<lambda>_ _. None) (?p ''bob'') (js_trim (pa_channel_id (?p ''bob'')))))
      (normalize_string_entries (items_of (pa_allow_from (?p ''bob''))))
      (normalize_string_entries (read_store_allow_from (\<lambda>_ _. None) (?p ''bob'') (js_trim (pa_channel_id (?p ''bob''))))) = False"
    by code_simp+
  show ?thesis by (simp only: list.map direct_message_admission [OF plain(1)] direct_message_admission [OF plain(2)] rhs)
qed

definition failing_input :: ingress_input where
  "failing_input = (ingress_input_of (\<lambda>_ _. None) (sample_params plain_identity MutableEnabled ''alice'' [] ops_groups) ''irc'')
     \<lparr>ii_membership := [FactProblem GroupFailed ''ops'' DynamicFact AccessGroupFailed None]\<rparr>"

theorem unresolved_groups_admit_nobody_witness:
  "\<not> im_matched (ia_match (resolve_ingress_allowlist (create_identity_adapter (hookless plain_identity)) failing_input
     (Some [Text ''accessGroup:ops'']) DmContext))"
proof (rule unresolved_groups_admit_nobody)
  have e: "normalize_string_entries (items_of (Some [Text ''accessGroup:ops''])) = [''accessGroup:ops'']"
    "parse_access_group_entry ''accessGroup:ops'' = Some ''ops''"
    "find (\<lambda>f. fact_group f = ''ops'') (rev (ii_membership failing_input)) =
      Some (FactProblem GroupFailed ''ops'' DynamicFact AccessGroupFailed None)"
    by code_simp+
  then show "\<forall>e \<in> set (normalize_string_entries (items_of (Some [Text ''accessGroup:ops'']))). \<exists>n k src r d.
      parse_access_group_entry e = Some n \<and>
      find (\<lambda>f. fact_group f = n) (rev (ii_membership failing_input)) = Some (FactProblem k n src r d)"
    by auto
qed

section \<open>Colliding entry ids\<close>





end
