(* ===== verification/Pairing_Ingress.thy ===== *)
theory Pairing_Ingress
  imports Pairing_Props Ingress_Props
begin







section \<open>Sample\<close>





end
