(* ===== verification/Session_Identity.thy ===== *)
theory Session_Identity
  imports String_Lists
begin

text \<open>
  Logical identities of sessions, \<open>sessions/session-lifecycle-identity.ts\<close>: the key of an identity in a scope is the
  JSON text of the pair, and the keys of a request are sorted, which is the order in which their locks are taken.
  The JSON of Latin-1 strings is written out; an escape of a character beyond Latin-1 is not decoded.
\<close>

section \<open>JSON strings\<close>

definition hex_digit :: "nat \<Rightarrow> char" where
  "hex_digit n = (if n < 10 then char_of (n + 48) else char_of (n + 87))"

fun hex_value :: "char \<Rightarrow> nat option" where
  "hex_value c =
     (let n = (of_char c :: nat)
      in if 48 \<le> n \<and> n \<le> 57 then Some (n - 48)
         else if 97 \<le> n \<and> n \<le> 102 then Some (n - 87)
         else if 65 \<le> n \<and> n \<le> 70 then Some (n - 55) else None)"

definition quote_char :: "char \<Rightarrow> string" where
  "quote_char c =
     (if c = CHR 0x22 \<or> c = CHR 0x5C then [CHR 0x5C, c]
      else if c = CHR 0x08 then [CHR 0x5C, CHR ''b'']
      else if c = CHR 0x09 then [CHR 0x5C, CHR ''t'']
      else if c = CHR 0x0A then [CHR 0x5C, CHR ''n'']
      else if c = CHR 0x0C then [CHR 0x5C, CHR ''f'']
      else if c = CHR 0x0D then [CHR 0x5C, CHR ''r'']
      else if (of_char c :: nat) < 32 then
        [CHR 0x5C, CHR ''u'', CHR ''0'', CHR ''0'', hex_digit (of_char c div 16), hex_digit (of_char c mod 16)]
      else [c])"

definition quote_json :: "string \<Rightarrow> string" where
  "quote_json s = CHR 0x22 # concat (map quote_char s) @ [CHR 0x22]"

definition stringify_pair :: "string \<Rightarrow> string \<Rightarrow> string" where
  "stringify_pair a b = ''['' @ quote_json a @ '','' @ quote_json b @ '']''"

text \<open>The rest of a string after its opening quote: its value and what follows the closing quote.\<close>

definition simple_escape :: "char \<Rightarrow> char option" where
  "simple_escape c =
     (if c \<in> {CHR 0x22, CHR 0x5C, CHR 0x2F} then Some c
      else if c = CHR ''b'' then Some (CHR 0x08)
      else if c = CHR ''t'' then Some (CHR 0x09)
      else if c = CHR ''n'' then Some (CHR 0x0A)
      else if c = CHR ''f'' then Some (CHR 0x0C)
      else if c = CHR ''r'' then Some (CHR 0x0D) else None)"

definition unicode_escape :: "string \<Rightarrow> char option" where
  "unicode_escape ds =
     (case map hex_value ds of
        [Some a, Some b, Some c, Some d] \<Rightarrow>
          if a = 0 \<and> b = 0 then Some (char_of (16 * c + d)) else None
      | _ \<Rightarrow> None)"

function string_rest :: "string \<Rightarrow> (string \<times> string) option" where
  "string_rest s =
     (case s of
        [] \<Rightarrow> None
      | c # s1 \<Rightarrow>
          if c = CHR 0x22 then Some ([], s1)
          else if (of_char c :: nat) < 32 then None
          else if c \<noteq> CHR 0x5C then map_option (\<lambda>(v, r). (c # v, r)) (string_rest s1)
          else
            (case s1 of
               [] \<Rightarrow> None
             | e # s2 \<Rightarrow>
                 (case simple_escape e of
                    Some d \<Rightarrow> map_option (\<lambda>(v, r). (d # v, r)) (string_rest s2)
                  | None \<Rightarrow>
                      if e \<noteq> CHR ''u'' \<or> length s2 < 4 then None
                      else (case unicode_escape (take 4 s2) of
                              None \<Rightarrow> None
                            | Some d \<Rightarrow> map_option (\<lambda>(v, r). (d # v, r)) (string_rest (drop 4 s2))))))"
  by pat_completeness auto
termination by (relation "measure length") auto

declare string_rest.simps [simp del]

definition skip_json_space :: "string \<Rightarrow> string" where
  "skip_json_space = dropWhile (\<lambda>c. c \<in> {CHR 0x20, CHR 0x09, CHR 0x0A, CHR 0x0D})"

definition expect_char :: "char \<Rightarrow> string \<Rightarrow> string option" where
  "expect_char c s = (case skip_json_space s of d # r \<Rightarrow> if d = c then Some r else None | [] \<Rightarrow> None)"

definition expect_string :: "string \<Rightarrow> (string \<times> string) option" where
  "expect_string s = Option.bind (expect_char (CHR 0x22) s) string_rest"

text \<open>The decoding of a key: anything but an array of two strings is nothing.\<close>

definition decode_session_identity :: "string \<Rightarrow> (string \<times> string) option" where
  "decode_session_identity s =
     Option.bind (expect_char (CHR ''['') s) (\<lambda>s1.
       Option.bind (expect_string s1) (\<lambda>(a, s2).
         Option.bind (expect_char (CHR '','') s2) (\<lambda>s3.
           Option.bind (expect_string s3) (\<lambda>(b, s4).
             Option.bind (expect_char (CHR '']'') s4) (\<lambda>s5.
               if skip_json_space s5 = [] then Some (a, b) else None)))))"

section \<open>The keys of a request\<close>

text \<open>Absent identities are dropped; a blank scope is an error.\<close>

definition normalize_session_identities :: "string \<Rightarrow> string option list \<Rightarrow> string list option" where
  "normalize_session_identities scope identities =
     (if js_trim scope = [] then None
      else Some (sort (map (stringify_pair (js_trim scope))
             (unique_values (filter (\<lambda>i. i \<noteq> []) (List.map_filter (map_option js_trim) identities))))))"

section \<open>Round trip\<close>

lemma hex_value_digit [simp]: "d < 16 \<Longrightarrow> hex_value (hex_digit d) = Some d"
  by (auto simp: hex_digit_def Let_def)

lemma string_rest_plain:
  "32 \<le> (of_char c :: nat) \<Longrightarrow> c \<noteq> CHR 0x22 \<Longrightarrow> c \<noteq> CHR 0x5C \<Longrightarrow>
    string_rest (c # r) = map_option (\<lambda>(v, r). (c # v, r)) (string_rest r)"
  by (subst string_rest.simps) simp

lemma string_rest_simple:
  "simple_escape e = Some d \<Longrightarrow>
    string_rest (CHR 0x5C # e # r) = map_option (\<lambda>(v, r). (d # v, r)) (string_rest r)"
  by (subst string_rest.simps) simp

lemma string_rest_unicode:
  "unicode_escape [a, b, c, d] = Some x \<Longrightarrow>
    string_rest (CHR 0x5C # CHR ''u'' # a # b # c # d # r) = map_option (\<lambda>(v, r). (x # v, r)) (string_rest r)"
  by (subst string_rest.simps) (simp add: simple_escape_def)

lemma string_rest_quote: "string_rest (quote_char c @ r) = map_option (\<lambda>(v, r). (c # v, r)) (string_rest r)"
proof (cases "c \<in> {CHR 0x22, CHR 0x5C, CHR 0x08, CHR 0x09, CHR 0x0A, CHR 0x0C, CHR 0x0D}")
  case True
  then show ?thesis by (auto simp: quote_char_def simple_escape_def string_rest_simple)
next
  case plain: False
  show ?thesis
  proof (cases "(of_char c :: nat) < 32")
    case True
    let ?a = "hex_digit (of_char c div 16)" and ?b = "hex_digit (of_char c mod 16)"
    have "hex_value ?a = Some (of_char c div 16)" "hex_value ?b = Some (of_char c mod 16)"
      using True by (auto simp del: hex_value.simps)
    then have "unicode_escape [CHR ''0'', CHR ''0'', ?a, ?b] = Some c"
      by (simp add: unicode_escape_def del: hex_value.simps) simp
    from string_rest_unicode [OF this, of r] show ?thesis using plain True by (simp add: quote_char_def)
  next
    case False
    then show ?thesis using plain by (simp add: quote_char_def string_rest_plain)
  qed
qed

lemma string_rest_quoted: "string_rest (concat (map quote_char s) @ CHR 0x22 # r) = Some (s, r)"
proof (induction s)
  case Nil
  show ?case by (subst string_rest.simps) simp
next
  case (Cons c s)
  then show ?case by (simp add: string_rest_quote)
qed

lemma expect_quoted [simp]: "expect_string (quote_json s @ r) = Some (s, r)"
  by (simp add: expect_string_def quote_json_def expect_char_def skip_json_space_def string_rest_quoted)

lemma expect_char_hit:
  "c \<notin> {CHR 0x20, CHR 0x09, CHR 0x0A, CHR 0x0D} \<Longrightarrow> expect_char c (c # r) = Some r"
  by (simp add: expect_char_def skip_json_space_def)

lemma expect_brackets [simp]:
  "expect_char (CHR ''['') (CHR ''['' # r) = Some r" "expect_char (CHR '','') (CHR '','' # r) = Some r"
  "expect_char (CHR '']'') (CHR '']'' # r) = Some r"
  by (simp_all add: expect_char_hit)

lemma decode_stringified: "decode_session_identity (stringify_pair a b) = Some (a, b)"
proof -
  have s: "stringify_pair a b = CHR ''['' # quote_json a @ CHR '','' # quote_json b @ [CHR '']'']"
    by (simp only: stringify_pair_def append_Cons append_Nil)
  show ?thesis
    unfolding decode_session_identity_def s expect_brackets Option.bind.bind_lunit expect_quoted prod.case
    by (simp add: skip_json_space_def)
qed

lemma stringify_pair_inject [simp]: "stringify_pair a b = stringify_pair c d \<longleftrightarrow> a = c \<and> b = d"
  by (metis decode_stringified option.inject prod.inject)

lemma stringify_pair_nonempty [simp]: "stringify_pair a b \<noteq> []"
  by (simp add: stringify_pair_def)

text \<open>The keys of a request are in strict order: the locks of an identity are taken once, in one global order.\<close>

lemma normalized_identities_sorted:
  assumes "normalize_session_identities scope xs = Some ids"
  shows "sorted_wrt (<) ids"
proof -
  let ?u = "unique_values (filter (\<lambda>i. i \<noteq> []) (List.map_filter (map_option js_trim) xs))"
  have "distinct (map (stringify_pair (js_trim scope)) ?u)"
    by (simp add: distinct_map inj_on_def)
  then show ?thesis using assms
    by (auto simp: normalize_session_identities_def strict_sorted_iff split: if_splits)
qed

lemma set_map_filter: "y \<in> set (List.map_filter f xs) \<longleftrightarrow> (\<exists>x \<in> set xs. f x = Some y)"
  by (induction xs) (auto simp: map_filter_simps split: option.splits)

lemma normalized_identities_members:
  assumes "normalize_session_identities scope xs = Some ids" and "k \<in> set ids"
  obtains i x where "decode_session_identity k = Some (js_trim scope, i)" "x \<in> set xs" "map_option js_trim x = Some i" "i \<noteq> []"
proof -
  let ?f = "filter (\<lambda>i. i \<noteq> []) (List.map_filter (map_option js_trim) xs)"
  have "ids = sort (map (stringify_pair (js_trim scope)) (unique_values ?f))"
    using assms(1) by (simp add: normalize_session_identities_def split: if_splits)
  with assms(2) have "k \<in> stringify_pair (js_trim scope) ` set ?f" by (simp only: set_sort set_map set_unique_values)
  then obtain i where i: "k = stringify_pair (js_trim scope) i" "i \<in> set ?f" by (rule imageE)
  from i(2) have ne: "i \<noteq> []" and "i \<in> set (List.map_filter (map_option js_trim) xs)" by simp_all
  from this(2) obtain x where x: "x \<in> set xs" "map_option js_trim x = Some i" by (meson set_map_filter)
  show thesis by (rule that [OF _ x ne]) (simp only: i(1) decode_stringified)
qed

end
