(* ===== verification/Session_Lifecycle.thy ===== *)
theory Session_Lifecycle
  imports Session_Identity
begin

text \<open>
  Lifecycle mutations and work admissions of sessions, \<open>sessions/session-lifecycle-admission.ts\<close> with the handoffs
  of \<open>session-work-admission-handoff.ts\<close>. A call of \<open>runExclusiveSessionLifecycleMutation\<close> or
  \<open>beginSessionWorkAdmission\<close> is a process; its phase is the place in the code where it is suspended. A queue of
  the two lock tables is the line of the processes that stand in it, whose head runs. The events are the turns of a
  process, the ends of the callbacks (\<open>prepare\<close>, \<open>run\<close>, \<open>assertAllowed\<close>, the write behind the store's barrier),
  the abort of its signal and the operations on leases, in any order. A callback does not begin a nested mutation or
  admission of the same identities.
\<close>

section \<open>State\<close>

datatype session_work = Mutation bool | Admission

datatype lock_goal = ToActivate | ToRun | ToDeactivate bool | ToAdmit

datatype lock_result = NotActivated | Activated | Ran bool | Deactivated bool | Blocked | Refused | Leased

datatype session_phase =
    MutationTaking nat
  | Taking lock_goal nat
  | Holding lock_goal
  | Asserting
  | Barrier bool
  | Leaving lock_result nat
  | Preparing
  | MutationLeaving nat bool
  | Checking
  | Waiting "string list"
  | Working
  | Finished

text \<open>The result is that of the caller's promise. The last three fields are those of an admission's lease.\<close>

record session_process =
  sp_ids :: "string list"
  sp_work :: session_work
  sp_phase :: session_phase
  sp_aborted :: bool
  sp_result :: "bool option"
  sp_interrupted :: bool
  sp_listener :: "nat option"
  sp_handoffs :: "string list"

record session_lifecycle =
  sl_mutation_lines :: "string \<Rightarrow> nat list"
  sl_lines :: "string \<Rightarrow> nat list"
  sl_active :: "(string, nat) js_map"
  sl_kinds :: "(string, nat) js_map"
  sl_runs :: "nat list"
  sl_waiters :: "(string, nat list) js_map"
  sl_admissions :: "(string, nat list) js_map"
  sl_handoffs :: "(string, nat) js_map"
  sl_closed :: bool
  sl_next :: nat
  sl_procs :: "nat \<Rightarrow> session_process"
  sl_calls :: "nat list"

definition no_process :: session_process where
  "no_process = \<lparr>sp_ids = [], sp_work = Admission, sp_phase = Finished, sp_aborted = False, sp_result = None,
     sp_interrupted = False, sp_listener = None, sp_handoffs = []\<rparr>"

definition empty_lifecycle :: session_lifecycle where
  "empty_lifecycle = \<lparr>sl_mutation_lines = (\<lambda>_. []), sl_lines = (\<lambda>_. []), sl_active = [], sl_kinds = [], sl_runs = [],
     sl_waiters = [], sl_admissions = [], sl_handoffs = [], sl_closed = False, sl_next = 0, sl_procs = (\<lambda>_. no_process),
     sl_calls = []\<rparr>"

definition count_of :: "(string, nat) js_map \<Rightarrow> string \<Rightarrow> nat" where
  "count_of m k = (case js_get m k of None \<Rightarrow> 0 | Some n \<Rightarrow> n)"

definition entries_of :: "(string, nat list) js_map \<Rightarrow> string \<Rightarrow> nat list" where
  "entries_of m k = (case js_get m k of None \<Rightarrow> [] | Some xs \<Rightarrow> xs)"

definition set_process :: "nat \<Rightarrow> session_process \<Rightarrow> session_lifecycle \<Rightarrow> session_lifecycle" where
  "set_process p x st = st\<lparr>sl_procs := (sl_procs st)(p := x)\<rparr>"

definition to_phase :: "nat \<Rightarrow> session_phase \<Rightarrow> session_lifecycle \<Rightarrow> session_lifecycle" where
  "to_phase p ph st = set_process p ((sl_procs st p)\<lparr>sp_phase := ph\<rparr>) st"

section \<open>Queries\<close>

definition has_active_mutation :: "session_lifecycle \<Rightarrow> string list \<Rightarrow> bool" where
  "has_active_mutation st ids = list_ex (\<lambda>i. 0 < count_of (sl_active st) i) ids"

definition has_only_active_compaction :: "session_lifecycle \<Rightarrow> string list \<Rightarrow> bool" where
  "has_only_active_compaction st ids =
     (let active = filter (\<lambda>i. count_of (sl_active st) i \<noteq> 0) ids
      in active \<noteq> [] \<and> list_all (\<lambda>i. count_of (sl_kinds st) i = count_of (sl_active st) i) active)"

definition is_mutation_active :: "session_lifecycle \<Rightarrow> string \<Rightarrow> string option list \<Rightarrow> bool option" where
  "is_mutation_active st scope identities = map_option (has_active_mutation st) (normalize_session_identities scope identities)"

definition has_only_compaction_active :: "session_lifecycle \<Rightarrow> string \<Rightarrow> string option list \<Rightarrow> bool option" where
  "has_only_compaction_active st scope identities =
     map_option (has_only_active_compaction st) (normalize_session_identities scope identities)"

definition is_work_admission_active :: "session_lifecycle \<Rightarrow> string \<Rightarrow> string option list \<Rightarrow> bool option" where
  "is_work_admission_active st scope identities =
     map_option (list_ex (\<lambda>i. entries_of (sl_admissions st) i \<noteq> [])) (normalize_session_identities scope identities)"

definition is_competing_admission_active :: "nat list \<Rightarrow> session_lifecycle \<Rightarrow> string \<Rightarrow> string option list \<Rightarrow> bool option" where
  "is_competing_admission_active current st scope identities =
     map_option (list_ex (\<lambda>i. list_ex (\<lambda>a. a \<notin> set current) (entries_of (sl_admissions st) i)))
       (normalize_session_identities scope identities)"

definition collect_active_identities :: "session_lifecycle \<Rightarrow> string \<Rightarrow> string list option" where
  "collect_active_identities st scope =
     (if js_trim scope = [] then None
      else Some (unique_values (concat (map (\<lambda>(k, xs).
             if xs = [] then []
             else (case decode_session_identity k of
                     Some (s, i) \<Rightarrow> if s = js_trim scope then [i] else []
                   | None \<Rightarrow> [])) (sl_admissions st)))))"

definition active_admission_count :: "session_lifecycle \<Rightarrow> nat" where
  "active_admission_count st = length (unique_values (concat (map snd (sl_admissions st))))"

definition active_mutation_count :: "session_lifecycle \<Rightarrow> nat" where
  "active_mutation_count st =
     (if 0 < length (sl_runs st) then length (sl_runs st) else if 0 < length (sl_active st) then 1 else 0)"

section \<open>Locks\<close>

text \<open>\<open>runWithSessionIdentityLocks\<close> and \<open>runWithSessionMutationIdentityLocks\<close> from an index on.\<close>

definition enter_locks :: "lock_goal \<Rightarrow> nat \<Rightarrow> nat \<Rightarrow> session_lifecycle \<Rightarrow> session_lifecycle" where
  "enter_locks g n p st =
     (let ids = sp_ids (sl_procs st p)
      in if n < length ids
         then to_phase p (Taking g n) (st\<lparr>sl_lines := (sl_lines st)(ids ! n := sl_lines st (ids ! n) @ [p])\<rparr>)
         else to_phase p (Holding g) st)"

definition enter_mutation_locks :: "nat \<Rightarrow> nat \<Rightarrow> session_lifecycle \<Rightarrow> session_lifecycle" where
  "enter_mutation_locks n p st =
     (let ids = sp_ids (sl_procs st p)
      in if n < length ids
         then to_phase p (MutationTaking n)
                (st\<lparr>sl_mutation_lines := (sl_mutation_lines st)(ids ! n := sl_mutation_lines st (ids ! n) @ [p])\<rparr>)
         else enter_locks ToActivate 0 p st)"

definition at_head :: "nat \<Rightarrow> nat list \<Rightarrow> bool" where
  "at_head p line = (case line of [] \<Rightarrow> False | q # _ \<Rightarrow> q = p)"

definition leave_lock :: "lock_result \<Rightarrow> nat \<Rightarrow> nat \<Rightarrow> session_lifecycle \<Rightarrow> session_lifecycle" where
  "leave_lock r n p st =
     (let i = sp_ids (sl_procs st p) ! n
      in to_phase p (Leaving r n) (st\<lparr>sl_lines := (sl_lines st)(i := tl (sl_lines st i))\<rparr>))"

definition leave_mutation_lock :: "bool \<Rightarrow> nat \<Rightarrow> nat \<Rightarrow> session_lifecycle \<Rightarrow> session_lifecycle" where
  "leave_mutation_lock ok n p st =
     (let i = sp_ids (sl_procs st p) ! n
      in to_phase p (MutationLeaving n ok) (st\<lparr>sl_mutation_lines := (sl_mutation_lines st)(i := tl (sl_mutation_lines st i))\<rparr>))"

definition done_with :: "lock_result \<Rightarrow> nat \<Rightarrow> session_lifecycle \<Rightarrow> session_lifecycle" where
  "done_with r p st = to_phase p (Leaving r (length (sp_ids (sl_procs st p)))) st"

text \<open>The end of the call: a promise that was rejected by an abort stays rejected.\<close>

definition finish :: "bool \<Rightarrow> nat \<Rightarrow> session_lifecycle \<Rightarrow> session_lifecycle" where
  "finish ok p st =
     (let x = sl_procs st p
      in set_process p (x\<lparr>sp_phase := Finished, sp_result := (case sp_result x of None \<Rightarrow> Some ok | r \<Rightarrow> r)\<rparr>) st)"

section \<open>Mutations\<close>

definition bump :: "string \<Rightarrow> (string, nat) js_map \<Rightarrow> (string, nat) js_map" where
  "bump i m = js_set i (count_of m i + 1) m"

definition drop_one :: "string \<Rightarrow> (string, nat) js_map \<Rightarrow> (string, nat) js_map" where
  "drop_one i m =
     (let remaining = (case js_get m i of None \<Rightarrow> 1 | Some n \<Rightarrow> n) - 1
      in if 0 < remaining then js_set i remaining m else js_delete i m)"

definition is_compaction :: "session_process \<Rightarrow> bool" where
  "is_compaction x \<longleftrightarrow> sp_work x = Mutation True"

definition activate :: "nat \<Rightarrow> session_lifecycle \<Rightarrow> session_lifecycle" where
  "activate p st =
     (let x = sl_procs st p
      in st\<lparr>sl_runs := set_add p (sl_runs st),
            sl_active := fold bump (sp_ids x) (sl_active st),
            sl_kinds := (if is_compaction x then fold bump (sp_ids x) (sl_kinds st) else sl_kinds st)\<rparr>)"

definition no_longer_waits_for :: "string \<Rightarrow> session_process \<Rightarrow> session_process" where
  "no_longer_waits_for i x =
     (case sp_phase x of Waiting ws \<Rightarrow> x\<lparr>sp_phase := Waiting (filter (\<lambda>j. j \<noteq> i) ws)\<rparr> | _ \<Rightarrow> x)"

definition resolve_waiters :: "string \<Rightarrow> session_lifecycle \<Rightarrow> session_lifecycle" where
  "resolve_waiters i st =
     (let ps = entries_of (sl_waiters st) i
      in st\<lparr>sl_waiters := js_delete i (sl_waiters st),
            sl_procs := (\<lambda>p. if p \<in> set ps then no_longer_waits_for i (sl_procs st p) else sl_procs st p)\<rparr>)"

definition deactivate_identity :: "bool \<Rightarrow> string \<Rightarrow> session_lifecycle \<Rightarrow> session_lifecycle" where
  "deactivate_identity compaction i st =
     (let st1 = (if compaction then st\<lparr>sl_kinds := drop_one i (sl_kinds st)\<rparr> else st);
          active = drop_one i (sl_active st)
      in if 0 < count_of active i then st1\<lparr>sl_active := active\<rparr>
         else resolve_waiters i (st1\<lparr>sl_active := active\<rparr>))"

definition deactivate :: "nat \<Rightarrow> session_lifecycle \<Rightarrow> session_lifecycle" where
  "deactivate p st =
     (let x = sl_procs st p;
          st1 = fold (deactivate_identity (is_compaction x)) (sp_ids x) st
      in st1\<lparr>sl_runs := set_del p (sl_runs st1)\<rparr>)"

section \<open>Admissions\<close>

definition wait_idle :: "nat \<Rightarrow> session_lifecycle \<Rightarrow> session_lifecycle" where
  "wait_idle p st =
     (let active = filter (\<lambda>i. 0 < count_of (sl_active st) i) (sp_ids (sl_procs st p))
      in if active = [] then to_phase p Checking st
         else if sp_aborted (sl_procs st p) then finish False p st
         else to_phase p (Waiting active)
                (st\<lparr>sl_waiters := fold (\<lambda>i m. js_set i (set_add p (entries_of m i)) m) active (sl_waiters st)\<rparr>))"

definition register :: "nat \<Rightarrow> session_lifecycle \<Rightarrow> session_lifecycle" where
  "register p st =
     st\<lparr>sl_admissions := fold (\<lambda>i m. js_set i (set_add p (entries_of m i)) m) (sp_ids (sl_procs st p)) (sl_admissions st)\<rparr>"

definition remove_admission :: "nat \<Rightarrow> string \<Rightarrow> (string, nat list) js_map \<Rightarrow> (string, nat list) js_map" where
  "remove_admission p i m =
     (let rest = set_del p (entries_of m i) in if rest = [] then js_delete i m else js_set i rest m)"

definition clear_handoffs :: "nat \<Rightarrow> session_lifecycle \<Rightarrow> session_lifecycle" where
  "clear_handoffs p st =
     set_process p ((sl_procs st p)\<lparr>sp_handoffs := []\<rparr>)
       (st\<lparr>sl_handoffs := fold js_delete (sp_handoffs (sl_procs st p)) (sl_handoffs st)\<rparr>)"

definition release :: "nat \<Rightarrow> session_lifecycle \<Rightarrow> session_lifecycle" where
  "release p st =
     clear_handoffs p (st\<lparr>sl_admissions := fold (remove_admission p) (sp_ids (sl_procs st p)) (sl_admissions st)\<rparr>)"

section \<open>Turns\<close>

definition after_locks :: "lock_result \<Rightarrow> nat \<Rightarrow> session_lifecycle \<Rightarrow> session_lifecycle" where
  "after_locks r p st =
     (let leave = (\<lambda>ok. to_phase p (MutationLeaving (length (sp_ids (sl_procs st p))) ok) st)
      in case r of
           NotActivated \<Rightarrow> leave False
         | Activated \<Rightarrow> to_phase p Preparing st
         | Ran ok \<Rightarrow> enter_locks (ToDeactivate ok) 0 p st
         | Deactivated ok \<Rightarrow> leave ok
         | Blocked \<Rightarrow> wait_idle p st
         | Refused \<Rightarrow> finish False p st
         | Leased \<Rightarrow> set_process p ((sl_procs st p)\<lparr>sp_phase := Working, sp_result := Some True\<rparr>) st)"

fun holding_turn :: "lock_goal \<Rightarrow> nat \<Rightarrow> session_lifecycle \<Rightarrow> session_lifecycle option" where
  "holding_turn ToActivate p st =
     Some (if sp_aborted (sl_procs st p) then done_with NotActivated p st else done_with Activated p (activate p st))"
| "holding_turn ToRun p st = None"
| "holding_turn (ToDeactivate ok) p st = Some (done_with (Deactivated ok) p (deactivate p st))"
| "holding_turn ToAdmit p st =
     Some (if sp_aborted (sl_procs st p) then done_with Refused p st
           else if has_active_mutation st (sp_ids (sl_procs st p)) then done_with Blocked p st
           else to_phase p Asserting st)"

definition turn :: "nat \<Rightarrow> session_lifecycle \<Rightarrow> session_lifecycle option" where
  "turn p st =
     (let x = sl_procs st p
      in case sp_phase x of
           MutationTaking n \<Rightarrow>
             if at_head p (sl_mutation_lines st (sp_ids x ! n)) then Some (enter_mutation_locks (Suc n) p st) else None
         | Taking g n \<Rightarrow> if at_head p (sl_lines st (sp_ids x ! n)) then Some (enter_locks g (Suc n) p st) else None
         | Holding g \<Rightarrow> holding_turn g p st
         | Barrier False \<Rightarrow> if sp_aborted x then Some (done_with Refused p (release p st)) else None
         | Leaving r (Suc n) \<Rightarrow> Some (leave_lock r n p st)
         | Leaving r 0 \<Rightarrow> Some (after_locks r p st)
         | MutationLeaving (Suc n) ok \<Rightarrow> Some (leave_mutation_lock ok n p st)
         | MutationLeaving 0 ok \<Rightarrow> Some (finish ok p st)
         | Checking \<Rightarrow>
             Some (if sp_aborted x then finish False p st
                   else if has_active_mutation st (sp_ids x) then wait_idle p st
                   else enter_locks ToAdmit 0 p st)
         | Waiting [] \<Rightarrow> Some (to_phase p Checking st)
         | _ \<Rightarrow> None)"

text \<open>The ends of the callbacks.\<close>

definition prepare_ends :: "bool \<Rightarrow> nat \<Rightarrow> session_lifecycle \<Rightarrow> session_lifecycle" where
  "prepare_ends ok p st = enter_locks (if ok then ToRun else ToDeactivate False) 0 p st"

definition assert_ends :: "bool \<Rightarrow> nat \<Rightarrow> session_lifecycle \<Rightarrow> session_lifecycle" where
  "assert_ends ok p st =
     (if \<not> ok \<or> sl_closed st then done_with Refused p st else to_phase p (Barrier False) (register p st))"

definition barrier_starts :: "nat \<Rightarrow> session_lifecycle \<Rightarrow> session_lifecycle" where
  "barrier_starts p st =
     (if sp_aborted (sl_procs st p) then done_with Refused p (release p st) else to_phase p (Barrier True) st)"

definition barrier_ends :: "bool \<Rightarrow> nat \<Rightarrow> session_lifecycle \<Rightarrow> session_lifecycle" where
  "barrier_ends ok p st = (if ok then done_with Leased p st else done_with Refused p (release p st))"

text \<open>The abort of a signal: a mutation that is not yet activated rejects its caller and stays in line; waiting and the
  wait for the store's writer are given up.\<close>

definition not_yet_activated :: "session_phase \<Rightarrow> bool" where
  "not_yet_activated ph = (case ph of MutationTaking _ \<Rightarrow> True | Taking ToActivate _ \<Rightarrow> True | Holding ToActivate \<Rightarrow> True | _ \<Rightarrow> False)"

definition abort :: "nat \<Rightarrow> session_lifecycle \<Rightarrow> session_lifecycle" where
  "abort p st =
     (let x = (sl_procs st p)\<lparr>sp_aborted := True\<rparr>;
          st1 = set_process p x st
      in if not_yet_activated (sp_phase x) then set_process p (x\<lparr>sp_result := Some False\<rparr>) st
         else (case sp_phase x of
                 Waiting (_ # _) \<Rightarrow> finish False p st1
               | Barrier False \<Rightarrow> done_with Refused p (release p st1)
               | _ \<Rightarrow> st1))"

section \<open>Calls\<close>

definition new_process :: "session_work \<Rightarrow> session_phase \<Rightarrow> nat option \<Rightarrow> string list \<Rightarrow> session_lifecycle \<Rightarrow> session_lifecycle" where
  "new_process w ph listener ids st =
     set_process (sl_next st) (no_process\<lparr>sp_ids := ids, sp_work := w, sp_phase := ph, sp_listener := listener\<rparr>)
       (st\<lparr>sl_next := Suc (sl_next st)\<rparr>)"

definition begin_mutation :: "string \<Rightarrow> string option list \<Rightarrow> bool \<Rightarrow> bool \<Rightarrow> session_lifecycle \<Rightarrow> session_lifecycle option" where
  "begin_mutation scope identities compaction aborted st =
     (case normalize_session_identities scope identities of
        None \<Rightarrow> None
      | Some ids \<Rightarrow>
          if aborted then None
          else Some (enter_mutation_locks 0 (sl_next st) (new_process (Mutation compaction) Finished None ids st)))"

definition begin_admission :: "string \<Rightarrow> string option list \<Rightarrow> nat option \<Rightarrow> session_lifecycle \<Rightarrow> session_lifecycle option" where
  "begin_admission scope identities listener st =
     (if sl_closed st then None
      else map_option (\<lambda>ids. new_process Admission Checking listener ids st) (normalize_session_identities scope identities))"

section \<open>Leases\<close>

definition call_listener :: "nat option \<Rightarrow> session_lifecycle \<Rightarrow> session_lifecycle" where
  "call_listener l st = (case l of None \<Rightarrow> st | Some f \<Rightarrow> st\<lparr>sl_calls := sl_calls st @ [f]\<rparr>)"

text \<open>\<open>interruptSessionWorkAdmissions\<close> up to its wait, with the admissions it waits for.\<close>

definition interrupted_admissions :: "nat list \<Rightarrow> string list \<Rightarrow> session_lifecycle \<Rightarrow> nat list" where
  "interrupted_admissions current ids st =
     unique_values (filter (\<lambda>a. a \<notin> set current) (concat (map (entries_of (sl_admissions st)) ids)))"

definition interrupt_one :: "nat \<Rightarrow> session_lifecycle \<Rightarrow> session_lifecycle" where
  "interrupt_one p st =
     call_listener (sp_listener (sl_procs st p)) (set_process p ((sl_procs st p)\<lparr>sp_interrupted := True\<rparr>) st)"

definition interrupt_admissions ::
  "nat list \<Rightarrow> string \<Rightarrow> string option list \<Rightarrow> session_lifecycle \<Rightarrow> (nat list \<times> session_lifecycle) option" where
  "interrupt_admissions current scope identities st =
     map_option (\<lambda>ids. let ps = interrupted_admissions current ids st in (ps, fold interrupt_one ps st))
       (normalize_session_identities scope identities)"

text \<open>The token of a handoff comes from \<open>randomUUID\<close>.\<close>

definition create_handoff :: "nat \<Rightarrow> string \<Rightarrow> session_lifecycle \<Rightarrow> session_lifecycle option" where
  "create_handoff p token st =
     (if sp_phase (sl_procs st p) \<noteq> Working then None
      else Some (set_process p ((sl_procs st p)\<lparr>sp_handoffs := set_add token (sp_handoffs (sl_procs st p))\<rparr>)
                   (st\<lparr>sl_handoffs := js_set token p (sl_handoffs st)\<rparr>)))"

definition forget_handoff :: "string \<Rightarrow> nat \<Rightarrow> session_lifecycle \<Rightarrow> session_lifecycle" where
  "forget_handoff token p st =
     set_process p ((sl_procs st p)\<lparr>sp_handoffs := set_del token (sp_handoffs (sl_procs st p))\<rparr>)
       (st\<lparr>sl_handoffs := js_delete token (sl_handoffs st)\<rparr>)"

definition consume_handoff ::
  "string \<Rightarrow> string \<Rightarrow> string option list \<Rightarrow> nat option \<Rightarrow> session_lifecycle \<Rightarrow> (nat option \<times> session_lifecycle) option" where
  "consume_handoff token scope identities listener st =
     (let t = js_trim token
      in case (if t = [] then None else js_get (sl_handoffs st) t) of
           None \<Rightarrow> Some (None, st)
         | Some p \<Rightarrow>
             (case normalize_session_identities scope identities of
                None \<Rightarrow> None
              | Some ids \<Rightarrow>
                  if ids = [] \<or> \<not> set ids \<subseteq> set (sp_ids (sl_procs st p)) then Some (None, st)
                  else
                    let st1 = forget_handoff t p st;
                        st2 = set_process p ((sl_procs st1 p)\<lparr>sp_listener := listener\<rparr>) st1
                    in Some (Some p, if sp_interrupted (sl_procs st2 p) then call_listener listener st2 else st2)))"

definition release_session_lease :: "nat \<Rightarrow> session_lifecycle \<Rightarrow> session_lifecycle" where
  "release_session_lease p st =
     (if sp_phase (sl_procs st p) = Working then to_phase p Finished (release p st) else st)"

definition cancel_handoff :: "string \<Rightarrow> session_lifecycle \<Rightarrow> bool \<times> session_lifecycle" where
  "cancel_handoff token st =
     (case js_get (sl_handoffs st) (js_trim token) of
        None \<Rightarrow> (False, st)
      | Some p \<Rightarrow> (True, release_session_lease p (forget_handoff (js_trim token) p st)))"

section \<open>Events\<close>

datatype session_event =
    Turn nat
  | PrepareEnds nat bool
  | RunEnds nat bool
  | AssertEnds nat bool
  | BarrierStarts nat
  | BarrierEnds nat bool
  | ReleaseLease nat
  | BeginMutation string "string option list" bool bool
  | BeginAdmission string "string option list" "nat option"
  | Abort nat
  | GateCloses bool
  | Interrupt "nat list" string "string option list"
  | CreateHandoff nat string
  | ConsumeHandoff string string "string option list" "nat option"
  | CancelHandoff string

definition when_phase :: "nat \<Rightarrow> session_phase \<Rightarrow> session_lifecycle \<Rightarrow> session_lifecycle \<Rightarrow> session_lifecycle option" where
  "when_phase p ph st st' = (if sp_phase (sl_procs st p) = ph then Some st' else None)"

fun session_step :: "session_lifecycle \<Rightarrow> session_event \<Rightarrow> session_lifecycle option" where
  "session_step st (Turn p) = turn p st"
| "session_step st (PrepareEnds p ok) = when_phase p Preparing st (prepare_ends ok p st)"
| "session_step st (RunEnds p ok) = when_phase p (Holding ToRun) st (done_with (Ran ok) p st)"
| "session_step st (AssertEnds p ok) = when_phase p Asserting st (assert_ends ok p st)"
| "session_step st (BarrierStarts p) = when_phase p (Barrier False) st (barrier_starts p st)"
| "session_step st (BarrierEnds p ok) = when_phase p (Barrier True) st (barrier_ends ok p st)"
| "session_step st (ReleaseLease p) = when_phase p Working st (release_session_lease p st)"
| "session_step st (BeginMutation scope ids compaction aborted) = begin_mutation scope ids compaction aborted st"
| "session_step st (BeginAdmission scope ids listener) = begin_admission scope ids listener st"
| "session_step st (Abort p) = (if p < sl_next st then Some (abort p st) else None)"
| "session_step st (GateCloses c) = Some (st\<lparr>sl_closed := c\<rparr>)"
| "session_step st (Interrupt current scope ids) = map_option snd (interrupt_admissions current scope ids st)"
| "session_step st (CreateHandoff p token) =
     (if js_get (sl_handoffs st) token = None then create_handoff p token st else None)"
| "session_step st (ConsumeHandoff token scope ids listener) = map_option snd (consume_handoff token scope ids listener st)"
| "session_step st (CancelHandoff token) = Some (snd (cancel_handoff token st))"

fun session_run :: "session_lifecycle \<Rightarrow> session_event list \<Rightarrow> session_lifecycle option" where
  "session_run st [] = Some st"
| "session_run st (e # es) = Option.bind (session_step st e) (\<lambda>st'. session_run st' es)"

inductive session_reachable :: "session_lifecycle \<Rightarrow> bool" where
  start: "session_reachable empty_lifecycle"
| step: "session_reachable st \<Longrightarrow> session_step st e = Some st' \<Longrightarrow> session_reachable st'"

end
