(* ===== verification/Lock_Lines.thy ===== *)
theory Lock_Lines
  imports Prelude
begin

text \<open>
  Locks taken one after the other in a global order, each a first-in-first-out line whose head holds it. A process
  \<open>p\<close> wants the locks \<open>ids p\<close>; it holds the first \<open>h p\<close> of them and stands in the lines of the first \<open>q p\<close>, so that
  it waits when \<open>q p = Suc (h p)\<close>. Both lock tables of \<open>sessions/session-lifecycle-admission.ts\<close> are used like this.
\<close>

definition lines_ok :: "('k \<Rightarrow> nat list) \<Rightarrow> (nat \<Rightarrow> 'k list) \<Rightarrow> (nat \<Rightarrow> nat) \<Rightarrow> (nat \<Rightarrow> nat) \<Rightarrow> bool" where
  "lines_ok L ids q h \<longleftrightarrow>
     (\<forall>p. h p \<le> q p \<and> q p \<le> Suc (h p) \<and> q p \<le> length (ids p)) \<and>
     (\<forall>i. distinct (L i)) \<and>
     (\<forall>i p. p \<in> set (L i) \<longleftrightarrow> i \<in> set (take (q p) (ids p))) \<and>
     (\<forall>p. \<forall>i \<in> set (take (h p) (ids p)). \<exists>r. L i = p # r)"

lemma lines_okD:
  assumes "lines_ok L ids q h"
  shows "h p \<le> q p" "q p \<le> Suc (h p)" "q p \<le> length (ids p)" "distinct (L i)"
    "p \<in> set (L i) \<longleftrightarrow> i \<in> set (take (q p) (ids p))"
    "i \<in> set (take (h p) (ids p)) \<Longrightarrow> \<exists>r. L i = p # r"
  using assms by (auto simp: lines_ok_def)

lemma lines_okI:
  assumes "\<And>p. h p \<le> q p" "\<And>p. q p \<le> Suc (h p)" "\<And>p. q p \<le> length (ids p)" "\<And>i. distinct (L i)"
    "\<And>i p. p \<in> set (L i) \<longleftrightarrow> i \<in> set (take (q p) (ids p))"
    "\<And>i p. i \<in> set (take (h p) (ids p)) \<Longrightarrow> \<exists>r. L i = p # r"
  shows "lines_ok L ids q h"
  using assms by (auto simp: lines_ok_def)

lemma lines_empty: "(\<And>p. q p = 0) \<Longrightarrow> (\<And>p. h p = 0) \<Longrightarrow> lines_ok (\<lambda>_. []) ids q h"
  by (simp add: lines_ok_def)

text \<open>A lock has one holder.\<close>

lemma lines_exclusive:
  assumes "lines_ok L ids q h" and "i \<in> set (take (h p) (ids p))" and "i \<in> set (take (h r) (ids r))"
  shows "p = r"
  using lines_okD(6) [OF assms(1,2)] lines_okD(6) [OF assms(1,3)] by auto

lemma nth_notin_take: "distinct xs \<Longrightarrow> n < length xs \<Longrightarrow> xs ! n \<notin> set (take n xs)"
  by (auto simp: in_set_conv_nth nth_eq_iff_index_eq)

lemma set_take_Suc: "n < length xs \<Longrightarrow> set (take (Suc n) xs) = insert (xs ! n) (set (take n xs))"
  by (simp add: take_Suc_conv_app_nth)

text \<open>Standing in the next line, being served, leaving the last lock, and a process without locks.\<close>

lemma lines_enter:
  assumes ok: "lines_ok L ids q h" and n: "q p = n" "h p = n" "n < length (ids p)" and d: "distinct (ids p)"
  shows "lines_ok (L(ids p ! n := L (ids p ! n) @ [p])) ids (q(p := Suc n)) h"
proof -
  let ?i = "ids p ! n"
  have new: "p \<notin> set (L ?i)" using lines_okD(5) [OF ok, of p ?i] n nth_notin_take [OF d, of n] by simp
  show ?thesis
  proof (rule lines_okI)
    show "h r \<le> (q(p := Suc n)) r" "(q(p := Suc n)) r \<le> Suc (h r)" "(q(p := Suc n)) r \<le> length (ids r)" for r
      using lines_okD(1-3) [OF ok, of r] n by auto
    show "distinct ((L(?i := L ?i @ [p])) i)" for i using lines_okD(4) [OF ok, of i] new by auto
    show "r \<in> set ((L(?i := L ?i @ [p])) i) \<longleftrightarrow> i \<in> set (take ((q(p := Suc n)) r) (ids r))" for i r
      using lines_okD(5) [OF ok, of r i] lines_okD(5) [OF ok, of r ?i] n by (auto simp: set_take_Suc)
    show "\<exists>s. (L(?i := L ?i @ [p])) i = r # s" if "i \<in> set (take (h r) (ids r))" for i r
      using lines_okD(6) [OF ok that] by auto
  qed
qed

lemma lines_serve:
  assumes ok: "lines_ok L ids q h" and n: "q p = Suc n" "h p = n" and head: "L (ids p ! n) = p # r"
  shows "lines_ok L ids q (h(p := Suc n))"
proof (rule lines_okI)
  have len: "n < length (ids p)" using lines_okD(3) [OF ok, of p] n by simp
  show "(h(p := Suc n)) s \<le> q s" "q s \<le> Suc ((h(p := Suc n)) s)" "q s \<le> length (ids s)" for s
    using lines_okD(1-3) [OF ok, of s] n by auto
  show "distinct (L i)" for i by (rule lines_okD(4) [OF ok])
  show "s \<in> set (L i) \<longleftrightarrow> i \<in> set (take (q s) (ids s))" for i s by (rule lines_okD(5) [OF ok])
  show "\<exists>t. L i = s # t" if "i \<in> set (take ((h(p := Suc n)) s) (ids s))" for i s
    using that lines_okD(6) [OF ok, of i s] head len n by (auto simp: set_take_Suc split: if_splits)
qed

lemma lines_leave:
  assumes ok: "lines_ok L ids q h" and n: "q p = Suc n" "h p = Suc n" and d: "distinct (ids p)"
  shows "lines_ok (L(ids p ! n := tl (L (ids p ! n)))) ids (q(p := n)) (h(p := n))"
proof -
  let ?i = "ids p ! n"
  have len: "n < length (ids p)" using lines_okD(3) [OF ok, of p] n by simp
  then obtain r where head: "L ?i = p # r" using lines_okD(6) [OF ok, of ?i p] n by (auto simp: set_take_Suc)
  have out: "p \<notin> set r" using lines_okD(4) [OF ok, of ?i] head by simp
  have only: "s = p" if "?i \<in> set (take (h s) (ids s))" for s using lines_okD(6) [OF ok that] head by simp
  have nin: "?i \<notin> set (take n (ids p))" by (rule nth_notin_take [OF d len])
  show ?thesis
  proof (rule lines_okI)
    show "(h(p := n)) s \<le> (q(p := n)) s" "(q(p := n)) s \<le> Suc ((h(p := n)) s)" "(q(p := n)) s \<le> length (ids s)" for s
      using lines_okD(1-3) [OF ok, of s] n by auto
    show "distinct ((L(?i := tl (L ?i))) i)" for i using lines_okD(4) [OF ok, of i] by (auto intro: distinct_tl)
    show "s \<in> set ((L(?i := tl (L ?i))) i) \<longleftrightarrow> i \<in> set (take ((q(p := n)) s) (ids s))" for i s
      using lines_okD(5) [OF ok, of s i] lines_okD(5) [OF ok, of s ?i] head out nin n len by (auto simp: set_take_Suc)
    show "\<exists>t. (L(?i := tl (L ?i))) i = s # t" if "i \<in> set (take ((h(p := n)) s) (ids s))" for i s
      using that lines_okD(6) [OF ok, of i s] only [of s] nin n len by (auto simp: set_take_Suc split: if_splits)
  qed
qed

lemma lines_change:
  assumes ok: "lines_ok L ids q h" and same: "\<And>r. q' r = q r" "\<And>r. h' r = h r" "\<And>r. q r \<noteq> 0 \<Longrightarrow> ids' r = ids r"
  shows "lines_ok L ids' q' h'"
proof -
  have h0: "q r = 0 \<Longrightarrow> h r = 0" for r using lines_okD(1) [OF ok, of r] by simp
  have t: "take (q' r) (ids' r) = take (q r) (ids r)" "take (h' r) (ids' r) = take (h r) (ids r)" for r
    using same h0 [of r] by (cases "q r = 0"; simp)+
  have len: "q' r \<le> length (ids' r)" for r using same lines_okD(3) [OF ok, of r] by (cases "q r = 0") auto
  show ?thesis
  proof (rule lines_okI)
    show "h' p \<le> q' p" "q' p \<le> Suc (h' p)" for p using lines_okD(1,2) [OF ok, of p] same by simp_all
    show "p \<in> set (L i) \<longleftrightarrow> i \<in> set (take (q' p) (ids' p))" for i p unfolding t by (rule lines_okD(5) [OF ok])
    show "\<exists>r. L i = p # r" if "i \<in> set (take (h' p) (ids' p))" for i p
      by (rule lines_okD(6) [OF ok that [unfolded t]])
  qed (use len lines_okD(4) [OF ok] in auto)
qed

text \<open>
  Locks taken in increasing order do not deadlock: when anybody waits, somebody is served or holds all it asked for.
\<close>

lemma lines_progress:
  fixes ids :: "nat \<Rightarrow> 'k :: linorder list"
  assumes ok: "lines_ok L ids q h" and order: "\<And>p. sorted_wrt (<) (ids p)" and fin: "finite {p. q p \<noteq> 0}"
    and waiting: "q p = Suc (h p)"
  obtains r where "q r = Suc (h r)" "\<exists>t. L (ids r ! h r) = r # t" | r where "q r = h r" "0 < h r"
proof -
  let ?W = "{p. q p = Suc (h p)}"
  have finW: "finite ?W" by (rule finite_subset [OF _ fin]) auto
  define m where "m = Max ((\<lambda>p. ids p ! h p) ` ?W)"
  have "m \<in> (\<lambda>p. ids p ! h p) ` ?W" unfolding m_def by (rule Max_in) (use finW waiting in auto)
  then obtain w where w: "q w = Suc (h w)" "ids w ! h w = m" by auto
  have max: "ids s ! h s \<le> m" if "q s = Suc (h s)" for s
    unfolding m_def by (rule Max_ge) (use finW that in auto)
  have lw: "h w < length (ids w)" using lines_okD(3) [OF ok, of w] w by simp
  then have "w \<in> set (L m)" using lines_okD(5) [OF ok, of w m] w by (simp add: set_take_Suc)
  then obtain r t where r: "L m = r # t" by (cases "L m") auto
  then have "m \<in> set (take (q r) (ids r))" using lines_okD(5) [OF ok, of r m] by simp
  then have cases: "m \<in> set (take (h r) (ids r)) \<or> q r = Suc (h r) \<and> m = ids r ! h r"
    using lines_okD(1-3) [OF ok, of r] by (cases "q r = h r") (auto simp: set_take_Suc le_Suc_eq)
  show thesis
  proof (cases "q r = Suc (h r)")
    case True
    have lr: "h r < length (ids r)" using lines_okD(3) [OF ok, of r] True by simp
    have "m \<notin> set (take (h r) (ids r))"
    proof
      assume "m \<in> set (take (h r) (ids r))"
      then obtain j where j: "j < h r" "ids r ! j = m" by (auto simp: in_set_conv_nth)
      then have "m < ids r ! h r" using sorted_wrt_nth_less [OF order [of r], of j "h r"] lr by simp
      then show False using max [OF True] by simp
    qed
    then have "m = ids r ! h r" using cases by blast
    then show thesis using that(1) True r by simp
  next
    case False
    then have qh: "q r = h r" using lines_okD(1,2) [OF ok, of r] by simp
    have "m \<in> set (take (h r) (ids r))" using cases False by simp
    then show thesis using that(2) [OF qh] by (cases "h r") auto
  qed
qed

end
