(* ===== verification/Session_Lifecycle_Inv.thy ===== *)
theory Session_Lifecycle_Inv
  imports Session_Lifecycle Lock_Lines
begin

text \<open>
  The invariant of the session lifecycle: the lines of both lock tables agree with the phases, the indexes of active
  mutations and of admissions are those of the phases, nobody waits for an identity without an active mutation, and
  handoffs belong to working leases. Each part is preserved by every event.
\<close>

section \<open>What a phase stands for\<close>

definition lock_held :: "session_process \<Rightarrow> nat" where
  "lock_held x = (case sp_phase x of
     Taking g n \<Rightarrow> n | Holding g \<Rightarrow> length (sp_ids x) | Asserting \<Rightarrow> length (sp_ids x) | Barrier b \<Rightarrow> length (sp_ids x)
   | Leaving r n \<Rightarrow> n | _ \<Rightarrow> 0)"

definition lock_queued :: "session_process \<Rightarrow> nat" where
  "lock_queued x = (case sp_phase x of Taking g n \<Rightarrow> Suc n | _ \<Rightarrow> lock_held x)"

definition of_mutation :: "lock_result \<Rightarrow> bool" where
  "of_mutation r \<longleftrightarrow> r \<notin> {Blocked, Refused, Leased}"

definition mutation_held :: "session_process \<Rightarrow> nat" where
  "mutation_held x = (case sp_phase x of
     MutationTaking n \<Rightarrow> n | MutationLeaving n ok \<Rightarrow> n | Preparing \<Rightarrow> length (sp_ids x)
   | Taking g n \<Rightarrow> if g = ToAdmit then 0 else length (sp_ids x)
   | Holding g \<Rightarrow> if g = ToAdmit then 0 else length (sp_ids x)
   | Leaving r n \<Rightarrow> if of_mutation r then length (sp_ids x) else 0 | _ \<Rightarrow> 0)"

definition mutation_queued :: "session_process \<Rightarrow> nat" where
  "mutation_queued x = (case sp_phase x of MutationTaking n \<Rightarrow> Suc n | _ \<Rightarrow> mutation_held x)"

definition active_goal :: "lock_goal \<Rightarrow> bool" where
  "active_goal g \<longleftrightarrow> g \<noteq> ToActivate \<and> g \<noteq> ToAdmit"

definition mutating :: "session_process \<Rightarrow> bool" where
  "mutating x \<longleftrightarrow> (case sp_phase x of
     Preparing \<Rightarrow> True | Taking g n \<Rightarrow> active_goal g | Holding g \<Rightarrow> active_goal g
   | Leaving r n \<Rightarrow> r = Activated \<or> (\<exists>ok. r = Ran ok) | _ \<Rightarrow> False)"

definition being_admitted :: "session_process \<Rightarrow> bool" where
  "being_admitted x \<longleftrightarrow> (case sp_phase x of Asserting \<Rightarrow> True | Barrier b \<Rightarrow> True | _ \<Rightarrow> False)"

definition registered :: "session_process \<Rightarrow> bool" where
  "registered x \<longleftrightarrow> (case sp_phase x of Barrier b \<Rightarrow> True | Leaving r n \<Rightarrow> r = Leased | Working \<Rightarrow> True | _ \<Rightarrow> False)"

lemmas phase_defs = lock_held_def lock_queued_def mutation_held_def mutation_queued_def mutating_def being_admitted_def
  registered_def of_mutation_def active_goal_def

section \<open>Effects of the operations\<close>

lemma set_process_simps [simp]:
  "sl_procs (set_process p x st) = (sl_procs st)(p := x)"
  "sl_mutation_lines (set_process p x st) = sl_mutation_lines st" "sl_lines (set_process p x st) = sl_lines st"
  "sl_active (set_process p x st) = sl_active st" "sl_kinds (set_process p x st) = sl_kinds st"
  "sl_runs (set_process p x st) = sl_runs st" "sl_waiters (set_process p x st) = sl_waiters st"
  "sl_admissions (set_process p x st) = sl_admissions st" "sl_handoffs (set_process p x st) = sl_handoffs st"
  "sl_next (set_process p x st) = sl_next st" "sl_closed (set_process p x st) = sl_closed st"
  by (simp_all add: set_process_def)

lemma to_phase_simps [simp]:
  "sl_procs (to_phase p ph st) = (sl_procs st)(p := (sl_procs st p)\<lparr>sp_phase := ph\<rparr>)"
  "sl_mutation_lines (to_phase p ph st) = sl_mutation_lines st" "sl_lines (to_phase p ph st) = sl_lines st"
  "sl_active (to_phase p ph st) = sl_active st" "sl_kinds (to_phase p ph st) = sl_kinds st"
  "sl_runs (to_phase p ph st) = sl_runs st" "sl_waiters (to_phase p ph st) = sl_waiters st"
  "sl_admissions (to_phase p ph st) = sl_admissions st" "sl_handoffs (to_phase p ph st) = sl_handoffs st"
  "sl_next (to_phase p ph st) = sl_next st"
  by (simp_all add: to_phase_def)

lemma done_with_simps [simp]:
  "sl_procs (done_with r p st) = (sl_procs st)(p := (sl_procs st p)\<lparr>sp_phase := Leaving r (length (sp_ids (sl_procs st p)))\<rparr>)"
  "sl_mutation_lines (done_with r p st) = sl_mutation_lines st" "sl_lines (done_with r p st) = sl_lines st"
  "sl_active (done_with r p st) = sl_active st" "sl_kinds (done_with r p st) = sl_kinds st"
  "sl_runs (done_with r p st) = sl_runs st" "sl_waiters (done_with r p st) = sl_waiters st"
  "sl_admissions (done_with r p st) = sl_admissions st" "sl_handoffs (done_with r p st) = sl_handoffs st"
  "sl_next (done_with r p st) = sl_next st"
  by (simp_all add: done_with_def)

lemma enter_locks_simps [simp]:
  "sl_procs (enter_locks g n p st) = (sl_procs st)(p := (sl_procs st p)\<lparr>sp_phase :=
     (if n < length (sp_ids (sl_procs st p)) then Taking g n else Holding g)\<rparr>)"
  "sl_mutation_lines (enter_locks g n p st) = sl_mutation_lines st"
  "sl_active (enter_locks g n p st) = sl_active st" "sl_kinds (enter_locks g n p st) = sl_kinds st"
  "sl_runs (enter_locks g n p st) = sl_runs st" "sl_waiters (enter_locks g n p st) = sl_waiters st"
  "sl_admissions (enter_locks g n p st) = sl_admissions st" "sl_handoffs (enter_locks g n p st) = sl_handoffs st"
  "sl_next (enter_locks g n p st) = sl_next st"
  by (simp_all add: enter_locks_def Let_def)

lemma enter_mutation_locks_simps [simp]:
  "sl_procs (enter_mutation_locks n p st) = (sl_procs st)(p := (sl_procs st p)\<lparr>sp_phase :=
     (if n < length (sp_ids (sl_procs st p)) then MutationTaking n
      else if sp_ids (sl_procs st p) \<noteq> [] then Taking ToActivate 0 else Holding ToActivate)\<rparr>)"
  "sl_active (enter_mutation_locks n p st) = sl_active st" "sl_kinds (enter_mutation_locks n p st) = sl_kinds st"
  "sl_runs (enter_mutation_locks n p st) = sl_runs st" "sl_waiters (enter_mutation_locks n p st) = sl_waiters st"
  "sl_admissions (enter_mutation_locks n p st) = sl_admissions st" "sl_handoffs (enter_mutation_locks n p st) = sl_handoffs st"
  "sl_next (enter_mutation_locks n p st) = sl_next st"
  by (simp_all add: enter_mutation_locks_def Let_def)

lemma leave_lock_simps [simp]:
  "sl_procs (leave_lock r n p st) = (sl_procs st)(p := (sl_procs st p)\<lparr>sp_phase := Leaving r n\<rparr>)"
  "sl_mutation_lines (leave_lock r n p st) = sl_mutation_lines st"
  "sl_active (leave_lock r n p st) = sl_active st" "sl_kinds (leave_lock r n p st) = sl_kinds st"
  "sl_runs (leave_lock r n p st) = sl_runs st" "sl_waiters (leave_lock r n p st) = sl_waiters st"
  "sl_admissions (leave_lock r n p st) = sl_admissions st" "sl_handoffs (leave_lock r n p st) = sl_handoffs st"
  "sl_next (leave_lock r n p st) = sl_next st"
  by (simp_all add: leave_lock_def Let_def)

lemma leave_mutation_lock_simps [simp]:
  "sl_procs (leave_mutation_lock ok n p st) = (sl_procs st)(p := (sl_procs st p)\<lparr>sp_phase := MutationLeaving n ok\<rparr>)"
  "sl_lines (leave_mutation_lock ok n p st) = sl_lines st"
  "sl_active (leave_mutation_lock ok n p st) = sl_active st" "sl_kinds (leave_mutation_lock ok n p st) = sl_kinds st"
  "sl_runs (leave_mutation_lock ok n p st) = sl_runs st" "sl_waiters (leave_mutation_lock ok n p st) = sl_waiters st"
  "sl_admissions (leave_mutation_lock ok n p st) = sl_admissions st" "sl_handoffs (leave_mutation_lock ok n p st) = sl_handoffs st"
  "sl_next (leave_mutation_lock ok n p st) = sl_next st"
  by (simp_all add: leave_mutation_lock_def Let_def)

lemma finish_simps [simp]:
  "sl_procs (finish ok p st) = (sl_procs st)(p := (sl_procs st p)\<lparr>sp_phase := Finished,
     sp_result := (case sp_result (sl_procs st p) of None \<Rightarrow> Some ok | r \<Rightarrow> r)\<rparr>)"
  "sl_mutation_lines (finish ok p st) = sl_mutation_lines st" "sl_lines (finish ok p st) = sl_lines st"
  "sl_active (finish ok p st) = sl_active st" "sl_kinds (finish ok p st) = sl_kinds st"
  "sl_runs (finish ok p st) = sl_runs st" "sl_waiters (finish ok p st) = sl_waiters st"
  "sl_admissions (finish ok p st) = sl_admissions st" "sl_handoffs (finish ok p st) = sl_handoffs st"
  "sl_next (finish ok p st) = sl_next st"
  by (simp_all add: finish_def Let_def)

lemma activate_simps [simp]:
  "sl_procs (activate p st) = sl_procs st" "sl_mutation_lines (activate p st) = sl_mutation_lines st"
  "sl_lines (activate p st) = sl_lines st" "sl_waiters (activate p st) = sl_waiters st"
  "sl_admissions (activate p st) = sl_admissions st" "sl_handoffs (activate p st) = sl_handoffs st"
  "sl_next (activate p st) = sl_next st"
  by (simp_all add: activate_def Let_def)

lemma register_simps [simp]:
  "sl_procs (register p st) = sl_procs st" "sl_mutation_lines (register p st) = sl_mutation_lines st"
  "sl_lines (register p st) = sl_lines st" "sl_active (register p st) = sl_active st" "sl_kinds (register p st) = sl_kinds st"
  "sl_runs (register p st) = sl_runs st" "sl_waiters (register p st) = sl_waiters st"
  "sl_handoffs (register p st) = sl_handoffs st" "sl_next (register p st) = sl_next st"
  by (simp_all add: register_def Let_def)

lemma release_simps [simp]:
  "sl_procs (release p st) = (sl_procs st)(p := (sl_procs st p)\<lparr>sp_handoffs := []\<rparr>)"
  "sl_mutation_lines (release p st) = sl_mutation_lines st" "sl_lines (release p st) = sl_lines st"
  "sl_active (release p st) = sl_active st" "sl_kinds (release p st) = sl_kinds st" "sl_runs (release p st) = sl_runs st"
  "sl_waiters (release p st) = sl_waiters st" "sl_next (release p st) = sl_next st"
  by (simp_all add: release_def clear_handoffs_def)

lemma call_listener_simps [simp]:
  "sl_procs (call_listener l st) = sl_procs st" "sl_mutation_lines (call_listener l st) = sl_mutation_lines st"
  "sl_lines (call_listener l st) = sl_lines st" "sl_active (call_listener l st) = sl_active st"
  "sl_kinds (call_listener l st) = sl_kinds st" "sl_runs (call_listener l st) = sl_runs st"
  "sl_waiters (call_listener l st) = sl_waiters st" "sl_admissions (call_listener l st) = sl_admissions st"
  "sl_handoffs (call_listener l st) = sl_handoffs st" "sl_next (call_listener l st) = sl_next st"
  by (simp_all add: call_listener_def split: option.split)

text \<open>What the deactivation of a list of identities does to the processes.\<close>

lemma deactivate_identity_simps [simp]:
  "sl_mutation_lines (deactivate_identity c i st) = sl_mutation_lines st"
  "sl_lines (deactivate_identity c i st) = sl_lines st" "sl_active (deactivate_identity c i st) = drop_one i (sl_active st)"
  "sl_kinds (deactivate_identity c i st) = (if c then drop_one i (sl_kinds st) else sl_kinds st)"
  "sl_runs (deactivate_identity c i st) = sl_runs st" "sl_admissions (deactivate_identity c i st) = sl_admissions st"
  "sl_handoffs (deactivate_identity c i st) = sl_handoffs st" "sl_next (deactivate_identity c i st) = sl_next st"
  by (simp_all add: deactivate_identity_def resolve_waiters_def Let_def)

lemma fold_deactivate_simps [simp]:
  "sl_mutation_lines (fold (deactivate_identity c) is st) = sl_mutation_lines st"
  "sl_lines (fold (deactivate_identity c) is st) = sl_lines st"
  "sl_active (fold (deactivate_identity c) is st) = fold drop_one is (sl_active st)"
  "sl_kinds (fold (deactivate_identity c) is st) = (if c then fold drop_one is (sl_kinds st) else sl_kinds st)"
  "sl_runs (fold (deactivate_identity c) is st) = sl_runs st"
  "sl_admissions (fold (deactivate_identity c) is st) = sl_admissions st"
  "sl_handoffs (fold (deactivate_identity c) is st) = sl_handoffs st"
  "sl_next (fold (deactivate_identity c) is st) = sl_next st"
  by (induction "is" arbitrary: st) simp_all

lemma deactivate_simps [simp]:
  "sl_mutation_lines (deactivate p st) = sl_mutation_lines st" "sl_lines (deactivate p st) = sl_lines st"
  "sl_active (deactivate p st) = fold drop_one (sp_ids (sl_procs st p)) (sl_active st)"
  "sl_kinds (deactivate p st) =
     (if is_compaction (sl_procs st p) then fold drop_one (sp_ids (sl_procs st p)) (sl_kinds st) else sl_kinds st)"
  "sl_runs (deactivate p st) = set_del p (sl_runs st)" "sl_admissions (deactivate p st) = sl_admissions st"
  "sl_handoffs (deactivate p st) = sl_handoffs st" "sl_next (deactivate p st) = sl_next st"
  by (simp_all add: deactivate_def Let_def)

lemma stops_waiting_keeps [simp]:
  "sp_ids (no_longer_waits_for i x) = sp_ids x" "sp_work (no_longer_waits_for i x) = sp_work x"
  "sp_aborted (no_longer_waits_for i x) = sp_aborted x" "sp_result (no_longer_waits_for i x) = sp_result x"
  "sp_handoffs (no_longer_waits_for i x) = sp_handoffs x" "sp_listener (no_longer_waits_for i x) = sp_listener x"
  "lock_held (no_longer_waits_for i x) = lock_held x" "lock_queued (no_longer_waits_for i x) = lock_queued x"
  "mutation_held (no_longer_waits_for i x) = mutation_held x" "mutation_queued (no_longer_waits_for i x) = mutation_queued x"
  "mutating (no_longer_waits_for i x) = mutating x" "being_admitted (no_longer_waits_for i x) = being_admitted x"
  "registered (no_longer_waits_for i x) = registered x" "is_compaction (no_longer_waits_for i x) = is_compaction x"
  by (simp_all add: no_longer_waits_for_def phase_defs is_compaction_def split: session_phase.split)

lemma stops_waiting_other: "(\<And>ws. sp_phase x \<noteq> Waiting ws) \<Longrightarrow> no_longer_waits_for i x = x"
  by (simp add: no_longer_waits_for_def split: session_phase.split)

lemma deactivation_keeps:
  assumes "\<And>i x. f (no_longer_waits_for i x) = f x"
  shows "f (sl_procs (deactivate p st) q) = f (sl_procs st q)"
proof -
  have one: "f (sl_procs (deactivate_identity c i s) q) = f (sl_procs s q)" for c i s
    using assms by (simp add: deactivate_identity_def resolve_waiters_def Let_def)
  have "f (sl_procs (fold (deactivate_identity c) is s) q) = f (sl_procs s q)" for c "is" s
    by (induction "is" arbitrary: s) (simp_all add: one)
  then show ?thesis by (simp add: deactivate_def Let_def)
qed

lemma deactivate_keeps [simp]:
  "sp_ids (sl_procs (deactivate p st) q) = sp_ids (sl_procs st q)"
  "sp_work (sl_procs (deactivate p st) q) = sp_work (sl_procs st q)"
  "sp_aborted (sl_procs (deactivate p st) q) = sp_aborted (sl_procs st q)"
  "sp_result (sl_procs (deactivate p st) q) = sp_result (sl_procs st q)"
  "sp_handoffs (sl_procs (deactivate p st) q) = sp_handoffs (sl_procs st q)"
  "lock_held (sl_procs (deactivate p st) q) = lock_held (sl_procs st q)"
  "lock_queued (sl_procs (deactivate p st) q) = lock_queued (sl_procs st q)"
  "mutation_held (sl_procs (deactivate p st) q) = mutation_held (sl_procs st q)"
  "mutation_queued (sl_procs (deactivate p st) q) = mutation_queued (sl_procs st q)"
  "mutating (sl_procs (deactivate p st) q) = mutating (sl_procs st q)"
  "being_admitted (sl_procs (deactivate p st) q) = being_admitted (sl_procs st q)"
  "registered (sl_procs (deactivate p st) q) = registered (sl_procs st q)"
  "is_compaction (sl_procs (deactivate p st) q) = is_compaction (sl_procs st q)"
  by (rule deactivation_keeps, simp)+

lemma deactivate_other:
  assumes "\<And>ws. sp_phase (sl_procs st q) \<noteq> Waiting ws"
  shows "sl_procs (deactivate p st) q = sl_procs st q"
proof -
  define x where "x = sl_procs st q"
  have x: "no_longer_waits_for i x = x" for i by (rule stops_waiting_other) (use assms in \<open>simp add: x_def\<close>)
  have one: "sl_procs s q = x \<Longrightarrow> sl_procs (deactivate_identity c i s) q = x" for c i s
    by (simp add: deactivate_identity_def resolve_waiters_def Let_def x)
  have "sl_procs s q = x \<Longrightarrow> sl_procs (fold (deactivate_identity c) is s) q = x" for c "is" s
    by (induction "is" arbitrary: s) (simp_all add: one)
  then show ?thesis by (simp add: deactivate_def Let_def x_def)
qed

section \<open>Locks\<close>

definition ids_of :: "session_lifecycle \<Rightarrow> nat \<Rightarrow> string list" where
  "ids_of st p = sp_ids (sl_procs st p)"

text \<open>Both tables, read as if the process \<open>p\<close> stood at the given places of its lines.\<close>

definition locks_at :: "session_lifecycle \<Rightarrow> nat \<Rightarrow> nat \<Rightarrow> nat \<Rightarrow> bool" where
  "locks_at st p q h \<longleftrightarrow> lines_ok (sl_lines st) (ids_of st)
     ((\<lambda>r. lock_queued (sl_procs st r))(p := q)) ((\<lambda>r. lock_held (sl_procs st r))(p := h))"

definition mutations_at :: "session_lifecycle \<Rightarrow> nat \<Rightarrow> nat \<Rightarrow> nat \<Rightarrow> bool" where
  "mutations_at st p q h \<longleftrightarrow> lines_ok (sl_mutation_lines st) (ids_of st)
     ((\<lambda>r. mutation_queued (sl_procs st r))(p := q)) ((\<lambda>r. mutation_held (sl_procs st r))(p := h))"

definition locks_ok :: "session_lifecycle \<Rightarrow> bool" where
  "locks_ok st \<longleftrightarrow>
     lines_ok (sl_lines st) (ids_of st) (\<lambda>r. lock_queued (sl_procs st r)) (\<lambda>r. lock_held (sl_procs st r)) \<and>
     lines_ok (sl_mutation_lines st) (ids_of st) (\<lambda>r. mutation_queued (sl_procs st r)) (\<lambda>r. mutation_held (sl_procs st r)) \<and>
     (\<forall>p. sorted_wrt (<) (ids_of st p)) \<and> (\<forall>p \<ge> sl_next st. sp_phase (sl_procs st p) = Finished)"

lemma locks_okD:
  assumes "locks_ok st"
  shows "lines_ok (sl_lines st) (ids_of st) (\<lambda>r. lock_queued (sl_procs st r)) (\<lambda>r. lock_held (sl_procs st r))"
    "lines_ok (sl_mutation_lines st) (ids_of st) (\<lambda>r. mutation_queued (sl_procs st r)) (\<lambda>r. mutation_held (sl_procs st r))"
    "sorted_wrt (<) (ids_of st p)" "distinct (ids_of st p)" "sl_next st \<le> p \<Longrightarrow> sp_phase (sl_procs st p) = Finished"
  using assms by (auto simp: locks_ok_def strict_sorted_iff)

lemma locks_at_place:
  assumes "locks_ok st"
  shows "locks_at st p (lock_queued (sl_procs st p)) (lock_held (sl_procs st p))"
    "mutations_at st p (mutation_queued (sl_procs st p)) (mutation_held (sl_procs st p))"
proof -
  have eq: "(\<lambda>r. f (sl_procs st r))(p := f (sl_procs st p)) = (\<lambda>r. f (sl_procs st r))" for f :: "session_process \<Rightarrow> nat"
    by auto
  show "locks_at st p (lock_queued (sl_procs st p)) (lock_held (sl_procs st p))"
    "mutations_at st p (mutation_queued (sl_procs st p)) (mutation_held (sl_procs st p))"
    using locks_okD(1,2) [OF assms] by (simp_all add: locks_at_def mutations_at_def eq)
qed

text \<open>A state that differs in the process \<open>p\<close> and in its places only.\<close>

lemma locks_okI:
  assumes at: "locks_at st p q h" "mutations_at st p q' h'"
    and lines: "sl_lines st' = sl_lines st" "sl_mutation_lines st' = sl_mutation_lines st" "sl_next st' = sl_next st"
    and procs: "\<And>r. sl_procs st' r = (if r = p then x else sl_procs st r)" and ids: "sp_ids x = sp_ids (sl_procs st p)"
    and place: "lock_queued x = q" "lock_held x = h" "mutation_queued x = q'" "mutation_held x = h'"
    and ok: "\<And>r. sorted_wrt (<) (ids_of st r)" "\<And>r. sl_next st \<le> r \<Longrightarrow> sp_phase (sl_procs st r) = Finished" "p < sl_next st"
  shows "locks_ok st'"
proof -
  have i: "ids_of st' = ids_of st" using ids by (auto simp: ids_of_def procs)
  have "(\<lambda>r. f (sl_procs st' r)) = (\<lambda>r. f (sl_procs st r))(p := f x)" for f :: "session_process \<Rightarrow> nat"
    by (auto simp: procs)
  note f = this
  have "(\<lambda>r. lock_queued (sl_procs st' r)) = (\<lambda>r. lock_queued (sl_procs st r))(p := q)"
    "(\<lambda>r. lock_held (sl_procs st' r)) = (\<lambda>r. lock_held (sl_procs st r))(p := h)"
    "(\<lambda>r. mutation_queued (sl_procs st' r)) = (\<lambda>r. mutation_queued (sl_procs st r))(p := q')"
    "(\<lambda>r. mutation_held (sl_procs st' r)) = (\<lambda>r. mutation_held (sl_procs st r))(p := h')"
    using f [of lock_queued] f [of lock_held] f [of mutation_queued] f [of mutation_held] place by simp_all
  then show ?thesis
    using at lines ok by (simp add: locks_ok_def i locks_at_def mutations_at_def) (auto simp: procs)
qed

text \<open>Moves of one process.\<close>

lemma locks_phase:
  assumes ok: "locks_ok st" and p: "p < sl_next st"
    and lines: "sl_lines st' = sl_lines st" "sl_mutation_lines st' = sl_mutation_lines st" "sl_next st' = sl_next st"
    and procs: "sl_procs st' = (sl_procs st)(p := x)" and ids: "sp_ids x = sp_ids (sl_procs st p)"
    and place: "lock_queued x = lock_queued (sl_procs st p)" "lock_held x = lock_held (sl_procs st p)"
      "mutation_queued x = mutation_queued (sl_procs st p)" "mutation_held x = mutation_held (sl_procs st p)"
  shows "locks_ok st'"
  by (rule locks_okI [OF locks_at_place [OF ok, of p] lines, of x])
     (use assms locks_okD [OF ok] in auto)

lemma locks_calm:
  assumes ok: "locks_ok st"
    and lines: "sl_lines st' = sl_lines st" "sl_mutation_lines st' = sl_mutation_lines st" "sl_next st' = sl_next st"
    and same: "\<And>r. sp_ids (sl_procs st' r) = sp_ids (sl_procs st r)" "\<And>r. lock_queued (sl_procs st' r) = lock_queued (sl_procs st r)"
      "\<And>r. lock_held (sl_procs st' r) = lock_held (sl_procs st r)" "\<And>r. mutation_queued (sl_procs st' r) = mutation_queued (sl_procs st r)"
      "\<And>r. mutation_held (sl_procs st' r) = mutation_held (sl_procs st r)"
      "\<And>r. sl_next st \<le> r \<Longrightarrow> sp_phase (sl_procs st r) = Finished \<Longrightarrow> sp_phase (sl_procs st' r) = Finished"
  shows "locks_ok st'"
proof -
  have "ids_of st' = ids_of st" by (simp add: ids_of_def fun_eq_iff same)
  then show ?thesis using locks_okD(1-3) [OF ok] locks_okD(5) [OF ok] same by (simp add: locks_ok_def lines)
qed

lemma locks_enter:
  assumes ok: "locks_ok st" and p: "p < sl_next st"
    and at: "locks_at st p n n" and n: "n \<le> length (ids_of st p)"
    and m: "mutation_queued (sl_procs st p) = k" "mutation_held (sl_procs st p) = k" "k = (if g = ToAdmit then 0 else length (ids_of st p))"
  shows "locks_ok (enter_locks g n p st)"
proof -
  note d = locks_okD [OF ok]
  have mat: "mutations_at st p k k" using locks_at_place(2) [OF ok, of p] m by simp
  show ?thesis
  proof (cases "n < length (ids_of st p)")
    case True
    let ?i = "ids_of st p ! n"
    define s where "s = st\<lparr>sl_lines := (sl_lines st)(?i := sl_lines st ?i @ [p])\<rparr>"
    have s: "ids_of s = ids_of st" "sl_procs s = sl_procs st" "sl_next s = sl_next st" "sl_mutation_lines s = sl_mutation_lines st"
      by (simp_all add: s_def ids_of_def fun_eq_iff)
    have "lines_ok (sl_lines s) (ids_of st) (((\<lambda>r. lock_queued (sl_procs st r))(p := n))(p := Suc n)) ((\<lambda>r. lock_held (sl_procs st r))(p := n))"
      unfolding s_def using lines_enter [OF at [unfolded locks_at_def], of p n] True d(4) by simp
    then have "locks_at s p (Suc n) n" by (simp add: locks_at_def s)
    moreover have "mutations_at s p k k" using mat by (simp add: mutations_at_def s)
    moreover have "enter_locks g n p st = to_phase p (Taking g n) s"
      using True by (simp add: enter_locks_def s_def ids_of_def Let_def)
    ultimately show ?thesis using d(3,5) p m(3)
      by (intro locks_okI [where st = s and x = "(sl_procs st p)\<lparr>sp_phase := Taking g n\<rparr>" and q = "Suc n" and h = n and q' = k and h' = k])
         (auto simp: s phase_defs ids_of_def)
  next
    case False
    then have n': "n = length (sp_ids (sl_procs st p))" using n by (simp add: ids_of_def)
    have e: "enter_locks g n p st = to_phase p (Holding g) st" using False by (simp add: enter_locks_def ids_of_def Let_def)
    show ?thesis unfolding e
      by (rule locks_okI [OF at mat, where x = "(sl_procs st p)\<lparr>sp_phase := Holding g\<rparr>"])
         (use d(3,5) p m(3) n' in \<open>auto simp: phase_defs ids_of_def\<close>)
  qed
qed

lemma locks_served:
  assumes "locks_ok st" and "sp_phase (sl_procs st p) = Taking g n" and "at_head p (sl_lines st (ids_of st p ! n))"
  shows "locks_at st p (Suc n) (Suc n)" "Suc n \<le> length (ids_of st p)"
proof -
  obtain r where r: "sl_lines st (ids_of st p ! n) = p # r" using assms(3) by (auto simp: at_head_def split: list.splits)
  have q: "lock_queued (sl_procs st p) = Suc n" "lock_held (sl_procs st p) = n" using assms(2) by (simp_all add: phase_defs)
  show "locks_at st p (Suc n) (Suc n)"
    using lines_serve [OF locks_at_place(1) [OF assms(1), of p, unfolded locks_at_def], of p n r] q r by (simp add: locks_at_def)
  show "Suc n \<le> length (ids_of st p)" using lines_okD(3) [OF locks_okD(1) [OF assms(1)], of p] q by simp
qed


lemma mutation_enter:
  assumes ok: "locks_ok st" and p: "p < sl_next st"
    and at: "mutations_at st p n n" and n: "n \<le> length (ids_of st p)"
    and l: "lock_queued (sl_procs st p) = 0" "lock_held (sl_procs st p) = 0"
  shows "locks_ok (enter_mutation_locks n p st)"
proof -
  note d = locks_okD [OF ok]
  have lat: "locks_at st p 0 0" using locks_at_place(1) [OF ok, of p] l by simp
  show ?thesis
  proof (cases "n < length (ids_of st p)")
    case True
    let ?i = "ids_of st p ! n"
    define s where "s = st\<lparr>sl_mutation_lines := (sl_mutation_lines st)(?i := sl_mutation_lines st ?i @ [p])\<rparr>"
    have s: "ids_of s = ids_of st" "sl_procs s = sl_procs st" "sl_next s = sl_next st" "sl_lines s = sl_lines st"
      by (simp_all add: s_def ids_of_def fun_eq_iff)
    have "lines_ok (sl_mutation_lines s) (ids_of st) (((\<lambda>r. mutation_queued (sl_procs st r))(p := n))(p := Suc n))
        ((\<lambda>r. mutation_held (sl_procs st r))(p := n))"
      unfolding s_def using lines_enter [OF at [unfolded mutations_at_def], of p n] True d(4) by simp
    then have "mutations_at s p (Suc n) n" by (simp add: mutations_at_def s)
    moreover have "locks_at s p 0 0" using lat by (simp add: locks_at_def s)
    moreover have "enter_mutation_locks n p st = to_phase p (MutationTaking n) s"
      using True by (simp add: enter_mutation_locks_def s_def ids_of_def Let_def)
    ultimately show ?thesis using d(3,5) p
      by (intro locks_okI [where st = s and x = "(sl_procs st p)\<lparr>sp_phase := MutationTaking n\<rparr>" and q = 0 and h = 0 and q' = "Suc n" and h' = n])
         (auto simp: s phase_defs ids_of_def)
  next
    case False
    then have n': "n = length (ids_of st p)" using n by simp
    define s where "s = to_phase p (Holding ToActivate) st"
    define t where "t = to_phase p (MutationLeaving n True) st"
    have t: "locks_ok t"
      by (rule locks_okI [OF lat at, where x = "(sl_procs st p)\<lparr>sp_phase := MutationLeaving n True\<rparr>"])
         (use d(3,5) p in \<open>auto simp: phase_defs ids_of_def t_def\<close>)
    have tp: "sl_procs t p = (sl_procs st p)\<lparr>sp_phase := MutationLeaving n True\<rparr>" "sl_next t = sl_next st" by (simp_all add: t_def)
    then have ti: "ids_of t p = ids_of st p" by (simp add: ids_of_def)
    have tl: "locks_at t p 0 0" using locks_at_place(1) [OF t, of p] by (simp add: tp phase_defs)
    have "locks_ok (enter_locks ToActivate 0 p t)"
      by (rule locks_enter [OF t _ tl, where k = n]) (use p n' in \<open>simp_all add: tp(2) ti\<close>, simp_all add: tp phase_defs)
    moreover have "enter_locks ToActivate 0 p t = enter_mutation_locks n p st"
      using False by (simp add: enter_mutation_locks_def enter_locks_def t_def Let_def to_phase_def set_process_def ids_of_def)
    ultimately show ?thesis by simp
  qed
qed

lemma mutation_served:
  assumes "locks_ok st" and "sp_phase (sl_procs st p) = MutationTaking n" and "at_head p (sl_mutation_lines st (ids_of st p ! n))"
  shows "mutations_at st p (Suc n) (Suc n)" "Suc n \<le> length (ids_of st p)"
proof -
  obtain r where r: "sl_mutation_lines st (ids_of st p ! n) = p # r" using assms(3) by (auto simp: at_head_def split: list.splits)
  have q: "mutation_queued (sl_procs st p) = Suc n" "mutation_held (sl_procs st p) = n" using assms(2) by (simp_all add: phase_defs)
  show "mutations_at st p (Suc n) (Suc n)"
    using lines_serve [OF locks_at_place(2) [OF assms(1), of p, unfolded mutations_at_def], of p n r] q r by (simp add: mutations_at_def)
  show "Suc n \<le> length (ids_of st p)" using lines_okD(3) [OF locks_okD(2) [OF assms(1)], of p] q by simp
qed

lemma locks_leave:
  assumes ok: "locks_ok st" and ph: "sp_phase (sl_procs st p) = Leaving r (Suc n)" and p: "p < sl_next st"
  shows "locks_ok (leave_lock r n p st)"
proof -
  note d = locks_okD [OF ok]
  have q: "lock_queued (sl_procs st p) = Suc n" "lock_held (sl_procs st p) = Suc n" using ph by (simp_all add: phase_defs)
  let ?i = "ids_of st p ! n"
  define s where "s = st\<lparr>sl_lines := (sl_lines st)(?i := tl (sl_lines st ?i))\<rparr>"
  have s: "ids_of s = ids_of st" "sl_procs s = sl_procs st" "sl_next s = sl_next st" "sl_mutation_lines s = sl_mutation_lines st"
    by (simp_all add: s_def ids_of_def fun_eq_iff)
  have "locks_at s p n n" unfolding locks_at_def s unfolding s_def
    using lines_leave [OF d(1), of p n] q d(4) [of p] by simp
  moreover have "mutations_at s p (mutation_queued (sl_procs st p)) (mutation_held (sl_procs st p))"
    using locks_at_place(2) [OF ok, of p] by (simp add: mutations_at_def s)
  moreover have "leave_lock r n p st = to_phase p (Leaving r n) s" by (simp add: leave_lock_def s_def ids_of_def Let_def)
  ultimately show ?thesis using d(3,5) p ph
    by (intro locks_okI [where st = s and x = "(sl_procs st p)\<lparr>sp_phase := Leaving r n\<rparr>" and q = n and h = n])
       (auto simp: s phase_defs ids_of_def)
qed

lemma mutation_leave:
  assumes ok: "locks_ok st" and ph: "sp_phase (sl_procs st p) = MutationLeaving (Suc n) r" and p: "p < sl_next st"
  shows "locks_ok (leave_mutation_lock r n p st)"
proof -
  note d = locks_okD [OF ok]
  have q: "mutation_queued (sl_procs st p) = Suc n" "mutation_held (sl_procs st p) = Suc n" using ph by (simp_all add: phase_defs)
  let ?i = "ids_of st p ! n"
  define s where "s = st\<lparr>sl_mutation_lines := (sl_mutation_lines st)(?i := tl (sl_mutation_lines st ?i))\<rparr>"
  have s: "ids_of s = ids_of st" "sl_procs s = sl_procs st" "sl_next s = sl_next st" "sl_lines s = sl_lines st"
    by (simp_all add: s_def ids_of_def fun_eq_iff)
  have "mutations_at s p n n" unfolding mutations_at_def s unfolding s_def
    using lines_leave [OF d(2), of p n] q d(4) [of p] by simp
  moreover have "locks_at s p (lock_queued (sl_procs st p)) (lock_held (sl_procs st p))"
    using locks_at_place(1) [OF ok, of p] by (simp add: locks_at_def s)
  moreover have "leave_mutation_lock r n p st = to_phase p (MutationLeaving n r) s"
    by (simp add: leave_mutation_lock_def s_def ids_of_def Let_def)
  ultimately show ?thesis using d(3,5) p ph
    by (intro locks_okI [where st = s and x = "(sl_procs st p)\<lparr>sp_phase := MutationLeaving n r\<rparr>" and q' = n and h' = n])
       (auto simp: s phase_defs ids_of_def)
qed


lemma locks_new:
  assumes ok: "locks_ok st" and ids: "sorted_wrt (<) ids" and ph: "ph = Finished \<or> ph = Checking"
  shows "locks_ok (new_process w ph l ids st)"
proof -
  note d = locks_okD [OF ok]
  let ?st = "new_process w ph l ids st" and ?n = "sl_next st"
  have p: "sl_procs ?st = (sl_procs st)(?n := no_process\<lparr>sp_ids := ids, sp_work := w, sp_phase := ph, sp_listener := l\<rparr>)"
    "sl_lines ?st = sl_lines st" "sl_mutation_lines ?st = sl_mutation_lines st" "sl_next ?st = Suc ?n"
    by (simp_all add: new_process_def)
  have z: "f (sl_procs st ?n) = 0" if "f \<in> {lock_queued, lock_held, mutation_queued, mutation_held}" for f
    using that d(5) [of ?n] by (auto simp: phase_defs)
  have same: "f (sl_procs ?st r) = f (sl_procs st r)" if "f \<in> {lock_queued, lock_held, mutation_queued, mutation_held}" for f r
    using that z [OF that] ph by (auto simp: p(1) phase_defs)
  have i: "ids_of ?st r = ids_of st r" if "r \<noteq> ?n" for r using that by (simp add: ids_of_def p(1))
  have iq: "ids_of ?st r = ids_of st r" if "lock_queued (sl_procs st r) \<noteq> 0" for r
    using that z [of lock_queued] i [of r] by (cases "r = ?n") auto
  have im: "ids_of ?st r = ids_of st r" if "mutation_queued (sl_procs st r) \<noteq> 0" for r
    using that z [of mutation_queued] i [of r] by (cases "r = ?n") auto
  have "lines_ok (sl_lines ?st) (ids_of ?st) (\<lambda>r. lock_queued (sl_procs ?st r)) (\<lambda>r. lock_held (sl_procs ?st r))"
    unfolding p(2) by (rule lines_change [OF d(1)]) (use same iq in auto)
  moreover have "lines_ok (sl_mutation_lines ?st) (ids_of ?st) (\<lambda>r. mutation_queued (sl_procs ?st r)) (\<lambda>r. mutation_held (sl_procs ?st r))"
    unfolding p(3) by (rule lines_change [OF d(2)]) (use same im in auto)
  moreover have "sorted_wrt (<) (ids_of ?st r)" for r using d(3) ids by (simp add: ids_of_def p(1))
  ultimately show ?thesis using d(5) ph by (simp add: locks_ok_def p(1,4))
qed


lemma locks_known: "locks_ok st \<Longrightarrow> sp_phase (sl_procs st p) \<noteq> Finished \<Longrightarrow> p < sl_next st"
  using locks_okD(5) [of st p] by (metis not_le)

lemma holding_turn_locks:
  assumes ok: "locks_ok st" and ph: "sp_phase (sl_procs st p) = Holding g" and t: "holding_turn g p st = Some st'"
  shows "locks_ok st'"
proof -
  have p: "p < sl_next st" by (rule locks_known [OF ok]) (simp add: ph)
  show ?thesis
  proof (cases g)
    case ToActivate
    then show ?thesis using ok t ph
      by (auto split: if_splits intro!: locks_phase [OF ok p] simp: phase_defs)
  next
    case (ToDeactivate b)
    have same: "sl_procs (deactivate p st) p = sl_procs st p" by (rule deactivate_other) (simp add: ph)
    have "locks_ok (deactivate p st)"
      by (rule locks_calm [OF ok]) (auto simp: deactivate_other)
    then show ?thesis using t ph p same
      by (auto simp: ToDeactivate phase_defs intro!: locks_phase [where st = "deactivate p st" and p = p])
  next
    case ToAdmit
    then show ?thesis using ok t ph
      by (auto split: if_splits intro!: locks_phase [OF ok p] simp: phase_defs)
  qed (use t in simp)
qed

lemma after_locks_locks:
  assumes ok: "locks_ok st" and ph: "sp_phase (sl_procs st p) = Leaving r 0"
  shows "locks_ok (after_locks r p st)"
proof -
  have p: "p < sl_next st" by (rule locks_known [OF ok]) (simp add: ph)
  have at: "locks_at st p 0 0" using locks_at_place(1) [OF ok, of p] ph by (simp add: phase_defs)
  show ?thesis
  proof (cases r)
    case (Ran b)
    then show ?thesis using ph by (auto simp: after_locks_def phase_defs ids_of_def intro!: locks_enter [OF ok p at])
  next
    case Blocked
    then show ?thesis using ph
      by (auto simp: after_locks_def wait_idle_def Let_def phase_defs intro!: locks_phase [OF ok p])
  qed (use ph in \<open>auto simp: after_locks_def phase_defs intro!: locks_phase [OF ok p]\<close>)
qed

lemma turn_locks:
  assumes ok: "locks_ok st" and t: "turn p st = Some st'"
  shows "locks_ok st'"
proof (cases "sp_phase (sl_procs st p)")
  case (MutationTaking n)
  then have h: "at_head p (sl_mutation_lines st (ids_of st p ! n))" and st': "st' = enter_mutation_locks (Suc n) p st"
    using t by (auto simp: turn_def ids_of_def split: if_splits)
  show ?thesis unfolding st'
    by (rule mutation_enter [OF ok _ mutation_served [OF ok MutationTaking h]])
       (use locks_known [OF ok, of p] in \<open>simp_all add: MutationTaking phase_defs\<close>)
next
  case (Taking g n)
  then have h: "at_head p (sl_lines st (ids_of st p ! n))" and st': "st' = enter_locks g (Suc n) p st"
    using t by (auto simp: turn_def ids_of_def split: if_splits)
  show ?thesis unfolding st'
    by (rule locks_enter [OF ok _ locks_served [OF ok Taking h]])
       (use locks_known [OF ok, of p] in \<open>simp_all add: Taking phase_defs ids_of_def\<close>)
next
  case (Holding g)
  then show ?thesis using holding_turn_locks [OF ok Holding] t by (simp add: turn_def)
next
  case (Barrier b)
  then show ?thesis using t
    by (auto simp: turn_def phase_defs split: bool.splits if_splits intro!: locks_phase [OF ok locks_known [OF ok, of p]])
next
  case (Leaving r n)
  show ?thesis
  proof (cases n)
    case 0
    then show ?thesis using after_locks_locks [OF ok, of p r] t Leaving by (simp add: turn_def)
  next
    case (Suc m)
    then show ?thesis using locks_leave [OF ok, of p r m] locks_known [OF ok, of p] t Leaving by (simp add: turn_def)
  qed
next
  case (MutationLeaving n b)
  show ?thesis
  proof (cases n)
    case 0
    then show ?thesis using t MutationLeaving
      by (auto simp: turn_def phase_defs intro!: locks_phase [OF ok locks_known [OF ok, of p]])
  next
    case (Suc m)
    then show ?thesis using mutation_leave [OF ok, of p m b] locks_known [OF ok, of p] t MutationLeaving by (simp add: turn_def)
  qed
next
  case Checking
  have p: "p < sl_next st" by (rule locks_known [OF ok]) (simp add: Checking)
  have at: "locks_at st p 0 0" using locks_at_place(1) [OF ok, of p] Checking by (simp add: phase_defs)
  show ?thesis
  proof (cases "sp_aborted (sl_procs st p) \<or> has_active_mutation st (sp_ids (sl_procs st p))")
    case True
    then show ?thesis using t Checking
      by (auto simp: turn_def wait_idle_def Let_def phase_defs split: if_splits intro!: locks_phase [OF ok p])
  next
    case False
    then have "st' = enter_locks ToAdmit 0 p st" using t Checking by (simp add: turn_def)
    then show ?thesis using Checking by (auto simp: phase_defs intro!: locks_enter [OF ok p at])
  qed
next
  case (Waiting ws)
  then show ?thesis using t
    by (auto simp: turn_def phase_defs split: list.splits intro!: locks_phase [OF ok locks_known [OF ok, of p]])
qed (use t in \<open>simp_all add: turn_def\<close>)


lemma abort_locks:
  assumes ok: "locks_ok st" and p: "p < sl_next st"
  shows "locks_ok (abort p st)"
  by (cases "sp_phase (sl_procs st p)")
     (auto simp: abort_def Let_def phase_defs not_yet_activated_def split: lock_goal.splits list.splits bool.splits
       intro!: locks_phase [OF ok p])

lemma interrupt_calm:
  "sl_lines (fold interrupt_one ps st) = sl_lines st" "sl_mutation_lines (fold interrupt_one ps st) = sl_mutation_lines st"
  "sl_next (fold interrupt_one ps st) = sl_next st" "sl_active (fold interrupt_one ps st) = sl_active st"
  "sl_kinds (fold interrupt_one ps st) = sl_kinds st" "sl_runs (fold interrupt_one ps st) = sl_runs st"
  "sl_waiters (fold interrupt_one ps st) = sl_waiters st" "sl_admissions (fold interrupt_one ps st) = sl_admissions st"
  "sl_handoffs (fold interrupt_one ps st) = sl_handoffs st"
  "sp_ids (sl_procs (fold interrupt_one ps st) r) = sp_ids (sl_procs st r)"
  "sp_phase (sl_procs (fold interrupt_one ps st) r) = sp_phase (sl_procs st r)"
  "sp_work (sl_procs (fold interrupt_one ps st) r) = sp_work (sl_procs st r)"
  "sp_result (sl_procs (fold interrupt_one ps st) r) = sp_result (sl_procs st r)"
  "sp_aborted (sl_procs (fold interrupt_one ps st) r) = sp_aborted (sl_procs st r)"
  "sp_handoffs (sl_procs (fold interrupt_one ps st) r) = sp_handoffs (sl_procs st r)"
  by (induction ps arbitrary: st) (simp_all add: interrupt_one_def)

text \<open>Handoffs change the leases and their index only.\<close>

definition lease_change :: "session_lifecycle \<Rightarrow> session_lifecycle \<Rightarrow> bool" where
  "lease_change st st' \<longleftrightarrow>
     sl_lines st' = sl_lines st \<and> sl_mutation_lines st' = sl_mutation_lines st \<and> sl_next st' = sl_next st \<and>
     sl_active st' = sl_active st \<and> sl_kinds st' = sl_kinds st \<and> sl_runs st' = sl_runs st \<and> sl_waiters st' = sl_waiters st \<and>
     sl_admissions st' = sl_admissions st \<and>
     (\<forall>r. sp_ids (sl_procs st' r) = sp_ids (sl_procs st r) \<and> sp_phase (sl_procs st' r) = sp_phase (sl_procs st r) \<and>
          sp_work (sl_procs st' r) = sp_work (sl_procs st r) \<and> sp_result (sl_procs st' r) = sp_result (sl_procs st r) \<and>
          sp_aborted (sl_procs st' r) = sp_aborted (sl_procs st r))"

lemma same_phase:
  assumes "sp_phase y = sp_phase x" and "sp_ids y = sp_ids x"
  shows "lock_held y = lock_held x" "lock_queued y = lock_queued x" "mutation_held y = mutation_held x"
    "mutation_queued y = mutation_queued x" "mutating y = mutating x" "being_admitted y = being_admitted x"
    "registered y = registered x"
  using assms by (simp_all add: phase_defs split: session_phase.split)

lemma lease_changeD:
  assumes "lease_change st st'"
  shows "sl_lines st' = sl_lines st" "sl_mutation_lines st' = sl_mutation_lines st" "sl_next st' = sl_next st"
    "sl_active st' = sl_active st" "sl_kinds st' = sl_kinds st" "sl_runs st' = sl_runs st" "sl_waiters st' = sl_waiters st"
    "sl_admissions st' = sl_admissions st" "sp_ids (sl_procs st' r) = sp_ids (sl_procs st r)"
    "sp_phase (sl_procs st' r) = sp_phase (sl_procs st r)" "sp_work (sl_procs st' r) = sp_work (sl_procs st r)"
    "sp_result (sl_procs st' r) = sp_result (sl_procs st r)" "sp_aborted (sl_procs st' r) = sp_aborted (sl_procs st r)"
    "lock_held (sl_procs st' r) = lock_held (sl_procs st r)" "lock_queued (sl_procs st' r) = lock_queued (sl_procs st r)"
    "mutation_held (sl_procs st' r) = mutation_held (sl_procs st r)" "mutation_queued (sl_procs st' r) = mutation_queued (sl_procs st r)"
    "mutating (sl_procs st' r) = mutating (sl_procs st r)" "being_admitted (sl_procs st' r) = being_admitted (sl_procs st r)"
    "registered (sl_procs st' r) = registered (sl_procs st r)" "is_compaction (sl_procs st' r) = is_compaction (sl_procs st r)"
proof -
  have b: "sp_phase (sl_procs st' r) = sp_phase (sl_procs st r)" "sp_ids (sl_procs st' r) = sp_ids (sl_procs st r)"
    using assms unfolding lease_change_def by blast+
  show "lock_held (sl_procs st' r) = lock_held (sl_procs st r)" "lock_queued (sl_procs st' r) = lock_queued (sl_procs st r)"
    "mutation_held (sl_procs st' r) = mutation_held (sl_procs st r)" "mutation_queued (sl_procs st' r) = mutation_queued (sl_procs st r)"
    "mutating (sl_procs st' r) = mutating (sl_procs st r)" "being_admitted (sl_procs st' r) = being_admitted (sl_procs st r)"
    "registered (sl_procs st' r) = registered (sl_procs st r)"
    by (rule same_phase [OF b])+
  show "is_compaction (sl_procs st' r) = is_compaction (sl_procs st r)"
    using assms unfolding lease_change_def is_compaction_def by metis
qed (use assms in \<open>unfold lease_change_def, blast+\<close>)

lemma interrupt_lease: "lease_change st (fold interrupt_one ps st)"
  by (simp add: lease_change_def interrupt_calm)

lemma create_lease: "create_handoff p token st = Some st' \<Longrightarrow> lease_change st st'"
  by (auto simp: create_handoff_def lease_change_def split: if_splits)

lemma forget_lease: "lease_change st (forget_handoff token p st)"
  by (simp add: forget_handoff_def lease_change_def)

lemma consume_lease: "consume_handoff token scope ids l st = Some (r, st') \<Longrightarrow> lease_change st st'"
  by (auto simp: consume_handoff_def lease_change_def forget_handoff_def Let_def split: option.splits if_splits)

lemma lease_locks: "locks_ok st \<Longrightarrow> lease_change st st' \<Longrightarrow> locks_ok st'"
  by (rule locks_calm) (simp_all add: lease_changeD)

lemma release_locks:
  assumes ok: "locks_ok st"
  shows "locks_ok (release_session_lease p st)"
proof (cases "sp_phase (sl_procs st p) = Working")
  case True
  have p: "p < sl_next st" by (rule locks_known [OF ok]) (simp add: True)
  show ?thesis using True by (auto simp: release_session_lease_def phase_defs intro!: locks_phase [OF ok p])
qed (simp add: release_session_lease_def ok)

lemma step_locks [step_inv]:
  assumes ok: "locks_ok st" and e: "session_step st e = Some st'"
  shows "locks_ok st'"
proof (cases e)
  case (Turn p)
  then show ?thesis using turn_locks [OF ok] e by simp
next
  case (PrepareEnds p b)
  then have ph: "sp_phase (sl_procs st p) = Preparing" and st': "st' = prepare_ends b p st"
    using e by (auto simp: when_phase_def split: if_splits)
  have p: "p < sl_next st" by (rule locks_known [OF ok]) (simp add: ph)
  have at: "locks_at st p 0 0" using locks_at_place(1) [OF ok, of p] ph by (simp add: phase_defs)
  show ?thesis unfolding st' prepare_ends_def
    by (rule locks_enter [OF ok p at]) (simp_all add: ph phase_defs ids_of_def)
next
  case (RunEnds p b)
  then show ?thesis using e locks_known [OF ok, of p]
    by (auto simp: when_phase_def phase_defs split: if_splits intro!: locks_phase [OF ok, of p])
next
  case (AssertEnds p b)
  then show ?thesis using e locks_known [OF ok, of p]
    by (auto simp: when_phase_def assert_ends_def phase_defs split: if_splits intro!: locks_phase [OF ok, of p])
next
  case (BarrierStarts p)
  then show ?thesis using e locks_known [OF ok, of p]
    by (auto simp: when_phase_def barrier_starts_def phase_defs split: if_splits intro!: locks_phase [OF ok, of p])
next
  case (BarrierEnds p b)
  then show ?thesis using e locks_known [OF ok, of p]
    by (auto simp: when_phase_def barrier_ends_def phase_defs split: if_splits intro!: locks_phase [OF ok, of p])
next
  case (ReleaseLease p)
  then show ?thesis using e release_locks [OF ok, of p] by (auto simp: when_phase_def split: if_splits)
next
  case (BeginMutation scope xs c a)
  then obtain ids where ids: "normalize_session_identities scope xs = Some ids"
      and st': "st' = enter_mutation_locks 0 (sl_next st) (new_process (Mutation c) Finished None ids st)"
    using e by (auto simp: begin_mutation_def split: option.splits if_splits)
  let ?s = "new_process (Mutation c) Finished None ids st"
  have s: "locks_ok ?s" by (rule locks_new [OF ok normalized_identities_sorted [OF ids]]) simp
  have x: "sp_phase (sl_procs ?s (sl_next st)) = Finished" by (simp add: new_process_def)
  have at: "mutations_at ?s (sl_next st) 0 0" using locks_at_place(2) [OF s, of "sl_next st"] x by (simp add: phase_defs)
  show ?thesis unfolding st'
    by (rule mutation_enter [OF s _ at]) (simp_all add: x phase_defs, simp add: new_process_def)
next
  case (BeginAdmission scope xs l)
  then obtain ids where ids: "normalize_session_identities scope xs = Some ids" and st': "st' = new_process Admission Checking l ids st"
    using e by (auto simp: begin_admission_def split: if_splits)
  show ?thesis unfolding st' by (rule locks_new [OF ok normalized_identities_sorted [OF ids]]) simp
next
  case (Abort p)
  then show ?thesis using e abort_locks [OF ok, of p] by (auto split: if_splits)
next
  case (GateCloses c)
  have "locks_ok (st\<lparr>sl_closed := c\<rparr>)" by (rule locks_calm [OF ok]) simp_all
  then show ?thesis using GateCloses e by simp
next
  case (Interrupt c scope xs)
  then show ?thesis using e lease_locks [OF ok interrupt_lease] by (auto simp: interrupt_admissions_def Let_def)
next
  case (CreateHandoff p token)
  then show ?thesis using e lease_locks [OF ok create_lease] by (auto split: if_splits)
next
  case (ConsumeHandoff token scope xs l)
  then show ?thesis using e lease_locks [OF ok consume_lease] by auto
next
  case (CancelHandoff token)
  then show ?thesis using e release_locks [OF lease_locks [OF ok forget_lease]] ok
    by (auto simp: cancel_handoff_def split: option.splits)
qed


section \<open>Active mutations\<close>

definition mutations_ok :: "session_lifecycle \<Rightarrow> bool" where
  "mutations_ok st \<longleftrightarrow>
     (\<forall>i. count_of (sl_active st) i = of_bool (\<exists>p. mutating (sl_procs st p) \<and> i \<in> set (ids_of st p))) \<and>
     (\<forall>i. count_of (sl_kinds st) i =
        of_bool (\<exists>p. mutating (sl_procs st p) \<and> is_compaction (sl_procs st p) \<and> i \<in> set (ids_of st p))) \<and>
     set (sl_runs st) = {p. mutating (sl_procs st p)} \<and> distinct (sl_runs st) \<and>
     (\<forall>p. being_admitted (sl_procs st p) \<longrightarrow> (\<forall>i \<in> set (ids_of st p). count_of (sl_active st) i = 0))"

lemma mutations_okD:
  assumes "mutations_ok st"
  shows "count_of (sl_active st) i = of_bool (\<exists>p. mutating (sl_procs st p) \<and> i \<in> set (ids_of st p))"
    "count_of (sl_kinds st) i =
       of_bool (\<exists>p. mutating (sl_procs st p) \<and> is_compaction (sl_procs st p) \<and> i \<in> set (ids_of st p))"
    "set (sl_runs st) = {p. mutating (sl_procs st p)}" "distinct (sl_runs st)"
    "being_admitted (sl_procs st p) \<Longrightarrow> i \<in> set (ids_of st p) \<Longrightarrow> count_of (sl_active st) i = 0"
  using assms unfolding mutations_ok_def by blast+

lemma mutations_okI:
  assumes "\<And>i. count_of (sl_active st) i = of_bool (\<exists>p. mutating (sl_procs st p) \<and> i \<in> set (ids_of st p))"
    "\<And>i. count_of (sl_kinds st) i =
       of_bool (\<exists>p. mutating (sl_procs st p) \<and> is_compaction (sl_procs st p) \<and> i \<in> set (ids_of st p))"
    "set (sl_runs st) = {p. mutating (sl_procs st p)}" "distinct (sl_runs st)"
    "\<And>p i. being_admitted (sl_procs st p) \<Longrightarrow> i \<in> set (ids_of st p) \<Longrightarrow> count_of (sl_active st) i = 0"
  shows "mutations_ok st"
  using assms unfolding mutations_ok_def by blast

lemma count_of_bump: "count_of (bump i m) j = count_of m j + of_bool (i = j)"
  by (simp add: bump_def count_of_def)

lemma count_of_drop: "count_of (drop_one i m) j = count_of m j - of_bool (i = j)"
  by (auto simp: drop_one_def count_of_def Let_def split: option.splits)

lemma count_of_fold_bump: "distinct is \<Longrightarrow> count_of (fold bump is m) j = count_of m j + of_bool (j \<in> set is)"
  by (induction "is" arbitrary: m) (auto simp: count_of_bump)

lemma count_of_fold_drop: "distinct is \<Longrightarrow> count_of (fold drop_one is m) j = count_of m j - of_bool (j \<in> set is)"
  by (induction "is" arbitrary: m) (auto simp: count_of_drop)

text \<open>Mutations of a shared identity exclude each other, and no admission of it is under way.\<close>

lemma mutating_held: "mutating x \<Longrightarrow> mutation_held x = length (sp_ids x)"
  by (auto simp: phase_defs split: session_phase.splits if_splits)

lemma admitted_held: "being_admitted x \<Longrightarrow> lock_held x = length (sp_ids x)"
  by (auto simp: phase_defs split: session_phase.splits)

lemma mutation_exclusive:
  assumes "locks_ok st" and "mutation_held (sl_procs st p) = length (ids_of st p)" and "mutation_held (sl_procs st r) = length (ids_of st r)"
    and "i \<in> set (ids_of st p)" and "i \<in> set (ids_of st r)"
  shows "p = r"
  by (rule lines_exclusive [OF locks_okD(2) [OF assms(1)], of i]) (use assms in simp_all)

lemma lock_exclusive:
  assumes "locks_ok st" and "lock_held (sl_procs st p) = length (ids_of st p)" and "lock_held (sl_procs st r) = length (ids_of st r)"
    and "i \<in> set (ids_of st p)" and "i \<in> set (ids_of st r)"
  shows "p = r"
  by (rule lines_exclusive [OF locks_okD(1) [OF assms(1)], of i]) (use assms in simp_all)

lemma mutations_frame:
  assumes ok: "mutations_ok st"
    and same: "sl_active st' = sl_active st" "sl_kinds st' = sl_kinds st" "sl_runs st' = sl_runs st"
      "\<And>r. mutating (sl_procs st' r) = mutating (sl_procs st r)"
      "\<And>r. mutating (sl_procs st r) \<Longrightarrow> sp_ids (sl_procs st' r) = sp_ids (sl_procs st r) \<and> sp_work (sl_procs st' r) = sp_work (sl_procs st r)"
    and adm: "\<And>r i. being_admitted (sl_procs st' r) \<Longrightarrow> i \<in> set (ids_of st' r) \<Longrightarrow> count_of (sl_active st) i = 0"
  shows "mutations_ok st'"
proof (rule mutations_okI)
  have a: "mutating (sl_procs st' p) \<and> i \<in> set (ids_of st' p) \<longleftrightarrow> mutating (sl_procs st p) \<and> i \<in> set (ids_of st p)" for p i
    using same(4,5) [of p] by (auto simp: ids_of_def)
  have b: "mutating (sl_procs st' p) \<and> is_compaction (sl_procs st' p) \<and> i \<in> set (ids_of st' p) \<longleftrightarrow>
      mutating (sl_procs st p) \<and> is_compaction (sl_procs st p) \<and> i \<in> set (ids_of st p)" for p i
    using same(4,5) [of p] by (auto simp: ids_of_def is_compaction_def)
  show "count_of (sl_active st') i = of_bool (\<exists>p. mutating (sl_procs st' p) \<and> i \<in> set (ids_of st' p))" for i
    unfolding same(1) a by (rule mutations_okD(1) [OF ok])
  show "count_of (sl_kinds st') i = of_bool (\<exists>p. mutating (sl_procs st' p) \<and> is_compaction (sl_procs st' p) \<and> i \<in> set (ids_of st' p))" for i
    unfolding same(2) b by (rule mutations_okD(2) [OF ok])
  show "set (sl_runs st') = {p. mutating (sl_procs st' p)}" "distinct (sl_runs st')"
    using mutations_okD(3,4) [OF ok] same(3,4) by simp_all
  show "count_of (sl_active st') i = 0" if "being_admitted (sl_procs st' p)" "i \<in> set (ids_of st' p)" for p i
    using adm [OF that] same(1) by simp
qed

lemma mutations_one:
  assumes ok: "mutations_ok st"
    and same: "sl_active st' = sl_active st" "sl_kinds st' = sl_kinds st" "sl_runs st' = sl_runs st"
    and p: "sl_procs st' = (sl_procs st)(p := x)"
    and x: "sp_ids x = sp_ids (sl_procs st p)" "sp_work x = sp_work (sl_procs st p)" "mutating x = mutating (sl_procs st p)"
    and adm: "being_admitted x \<Longrightarrow> being_admitted (sl_procs st p) \<or> \<not> has_active_mutation st (sp_ids (sl_procs st p))"
  shows "mutations_ok st'"
proof (rule mutations_frame [OF ok same])
  show "mutating (sl_procs st' r) = mutating (sl_procs st r)" for r using x(3) by (simp add: p)
  show "sp_ids (sl_procs st' r) = sp_ids (sl_procs st r) \<and> sp_work (sl_procs st' r) = sp_work (sl_procs st r)" for r
    using x by (simp add: p)
  show "count_of (sl_active st) i = 0" if "being_admitted (sl_procs st' r)" "i \<in> set (ids_of st' r)" for r i
  proof (cases "r = p")
    case True
    then have ba: "being_admitted x" and i: "i \<in> set (sp_ids (sl_procs st p))" using that x by (simp_all add: p ids_of_def)
    from adm [OF ba] show ?thesis
    proof
      assume "being_admitted (sl_procs st p)"
      then show ?thesis using mutations_okD(5) [OF ok, of p i] i by (simp add: ids_of_def)
    next
      assume "\<not> has_active_mutation st (sp_ids (sl_procs st p))"
      then show ?thesis using i by (auto simp: has_active_mutation_def list_ex_iff)
    qed
  next
    case False
    then show ?thesis using mutations_okD(5) [OF ok, of r i] that by (simp add: p ids_of_def)
  qed
qed

lemma activate_mutations:
  assumes ok: "locks_ok st" "mutations_ok st" and ph: "sp_phase (sl_procs st p) = Holding ToActivate"
  shows "mutations_ok (done_with Activated p (activate p st))" (is "mutations_ok ?st")
proof (rule mutations_okI)
  let ?ids = "ids_of st p"
  have d: "distinct (sp_ids (sl_procs st p))" using locks_okD(4) [OF ok(1), of p] by (simp add: ids_of_def)
  have hp: "mutation_held (sl_procs st p) = length ?ids" "lock_held (sl_procs st p) = length ?ids" "\<not> mutating (sl_procs st p)"
    "\<not> being_admitted (sl_procs st p)" using ph by (simp_all add: phase_defs ids_of_def)
  have alone: "i \<notin> set ?ids" if "mutating (sl_procs st r)" "i \<in> set (ids_of st r)" for r i
    using mutation_exclusive [OF ok(1), of p r i] hp(1,3) mutating_held [OF that(1)] that by (auto simp: ids_of_def)
  have m: "mutating (sl_procs ?st r) \<longleftrightarrow> r = p \<or> mutating (sl_procs st r)" for r by (simp add: phase_defs)
  have w: "is_compaction (sl_procs ?st r) = is_compaction (sl_procs st r)" for r by (simp add: is_compaction_def)
  have i: "ids_of ?st = ids_of st" by (simp add: ids_of_def fun_eq_iff)
  have act: "sl_active ?st = fold bump ?ids (sl_active st)"
    "sl_kinds ?st = (if is_compaction (sl_procs st p) then fold bump ?ids (sl_kinds st) else sl_kinds st)"
    "sl_runs ?st = set_add p (sl_runs st)"
    by (simp_all add: activate_def Let_def ids_of_def)
  have zero: "count_of (sl_active st) j = 0" "count_of (sl_kinds st) j = 0" if "j \<in> set ?ids" for j
    using mutations_okD(1,2) [OF ok(2), of j] alone that by auto
  show "count_of (sl_active ?st) j = of_bool (\<exists>r. mutating (sl_procs ?st r) \<and> j \<in> set (ids_of ?st r))" for j
    unfolding act(1) i m count_of_fold_bump [OF d [folded ids_of_def]]
    using mutations_okD(1) [OF ok(2), of j] zero(1) [of j] by (cases "j \<in> set ?ids") auto
  show "count_of (sl_kinds ?st) j =
      of_bool (\<exists>r. mutating (sl_procs ?st r) \<and> is_compaction (sl_procs ?st r) \<and> j \<in> set (ids_of ?st r))" for j
    unfolding act(2) i m w
    using mutations_okD(2) [OF ok(2), of j] zero(2) [of j] count_of_fold_bump [OF d [folded ids_of_def], of "sl_kinds st" j]
    by (cases "j \<in> set ?ids") auto
  show "set (sl_runs ?st) = {r. mutating (sl_procs ?st r)}" unfolding act(3) m using mutations_okD(3) [OF ok(2)] by auto
  show "distinct (sl_runs ?st)" unfolding act(3) using mutations_okD(4) [OF ok(2)] by simp
  show "count_of (sl_active ?st) j = 0" if "being_admitted (sl_procs ?st r)" "j \<in> set (ids_of ?st r)" for r j
  proof -
    have r: "r \<noteq> p" "being_admitted (sl_procs st r)" "j \<in> set (ids_of st r)"
      using that i by (auto simp: phase_defs split: if_splits)
    then have "j \<notin> set ?ids" using lock_exclusive [OF ok(1), of r p j] admitted_held hp(2) by (auto simp: ids_of_def)
    then show ?thesis unfolding act(1) count_of_fold_bump [OF d [folded ids_of_def]] using mutations_okD(5) [OF ok(2) r(2,3)] by simp
  qed
qed


lemma deactivate_mutations:
  assumes ok: "locks_ok st" "mutations_ok st" and ph: "sp_phase (sl_procs st p) = Holding (ToDeactivate b)"
  shows "mutations_ok (done_with (Deactivated b) p (deactivate p st))" (is "mutations_ok ?st")
proof (rule mutations_okI)
  let ?ids = "ids_of st p"
  have d: "distinct ?ids" by (rule locks_okD(4) [OF ok(1)])
  have mp: "mutating (sl_procs st p)" using ph by (simp add: phase_defs active_goal_def)
  have other: "i \<notin> set ?ids" if "mutating (sl_procs st r)" "r \<noteq> p" "i \<in> set (ids_of st r)" for r i
    using mutation_exclusive [OF ok(1), of p r i] mutating_held [OF mp] mutating_held [OF that(1)] that by (auto simp: ids_of_def)
  have m: "mutating (sl_procs ?st r) \<longleftrightarrow> r \<noteq> p \<and> mutating (sl_procs st r)" for r
    by (cases "r = p") (simp add: mutating_def, simp)
  have w: "is_compaction (sl_procs ?st r) = is_compaction (sl_procs st r)" for r
    using deactivate_keeps(13) [of p st r] by (simp add: is_compaction_def)
  have i: "ids_of ?st = ids_of st" by (simp add: ids_of_def fun_eq_iff)
  have act: "sl_active ?st = fold drop_one ?ids (sl_active st)"
    "sl_kinds ?st = (if is_compaction (sl_procs st p) then fold drop_one ?ids (sl_kinds st) else sl_kinds st)"
    "sl_runs ?st = set_del p (sl_runs st)"
    by (simp_all add: ids_of_def)
  show "count_of (sl_active ?st) j = of_bool (\<exists>r. mutating (sl_procs ?st r) \<and> j \<in> set (ids_of ?st r))" for j
    unfolding act(1) i m count_of_fold_drop [OF d]
    using mutations_okD(1) [OF ok(2), of j] other mp by (cases "j \<in> set ?ids") auto
  show "count_of (sl_kinds ?st) j =
      of_bool (\<exists>r. mutating (sl_procs ?st r) \<and> is_compaction (sl_procs ?st r) \<and> j \<in> set (ids_of ?st r))" for j
  proof (cases "is_compaction (sl_procs st p)")
    case True
    then show ?thesis unfolding act(2) i m w
      using mutations_okD(2) [OF ok(2), of j] other mp count_of_fold_drop [OF d, of "sl_kinds st" j] by (cases "j \<in> set ?ids") auto
  next
    case False
    have "(\<exists>r. (r \<noteq> p \<and> mutating (sl_procs st r)) \<and> is_compaction (sl_procs st r) \<and> j \<in> set (ids_of st r)) \<longleftrightarrow>
        (\<exists>r. mutating (sl_procs st r) \<and> is_compaction (sl_procs st r) \<and> j \<in> set (ids_of st r))"
      using False by metis
    then show ?thesis unfolding act(2) i m w using False mutations_okD(2) [OF ok(2), of j] by simp
  qed
  show "set (sl_runs ?st) = {r. mutating (sl_procs ?st r)}" unfolding act(3) m using mutations_okD(3) [OF ok(2)] by auto
  show "distinct (sl_runs ?st)" unfolding act(3) using mutations_okD(4) [OF ok(2)] by simp
  show "count_of (sl_active ?st) j = 0" if "being_admitted (sl_procs ?st r)" "j \<in> set (ids_of ?st r)" for r j
  proof -
    have rp: "r \<noteq> p" using that(1) by (auto simp: being_admitted_def)
    then have r: "being_admitted (sl_procs st r)" "j \<in> set (ids_of st r)" using that by (simp_all add: i)
    then show ?thesis unfolding act(1) count_of_fold_drop [OF d] using mutations_okD(5) [OF ok(2) r] by simp
  qed
qed

lemma turn_mutations:
  assumes ok: "locks_ok st" "mutations_ok st" and t: "turn p st = Some st'"
  shows "mutations_ok st'"
proof (cases "sp_phase (sl_procs st p)")
  case (MutationTaking n)
  then show ?thesis using t
    by (auto simp: turn_def phase_defs split: if_splits intro!: mutations_one [OF ok(2)])
next
  case (Taking g n)
  then show ?thesis using t
    by (auto simp: turn_def phase_defs split: if_splits intro!: mutations_one [OF ok(2)])
next
  case (Holding g)
  then have h: "holding_turn g p st = Some st'" using t by (simp add: turn_def)
  show ?thesis
  proof (cases g)
    case ToActivate
    show ?thesis
    proof (cases "sp_aborted (sl_procs st p)")
      case True
      then show ?thesis using h Holding ToActivate by (auto simp: phase_defs intro!: mutations_one [OF ok(2)])
    next
      case False
      then show ?thesis using h activate_mutations [OF ok, of p] Holding by (simp add: ToActivate)
    qed
  next
    case (ToDeactivate b)
    then show ?thesis using h deactivate_mutations [OF ok, of p b] Holding by simp
  next
    case ToAdmit
    then show ?thesis using h Holding by (auto simp: phase_defs split: if_splits intro!: mutations_one [OF ok(2)])
  qed (use h in simp)
next
  case (Barrier b)
  then show ?thesis using t
    by (auto simp: turn_def phase_defs split: bool.splits if_splits intro!: mutations_one [OF ok(2)])
next
  case (Leaving r n)
  show ?thesis
  proof (cases n)
    case 0
    then have "st' = after_locks r p st" using t Leaving by (simp add: turn_def)
    then show ?thesis using Leaving
      by (cases r)
         (auto simp: after_locks_def wait_idle_def Let_def phase_defs split: if_splits intro!: mutations_one [OF ok(2)])
  next
    case (Suc m)
    then show ?thesis using t Leaving by (auto simp: turn_def phase_defs intro!: mutations_one [OF ok(2)])
  qed
next
  case (MutationLeaving n b)
  then show ?thesis using t
    by (cases n) (auto simp: turn_def phase_defs intro!: mutations_one [OF ok(2)])
next
  case Checking
  then show ?thesis using t
    by (auto simp: turn_def wait_idle_def Let_def phase_defs split: if_splits intro!: mutations_one [OF ok(2)])
next
  case (Waiting ws)
  then show ?thesis using t by (auto simp: turn_def phase_defs split: list.splits intro!: mutations_one [OF ok(2)])
qed (use t in \<open>simp_all add: turn_def\<close>)

lemma abort_mutations:
  assumes ok: "mutations_ok st"
  shows "mutations_ok (abort p st)"
  by (cases "sp_phase (sl_procs st p)")
     (auto simp: abort_def Let_def phase_defs not_yet_activated_def split: lock_goal.splits list.splits bool.splits
       intro!: mutations_one [OF ok])

lemma lease_mutations:
  assumes ok: "mutations_ok st" and l: "lease_change st st'"
  shows "mutations_ok st'"
proof (rule mutations_frame [OF ok])
  show "count_of (sl_active st) i = 0" if "being_admitted (sl_procs st' r)" "i \<in> set (ids_of st' r)" for r i
    using mutations_okD(5) [OF ok, of r i] that by (simp add: ids_of_def lease_changeD [OF l])
qed (simp_all add: lease_changeD [OF l])

lemma new_mutations:
  assumes ok: "locks_ok st" "mutations_ok st" and ph: "ph = Finished \<or> ph = Checking"
  shows "mutations_ok (new_process w ph l ids st)" (is "mutations_ok ?st")
proof (rule mutations_frame [OF ok(2)])
  have f: "sp_phase (sl_procs st (sl_next st)) = Finished" by (rule locks_okD(5) [OF ok(1)]) simp
  show "mutating (sl_procs ?st r) = mutating (sl_procs st r)" for r
    using f ph by (auto simp: new_process_def mutating_def)
  show "sp_ids (sl_procs ?st r) = sp_ids (sl_procs st r) \<and> sp_work (sl_procs ?st r) = sp_work (sl_procs st r)"
    if "mutating (sl_procs st r)" for r using that f by (auto simp: new_process_def mutating_def)
  show "count_of (sl_active st) i = 0" if "being_admitted (sl_procs ?st r)" "i \<in> set (ids_of ?st r)" for r i
    using that mutations_okD(5) [OF ok(2), of r i] ph by (auto simp: new_process_def being_admitted_def ids_of_def split: if_splits)
qed (simp_all add: new_process_def)

lemma release_mutations:
  assumes ok: "mutations_ok st"
  shows "mutations_ok (release_session_lease p st)"
  using ok by (auto simp: release_session_lease_def phase_defs intro!: mutations_one [OF ok])

lemma step_mutations [step_inv]:
  assumes ok: "locks_ok st" "mutations_ok st" and e: "session_step st e = Some st'"
  shows "mutations_ok st'"
proof (cases e)
  case (Turn p)
  then show ?thesis using turn_mutations [OF ok] e by simp
next
  case (PrepareEnds p b)
  then show ?thesis using e
    by (auto simp: when_phase_def prepare_ends_def phase_defs split: if_splits intro!: mutations_one [OF ok(2)])
next
  case (RunEnds p b)
  then show ?thesis using e by (auto simp: when_phase_def phase_defs split: if_splits intro!: mutations_one [OF ok(2)])
next
  case (AssertEnds p b)
  then show ?thesis using e
    by (auto simp: when_phase_def assert_ends_def phase_defs split: if_splits intro!: mutations_one [OF ok(2)])
next
  case (BarrierStarts p)
  then show ?thesis using e
    by (auto simp: when_phase_def barrier_starts_def phase_defs split: if_splits intro!: mutations_one [OF ok(2)])
next
  case (BarrierEnds p b)
  then show ?thesis using e
    by (auto simp: when_phase_def barrier_ends_def phase_defs split: if_splits intro!: mutations_one [OF ok(2)])
next
  case (ReleaseLease p)
  then show ?thesis using e release_mutations [OF ok(2)] by (auto simp: when_phase_def split: if_splits)
next
  case (BeginMutation scope xs c a)
  then obtain ids where st': "st' = enter_mutation_locks 0 (sl_next st) (new_process (Mutation c) Finished None ids st)"
    using e by (auto simp: begin_mutation_def split: option.splits if_splits)
  have s: "mutations_ok (new_process (Mutation c) Finished None ids st)" by (rule new_mutations [OF ok]) simp
  show ?thesis unfolding st'
    by (rule mutations_one [OF s _ _ _ enter_mutation_locks_simps(1)]) (auto simp: new_process_def phase_defs split: if_splits)
next
  case (BeginAdmission scope xs l)
  then show ?thesis using e new_mutations [OF ok] by (auto simp: begin_admission_def split: if_splits)
next
  case (Abort p)
  then show ?thesis using e abort_mutations [OF ok(2)] by (auto split: if_splits)
next
  case (GateCloses c)
  have "mutations_ok (st\<lparr>sl_closed := c\<rparr>)"
    by (rule mutations_frame [OF ok(2)]) (use mutations_okD(5) [OF ok(2)] in \<open>simp_all add: ids_of_def\<close>)
  then show ?thesis using GateCloses e by simp
next
  case (Interrupt c scope xs)
  then show ?thesis using e lease_mutations [OF ok(2) interrupt_lease] by (auto simp: interrupt_admissions_def Let_def)
next
  case (CreateHandoff p token)
  then show ?thesis using e lease_mutations [OF ok(2) create_lease] by (auto split: if_splits)
next
  case (ConsumeHandoff token scope xs l)
  then show ?thesis using e lease_mutations [OF ok(2) consume_lease] by auto
next
  case (CancelHandoff token)
  then show ?thesis using e release_mutations [OF lease_mutations [OF ok(2) forget_lease]] ok(2)
    by (auto simp: cancel_handoff_def split: option.splits)
qed


section \<open>Waiting\<close>

definition waiting_ok :: "session_lifecycle \<Rightarrow> bool" where
  "waiting_ok st \<longleftrightarrow> (\<forall>p ws i. sp_phase (sl_procs st p) = Waiting ws \<longrightarrow> i \<in> set ws \<longrightarrow>
     p \<in> set (entries_of (sl_waiters st) i) \<and> 0 < count_of (sl_active st) i)"

lemma waiting_okD:
  assumes "waiting_ok st" and "sp_phase (sl_procs st p) = Waiting ws" and "i \<in> set ws"
  shows "p \<in> set (entries_of (sl_waiters st) i)" "0 < count_of (sl_active st) i"
  using assms unfolding waiting_ok_def by blast+

lemma waiting_okI:
  assumes "\<And>p ws i. sp_phase (sl_procs st p) = Waiting ws \<Longrightarrow> i \<in> set ws \<Longrightarrow>
     p \<in> set (entries_of (sl_waiters st) i) \<and> 0 < count_of (sl_active st) i"
  shows "waiting_ok st"
  using assms unfolding waiting_ok_def by blast

lemma entries_of_delete [simp]: "entries_of (js_delete i m) j = (if i = j then [] else entries_of m j)"
  by (simp add: entries_of_def)

lemma entries_of_add:
  "entries_of (fold (\<lambda>i m. js_set i (set_add p (entries_of m i)) m) is m) j =
     (if j \<in> set is then set_add p (entries_of m j) else entries_of m j)"
proof (induction "is" arbitrary: m)
  case (Cons i "is")
  have "entries_of (js_set i (set_add p (entries_of m i)) m) j = (if j = i then set_add p (entries_of m i) else entries_of m j)"
    by (simp add: entries_of_def)
  then show ?case using Cons by (auto simp: set_add_def)
qed simp

lemma stops_waiting_phase:
  "sp_phase (no_longer_waits_for i x) = Waiting ws \<longleftrightarrow> (\<exists>vs. sp_phase x = Waiting vs \<and> ws = filter (\<lambda>j. j \<noteq> i) vs)"
  by (auto simp: no_longer_waits_for_def split: session_phase.splits)

lemma deactivate_identity_waiting:
  assumes ok: "waiting_ok st"
  shows "waiting_ok (deactivate_identity c i st)"
proof (cases "0 < count_of (drop_one i (sl_active st)) i")
  case True
  have p: "sl_procs (deactivate_identity c i st) = sl_procs st" "sl_waiters (deactivate_identity c i st) = sl_waiters st"
    using True by (simp_all add: deactivate_identity_def Let_def)
  show ?thesis
  proof (rule waiting_okI)
    fix p ws j assume "sp_phase (sl_procs (deactivate_identity c i st) p) = Waiting ws" "j \<in> set ws"
    then show "p \<in> set (entries_of (sl_waiters (deactivate_identity c i st)) j) \<and> 0 < count_of (sl_active (deactivate_identity c i st)) j"
      using waiting_okD [OF ok, of p ws j] True by (cases "j = i") (simp_all add: p count_of_drop)
  qed
next
  case False
  let ?ps = "entries_of (sl_waiters st) i"
  have p: "sl_procs (deactivate_identity c i st) = (\<lambda>p. if p \<in> set ?ps then no_longer_waits_for i (sl_procs st p) else sl_procs st p)"
    "sl_waiters (deactivate_identity c i st) = js_delete i (sl_waiters st)"
    using False by (simp_all add: deactivate_identity_def resolve_waiters_def Let_def fun_eq_iff)
  show ?thesis
  proof (rule waiting_okI)
    fix p ws j assume a: "sp_phase (sl_procs (deactivate_identity c i st) p) = Waiting ws" "j \<in> set ws"
    obtain vs where vs: "sp_phase (sl_procs st p) = Waiting vs" "j \<in> set vs" "j = i \<longrightarrow> p \<notin> set ?ps"
      using a by (auto simp: p stops_waiting_phase split: if_splits)
    note d = waiting_okD [OF ok vs(1,2)]
    have "j \<noteq> i" using d(1) vs(3) by blast
    then show "p \<in> set (entries_of (sl_waiters (deactivate_identity c i st)) j) \<and> 0 < count_of (sl_active (deactivate_identity c i st)) j"
      using d by (simp add: p(2) count_of_drop)
  qed
qed

lemma deactivate_waiting:
  assumes ok: "waiting_ok st"
  shows "waiting_ok (deactivate p st)"
proof -
  have "waiting_ok s \<Longrightarrow> waiting_ok (fold (deactivate_identity c) is s)" for c "is" s
    by (induction "is" arbitrary: s) (simp_all add: deactivate_identity_waiting)
  from this [OF ok] show ?thesis by (simp add: deactivate_def Let_def waiting_ok_def)
qed

lemma waiting_one:
  assumes ok: "waiting_ok st"
    and same: "sl_waiters st' = sl_waiters st" "\<And>i. count_of (sl_active st) i \<le> count_of (sl_active st') i"
    and p: "sl_procs st' = (sl_procs st)(p := x)" and x: "\<And>w ws. sp_phase x = Waiting (w # ws) \<Longrightarrow> sp_phase (sl_procs st p) = Waiting (w # ws)"
  shows "waiting_ok st'"
proof (rule waiting_okI)
  fix r ws i assume a: "sp_phase (sl_procs st' r) = Waiting ws" "i \<in> set ws"
  then have "sp_phase (sl_procs st r) = Waiting ws" using x by (cases ws) (auto simp: p split: if_splits)
  from waiting_okD [OF ok this a(2)] show "r \<in> set (entries_of (sl_waiters st') i) \<and> 0 < count_of (sl_active st') i"
    using same(2) [of i] by (simp add: same(1))
qed

lemma wait_idle_waiting:
  assumes ok: "waiting_ok st"
  shows "waiting_ok (wait_idle p st)"
proof -
  let ?act = "filter (\<lambda>i. 0 < count_of (sl_active st) i) (sp_ids (sl_procs st p))"
  consider "?act = []" | "?act \<noteq> []" "sp_aborted (sl_procs st p)" | "?act \<noteq> []" "\<not> sp_aborted (sl_procs st p)" by blast
  then show ?thesis
  proof cases
    case 1
    then have "wait_idle p st = to_phase p Checking st" by (simp add: wait_idle_def Let_def)
    then show ?thesis by (auto intro!: waiting_one [OF ok])
  next
    case 2
    then have "wait_idle p st = finish False p st" by (simp add: wait_idle_def Let_def)
    then show ?thesis by (auto intro!: waiting_one [OF ok])
  next
    case 3
    then have w: "wait_idle p st = to_phase p (Waiting ?act)
        (st\<lparr>sl_waiters := fold (\<lambda>i m. js_set i (set_add p (entries_of m i)) m) ?act (sl_waiters st)\<rparr>)"
      by (simp add: wait_idle_def Let_def)
    show ?thesis
    proof (rule waiting_okI)
      fix r ws i assume a: "sp_phase (sl_procs (wait_idle p st) r) = Waiting ws" "i \<in> set ws"
      show "r \<in> set (entries_of (sl_waiters (wait_idle p st)) i) \<and> 0 < count_of (sl_active (wait_idle p st)) i"
      proof (cases "r = p")
        case True
        then have "i \<in> set ?act" using a by (simp add: w)
        then show ?thesis using True by (simp add: w entries_of_add)
      next
        case False
        then have "sp_phase (sl_procs st r) = Waiting ws" using a by (simp add: w)
        from waiting_okD [OF ok this a(2)] show ?thesis by (simp add: w entries_of_add)
      qed
    qed
  qed
qed

lemma turn_waiting:
  assumes ok: "locks_ok st" "waiting_ok st" and t: "turn p st = Some st'"
  shows "waiting_ok st'"
proof (cases "sp_phase (sl_procs st p)")
  case (MutationTaking n)
  then show ?thesis using t by (auto simp: turn_def split: if_splits intro!: waiting_one [OF ok(2)])
next
  case (Taking g n)
  then show ?thesis using t by (auto simp: turn_def split: if_splits intro!: waiting_one [OF ok(2)])
next
  case (Holding g)
  then have h: "holding_turn g p st = Some st'" using t by (simp add: turn_def)
  show ?thesis
  proof (cases g)
    case ToActivate
    have "count_of (sl_active st) i \<le> count_of (sl_active (activate p st)) i" for i
      using count_of_fold_bump [OF locks_okD(4) [OF ok(1), of p], of "sl_active st" i]
      by (simp add: activate_def Let_def ids_of_def)
    then show ?thesis using h ToActivate by (auto split: if_splits intro!: waiting_one [OF ok(2)])
  next
    case (ToDeactivate b)
    then show ?thesis using h by (auto intro!: waiting_one [OF deactivate_waiting [OF ok(2), of p]])
  next
    case ToAdmit
    then show ?thesis using h by (auto split: if_splits intro!: waiting_one [OF ok(2)])
  qed (use h in simp)
next
  case (Barrier b)
  then show ?thesis using t by (auto simp: turn_def split: bool.splits if_splits intro!: waiting_one [OF ok(2)])
next
  case (Leaving r n)
  show ?thesis
  proof (cases n)
    case 0
    then have "st' = after_locks r p st" using t Leaving by (simp add: turn_def)
    then show ?thesis using wait_idle_waiting [OF ok(2)]
      by (cases r) (auto simp: after_locks_def split: if_splits intro!: waiting_one [OF ok(2)])
  next
    case (Suc m)
    then show ?thesis using t Leaving by (auto simp: turn_def intro!: waiting_one [OF ok(2)])
  qed
next
  case (MutationLeaving n b)
  then show ?thesis using t by (cases n) (auto simp: turn_def intro!: waiting_one [OF ok(2)])
next
  case Checking
  then consider "st' = finish False p st" | "st' = wait_idle p st" | "st' = enter_locks ToAdmit 0 p st"
    using t by (auto simp: turn_def Let_def split: if_splits)
  then show ?thesis
    by cases (auto simp: wait_idle_waiting [OF ok(2)] split: if_splits intro!: waiting_one [OF ok(2)])
next
  case (Waiting ws)
  then show ?thesis using t by (auto simp: turn_def split: list.splits intro!: waiting_one [OF ok(2)])
qed (use t in \<open>simp_all add: turn_def\<close>)

lemma lease_waiting: "waiting_ok st \<Longrightarrow> lease_change st st' \<Longrightarrow> waiting_ok st'"
  by (rule waiting_okI) (simp add: lease_changeD waiting_okD)

lemma release_waiting: "waiting_ok st \<Longrightarrow> waiting_ok (release_session_lease p st)"
  by (auto simp: release_session_lease_def intro!: waiting_one [of st])

lemma new_waiting:
  assumes "waiting_ok st" and "ph = Finished \<or> ph = Checking"
  shows "waiting_ok (new_process w ph l ids st)"
  using assms by (auto simp: new_process_def intro!: waiting_one [OF assms(1)])

lemma abort_waiting: "waiting_ok st \<Longrightarrow> waiting_ok (abort p st)"
  by (cases "sp_phase (sl_procs st p)")
     (auto simp: abort_def Let_def not_yet_activated_def split: lock_goal.splits list.splits bool.splits
       intro!: waiting_one [of st])

lemma step_waiting [step_inv]:
  assumes ok: "locks_ok st" "waiting_ok st" and e: "session_step st e = Some st'"
  shows "waiting_ok st'"
proof (cases e)
  case (Turn p)
  then show ?thesis using turn_waiting [OF ok] e by simp
next
  case (PrepareEnds p b)
  then show ?thesis using e by (auto simp: when_phase_def prepare_ends_def split: if_splits intro!: waiting_one [OF ok(2)])
next
  case (RunEnds p b)
  then show ?thesis using e by (auto simp: when_phase_def split: if_splits intro!: waiting_one [OF ok(2)])
next
  case (AssertEnds p b)
  then show ?thesis using e by (auto simp: when_phase_def assert_ends_def split: if_splits intro!: waiting_one [OF ok(2)])
next
  case (BarrierStarts p)
  then show ?thesis using e by (auto simp: when_phase_def barrier_starts_def split: if_splits intro!: waiting_one [OF ok(2)])
next
  case (BarrierEnds p b)
  then show ?thesis using e by (auto simp: when_phase_def barrier_ends_def split: if_splits intro!: waiting_one [OF ok(2)])
next
  case (ReleaseLease p)
  then show ?thesis using e release_waiting [OF ok(2)] by (auto simp: when_phase_def split: if_splits)
next
  case (BeginMutation scope xs c a)
  then obtain ids where st': "st' = enter_mutation_locks 0 (sl_next st) (new_process (Mutation c) Finished None ids st)"
    using e by (auto simp: begin_mutation_def split: option.splits if_splits)
  have s: "waiting_ok (new_process (Mutation c) Finished None ids st)" by (rule new_waiting [OF ok(2)]) simp
  show ?thesis unfolding st'
    by (rule waiting_one [OF s _ _ enter_mutation_locks_simps(1)]) (auto split: if_splits)
next
  case (BeginAdmission scope xs l)
  then show ?thesis using e new_waiting [OF ok(2)] by (auto simp: begin_admission_def split: if_splits)
next
  case (Abort p)
  then show ?thesis using e abort_waiting [OF ok(2)] by (auto split: if_splits)
next
  case (GateCloses c)
  have "waiting_ok (st\<lparr>sl_closed := c\<rparr>)" using ok(2) by (simp add: waiting_ok_def)
  then show ?thesis using GateCloses e by simp
next
  case (Interrupt c scope xs)
  then show ?thesis using e lease_waiting [OF ok(2) interrupt_lease] by (auto simp: interrupt_admissions_def Let_def)
next
  case (CreateHandoff p token)
  then show ?thesis using e lease_waiting [OF ok(2) create_lease] by (auto split: if_splits)
next
  case (ConsumeHandoff token scope xs l)
  then show ?thesis using e lease_waiting [OF ok(2) consume_lease] by auto
next
  case (CancelHandoff token)
  then show ?thesis using e release_waiting [OF lease_waiting [OF ok(2) forget_lease]] ok(2)
    by (auto simp: cancel_handoff_def split: option.splits)
qed

end
