(* ===== verification/Session_Leases.thy ===== *)
theory Session_Leases
  imports Session_Lifecycle_Inv
begin

text \<open>
  The second half of the invariant of the session lifecycle: the index of admitted work, the handoff tokens, and the
  promise of a mutation that has begun.
\<close>

section \<open>Admitted work\<close>

definition admissions_ok :: "session_lifecycle \<Rightarrow> bool" where
  "admissions_ok st \<longleftrightarrow> (\<forall>i. set (entries_of (sl_admissions st) i) =
     {p. registered (sl_procs st p) \<and> i \<in> set (sp_ids (sl_procs st p))})"

lemma admissions_okD:
  "admissions_ok st \<Longrightarrow> p \<in> set (entries_of (sl_admissions st) i) \<longleftrightarrow> registered (sl_procs st p) \<and> i \<in> set (sp_ids (sl_procs st p))"
  by (simp add: admissions_ok_def)

lemma admissions_one:
  assumes ok: "admissions_ok st" and same: "sl_admissions st' = sl_admissions st"
    and p: "sl_procs st' = (sl_procs st)(p := x)" and ids: "sp_ids x = sp_ids (sl_procs st p)"
    and x: "registered x = registered (sl_procs st p)"
  shows "admissions_ok st'"
  using ok ids x by (auto simp: admissions_ok_def same p)

lemma entries_of_remove:
  "entries_of (fold (remove_admission p) is m) j = (if j \<in> set is then set_del p (entries_of m j) else entries_of m j)"
proof (induction "is" arbitrary: m)
  case (Cons i "is")
  have "entries_of (remove_admission p i m) j = (if j = i then set_del p (entries_of m i) else entries_of m j)"
    by (auto simp: remove_admission_def Let_def) (auto simp: entries_of_def)
  then show ?case using Cons by (auto simp: set_del_def)
qed simp

lemma register_admissions:
  assumes ok: "admissions_ok st" and ph: "sp_phase (sl_procs st p) = Asserting"
  shows "admissions_ok (to_phase p (Barrier False) (register p st))"
proof -
  have "entries_of (sl_admissions (register p st)) i =
      (if i \<in> set (sp_ids (sl_procs st p)) then set_add p (entries_of (sl_admissions st) i) else entries_of (sl_admissions st) i)" for i
    by (simp add: register_def entries_of_add)
  then show ?thesis using ok ph by (auto simp: admissions_ok_def registered_def)
qed

lemma release_admissions:
  assumes ok: "admissions_ok st" and s: "sl_admissions s = sl_admissions (release p st)"
    and x: "sl_procs s = (sl_procs st)(p := x)" "sp_ids x = sp_ids (sl_procs st p)" "\<not> registered x"
  shows "admissions_ok s"
proof -
  have "entries_of (sl_admissions s) i =
      (if i \<in> set (sp_ids (sl_procs st p)) then set_del p (entries_of (sl_admissions st) i) else entries_of (sl_admissions st) i)" for i
    by (simp add: s release_def clear_handoffs_def entries_of_remove)
  then show ?thesis using ok x(2,3) by (auto simp: admissions_ok_def x(1))
qed

lemma after_locks_admissions:
  assumes ok: "admissions_ok st" and ph: "sp_phase (sl_procs st p) = Leaving r 0"
  shows "admissions_ok (after_locks r p st)"
  by (cases r)
     (use ph in \<open>auto simp: after_locks_def wait_idle_def Let_def registered_def split: if_splits intro!: admissions_one [OF ok]\<close>)

lemma turn_admissions:
  assumes ok: "admissions_ok st" and t: "turn p st = Some st'"
  shows "admissions_ok st'"
proof (cases "sp_phase (sl_procs st p)")
  case (Holding g)
  then have h: "holding_turn g p st = Some st'" using t by (simp add: turn_def)
  show ?thesis
  proof (cases g)
    case (ToDeactivate b)
    have "registered (sl_procs (deactivate p st) r) = registered (sl_procs st r)" for r by simp
    then have "admissions_ok (deactivate p st)" using ok by (simp add: admissions_ok_def)
    then show ?thesis using h ToDeactivate Holding deactivate_other [of st p p]
      by (auto simp: registered_def intro!: admissions_one [where st = "deactivate p st"])
  qed (use h Holding in \<open>auto simp: registered_def split: if_splits intro!: admissions_one [OF ok]\<close>)
next
  case (Barrier b)
  then show ?thesis using t
    by (auto simp: turn_def registered_def split: bool.splits if_splits intro!: release_admissions [OF ok, of _ p])
next
  case (Leaving r n)
  show ?thesis
  proof (cases n)
    case 0
    then show ?thesis using after_locks_admissions [OF ok, of p r] t Leaving by (simp add: turn_def)
  next
    case (Suc m)
    then show ?thesis using t Leaving by (auto simp: turn_def registered_def intro!: admissions_one [OF ok])
  qed
next
  case (MutationLeaving n b)
  then show ?thesis using t by (cases n) (auto simp: turn_def registered_def intro!: admissions_one [OF ok])
next
  case Checking
  then show ?thesis using t
    by (auto simp: turn_def wait_idle_def Let_def registered_def split: if_splits intro!: admissions_one [OF ok])
next
  case (Waiting ws)
  then show ?thesis using t by (auto simp: turn_def registered_def split: list.splits intro!: admissions_one [OF ok])
next
  case (MutationTaking n)
  then show ?thesis using t by (auto simp: turn_def registered_def split: if_splits intro!: admissions_one [OF ok])
next
  case (Taking g n)
  then show ?thesis using t by (auto simp: turn_def registered_def split: if_splits intro!: admissions_one [OF ok])
qed (use t in \<open>simp_all add: turn_def\<close>)

lemma lease_admissions:
  assumes "admissions_ok st" and "lease_change st st'"
  shows "admissions_ok st'"
  using assms(1) by (simp add: admissions_ok_def lease_changeD [OF assms(2)])

lemma release_lease_admissions: "admissions_ok st \<Longrightarrow> admissions_ok (release_session_lease p st)"
  by (auto simp: release_session_lease_def registered_def intro!: release_admissions [of st _ p])

lemma new_admissions:
  assumes ok: "locks_ok st" "admissions_ok st" and ph: "ph = Finished \<or> ph = Checking"
  shows "admissions_ok (new_process w ph l ids st)"
proof -
  have "\<not> registered (sl_procs st (sl_next st))" using locks_okD(5) [OF ok(1), of "sl_next st"] by (simp add: registered_def)
  then show ?thesis using ok(2) ph by (auto simp: admissions_ok_def new_process_def registered_def)
qed

lemma abort_admissions:
  assumes ok: "admissions_ok st"
  shows "admissions_ok (abort p st)"
proof (cases "sp_phase (sl_procs st p) = Barrier False")
  case True
  have s: "admissions_ok (set_process p ((sl_procs st p)\<lparr>sp_aborted := True\<rparr>) st)"
    by (rule admissions_one [OF ok _ set_process_simps(1)]) (simp_all add: registered_def)
  have a: "abort p st = done_with Refused p (release p (set_process p ((sl_procs st p)\<lparr>sp_aborted := True\<rparr>) st))"
    using True by (simp add: abort_def Let_def not_yet_activated_def)
  show ?thesis unfolding a
    by (auto simp: registered_def intro!: release_admissions [OF s, of _ p])
next
  case False
  then show ?thesis
    by (cases "sp_phase (sl_procs st p)")
       (auto simp: abort_def Let_def registered_def not_yet_activated_def split: lock_goal.splits list.splits
         intro!: admissions_one [OF ok])
qed

lemma step_admissions [step_inv]:
  assumes ok: "locks_ok st" "admissions_ok st" and e: "session_step st e = Some st'"
  shows "admissions_ok st'"
proof (cases e)
  case (Turn p)
  then show ?thesis using turn_admissions [OF ok(2)] e by simp
next
  case (PrepareEnds p b)
  then show ?thesis using e
    by (auto simp: when_phase_def prepare_ends_def registered_def split: if_splits intro!: admissions_one [OF ok(2)])
next
  case (RunEnds p b)
  then show ?thesis using e by (auto simp: when_phase_def registered_def split: if_splits intro!: admissions_one [OF ok(2)])
next
  case (AssertEnds p b)
  then show ?thesis using e register_admissions [OF ok(2), of p]
    by (auto simp: when_phase_def assert_ends_def registered_def split: if_splits intro!: admissions_one [OF ok(2)])
next
  case (BarrierStarts p)
  then show ?thesis using e
    by (cases "sp_aborted (sl_procs st p)")
       (auto simp: when_phase_def barrier_starts_def registered_def split: if_splits
         intro: release_admissions [OF ok(2), of _ p] admissions_one [OF ok(2), of _ p])
next
  case (BarrierEnds p b)
  then show ?thesis using e
    by (cases b)
       (auto simp: when_phase_def barrier_ends_def registered_def split: if_splits
         intro: release_admissions [OF ok(2), of _ p] admissions_one [OF ok(2), of _ p])
next
  case (ReleaseLease p)
  then show ?thesis using e release_lease_admissions [OF ok(2)] by (auto simp: when_phase_def split: if_splits)
next
  case (BeginMutation scope xs c a)
  then obtain ids where st': "st' = enter_mutation_locks 0 (sl_next st) (new_process (Mutation c) Finished None ids st)"
    using e by (auto simp: begin_mutation_def split: option.splits if_splits)
  have s: "admissions_ok (new_process (Mutation c) Finished None ids st)" by (rule new_admissions [OF ok]) simp
  show ?thesis unfolding st'
    by (rule admissions_one [OF s _ enter_mutation_locks_simps(1)]) (auto simp: new_process_def registered_def split: if_splits)
next
  case (BeginAdmission scope xs l)
  then show ?thesis using e new_admissions [OF ok] by (auto simp: begin_admission_def split: if_splits)
next
  case (Abort p)
  then show ?thesis using e abort_admissions [OF ok(2)] by (auto split: if_splits)
next
  case (GateCloses c)
  have "admissions_ok (st\<lparr>sl_closed := c\<rparr>)" using ok(2) by (simp add: admissions_ok_def)
  then show ?thesis using GateCloses e by simp
next
  case (Interrupt c scope xs)
  then show ?thesis using e lease_admissions [OF ok(2) interrupt_lease] by (auto simp: interrupt_admissions_def Let_def)
next
  case (CreateHandoff p token)
  then show ?thesis using e lease_admissions [OF ok(2) create_lease] by (auto split: if_splits)
next
  case (ConsumeHandoff token scope xs l)
  then show ?thesis using e lease_admissions [OF ok(2) consume_lease] by auto
next
  case (CancelHandoff token)
  then show ?thesis using e release_lease_admissions [OF lease_admissions [OF ok(2) forget_lease]] ok(2)
    by (auto simp: cancel_handoff_def split: option.splits)
qed


section \<open>Handoffs\<close>

definition handoffs_ok :: "session_lifecycle \<Rightarrow> bool" where
  "handoffs_ok st \<longleftrightarrow>
     (\<forall>t p. js_get (sl_handoffs st) t = Some p \<longleftrightarrow> t \<in> set (sp_handoffs (sl_procs st p))) \<and>
     (\<forall>p. sp_handoffs (sl_procs st p) \<noteq> [] \<longrightarrow> sp_phase (sl_procs st p) = Working)"

lemma handoffs_okD:
  assumes "handoffs_ok st"
  shows "js_get (sl_handoffs st) t = Some p \<longleftrightarrow> t \<in> set (sp_handoffs (sl_procs st p))"
    "sp_phase (sl_procs st p) \<noteq> Working \<Longrightarrow> sp_handoffs (sl_procs st p) = []"
  using assms unfolding handoffs_ok_def by blast+

lemma handoffs_frame:
  assumes ok: "handoffs_ok st" and same: "sl_handoffs st' = sl_handoffs st" "\<And>r. sp_handoffs (sl_procs st' r) = sp_handoffs (sl_procs st r)"
    and w: "\<And>r. sp_phase (sl_procs st r) = Working \<Longrightarrow> sp_phase (sl_procs st' r) = Working"
  shows "handoffs_ok st'"
  using ok w by (simp add: handoffs_ok_def same)

lemma handoffs_one:
  assumes ok: "handoffs_ok st" and same: "sl_handoffs st' = sl_handoffs st"
    and p: "sl_procs st' = (sl_procs st)(p := x)" and x: "sp_handoffs x = sp_handoffs (sl_procs st p)"
    and w: "sp_phase (sl_procs st p) = Working \<Longrightarrow> sp_phase x = Working"
  shows "handoffs_ok st'"
  by (rule handoffs_frame [OF ok same]) (use x w in \<open>auto simp: p\<close>)

lemma get_fold_delete: "js_get (fold js_delete ts m) t = (if t \<in> set ts then None else js_get m t)"
  by (induction ts arbitrary: m) auto

lemma release_handoffs:
  assumes ok: "handoffs_ok st" and s: "sl_handoffs s = sl_handoffs (release p st)"
    and x: "sl_procs s = (sl_procs st)(p := x)" "sp_handoffs x = []"
  shows "handoffs_ok s"
proof -
  have "js_get (sl_handoffs s) t = Some r \<longleftrightarrow> t \<in> set (sp_handoffs (sl_procs s r))" for t r
    using handoffs_okD(1) [OF ok, of t r] handoffs_okD(1) [OF ok, of t p] x(2)
    by (auto simp: s release_def clear_handoffs_def get_fold_delete x(1))
  then show ?thesis using handoffs_okD(2) [OF ok] x by (auto simp: handoffs_ok_def)
qed

lemma turn_handoffs:
  assumes ok: "handoffs_ok st" and t: "turn p st = Some st'"
  shows "handoffs_ok st'"
proof (cases "sp_phase (sl_procs st p)")
  case (Holding g)
  then have h: "holding_turn g p st = Some st'" using t by (simp add: turn_def)
  show ?thesis
  proof (cases g)
    case (ToDeactivate b)
    have "handoffs_ok (deactivate p st)"
      by (rule handoffs_frame [OF ok]) (simp_all add: deactivate_other)
    then show ?thesis using h ToDeactivate Holding deactivate_other [of st p p]
      by (auto intro!: handoffs_one [where st = "deactivate p st"])
  qed (use h Holding in \<open>auto split: if_splits intro!: handoffs_one [OF ok]\<close>)
next
  case (Barrier b)
  then show ?thesis using t
    by (auto simp: turn_def split: bool.splits if_splits intro!: release_handoffs [OF ok, of _ p])
next
  case (Leaving r n)
  show ?thesis
  proof (cases n)
    case 0
    then have "st' = after_locks r p st" using t Leaving by (simp add: turn_def)
    then show ?thesis using Leaving
      by (cases r) (auto simp: after_locks_def wait_idle_def Let_def split: if_splits intro!: handoffs_one [OF ok])
  next
    case (Suc m)
    then show ?thesis using t Leaving by (auto simp: turn_def intro!: handoffs_one [OF ok])
  qed
next
  case (MutationLeaving n b)
  then show ?thesis using t by (cases n) (auto simp: turn_def intro!: handoffs_one [OF ok])
next
  case Checking
  then show ?thesis using t
    by (auto simp: turn_def wait_idle_def Let_def split: if_splits intro!: handoffs_one [OF ok])
next
  case (Waiting ws)
  then show ?thesis using t by (auto simp: turn_def split: list.splits intro!: handoffs_one [OF ok])
next
  case (MutationTaking n)
  then show ?thesis using t by (auto simp: turn_def split: if_splits intro!: handoffs_one [OF ok])
next
  case (Taking g n)
  then show ?thesis using t by (auto simp: turn_def split: if_splits intro!: handoffs_one [OF ok])
qed (use t in \<open>simp_all add: turn_def\<close>)

lemma release_lease_handoffs: "handoffs_ok st \<Longrightarrow> handoffs_ok (release_session_lease p st)"
  by (auto simp: release_session_lease_def intro!: release_handoffs [of st _ p])

lemma forget_handoffs:
  assumes ok: "handoffs_ok st" and t: "js_get (sl_handoffs st) token = Some p"
  shows "handoffs_ok (forget_handoff token p st)"
proof -
  have "sp_phase (sl_procs st p) = Working" using handoffs_okD(1) [OF ok, of token p] handoffs_okD(2) [OF ok, of p] t by force
  moreover have "token \<notin> set (sp_handoffs (sl_procs st r))" if "r \<noteq> p" for r
    using handoffs_okD(1) [OF ok, of token r] t that by auto
  ultimately show ?thesis using handoffs_okD [OF ok] t
    by (auto simp: handoffs_ok_def forget_handoff_def)
qed

lemma create_handoffs:
  assumes ok: "handoffs_ok st" and new: "js_get (sl_handoffs st) token = None" and c: "create_handoff p token st = Some st'"
  shows "handoffs_ok st'"
proof -
  have ph: "sp_phase (sl_procs st p) = Working"
    and st': "sl_handoffs st' = js_set token p (sl_handoffs st)"
      "sl_procs st' = (sl_procs st)(p := (sl_procs st p)\<lparr>sp_handoffs := set_add token (sp_handoffs (sl_procs st p))\<rparr>)"
    using c by (auto simp: create_handoff_def split: if_splits)
  have "token \<notin> set (sp_handoffs (sl_procs st r))" for r using handoffs_okD(1) [OF ok, of token r] new by auto
  then show ?thesis using handoffs_okD [OF ok] ph by (auto simp: handoffs_ok_def st')
qed

lemma consume_handoffs:
  assumes ok: "handoffs_ok st" and c: "consume_handoff token scope ids l st = Some (r, st')"
  shows "handoffs_ok st'"
proof (cases r)
  case None
  then show ?thesis using c ok by (auto simp: consume_handoff_def Let_def split: option.splits if_splits)
next
  case (Some p)
  define s where "s = forget_handoff (js_trim token) p st"
  have s: "handoffs_ok s" unfolding s_def
    by (rule forget_handoffs [OF ok]) (use c Some in \<open>auto simp: consume_handoff_def Let_def split: option.splits if_splits\<close>)
  have t: "handoffs_ok (set_process p ((sl_procs s p)\<lparr>sp_listener := l\<rparr>) s)"
    by (rule handoffs_one [OF s _ set_process_simps(1)]) simp_all
  have "st' = set_process p ((sl_procs s p)\<lparr>sp_listener := l\<rparr>) s \<or>
      st' = call_listener l (set_process p ((sl_procs s p)\<lparr>sp_listener := l\<rparr>) s)"
    using c Some by (auto simp: consume_handoff_def Let_def s_def split: option.splits if_splits)
  then show ?thesis using t by (auto simp: handoffs_ok_def)
qed

lemma abort_handoffs:
  assumes ok: "handoffs_ok st"
  shows "handoffs_ok (abort p st)"
proof (cases "sp_phase (sl_procs st p) = Barrier False")
  case True
  have s: "handoffs_ok (set_process p ((sl_procs st p)\<lparr>sp_aborted := True\<rparr>) st)"
    by (rule handoffs_one [OF ok _ set_process_simps(1)]) simp_all
  have a: "abort p st = done_with Refused p (release p (set_process p ((sl_procs st p)\<lparr>sp_aborted := True\<rparr>) st))"
    using True by (simp add: abort_def Let_def not_yet_activated_def)
  show ?thesis unfolding a by (auto intro!: release_handoffs [OF s, of _ p])
next
  case False
  then show ?thesis
    by (cases "sp_phase (sl_procs st p)")
       (auto simp: abort_def Let_def not_yet_activated_def split: lock_goal.splits list.splits intro!: handoffs_one [OF ok])
qed

lemma new_handoffs:
  assumes ok: "locks_ok st" "handoffs_ok st"
  shows "handoffs_ok (new_process w ph l ids st)"
proof -
  have "sp_handoffs (sl_procs st (sl_next st)) = []"
    by (rule handoffs_okD(2) [OF ok(2)]) (use locks_okD(5) [OF ok(1), of "sl_next st"] in simp)
  then show ?thesis using handoffs_okD [OF ok(2)] by (auto simp: handoffs_ok_def new_process_def no_process_def)
qed

lemma step_handoffs [step_inv]:
  assumes ok: "locks_ok st" "handoffs_ok st" and e: "session_step st e = Some st'"
  shows "handoffs_ok st'"
proof (cases e)
  case (Turn p)
  then show ?thesis using turn_handoffs [OF ok(2)] e by simp
next
  case (PrepareEnds p b)
  then show ?thesis using e
    by (auto simp: when_phase_def prepare_ends_def split: if_splits intro!: handoffs_one [OF ok(2)])
next
  case (RunEnds p b)
  then show ?thesis using e by (auto simp: when_phase_def split: if_splits intro!: handoffs_one [OF ok(2)])
next
  case (AssertEnds p b)
  then show ?thesis using e
    by (auto simp: when_phase_def assert_ends_def split: if_splits intro!: handoffs_one [OF ok(2)])
next
  case (BarrierStarts p)
  then show ?thesis using e
    by (cases "sp_aborted (sl_procs st p)")
       (auto simp: when_phase_def barrier_starts_def split: if_splits
         intro: release_handoffs [OF ok(2), of _ p] handoffs_one [OF ok(2), of _ p])
next
  case (BarrierEnds p b)
  then show ?thesis using e
    by (cases b)
       (auto simp: when_phase_def barrier_ends_def split: if_splits
         intro: release_handoffs [OF ok(2), of _ p] handoffs_one [OF ok(2), of _ p])
next
  case (ReleaseLease p)
  then show ?thesis using e release_lease_handoffs [OF ok(2)] by (auto simp: when_phase_def split: if_splits)
next
  case (BeginMutation scope xs c a)
  then obtain ids where st': "st' = enter_mutation_locks 0 (sl_next st) (new_process (Mutation c) Finished None ids st)"
    using e by (auto simp: begin_mutation_def split: option.splits if_splits)
  show ?thesis unfolding st'
    by (rule handoffs_one [OF new_handoffs [OF ok] _ enter_mutation_locks_simps(1)]) (auto simp: new_process_def)
next
  case (BeginAdmission scope xs l)
  then show ?thesis using e new_handoffs [OF ok] by (auto simp: begin_admission_def split: if_splits)
next
  case (Abort p)
  then show ?thesis using e abort_handoffs [OF ok(2)] by (auto split: if_splits)
next
  case (GateCloses c)
  have "handoffs_ok (st\<lparr>sl_closed := c\<rparr>)" using ok(2) by (simp add: handoffs_ok_def)
  then show ?thesis using GateCloses e by simp
next
  case (Interrupt c scope xs)
  have "handoffs_ok (fold interrupt_one ps st)" for ps
    by (rule handoffs_frame [OF ok(2)]) (simp_all add: interrupt_calm)
  then show ?thesis using Interrupt e by (auto simp: interrupt_admissions_def Let_def)
next
  case (CreateHandoff p token)
  then show ?thesis using e create_handoffs [OF ok(2)] by (auto split: if_splits)
next
  case (ConsumeHandoff token scope xs l)
  then show ?thesis using e consume_handoffs [OF ok(2)] by auto
next
  case (CancelHandoff token)
  then show ?thesis using e release_lease_handoffs [OF forget_handoffs [OF ok(2)]] ok(2)
    by (auto simp: cancel_handoff_def split: option.splits)
qed


section \<open>Promises\<close>

definition promises_ok :: "session_lifecycle \<Rightarrow> bool" where
  "promises_ok st \<longleftrightarrow> (\<forall>p. mutating (sl_procs st p) \<or> not_yet_activated (sp_phase (sl_procs st p)) \<and> \<not> sp_aborted (sl_procs st p) \<longrightarrow>
     sp_result (sl_procs st p) = None)"

lemma promises_okD:
  assumes "promises_ok st"
  shows "mutating (sl_procs st p) \<Longrightarrow> sp_result (sl_procs st p) = None"
    "not_yet_activated (sp_phase (sl_procs st p)) \<Longrightarrow> \<not> sp_aborted (sl_procs st p) \<Longrightarrow> sp_result (sl_procs st p) = None"
  using assms unfolding promises_ok_def by blast+

lemma promises_frame:
  assumes ok: "promises_ok st" and same: "\<And>r. sp_result (sl_procs st' r) = sp_result (sl_procs st r)"
    "\<And>r. sp_aborted (sl_procs st' r) = sp_aborted (sl_procs st r)" "\<And>r. mutating (sl_procs st' r) = mutating (sl_procs st r)"
    "\<And>r. not_yet_activated (sp_phase (sl_procs st' r)) = not_yet_activated (sp_phase (sl_procs st r))"
  shows "promises_ok st'"
  using ok by (simp add: promises_ok_def same)

lemma promises_one:
  assumes ok: "promises_ok st" and p: "sl_procs st' = (sl_procs st)(p := x)"
    and x: "mutating x \<or> not_yet_activated (sp_phase x) \<and> \<not> sp_aborted x \<Longrightarrow> sp_result x = None"
  shows "promises_ok st'"
  using ok x by (auto simp: promises_ok_def p)

lemmas promise_defs = mutating_def not_yet_activated_def active_goal_def

lemma turn_promises:
  assumes ok: "promises_ok st" and t: "turn p st = Some st'"
  shows "promises_ok st'"
proof (cases "sp_phase (sl_procs st p)")
  case (Holding g)
  then have h: "holding_turn g p st = Some st'" using t by (simp add: turn_def)
  note d = promises_okD [OF ok, of p, unfolded Holding]
  show ?thesis
  proof (cases g)
    case (ToDeactivate b)
    have ny: "not_yet_activated (sp_phase (no_longer_waits_for i x)) = not_yet_activated (sp_phase x)" for i x
      by (simp add: no_longer_waits_for_def not_yet_activated_def split: session_phase.split)
    have "promises_ok (deactivate p st)"
      by (rule promises_frame [OF ok]) (simp_all add: deactivation_keeps [where f = "\<lambda>x. not_yet_activated (sp_phase x)", OF ny])
    then show ?thesis using h ToDeactivate
      by (auto simp: promise_defs intro!: promises_one [where st = "deactivate p st"])
  next
    case ToActivate
    then show ?thesis using h d(2)
      by (auto simp: promise_defs split: if_splits intro!: promises_one [OF ok])
  next
    case ToAdmit
    then show ?thesis using h by (auto simp: promise_defs split: if_splits intro!: promises_one [OF ok])
  qed (use h in simp)
next
  case (Barrier b)
  then show ?thesis using t
    by (auto simp: turn_def promise_defs split: bool.splits if_splits intro!: promises_one [OF ok])
next
  case (Leaving r n)
  note d = promises_okD(1) [OF ok, of p]
  show ?thesis
  proof (cases n)
    case 0
    then have "st' = after_locks r p st" using t Leaving by (simp add: turn_def)
    then show ?thesis using Leaving d
      by (cases r)
         (auto simp: after_locks_def wait_idle_def Let_def promise_defs split: if_splits intro!: promises_one [OF ok])
  next
    case (Suc m)
    then show ?thesis using t Leaving d by (auto simp: turn_def promise_defs intro!: promises_one [OF ok])
  qed
next
  case (MutationLeaving n b)
  then show ?thesis using t by (cases n) (auto simp: turn_def promise_defs intro!: promises_one [OF ok])
next
  case Checking
  then show ?thesis using t
    by (auto simp: turn_def wait_idle_def Let_def promise_defs split: if_splits intro!: promises_one [OF ok])
next
  case (Waiting ws)
  then show ?thesis using t by (auto simp: turn_def promise_defs split: list.splits intro!: promises_one [OF ok])
next
  case (MutationTaking n)
  note d = promises_okD(2) [OF ok, of p]
  show ?thesis using t MutationTaking d
    by (auto simp: turn_def promise_defs split: if_splits intro!: promises_one [OF ok])
next
  case (Taking g n)
  note d = promises_okD [OF ok, of p, unfolded Taking]
  have st': "sl_procs st' = (sl_procs st)(p := (sl_procs st p)\<lparr>sp_phase :=
      (if Suc n < length (sp_ids (sl_procs st p)) then Taking g (Suc n) else Holding g)\<rparr>)"
    using t Taking by (auto simp: turn_def split: if_splits)
  show ?thesis
    by (rule promises_one [OF ok st'])
       (use d in \<open>auto simp: mutating_def Taking not_yet_activated_def split: if_splits lock_goal.splits\<close>)
qed (use t in \<open>simp_all add: turn_def\<close>)

lemma lease_promises:
  assumes "promises_ok st" and "lease_change st st'"
  shows "promises_ok st'"
  using assms(1) by (simp add: promises_ok_def lease_changeD [OF assms(2)])

lemma release_promises: "promises_ok st \<Longrightarrow> promises_ok (release_session_lease p st)"
  by (auto simp: release_session_lease_def promise_defs intro!: promises_one [of st])

lemma new_promises: "promises_ok st \<Longrightarrow> promises_ok (new_process w ph l ids st)"
  by (auto simp: new_process_def no_process_def intro!: promises_one [of st])

lemma abort_promises:
  assumes ok: "promises_ok st"
  shows "promises_ok (abort p st)"
proof (cases "sp_phase (sl_procs st p)")
  case (Taking g n)
  then show ?thesis using promises_okD(1) [OF ok, of p]
    by (cases g) (auto simp: abort_def Let_def promise_defs intro!: promises_one [OF ok])
next
  case (Holding g)
  then show ?thesis using promises_okD(1) [OF ok, of p]
    by (cases g) (auto simp: abort_def Let_def promise_defs intro!: promises_one [OF ok])
qed (use promises_okD(1) [OF ok, of p] in
  \<open>auto simp: abort_def Let_def promise_defs split: list.splits bool.splits intro!: promises_one [OF ok]\<close>)

lemma step_promises [step_inv]:
  assumes ok: "promises_ok st" and e: "session_step st e = Some st'"
  shows "promises_ok st'"
proof (cases e)
  case (Turn p)
  then show ?thesis using turn_promises [OF ok] e by simp
next
  case (PrepareEnds p b)
  then show ?thesis using e promises_okD(1) [OF ok, of p]
    by (auto simp: when_phase_def prepare_ends_def promise_defs split: if_splits intro!: promises_one [OF ok])
next
  case (RunEnds p b)
  then show ?thesis using e promises_okD(1) [OF ok, of p]
    by (auto simp: when_phase_def promise_defs split: if_splits intro!: promises_one [OF ok])
next
  case (AssertEnds p b)
  then show ?thesis using e
    by (auto simp: when_phase_def assert_ends_def promise_defs split: if_splits intro!: promises_one [OF ok])
next
  case (BarrierStarts p)
  then show ?thesis using e
    by (auto simp: when_phase_def barrier_starts_def promise_defs split: if_splits intro!: promises_one [OF ok])
next
  case (BarrierEnds p b)
  then show ?thesis using e
    by (auto simp: when_phase_def barrier_ends_def promise_defs split: if_splits intro!: promises_one [OF ok])
next
  case (ReleaseLease p)
  then show ?thesis using e release_promises [OF ok] by (auto simp: when_phase_def split: if_splits)
next
  case (BeginMutation scope xs c a)
  then obtain ids where st': "st' = enter_mutation_locks 0 (sl_next st) (new_process (Mutation c) Finished None ids st)"
    using e by (auto simp: begin_mutation_def split: option.splits if_splits)
  show ?thesis unfolding st'
    by (rule promises_one [OF new_promises [OF ok] enter_mutation_locks_simps(1)]) (auto simp: new_process_def no_process_def)
next
  case (BeginAdmission scope xs l)
  then show ?thesis using e new_promises [OF ok] by (auto simp: begin_admission_def split: if_splits)
next
  case (Abort p)
  then show ?thesis using e abort_promises [OF ok] by (auto split: if_splits)
next
  case (GateCloses c)
  have "promises_ok (st\<lparr>sl_closed := c\<rparr>)" using ok by (simp add: promises_ok_def)
  then show ?thesis using GateCloses e by simp
next
  case (Interrupt c scope xs)
  then show ?thesis using e lease_promises [OF ok interrupt_lease] by (auto simp: interrupt_admissions_def Let_def)
next
  case (CreateHandoff p token)
  then show ?thesis using e lease_promises [OF ok create_lease] by (auto split: if_splits)
next
  case (ConsumeHandoff token scope xs l)
  then show ?thesis using e lease_promises [OF ok consume_lease] by auto
next
  case (CancelHandoff token)
  then show ?thesis using e release_promises [OF lease_promises [OF ok forget_lease]] ok
    by (auto simp: cancel_handoff_def split: option.splits)
qed

section \<open>The whole invariant\<close>

definition session_ok :: "session_lifecycle \<Rightarrow> bool" where
  "session_ok st \<longleftrightarrow> locks_ok st \<and> mutations_ok st \<and> waiting_ok st \<and> admissions_ok st \<and> handoffs_ok st \<and> promises_ok st"

lemma session_okD:
  assumes "session_ok st"
  shows "locks_ok st" "mutations_ok st" "waiting_ok st" "admissions_ok st" "handoffs_ok st" "promises_ok st"
  using assms by (simp_all add: session_ok_def)

lemma empty_session_ok: "session_ok empty_lifecycle"
  by (simp add: session_ok_def locks_ok_def mutations_ok_def waiting_ok_def admissions_ok_def handoffs_ok_def promises_ok_def
      empty_lifecycle_def no_process_def phase_defs ids_of_def count_of_def entries_of_def not_yet_activated_def lines_empty)

lemma step_session_ok: "session_ok st \<Longrightarrow> session_step st e = Some st' \<Longrightarrow> session_ok st'"
  unfolding session_ok_def
  by (blast intro: step_locks step_mutations step_waiting step_admissions step_handoffs step_promises)

lemma reachable_session_ok: "session_reachable st \<Longrightarrow> session_ok st"
  by (induction rule: session_reachable.induct) (auto intro: empty_session_ok step_session_ok)

end
