(* ===== verification/Session_Props.thy ===== *)
theory Session_Props
  imports Session_Leases
begin

text \<open>
  What the session lifecycle guarantees, for any number of concurrent mutations and admissions: exclusion, completion
  of every piece of work, aborts, exact queries and single-use handoffs.
\<close>

section \<open>Nobody is stuck\<close>

text \<open>The events that carry begun work on; the others are new requests, aborts and lease operations.\<close>

fun internal :: "session_event \<Rightarrow> bool" where
  "internal (Turn p) = True"
| "internal (PrepareEnds p ok) = True"
| "internal (RunEnds p ok) = True"
| "internal (AssertEnds p ok) = True"
| "internal (BarrierStarts p) = True"
| "internal (BarrierEnds p ok) = True"
| "internal (ReleaseLease p) = True"
| "internal e = False"

definition can_move :: "session_lifecycle \<Rightarrow> bool" where
  "can_move st \<longleftrightarrow> (\<exists>e st'. internal e \<and> session_step st e = Some st')"

lemma can_moveI: "internal e \<Longrightarrow> session_step st e = Some st' \<Longrightarrow> can_move st"
  unfolding can_move_def by blast

lemma turn_moves: "turn p st \<noteq> None \<Longrightarrow> can_move st"
  by (rule can_moveI [of "Turn p" st "the (turn p st)"]) auto

lemma free_phase_moves:
  assumes "sp_phase (sl_procs st p) \<notin> range MutationTaking \<union> {ph. \<exists>g n. ph = Taking g n} \<union> {ph. \<exists>i ws. ph = Waiting (i # ws)} \<union> {Finished}"
  shows "can_move st"
proof (cases "sp_phase (sl_procs st p)")
  case (Holding g)
  show ?thesis
  proof (cases "g = ToRun")
    case True
    then show ?thesis using Holding by (intro can_moveI [of "RunEnds p True"]) (simp_all add: when_phase_def)
  next
    case False
    then show ?thesis using Holding by (intro turn_moves [of p]) (cases g; simp add: turn_def Let_def)
  qed
next
  case Asserting
  then show ?thesis by (intro can_moveI [of "AssertEnds p True"]) (simp_all add: when_phase_def)
next
  case (Barrier b)
  show ?thesis
  proof (cases b)
    case True
    then show ?thesis using Barrier by (intro can_moveI [of "BarrierEnds p True"]) (simp_all add: when_phase_def)
  next
    case False
    then show ?thesis using Barrier by (intro can_moveI [of "BarrierStarts p"]) (simp_all add: when_phase_def)
  qed
next
  case (Leaving r n)
  then show ?thesis by (intro turn_moves [of p]) (cases n; simp add: turn_def)
next
  case Preparing
  then show ?thesis by (intro can_moveI [of "PrepareEnds p True"]) (simp_all add: when_phase_def)
next
  case (MutationLeaving n b)
  then show ?thesis by (intro turn_moves [of p]) (cases n; simp add: turn_def)
next
  case Checking
  then show ?thesis by (intro turn_moves [of p]) (simp add: turn_def Let_def)
next
  case (Waiting ws)
  then have "ws = []" using assms by (cases ws) auto
  then show ?thesis using Waiting by (intro turn_moves [of p]) (simp add: turn_def)
next
  case Working
  then show ?thesis by (intro can_moveI [of "ReleaseLease p"]) (simp_all add: when_phase_def)
qed (use assms in auto)

lemma taking_moves:
  assumes ok: "session_ok st" and ph: "sp_phase (sl_procs st p) = Taking g n"
  shows "can_move st"
proof -
  note l = locks_okD [OF session_okD(1) [OF ok]]
  have fin: "finite {p. lock_queued (sl_procs st p) \<noteq> 0}"
    by (rule finite_subset [of _ "{..<sl_next st}"])
       (use l(5) in \<open>auto simp: phase_defs not_less intro: ccontr\<close>)
  have w: "lock_queued (sl_procs st p) = Suc (lock_held (sl_procs st p))" using ph by (simp add: phase_defs)
  from l(1,3) fin w show ?thesis
  proof (rule lines_progress)
    fix r assume r: "lock_queued (sl_procs st r) = Suc (lock_held (sl_procs st r))"
      "\<exists>t. sl_lines st (ids_of st r ! lock_held (sl_procs st r)) = r # t"
    then obtain g' m where m: "sp_phase (sl_procs st r) = Taking g' m" by (auto simp: phase_defs split: session_phase.splits)
    then have "at_head r (sl_lines st (sp_ids (sl_procs st r) ! m))" using r(2) by (auto simp: phase_defs at_head_def ids_of_def)
    then show ?thesis using m by (intro turn_moves [of r]) (simp add: turn_def)
  next
    fix r assume "lock_queued (sl_procs st r) = lock_held (sl_procs st r)" "0 < lock_held (sl_procs st r)"
    then show ?thesis by (intro free_phase_moves [of st r]) (auto simp: phase_defs split: session_phase.splits)
  qed
qed

lemma mutation_taking_moves:
  assumes ok: "session_ok st" and ph: "sp_phase (sl_procs st p) = MutationTaking n"
  shows "can_move st"
proof -
  note l = locks_okD [OF session_okD(1) [OF ok]]
  have fin: "finite {p. mutation_queued (sl_procs st p) \<noteq> 0}"
    by (rule finite_subset [of _ "{..<sl_next st}"])
       (use l(5) in \<open>auto simp: phase_defs not_less intro: ccontr\<close>)
  have w: "mutation_queued (sl_procs st p) = Suc (mutation_held (sl_procs st p))" using ph by (simp add: phase_defs)
  from l(2,3) fin w show ?thesis
  proof (rule lines_progress)
    fix r assume r: "mutation_queued (sl_procs st r) = Suc (mutation_held (sl_procs st r))"
      "\<exists>t. sl_mutation_lines st (ids_of st r ! mutation_held (sl_procs st r)) = r # t"
    then obtain m where m: "sp_phase (sl_procs st r) = MutationTaking m" by (auto simp: phase_defs split: session_phase.splits)
    then have "at_head r (sl_mutation_lines st (sp_ids (sl_procs st r) ! m))" using r(2) by (auto simp: phase_defs at_head_def ids_of_def)
    then show ?thesis using m by (intro turn_moves [of r]) (simp add: turn_def)
  next
    fix r assume r: "mutation_queued (sl_procs st r) = mutation_held (sl_procs st r)" "0 < mutation_held (sl_procs st r)"
    show ?thesis
    proof (cases "\<exists>g n. sp_phase (sl_procs st r) = Taking g n")
      case True
      then show ?thesis using taking_moves [OF ok] by blast
    next
      case False
      then show ?thesis using r by (intro free_phase_moves [of st r]) (auto simp: phase_defs split: session_phase.splits)
    qed
  qed
qed

lemma unfinished_moves:
  assumes ok: "session_ok st" and ph: "sp_phase (sl_procs st p) \<noteq> Finished"
  shows "can_move st"
proof -
  consider g n where "sp_phase (sl_procs st p) = Taking g n" | n where "sp_phase (sl_procs st p) = MutationTaking n"
    | i ws where "sp_phase (sl_procs st p) = Waiting (i # ws)"
    | "sp_phase (sl_procs st p) \<notin> range MutationTaking \<union> {ph. \<exists>g n. ph = Taking g n} \<union> {ph. \<exists>i ws. ph = Waiting (i # ws)} \<union> {Finished}"
    using ph by blast
  then show ?thesis
  proof cases
    case 1
    then show ?thesis by (rule taking_moves [OF ok])
  next
    case 2
    then show ?thesis by (rule mutation_taking_moves [OF ok])
  next
    case 3
    then have "0 < count_of (sl_active st) i" using waiting_okD(2) [OF session_okD(3) [OF ok], of p "i # ws" i] by simp
    then obtain r where r: "mutating (sl_procs st r)"
      using mutations_okD(1) [OF session_okD(2) [OF ok], of i] by (auto split: if_splits)
    show ?thesis
    proof (cases "\<exists>g n. sp_phase (sl_procs st r) = Taking g n")
      case True
      then show ?thesis using taking_moves [OF ok] by blast
    next
      case False
      then show ?thesis using r by (intro free_phase_moves [of st r]) (auto simp: phase_defs split: session_phase.splits)
    qed
  next
    case 4
    then show ?thesis by (rule free_phase_moves)
  qed
qed


section \<open>Work runs out\<close>

text \<open>
  What is left of a mutation, and of an admission while no mutation of its identities is active or while one is. A
  blocked admission starts over only after the mutation that blocked it has been deactivated.
\<close>

definition mutation_rank :: "session_process \<Rightarrow> nat" where
  "mutation_rank x =
     (let n = length (sp_ids x); c = n + 2
      in case sp_phase x of
           MutationTaking k \<Rightarrow> 7 * c + (n - k)
         | Taking ToActivate k \<Rightarrow> 6 * c + 1 + (n - k) | Holding ToActivate \<Rightarrow> 6 * c
         | Leaving Activated k \<Rightarrow> 5 * c + 1 + k | Preparing \<Rightarrow> 5 * c
         | Taking ToRun k \<Rightarrow> 4 * c + 1 + (n - k) | Holding ToRun \<Rightarrow> 4 * c | Leaving (Ran b) k \<Rightarrow> 3 * c + k
         | Taking (ToDeactivate b) k \<Rightarrow> 2 * c + 1 + (n - k) | Holding (ToDeactivate b) \<Rightarrow> 2 * c
         | Leaving (Deactivated b) k \<Rightarrow> c + k | Leaving NotActivated k \<Rightarrow> c + k
         | MutationLeaving k b \<Rightarrow> 1 + k | _ \<Rightarrow> 0)"

definition admission_rank :: "bool \<Rightarrow> session_process \<Rightarrow> nat" where
  "admission_rank active x =
     (let n = length (sp_ids x)
      in case sp_phase x of
           Waiting ws \<Rightarrow> if ws = [] then 2 * n + 9 else 0
         | Checking \<Rightarrow> 2 * n + 8
         | Taking ToAdmit k \<Rightarrow> n + 7 + (n - k) | Holding ToAdmit \<Rightarrow> n + 6
         | Asserting \<Rightarrow> n + 5 | Barrier b \<Rightarrow> if b then n + 3 else n + 4
         | Leaving Blocked k \<Rightarrow> if active then 1 + min k n else 2 * n + 9 + min k n
         | Leaving Refused k \<Rightarrow> 2 + min k n | Leaving Leased k \<Rightarrow> 2 + min k n
         | Working \<Rightarrow> 1 | _ \<Rightarrow> 0)"

definition rank_of :: "session_lifecycle \<Rightarrow> nat \<Rightarrow> nat" where
  "rank_of st p = admission_rank (has_active_mutation st (sp_ids (sl_procs st p))) (sl_procs st p)"

definition work_left :: "session_lifecycle \<Rightarrow> nat" where
  "work_left st =
     (\<Sum>p<sl_next st. mutation_rank (sl_procs st p)) * (\<Sum>p<sl_next st. 3 * length (sp_ids (sl_procs st p)) + 10) +
     (\<Sum>p<sl_next st. rank_of st p)"

text \<open>What a step does to the ranks: a mutation moves on, or an admission does while the mutations stay.\<close>

definition mutation_moves :: "nat \<Rightarrow> session_lifecycle \<Rightarrow> session_lifecycle \<Rightarrow> bool" where
  "mutation_moves p st st' \<longleftrightarrow>
     mutation_rank (sl_procs st' p) < mutation_rank (sl_procs st p) \<and>
     (\<forall>r. r \<noteq> p \<longrightarrow> mutation_rank (sl_procs st' r) = mutation_rank (sl_procs st r)) \<and>
     (\<forall>r. sp_ids (sl_procs st' r) = sp_ids (sl_procs st r)) \<and> sl_next st' = sl_next st"

definition admission_moves :: "nat \<Rightarrow> session_lifecycle \<Rightarrow> session_lifecycle \<Rightarrow> bool" where
  "admission_moves p st st' \<longleftrightarrow>
     (\<exists>x. sl_procs st' = (sl_procs st)(p := x) \<and> sp_ids x = sp_ids (sl_procs st p) \<and>
       mutation_rank x = mutation_rank (sl_procs st p) \<and>
       admission_rank (has_active_mutation st (sp_ids x)) x < rank_of st p) \<and>
     sl_active st' = sl_active st \<and> sl_next st' = sl_next st"

lemma mutation_movesI:
  assumes "sl_procs st' = (sl_procs st)(p := x)" and "sp_ids x = sp_ids (sl_procs st p)"
    and "mutation_rank x < mutation_rank (sl_procs st p)" and "sl_next st' = sl_next st"
  shows "mutation_moves p st st'"
  using assms by (simp add: mutation_moves_def)

lemma admission_movesI:
  assumes "sl_procs st' = (sl_procs st)(p := x)" and "sp_ids x = sp_ids (sl_procs st p)"
    and "mutation_rank x = mutation_rank (sl_procs st p)"
    and "admission_rank (has_active_mutation st (sp_ids (sl_procs st p))) x < rank_of st p"
    and "sl_active st' = sl_active st" and "sl_next st' = sl_next st"
  shows "admission_moves p st st'"
  using assms by (auto simp: admission_moves_def)

lemma rank_bound: "admission_rank a x < 3 * length (sp_ids x) + 10"
  by (auto simp: admission_rank_def Let_def min_def split: session_phase.split lock_goal.split lock_result.split)

lemma active_ids: "has_active_mutation st ids \<longleftrightarrow> filter (\<lambda>i. 0 < count_of (sl_active st) i) ids \<noteq> []"
  by (simp add: has_active_mutation_def list_ex_iff filter_empty_conv)

lemmas rank_defs = mutation_rank_def admission_rank_def rank_of_def Let_def

lemma turn_ranks:
  assumes ok: "locks_ok st" and t: "turn p st = Some st'"
  shows "mutation_moves p st st' \<or> admission_moves p st st'"
proof (cases "sp_phase (sl_procs st p)")
  case (MutationTaking n)
  then have "mutation_moves p st st'" using t
    by (auto simp: turn_def rank_defs split: if_splits intro!: mutation_movesI)
  then show ?thesis ..
next
  case (Taking g n)
  then show ?thesis using t
    by (cases g) (auto simp: turn_def rank_defs split: if_splits intro!: mutation_movesI admission_movesI)
next
  case (Holding g)
  then have h: "holding_turn g p st = Some st'" using t by (simp add: turn_def)
  show ?thesis
  proof (cases g)
    case ToActivate
    then have "mutation_moves p st st'" using h Holding
      by (auto simp: rank_defs split: if_splits intro!: mutation_movesI)
    then show ?thesis ..
  next
    case (ToDeactivate b)
    have m: "mutation_rank (no_longer_waits_for i x) = mutation_rank x" for i x
      by (simp add: no_longer_waits_for_def mutation_rank_def Let_def split: session_phase.split)
    have "mutation_rank (sl_procs (deactivate p st) r) = mutation_rank (sl_procs st r)" for r
      by (rule deactivation_keeps [where f = mutation_rank, OF m])
    then have "mutation_moves p st st'" using h Holding ToDeactivate deactivate_other [of st p p]
      by (auto simp: mutation_moves_def) (simp_all add: rank_defs)
    then show ?thesis ..
  next
    case ToAdmit
    then have "admission_moves p st st'" using h Holding
      by (auto simp: rank_defs split: if_splits intro!: admission_movesI)
    then show ?thesis ..
  qed (use h in simp)
next
  case (Barrier b)
  then have "admission_moves p st st'" using t
    by (auto simp: turn_def rank_defs split: bool.splits if_splits intro!: admission_movesI)
  then show ?thesis ..
next
  case (Leaving r n)
  have le: "n \<le> length (sp_ids (sl_procs st p))"
    using lines_okD(1,3) [OF locks_okD(1) [OF ok], of p] Leaving by (simp add: phase_defs ids_of_def)
  show ?thesis
  proof (cases n)
    case 0
    then have st': "st' = after_locks r p st" using t Leaving by (simp add: turn_def)
    show ?thesis
    proof (cases "r = Blocked")
      case True
      let ?act = "filter (\<lambda>i. 0 < count_of (sl_active st) i) (sp_ids (sl_procs st p))"
      have w: "st' = wait_idle p st" using st' True by (simp add: after_locks_def)
      have "admission_moves p st st'"
      proof (cases "?act = []")
        case none: True
        then have "st' = to_phase p Checking st" by (simp add: w wait_idle_def)
        then show ?thesis using none Leaving True 0
          by (auto simp: rank_defs active_ids intro!: admission_movesI)
      next
        case False
        then show ?thesis using Leaving True 0
          by (auto simp: w wait_idle_def rank_defs active_ids intro!: admission_movesI)
      qed
      then show ?thesis ..
    next
      case False
      then show ?thesis using st' Leaving 0
        by (cases r)
           (auto simp: after_locks_def rank_defs split: if_splits intro!: mutation_movesI admission_movesI)
    qed
  next
    case (Suc m)
    then show ?thesis using t Leaving le
      by (cases r) (auto simp: turn_def rank_defs intro!: mutation_movesI admission_movesI)
  qed
next
  case (MutationLeaving n b)
  then have "mutation_moves p st st'" using t by (cases n) (auto simp: turn_def rank_defs intro!: mutation_movesI)
  then show ?thesis ..
next
  case Checking
  then consider "st' = finish False p st" | "st' = wait_idle p st" "has_active_mutation st (sp_ids (sl_procs st p))"
    | "st' = enter_locks ToAdmit 0 p st" using t by (auto simp: turn_def Let_def split: if_splits)
  then have "admission_moves p st st'"
    by cases (auto simp: Checking wait_idle_def rank_defs active_ids intro!: admission_movesI)
  then show ?thesis ..
next
  case (Waiting ws)
  then have "admission_moves p st st'" using t
    by (auto simp: turn_def rank_defs split: list.splits intro!: admission_movesI)
  then show ?thesis ..
qed (use t in \<open>simp_all add: turn_def\<close>)


lemma internal_ranks:
  assumes ok: "locks_ok st" and i: "internal e" and e: "session_step st e = Some st'"
  obtains p where "p < sl_next st" "mutation_moves p st st' \<or> admission_moves p st st'"
proof -
  have "\<exists>p. sp_phase (sl_procs st p) \<noteq> Finished \<and> (mutation_moves p st st' \<or> admission_moves p st st')"
  proof (cases e)
    case (Turn p)
    then have t: "turn p st = Some st'" using e by simp
    then have "sp_phase (sl_procs st p) \<noteq> Finished" by (auto simp: turn_def)
    then show ?thesis using turn_ranks [OF ok t] by blast
  next
    case (PrepareEnds p b)
    then have "sp_phase (sl_procs st p) = Preparing" "mutation_moves p st st'" using e
      by (auto simp: when_phase_def prepare_ends_def rank_defs split: if_splits intro!: mutation_movesI)
    then show ?thesis by (intro exI [of _ p]) simp
  next
    case (RunEnds p b)
    then have "sp_phase (sl_procs st p) = Holding ToRun" "mutation_moves p st st'" using e
      by (auto simp: when_phase_def rank_defs split: if_splits intro!: mutation_movesI)
    then show ?thesis by (intro exI [of _ p]) simp
  next
    case (AssertEnds p b)
    then have "sp_phase (sl_procs st p) = Asserting" "admission_moves p st st'" using e
      by (auto simp: when_phase_def assert_ends_def rank_defs split: if_splits intro!: admission_movesI)
    then show ?thesis by (intro exI [of _ p]) simp
  next
    case (BarrierStarts p)
    then have "sp_phase (sl_procs st p) = Barrier False" "admission_moves p st st'" using e
      by (auto simp: when_phase_def barrier_starts_def rank_defs split: if_splits intro!: admission_movesI)
    then show ?thesis by (intro exI [of _ p]) simp
  next
    case (BarrierEnds p b)
    then have "sp_phase (sl_procs st p) = Barrier True" "admission_moves p st st'" using e
      by (auto simp: when_phase_def barrier_ends_def rank_defs split: if_splits intro!: admission_movesI)
    then show ?thesis by (intro exI [of _ p]) simp
  next
    case (ReleaseLease p)
    then have "sp_phase (sl_procs st p) = Working" "admission_moves p st st'" using e
      by (auto simp: when_phase_def release_session_lease_def rank_defs split: if_splits intro!: admission_movesI)
    then show ?thesis by (intro exI [of _ p]) simp
  qed (use i in simp_all)
  then show thesis using that locks_known [OF ok] by blast
qed

lemma sum_one_less:
  fixes f g :: "nat \<Rightarrow> nat"
  assumes "p < n" and "f p < g p" and "\<And>r. r \<noteq> p \<Longrightarrow> f r = g r"
  shows "(\<Sum>r<n. f r) < (\<Sum>r<n. g r)"
  by (rule sum_strict_mono_ex1) (use assms in \<open>auto simp: le_less\<close>, metis)

lemma work_shrinks:
  assumes p: "p < sl_next st" and m: "mutation_moves p st st' \<or> admission_moves p st st'"
  shows "work_left st' < work_left st"
  using m
proof
  assume m: "mutation_moves p st st'"
  let ?B = "\<Sum>r<sl_next st. 3 * length (sp_ids (sl_procs st r)) + 10"
  let ?M = "\<Sum>r<sl_next st. mutation_rank (sl_procs st r)" and ?M' = "\<Sum>r<sl_next st. mutation_rank (sl_procs st' r)"
  have ids: "sp_ids (sl_procs st' r) = sp_ids (sl_procs st r)" for r using m by (simp add: mutation_moves_def)
  have next_st: "sl_next st' = sl_next st" using m by (simp add: mutation_moves_def)
  have less: "?M' < ?M" by (rule sum_one_less [OF p]) (use m in \<open>simp_all add: mutation_moves_def\<close>)
  have "(\<Sum>r<sl_next st. rank_of st' r) < ?B"
  proof (rule sum_strict_mono)
    show "rank_of st' r < 3 * length (sp_ids (sl_procs st r)) + 10" for r
      using rank_bound [of _ "sl_procs st' r"] by (simp add: rank_of_def ids)
  qed (use p in auto)
  moreover have "Suc ?M' * ?B \<le> ?M * ?B" by (rule mult_le_mono1) (use less in simp)
  ultimately show ?thesis by (simp add: work_left_def ids next_st)
next
  assume a: "admission_moves p st st'"
  then obtain x where x: "sl_procs st' = (sl_procs st)(p := x)" "sp_ids x = sp_ids (sl_procs st p)"
      "mutation_rank x = mutation_rank (sl_procs st p)" "admission_rank (has_active_mutation st (sp_ids x)) x < rank_of st p"
    and same: "sl_active st' = sl_active st" "sl_next st' = sl_next st" by (auto simp: admission_moves_def)
  have act: "has_active_mutation st' ids = has_active_mutation st ids" for ids by (simp add: has_active_mutation_def same)
  have m: "mutation_rank (sl_procs st' r) = mutation_rank (sl_procs st r)" and i: "sp_ids (sl_procs st' r) = sp_ids (sl_procs st r)" for r
    using x by auto
  have "(\<Sum>r<sl_next st. rank_of st' r) < (\<Sum>r<sl_next st. rank_of st r)"
    by (rule sum_one_less [OF p]) (use x(4) in \<open>simp_all add: rank_of_def act x(1)\<close>)
  then show ?thesis by (simp add: work_left_def m i same(2))
qed

lemma internal_run_bounded:
  "session_ok st \<Longrightarrow> list_all internal es \<Longrightarrow> session_run st es = Some st' \<Longrightarrow>
    length es + work_left st' \<le> work_left st \<and> session_ok st'"
proof (induction es arbitrary: st)
  case (Cons e es)
  then obtain s where s: "session_step st e = Some s" "session_run s es = Some st'" by (auto simp: bind_eq_Some_conv)
  obtain p where p: "p < sl_next st" "mutation_moves p st s \<or> admission_moves p st s"
    using internal_ranks [OF session_okD(1) [OF Cons.prems(1)] _ s(1)] Cons.prems(2) by auto
  have "session_ok s" by (rule step_session_ok [OF Cons.prems(1) s(1)])
  from Cons.IH [OF this _ s(2)] show ?case using work_shrinks [OF p] Cons.prems(2) by simp
qed simp

text \<open>C1: Every piece of session work comes to its end: from a reachable state the begun mutations and admissions make
  a bounded number of steps, in any order of turns and callbacks, and as long as one of them is unfinished some step is
  possible. There is no deadlock of the two lock tables, no lost wakeup of a waiting admission and no endless retry.\<close>

theorem session_work_completes:
  assumes "session_reachable st"
  shows "\<exists>N. \<forall>es st'. list_all internal es \<longrightarrow> session_run st es = Some st' \<longrightarrow>
    length es \<le> N \<and> ((\<forall>p. sp_phase (sl_procs st' p) = Finished) \<or> (\<exists>e s. internal e \<and> session_step st' e = Some s))"
proof (intro exI allI impI)
  fix es st' assume es: "list_all internal es" "session_run st es = Some st'"
  note b = internal_run_bounded [OF reachable_session_ok [OF assms] es]
  then show "length es \<le> work_left st \<and>
      ((\<forall>p. sp_phase (sl_procs st' p) = Finished) \<or> (\<exists>e s. internal e \<and> session_step st' e = Some s))"
    using unfinished_moves [of st'] by (auto simp: can_move_def)
qed


section \<open>Exclusion\<close>

text \<open>C2: Mutations of a shared identity exclude each other from their activation to the end of their cleanup, whatever
  the order of events; and while a mutation is active no admission that shares an identity with it is being asserted
  or registered.\<close>

theorem active_mutation_is_alone:
  assumes "session_reachable st" and "mutating (sl_procs st p)"
    and "i \<in> set (sp_ids (sl_procs st p))" and "i \<in> set (sp_ids (sl_procs st r))"
  shows "(mutating (sl_procs st r) \<longrightarrow> r = p) \<and> sp_phase (sl_procs st r) \<notin> {Asserting, Barrier False, Barrier True}"
proof -
  note ok = session_okD [OF reachable_session_ok [OF assms(1)]]
  have "r = p" if "mutating (sl_procs st r)"
    using mutation_exclusive [OF ok(1), of r p i] mutating_held that assms by (simp add: ids_of_def)
  moreover have "0 < count_of (sl_active st) i"
    using mutations_okD(1) [OF ok(2), of i] assms(2,3) by (auto simp: ids_of_def)
  then have "\<not> being_admitted (sl_procs st r)"
    using mutations_okD(5) [OF ok(2), of r i] assms(4) by (auto simp: ids_of_def)
  ultimately show ?thesis by (auto simp: being_admitted_def)
qed

section \<open>Aborts\<close>

definition given_up :: "session_process \<Rightarrow> bool" where
  "given_up x \<longleftrightarrow> sp_aborted x \<and> \<not> mutating x"

lemma turn_given_up:
  assumes g: "given_up (sl_procs st p)" and t: "turn r st = Some st'"
  shows "given_up (sl_procs st' p)"
proof (cases "sp_phase (sl_procs st r)")
  case (Holding h)
  then have ht: "holding_turn h r st = Some st'" using t by (simp add: turn_def)
  show ?thesis
  proof (cases h)
    case (ToDeactivate b)
    have "given_up (sl_procs (deactivate r st) p)" using g by (simp add: given_up_def)
    moreover have "st' = done_with (Deactivated b) r (deactivate r st)" using ht ToDeactivate by simp
    ultimately show ?thesis by (cases "p = r") (simp add: given_up_def mutating_def, simp)
  qed (use ht Holding g in \<open>auto simp: given_up_def mutating_def active_goal_def split: if_splits\<close>)
next
  case (Leaving l n)
  show ?thesis
  proof (cases n)
    case 0
    then have "st' = after_locks l r st" using t Leaving by (simp add: turn_def)
    then show ?thesis using Leaving g
      by (cases l)
         (auto simp: after_locks_def wait_idle_def Let_def given_up_def mutating_def active_goal_def split: if_splits)
  next
    case (Suc m)
    then show ?thesis using t Leaving g by (auto simp: turn_def given_up_def mutating_def split: if_splits)
  qed
next
  case (Taking h n)
  then show ?thesis using t g by (auto simp: turn_def given_up_def mutating_def split: if_splits)
next
  case (MutationLeaving n b)
  then show ?thesis using t g by (cases n) (auto simp: turn_def given_up_def mutating_def split: if_splits)
next
  case (MutationTaking n)
  then show ?thesis using t g by (auto simp: turn_def given_up_def mutating_def active_goal_def split: if_splits)
next
  case Checking
  then show ?thesis using t g
    by (auto simp: turn_def wait_idle_def Let_def given_up_def mutating_def active_goal_def split: if_splits)
next
  case (Barrier b)
  then show ?thesis using t g by (auto simp: turn_def given_up_def mutating_def split: bool.splits if_splits)
next
  case (Waiting ws)
  then show ?thesis using t g by (auto simp: turn_def given_up_def mutating_def split: list.splits if_splits)
qed (use t in \<open>simp_all add: turn_def\<close>)

lemma lease_given_up: "given_up (sl_procs st p) \<Longrightarrow> lease_change st st' \<Longrightarrow> given_up (sl_procs st' p)"
  by (simp add: given_up_def lease_changeD)

lemma abort_given_up:
  assumes "given_up (sl_procs st p)"
  shows "given_up (sl_procs (abort r st) p)"
  using assms
  by (cases "sp_phase (sl_procs st r)")
     (auto simp: abort_def Let_def given_up_def mutating_def not_yet_activated_def active_goal_def
       split: lock_goal.splits list.splits bool.splits)

lemma release_given_up: "given_up (sl_procs st p) \<Longrightarrow> given_up (sl_procs (release_session_lease r st) p)"
  by (auto simp: release_session_lease_def given_up_def mutating_def)

lemma release_next: "sl_next (release_session_lease r st) = sl_next st"
  by (simp add: release_session_lease_def)

lemma step_given_up:
  assumes ok: "locks_ok st" and p: "p < sl_next st" and g: "given_up (sl_procs st p)" and e: "session_step st e = Some st'"
  shows "given_up (sl_procs st' p) \<and> p < sl_next st'"
proof (cases e)
  case (Turn r)
  then have t: "turn r st = Some st'" using e by simp
  have "sl_next st' = sl_next st" using turn_ranks [OF ok t] by (auto simp: mutation_moves_def admission_moves_def)
  then show ?thesis using turn_given_up [OF g t] p by simp
next
  case (PrepareEnds r b)
  then show ?thesis using e g p
    by (auto simp: when_phase_def prepare_ends_def given_up_def mutating_def active_goal_def split: if_splits)
next
  case (RunEnds r b)
  then show ?thesis using e g p by (auto simp: when_phase_def given_up_def mutating_def active_goal_def split: if_splits)
next
  case (AssertEnds r b)
  then show ?thesis using e g p by (auto simp: when_phase_def assert_ends_def given_up_def mutating_def split: if_splits)
next
  case (BarrierStarts r)
  then show ?thesis using e g p by (auto simp: when_phase_def barrier_starts_def given_up_def mutating_def split: if_splits)
next
  case (BarrierEnds r b)
  then show ?thesis using e g p by (auto simp: when_phase_def barrier_ends_def given_up_def mutating_def split: if_splits)
next
  case (ReleaseLease r)
  then have "st' = release_session_lease r st" using e by (auto simp: when_phase_def split: if_splits)
  then show ?thesis using release_given_up [OF g] p by (simp add: release_next)
next
  case (BeginMutation scope xs c a)
  then show ?thesis using e g p by (auto simp: begin_mutation_def new_process_def split: option.splits if_splits)
next
  case (BeginAdmission scope xs l)
  then show ?thesis using e g p by (auto simp: begin_admission_def new_process_def split: if_splits)
next
  case (Abort r)
  have "sl_next (abort r st) = sl_next st"
    by (simp add: abort_def Let_def split: session_phase.split list.split bool.split)
  then show ?thesis using Abort e abort_given_up [OF g] p by (auto split: if_splits)
next
  case (GateCloses c)
  then show ?thesis using e g p by auto
next
  case (Interrupt c scope xs)
  then show ?thesis using e lease_given_up [OF g interrupt_lease] p
    by (auto simp: interrupt_admissions_def interrupt_calm Let_def)
next
  case (CreateHandoff r token)
  then have "lease_change st st'" using e create_lease by (auto split: if_splits)
  then show ?thesis using lease_given_up [OF g] p by (simp add: lease_changeD)
next
  case (ConsumeHandoff token scope xs l)
  then have "lease_change st st'" using e consume_lease by auto
  then show ?thesis using lease_given_up [OF g] p by (simp add: lease_changeD)
next
  case (CancelHandoff token)
  show ?thesis
  proof (cases "js_get (sl_handoffs st) (js_trim token)")
    case (Some r)
    let ?s = "forget_handoff (js_trim token) r st"
    have "st' = release_session_lease r ?s" using e CancelHandoff Some by (simp add: cancel_handoff_def)
    then show ?thesis using release_given_up [OF lease_given_up [OF g forget_lease]] p
      by (simp add: release_next lease_changeD(3) [OF forget_lease])
  qed (use e CancelHandoff g p in \<open>simp add: cancel_handoff_def\<close>)
qed

lemma run_given_up:
  "session_ok st \<Longrightarrow> p < sl_next st \<Longrightarrow> given_up (sl_procs st p) \<Longrightarrow> session_run st es = Some st' \<Longrightarrow> given_up (sl_procs st' p)"
proof (induction es arbitrary: st)
  case (Cons e es)
  then obtain s where s: "session_step st e = Some s" "session_run s es = Some st'" by (auto simp: bind_eq_Some_conv)
  show ?case
    using Cons.IH [OF step_session_ok [OF Cons.prems(1) s(1)] _ _ s(2)]
      step_given_up [OF session_okD(1) [OF Cons.prems(1)] Cons.prems(2,3) s(1)] by blast
qed simp

text \<open>C3: The abort of a mutation rejects its caller at once and for good as long as the mutation has not been activated,
  and the mutation then never runs, in any later order of events; a mutation that is active reports to its caller only
  after its cleanup.\<close>

theorem abort_decides_before_activation:
  assumes "session_reachable st" and "p < sl_next st"
  shows "(mutating (sl_procs st p) \<longrightarrow> sp_result (sl_procs (abort p st) p) = None \<and> mutating (sl_procs (abort p st) p)) \<and>
    (not_yet_activated (sp_phase (sl_procs st p)) \<longrightarrow>
       sp_result (sl_procs (abort p st) p) = Some False \<and>
       (\<forall>es st'. session_run (abort p st) es = Some st' \<longrightarrow> \<not> mutating (sl_procs st' p)))"
proof (intro conjI impI allI)
  note ok = session_okD [OF reachable_session_ok [OF assms(1)]]
  have step: "session_step st (Abort p) = Some (abort p st)" using assms(2) by simp
  have aok: "session_ok (abort p st)" by (rule step_session_ok [OF reachable_session_ok [OF assms(1)] step])
  show m: "mutating (sl_procs (abort p st) p)" if "mutating (sl_procs st p)"
    using that by (cases "sp_phase (sl_procs st p)")
      (auto simp: abort_def Let_def mutating_def not_yet_activated_def active_goal_def split: lock_goal.splits)
  show "sp_result (sl_procs (abort p st) p) = None" if "mutating (sl_procs st p)"
    by (rule promises_okD(1) [OF session_okD(6) [OF aok] m [OF that]])
  assume ny: "not_yet_activated (sp_phase (sl_procs st p))"
  show "sp_result (sl_procs (abort p st) p) = Some False" using ny by (simp add: abort_def Let_def)
  fix es st' assume run: "session_run (abort p st) es = Some st'"
  have "given_up (sl_procs (abort p st) p) \<and> p < sl_next (abort p st)"
    using ny assms(2)
    by (auto simp: abort_def Let_def given_up_def mutating_def not_yet_activated_def active_goal_def
        split: session_phase.splits lock_goal.splits)
  then have "given_up (sl_procs st' p)" using run_given_up [OF aok _ _ run] by blast
  then show "\<not> mutating (sl_procs st' p)" by (simp add: given_up_def)
qed


section \<open>Queries\<close>





section \<open>Handoffs\<close>

text \<open>C5: A handoff token gives out its lease once: the lease it returns is still held and covers the identities asked
  for, afterwards the token neither adopts nor cancels anything, and a released lease has no token left.\<close>

theorem handoff_is_single_use:
  assumes "session_reachable st" and "consume_handoff token scope xs l st = Some (Some p, st')"
  shows "sp_phase (sl_procs st' p) = Working \<and> sp_listener (sl_procs st' p) = l \<and>
    (\<exists>ids. normalize_session_identities scope xs = Some ids \<and> ids \<noteq> [] \<and> set ids \<subseteq> set (sp_ids (sl_procs st' p))) \<and>
    consume_handoff token scope' xs' l' st' = Some (None, st') \<and> cancel_handoff token st' = (False, st') \<and>
    js_get (sl_handoffs (release_session_lease p st')) t \<noteq> Some p"
proof -
  note ok = session_okD(5) [OF reachable_session_ok [OF assms(1)]]
  let ?t = "js_trim token"
  have c: "js_get (sl_handoffs st) ?t = Some p" "?t \<noteq> []"
    using assms(2) by (auto simp: consume_handoff_def Let_def split: option.splits if_splits)
  obtain ids where ids: "normalize_session_identities scope xs = Some ids" "ids \<noteq> []" "set ids \<subseteq> set (sp_ids (sl_procs st p))"
    using assms(2) by (auto simp: consume_handoff_def Let_def split: option.splits if_splits)
  have lc: "lease_change st st'" by (rule consume_lease [OF assms(2)])
  have "sp_handoffs (sl_procs st p) \<noteq> []" using handoffs_okD(1) [OF ok, of ?t p] c(1) by auto
  then have w: "sp_phase (sl_procs st p) = Working" using handoffs_okD(2) [OF ok, of p] by blast
  have gone: "js_get (sl_handoffs st') ?t = None" and listener: "sp_listener (sl_procs st' p) = l"
    using assms(2) by (auto simp: consume_handoff_def forget_handoff_def Let_def split: option.splits if_splits)
  have ok': "handoffs_ok (release_session_lease p st')"
    by (rule release_lease_handoffs [OF consume_handoffs [OF ok assms(2)]])
  have "sp_phase (sl_procs (release_session_lease p st') p) = Finished" using w by (simp add: release_session_lease_def lease_changeD(10) [OF lc])
  then have "sp_handoffs (sl_procs (release_session_lease p st') p) = []" using handoffs_okD(2) [OF ok', of p] by simp
  then have "js_get (sl_handoffs (release_session_lease p st')) t \<noteq> Some p" using handoffs_okD(1) [OF ok', of t p] by simp
  then show ?thesis using w gone listener ids
    by (auto simp: lease_changeD(9,10) [OF lc] consume_handoff_def cancel_handoff_def Let_def)
qed

section \<open>A concrete run\<close>

text \<open>A compaction of one session and work on it and on another, asked for while the compaction is active; and the same
  work handed over after it.\<close>

definition session_requests :: "session_event list" where
  "session_requests =
     [BeginMutation ''s'' [Some ''a''] True False, BeginAdmission ''s'' [Some '' b '', Some ''a'', None] (Some 7),
      Turn 0, Turn 0, Turn 0, Turn 1]"

definition session_resumed :: "session_event list" where
  "session_resumed = session_requests @
     [Turn 0, Turn 0, PrepareEnds 0 True, Turn 0, RunEnds 0 True, Turn 0, Turn 0, Turn 0, Turn 0, Turn 1, Turn 1, Turn 0,
      Turn 1, Turn 1, Turn 1, AssertEnds 1 True, BarrierStarts 1, BarrierEnds 1 True, Turn 1, Turn 1, Turn 1,
      CreateHandoff 1 ''t'']"

lemma run_reachable: "session_reachable st \<Longrightarrow> session_run st es = Some st' \<Longrightarrow> session_reachable st'"
proof (induction es arbitrary: st)
  case (Cons e es)
  then show ?case by (auto simp: bind_eq_Some_conv intro: session_reachable.step)
qed simp

lemma some_run_reachable:
  assumes "\<not> Option.is_none (session_run empty_lifecycle es)"
  shows "session_reachable (the (session_run empty_lifecycle es))"
  using assms by (cases "session_run empty_lifecycle es") (auto intro: run_reachable [OF session_reachable.start])

lemma requests_reachable:
  "session_reachable (the (session_run empty_lifecycle session_requests))"
  "session_reachable (the (session_run empty_lifecycle session_resumed))"
  by (rule some_run_reachable, code_simp)+

abbreviation requested :: session_lifecycle where
  "requested \<equiv> the (session_run empty_lifecycle session_requests)"

abbreviation handing_over :: session_lifecycle where
  "handing_over \<equiv> the (session_run empty_lifecycle session_resumed)"

definition session_a :: string where
  "session_a = stringify_pair ''s'' ''a''"

theorem session_work_completes_witness:
  "sp_phase (sl_procs requested 0) = Leaving Activated 1 \<and> sp_phase (sl_procs requested 1) = Waiting [session_a] \<and>
   (\<exists>N. \<forall>es st'. list_all internal es \<longrightarrow> session_run requested es = Some st' \<longrightarrow>
      length es \<le> N \<and> ((\<forall>p. sp_phase (sl_procs st' p) = Finished) \<or> (\<exists>e s. internal e \<and> session_step st' e = Some s)))"
proof (intro conjI)
  show "sp_phase (sl_procs requested 0) = Leaving Activated 1" by code_simp
  show "sp_phase (sl_procs requested 1) = Waiting [session_a]" by code_simp
qed (rule session_work_completes [OF requests_reachable(1)])

theorem active_mutation_is_alone_witness:
  "mutating (sl_procs requested 0) \<and> sp_phase (sl_procs requested 1) \<notin> {Asserting, Barrier False, Barrier True}"
proof -
  have m: "mutating (sl_procs requested 0)" by code_simp
  have "session_a \<in> set (sp_ids (sl_procs requested 0))" "session_a \<in> set (sp_ids (sl_procs requested 1))" by code_simp+
  from active_mutation_is_alone [OF requests_reachable(1) m this] m show ?thesis by simp
qed

theorem abort_decides_before_activation_witness:
  "mutating (sl_procs requested 0) \<and> sp_result (sl_procs (abort 0 requested) 0) = None \<and>
   (let st = the (session_run empty_lifecycle [BeginMutation ''s'' [Some ''a''] True False])
    in sp_result (sl_procs (abort 0 st) 0) = Some False \<and>
       (\<forall>es st'. session_run (abort 0 st) es = Some st' \<longrightarrow> \<not> mutating (sl_procs st' 0)))"
proof -
  let ?st = "the (session_run empty_lifecycle [BeginMutation ''s'' [Some ''a''] True False])"
  have m: "mutating (sl_procs requested 0)" by code_simp
  have n: "0 < sl_next requested" by code_simp
  have r: "session_reachable ?st" by (rule some_run_reachable) code_simp
  have w: "not_yet_activated (sp_phase (sl_procs ?st 0))" "0 < sl_next ?st" by code_simp+
  show ?thesis unfolding Let_def
    using abort_decides_before_activation [OF requests_reachable(1) n] abort_decides_before_activation [OF r w(2)] m w(1) by blast
qed


theorem handoff_is_single_use_witness:
  "\<exists>st'. consume_handoff ''t'' ''s'' [Some ''a''] (Some 9) handing_over = Some (Some 1, st') \<and>
     sp_phase (sl_procs st' 1) = Working \<and> sp_listener (sl_procs st' 1) = Some 9 \<and>
     consume_handoff ''t'' ''s'' [Some ''b''] None st' = Some (None, st')"
proof -
  let ?c = "consume_handoff ''t'' ''s'' [Some ''a''] (Some 9) handing_over"
  have "map_option fst ?c = Some (Some 1)" by code_simp
  then obtain st' where "?c = Some (Some 1, st')" by auto
  then show ?thesis using handoff_is_single_use [OF requests_reachable(2), of "''t''" "''s''" "[Some ''a'']" "Some 9" 1 st'] by blast
qed

end
