(* ===== verification/Keyed_Queue.thy ===== *)
theory Keyed_Queue
  imports Prelude
begin

text \<open>
  Serialized work per key, \<open>plugin-sdk/keyed-async-queue.ts\<close>. A promise is the identity of its task: the
  tail stored for a key is the last task that was enqueued under it. A task that is enqueued waits for the tail it
  found; the event loop starts it at any time after that tail has settled, and runs the cleanup of a settled tail
  at any time too, so that the step relation admits every order of microtasks. A task settles by returning or by
  throwing, which the queue treats alike. The optional hooks around a task are not modelled.
\<close>

section \<open>The queue\<close>

record waiting_task =
  wt_id :: nat
  wt_key :: string
  wt_previous :: "nat option"

record keyed_queue =
  kq_tails :: "(string, nat) js_map"
  kq_waiting :: "waiting_task list"
  kq_running :: "(nat \<times> string) list"
  kq_settled :: "nat set"
  kq_next :: nat

definition empty_keyed_queue :: keyed_queue where
  "empty_keyed_queue = \<lparr>kq_tails = [], kq_waiting = [], kq_running = [], kq_settled = {}, kq_next = 0\<rparr>"

definition enqueue_keyed_task :: "string \<Rightarrow> keyed_queue \<Rightarrow> keyed_queue" where
  "enqueue_keyed_task key q =
     q\<lparr>kq_tails := js_set key (kq_next q) (kq_tails q),
       kq_waiting := kq_waiting q @ [\<lparr>wt_id = kq_next q, wt_key = key, wt_previous = js_get (kq_tails q) key\<rparr>],
       kq_next := Suc (kq_next q)\<rparr>"

definition start_keyed_task :: "waiting_task \<Rightarrow> keyed_queue \<Rightarrow> keyed_queue" where
  "start_keyed_task t q =
     q\<lparr>kq_waiting := remove1 t (kq_waiting q), kq_running := (wt_id t, wt_key t) # kq_running q\<rparr>"

definition settle_keyed_task :: "nat \<Rightarrow> string \<Rightarrow> keyed_queue \<Rightarrow> keyed_queue" where
  "settle_keyed_task i key q =
     q\<lparr>kq_running := remove1 (i, key) (kq_running q), kq_settled := insert i (kq_settled q)\<rparr>"

definition cleanup_tail :: "nat \<Rightarrow> string \<Rightarrow> keyed_queue \<Rightarrow> keyed_queue" where
  "cleanup_tail i key q =
     (if js_get (kq_tails q) key = Some i then q\<lparr>kq_tails := js_delete key (kq_tails q)\<rparr> else q)"

datatype keyed_event = KEnqueue string | KStart nat string | KSettle nat string | KCleanup nat string

text \<open>The cleanup of a tail is registered under the key its task was enqueued under; the relation lets it run
  under any key whose tail it could be, which the test of the stored tail makes harmless.\<close>

inductive keyed_step :: "keyed_queue \<Rightarrow> keyed_event \<Rightarrow> keyed_queue \<Rightarrow> bool" where
  enqueue: "keyed_step q (KEnqueue key) (enqueue_keyed_task key q)"
| start: "t \<in> set (kq_waiting q) \<Longrightarrow> (\<And>p. wt_previous t = Some p \<Longrightarrow> p \<in> kq_settled q) \<Longrightarrow>
    keyed_step q (KStart (wt_id t) (wt_key t)) (start_keyed_task t q)"
| settle: "(i, key) \<in> set (kq_running q) \<Longrightarrow> keyed_step q (KSettle i key) (settle_keyed_task i key q)"
| cleanup: "i \<in> kq_settled q \<Longrightarrow> keyed_step q (KCleanup i key) (cleanup_tail i key q)"

inductive_cases keyed_step_cases: "keyed_step q e q'"

inductive_simps keyed_step_simps:
  "keyed_step q (KEnqueue key) q'" "keyed_step q (KStart i key) q'" "keyed_step q (KSettle i key) q'" "keyed_step q (KCleanup i key) q'"

inductive keyed_run :: "keyed_queue \<Rightarrow> keyed_event list \<Rightarrow> keyed_queue \<Rightarrow> bool" where
  stop: "keyed_run q [] q"
| step: "keyed_run q es q' \<Longrightarrow> keyed_step q' e q'' \<Longrightarrow> keyed_run q (es @ [e]) q''"

section \<open>The specification\<close>

text \<open>Each key has a line of tasks, of which the first may be running.\<close>

record key_line =
  kl_tasks :: "nat list"
  kl_busy :: bool

fun line_step :: "(string \<Rightarrow> key_line) \<Rightarrow> nat \<Rightarrow> keyed_event \<Rightarrow> (string \<Rightarrow> key_line) \<Rightarrow> bool" where
  "line_step l n (KEnqueue k) l' \<longleftrightarrow> l' = l(k := (l k)\<lparr>kl_tasks := kl_tasks (l k) @ [n]\<rparr>)"
| "line_step l n (KStart i k) l' \<longleftrightarrow> \<not> kl_busy (l k) \<and> (\<exists>r. kl_tasks (l k) = i # r) \<and> l' = l(k := (l k)\<lparr>kl_busy := True\<rparr>)"
| "line_step l n (KSettle i k) l' \<longleftrightarrow>
     kl_busy (l k) \<and> (\<exists>r. kl_tasks (l k) = i # r \<and> l' = l(k := \<lparr>kl_tasks = r, kl_busy = False\<rparr>))"
| "line_step l n (KCleanup i k) l' \<longleftrightarrow> l' = l"

definition running_of :: "keyed_queue \<Rightarrow> string \<Rightarrow> nat list" where
  "running_of q k = map fst (filter (\<lambda>(i, k'). k' = k) (kq_running q))"

definition waiting_of :: "keyed_queue \<Rightarrow> string \<Rightarrow> waiting_task list" where
  "waiting_of q k = filter (\<lambda>t. wt_key t = k) (kq_waiting q)"

definition key_lines :: "keyed_queue \<Rightarrow> string \<Rightarrow> key_line" where
  "key_lines q k = \<lparr>kl_tasks = running_of q k @ map wt_id (waiting_of q k), kl_busy = (running_of q k \<noteq> [])\<rparr>"

section \<open>The invariant\<close>

text \<open>Each task waits for the one before it.\<close>

fun chained :: "nat option \<Rightarrow> waiting_task list \<Rightarrow> bool" where
  "chained p [] \<longleftrightarrow> True"
| "chained p (t # w) \<longleftrightarrow> wt_previous t = p \<and> chained (Some (wt_id t)) w"

definition unfinished :: "keyed_queue \<Rightarrow> nat list" where
  "unfinished q = map fst (kq_running q) @ map wt_id (kq_waiting q)"

definition line_ok :: "keyed_queue \<Rightarrow> string \<Rightarrow> bool" where
  "line_ok q k \<longleftrightarrow>
     (case running_of q k of
        [] \<Rightarrow> (case waiting_of q k of
                [] \<Rightarrow> (\<forall>i. js_get (kq_tails q) k = Some i \<longrightarrow> i \<in> kq_settled q)
              | t # w \<Rightarrow> (\<forall>p. wt_previous t = Some p \<longrightarrow> p \<in> kq_settled q) \<and> chained (Some (wt_id t)) w \<and>
                  js_get (kq_tails q) k = Some (last (map wt_id (t # w))))
      | [r] \<Rightarrow> chained (Some r) (waiting_of q k) \<and> js_get (kq_tails q) k = Some (last (r # map wt_id (waiting_of q k)))
      | _ \<Rightarrow> False)"

definition keyed_ok :: "keyed_queue \<Rightarrow> bool" where
  "keyed_ok q \<longleftrightarrow>
     js_wf (kq_tails q) \<and> distinct (unfinished q) \<and> set (unfinished q) \<inter> kq_settled q = {} \<and>
     (\<forall>i \<in> set (unfinished q) \<union> kq_settled q. i < kq_next q) \<and> (\<forall>k. line_ok q k)"

lemmas queue_defs = enqueue_keyed_task_def start_keyed_task_def settle_keyed_task_def running_of_def waiting_of_def

lemma chained_append [simp]:
  "chained p (w @ v) \<longleftrightarrow> chained p w \<and> chained (if w = [] then p else Some (wt_id (last w))) v"
  by (induction p w rule: chained.induct) auto

lemma chained_previous:
  "chained (Some i) w \<Longrightarrow> t \<in> set w \<Longrightarrow> \<exists>p \<in> insert i (wt_id ` set w). wt_previous t = Some p"
  by (induction "Some i" w arbitrary: i rule: chained.induct) auto

lemma filter_remove1_out: "\<not> P x \<Longrightarrow> filter P (remove1 x xs) = filter P xs"
  by (induction xs) auto

lemma filter_remove1_in: "P x \<Longrightarrow> filter P (remove1 x xs) = remove1 x (filter P xs)"
  by (induction xs) auto

lemma running_of_mem: "i \<in> set (running_of q k) \<longleftrightarrow> (i, k) \<in> set (kq_running q)"
  by (force simp: running_of_def)

lemma waiting_of_mem: "t \<in> set (waiting_of q k) \<longleftrightarrow> t \<in> set (kq_waiting q) \<and> wt_key t = k"
  by (auto simp: waiting_of_def)

lemma line_members:
  "set (running_of q k) \<subseteq> set (unfinished q)" "wt_id ` set (waiting_of q k) \<subseteq> set (unfinished q)"
  by (auto simp: running_of_def waiting_of_def unfinished_def)

lemma keyed_okD:
  assumes "keyed_ok q"
  shows "line_ok q k" "set (unfinished q) \<inter> kq_settled q = {}" "distinct (unfinished q)" "js_wf (kq_tails q)"
    "i \<in> set (unfinished q) \<union> kq_settled q \<Longrightarrow> i < kq_next q"
  using assms by (auto simp: keyed_ok_def)

lemma line_cases [consumes 1, case_names idle pending busy]:
  assumes "line_ok q k"
  obtains "running_of q k = []" "waiting_of q k = []" "\<forall>i. js_get (kq_tails q) k = Some i \<longrightarrow> i \<in> kq_settled q"
  | t w where "running_of q k = []" "waiting_of q k = t # w" "\<forall>p. wt_previous t = Some p \<longrightarrow> p \<in> kq_settled q"
      "chained (Some (wt_id t)) w" "js_get (kq_tails q) k = Some (last (map wt_id (t # w)))"
  | r where "running_of q k = [r]" "chained (Some r) (waiting_of q k)"
      "js_get (kq_tails q) k = Some (last (r # map wt_id (waiting_of q k)))"
  using assms by (auto simp: line_ok_def split: list.splits)

lemma tail_unfinished:
  assumes "keyed_ok q" and "js_get (kq_tails q) k = Some i" and "i \<in> kq_settled q"
  shows "running_of q k = [] \<and> waiting_of q k = []"
  using keyed_okD(1) [OF assms(1), of k]
proof (cases rule: line_cases)
  case (pending t w)
  have "last (map wt_id (t # w)) \<in> wt_id ` set (waiting_of q k)"
    using pending(2) last_in_set [of "map wt_id (t # w)"] by (simp del: last.simps)
  then show ?thesis using assms pending(5) line_members(2) [of q k] keyed_okD(2) [OF assms(1)] by auto
next
  case (busy r)
  have "last (r # map wt_id (waiting_of q k)) \<in> insert r (wt_id ` set (waiting_of q k))"
    using last_in_set [of "r # map wt_id (waiting_of q k)"] by (simp del: last.simps)
  then show ?thesis
    using assms busy line_members [of q k] keyed_okD(2) [OF assms(1)] by auto
qed simp

text \<open>Only the first task of an idle line can start.\<close>

lemma startable:
  assumes ok: "keyed_ok q" and t: "t \<in> set (kq_waiting q)" "\<And>p. wt_previous t = Some p \<Longrightarrow> p \<in> kq_settled q"
  obtains w where "running_of q (wt_key t) = []" "waiting_of q (wt_key t) = t # w" "chained (Some (wt_id t)) w"
    "js_get (kq_tails q) (wt_key t) = Some (last (map wt_id (t # w)))"
  using keyed_okD(1) [OF ok, of "wt_key t"]
proof (cases rule: line_cases)
  case idle
  then show ?thesis using t(1) waiting_of_mem [of t q "wt_key t"] by simp
next
  case (pending t' w)
  have "t = t'"
  proof (rule ccontr)
    assume "t \<noteq> t'"
    then have "t \<in> set w" using t(1) pending(2) waiting_of_mem [of t q "wt_key t"] by auto
    from chained_previous [OF pending(4) this] obtain p where p: "p \<in> wt_id ` set (waiting_of q (wt_key t))" "wt_previous t = Some p"
      using pending(2) by auto
    then show False using t(2) [OF p(2)] line_members(2) [of q "wt_key t"] keyed_okD(2) [OF ok] by auto
  qed
  then show ?thesis using pending that by simp
next
  case (busy r)
  have "t \<in> set (waiting_of q (wt_key t))" using t(1) by (simp add: waiting_of_mem)
  from chained_previous [OF busy(2) this] obtain p
    where "p \<in> set (running_of q (wt_key t)) \<union> wt_id ` set (waiting_of q (wt_key t))" "wt_previous t = Some p"
    using busy(1) by auto
  then show ?thesis using t(2) [of p] line_members [of q "wt_key t"] keyed_okD(2) [OF ok] by auto
qed

lemma line_ok_cong:
  "running_of q' k = running_of q k \<Longrightarrow> waiting_of q' k = waiting_of q k \<Longrightarrow> js_get (kq_tails q') k = js_get (kq_tails q) k \<Longrightarrow>
   kq_settled q \<subseteq> kq_settled q' \<Longrightarrow> line_ok q k \<Longrightarrow> line_ok q' k"
  unfolding line_ok_def by (auto split: list.splits)

lemma enqueue_ok:
  assumes ok: "keyed_ok q"
  shows "keyed_ok (enqueue_keyed_task key q)"
    and "line_step (key_lines q) (kq_next q) (KEnqueue key) (key_lines (enqueue_keyed_task key q))"
proof -
  let ?q = "enqueue_keyed_task key q" and ?t = "\<lparr>wt_id = kq_next q, wt_key = key, wt_previous = js_get (kq_tails q) key\<rparr>"
  have v: "running_of ?q k = running_of q k" "waiting_of ?q k = (if k = key then waiting_of q k @ [?t] else waiting_of q k)"
    "js_get (kq_tails ?q) k = (if k = key then Some (kq_next q) else js_get (kq_tails q) k)" "kq_settled ?q = kq_settled q" for k
    by (auto simp: queue_defs)
  have u: "unfinished ?q = unfinished q @ [kq_next q]" "kq_next ?q = Suc (kq_next q)" "js_wf (kq_tails ?q)"
    using keyed_okD(4) [OF ok] by (simp_all add: unfinished_def enqueue_keyed_task_def)
  have "kq_next q \<notin> set (unfinished q) \<union> kq_settled q" using keyed_okD(5) [OF ok, of "kq_next q"] by auto
  moreover have "line_ok ?q k" for k
  proof (cases "k = key")
    case True
    from keyed_okD(1) [OF ok, of key] show ?thesis
    proof (cases rule: line_cases)
      case (pending t w)
      then show ?thesis by (cases w rule: rev_cases) (simp_all add: line_ok_def v True)
    next
      case (busy r)
      then show ?thesis by (cases "waiting_of q key" rule: rev_cases) (simp_all add: line_ok_def v True)
    qed (simp add: line_ok_def v True)
  next
    case False
    then show ?thesis using line_ok_cong [of ?q k q] keyed_okD(1) [OF ok, of k] by (simp add: v)
  qed
  ultimately show "keyed_ok ?q"
    using keyed_okD(2,3) [OF ok] keyed_okD(5) [OF ok] u by (auto simp: keyed_ok_def v less_Suc_eq)
  show "line_step (key_lines q) (kq_next q) (KEnqueue key) (key_lines ?q)" by (auto simp: key_lines_def v)
qed


lemma start_ok:
  assumes ok: "keyed_ok q" and t: "t \<in> set (kq_waiting q)" "\<And>p. wt_previous t = Some p \<Longrightarrow> p \<in> kq_settled q"
  shows "keyed_ok (start_keyed_task t q)"
    and "line_step (key_lines q) (kq_next q) (KStart (wt_id t) (wt_key t)) (key_lines (start_keyed_task t q))"
proof -
  let ?q = "start_keyed_task t q"
  obtain w where w: "running_of q (wt_key t) = []" "waiting_of q (wt_key t) = t # w" "chained (Some (wt_id t)) w"
    "js_get (kq_tails q) (wt_key t) = Some (last (map wt_id (t # w)))" using startable [OF ok t] by blast
  have v: "running_of ?q k = (if k = wt_key t then [wt_id t] else running_of q k)"
    "waiting_of ?q k = (if k = wt_key t then w else waiting_of q k)" "kq_tails ?q = kq_tails q" "kq_settled ?q = kq_settled q" for k
    using w(1,2) by (auto simp: queue_defs filter_remove1_in filter_remove1_out)
  obtain xs ys where s: "kq_waiting q = xs @ t # ys" "t \<notin> set xs" using split_list_first [OF t(1)] by blast
  then have u: "set (unfinished ?q) = set (unfinished q)" "distinct (unfinished ?q) = distinct (unfinished q)"
    by (auto simp: unfinished_def start_keyed_task_def remove1_append)
  have "line_ok ?q k" for k
  proof (cases "k = wt_key t")
    case True
    then show ?thesis using w(3,4) by (simp add: line_ok_def v)
  next
    case False
    then show ?thesis using line_ok_cong [of ?q k q] keyed_okD(1) [OF ok, of k] v by simp
  qed
  then show "keyed_ok ?q" using keyed_okD(2-4) [OF ok] keyed_okD(5) [OF ok] u
    by (simp add: keyed_ok_def v) (simp add: start_keyed_task_def)
  show "line_step (key_lines q) (kq_next q) (KStart (wt_id t) (wt_key t)) (key_lines ?q)"
    using w(1,2) by (auto simp: key_lines_def v)
qed

lemma settle_ok:
  assumes ok: "keyed_ok q" and i: "(i, key) \<in> set (kq_running q)"
  shows "keyed_ok (settle_keyed_task i key q)"
    and "line_step (key_lines q) (kq_next q) (KSettle i key) (key_lines (settle_keyed_task i key q))"
proof -
  let ?q = "settle_keyed_task i key q"
  obtain xs ys where s: "kq_running q = xs @ (i, key) # ys" "(i, key) \<notin> set xs" using split_list_first [OF i] by blast
  have r: "running_of q key = [i]"
    using keyed_okD(1) [OF ok, of key]
  proof (cases rule: line_cases)
    case (busy r)
    then show ?thesis using i running_of_mem [of i q key] by simp
  qed (use i running_of_mem [of i q key] in simp_all)
  then have none: "k' \<noteq> key" if "(j, k') \<in> set (xs @ ys)" for j k'
    using that s(1) by (auto simp: running_of_def filter_empty_conv append_eq_Cons_conv Cons_eq_append_conv)
  have v: "running_of ?q k = (if k = key then [] else running_of q k)" "waiting_of ?q k = waiting_of q k"
    "kq_tails ?q = kq_tails q" "kq_settled ?q = insert i (kq_settled q)" for k
    using none s by (auto simp: queue_defs remove1_append filter_empty_conv)
  have u: "set (unfinished ?q) \<union> {i} = set (unfinished q)" "distinct (unfinished ?q)" "i \<notin> set (unfinished ?q)"
    using keyed_okD(3) [OF ok] s by (auto simp: unfinished_def settle_keyed_task_def remove1_append)
  have "line_ok ?q k" for k
  proof (cases "k = key")
    case True
    from keyed_okD(1) [OF ok, of key] show ?thesis
    proof (cases rule: line_cases)
      case (busy j)
      then have "j = i" using r by simp
      note b = busy [unfolded this]
      show ?thesis using b(2,3) by (cases "waiting_of q key") (simp_all add: True line_ok_def v)
    qed (use r in simp_all)
  next
    case False
    then show ?thesis using line_ok_cong [of ?q k q] keyed_okD(1) [OF ok, of k] by (auto simp: v)
  qed
  then show "keyed_ok ?q" using keyed_okD(2,4) [OF ok] keyed_okD(5) [OF ok] u
    by (auto simp: keyed_ok_def v) (auto simp: settle_keyed_task_def)
  show "line_step (key_lines q) (kq_next q) (KSettle i key) (key_lines ?q)"
    using r by (auto simp: key_lines_def v)
qed

lemma cleanup_ok:
  assumes ok: "keyed_ok q" and i: "i \<in> kq_settled q"
  shows "keyed_ok (cleanup_tail i key q)"
    and "line_step (key_lines q) (kq_next q) (KCleanup i key) (key_lines (cleanup_tail i key q))"
proof -
  let ?q = "cleanup_tail i key q"
  have v: "running_of ?q k = running_of q k" "waiting_of ?q k = waiting_of q k" "kq_settled ?q = kq_settled q"
    "unfinished ?q = unfinished q" "kq_next ?q = kq_next q" for k
    by (simp_all add: cleanup_tail_def running_of_def waiting_of_def unfinished_def)
  have "line_ok ?q k" for k
  proof (cases "k = key \<and> js_get (kq_tails q) key = Some i")
    case True
    then show ?thesis using tail_unfinished [OF ok _ i] by (simp add: line_ok_def v) (simp add: cleanup_tail_def)
  next
    case False
    then have "js_get (kq_tails ?q) k = js_get (kq_tails q) k" by (auto simp: cleanup_tail_def)
    then show ?thesis using line_ok_cong [of ?q k q] keyed_okD(1) [OF ok, of k] v by simp
  qed
  moreover have "js_wf (kq_tails ?q)" using keyed_okD(4) [OF ok] by (simp add: cleanup_tail_def)
  ultimately show "keyed_ok ?q" using keyed_okD(2,3) [OF ok] keyed_okD(5) [OF ok] v by (simp add: keyed_ok_def)
  show "line_step (key_lines q) (kq_next q) (KCleanup i key) (key_lines ?q)" by (simp add: fun_eq_iff key_lines_def v)
qed

lemma keyed_step_ok:
  "keyed_ok q \<Longrightarrow> keyed_step q e q' \<Longrightarrow> keyed_ok q' \<and> line_step (key_lines q) (kq_next q) e (key_lines q')"
  using enqueue_ok start_ok settle_ok cleanup_ok by (auto elim!: keyed_step_cases)

lemma keyed_run_ok: "keyed_run empty_keyed_queue es q \<Longrightarrow> keyed_ok q"
proof (induction empty_keyed_queue es q rule: keyed_run.induct)
  case stop
  show ?case by (simp add: keyed_ok_def line_ok_def empty_keyed_queue_def unfinished_def running_of_def waiting_of_def)
next
  case (step es q' e q'')
  then show ?case using keyed_step_ok by blast
qed


section \<open>Draining a key\<close>

fun event_key :: "keyed_event \<Rightarrow> string" where
  "event_key (KEnqueue k) = k"
| "event_key (KStart i k) = k"
| "event_key (KSettle i k) = k"
| "event_key (KCleanup i k) = k"

lemma keyed_run_append:
  assumes "keyed_run q es q'" and "keyed_run q' es' q''"
  shows "keyed_run q (es @ es') q''"
  using assms(2,1)
proof (induction q' es' q'' rule: keyed_run.induct)
  case (step q' es' q2 e q3)
  then show ?case using keyed_run.step [of q "es @ es'" q2 e q3] by simp
qed simp

lemma keyed_run_single: "keyed_step q e q' \<Longrightarrow> keyed_run q [e] q'"
  using keyed_run.step [OF keyed_run.stop] by simp

lemma line_busy_settle:
  assumes "keyed_ok q" and "kl_busy (key_lines q k)"
  obtains i r where "kl_tasks (key_lines q k) = i # r" "keyed_step q (KSettle i k) (settle_keyed_task i k q)"
  using keyed_okD(1) [OF assms(1), of k]
proof (cases rule: line_cases)
  case (busy i)
  then have "(i, k) \<in> set (kq_running q)" using running_of_mem [of i q k] by simp
  then show ?thesis using that busy by (simp add: key_lines_def keyed_step_simps)
qed (use assms(2) in \<open>simp_all add: key_lines_def\<close>)

lemma line_idle_start:
  assumes "keyed_ok q" and "\<not> kl_busy (key_lines q k)" and "kl_tasks (key_lines q k) \<noteq> []"
  obtains t where "wt_key t = k" "t \<in> set (kq_waiting q)" "\<And>p. wt_previous t = Some p \<Longrightarrow> p \<in> kq_settled q"
    "keyed_step q (KStart (wt_id t) k) (start_keyed_task t q)"
  using keyed_okD(1) [OF assms(1), of k]
proof (cases rule: line_cases)
  case (pending t w)
  then have t: "t \<in> set (kq_waiting q)" "wt_key t = k" using waiting_of_mem [of t q k] by auto
  with that [OF t(2,1)] pending(3) show ?thesis using keyed_step.start [OF t(1)] by simp
qed (use assms(2,3) in \<open>simp_all add: key_lines_def\<close>)

lemma drain_busy_or_idle:
  assumes "keyed_ok q"
  shows "\<exists>es q'. keyed_run q es q' \<and> (\<forall>e \<in> set es. event_key e = k \<and> e \<noteq> KEnqueue k) \<and>
    length es \<le> 2 * length (kl_tasks (key_lines q k)) \<and> kl_tasks (key_lines q' k) = [] \<and> keyed_ok q'"
  using assms
proof (induction "2 * length (kl_tasks (key_lines q k)) - (if kl_busy (key_lines q k) then 1 else 0)"
    arbitrary: q rule: less_induct)
  case (less q)
  show ?case
  proof (cases "kl_tasks (key_lines q k) = []")
    case True
    then show ?thesis using less.prems keyed_run.stop [of q] by (intro exI [of _ "[]"] exI [of _ q]) simp
  next
    case False
    obtain e q1 where e: "keyed_step q e q1" "event_key e = k" "e \<noteq> KEnqueue k"
      and dec: "2 * length (kl_tasks (key_lines q1 k)) - (if kl_busy (key_lines q1 k) then 1 else 0) <
        2 * length (kl_tasks (key_lines q k)) - (if kl_busy (key_lines q k) then 1 else 0)"
      and len: "length (kl_tasks (key_lines q1 k)) + (if kl_busy (key_lines q k) then 1 else 0) = length (kl_tasks (key_lines q k))"
      and busy: "kl_busy (key_lines q1 k) = (\<not> kl_busy (key_lines q k))"
    proof (cases "kl_busy (key_lines q k)")
      case True
      obtain i r where i: "kl_tasks (key_lines q k) = i # r" "keyed_step q (KSettle i k) (settle_keyed_task i k q)"
        using line_busy_settle [OF less.prems True] by blast
      then show ?thesis
        using that [OF i(2)] keyed_step_ok [OF less.prems i(2)] True by auto
    next
      case idle: False
      obtain t where t: "wt_key t = k" "keyed_step q (KStart (wt_id t) k) (start_keyed_task t q)"
        using line_idle_start [OF less.prems idle False] by blast
      then show ?thesis
        using that [OF t(2)] keyed_step_ok [OF less.prems t(2)] idle False by auto
    qed
    have ok: "keyed_ok q1" using keyed_step_ok [OF less.prems e(1)] by blast
    show ?thesis
    proof (cases "kl_busy (key_lines q k)")
      case True
      obtain es q' where "keyed_run q1 es q'" "\<forall>e \<in> set es. event_key e = k \<and> e \<noteq> KEnqueue k"
        "length es \<le> 2 * length (kl_tasks (key_lines q1 k))" "kl_tasks (key_lines q' k) = []" "keyed_ok q'"
        using less.hyps [OF dec ok] by blast
      then show ?thesis using keyed_run_append [OF keyed_run_single [OF e(1)], of es q'] e(2,3) len True
        by (intro exI [of _ "e # es"] exI [of _ q']) simp
    next
      case False
      then have b: "kl_busy (key_lines q1 k)" using busy by simp
      obtain i r where i: "kl_tasks (key_lines q1 k) = i # r" "keyed_step q1 (KSettle i k) (settle_keyed_task i k q1)"
        using line_busy_settle [OF ok b] by blast
      let ?q2 = "settle_keyed_task i k q1"
      have ok2: "keyed_ok ?q2" "key_lines ?q2 k = \<lparr>kl_tasks = r, kl_busy = False\<rparr>"
        using keyed_step_ok [OF ok i(2)] i(1) by auto
      then have "2 * length (kl_tasks (key_lines ?q2 k)) - (if kl_busy (key_lines ?q2 k) then 1 else 0) <
        2 * length (kl_tasks (key_lines q k)) - (if kl_busy (key_lines q k) then 1 else 0)"
        using len False i(1) by simp
      from less.hyps [OF this ok2(1)] obtain es q' where "keyed_run ?q2 es q'"
        "\<forall>e \<in> set es. event_key e = k \<and> e \<noteq> KEnqueue k"
        "length es \<le> 2 * length r" "kl_tasks (key_lines q' k) = []" "keyed_ok q'" using ok2(2) by auto
      then show ?thesis
        using keyed_run_append [OF keyed_run_append [OF keyed_run_single [OF e(1)] keyed_run_single [OF i(2)]], of es q'] e(2,3) len False i(1)
        by (intro exI [of _ "e # KSettle i k # es"] exI [of _ q']) simp
    qed
  qed
qed

lemma tail_of_empty_line:
  assumes "keyed_ok q" and "kl_tasks (key_lines q k) = []" and "js_get (kq_tails q) k = Some i"
  shows "i \<in> kq_settled q"
  using keyed_okD(1) [OF assms(1), of k] assms(2,3) by (cases rule: line_cases) (auto simp: key_lines_def)

end
