(* ===== verification/Net_Policy.thy ===== *)
theory Net_Policy
  imports JS_Strings "HOL-Library.Word"
begin

text \<open>
  IP address policy: \<open>packages/net-policy/src/ip.ts\<close>. An IPv4 address is its four octets and an IPv6 address
  its eight hextets, at their widths. The package ipaddr.js is the parameter \<open>ipaddr\<close>: its validity tests,
  parsers, range names, printing and prefix matching; a parser that throws returns nothing.
\<close>

unbundle bit_operations_syntax

section \<open>Addresses and the package\<close>

datatype ip4 = IP4 "8 word" "8 word" "8 word" "8 word"

datatype ip6 = IP6 "16 word" "16 word" "16 word" "16 word" "16 word" "16 word" "16 word" "16 word"

datatype parsed_ip = V4 ip4 | V6 ip6

record ipaddr =
  lib_four_part :: "string \<Rightarrow> bool"
  lib_valid6 :: "string \<Rightarrow> bool"
  lib_valid :: "string \<Rightarrow> bool"
  lib_parse :: "string \<Rightarrow> parsed_ip"
  lib_parse_cidr :: "string \<Rightarrow> (parsed_ip \<times> nat) option"
  lib_range4 :: "ip4 \<Rightarrow> string"
  lib_range6 :: "ip6 \<Rightarrow> string"
  lib_match4 :: "ip4 \<Rightarrow> ip4 \<Rightarrow> nat \<Rightarrow> bool"
  lib_match6 :: "ip6 \<Rightarrow> ip6 \<Rightarrow> nat \<Rightarrow> bool"
  lib_text :: "parsed_ip \<Rightarrow> string"
  lib_mapped :: "ip6 \<Rightarrow> bool"
  lib_to_ipv4 :: "ip6 \<Rightarrow> ip4"

definition blocked_ipv4_special_use_ranges :: "string list" where
  "blocked_ipv4_special_use_ranges =
     [''unspecified'', ''broadcast'', ''multicast'', ''linkLocal'', ''loopback'', ''carrierGradeNat'', ''private'', ''reserved'']"

definition private_or_loopback_ipv4_ranges :: "string list" where
  "private_or_loopback_ipv4_ranges = [''loopback'', ''private'', ''linkLocal'', ''carrierGradeNat'']"

definition blocked_ipv6_special_use_ranges :: "string list" where
  "blocked_ipv6_special_use_ranges =
     [''unspecified'', ''loopback'', ''linkLocal'', ''uniqueLocal'', ''multicast'', ''reserved'', ''benchmarking'', ''discard'', ''orchid2'']"

definition rfc2544_benchmark_prefix :: "ip4 \<times> nat" where
  "rfc2544_benchmark_prefix = (IP4 198 18 0 0, 15)"

definition cloud_metadata_ip_addresses :: "string list" where
  "cloud_metadata_ip_addresses = [''100.100.100.200'', ''fd00:ec2::254'']"

section \<open>Parsing\<close>

definition strip_ipv6_brackets :: "string \<Rightarrow> string" where
  "strip_ipv6_brackets v =
     (if v \<noteq> [] \<and> hd v = CHR ''['' \<and> last v = CHR '']'' then butlast (tl v) else v)"

definition is_hex_digit :: "char \<Rightarrow> bool" where
  "is_hex_digit c \<longleftrightarrow> (let n = (of_char c :: nat) in 48 \<le> n \<and> n \<le> 57 \<or> 65 \<le> n \<and> n \<le> 70 \<or> 97 \<le> n \<and> n \<le> 102)"

definition is_decimal_digit :: "char \<Rightarrow> bool" where
  "is_decimal_digit c \<longleftrightarrow> (let n = (of_char c :: nat) in 48 \<le> n \<and> n \<le> 57)"

definition is_numeric_ipv4_literal_part :: "string \<Rightarrow> bool" where
  "is_numeric_ipv4_literal_part v \<longleftrightarrow>
     v \<noteq> [] \<and> list_all is_decimal_digit v \<or>
     (case v of
        z # x # h \<Rightarrow> z = CHR ''0'' \<and> (x = CHR ''x'' \<or> x = CHR ''X'') \<and> h \<noteq> [] \<and> list_all is_hex_digit h
      | _ \<Rightarrow> False)"

definition normalize_ipv4_mapped_address :: "ipaddr \<Rightarrow> parsed_ip \<Rightarrow> parsed_ip" where
  "normalize_ipv4_mapped_address lib a =
     (case a of
        V4 _ \<Rightarrow> a
      | V6 h \<Rightarrow> if lib_mapped lib h then V4 (lib_to_ipv4 lib h) else a)"

text \<open>An empty bracket pair leaves the empty string, which no caller takes for an address.\<close>

definition normalize_ip_parse_input :: "string option \<Rightarrow> string option" where
  "normalize_ip_parse_input raw = map_option strip_ipv6_brackets (normalize_optional_string raw)"

definition parse_canonical_ip_address :: "ipaddr \<Rightarrow> string option \<Rightarrow> parsed_ip option" where
  "parse_canonical_ip_address lib raw =
     (case normalize_ip_parse_input raw of
        None \<Rightarrow> None
      | Some s \<Rightarrow>
          if s = [] then None
          else if lib_four_part lib s \<or> lib_valid6 lib s then Some (lib_parse lib s) else None)"

definition parse_loose_ip_address :: "ipaddr \<Rightarrow> string option \<Rightarrow> parsed_ip option" where
  "parse_loose_ip_address lib raw =
     (case normalize_ip_parse_input raw of
        None \<Rightarrow> None
      | Some s \<Rightarrow> if s = [] then None else if lib_valid lib s then Some (lib_parse lib s) else None)"

definition normalize_ip_address :: "ipaddr \<Rightarrow> string option \<Rightarrow> string option" where
  "normalize_ip_address lib raw =
     map_option (\<lambda>a. js_lower (js_trim (lib_text lib (normalize_ipv4_mapped_address lib a)))) (parse_canonical_ip_address lib raw)"

definition is_canonical_dotted_decimal_ipv4 :: "ipaddr \<Rightarrow> string option \<Rightarrow> bool" where
  "is_canonical_dotted_decimal_ipv4 lib raw =
     (case normalize_ip_parse_input raw of None \<Rightarrow> False | Some s \<Rightarrow> lib_four_part lib s)"

definition is_legacy_ipv4_literal :: "ipaddr \<Rightarrow> string option \<Rightarrow> bool" where
  "is_legacy_ipv4_literal lib raw =
     (case normalize_optional_string raw of
        None \<Rightarrow> False
      | Some trimmed \<Rightarrow>
          (let s = strip_ipv6_brackets trimmed; parts = js_split (CHR ''.'') s
           in if s = [] \<or> CHR '':'' \<in> set s then False
              else if is_canonical_dotted_decimal_ipv4 lib (Some s) then False
              else if length parts = 0 \<or> length parts > 4 then False
              else if [] \<in> set parts then False
              else list_all is_numeric_ipv4_literal_part parts))"

section \<open>Ranges\<close>

definition ip_range :: "ipaddr \<Rightarrow> parsed_ip \<Rightarrow> string" where
  "ip_range lib a = (case a of V4 x \<Rightarrow> lib_range4 lib x | V6 h \<Rightarrow> lib_range6 lib h)"

definition is_loopback_ip_address :: "ipaddr \<Rightarrow> string option \<Rightarrow> bool" where
  "is_loopback_ip_address lib raw =
     (case parse_canonical_ip_address lib raw of
        None \<Rightarrow> False
      | Some a \<Rightarrow> ip_range lib (normalize_ipv4_mapped_address lib a) = ''loopback'')"

text \<open>The octets of two hextets; the code joins them with dots and parses the text again.\<close>

definition decode_ipv4_from_hextets :: "16 word \<Rightarrow> 16 word \<Rightarrow> ip4" where
  "decode_ipv4_from_hextets high low =
     IP4 (ucast (drop_bit 8 high AND 0xff)) (ucast (high AND 0xff)) (ucast (drop_bit 8 low AND 0xff)) (ucast (low AND 0xff))"

definition extract_embedded_ipv4_from_ipv6 :: "ipaddr \<Rightarrow> ip6 \<Rightarrow> ip4 option" where
  "extract_embedded_ipv4_from_ipv6 lib h =
     (case h of IP6 p0 p1 p2 p3 p4 p5 p6 p7 \<Rightarrow>
        (let range = lib_range6 lib h
         in if range = ''ipv4Mapped'' then Some (lib_to_ipv4 lib h)
            else if range = ''rfc6145'' \<or> range = ''rfc6052'' then Some (decode_ipv4_from_hextets p6 p7)
            else if range = ''6to4'' then Some (decode_ipv4_from_hextets p1 p2)
            else if range = ''teredo'' then Some (decode_ipv4_from_hextets (p6 XOR 0xffff) (p7 XOR 0xffff))
            else if p0 = 0 \<and> p1 = 0 \<and> p2 = 0 \<and> p3 = 0 \<and> p4 = 0 \<and> p5 = 0 \<or> p4 AND 0xfcff = 0 \<and> p5 = 0x5efe
            then Some (decode_ipv4_from_hextets p6 p7)
            else None))"

definition is_link_local_ip_address :: "ipaddr \<Rightarrow> string option \<Rightarrow> bool" where
  "is_link_local_ip_address lib raw =
     (case parse_loose_ip_address lib raw of
        None \<Rightarrow> False
      | Some a \<Rightarrow>
          (case normalize_ipv4_mapped_address lib a of
             V4 x \<Rightarrow> lib_range4 lib x = ''linkLocal''
           | V6 h \<Rightarrow>
               (case extract_embedded_ipv4_from_ipv6 lib h of
                  Some x \<Rightarrow> lib_range4 lib x = ''linkLocal'' \<or> lib_range6 lib h = ''linkLocal''
                | None \<Rightarrow> lib_range6 lib h = ''linkLocal'')))"

definition is_cloud_metadata_ip_address :: "ipaddr \<Rightarrow> string option \<Rightarrow> bool" where
  "is_cloud_metadata_ip_address lib raw =
     (case parse_loose_ip_address lib raw of
        None \<Rightarrow> False
      | Some a \<Rightarrow>
          (let n = normalize_ipv4_mapped_address lib a;
               embedded = (case n of V6 h \<Rightarrow> extract_embedded_ipv4_from_ipv6 lib h | V4 _ \<Rightarrow> None)
           in (case embedded of Some x \<Rightarrow> lib_text lib (V4 x) \<in> set cloud_metadata_ip_addresses | None \<Rightarrow> False) \<or>
              lib_text lib n \<in> set cloud_metadata_ip_addresses))"

definition is_blocked_special_use_ipv6_address :: "ipaddr \<Rightarrow> bool \<Rightarrow> ip6 \<Rightarrow> bool" where
  "is_blocked_special_use_ipv6_address lib allow_unique_local h =
     (let range = lib_range6 lib h
      in if range = ''uniqueLocal'' \<and> allow_unique_local then False
         else if range \<in> set blocked_ipv6_special_use_ranges then True
         else (case h of IP6 p0 _ _ _ _ _ _ _ \<Rightarrow> p0 AND 0xffc0 = 0xfec0))"

definition is_blocked_special_use_ipv4_address :: "ipaddr \<Rightarrow> bool \<Rightarrow> ip4 \<Rightarrow> bool" where
  "is_blocked_special_use_ipv4_address lib allow_benchmark a =
     (let bench = lib_match4 lib a (fst rfc2544_benchmark_prefix) (snd rfc2544_benchmark_prefix)
      in if bench \<and> allow_benchmark then False
         else lib_range4 lib a \<in> set blocked_ipv4_special_use_ranges \<or> bench)"

definition is_private_or_loopback_ip_address :: "ipaddr \<Rightarrow> string option \<Rightarrow> bool" where
  "is_private_or_loopback_ip_address lib raw =
     (case parse_canonical_ip_address lib raw of
        None \<Rightarrow> False
      | Some a \<Rightarrow>
          (case normalize_ipv4_mapped_address lib a of
             V4 x \<Rightarrow> lib_range4 lib x \<in> set private_or_loopback_ipv4_ranges
           | V6 h \<Rightarrow> is_blocked_special_use_ipv6_address lib False h))"

definition is_rfc1918_ipv4_address :: "ipaddr \<Rightarrow> string option \<Rightarrow> bool" where
  "is_rfc1918_ipv4_address lib raw =
     (case parse_canonical_ip_address lib raw of Some a \<Rightarrow> ip_range lib a = ''private'' | None \<Rightarrow> False)"

definition is_carrier_grade_nat_ipv4_address :: "ipaddr \<Rightarrow> string option \<Rightarrow> bool" where
  "is_carrier_grade_nat_ipv4_address lib raw =
     (case parse_canonical_ip_address lib raw of Some a \<Rightarrow> ip_range lib a = ''carrierGradeNat'' | None \<Rightarrow> False)"

definition is_ip_in_cidr :: "ipaddr \<Rightarrow> string \<Rightarrow> string \<Rightarrow> bool" where
  "is_ip_in_cidr lib ip cidr =
     (case parse_canonical_ip_address lib (Some ip) of
        None \<Rightarrow> False
      | Some a \<Rightarrow>
          (let candidate = js_trim cidr; comparable = normalize_ipv4_mapped_address lib a
           in if candidate = [] then False
              else if CHR ''/'' \<notin> set candidate then
                (case parse_canonical_ip_address lib (Some candidate) of
                   None \<Rightarrow> False
                 | Some b \<Rightarrow>
                     (case (comparable, normalize_ipv4_mapped_address lib b) of
                        (V4 x, V4 y) \<Rightarrow> lib_text lib (V4 x) = lib_text lib (V4 y)
                      | (V6 x, V6 y) \<Rightarrow> lib_text lib (V6 x) = lib_text lib (V6 y)
                      | _ \<Rightarrow> False))
              else
                (case lib_parse_cidr lib candidate of
                   None \<Rightarrow> False
                 | Some (base, bits) \<Rightarrow>
                     (case (comparable, normalize_ipv4_mapped_address lib base) of
                        (V4 x, V4 y) \<Rightarrow> lib_match4 lib x y bits
                      | (V6 x, V6 y) \<Rightarrow> lib_match6 lib x y bits
                      | _ \<Rightarrow> False))))"

section \<open>A sample package\<close>

text \<open>An instance of the package that knows four addresses.\<close>

definition sample_addresses :: "(string \<times> ip4 \<times> string) list" where
  "sample_addresses =
     [(''127.0.0.1'', IP4 127 0 0 1, ''loopback''), (''10.0.0.2'', IP4 10 0 0 2, ''private''),
      (''203.0.113.7'', IP4 203 0 113 7, ''unicast''), (''203.0.113.8'', IP4 203 0 113 8, ''unicast'')]"

definition sample_range :: "ip4 \<Rightarrow> string" where
  "sample_range a = (case find (\<lambda>(_, b, _). b = a) sample_addresses of Some (_, _, r) \<Rightarrow> r | None \<Rightarrow> ''unicast'')"

definition sample_text :: "parsed_ip \<Rightarrow> string" where
  "sample_text a =
     (case a of
        V4 x \<Rightarrow> (case find (\<lambda>(_, b, _). b = x) sample_addresses of Some (s, _, _) \<Rightarrow> s | None \<Rightarrow> ''0.0.0.0'')
      | V6 _ \<Rightarrow> ''::'')"

definition sample_parse :: "string \<Rightarrow> parsed_ip" where
  "sample_parse s = (case js_get sample_addresses s of Some (a, _) \<Rightarrow> V4 a | None \<Rightarrow> V4 (IP4 0 0 0 0))"

definition sample_lib :: ipaddr where
  "sample_lib =
     \<lparr>lib_four_part = (\<lambda>s. s \<in> set (js_keys sample_addresses)), lib_valid6 = (\<lambda>_. False),
      lib_valid = (\<lambda>s. s \<in> set (js_keys sample_addresses)), lib_parse = sample_parse, lib_parse_cidr = (\<lambda>_. None),
      lib_range4 = sample_range, lib_range6 = (\<lambda>_. ''unicast''), lib_match4 = (\<lambda>x y n. n = 32 \<and> x = y),
      lib_match6 = (\<lambda>x y n. n = 128 \<and> x = y), lib_text = sample_text, lib_mapped = (\<lambda>_. False),
      lib_to_ipv4 = (\<lambda>_. IP4 0 0 0 0)\<rparr>"

end
