(* ===== verification/Gateway_Net.thy ===== *)
theory Gateway_Net
  imports Net_Policy String_Lists
begin

text \<open>
  Client addresses and hosts of gateway requests: \<open>gateway/net.ts\<close>, with \<open>infra/network-interfaces.ts\<close> and
  \<open>infra/tailnet.ts\<close>. What the platform answers is the parameter \<open>platform\<close>: \<open>net.isIP\<close>, the interface
  snapshot (nothing when the operating system refuses it), the WHATWG URL parser, whether the process runs in
  a container or on Windows, and whether a test server can bind to a host. Header names of a request are in
  lower case, as Node delivers them.
\<close>

section \<open>The platform and requests\<close>

datatype ip_family = FamilyIPv4 | FamilyIPv6

datatype raw_family = FamilyName string | FamilyNumber int | FamilyMissing

record net_interface =
  if_address :: "string option"
  if_family :: raw_family
  if_internal :: bool

type_synonym interface_snapshot = "(string \<times> net_interface list option) list"

record url =
  url_protocol :: string
  url_host :: string
  url_hostname :: string
  url_port :: string
  url_origin :: string
  url_username :: string
  url_password :: string

record platform =
  np_lib :: ipaddr
  np_is_ip :: "string \<Rightarrow> nat"
  np_interfaces :: "interface_snapshot option"
  np_url :: "string \<Rightarrow> url option"
  np_container :: bool
  np_windows :: bool
  np_can_bind :: "string \<Rightarrow> bool"

datatype header_value = One string | Many "string list"

text \<open>A request: the address of its socket, and its headers.\<close>

record http_request =
  hr_remote :: "string option"
  hr_headers :: "(string, header_value) js_map"

abbreviation header :: "http_request \<Rightarrow> string \<Rightarrow> header_value option" where
  "header r n \<equiv> js_get (hr_headers r) n"

definition header_value_of :: "header_value option \<Rightarrow> string option" where
  "header_value_of v =
     (case v of
        Some (One s) \<Rightarrow> Some s
      | Some (Many (s # _)) \<Rightarrow> Some s
      | _ \<Rightarrow> None)"

section \<open>Interfaces\<close>

definition normalize_network_interface_family :: "raw_family \<Rightarrow> ip_family option" where
  "normalize_network_interface_family f =
     (if f = FamilyName ''IPv4'' \<or> f = FamilyNumber 4 then Some FamilyIPv4
      else if f = FamilyName ''IPv6'' \<or> f = FamilyNumber 6 then Some FamilyIPv6
      else None)"

definition external_address :: "ip_family option \<Rightarrow> string \<Rightarrow> net_interface \<Rightarrow> (string \<times> string \<times> ip_family) option" where
  "external_address wanted name entry =
     (if if_internal entry then None
      else case normalize_optional_string (if_address entry) of
        None \<Rightarrow> None
      | Some address \<Rightarrow>
          (case normalize_network_interface_family (if_family entry) of
             None \<Rightarrow> None
           | Some f \<Rightarrow> if wanted = None \<or> wanted = Some f then Some (name, address, f) else None))"

definition list_external_interface_addresses ::
    "interface_snapshot option \<Rightarrow> ip_family option \<Rightarrow> (string \<times> string \<times> ip_family) list" where
  "list_external_interface_addresses snapshot wanted =
     (case snapshot of
        None \<Rightarrow> []
      | Some s \<Rightarrow> concat (map (\<lambda>(name, es). case es of None \<Rightarrow> [] | Some es \<Rightarrow> List.map_filter (external_address wanted name) es) s))"

fun first_preferred :: "string list \<Rightarrow> (string \<Rightarrow> bool) \<Rightarrow> (string \<times> string \<times> ip_family) list \<Rightarrow> string option" where
  "first_preferred [] matches addresses = None"
| "first_preferred (n # ns) matches addresses =
     (case find (\<lambda>(m, a, _). m = n \<and> matches a) addresses of
        Some (_, a, _) \<Rightarrow> Some a
      | None \<Rightarrow> first_preferred ns matches addresses)"

definition pick_matching_external_interface_address ::
    "interface_snapshot option \<Rightarrow> ip_family \<Rightarrow> string list \<Rightarrow> (string \<Rightarrow> bool) \<Rightarrow> string option" where
  "pick_matching_external_interface_address snapshot f preferred matches =
     (let addresses = list_external_interface_addresses snapshot (Some f)
      in case first_preferred preferred matches addresses of
           Some a \<Rightarrow> Some a
         | None \<Rightarrow> map_option (\<lambda>(_, a, _). a) (find (\<lambda>(_, a, _). matches a) addresses))"

text \<open>\<open>pickPrimaryLanIPv4\<close> reads the interfaces without a guard: nothing outside means that it throws.\<close>

definition pick_primary_lan_ipv4 :: "platform \<Rightarrow> string option option" where
  "pick_primary_lan_ipv4 np =
     (case np_interfaces np of
        None \<Rightarrow> None
      | Some s \<Rightarrow> Some (pick_matching_external_interface_address (Some s) FamilyIPv4 [''en0'', ''eth0''] (\<lambda>_. True)))"

definition is_tailnet_ipv4 :: "ipaddr \<Rightarrow> string \<Rightarrow> bool" where
  "is_tailnet_ipv4 lib a = is_ip_in_cidr lib a ''100.64.0.0/10''"

definition is_tailnet_ipv6 :: "ipaddr \<Rightarrow> string \<Rightarrow> bool" where
  "is_tailnet_ipv6 lib a = is_ip_in_cidr lib a ''fd7a:115c:a1e0::/48''"

definition list_tailnet_addresses :: "ipaddr \<Rightarrow> interface_snapshot \<Rightarrow> string list \<times> string list" where
  "list_tailnet_addresses lib s =
     (let addresses = list_external_interface_addresses (Some s) None
      in (unique_strings (List.map_filter (\<lambda>(_, a, f). if f = FamilyIPv4 \<and> is_tailnet_ipv4 lib a then Some a else None) addresses),
          unique_strings (List.map_filter (\<lambda>(_, a, f). if f = FamilyIPv6 \<and> is_tailnet_ipv6 lib a then Some a else None) addresses)))"

definition pick_primary_tailnet_ipv4 :: "platform \<Rightarrow> string option option" where
  "pick_primary_tailnet_ipv4 np =
     (case np_interfaces np of
        None \<Rightarrow> None
      | Some s \<Rightarrow> Some (case fst (list_tailnet_addresses (np_lib np) s) of [] \<Rightarrow> None | a # _ \<Rightarrow> Some a))"

section \<open>Hosts and addresses\<close>

definition normalize_host_header :: "string option \<Rightarrow> string" where
  "normalize_host_header h = normalize_lowercase_string_or_empty h"

text \<open>The text between a leading bracket and the first closing one.\<close>

definition bracketed :: "string \<Rightarrow> string option" where
  "bracketed s =
     (case s of
        c # r \<Rightarrow> if c = CHR ''['' \<and> CHR '']'' \<in> set r then Some (takeWhile (\<lambda>d. d \<noteq> CHR '']'') r) else None
      | [] \<Rightarrow> None)"

definition resolve_host_name :: "platform \<Rightarrow> string option \<Rightarrow> string" where
  "resolve_host_name np raw =
     (let host = normalize_host_header raw
      in if host = [] then []
         else case bracketed host of
           Some h \<Rightarrow> h
         | None \<Rightarrow> if np_is_ip np host = 6 then host else hd (js_split (CHR '':'') host))"

definition is_loopback_address :: "platform \<Rightarrow> string option \<Rightarrow> bool" where
  "is_loopback_address np ip = is_loopback_ip_address (np_lib np) ip"

definition is_private_or_loopback_address :: "platform \<Rightarrow> string option \<Rightarrow> bool" where
  "is_private_or_loopback_address np ip = is_private_or_loopback_ip_address (np_lib np) ip"

definition normalize_ip :: "platform \<Rightarrow> string option \<Rightarrow> string option" where
  "normalize_ip np ip = normalize_ip_address (np_lib np) ip"

definition resolve_local_interface_address_match :: "platform \<Rightarrow> string option \<Rightarrow> bool option" where
  "resolve_local_interface_address_match np ip =
     (case normalize_ip np ip of
        None \<Rightarrow> Some False
      | Some a \<Rightarrow>
          (case np_interfaces np of
             None \<Rightarrow> None
           | Some s \<Rightarrow> Some (list_ex (\<lambda>(_, es). list_ex (\<lambda>e. normalize_ip np (if_address e) = Some a)
                (case es of None \<Rightarrow> [] | Some es \<Rightarrow> es)) s)))"

definition strip_optional_port :: "platform \<Rightarrow> string \<Rightarrow> string" where
  "strip_optional_port np ip =
     (case bracketed ip of
        Some h \<Rightarrow> h
      | None \<Rightarrow>
          if np_is_ip np ip \<noteq> 0 then ip
          else
            (let candidate = takeWhile (\<lambda>c. c \<noteq> CHR '':'') ip
             in if count_list ip (CHR '':'') = 1 \<and> CHR ''.'' \<in> set ip \<and> np_is_ip np candidate = 4 then candidate else ip))"

definition parse_ip_literal :: "platform \<Rightarrow> string option \<Rightarrow> string option" where
  "parse_ip_literal np raw =
     (case normalize_optional_string raw of
        None \<Rightarrow> None
      | Some t \<Rightarrow>
          (case normalize_ip np (Some (strip_optional_port np t)) of
             None \<Rightarrow> None
           | Some n \<Rightarrow> if n = [] \<or> np_is_ip np n = 0 then None else Some n))"

definition is_trusted_proxy_address :: "platform \<Rightarrow> string option \<Rightarrow> string list \<Rightarrow> bool" where
  "is_trusted_proxy_address np ip trusted =
     (case normalize_ip np ip of
        None \<Rightarrow> False
      | Some a \<Rightarrow> a \<noteq> [] \<and> trusted \<noteq> [] \<and>
          list_ex (\<lambda>p. let c = js_trim p in c \<noteq> [] \<and> is_ip_in_cidr (np_lib np) a c) trusted)"

text \<open>The chain of forwarded hops, walked from the right to the first hop that is neither loopback nor trusted.\<close>

definition forwarded_chain :: "platform \<Rightarrow> string option \<Rightarrow> string list" where
  "forwarded_chain np forwarded_for =
     (case forwarded_for of
        None \<Rightarrow> []
      | Some s \<Rightarrow> List.map_filter (\<lambda>e. parse_ip_literal np (Some e)) (js_split (CHR '','') s))"

definition untrusted_hop :: "platform \<Rightarrow> string list \<Rightarrow> string \<Rightarrow> bool" where
  "untrusted_hop np trusted hop \<longleftrightarrow> \<not> is_loopback_address np (Some hop) \<and> \<not> is_trusted_proxy_address np (Some hop) trusted"

definition resolve_forwarded_client_ip :: "platform \<Rightarrow> string option \<Rightarrow> string list \<Rightarrow> string option" where
  "resolve_forwarded_client_ip np forwarded_for trusted =
     (if trusted = [] then None else find (untrusted_hop np trusted) (rev (forwarded_chain np forwarded_for)))"

definition resolve_client_ip ::
    "platform \<Rightarrow> string option \<Rightarrow> string option \<Rightarrow> string option \<Rightarrow> string list \<Rightarrow> bool \<Rightarrow> string option" where
  "resolve_client_ip np remote_addr forwarded_for real_ip trusted allow_real_ip =
     (case normalize_ip np remote_addr of
        None \<Rightarrow> None
      | Some remote \<Rightarrow>
          if remote = [] then None
          else if \<not> is_trusted_proxy_address np (Some remote) trusted then Some remote
          else (case resolve_forwarded_client_ip np forwarded_for trusted of
                  Some a \<Rightarrow> Some a
                | None \<Rightarrow> if allow_real_ip then parse_ip_literal np real_ip else None))"

definition resolve_request_client_ip :: "platform \<Rightarrow> http_request option \<Rightarrow> string list \<Rightarrow> bool \<Rightarrow> string option" where
  "resolve_request_client_ip np req trusted allow_real_ip =
     (case req of
        None \<Rightarrow> None
      | Some r \<Rightarrow>
          resolve_client_ip np (Some (case hr_remote r of Some a \<Rightarrow> a | None \<Rightarrow> []))
            (header_value_of (header r ''x-forwarded-for'')) (header_value_of (header r ''x-real-ip'')) trusted allow_real_ip)"

section \<open>Binding\<close>

datatype bind_mode = BindLoopback | BindTailnet | BindLan | BindCustom | BindAuto

definition is_valid_ipv4 :: "platform \<Rightarrow> string \<Rightarrow> bool" where
  "is_valid_ipv4 np host = is_canonical_dotted_decimal_ipv4 (np_lib np) (Some host)"

text \<open>The bind address; nothing when reading the interfaces throws.\<close>

definition resolve_gateway_bind_host :: "platform \<Rightarrow> bind_mode option \<Rightarrow> string option \<Rightarrow> string option" where
  "resolve_gateway_bind_host np bind custom_host =
     (let local_or_all = (if np_can_bind np ''127.0.0.1'' then ''127.0.0.1'' else ''0.0.0.0'')
      in case (case bind of None \<Rightarrow> BindLoopback | Some m \<Rightarrow> m) of
           BindLoopback \<Rightarrow> Some ''127.0.0.1''
         | BindTailnet \<Rightarrow>
             (case pick_primary_tailnet_ipv4 np of
                None \<Rightarrow> None
              | Some (Some ip) \<Rightarrow> Some (if ip \<noteq> [] \<and> np_can_bind np ip then ip else local_or_all)
              | Some None \<Rightarrow> Some local_or_all)
         | BindLan \<Rightarrow> Some ''0.0.0.0''
         | BindCustom \<Rightarrow>
             (case normalize_optional_string custom_host of
                None \<Rightarrow> Some ''0.0.0.0''
              | Some host \<Rightarrow> Some (if is_valid_ipv4 np host \<and> np_can_bind np host then host else ''0.0.0.0''))
         | BindAuto \<Rightarrow> Some (if np_container np then ''0.0.0.0'' else local_or_all))"

definition default_gateway_bind_mode :: "platform \<Rightarrow> string option \<Rightarrow> bind_mode" where
  "default_gateway_bind_mode np tailscale_mode =
     (if (case tailscale_mode of Some m \<Rightarrow> m \<noteq> [] \<and> m \<noteq> ''off'' | None \<Rightarrow> False) then BindLoopback
      else if np_container np then BindAuto else BindLoopback)"

definition resolve_gateway_listen_hosts :: "platform \<Rightarrow> string \<Rightarrow> (string \<Rightarrow> bool) option \<Rightarrow> string list" where
  "resolve_gateway_listen_hosts np bind_host can_bind =
     (if bind_host \<noteq> ''127.0.0.1'' then
        (if \<not> is_valid_ipv4 np bind_host \<or> bind_host = ''0.0.0.0'' then [bind_host] else [bind_host, ''127.0.0.1''])
      else if np_windows np then [bind_host]
      else if (case can_bind of Some f \<Rightarrow> f | None \<Rightarrow> np_can_bind np) ''::1'' then [bind_host, ''::1'']
      else [bind_host])"

section \<open>Local and private hosts\<close>

definition strip_trailing_dots :: "string \<Rightarrow> string" where
  "strip_trailing_dots s = rev (dropWhile (\<lambda>c. c = CHR ''.'') (rev s))"

text \<open>Whether the host is \<open>localhost\<close>, and the host without brackets.\<close>

definition parse_host_for_address_checks :: "string \<Rightarrow> (bool \<times> string) option" where
  "parse_host_for_address_checks host =
     (if host = [] then None
      else
        (let normalized = normalize_lowercase_string_or_empty (Some host);
             canonical = strip_trailing_dots normalized
         in if canonical = ''localhost'' then Some (True, canonical)
            else Some (False, strip_ipv6_brackets normalized)))"

definition is_loopback_host :: "platform \<Rightarrow> string \<Rightarrow> bool" where
  "is_loopback_host np host =
     (case parse_host_for_address_checks host of
        None \<Rightarrow> False
      | Some (is_localhost, h) \<Rightarrow> is_localhost \<or> is_loopback_address np (Some h))"

definition is_localish_host :: "platform \<Rightarrow> string option \<Rightarrow> bool" where
  "is_localish_host np host_header =
     (let host = resolve_host_name np host_header
      in host \<noteq> [] \<and> (is_loopback_host np host \<or> suffix ''.ts.net'' host))"

definition is_private_or_loopback_host :: "platform \<Rightarrow> string \<Rightarrow> bool" where
  "is_private_or_loopback_host np host =
     (case parse_host_for_address_checks host of
        None \<Rightarrow> False
      | Some (True, _) \<Rightarrow> True
      | Some (False, h) \<Rightarrow>
          (case normalize_ip np (Some h) of
             None \<Rightarrow> False
           | Some n \<Rightarrow>
               if n = [] \<or> \<not> is_private_or_loopback_address np (Some n) then False
               else if np_is_ip np n = 6 \<and> (prefix ''ff'' n \<or> n = ''::'') then False
               else True))"

definition is_trusted_plaintext_websocket_host :: "platform \<Rightarrow> string \<Rightarrow> bool" where
  "is_trusted_plaintext_websocket_host np hostname \<longleftrightarrow>
     is_private_or_loopback_host np hostname \<or>
     (let n = strip_trailing_dots (normalize_lowercase_string_or_empty (Some hostname))
      in suffix ''.local'' n \<or> suffix ''.ts.net'' n)"

definition is_secure_websocket_url :: "platform \<Rightarrow> string \<Rightarrow> bool \<Rightarrow> bool" where
  "is_secure_websocket_url np u allow_private_ws =
     (case np_url np u of
        None \<Rightarrow> False
      | Some p \<Rightarrow>
          (let protocol = (if url_protocol p = ''https:'' then ''wss:'' else if url_protocol p = ''http:'' then ''ws:'' else url_protocol p)
           in if protocol = ''wss:'' then True
              else if protocol \<noteq> ''ws:'' then False
              else if is_loopback_host np (url_hostname p) then True
              else if is_trusted_plaintext_websocket_host np (url_hostname p) then True
              else allow_private_ws \<and>
                (is_private_or_loopback_host np (url_hostname p) \<or>
                 np_is_ip np (strip_ipv6_brackets (url_hostname p)) = 0)))"

end
