(* ===== verification/Origin_Check.thy ===== *)
theory Origin_Check
  imports Gateway_Net
begin

text \<open>
  The browser origin policy of gateway requests, \<open>gateway/origin-check.ts\<close>.
\<close>

definition is_ascii_letter :: "char \<Rightarrow> bool" where
  "is_ascii_letter c \<longleftrightarrow> (let n = (of_char c :: nat) in 65 \<le> n \<and> n \<le> 90 \<or> 97 \<le> n \<and> n \<le> 122)"

definition is_scheme_char :: "char \<Rightarrow> bool" where
  "is_scheme_char c \<longleftrightarrow> is_ascii_letter c \<or> is_decimal_digit c \<or> c \<in> set ''+.-''"

definition is_authority_char :: "char \<Rightarrow> bool" where
  "is_authority_char c \<longleftrightarrow> c \<notin> set [CHR ''/'', CHR ''?'', CHR ''#'', CHR 0x5C]"

text \<open>The test \<open>/^[a-z][a-z0-9+.-]*:\/\/[^/?#\\]+\/?$/i\<close>: the first colon ends the scheme, as no scheme character is one.\<close>

definition origin_shape :: "string \<Rightarrow> bool" where
  "origin_shape s \<longleftrightarrow>
     (let scheme = takeWhile (\<lambda>c. c \<noteq> CHR '':'') s;
          rest = dropWhile (\<lambda>c. c \<noteq> CHR '':'') s;
          authority = drop 3 rest
      in scheme \<noteq> [] \<and> is_ascii_letter (hd scheme) \<and> list_all is_scheme_char scheme \<and> prefix ''://'' rest \<and>
         takeWhile is_authority_char authority \<noteq> [] \<and> dropWhile is_authority_char authority \<in> {[], ''/''})"

record parsed_origin =
  po_origin :: string
  po_protocol :: string
  po_host :: string
  po_hostname :: string

definition parse_origin :: "platform \<Rightarrow> string option \<Rightarrow> parsed_origin option" where
  "parse_origin np raw =
     (let trimmed = js_trim (case raw of Some s \<Rightarrow> s | None \<Rightarrow> [])
      in if trimmed = [] \<or> trimmed = ''null'' then None
         else if \<not> origin_shape trimmed then None
         else case np_url np trimmed of
           None \<Rightarrow> None
         | Some u \<Rightarrow>
             if url_username u \<noteq> [] \<or> url_password u \<noteq> [] \<or> url_protocol u = [] \<or> url_host u = [] then None
             else
               (let origin = (if url_origin u = ''null'' then url_protocol u @ ''//'' @ url_host u else url_origin u);
                    low = (\<lambda>s. normalize_lowercase_string_or_empty (Some s))
                in Some \<lparr>po_origin = low origin, po_protocol = low (url_protocol u), po_host = low (url_host u),
                         po_hostname = low (url_hostname u)\<rparr>))"

definition normalize_chrome_extension_origin :: "platform \<Rightarrow> string option \<Rightarrow> string option" where
  "normalize_chrome_extension_origin np raw =
     (case parse_origin np raw of
        None \<Rightarrow> None
      | Some o' \<Rightarrow>
          if po_protocol o' = ''chrome-extension:'' \<and> length (po_hostname o') = 32 \<and>
             list_all (\<lambda>c. let n = (of_char c :: nat) in 97 \<le> n \<and> n \<le> 112) (po_hostname o')
          then Some (po_origin o') else None)"

definition is_trusted_same_origin_host :: "platform \<Rightarrow> string \<Rightarrow> bool option \<Rightarrow> bool" where
  "is_trusted_same_origin_host np host_header is_local_client =
     (let hostname = resolve_host_name np (Some host_header)
      in if hostname = [] then False
         else if is_loopback_host np hostname then is_local_client \<noteq> Some False
         else if np_is_ip np hostname \<noteq> 0 then is_private_or_loopback_ip_address (np_lib np) (Some hostname)
         else suffix ''.local'' hostname \<or> suffix ''.ts.net'' hostname)"

datatype origin_match = OriginAllowlist | HostHeaderFallback | PrivateSameOrigin | LocalLoopback

datatype origin_result = OriginOk origin_match | OriginRefused string

record origin_params =
  op_request_host :: "string option"
  op_origin :: "string option"
  op_allowed :: "string list"
  op_host_fallback :: bool
  op_local_client :: "bool option"

definition check_browser_origin :: "platform \<Rightarrow> origin_params \<Rightarrow> origin_result" where
  "check_browser_origin np p =
     (case parse_origin np (op_origin p) of
        None \<Rightarrow> OriginRefused ''origin missing or invalid''
      | Some o' \<Rightarrow>
          (let allowlist = List.map_filter (\<lambda>v. normalize_optional_lowercase_string (Some v)) (op_allowed p);
               request_host = normalize_host_header (op_request_host p)
           in if ''*'' \<in> set allowlist \<or> po_origin o' \<in> set allowlist then OriginOk OriginAllowlist
              else if op_host_fallback p \<and> request_host \<noteq> [] \<and> po_host o' = request_host then OriginOk HostHeaderFallback
              else if request_host \<noteq> [] \<and> po_host o' = request_host \<and>
                      is_trusted_same_origin_host np request_host (op_local_client p) then OriginOk PrivateSameOrigin
              else if op_local_client p = Some True \<and> is_loopback_host np (po_hostname o') then OriginOk LocalLoopback
              else OriginRefused ''origin not allowed''))"

end
