(* ===== verification/Rate_Limits.thy ===== *)
theory Rate_Limits
  imports JS_Numbers
begin

text \<open>
  The fixed-window limiters of the gateway: the single counter of
  \<open>infra/fixed-window-rate-limit.ts\<close> and the per-client write budget of
  \<open>gateway/control-plane-rate-limit.ts\<close>, whose buckets live in one bounded \<open>Map\<close>.

  Both promise the contract of the locale \<open>window_budget\<close>; its bound on the requests granted in
  any interval of one window is proved once, for both. The clock is an argument of every operation
  and may move backwards.
\<close>

section \<open>The fixed-window limiter\<close>

record window_bucket =
  wb_count :: int
  wb_start :: int

record window_result =
  wr_allowed :: bool
  wr_retry_after :: int
  wr_remaining :: int

definition resolve_fixed_window_integer :: "js_value \<Rightarrow> int \<Rightarrow> int \<Rightarrow> int" where
  "resolve_fixed_window_integer v fallback lo =
     max lo \<lfloor>case as_finite_number v of Some q \<Rightarrow> q | None \<Rightarrow> of_int fallback\<rfloor>"

record window_limiter =
  wl_max_requests :: int
  wl_window_ms :: int
  wl_bucket :: window_bucket

definition create_fixed_window_limiter :: "js_value \<Rightarrow> js_value \<Rightarrow> window_limiter" where
  "create_fixed_window_limiter max_requests window_ms =
     \<lparr>wl_max_requests = resolve_fixed_window_integer max_requests 1 1,
      wl_window_ms = resolve_fixed_window_integer window_ms 1 1,
      wl_bucket = \<lparr>wb_count = 0, wb_start = 0\<rparr>\<rparr>"

definition consume_window :: "int \<Rightarrow> window_limiter \<Rightarrow> window_result \<times> window_limiter" where
  "consume_window now l =
     (let b = (if now - wb_start (wl_bucket l) \<ge> wl_window_ms l then \<lparr>wb_count = 0, wb_start = now\<rparr>
               else wl_bucket l)
      in if wb_count b \<ge> wl_max_requests l then
           (\<lparr>wr_allowed = False, wr_retry_after = max 0 (wb_start b + wl_window_ms l - now), wr_remaining = 0\<rparr>,
            l\<lparr>wl_bucket := b\<rparr>)
         else
           (let b' = b\<lparr>wb_count := wb_count b + 1\<rparr>
            in (\<lparr>wr_allowed = True, wr_retry_after = 0, wr_remaining = max 0 (wl_max_requests l - wb_count b')\<rparr>,
                l\<lparr>wl_bucket := b'\<rparr>)))"

definition reset_window :: "window_limiter \<Rightarrow> window_limiter" where
  "reset_window l = l\<lparr>wl_bucket := \<lparr>wb_count = 0, wb_start = 0\<rparr>\<rparr>"

section \<open>The control-plane write budget\<close>

definition control_plane_max_requests :: int where
  "control_plane_max_requests = 30"

definition control_plane_window_ms :: int where
  "control_plane_window_ms = 60000"

definition control_plane_max_stale_ms :: int where
  "control_plane_max_stale_ms = 5 * 60000"

definition control_plane_max_entries :: nat where
  "control_plane_max_entries = 10000"

definition normalize_identity_part :: "string option \<Rightarrow> string \<Rightarrow> string" where
  "normalize_identity_part v fallback =
     (case v of
        None \<Rightarrow> fallback
      | Some s \<Rightarrow> (let t = js_trim s in if t \<noteq> [] then t else fallback))"

text \<open>The identity fields of \<open>GatewayClient\<close>; a missing client has none of them.\<close>

record control_client =
  cc_device_id :: "string option"
  cc_client_ip :: "string option"
  cc_conn_id :: "string option"

definition control_plane_client_key :: "control_client \<Rightarrow> string" where
  "control_plane_client_key c =
     (let device = normalize_identity_part (cc_device_id c) ''unknown-device'';
          ip = normalize_identity_part (cc_client_ip c) ''unknown-ip'';
          conn = normalize_identity_part (cc_conn_id c) ''''
      in if device = ''unknown-device'' \<and> ip = ''unknown-ip'' \<and> conn \<noteq> [] then
           device @ ''|'' @ ip @ ''|conn='' @ conn
         else device @ ''|'' @ ip)"

definition control_plane_key :: "string \<Rightarrow> control_client \<Rightarrow> string" where
  "control_plane_key meth c = meth @ ''|'' @ control_plane_client_key c"

type_synonym buckets = "(string, window_bucket) js_map"

text \<open>The hard cap: before a new key goes in, the oldest one goes out.\<close>

definition evict_for :: "string \<Rightarrow> buckets \<Rightarrow> buckets" where
  "evict_for key m =
     (if key \<notin> set (js_keys m) \<and> length m \<ge> control_plane_max_entries then
        (case m of [] \<Rightarrow> m | p # _ \<Rightarrow> js_delete (fst p) m)
      else m)"

definition consume_bucket :: "string \<Rightarrow> int \<Rightarrow> buckets \<Rightarrow> window_result \<times> buckets" where
  "consume_bucket key now m =
     (case js_get m key of
        Some b \<Rightarrow>
          if now - wb_start b \<ge> control_plane_window_ms then
            (\<lparr>wr_allowed = True, wr_retry_after = 0, wr_remaining = control_plane_max_requests - 1\<rparr>,
             js_set key \<lparr>wb_count = 1, wb_start = now\<rparr> (evict_for key m))
          else if wb_count b \<ge> control_plane_max_requests then
            (\<lparr>wr_allowed = False,
              wr_retry_after = max 0 (wb_start b + control_plane_window_ms - now), wr_remaining = 0\<rparr>, m)
          else
            (\<lparr>wr_allowed = True, wr_retry_after = 0,
              wr_remaining = max 0 (control_plane_max_requests - (wb_count b + 1))\<rparr>,
             js_set key (b\<lparr>wb_count := wb_count b + 1\<rparr>) m)
      | None \<Rightarrow>
          (\<lparr>wr_allowed = True, wr_retry_after = 0, wr_remaining = control_plane_max_requests - 1\<rparr>,
           js_set key \<lparr>wb_count = 1, wb_start = now\<rparr> (evict_for key m)))"

definition consume_write_budget ::
    "control_client \<Rightarrow> string \<Rightarrow> int \<Rightarrow> buckets \<Rightarrow> (window_result \<times> string) \<times> buckets" where
  "consume_write_budget c meth now m =
     (let key = control_plane_key meth c; (r, m') = consume_bucket key now m in ((r, key), m'))"

definition stale_bucket :: "int \<Rightarrow> window_bucket \<Rightarrow> bool" where
  "stale_bucket now b \<longleftrightarrow> now - wb_start b > control_plane_max_stale_ms"

definition prune_stale_buckets :: "int \<Rightarrow> buckets \<Rightarrow> nat \<times> buckets" where
  "prune_stale_buckets now m =
     (length (filter (\<lambda>p. stale_bucket now (snd p)) m), filter (\<lambda>p. \<not> stale_bucket now (snd p)) m)"

section \<open>The contract of a window budget\<close>

text \<open>The requests of a run that the caller \<open>mine\<close> was granted.\<close>

fun grants :: "('r \<Rightarrow> 's \<Rightarrow> bool \<times> 's) \<Rightarrow> ('r \<Rightarrow> bool) \<Rightarrow> 's \<Rightarrow> 'r list \<Rightarrow> int" where
  "grants consume mine s [] = 0"
| "grants consume mine s (r # rs) =
     (let (granted, s') = consume r s
      in (if mine r \<and> granted then 1 else 0) + grants consume mine s' rs)"

definition window_over :: "int \<Rightarrow> int \<Rightarrow> window_bucket option \<Rightarrow> bool" where
  "window_over window now b = (case b of None \<Rightarrow> True | Some b \<Rightarrow> now - wb_start b \<ge> window)"

locale window_budget =
  fixes consume :: "'r \<Rightarrow> 's \<Rightarrow> bool \<times> 's"
    and at_ms :: "'r \<Rightarrow> int"
    and mine :: "'r \<Rightarrow> bool"
    and legal :: "'r \<Rightarrow> bool"
    and ok :: "'s \<Rightarrow> bool"
    and bucket :: "'s \<Rightarrow> window_bucket option"
    and limit :: int
    and window :: int
  assumes limit_pos: "0 < limit"
    and ok_step: "ok s \<Longrightarrow> legal r \<Longrightarrow> ok (snd (consume r s))"
    and other: "ok s \<Longrightarrow> legal r \<Longrightarrow> \<not> mine r \<Longrightarrow> bucket (snd (consume r s)) = bucket s"
    and renew: "ok s \<Longrightarrow> legal r \<Longrightarrow> mine r \<Longrightarrow> window_over window (at_ms r) (bucket s) \<Longrightarrow>
      fst (consume r s) \<and> bucket (snd (consume r s)) = Some \<lparr>wb_count = 1, wb_start = at_ms r\<rparr>"
    and spend: "ok s \<Longrightarrow> legal r \<Longrightarrow> mine r \<Longrightarrow> \<not> window_over window (at_ms r) (bucket s) \<Longrightarrow>
      bucket s = Some b \<Longrightarrow> wb_count b < limit \<Longrightarrow>
      fst (consume r s) \<and> bucket (snd (consume r s)) = Some (b\<lparr>wb_count := wb_count b + 1\<rparr>)"
    and refuse: "ok s \<Longrightarrow> legal r \<Longrightarrow> mine r \<Longrightarrow> \<not> window_over window (at_ms r) (bucket s) \<Longrightarrow>
      bucket s = Some b \<Longrightarrow> limit \<le> wb_count b \<Longrightarrow> \<not> fst (consume r s) \<and> bucket (snd (consume r s)) = Some b"
begin

text \<open>While the window stays open, no more than what is left of it is granted.\<close>

lemma open_window_budget:
  "ok s \<Longrightarrow> bucket s = Some b \<Longrightarrow> \<forall>r \<in> set rs. legal r \<and> (mine r \<longrightarrow> at_ms r - wb_start b < window) \<Longrightarrow>
   grants consume mine s rs \<le> max 0 (limit - wb_count b)"
proof (induction rs arbitrary: s b)
  case Nil
  then show ?case by simp
next
  case (Cons r rs)
  note ok' = ok_step [OF Cons.prems(1), of r]
  obtain g s' where c: "consume r s = (g, s')" by (cases "consume r s")
  consider "\<not> mine r" | "mine r" "wb_count b < limit" | "mine r" "limit \<le> wb_count b" by linarith
  then show ?case
  proof cases
    case 1
    then show ?thesis using Cons.IH [of s' b] Cons.prems ok' other [of s r] by (simp add: c)
  next
    case 2
    then show ?thesis
      using Cons.IH [of s' "b\<lparr>wb_count := wb_count b + 1\<rparr>"] Cons.prems ok' spend [of s r b]
      by (auto simp: c window_over_def)
  next
    case 3
    then show ?thesis using Cons.IH [of s' b] Cons.prems ok' refuse [of s r b] by (auto simp: c window_over_def)
  qed
qed

text \<open>In any interval of one window, at most two windows' worth is granted.\<close>

lemma interval_budget:
  "ok s \<Longrightarrow> (\<And>b. bucket s = Some b \<Longrightarrow> 0 \<le> wb_count b) \<Longrightarrow>
   \<forall>r \<in> set rs. legal r \<and> (mine r \<longrightarrow> a \<le> at_ms r \<and> at_ms r < a + window) \<Longrightarrow>
   grants consume mine s rs \<le> (case bucket s of None \<Rightarrow> 0 | Some b \<Rightarrow> max 0 (limit - wb_count b)) + limit"
proof (induction rs arbitrary: s)
  case Nil
  then show ?case using limit_pos by (simp split: option.splits)
next
  case (Cons r rs)
  note ok' = ok_step [OF Cons.prems(1), of r]
  obtain g s' where c: "consume r s = (g, s')" by (cases "consume r s")
  have legal: "legal r" and rest: "\<forall>r \<in> set rs. legal r \<and> (mine r \<longrightarrow> a \<le> at_ms r \<and> at_ms r < a + window)"
    using Cons.prems(3) by auto
  show ?case
  proof (cases "mine r \<and> window_over window (at_ms r) (bucket s)")
    case True
    then have b': "bucket s' = Some \<lparr>wb_count = 1, wb_start = at_ms r\<rparr>"
      using renew [of s r] Cons.prems(1) legal by (simp add: c)
    have "grants consume mine s' rs \<le> max 0 (limit - 1)"
      using open_window_budget [OF _ b', of rs] ok' legal rest True Cons.prems(3) by (fastforce simp: c)
    moreover have "0 \<le> (case bucket s of None \<Rightarrow> 0 | Some b \<Rightarrow> max 0 (limit - wb_count b))"
      by (simp split: option.splits)
    ultimately show ?thesis using limit_pos by (simp add: c)
  next
    case closed: False
    show ?thesis
    proof (cases "mine r")
      case False
      then show ?thesis using Cons.IH [of s'] Cons.prems ok' other [of s r] by (auto simp: c)
    next
      case m: True
      then obtain b where b: "bucket s = Some b" using closed by (cases "bucket s") (auto simp: window_over_def)
      have nw: "\<not> window_over window (at_ms r) (bucket s)" using closed m by simp
      have nn: "0 \<le> wb_count b" using Cons.prems(2) b by simp
      show ?thesis
      proof (cases "wb_count b < limit")
        case True
        then have "bucket s' = Some (b\<lparr>wb_count := wb_count b + 1\<rparr>)"
          using spend [OF Cons.prems(1) legal m nw b] by (simp add: c)
        then show ?thesis using Cons.IH [of s'] rest ok' legal b nn True by (auto simp: c)
      next
        case False
        then have "\<not> g \<and> bucket s' = Some b" using refuse [OF Cons.prems(1) legal m nw b] by (simp add: c)
        then show ?thesis using Cons.IH [of s'] rest ok' legal b nn by (auto simp: c)
      qed
    qed
  qed
qed

lemma interval_budget_two:
  assumes "ok s" and "\<And>b. bucket s = Some b \<Longrightarrow> 0 \<le> wb_count b"
    and "\<forall>r \<in> set rs. legal r \<and> (mine r \<longrightarrow> a \<le> at_ms r \<and> at_ms r < a + window)"
  shows "grants consume mine s rs \<le> 2 * limit"
proof -
  have "(case bucket s of None \<Rightarrow> 0 | Some b \<Rightarrow> max 0 (limit - wb_count b)) \<le> limit"
    using assms(2) limit_pos by (simp split: option.splits)
  with interval_budget [OF assms] show ?thesis by linarith
qed

end

section \<open>The limiters provide the contract\<close>

definition grant_window :: "int \<Rightarrow> window_limiter \<Rightarrow> bool \<times> window_limiter" where
  "grant_window now l = (let (r, l') = consume_window now l in (wr_allowed r, l'))"

definition limiter_of :: "js_value \<Rightarrow> js_value \<Rightarrow> window_limiter \<Rightarrow> bool" where
  "limiter_of max_requests window_ms l \<longleftrightarrow>
     wl_max_requests l = resolve_fixed_window_integer max_requests 1 1 \<and>
     wl_window_ms l = resolve_fixed_window_integer window_ms 1 1 \<and> 0 \<le> wb_count (wl_bucket l)"

lemma resolve_fixed_window_pos: "0 < resolve_fixed_window_integer v f 1"
  by (simp add: resolve_fixed_window_integer_def)

lemma limiter_of_create: "limiter_of mr wm (create_fixed_window_limiter mr wm)"
  by (simp add: limiter_of_def create_fixed_window_limiter_def)

lemma limiter_of_reset: "limiter_of mr wm l \<Longrightarrow> limiter_of mr wm (reset_window l)"
  by (simp add: limiter_of_def reset_window_def)

lemma limiter_of_consume [step_inv]:
  "limiter_of mr wm l \<Longrightarrow> limiter_of mr wm (snd (grant_window now l))"
  by (auto simp: limiter_of_def grant_window_def consume_window_def Let_def)

interpretation fixed_window: window_budget grant_window "\<lambda>now. now" "\<lambda>_. True" "\<lambda>_. True"
  "limiter_of mr wm" "\<lambda>l. Some (wl_bucket l)" "resolve_fixed_window_integer mr 1 1" "resolve_fixed_window_integer wm 1 1"
  for mr wm
proof
  show "0 < resolve_fixed_window_integer mr 1 1" by (rule resolve_fixed_window_pos)
  show "limiter_of mr wm (snd (grant_window r s))" if "limiter_of mr wm s" for s r
    using that by (rule limiter_of_consume)
  show "fst (grant_window r s) \<and> Some (wl_bucket (snd (grant_window r s))) = Some \<lparr>wb_count = 1, wb_start = r\<rparr>"
    if "limiter_of mr wm s" "window_over (resolve_fixed_window_integer wm 1 1) r (Some (wl_bucket s))" for s r
    using that resolve_fixed_window_pos [of mr 1]
    by (auto simp: grant_window_def consume_window_def limiter_of_def window_over_def Let_def)
qed (auto simp: grant_window_def consume_window_def limiter_of_def window_over_def Let_def)

text \<open>however a fixed-window limiter was used before, the requests it grants inside any interval of
  one window length are at most twice its limit, for any clock.
\<close>

theorem fixed_window_interval_budget:
  assumes "\<forall>t \<in> set ts. a \<le> t \<and> t < a + resolve_fixed_window_integer wm 1 1"
  shows "grants grant_window (\<lambda>_. True)
      (foldl (\<lambda>l t. snd (grant_window t l)) (create_fixed_window_limiter mr wm) earlier) ts
    \<le> 2 * resolve_fixed_window_integer mr 1 1"
proof (rule fixed_window.interval_budget_two [where wm = wm and a = a])
  show l: "limiter_of mr wm (foldl (\<lambda>l t. snd (grant_window t l)) (create_fixed_window_limiter mr wm) earlier)"
  proof -
    have "limiter_of mr wm l \<Longrightarrow> limiter_of mr wm (foldl (\<lambda>l t. snd (grant_window t l)) l ts)" for l ts
      by (induction ts arbitrary: l) (simp_all add: limiter_of_consume)
    then show ?thesis using limiter_of_create by blast
  qed
  then show "0 \<le> wb_count b"
    if "Some (wl_bucket (foldl (\<lambda>l t. snd (grant_window t l)) (create_fixed_window_limiter mr wm) earlier)) = Some b" for b
    using that by (auto simp: limiter_of_def)
qed (use assms in simp)

theorem fixed_window_interval_budget_witness:
  "grants grant_window (\<lambda>_. True)
     (foldl (\<lambda>l t. snd (grant_window t l)) (create_fixed_window_limiter (JNum (Fin 2)) (JNum (Fin 20))) [5, 11]) [12, 13, 15, 16, 20, 25]
   \<le> 2 * resolve_fixed_window_integer (JNum (Fin 2)) 1 1"
  by (rule fixed_window_interval_budget [where a = "12" and wm = "JNum (Fin 20)"], simp add: resolve_fixed_window_integer_def)

text \<open>A caller that was refused and waits the reported delay is granted, whatever the clock did before.\<close>

lemma refused_caller_granted_after_delay:
  assumes "0 < wl_max_requests l" and "\<not> wr_allowed (fst (consume_window now l))"
  shows "wr_allowed (fst (consume_window (now + wr_retry_after (fst (consume_window now l)))
    (snd (consume_window now l))))"
  using assms by (auto simp: consume_window_def Let_def split: if_splits)

section \<open>The write budget provides the contract\<close>

type_synonym write_request = "control_client \<times> string \<times> int"

abbreviation request_key :: "write_request \<Rightarrow> string" where
  "request_key r \<equiv> control_plane_key (fst (snd r)) (fst r)"

definition grant_write :: "write_request \<Rightarrow> buckets \<Rightarrow> bool \<times> buckets" where
  "grant_write r m =
     (let ((res, _), m') = consume_write_budget (fst r) (fst (snd r)) (snd (snd r)) m in (wr_allowed res, m'))"

lemma grant_write_bucket:
  "grant_write r m = (let (res, m') = consume_bucket (request_key r) (snd (snd r)) m in (wr_allowed res, m'))"
  by (simp add: grant_write_def consume_write_budget_def Let_def split: prod.splits)

lemma snd_grant_write: "snd (grant_write r m) = snd (consume_bucket (request_key r) (snd (snd r)) m)"
  by (simp add: grant_write_bucket split_def Let_def)

definition buckets_ok :: "buckets \<Rightarrow> bool" where
  "buckets_ok m \<longleftrightarrow> js_wf m \<and> length m \<le> control_plane_max_entries \<and> (\<forall>k b. js_get m k = Some b \<longrightarrow> 1 \<le> wb_count b)"

lemma evict_for_ok:
  assumes "buckets_ok m"
  shows "buckets_ok (evict_for k m)" and "k \<notin> set (js_keys m) \<Longrightarrow> length (evict_for k m) < control_plane_max_entries"
proof -
  have "buckets_ok (js_delete k' m)" for k'
    using assms length_js_delete_le [of k' m] by (auto simp: buckets_ok_def)
  then show "buckets_ok (evict_for k m)" using assms by (auto simp: evict_for_def simp del: js_delete_simps split: list.splits)
  show "length (evict_for k m) < control_plane_max_entries" if "k \<notin> set (js_keys m)"
  proof (cases m)
    case Nil
    then show ?thesis by (simp add: evict_for_def control_plane_max_entries_def)
  next
    case (Cons p m')
    have "Suc (length (js_delete (fst p) m)) = length m"
      by (rule length_js_delete_present) (use assms Cons in \<open>auto simp: buckets_ok_def\<close>)
    then show ?thesis using assms that Cons by (auto simp: evict_for_def buckets_ok_def)
  qed
qed

lemma buckets_ok_set:
  "buckets_ok m \<Longrightarrow> (k \<notin> set (js_keys m) \<longrightarrow> length m < control_plane_max_entries) \<Longrightarrow> 1 \<le> wb_count b \<Longrightarrow>
   buckets_ok (js_set k b m)"
  by (auto simp: buckets_ok_def length_js_set)

lemma evict_for_keys: "k \<in> set (js_keys m) \<Longrightarrow> evict_for k m = m"
  by (simp add: evict_for_def)

lemma fresh_not_evicted: "k \<notin> set (js_keys m) \<Longrightarrow> k \<notin> set (js_keys (evict_for k m))"
  by (auto simp: evict_for_def js_delete_def split: list.splits)

lemma consume_bucket_ok [step_inv]:
  assumes "buckets_ok m"
  shows "buckets_ok (snd (consume_bucket k now m))"
proof (cases "js_get m k")
  case None
  then have f: "k \<notin> set (js_keys m)" by (simp add: js_get_None_keys)
  show ?thesis
    using buckets_ok_set [OF evict_for_ok(1) [OF assms, of k], of k "\<lparr>wb_count = 1, wb_start = now\<rparr>"]
      evict_for_ok(2) [OF assms f] by (simp add: consume_bucket_def None)
next
  case (Some b)
  then have k: "k \<in> set (js_keys m)" by (metis js_get_None_keys option.distinct(1))
  have b: "1 \<le> wb_count b" using assms Some by (auto simp: buckets_ok_def)
  show ?thesis
    using buckets_ok_set [OF assms, of k "\<lparr>wb_count = 1, wb_start = now\<rparr>"]
      buckets_ok_set [OF assms, of k "b\<lparr>wb_count := wb_count b + 1\<rparr>"] k b assms
    by (simp add: consume_bucket_def Some evict_for_keys)
qed

lemma prune_stale_ok [step_inv]: "buckets_ok m \<Longrightarrow> buckets_ok (snd (prune_stale_buckets now m))"
  by (auto simp: buckets_ok_def prune_stale_buckets_def js_wf_filter js_get_filter intro: order_trans [OF length_filter_le]
      split: option.splits if_splits)


section \<open>Budgets of one client\<close>

text \<open>
  Within a set \<open>ks\<close> of at most \<open>control_plane_max_entries\<close> keys no bucket is evicted, and the
  budget of each key is a window budget of its own.
\<close>

definition buckets_within :: "string list \<Rightarrow> buckets \<Rightarrow> bool" where
  "buckets_within ks m \<longleftrightarrow>
     buckets_ok m \<and> set (js_keys m) \<subseteq> set ks \<and> length (remdups ks) \<le> control_plane_max_entries"

lemma buckets_within_room:
  "buckets_within ks m \<Longrightarrow> k \<in> set ks \<Longrightarrow> k \<notin> set (js_keys m) \<Longrightarrow> length m < control_plane_max_entries"
  using js_room_within [of m ks k] by (simp add: buckets_within_def buckets_ok_def)

lemma buckets_within_no_eviction:
  "buckets_within ks m \<Longrightarrow> k \<in> set ks \<Longrightarrow> evict_for k m = m"
  using buckets_within_room [of ks m k] by (auto simp: evict_for_def)

lemma consume_bucket_keys:
  "set (js_keys (snd (consume_bucket k now m))) \<subseteq> insert k (set (js_keys m))"
  by (auto simp: consume_bucket_def evict_for_def js_delete_def split: option.splits list.splits dest: js_set_in)

lemma consume_bucket_within [step_inv]:
  "buckets_within ks m \<Longrightarrow> k \<in> set ks \<Longrightarrow> buckets_within ks (snd (consume_bucket k now m))"
  using consume_bucket_keys [of k now m] consume_bucket_ok [of m k now] by (auto simp: buckets_within_def)

interpretation write_budget: window_budget grant_write "\<lambda>r. snd (snd r)" "\<lambda>r. request_key r = key"
  "\<lambda>r. request_key r \<in> set ks" "buckets_within ks" "\<lambda>m. js_get m key"
  control_plane_max_requests control_plane_window_ms
  for key ks
proof
  show "0 < control_plane_max_requests" by (simp add: control_plane_max_requests_def)
  show "buckets_within ks (snd (grant_write r s))" if "buckets_within ks s" "request_key r \<in> set ks" for s r
    using consume_bucket_within [OF that, of "snd (snd r)"] by (simp add: snd_grant_write)
  show "js_get (snd (grant_write r s)) key = js_get s key"
    if "buckets_within ks s" "request_key r \<in> set ks" "request_key r \<noteq> key" for s r
    using that buckets_within_no_eviction [OF that(1,2)]
    by (auto simp: grant_write_bucket consume_bucket_def split: option.splits)
qed (auto simp: grant_write_bucket consume_bucket_def window_over_def buckets_within_no_eviction split: option.splits)

lemma write_run_within:
  "buckets_within ks m \<Longrightarrow> \<forall>r \<in> set rs. request_key r \<in> set ks \<Longrightarrow>
   buckets_within ks (foldl (\<lambda>m r. snd (grant_write r m)) m rs)"
  by (induction rs arbitrary: m) (simp_all add: write_budget.ok_step)

text \<open>as long as the gateway has seen at most 10000 keys, the write requests of one method and client
  it grants in any interval of 60 seconds are at most 60, twice the documented limit, whatever the
  other clients send.
\<close>

theorem write_budget_interval:
  assumes "length (remdups (map request_key (earlier @ rs))) \<le> control_plane_max_entries"
    and "\<forall>r \<in> set rs. request_key r = key \<longrightarrow> a \<le> snd (snd r) \<and> snd (snd r) < a + control_plane_window_ms"
  shows "grants grant_write (\<lambda>r. request_key r = key) (foldl (\<lambda>m r. snd (grant_write r m)) [] earlier) rs
    \<le> 2 * control_plane_max_requests"
proof (rule write_budget.interval_budget_two [where ks = "map request_key (earlier @ rs)" and a = a])
  have "buckets_within (map request_key (earlier @ rs)) []" using assms(1) by (simp add: buckets_within_def buckets_ok_def)
  then show w: "buckets_within (map request_key (earlier @ rs)) (foldl (\<lambda>m r. snd (grant_write r m)) [] earlier)"
    by (rule write_run_within) auto
  then show "0 \<le> wb_count b" if "js_get (foldl (\<lambda>m r. snd (grant_write r m)) [] earlier) key = Some b" for b
    using that by (fastforce simp: buckets_within_def buckets_ok_def)
  show "\<forall>r \<in> set rs. request_key r \<in> set (map request_key (earlier @ rs)) \<and>
      (request_key r = key \<longrightarrow> a \<le> snd (snd r) \<and> snd (snd r) < a + control_plane_window_ms)"
    using assms(2) by auto
qed

abbreviation sample_client :: control_client where
  "sample_client \<equiv> \<lparr>cc_device_id = Some ''d1'', cc_client_ip = Some ''10.0.0.1'', cc_conn_id = None\<rparr>"

theorem write_budget_interval_witness:
  "grants grant_write (\<lambda>r. request_key r = ''m|d1|10.0.0.1'')
     (foldl (\<lambda>m r. snd (grant_write r m)) [] [(sample_client, ''m'', 1000)])
     [(sample_client, ''m'', 2000), (sample_client, ''n'', 2000), (sample_client, ''m'', 61000)]
   \<le> 2 * control_plane_max_requests"
proof (rule write_budget_interval [where a = 2000])
  show "length (remdups (map request_key ([(sample_client, ''m'', 1000)] @
      [(sample_client, ''m'', 2000), (sample_client, ''n'', 2000), (sample_client, ''m'', 61000)]))) \<le> control_plane_max_entries"
    by (rule order_trans [OF length_remdups_leq]) (simp add: control_plane_max_entries_def)
qed (simp add: control_plane_window_ms_def)

section \<open>The bucket map stays bounded\<close>

datatype bucket_event = Write write_request | Prune int

fun bucket_step :: "buckets \<Rightarrow> bucket_event \<Rightarrow> buckets" where
  "bucket_step m (Write r) = snd (grant_write r m)"
| "bucket_step m (Prune now) = snd (prune_stale_buckets now m)"

lemma bucket_step_ok [step_inv]: "buckets_ok m \<Longrightarrow> buckets_ok (bucket_step m e)"
  by (cases e) (simp_all add: prune_stale_ok consume_bucket_ok snd_grant_write)

interpretation bucket_machine: invariant_machine bucket_step buckets_ok
  by unfold_locales (rule bucket_step_ok)

text \<open>no sequence of write requests and prunes makes the bucket map grow beyond its hard cap, and each
  key has one bucket.
\<close>

theorem write_buckets_bounded:
  "length (foldl bucket_step [] es) \<le> control_plane_max_entries \<and> js_wf (foldl bucket_step [] es)"
proof -
  have "buckets_ok []" by (simp add: buckets_ok_def)
  from bucket_machine.run_keeps [OF this, of es] show ?thesis by (simp add: buckets_ok_def)
qed

end
