(* ===== verification/Auth_Limiter.thy ===== *)
theory Auth_Limiter
  imports Rate_Limits
begin

text \<open>
  The limiter of failed gateway authentications, \<open>gateway/auth-rate-limit.ts\<close>: a sliding window of
  failures per scope and client address, a lockout once the window holds too many, a bounded map of
  tracked clients, and an overflow lock when the map is full of active lockouts.

  Address parsing (\<open>gateway/net.ts\<close> over the ipaddr.js package) is the parameter \<open>auth_net\<close>: the
  normalized address of a remote address, and which addresses are loopback. The theorems hold for
  every such pair. A lockout instant of zero counts as no lockout, as in the code's truth test.
\<close>

section \<open>Configuration\<close>

record auth_net =
  an_resolve :: "string option \<Rightarrow> string option"
  an_loopback :: "string \<Rightarrow> bool"

record rate_limit_config =
  rc_max_attempts :: "int option"
  rc_window_ms :: js_value
  rc_lockout_ms :: js_value
  rc_exempt_loopback :: "bool option"
  rc_prune_interval_ms :: "js_value option"
  rc_max_entries :: js_value

record auth_config =
  ac_max_attempts :: int
  ac_window_ms :: int
  ac_lockout_ms :: int
  ac_exempt_loopback :: bool
  ac_prune_interval_ms :: int
  ac_max_entries :: nat

definition resolve_prune_interval_ms :: "js_value option \<Rightarrow> int" where
  "resolve_prune_interval_ms v =
     (case v of
        None \<Rightarrow> 60000
      | Some v \<Rightarrow>
          if (case as_finite_number v of Some q \<Rightarrow> q \<le> 0 | None \<Rightarrow> False) then 0
          else resolve_timer_timeout_ms v (JNum (Fin 60000)) 1)"

definition resolve_auth_config :: "rate_limit_config \<Rightarrow> auth_config" where
  "resolve_auth_config c =
     \<lparr>ac_max_attempts = (case rc_max_attempts c of Some n \<Rightarrow> n | None \<Rightarrow> 10),
      ac_window_ms = resolve_timer_timeout_ms (rc_window_ms c) (JNum (Fin 60000)) 0,
      ac_lockout_ms = resolve_timer_timeout_ms (rc_lockout_ms c) (JNum (Fin 300000)) 0,
      ac_exempt_loopback = (case rc_exempt_loopback c of Some b \<Rightarrow> b | None \<Rightarrow> True),
      ac_prune_interval_ms = resolve_prune_interval_ms (rc_prune_interval_ms c),
      ac_max_entries = nat (resolve_integer_option (rc_max_entries c) 10000 (Some 1) None)\<rparr>"

section \<open>Identities\<close>

definition normalize_rate_limit_client_ip :: "auth_net \<Rightarrow> string option \<Rightarrow> string" where
  "normalize_rate_limit_client_ip net ip =
     (case ip of
        Some s \<Rightarrow>
          if prefix ''browser-origin:'' s \<or> prefix ''identity:'' s then s
          else (case an_resolve net ip of Some a \<Rightarrow> a | None \<Rightarrow> ''unknown'')
      | None \<Rightarrow> (case an_resolve net ip of Some a \<Rightarrow> a | None \<Rightarrow> ''unknown''))"

definition build_rate_limit_identity_key :: "string \<Rightarrow> string \<Rightarrow> string" where
  "build_rate_limit_identity_key ns ident = ''identity:'' @ ns @ '':'' @ ident"

definition normalize_auth_scope :: "string option \<Rightarrow> string" where
  "normalize_auth_scope scope =
     (let s = js_trim (case scope of Some s \<Rightarrow> s | None \<Rightarrow> ''default'') in if s \<noteq> [] then s else ''default'')"

type_synonym auth_client = "string option \<times> string option"

definition auth_ip :: "auth_net \<Rightarrow> auth_client \<Rightarrow> string" where
  "auth_ip net c = normalize_rate_limit_client_ip net (fst c)"

definition auth_key :: "auth_net \<Rightarrow> auth_client \<Rightarrow> string" where
  "auth_key net c = normalize_auth_scope (snd c) @ '':'' @ auth_ip net c"

definition is_exempt :: "auth_config \<Rightarrow> auth_net \<Rightarrow> auth_client \<Rightarrow> bool" where
  "is_exempt cfg net c \<longleftrightarrow> ac_exempt_loopback cfg \<and> an_loopback net (auth_ip net c)"

section \<open>Entries\<close>

record auth_entry =
  ae_attempts :: "int list"
  ae_locked_until :: "int option"

record auth_state =
  as_entries :: "(string, auth_entry) js_map"
  as_overflow_locked_until :: "int option"

definition empty_auth_state :: auth_state where
  "empty_auth_state = \<lparr>as_entries = [], as_overflow_locked_until = None\<rparr>"

definition locked_at :: "int \<Rightarrow> auth_entry \<Rightarrow> bool" where
  "locked_at now e = (case ae_locked_until e of None \<Rightarrow> False | Some u \<Rightarrow> u \<noteq> 0 \<and> now < u)"

definition slide_window :: "auth_config \<Rightarrow> int \<Rightarrow> auth_entry \<Rightarrow> auth_entry" where
  "slide_window cfg now e = e\<lparr>ae_attempts := filter (\<lambda>t. t > now - ac_window_ms cfg) (ae_attempts e)\<rparr>"

definition put_entry :: "string \<Rightarrow> auth_entry \<Rightarrow> auth_state \<Rightarrow> auth_state" where
  "put_entry k e st = st\<lparr>as_entries := js_set k e (as_entries st)\<rparr>"

text \<open>\<open>pruneExpiredEntries\<close>: a locked entry stays as it is; another slides, and goes when it is empty.\<close>

fun prune_entries :: "auth_config \<Rightarrow> int \<Rightarrow> (string, auth_entry) js_map \<Rightarrow> (string, auth_entry) js_map" where
  "prune_entries cfg now [] = []"
| "prune_entries cfg now ((k, e) # m) =
     (if locked_at now e then (k, e) # prune_entries cfg now m
      else
        (let e' = slide_window cfg now e
         in if ae_attempts e' = [] then prune_entries cfg now m else (k, e') # prune_entries cfg now m))"

definition prune_expired_entries :: "auth_config \<Rightarrow> int \<Rightarrow> auth_state \<Rightarrow> auth_state" where
  "prune_expired_entries cfg now st = st\<lparr>as_entries := prune_entries cfg now (as_entries st)\<rparr>"

definition check_overflow_lock :: "auth_config \<Rightarrow> int \<Rightarrow> auth_state \<Rightarrow> window_result option \<times> auth_state" where
  "check_overflow_lock cfg now st =
     (case as_overflow_locked_until st of
        None \<Rightarrow> (None, st)
      | Some u \<Rightarrow>
          if u = 0 then (None, st)
          else if now \<ge> u then (None, st\<lparr>as_overflow_locked_until := None\<rparr>)
          else
            (let st1 = (if length (as_entries st) \<ge> ac_max_entries cfg then prune_expired_entries cfg now st else st)
             in if length (as_entries st1) < ac_max_entries cfg then (None, st1\<lparr>as_overflow_locked_until := None\<rparr>)
                else (Some \<lparr>wr_allowed = False, wr_retry_after = u - now, wr_remaining = 0\<rparr>, st1)))"

fun evict_first_unlocked :: "int \<Rightarrow> (string, auth_entry) js_map \<Rightarrow> (string, auth_entry) js_map option" where
  "evict_first_unlocked now [] = None"
| "evict_first_unlocked now ((k, e) # m) =
     (if \<not> locked_at now e then Some m
      else map_option (\<lambda>m'. (k, e) # m') (evict_first_unlocked now m))"

definition enforce_max_entries :: "auth_config \<Rightarrow> int \<Rightarrow> auth_state \<Rightarrow> bool \<times> auth_state" where
  "enforce_max_entries cfg now st =
     (if length (as_entries st) < ac_max_entries cfg then (True, st)
      else
        (let st1 = prune_expired_entries cfg now st
         in if length (as_entries st1) < ac_max_entries cfg then (True, st1)
            else
              (case evict_first_unlocked now (as_entries st1) of
                 None \<Rightarrow> (False, st1)
               | Some m \<Rightarrow> (True, st1\<lparr>as_entries := m\<rparr>))))"

section \<open>Operations\<close>

definition auth_check ::
    "auth_config \<Rightarrow> auth_net \<Rightarrow> auth_client \<Rightarrow> int \<Rightarrow> auth_state \<Rightarrow> window_result \<times> auth_state" where
  "auth_check cfg net c now st =
     (let free = \<lparr>wr_allowed = True, wr_retry_after = 0, wr_remaining = ac_max_attempts cfg\<rparr>;
          k = auth_key net c
      in if is_exempt cfg net c then (free, st)
         else
           (case js_get (as_entries st) k of
              None \<Rightarrow>
                (case check_overflow_lock cfg now st of
                   (Some r, st') \<Rightarrow> (r, st')
                 | (None, st') \<Rightarrow> (free, st'))
            | Some e \<Rightarrow>
                if locked_at now e then
                  (\<lparr>wr_allowed = False, wr_retry_after = the (ae_locked_until e) - now, wr_remaining = 0\<rparr>, st)
                else
                  (let e1 = (case ae_locked_until e of
                               Some u \<Rightarrow> if u \<noteq> 0 then e\<lparr>ae_locked_until := None, ae_attempts := []\<rparr> else e
                             | None \<Rightarrow> e);
                       e2 = slide_window cfg now e1;
                       remaining = max 0 (ac_max_attempts cfg - int (length (ae_attempts e2)))
                   in (\<lparr>wr_allowed = remaining > 0, wr_retry_after = 0, wr_remaining = remaining\<rparr>,
                       put_entry k e2 st))))"

text \<open>The tail of \<open>recordFailure\<close>, once the client has an entry.\<close>

definition count_failure :: "auth_config \<Rightarrow> int \<Rightarrow> auth_entry \<Rightarrow> auth_entry" where
  "count_failure cfg now e =
     (let e1 = slide_window cfg now e;
          e2 = e1\<lparr>ae_attempts := ae_attempts e1 @ [now]\<rparr>
      in if int (length (ae_attempts e2)) \<ge> ac_max_attempts cfg
         then e2\<lparr>ae_locked_until := Some (now + ac_lockout_ms cfg)\<rparr> else e2)"

definition record_failure ::
    "auth_config \<Rightarrow> auth_net \<Rightarrow> auth_client \<Rightarrow> int \<Rightarrow> auth_state \<Rightarrow> auth_state" where
  "record_failure cfg net c now st =
     (let k = auth_key net c
      in if is_exempt cfg net c then st
         else
           (case js_get (as_entries st) k of
              Some e \<Rightarrow> if locked_at now e then st else put_entry k (count_failure cfg now e) st
            | None \<Rightarrow>
                (case enforce_max_entries cfg now st of
                   (False, st') \<Rightarrow>
                     st'\<lparr>as_overflow_locked_until :=
                       Some (max (case as_overflow_locked_until st' of Some u \<Rightarrow> u | None \<Rightarrow> 0) (now + ac_lockout_ms cfg))\<rparr>
                 | (True, st') \<Rightarrow>
                     put_entry k (count_failure cfg now \<lparr>ae_attempts = [], ae_locked_until = None\<rparr>) st')))"

definition auth_reset :: "auth_net \<Rightarrow> auth_client \<Rightarrow> auth_state \<Rightarrow> auth_state" where
  "auth_reset net c st = st\<lparr>as_entries := js_delete (auth_key net c) (as_entries st)\<rparr>"

definition auth_size :: "auth_state \<Rightarrow> nat" where
  "auth_size st = length (as_entries st)"

definition auth_dispose :: "auth_state \<Rightarrow> auth_state" where
  "auth_dispose st = empty_auth_state"

datatype auth_call = ACheck auth_client | AFailure auth_client | AReset auth_client | APrune | ADispose

fun auth_step :: "auth_config \<Rightarrow> auth_net \<Rightarrow> auth_state \<Rightarrow> int \<times> auth_call \<Rightarrow> auth_state" where
  "auth_step cfg net st (now, ACheck c) = snd (auth_check cfg net c now st)"
| "auth_step cfg net st (now, AFailure c) = record_failure cfg net c now st"
| "auth_step cfg net st (now, AReset c) = auth_reset net c st"
| "auth_step cfg net st (now, APrune) = prune_expired_entries cfg now st"
| "auth_step cfg net st (now, ADispose) = auth_dispose st"

section \<open>The map of entries\<close>

definition auth_ok :: "auth_config \<Rightarrow> auth_state \<Rightarrow> bool" where
  "auth_ok cfg st \<longleftrightarrow> js_wf (as_entries st) \<and> length (as_entries st) \<le> ac_max_entries cfg"

lemma prune_entries_subset: "set (js_keys (prune_entries cfg now m)) \<subseteq> set (js_keys m)"
proof (induction m)
  case (Cons p m)
  then show ?case by (cases p) (auto simp: Let_def)
qed simp

lemma prune_entries_wf: "js_wf m \<Longrightarrow> js_wf (prune_entries cfg now m)"
proof (induction m)
  case (Cons p m)
  then show ?case using prune_entries_subset [of cfg now m] by (cases p) (auto simp: Let_def)
qed simp

lemma prune_entries_length: "length (prune_entries cfg now m) \<le> length m"
proof (induction m)
  case (Cons p m)
  then show ?case by (cases p) (simp add: Let_def)
qed simp

lemma prune_entries_get:
  "js_wf m \<Longrightarrow> js_get (prune_entries cfg now m) k =
     (case js_get m k of
        None \<Rightarrow> None
      | Some e \<Rightarrow> if locked_at now e then Some e
                  else if ae_attempts (slide_window cfg now e) = [] then None else Some (slide_window cfg now e))"
proof (induction m)
  case (Cons p m)
  obtain k' e where p: "p = (k', e)" by (cases p)
  have "js_get m k' = None" using Cons.prems by (simp add: p js_get_None_keys)
  then show ?case using Cons by (auto simp: p Let_def)
qed simp

lemma evict_first_unlocked_Some:
  "evict_first_unlocked now m = Some m' \<Longrightarrow> js_wf m \<Longrightarrow>
   js_wf m' \<and> Suc (length m') = length m \<and> set (js_keys m') \<subseteq> set (js_keys m) \<and>
   (\<forall>k e. js_get m k = Some e \<and> locked_at now e \<longrightarrow> js_get m' k = Some e)"
proof (induction m arbitrary: m')
  case (Cons p m)
  obtain k e where p: "p = (k, e)" by (cases p)
  show ?case
  proof (cases "locked_at now e")
    case False
    then have "m' = m" using Cons.prems by (simp add: p)
    then show ?thesis using Cons.prems False by (auto simp: p)
  next
    case True
    then obtain m1 where m1: "evict_first_unlocked now m = Some m1" "m' = (k, e) # m1"
      using Cons.prems by (auto simp: p)
    with Cons.IH [OF m1(1)] Cons.prems True show ?thesis by (auto simp: p)
  qed
qed simp

lemma enforce_max_entries_props:
  assumes ok: "auth_ok cfg st" and e: "enforce_max_entries cfg now st = (b, st')"
  shows "auth_ok cfg st'" and "b \<Longrightarrow> 0 < ac_max_entries cfg \<Longrightarrow> length (as_entries st') < ac_max_entries cfg"
    and "set (js_keys (as_entries st')) \<subseteq> set (js_keys (as_entries st))"
    and "js_get (as_entries st) k = Some en \<Longrightarrow> locked_at now en \<Longrightarrow> js_get (as_entries st') k = Some en"
    and "as_overflow_locked_until st' = as_overflow_locked_until st"
proof -
  let ?p = "prune_entries cfg now (as_entries st)"
  have wf: "js_wf ?p" and len: "length ?p \<le> ac_max_entries cfg"
    using ok prune_entries_wf prune_entries_length [of cfg now "as_entries st"] by (auto simp: auth_ok_def)
  have get: "js_get ?p k = Some en" if "js_get (as_entries st) k = Some en" "locked_at now en"
    using ok that by (simp add: prune_entries_get auth_ok_def)
  consider "st' = st" "b \<longrightarrow> length (as_entries st) < ac_max_entries cfg"
    | "st' = prune_expired_entries cfg now st" "b \<longrightarrow> length ?p < ac_max_entries cfg"
    | m where "evict_first_unlocked now ?p = Some m" "st' = (prune_expired_entries cfg now st)\<lparr>as_entries := m\<rparr>"
  proof (cases "length (as_entries st) < ac_max_entries cfg")
    case True
    then show ?thesis using e that(1) by (simp add: enforce_max_entries_def)
  next
    case full: False
    show ?thesis
    proof (cases "length ?p < ac_max_entries cfg")
      case True
      then show ?thesis using e full that(2) by (simp add: enforce_max_entries_def Let_def prune_expired_entries_def)
    next
      case False
      then show ?thesis using e full that(2,3)
        by (cases "evict_first_unlocked now ?p") (simp_all add: enforce_max_entries_def Let_def prune_expired_entries_def)
    qed
  qed
  then have all: "auth_ok cfg st' \<and> (b \<longrightarrow> 0 < ac_max_entries cfg \<longrightarrow> length (as_entries st') < ac_max_entries cfg) \<and>
      set (js_keys (as_entries st')) \<subseteq> set (js_keys (as_entries st)) \<and>
      (js_get (as_entries st) k = Some en \<and> locked_at now en \<longrightarrow> js_get (as_entries st') k = Some en) \<and>
      as_overflow_locked_until st' = as_overflow_locked_until st"
  proof cases
    case 1
    then show ?thesis using ok by simp
  next
    case 2
    then show ?thesis
      using wf len get prune_entries_subset [of cfg now "as_entries st"] by (auto simp: auth_ok_def prune_expired_entries_def)
  next
    case (3 m)
    then show ?thesis
      using evict_first_unlocked_Some [OF 3(1) wf] len get
        subset_trans [OF _ prune_entries_subset [of cfg now "as_entries st"], of "set (js_keys m)"]
      by (simp add: auth_ok_def prune_expired_entries_def)
  qed
  show "auth_ok cfg st'" using all by blast
  show "b \<Longrightarrow> 0 < ac_max_entries cfg \<Longrightarrow> length (as_entries st') < ac_max_entries cfg" using all by blast
  show "set (js_keys (as_entries st')) \<subseteq> set (js_keys (as_entries st))" using all by blast
  show "js_get (as_entries st) k = Some en \<Longrightarrow> locked_at now en \<Longrightarrow> js_get (as_entries st') k = Some en" using all by blast
  show "as_overflow_locked_until st' = as_overflow_locked_until st" using all by blast
qed

lemma check_overflow_lock_entries:
  "as_entries (snd (check_overflow_lock cfg now st)) = as_entries st \<or>
   as_entries (snd (check_overflow_lock cfg now st)) = prune_entries cfg now (as_entries st)"
  by (auto simp: check_overflow_lock_def Let_def prune_expired_entries_def split: option.splits)

lemma auth_check_snd:
  "as_entries (snd (auth_check cfg net c now st)) = as_entries st \<or>
   as_entries (snd (auth_check cfg net c now st)) = prune_entries cfg now (as_entries st) \<or>
   (\<exists>e e'. js_get (as_entries st) (auth_key net c) = Some e \<and> \<not> locked_at now e \<and>
      as_entries (snd (auth_check cfg net c now st)) = js_set (auth_key net c) e' (as_entries st))"
  using check_overflow_lock_entries [of cfg now st]
  by (auto simp: auth_check_def Let_def put_entry_def split: option.splits prod.splits if_splits)

lemma auth_check_keys:
  "fst ` set (as_entries (snd (auth_check cfg net c now st))) \<subseteq> fst ` set (as_entries st)"
  using auth_check_snd [of cfg net c now st]
proof (elim disjE exE conjE)
  assume "as_entries (snd (auth_check cfg net c now st)) = prune_entries cfg now (as_entries st)"
  then show ?thesis using prune_entries_subset [of cfg now "as_entries st"] by simp
next
  fix e e'
  assume "js_get (as_entries st) (auth_key net c) = Some e"
    and "as_entries (snd (auth_check cfg net c now st)) = js_set (auth_key net c) e' (as_entries st)"
  then show ?thesis using js_get_key [of "as_entries st" "auth_key net c"] by simp
qed simp

lemma auth_step_ok [step_inv]:
  assumes ok: "auth_ok cfg st" and pos: "0 < ac_max_entries cfg"
  shows "auth_ok cfg (auth_step cfg net st e)"
proof -
  obtain now op where e: "e = (now, op)" by (cases e)
  have prune: "auth_ok cfg (st\<lparr>as_entries := prune_entries cfg now (as_entries st)\<rparr>)"
    using ok prune_entries_wf prune_entries_length [of cfg now "as_entries st"] by (auto simp: auth_ok_def)
  have put: "auth_ok cfg (put_entry k en s)" if "auth_ok cfg s"
    "k \<in> set (js_keys (as_entries s)) \<or> length (as_entries s) < ac_max_entries cfg" for k en s
    using that by (auto simp: auth_ok_def put_entry_def length_js_set)
  show ?thesis
  proof (cases op)
    case (ACheck c)
    have k: "auth_key net c \<in> set (js_keys (as_entries st))" if "js_get (as_entries st) (auth_key net c) = Some en" for en
      using that by (metis js_get_None_keys option.distinct(1))
    show ?thesis
      using auth_check_snd [of cfg net c now st] ok prune k by (auto simp: e ACheck auth_ok_def length_js_set)
  next
    case (AFailure c)
    show ?thesis
    proof (cases "js_get (as_entries st) (auth_key net c)")
      case None
      obtain b st' where m: "enforce_max_entries cfg now st = (b, st')" by (cases "enforce_max_entries cfg now st")
      note p = enforce_max_entries_props [OF ok m]
      show ?thesis using p(1,2) ok pos put [of st' "auth_key net c"]
        by (cases b) (auto simp: e AFailure record_failure_def Let_def None m auth_ok_def)
    next
      case (Some en)
      then have "auth_key net c \<in> set (js_keys (as_entries st))" by (metis js_get_None_keys option.distinct(1))
      then show ?thesis using ok put [of st "auth_key net c"] by (simp add: e AFailure record_failure_def Let_def Some)
    qed
  next
    case (AReset c)
    then show ?thesis using ok length_js_delete_le [of "auth_key net c" "as_entries st"]
      by (auto simp: e auth_reset_def auth_ok_def)
  next
    case APrune
    then show ?thesis using prune by (simp add: e prune_expired_entries_def)
  next
    case ADispose
    then show ?thesis by (simp add: e auth_dispose_def empty_auth_state_def auth_ok_def)
  qed
qed


section \<open>Lockouts\<close>

text \<open>What an operation makes of the entry of one key: nothing, while the key is locked.\<close>

definition auth_touches :: "auth_net \<Rightarrow> string \<Rightarrow> auth_call \<Rightarrow> bool" where
  "auth_touches net k op = (case op of AReset c \<Rightarrow> auth_key net c = k | ADispose \<Rightarrow> True | _ \<Rightarrow> False)"

lemma locked_entry_kept [step_inv]:
  assumes ok: "auth_ok cfg st" and g: "js_get (as_entries st) k = Some en" and l: "locked_at now en"
    and t: "\<not> auth_touches net k op"
  shows "js_get (as_entries (auth_step cfg net st (now, op))) k = Some en"
proof (cases op)
  case (ACheck c)
  have "js_get (prune_entries cfg now (as_entries st)) k = Some en"
    using ok g l by (simp add: prune_entries_get auth_ok_def)
  then show ?thesis using auth_check_snd [of cfg net c now st] g l by (auto simp: ACheck)
next
  case (AFailure c)
  show ?thesis
  proof (cases "js_get (as_entries st) (auth_key net c)")
    case None
    obtain b st' where m: "enforce_max_entries cfg now st = (b, st')" by (cases "enforce_max_entries cfg now st")
    show ?thesis
      using enforce_max_entries_props(4) [OF ok m g l] None g
      by (cases b) (auto simp: AFailure record_failure_def Let_def m put_entry_def)
  next
    case (Some e2)
    then show ?thesis using g l by (auto simp: AFailure record_failure_def Let_def put_entry_def)
  qed
next
  case (AReset c)
  then show ?thesis using g t by (simp add: auth_touches_def auth_reset_def)
next
  case APrune
  then show ?thesis using ok g l by (simp add: prune_expired_entries_def prune_entries_get auth_ok_def)
next
  case ADispose
  then show ?thesis using t by (simp add: auth_touches_def)
qed

interpretation auth_machine: invariant_machine "auth_step cfg net" "\<lambda>st. auth_ok cfg st \<and> 0 < ac_max_entries cfg"
  for cfg net
  by unfold_locales (simp add: auth_step_ok)

lemma locked_run:
  assumes "auth_ok cfg st" and "0 < ac_max_entries cfg" and "js_get (as_entries st) k = Some en"
    and "ae_locked_until en = Some u" and "u \<noteq> 0" and "\<forall>e \<in> set es. fst e < u \<and> \<not> auth_touches net k (snd e)"
  shows "js_get (as_entries (foldl (auth_step cfg net) st es)) k = Some en"
  using assms
proof (induction es arbitrary: st)
  case (Cons e es)
  obtain now op where e: "e = (now, op)" by (cases e)
  have "js_get (as_entries (auth_step cfg net st e)) k = Some en"
    unfolding e by (rule locked_entry_kept) (use Cons.prems in \<open>auto simp: e locked_at_def\<close>)
  then show ?case using Cons.IH [of "auth_step cfg net st e"] Cons.prems by (simp add: auth_step_ok)
qed simp

text \<open>C30: once a client is locked out until \<open>u\<close>, it stays locked out whatever happens before \<open>u\<close>: no
  failures, checks or prunes, of this client or of a flood of others that fills the map, lift or
  shorten the lockout, short of a reset of the client itself or the disposal of the limiter.
\<close>

theorem auth_lockout_survives_flood:
  assumes "auth_ok cfg st" and "0 < ac_max_entries cfg"
    and "js_get (as_entries st) (auth_key net c) = Some en" and "ae_locked_until en = Some u" and "u \<noteq> 0"
    and "\<forall>e \<in> set es. fst e < u \<and> \<not> auth_touches net (auth_key net c) (snd e)"
    and "\<not> is_exempt cfg net c" and "now < u"
  shows "fst (auth_check cfg net c now (foldl (auth_step cfg net) st es)) =
    \<lparr>wr_allowed = False, wr_retry_after = u - now, wr_remaining = 0\<rparr>"
  using locked_run [OF assms(1-6)] assms(4,5,7,8) by (simp add: auth_check_def Let_def locked_at_def)

abbreviation sample_auth_config :: auth_config where
  "sample_auth_config \<equiv> \<lparr>ac_max_attempts = 2, ac_window_ms = 100, ac_lockout_ms = 500, ac_exempt_loopback = True,
     ac_prune_interval_ms = 60000, ac_max_entries = 2\<rparr>"

abbreviation sample_auth_net :: auth_net where
  "sample_auth_net \<equiv> \<lparr>an_resolve = (\<lambda>ip. ip), an_loopback = (\<lambda>ip. ip = ''127.0.0.1'')\<rparr>"

theorem auth_lockout_survives_flood_witness:
  "fst (auth_check sample_auth_config sample_auth_net (Some ''a'', None) 600
      (foldl (auth_step sample_auth_config sample_auth_net)
        \<lparr>as_entries = [(''default:a'', \<lparr>ae_attempts = [200, 250], ae_locked_until = Some 750\<rparr>)],
         as_overflow_locked_until = None\<rparr>
        [(300, AFailure (Some ''b'', None)), (310, AFailure (Some ''c'', None)), (320, AFailure (Some ''d'', None)),
         (700, APrune)])) =
    \<lparr>wr_allowed = False, wr_retry_after = 750 - 600, wr_remaining = 0\<rparr>"
proof (rule auth_lockout_survives_flood [where en = "\<lparr>ae_attempts = [200, 250], ae_locked_until = Some 750\<rparr>"])
  have k: "auth_key sample_auth_net (Some ''a'', None) = ''default:a''" by code_simp
  show "js_get (as_entries \<lparr>as_entries = [(''default:a'', \<lparr>ae_attempts = [200, 250], ae_locked_until = Some 750\<rparr>)],
      as_overflow_locked_until = None\<rparr>) (auth_key sample_auth_net (Some ''a'', None)) =
      Some \<lparr>ae_attempts = [200, 250], ae_locked_until = Some 750\<rparr>"
    by (simp only: k auth_state.select_convs map_of_Cons_code fst_conv snd_conv refl if_True)
  show "\<not> is_exempt sample_auth_config sample_auth_net (Some ''a'', None)" by code_simp
qed (simp_all add: auth_ok_def auth_touches_def)

text \<open>no sequence of operations, at any times, makes the limiter track more clients than
  \<open>maxEntries\<close>, and each client has one entry.
\<close>

theorem auth_entries_bounded:
  "length (as_entries (foldl (auth_step (resolve_auth_config c) net) empty_auth_state es))
     \<le> ac_max_entries (resolve_auth_config c) \<and>
   js_wf (as_entries (foldl (auth_step (resolve_auth_config c) net) empty_auth_state es))"
proof -
  let ?cfg = "resolve_auth_config c"
  have "0 < ac_max_entries ?cfg"
    using resolve_integer_option_lower [where l = 1 and v = "rc_max_entries c" and f = 10000] by (simp add: resolve_auth_config_def)
  then have "auth_ok ?cfg empty_auth_state \<and> 0 < ac_max_entries ?cfg"
    by (simp add: auth_ok_def empty_auth_state_def)
  from auth_machine.run_keeps [OF this, of net es] show ?thesis by (simp add: auth_ok_def)
qed


section \<open>Brute force\<close>

definition failure_of :: "auth_config \<Rightarrow> auth_net \<Rightarrow> string \<Rightarrow> auth_call \<Rightarrow> bool" where
  "failure_of cfg net k op =
     (case op of AFailure c \<Rightarrow> auth_key net c = k \<and> \<not> is_exempt cfg net c | _ \<Rightarrow> False)"

fun call_keys :: "auth_net \<Rightarrow> auth_call \<Rightarrow> string list" where
  "call_keys net (AFailure c) = [auth_key net c]"
| "call_keys net _ = []"

text \<open>The map never has to make room when it only ever holds keys of \<open>ks\<close>.\<close>

definition auth_within :: "string list \<Rightarrow> auth_config \<Rightarrow> auth_state \<Rightarrow> bool" where
  "auth_within ks cfg st \<longleftrightarrow>
     auth_ok cfg st \<and> set (js_keys (as_entries st)) \<subseteq> set ks \<and> length (remdups ks) \<le> ac_max_entries cfg"

lemma auth_within_room:
  "auth_within ks cfg st \<Longrightarrow> k \<in> set ks \<Longrightarrow> js_get (as_entries st) k = None \<Longrightarrow>
   enforce_max_entries cfg now st = (True, st)"
  using js_room_within [of "as_entries st" ks k]
  by (simp add: auth_within_def auth_ok_def enforce_max_entries_def js_get_None_keys)

lemma record_failure_within:
  "auth_within ks cfg st \<Longrightarrow> auth_key net c \<in> set ks \<Longrightarrow>
   record_failure cfg net c now st =
     (if is_exempt cfg net c then st
      else (case js_get (as_entries st) (auth_key net c) of
              Some e \<Rightarrow> if locked_at now e then st else put_entry (auth_key net c) (count_failure cfg now e) st
            | None \<Rightarrow> put_entry (auth_key net c) (count_failure cfg now \<lparr>ae_attempts = [], ae_locked_until = None\<rparr>) st))"
  by (auto simp: record_failure_def Let_def auth_within_room split: option.splits)

lemma auth_within_step [step_inv]:
  assumes "auth_within ks cfg st" and "set (call_keys net op) \<subseteq> set ks" and "0 < ac_max_entries cfg"
  shows "auth_within ks cfg (auth_step cfg net st (now, op))"
proof -
  have "set (js_keys (as_entries (auth_step cfg net st (now, op)))) \<subseteq> set ks"
  proof (cases op)
    case (ACheck c)
    then show ?thesis
      using subset_trans [OF auth_check_keys [of cfg net c now st], of "set ks"] assms(1)
      by (simp add: auth_within_def)
  next
    case (AFailure c)
    then have k: "auth_key net c \<in> set ks" using assms(2) by simp
    have "fst ` set (as_entries st) \<subseteq> set ks" using assms(1) by (simp add: auth_within_def)
    then show ?thesis using k
      by (simp add: AFailure record_failure_within [OF assms(1) k] put_entry_def split: option.split)
  next
    case (AReset c)
    then show ?thesis using assms(1) by (auto simp: auth_within_def auth_reset_def)
  next
    case APrune
    then show ?thesis using prune_entries_subset [of cfg now "as_entries st"] assms(1)
      by (simp add: auth_within_def prune_expired_entries_def subset_trans)
  next
    case ADispose
    then show ?thesis by (simp add: auth_dispose_def empty_auth_state_def)
  qed
  then show ?thesis using assms auth_step_ok [of cfg st net "(now, op)"] by (auto simp: auth_within_def)
qed

text \<open>The key \<open>k\<close> has at least \<open>n\<close> failures since \<open>a\<close> on its account, or is locked.\<close>

definition attempts_since :: "int \<Rightarrow> auth_entry \<Rightarrow> nat" where
  "attempts_since a e = length (filter (\<lambda>t. a \<le> t) (ae_attempts e))"

definition on_account :: "auth_config \<Rightarrow> int \<Rightarrow> string \<Rightarrow> nat \<Rightarrow> auth_state \<Rightarrow> bool" where
  "on_account cfg a k n st \<longleftrightarrow>
     (case js_get (as_entries st) k of
        None \<Rightarrow> n = 0
      | Some e \<Rightarrow>
          (case ae_locked_until e of
             None \<Rightarrow> n \<le> attempts_since a e \<and> int (length (ae_attempts e)) < ac_max_attempts cfg
           | Some u \<Rightarrow> a + ac_lockout_ms cfg \<le> u))"

lemma slide_window_since:
  assumes "a \<le> now" and "now < a + ac_window_ms cfg"
  shows "attempts_since a (slide_window cfg now e) = attempts_since a e"
proof -
  have "filter (\<lambda>t. a \<le> t) (filter (\<lambda>t. now - ac_window_ms cfg < t) ts) = filter (\<lambda>t. a \<le> t) ts" for ts :: "int list"
    using assms(2) by (induction ts) auto
  then show ?thesis by (simp add: attempts_since_def slide_window_def)
qed

lemma attempts_since_empty: "ae_attempts e = [] \<Longrightarrow> attempts_since a e = 0"
  by (simp add: attempts_since_def)

lemma on_account_prune:
  assumes "auth_ok cfg st" and "on_account cfg a k n st" and "a \<le> now" and "now < a + ac_window_ms cfg"
    and "0 < a" and "now < a + ac_lockout_ms cfg"
    and "as_entries st' = prune_entries cfg now (as_entries st)"
  shows "on_account cfg a k n st'"
proof (cases "js_get (as_entries st) k")
  case None
  then show ?thesis using assms(1,2,7) by (simp add: on_account_def prune_entries_get auth_ok_def)
next
  case (Some e)
  have len: "length (ae_attempts (slide_window cfg now e)) \<le> length (ae_attempts e)" by (simp add: slide_window_def)
  have lu: "ae_locked_until (slide_window cfg now e) = ae_locked_until e" by (simp add: slide_window_def)
  show ?thesis
    using assms Some len lu slide_window_since [OF assms(3,4), of e] attempts_since_empty [of "slide_window cfg now e" a]
    by (cases "ae_locked_until e") (auto simp: on_account_def prune_entries_get auth_ok_def locked_at_def)
qed

lemma count_failure_account:
  assumes "ae_locked_until e = None" and "n \<le> attempts_since a e" and "a \<le> now" and "now < a + ac_window_ms cfg"
  shows "on_account cfg a k (Suc n) (put_entry k (count_failure cfg now e) st)"
  using assms slide_window_since [OF assms(3,4), of e]
  by (auto simp: on_account_def put_entry_def count_failure_def Let_def attempts_since_def slide_window_def)


lemma on_account_step:
  assumes w: "auth_within ks cfg st" and acc: "on_account cfg a k n st" and a: "0 < a" "a \<le> now"
    and now: "now < a + ac_window_ms cfg" "now < a + ac_lockout_ms cfg"
    and t: "\<not> auth_touches net k op" and ks: "set (call_keys net op) \<subseteq> set ks"
  shows "on_account cfg a k (n + (if failure_of cfg net k op then 1 else 0)) (auth_step cfg net st (now, op))"
proof -
  have ok: "auth_ok cfg st" using w by (simp add: auth_within_def)
  have lock: "locked_at now e" if "js_get (as_entries st) k = Some e" "ae_locked_until e \<noteq> None" for e
    using acc that a now(2) by (auto simp: on_account_def locked_at_def)
  note prune = on_account_prune [OF ok acc a(2) now(1) a(1) now(2)]
  show ?thesis
  proof (cases op)
    case (ACheck c)
    consider "as_entries (snd (auth_check cfg net c now st)) = as_entries st"
      | "as_entries (snd (auth_check cfg net c now st)) = prune_entries cfg now (as_entries st)"
      | e where "js_get (as_entries st) (auth_key net c) = Some e" "\<not> locked_at now e"
          "\<not> is_exempt cfg net c"
      using auth_check_snd [of cfg net c now st] by (cases "is_exempt cfg net c") (simp add: auth_check_def, blast)
    then show ?thesis
    proof cases
      case 1
      then show ?thesis using acc by (simp add: ACheck failure_of_def on_account_def)
    next
      case 2
      then show ?thesis using prune [of "snd (auth_check cfg net c now st)"] by (simp add: ACheck failure_of_def)
    next
      case (3 e)
      show ?thesis
      proof (cases "auth_key net c = k")
        case True
        then have n: "ae_locked_until e = None" using lock [of e] 3(1,2) by blast
        have "snd (auth_check cfg net c now st) = put_entry k (slide_window cfg now e) st"
          using 3(1,2,3) True n by (simp add: auth_check_def Let_def)
        moreover have "length (ae_attempts (slide_window cfg now e)) \<le> length (ae_attempts e)" by (simp add: slide_window_def)
        moreover have "ae_locked_until (slide_window cfg now e) = None" using n by (simp add: slide_window_def)
        ultimately show ?thesis
          using acc 3(1) True n slide_window_since [OF a(2) now(1), of e]
          by (simp add: ACheck failure_of_def on_account_def put_entry_def)
      next
        case False
        then show ?thesis using acc 3
          by (simp add: ACheck failure_of_def on_account_def auth_check_def Let_def put_entry_def)
      qed
    qed
  next
    case (AFailure c)
    have kc: "auth_key net c \<in> set ks" using ks by (simp add: AFailure)
    show ?thesis
    proof (cases "is_exempt cfg net c \<or> auth_key net c \<noteq> k")
      case True
      then show ?thesis using acc
        by (auto simp: AFailure failure_of_def record_failure_within [OF w kc] on_account_def put_entry_def split: option.split)
    next
      case False
      then have k: "auth_key net c = k" "\<not> is_exempt cfg net c" by auto
      show ?thesis
      proof (cases "js_get (as_entries st) k")
        case None
        then show ?thesis
          using acc k count_failure_account [of "\<lparr>ae_attempts = [], ae_locked_until = None\<rparr>" 0 a now cfg k st] a now
          by (simp add: AFailure failure_of_def record_failure_within [OF w kc] on_account_def)
      next
        case (Some e)
        show ?thesis
        proof (cases "ae_locked_until e")
          case None
          then show ?thesis
            using acc k Some count_failure_account [of e n a now cfg k st] a now
            by (simp add: AFailure failure_of_def record_failure_within [OF w kc] on_account_def locked_at_def)
        next
          case (Some u)
          then show ?thesis using acc k lock \<open>js_get (as_entries st) k = Some e\<close>
            by (simp add: AFailure failure_of_def record_failure_within [OF w kc] on_account_def)
        qed
      qed
    qed
  next
    case (AReset c)
    then show ?thesis using acc t by (simp add: failure_of_def on_account_def auth_reset_def auth_touches_def)
  next
    case APrune
    then show ?thesis using prune [of "prune_expired_entries cfg now st"] by (simp add: failure_of_def prune_expired_entries_def)
  next
    case ADispose
    then show ?thesis using t by (simp add: auth_touches_def)
  qed
qed

lemma on_account_run:
  assumes "auth_within ks cfg st" and "on_account cfg a k n st" and "0 < a" and "0 < ac_max_entries cfg"
    and "\<forall>e \<in> set es. a \<le> fst e \<and> fst e < a + ac_window_ms cfg \<and> fst e < a + ac_lockout_ms cfg \<and>
      \<not> auth_touches net k (snd e) \<and> set (call_keys net (snd e)) \<subseteq> set ks"
  shows "on_account cfg a k (n + length (filter (\<lambda>e. failure_of cfg net k (snd e)) es)) (foldl (auth_step cfg net) st es)"
  using assms
proof (induction es arbitrary: st n)
  case (Cons e es)
  obtain now op where e: "e = (now, op)" by (cases e)
  let ?m = "n + (if failure_of cfg net k op then 1 else 0)"
  have "on_account cfg a k ?m (auth_step cfg net st e)"
    unfolding e by (rule on_account_step [OF Cons.prems(1,2,3)]) (use Cons.prems(5) in \<open>auto simp: e\<close>)
  then show ?case
    using Cons.IH [of "auth_step cfg net st e" ?m] Cons.prems auth_within_step [OF Cons.prems(1), of net op now]
    by (auto simp: e)
qed simp

text \<open>a client that fails \<open>maxAttempts\<close> times within one window is locked out: if no more than
  \<open>maxEntries\<close> clients failed and nobody reset this one, every later check of it is denied, until the
  lockout that started with its first failure would end.
\<close>

theorem brute_force_is_locked_out:
  assumes "auth_within ks cfg st" and "0 < ac_max_entries cfg" and "0 < a"
    and "js_get (as_entries st) (auth_key net c) = None" and "\<not> is_exempt cfg net c"
    and "\<forall>e \<in> set es. a \<le> fst e \<and> fst e < a + ac_window_ms cfg \<and> fst e < a + ac_lockout_ms cfg \<and>
      \<not> auth_touches net (auth_key net c) (snd e) \<and> set (call_keys net (snd e)) \<subseteq> set ks"
    and "1 \<le> ac_max_attempts cfg"
    and "ac_max_attempts cfg \<le> int (length (filter (\<lambda>e. failure_of cfg net (auth_key net c) (snd e)) es))"
    and "now < a + ac_lockout_ms cfg" and "0 \<le> ac_lockout_ms cfg"
  shows "\<not> wr_allowed (fst (auth_check cfg net c now (foldl (auth_step cfg net) st es)))"
proof -
  let ?st = "foldl (auth_step cfg net) st es"
  let ?n = "length (filter (\<lambda>e. failure_of cfg net (auth_key net c) (snd e)) es)"
  have "on_account cfg a (auth_key net c) 0 st" using assms(4) by (simp add: on_account_def)
  from on_account_run [OF assms(1) this assms(3,2,6)] have acc: "on_account cfg a (auth_key net c) ?n ?st" by simp
  have "attempts_since a e \<le> length (ae_attempts e)" for e by (simp add: attempts_since_def)
  then have few: "int ?n < ac_max_attempts cfg" if "?n \<le> attempts_since a e" "int (length (ae_attempts e)) < ac_max_attempts cfg" for e
    using that le_trans [OF that(1)] by (meson le_less_trans of_nat_le_iff)
  have "?n \<noteq> 0" using assms(7,8) by linarith
  then obtain e where e: "js_get (as_entries ?st) (auth_key net c) = Some e"
    using acc by (cases "js_get (as_entries ?st) (auth_key net c)") (auto simp: on_account_def)
  then obtain u where "ae_locked_until e = Some u" "a + ac_lockout_ms cfg \<le> u"
    using acc few [of e] assms(8) by (cases "ae_locked_until e") (auto simp: on_account_def)
  note e this
  then show ?thesis using assms(3,5,9,10) by (simp add: auth_check_def Let_def locked_at_def)
qed

theorem brute_force_is_locked_out_witness:
  "\<not> wr_allowed (fst (auth_check sample_auth_config sample_auth_net (Some ''a'', None) 400
      (foldl (auth_step sample_auth_config sample_auth_net) empty_auth_state
        [(200, AFailure (Some ''a'', None)), (210, AFailure (Some ''b'', None)), (215, APrune),
         (220, AFailure (Some ''a'', None))])))"
proof (rule brute_force_is_locked_out [where a = 200 and ks = "[''default:a'', ''default:b'']"])
  have k: "auth_key sample_auth_net (Some ''a'', None) = ''default:a''"
    "auth_key sample_auth_net (Some ''b'', None) = ''default:b''" by code_simp+
  have x: "\<not> is_exempt sample_auth_config sample_auth_net (Some ''a'', None)"
    "\<not> is_exempt sample_auth_config sample_auth_net (Some ''b'', None)" by code_simp+
  then show "\<not> is_exempt sample_auth_config sample_auth_net (Some ''a'', None)" by simp
  show "\<forall>e \<in> set [(200, AFailure (Some ''a'', None)), (210, AFailure (Some ''b'', None)), (215, APrune),
      (220, AFailure (Some ''a'', None))].
      200 \<le> fst e \<and> fst e < 200 + ac_window_ms sample_auth_config \<and> fst e < 200 + ac_lockout_ms sample_auth_config \<and>
      \<not> auth_touches sample_auth_net (auth_key sample_auth_net (Some ''a'', None)) (snd e) \<and>
      set (call_keys sample_auth_net (snd e)) \<subseteq> set [''default:a'', ''default:b'']"
    by (simp add: auth_touches_def k)
  show "ac_max_attempts sample_auth_config \<le> int (length (filter
      (\<lambda>e. failure_of sample_auth_config sample_auth_net (auth_key sample_auth_net (Some ''a'', None)) (snd e))
      [(200, AFailure (Some ''a'', None)), (210, AFailure (Some ''b'', None)), (215, APrune),
       (220, AFailure (Some ''a'', None))]))"
    by (simp add: failure_of_def k x)
qed (simp_all add: auth_within_def auth_ok_def empty_auth_state_def)

end
