(* ===== verification/Gateway_Auth.thy ===== *)
theory Gateway_Auth
  imports Origin_Check Auth_Limiter
begin

text \<open>
  Authorization of gateway connections: \<open>gateway/auth.ts\<close> and \<open>security/secret-equal.ts\<close>. The limiter is the one
  of \<open>Auth_Limiter\<close> over the addresses of \<open>Gateway_Net\<close>; a connection without limiter has no configuration of it.
  The clock is read twice, when the limiter is asked and when the outcome is recorded. The Tailscale daemon's
  answer to \<open>whois\<close> is a parameter. Headers are what Node hands over; an absent list of trusted proxies is the
  empty one, which the code treats alike. Modes are the four of the code's type, so that the closing branch of
  \<open>authorizeGatewayConnectCore\<close>, which no mode reaches, has no counterpart.
\<close>

section \<open>Comparing secrets\<close>

definition utf8_char :: "char \<Rightarrow> 8 word list" where
  "utf8_char c =
     (let n = (of_char c :: nat)
      in if n < 128 then [of_nat n] else [of_nat (192 + n div 64), of_nat (128 + n mod 64)])"

definition utf8_bytes :: "string \<Rightarrow> 8 word list" where
  "utf8_bytes s = concat (map utf8_char s)"

definition pad_secret_bytes :: "8 word list \<Rightarrow> nat \<Rightarrow> 8 word list" where
  "pad_secret_bytes bs n = (if length bs = n then bs else take n (bs @ replicate (n - length bs) 0))"

definition safe_equal_secret :: "string option \<Rightarrow> string option \<Rightarrow> bool" where
  "safe_equal_secret provided expected =
     (case (provided, expected) of
        (Some p, Some e) \<Rightarrow>
          (let pb = utf8_bytes p; eb = utf8_bytes e; n = max (length pb) (length eb)
           in if n = 0 then True
              else pad_secret_bytes pb n = pad_secret_bytes eb n \<and> length pb = length eb)
      | _ \<Rightarrow> False)"

section \<open>Configuration and requests\<close>

datatype auth_mode = ModeNone | ModeToken | ModePassword | ModeTrustedProxy

record trusted_proxy_config =
  tp_user_header :: string
  tp_required_headers :: "string list"
  tp_allow_users :: "string list"
  tp_allow_loopback :: bool

record resolved_auth =
  ra_mode :: auth_mode
  ra_token :: "string option"
  ra_password :: "string option"
  ra_allow_tailscale :: bool
  ra_trusted_proxy :: "trusted_proxy_config option"

record connect_auth =
  ca_token :: "string option"
  ca_password :: "string option"

datatype auth_surface = SurfaceHttp | SurfaceControlUi

record whois_identity =
  wi_login :: string
  wi_name :: "string option"

record origin_policy =
  bo_request_host :: "string option"
  bo_origin :: "string option"
  bo_allowed :: "string list"
  bo_host_fallback :: bool

record connect_params =
  cp_auth :: resolved_auth
  cp_connect :: "connect_auth option"
  cp_req :: "http_request option"
  cp_trusted_proxies :: "string list"
  cp_whois :: "string \<Rightarrow> whois_identity option"
  cp_limiter :: "auth_config option"
  cp_client_ip :: "string option"
  cp_scope :: "string option"
  cp_allow_real_ip :: bool
  cp_origin_policy :: "origin_policy option"

datatype auth_method =
  MethodNone | MethodToken | MethodPassword | MethodTailscale | MethodDeviceToken | MethodBootstrapToken | MethodTrustedProxy

record auth_result =
  ar_ok :: bool
  ar_method :: "auth_method option"
  ar_user :: "string option"
  ar_reason :: "string option"
  ar_rate_limited :: bool
  ar_retry_after :: "int option"

definition auth_granted :: "auth_method \<Rightarrow> string option \<Rightarrow> auth_result" where
  "auth_granted m u =
     \<lparr>ar_ok = True, ar_method = Some m, ar_user = u, ar_reason = None, ar_rate_limited = False, ar_retry_after = None\<rparr>"

definition auth_refused :: "string \<Rightarrow> auth_result" where
  "auth_refused r =
     \<lparr>ar_ok = False, ar_method = None, ar_user = None, ar_reason = Some r, ar_rate_limited = False, ar_retry_after = None\<rparr>"

text \<open>A truthy optional string: present and not empty.\<close>

definition truthy :: "string option \<Rightarrow> bool" where
  "truthy v = (case v of Some s \<Rightarrow> s \<noteq> [] | None \<Rightarrow> False)"

section \<open>The request's context\<close>

text \<open>A header in a truth test: an array is always true, a string when it is not empty.\<close>

definition header_truthy :: "header_value option \<Rightarrow> bool" where
  "header_truthy v = (case v of Some (One s) \<Rightarrow> s \<noteq> [] | Some (Many _) \<Rightarrow> True | None \<Rightarrow> False)"

text \<open>A header given to a string normalizer, for which an array is no string.\<close>

definition header_string :: "header_value option \<Rightarrow> string option" where
  "header_string v = (case v of Some (One s) \<Rightarrow> Some s | _ \<Rightarrow> None)"

definition has_forwarded_request_headers :: "http_request option \<Rightarrow> bool" where
  "has_forwarded_request_headers req =
     (case req of
        None \<Rightarrow> False
      | Some r \<Rightarrow>
          header_truthy (header r ''forwarded'') \<or> header_truthy (header r ''x-real-ip'') \<or>
          list_ex (\<lambda>h. prefix ''x-forwarded-'' (normalize_lowercase_string_or_empty (Some h))) (js_keys (hr_headers r)))"

definition is_local_direct_request :: "platform \<Rightarrow> http_request option \<Rightarrow> bool" where
  "is_local_direct_request np req =
     (case req of
        None \<Rightarrow> False
      | Some r \<Rightarrow> if \<not> has_forwarded_request_headers req then is_loopback_address np (hr_remote r) else False)"

record request_context =
  rq_limiter :: "auth_config option"
  rq_ip :: "string option"
  rq_scope :: string
  rq_local_direct :: bool

definition resolve_gateway_auth_request_context :: "platform \<Rightarrow> connect_params \<Rightarrow> request_context" where
  "resolve_gateway_auth_request_context np p =
     \<lparr>rq_limiter = cp_limiter p,
      rq_ip =
        (case cp_client_ip p of
           Some ip \<Rightarrow> Some ip
         | None \<Rightarrow>
             (case resolve_request_client_ip np (cp_req p) (cp_trusted_proxies p) (cp_allow_real_ip p) of
                Some ip \<Rightarrow> Some ip
              | None \<Rightarrow> Option.bind (cp_req p) hr_remote)),
      rq_scope = (case cp_scope p of Some s \<Rightarrow> s | None \<Rightarrow> ''shared-secret''),
      rq_local_direct = is_local_direct_request np (cp_req p)\<rparr>"

definition has_explicit_shared_secret_auth :: "connect_auth option \<Rightarrow> bool" where
  "has_explicit_shared_secret_auth c =
     (normalize_optional_string (Option.bind c ca_token) \<noteq> None \<or>
      normalize_optional_string (Option.bind c ca_password) \<noteq> None)"

section \<open>Tailscale\<close>

record tailscale_user =
  tu_login :: string
  tu_name :: string
  tu_profile_pic :: "string option"

definition normalize_login :: "string \<Rightarrow> string" where
  "normalize_login l = normalize_lowercase_string_or_empty (Some l)"

definition tailscale_trusted_proxies :: "string list" where
  "tailscale_trusted_proxies = [''127.0.0.1'', ''::1'']"

definition resolve_tailscale_client_ip :: "platform \<Rightarrow> http_request option \<Rightarrow> string option" where
  "resolve_tailscale_client_ip np req =
     (case req of
        None \<Rightarrow> None
      | Some r \<Rightarrow>
          resolve_client_ip np (Some (case hr_remote r of Some a \<Rightarrow> a | None \<Rightarrow> []))
            (header_value_of (header r ''x-forwarded-for'')) None tailscale_trusted_proxies False)"

definition get_tailscale_user :: "http_request option \<Rightarrow> tailscale_user option" where
  "get_tailscale_user req =
     (case req of
        None \<Rightarrow> None
      | Some r \<Rightarrow>
          (case normalize_optional_string (header_string (header r ''tailscale-user-login'')) of
             None \<Rightarrow> None
           | Some login \<Rightarrow>
               Some \<lparr>tu_login = login,
                 tu_name = (case normalize_optional_string (header_string (header r ''tailscale-user-name'')) of
                              Some n \<Rightarrow> n | None \<Rightarrow> login),
                 tu_profile_pic = normalize_optional_string (header_string (header r ''tailscale-user-profile-pic''))\<rparr>))"

definition has_tailscale_proxy_headers :: "http_request option \<Rightarrow> bool" where
  "has_tailscale_proxy_headers req =
     (case req of
        None \<Rightarrow> False
      | Some r \<Rightarrow>
          header_truthy (header r ''x-forwarded-for'') \<and> header_truthy (header r ''x-forwarded-proto'') \<and>
          header_truthy (header r ''x-forwarded-host''))"

definition is_tailscale_proxy_request :: "platform \<Rightarrow> http_request option \<Rightarrow> bool" where
  "is_tailscale_proxy_request np req =
     (case req of
        None \<Rightarrow> False
      | Some r \<Rightarrow> is_loopback_address np (hr_remote r) \<and> has_tailscale_proxy_headers req)"

definition resolve_verified_tailscale_user ::
    "platform \<Rightarrow> http_request option \<Rightarrow> (string \<Rightarrow> whois_identity option) \<Rightarrow> string + tailscale_user" where
  "resolve_verified_tailscale_user np req whois =
     (case get_tailscale_user req of
        None \<Rightarrow> Inl ''tailscale_user_missing''
      | Some u \<Rightarrow>
          if \<not> is_tailscale_proxy_request np req then Inl ''tailscale_proxy_missing''
          else
            (case resolve_tailscale_client_ip np req of
               None \<Rightarrow> Inl ''tailscale_whois_failed''
             | Some ip \<Rightarrow>
                 if ip = [] then Inl ''tailscale_whois_failed''
                 else
                   (case whois ip of
                      None \<Rightarrow> Inl ''tailscale_whois_failed''
                    | Some w \<Rightarrow>
                        if wi_login w = [] then Inl ''tailscale_whois_failed''
                        else if normalize_login (wi_login w) \<noteq> normalize_login (tu_login u) then Inl ''tailscale_user_mismatch''
                        else Inr \<lparr>tu_login = wi_login w,
                                  tu_name = (case wi_name w of Some n \<Rightarrow> n | None \<Rightarrow> tu_name u),
                                  tu_profile_pic = tu_profile_pic u\<rparr>)))"

section \<open>Startup checks\<close>

text \<open>The raw password of the configuration: absent, a string, or an object that refers to a provider.\<close>

datatype raw_secret = RawMissing | RawString string | RawReference

datatype auth_config_error =
  TokenNotConfigured | PasswordIsReference | PasswordNotConfigured | TrustedProxyMissing | UserHeaderEmpty | TokenBesideProxy

definition assert_gateway_auth_configured :: "resolved_auth \<Rightarrow> raw_secret \<Rightarrow> auth_config_error + unit" where
  "assert_gateway_auth_configured a raw =
     (if ra_mode a = ModeToken \<and> \<not> truthy (ra_token a) then
        (if ra_allow_tailscale a then Inr () else Inl TokenNotConfigured)
      else if ra_mode a = ModePassword \<and> \<not> truthy (ra_password a) then
        (if raw = RawReference then Inl PasswordIsReference else Inl PasswordNotConfigured)
      else if ra_mode a = ModeTrustedProxy then
        (case ra_trusted_proxy a of
           None \<Rightarrow> Inl TrustedProxyMissing
         | Some t \<Rightarrow>
             if tp_user_header t = [] \<or> js_trim (tp_user_header t) = [] then Inl UserHeaderEmpty
             else if truthy (ra_token a) then Inl TokenBesideProxy
             else Inr ())
      else Inr ())"

section \<open>Trusted proxies and origins\<close>

text \<open>The first required header that is missing or blank.\<close>

definition blank_header :: "http_request \<Rightarrow> string \<Rightarrow> bool" where
  "blank_header r h =
     (case header_value_of (header r (normalize_lowercase_string_or_empty (Some h))) of
        None \<Rightarrow> True
      | Some v \<Rightarrow> v = [] \<or> js_trim v = [])"

definition authorize_trusted_proxy ::
    "platform \<Rightarrow> http_request option \<Rightarrow> string list \<Rightarrow> trusted_proxy_config \<Rightarrow> string + string" where
  "authorize_trusted_proxy np req trusted cfg =
     (case req of
        None \<Rightarrow> Inl ''trusted_proxy_no_request''
      | Some r \<Rightarrow>
          if \<not> truthy (hr_remote r) \<or> \<not> is_trusted_proxy_address np (hr_remote r) trusted
          then Inl ''trusted_proxy_untrusted_source''
          else
            (let loopback = is_loopback_address np (hr_remote r);
                 local_match = resolve_local_interface_address_match np (hr_remote r)
             in if loopback \<and> \<not> tp_allow_loopback cfg then Inl ''trusted_proxy_loopback_source''
                else if \<not> loopback \<and> local_match = None then Inl ''trusted_proxy_local_interface_check_failed''
                else if \<not> loopback \<and> local_match = Some True then Inl ''trusted_proxy_local_interface_source''
                else
                  (case find (blank_header r) (tp_required_headers cfg) of
                     Some h \<Rightarrow> Inl (''trusted_proxy_missing_header_'' @ h)
                   | None \<Rightarrow>
                       if blank_header r (tp_user_header cfg) then Inl ''trusted_proxy_user_missing''
                       else
                         (let user = js_trim (the (header_value_of
                            (header r (normalize_lowercase_string_or_empty (Some (tp_user_header cfg))))))
                          in if tp_allow_users cfg \<noteq> [] \<and> user \<notin> set (tp_allow_users cfg)
                             then Inl ''trusted_proxy_user_not_allowed''
                             else Inr user))))"

definition authorize_http_browser_origin ::
    "platform \<Rightarrow> auth_surface \<Rightarrow> origin_policy option \<Rightarrow> bool \<Rightarrow> string \<Rightarrow> auth_result option" where
  "authorize_http_browser_origin np surface policy is_local reason =
     (if surface \<noteq> SurfaceHttp then None
      else case policy of
        None \<Rightarrow> None
      | Some b \<Rightarrow>
          (let origin = map_option js_trim (bo_origin b)
           in if \<not> truthy origin then None
              else case check_browser_origin np
                     \<lparr>op_request_host = bo_request_host b, op_origin = origin, op_allowed = bo_allowed b,
                      op_host_fallback = bo_host_fallback b, op_local_client = Some is_local\<rparr> of
                OriginOk _ \<Rightarrow> None
              | OriginRefused _ \<Rightarrow> Some (auth_refused reason)))"

section \<open>Shared secrets and the limiter\<close>

definition platform_net :: "platform \<Rightarrow> auth_net" where
  "platform_net np =
     \<lparr>an_resolve = (\<lambda>ip. resolve_client_ip np ip None None [] False),
      an_loopback = (\<lambda>ip. is_loopback_address np (Some ip))\<rparr>"

definition context_client :: "request_context \<Rightarrow> auth_client" where
  "context_client x = (rq_ip x, Some (rq_scope x))"

definition note_failure :: "platform \<Rightarrow> request_context \<Rightarrow> int \<Rightarrow> auth_state \<Rightarrow> auth_state" where
  "note_failure np x now st =
     (case rq_limiter x of
        None \<Rightarrow> st
      | Some cfg \<Rightarrow> record_failure cfg (platform_net np) (context_client x) now st)"

definition note_success :: "platform \<Rightarrow> request_context \<Rightarrow> auth_state \<Rightarrow> auth_state" where
  "note_success np x st =
     (case rq_limiter x of None \<Rightarrow> st | Some _ \<Rightarrow> auth_reset (platform_net np) (context_client x) st)"

definition authorize_token_auth ::
    "platform \<Rightarrow> request_context \<Rightarrow> string option \<Rightarrow> string option \<Rightarrow> int \<Rightarrow> auth_state \<Rightarrow> auth_result \<times> auth_state" where
  "authorize_token_auth np x auth_token connect_token now st =
     (if \<not> truthy auth_token then (auth_refused ''token_missing_config'', st)
      else if \<not> truthy connect_token then (auth_refused ''token_missing'', st)
      else if \<not> safe_equal_secret connect_token auth_token
      then (auth_refused ''token_mismatch'', note_failure np x now st)
      else (auth_granted MethodToken None, note_success np x st))"

definition authorize_password_auth ::
    "platform \<Rightarrow> request_context \<Rightarrow> string option \<Rightarrow> string option \<Rightarrow> int \<Rightarrow> auth_state \<Rightarrow> auth_result \<times> auth_state" where
  "authorize_password_auth np x auth_password connect_password now st =
     (if \<not> truthy auth_password then (auth_refused ''password_missing_config'', st)
      else if \<not> truthy connect_password then (auth_refused ''password_missing'', st)
      else if \<not> safe_equal_secret connect_password auth_password
      then (auth_refused ''password_mismatch'', note_failure np x now st)
      else (auth_granted MethodPassword None, note_success np x st))"

definition reject_if_rate_limited ::
    "platform \<Rightarrow> request_context \<Rightarrow> int \<Rightarrow> auth_state \<Rightarrow> auth_result option \<times> auth_state" where
  "reject_if_rate_limited np x now st =
     (case rq_limiter x of
        None \<Rightarrow> (None, st)
      | Some cfg \<Rightarrow>
          (case auth_check cfg (platform_net np) (context_client x) now st of
             (r, st') \<Rightarrow>
               if wr_allowed r then (None, st')
               else (Some ((auth_refused ''rate_limited'')\<lparr>ar_rate_limited := True, ar_retry_after := Some (wr_retry_after r)\<rparr>), st')))"

section \<open>The decision\<close>

definition should_allow_tailscale_header_auth :: "auth_surface \<Rightarrow> bool" where
  "should_allow_tailscale_header_auth s \<longleftrightarrow> s = SurfaceControlUi"

definition authorize_gateway_connect_core ::
    "platform \<Rightarrow> auth_surface \<Rightarrow> connect_params \<Rightarrow> int \<Rightarrow> int \<Rightarrow> auth_state \<Rightarrow> auth_result \<times> auth_state" where
  "authorize_gateway_connect_core np surface p now later st =
     (let a = cp_auth p;
          x = resolve_gateway_auth_request_context np p;
          connect_token = Option.bind (cp_connect p) ca_token;
          connect_password = Option.bind (cp_connect p) ca_password
      in case ra_mode a of
           ModeTrustedProxy \<Rightarrow>
             (case ra_trusted_proxy a of
                None \<Rightarrow> (auth_refused ''trusted_proxy_config_missing'', st)
              | Some t \<Rightarrow>
                  if cp_trusted_proxies p = [] then (auth_refused ''trusted_proxy_no_proxies_configured'', st)
                  else
                    (case authorize_trusted_proxy np (cp_req p) (cp_trusted_proxies p) t of
                       Inr user \<Rightarrow>
                         (case authorize_http_browser_origin np surface (cp_origin_policy p) False
                                 ''trusted_proxy_origin_not_allowed'' of
                            Some r \<Rightarrow> (r, st)
                          | None \<Rightarrow> (auth_granted MethodTrustedProxy (Some user), st))
                     | Inl reason \<Rightarrow>
                         if rq_local_direct x \<and> truthy (ra_password a) \<and> truthy connect_password then
                           (case reject_if_rate_limited np x now st of
                              (Some r, st') \<Rightarrow> (r, st')
                            | (None, st') \<Rightarrow> authorize_password_auth np x (ra_password a) connect_password later st')
                         else (auth_refused reason, st)))
         | ModeNone \<Rightarrow>
             (case authorize_http_browser_origin np surface (cp_origin_policy p) (rq_local_direct x) ''origin_not_allowed'' of
                Some r \<Rightarrow> (r, st)
              | None \<Rightarrow> (auth_granted MethodNone None, st))
         | _ \<Rightarrow>
             (case reject_if_rate_limited np x now st of
                (Some r, st') \<Rightarrow> (r, st')
              | (None, st') \<Rightarrow>
                  (case (if should_allow_tailscale_header_auth surface \<and> ra_allow_tailscale a \<and> \<not> rq_local_direct x \<and>
                            \<not> has_explicit_shared_secret_auth (cp_connect p)
                         then (case resolve_verified_tailscale_user np (cp_req p) (cp_whois p) of
                                 Inr u \<Rightarrow> Some u
                               | Inl _ \<Rightarrow> None)
                         else None) of
                     Some u \<Rightarrow> (auth_granted MethodTailscale (Some (tu_login u)), note_success np x st')
                   | None \<Rightarrow>
                       if ra_mode a = ModeToken then authorize_token_auth np x (ra_token a) connect_token later st'
                       else authorize_password_auth np x (ra_password a) connect_password later st')))"

text \<open>\<open>authorizeGatewayConnect\<close> runs the core at once, or behind earlier attempts of the same client.\<close>

definition serialized_attempt :: "platform \<Rightarrow> auth_surface \<Rightarrow> connect_params \<Rightarrow> bool" where
  "serialized_attempt np surface p \<longleftrightarrow>
     cp_limiter p \<noteq> None \<and> should_allow_tailscale_header_auth surface \<and> ra_allow_tailscale (cp_auth p) \<and>
     \<not> rq_local_direct (resolve_gateway_auth_request_context np p)"

definition authorize_http_gateway_connect ::
    "platform \<Rightarrow> connect_params \<Rightarrow> int \<Rightarrow> int \<Rightarrow> auth_state \<Rightarrow> auth_result \<times> auth_state" where
  "authorize_http_gateway_connect np p = authorize_gateway_connect_core np SurfaceHttp p"

definition authorize_ws_control_ui_gateway_connect ::
    "platform \<Rightarrow> connect_params \<Rightarrow> int \<Rightarrow> int \<Rightarrow> auth_state \<Rightarrow> auth_result \<times> auth_state" where
  "authorize_ws_control_ui_gateway_connect np p = authorize_gateway_connect_core np SurfaceControlUi p"

end
