(* ===== verification/Gateway_Auth_Props.thy ===== *)
theory Gateway_Auth_Props
  imports Gateway_Auth
begin

text \<open>
  What gateway authorization guarantees: the comparison of secrets decides equality, a connection is granted
  exactly by the policy stated here without the code's order of tests, guessing is bounded by the limiter,
  and a forwarded chain cannot be forged from the left.
\<close>

section \<open>Secrets\<close>

lemma utf8_char_nonempty [simp]: "utf8_char c \<noteq> []"
  by (simp add: utf8_char_def Let_def)

lemma utf8_char_prefix_free:
  assumes "utf8_char c @ xs = utf8_char d @ ys"
  shows "c = d \<and> xs = ys"
proof -
  let ?n = "of_char c :: nat" and ?m = "of_char d :: nat"
  have b: "?n < 256" "?m < 256" by (simp_all add: of_char_def)
  have w: "(word_of_nat i :: 8 word) = word_of_nat j \<longleftrightarrow> i = j" if "i < 256" "j < 256" for i j
    using that by (simp add: word_of_nat_eq_iff take_bit_nat_eq_self)
  have small: "?n div 64 < 4" "?m div 64 < 4" "?n mod 64 < 64" "?m mod 64 < 64"
    using b by (simp_all add: less_mult_imp_div_less)
  have "?n = ?m \<and> xs = ys"
  proof (cases "?n < 128"; cases "?m < 128")
    assume "\<not> ?n < 128" "\<not> ?m < 128"
    then have "?n div 64 = ?m div 64" "?n mod 64 = ?m mod 64" "xs = ys"
      using assms small by (auto simp: utf8_char_def Let_def w simp del: of_nat_add)
    then show ?thesis by (metis div_mult_mod_eq)
  qed (use assms b small in \<open>auto simp: utf8_char_def Let_def w simp del: of_nat_add\<close>)
  then show ?thesis by (metis char_of_char)
qed

lemma utf8_bytes_inject: "utf8_bytes s = utf8_bytes t \<longleftrightarrow> s = t"
proof
  show "utf8_bytes s = utf8_bytes t \<Longrightarrow> s = t"
  proof (induction s arbitrary: t)
    case Nil
    then show ?case by (cases t) (simp_all add: utf8_bytes_def)
  next
    case (Cons c s)
    then obtain d u where t: "t = d # u" by (cases t) (simp_all add: utf8_bytes_def)
    have "utf8_char c @ utf8_bytes s = utf8_char d @ utf8_bytes u" using Cons.prems by (simp add: t utf8_bytes_def)
    from utf8_char_prefix_free [OF this] Cons.IH show ?case by (simp add: t)
  qed
qed simp

lemma pad_secret_bytes_full [simp]: "length bs = n \<Longrightarrow> pad_secret_bytes bs n = bs"
  by (simp add: pad_secret_bytes_def)

lemma safe_equal_secret_iff: "safe_equal_secret (Some p) (Some e) \<longleftrightarrow> p = e"
  using utf8_bytes_inject [of p e]
  by (cases "length (utf8_bytes p) = length (utf8_bytes e)") (auto simp: safe_equal_secret_def Let_def)

section \<open>The policy\<close>

text \<open>The presented secret is the configured one, and there is one.\<close>

definition secret_matches :: "string option \<Rightarrow> string option \<Rightarrow> bool" where
  "secret_matches presented configured \<longleftrightarrow> presented = configured \<and> truthy configured"

lemma secret_matches_iff:
  "truthy configured \<and> truthy presented \<and> safe_equal_secret presented configured \<longleftrightarrow> secret_matches presented configured"
  by (auto simp: secret_matches_def truthy_def safe_equal_secret_iff split: option.splits)

text \<open>A proxy vouches for a user.\<close>

definition proxy_vouches :: "platform \<Rightarrow> http_request option \<Rightarrow> string list \<Rightarrow> trusted_proxy_config \<Rightarrow> string \<Rightarrow> bool" where
  "proxy_vouches np req trusted cfg user \<longleftrightarrow>
     (\<exists>r v. req = Some r \<and> truthy (hr_remote r) \<and> is_trusted_proxy_address np (hr_remote r) trusted \<and>
        (if is_loopback_address np (hr_remote r) then tp_allow_loopback cfg
         else resolve_local_interface_address_match np (hr_remote r) = Some False) \<and>
        (\<forall>h \<in> set (tp_required_headers cfg). \<not> blank_header r h) \<and>
        header_value_of (header r (normalize_lowercase_string_or_empty (Some (tp_user_header cfg)))) = Some v \<and>
        user = js_trim v \<and> user \<noteq> [] \<and> (tp_allow_users cfg = [] \<or> user \<in> set (tp_allow_users cfg)))"

lemma authorize_trusted_proxy_iff:
  "authorize_trusted_proxy np req trusted cfg = Inr user \<longleftrightarrow> proxy_vouches np req trusted cfg user"
proof (cases req)
  case None
  then show ?thesis by (simp add: authorize_trusted_proxy_def proxy_vouches_def)
next
  case (Some r)
  let ?uh = "header_value_of (header r (normalize_lowercase_string_or_empty (Some (tp_user_header cfg))))"
  have find: "find (blank_header r) hs = None \<longleftrightarrow> (\<forall>h \<in> set hs. \<not> blank_header r h)" for hs
    by (auto simp: find_None_iff)
  have blank: "blank_header r (tp_user_header cfg) \<longleftrightarrow> (case ?uh of None \<Rightarrow> True | Some v \<Rightarrow> js_trim v = [])"
    by (auto simp: blank_header_def split: option.splits)
  show ?thesis
    by (cases "find (blank_header r) (tp_required_headers cfg)"; cases "?uh";
        cases "resolve_local_interface_address_match np (hr_remote r)")
      (auto simp: Some authorize_trusted_proxy_def proxy_vouches_def Let_def find [symmetric] blank)
qed

text \<open>The Tailscale daemon vouches for a user: \<open>tailscale serve\<close> on this host forwarded the request, and the
  daemon knows the client's address as the login that the header names.\<close>

definition tailscale_vouches :: "platform \<Rightarrow> connect_params \<Rightarrow> string \<Rightarrow> bool" where
  "tailscale_vouches np p login \<longleftrightarrow>
     (\<exists>r u ip w. cp_req p = Some r \<and> get_tailscale_user (Some r) = Some u \<and> is_loopback_address np (hr_remote r) \<and>
        (\<forall>h \<in> {''x-forwarded-for'', ''x-forwarded-proto'', ''x-forwarded-host''}. header_truthy (header r h)) \<and>
        resolve_tailscale_client_ip np (Some r) = Some ip \<and> ip \<noteq> [] \<and> cp_whois p ip = Some w \<and>
        login = wi_login w \<and> login \<noteq> [] \<and> normalize_login login = normalize_login (tu_login u))"

lemma resolve_verified_tailscale_user_iff:
  "(\<exists>u. resolve_verified_tailscale_user np (cp_req p) (cp_whois p) = Inr u \<and> tu_login u = login) \<longleftrightarrow>
   tailscale_vouches np p login"
proof (cases "cp_req p")
  case None
  then show ?thesis by (simp add: resolve_verified_tailscale_user_def tailscale_vouches_def get_tailscale_user_def)
next
  case (Some r)
  show ?thesis
  proof (cases "get_tailscale_user (Some r)")
    case None
    then show ?thesis by (simp add: Some resolve_verified_tailscale_user_def tailscale_vouches_def)
  next
    case u: (Some u)
    show ?thesis
    proof (cases "resolve_tailscale_client_ip np (Some r)")
      case None
      then show ?thesis by (simp add: Some u resolve_verified_tailscale_user_def tailscale_vouches_def)
    next
      case ip: (Some ip)
      show ?thesis
        by (cases "cp_whois p ip")
          (auto simp: Some u ip resolve_verified_tailscale_user_def tailscale_vouches_def is_tailscale_proxy_request_def
            has_tailscale_proxy_headers_def)
    qed
  qed
qed

text \<open>A browser's origin is no obstacle.\<close>

definition origin_passes :: "platform \<Rightarrow> auth_surface \<Rightarrow> connect_params \<Rightarrow> bool \<Rightarrow> bool" where
  "origin_passes np surface p is_local \<longleftrightarrow>
     surface = SurfaceControlUi \<or>
     (case cp_origin_policy p of
        None \<Rightarrow> True
      | Some b \<Rightarrow>
          \<not> truthy (map_option js_trim (bo_origin b)) \<or>
          (\<exists>m. check_browser_origin np
             \<lparr>op_request_host = bo_request_host b, op_origin = map_option js_trim (bo_origin b), op_allowed = bo_allowed b,
              op_host_fallback = bo_host_fallback b, op_local_client = Some is_local\<rparr> = OriginOk m))"

lemma authorize_http_browser_origin_iff:
  "authorize_http_browser_origin np surface (cp_origin_policy p) is_local reason =
     (if origin_passes np surface p is_local then None else Some (auth_refused reason))"
  by (cases surface) (auto simp: authorize_http_browser_origin_def origin_passes_def Let_def split: option.splits origin_result.splits)

definition rate_limited :: "platform \<Rightarrow> connect_params \<Rightarrow> int \<Rightarrow> auth_state \<Rightarrow> bool" where
  "rate_limited np p now st \<longleftrightarrow>
     (case cp_limiter p of
        None \<Rightarrow> False
      | Some cfg \<Rightarrow> \<not> wr_allowed (fst (auth_check cfg (platform_net np)
          (context_client (resolve_gateway_auth_request_context np p)) now st)))"

abbreviation presented_token :: "connect_params \<Rightarrow> string option" where
  "presented_token p \<equiv> Option.bind (cp_connect p) ca_token"

abbreviation presented_password :: "connect_params \<Rightarrow> string option" where
  "presented_password p \<equiv> Option.bind (cp_connect p) ca_password"

definition tailscale_applies :: "platform \<Rightarrow> auth_surface \<Rightarrow> connect_params \<Rightarrow> bool" where
  "tailscale_applies np surface p \<longleftrightarrow>
     surface = SurfaceControlUi \<and> ra_allow_tailscale (cp_auth p) \<and> \<not> is_local_direct_request np (cp_req p) \<and>
     \<not> has_explicit_shared_secret_auth (cp_connect p)"

text \<open>Whether a method grants a connection to a user.\<close>

fun grants :: "platform \<Rightarrow> auth_surface \<Rightarrow> connect_params \<Rightarrow> int \<Rightarrow> auth_state \<Rightarrow> auth_method \<Rightarrow> string option \<Rightarrow> bool" where
  "grants np surface p now st MethodNone u \<longleftrightarrow>
     ra_mode (cp_auth p) = ModeNone \<and> u = None \<and> origin_passes np surface p (is_local_direct_request np (cp_req p))"
| "grants np surface p now st MethodTrustedProxy u \<longleftrightarrow>
     ra_mode (cp_auth p) = ModeTrustedProxy \<and> cp_trusted_proxies p \<noteq> [] \<and> origin_passes np surface p False \<and>
     (\<exists>t v. ra_trusted_proxy (cp_auth p) = Some t \<and> u = Some v \<and> proxy_vouches np (cp_req p) (cp_trusted_proxies p) t v)"
| "grants np surface p now st MethodTailscale u \<longleftrightarrow>
     ra_mode (cp_auth p) \<in> {ModeToken, ModePassword} \<and> \<not> rate_limited np p now st \<and> tailscale_applies np surface p \<and>
     (\<exists>login. u = Some login \<and> tailscale_vouches np p login)"
| "grants np surface p now st MethodToken u \<longleftrightarrow>
     ra_mode (cp_auth p) = ModeToken \<and> u = None \<and> \<not> rate_limited np p now st \<and>
     secret_matches (presented_token p) (ra_token (cp_auth p)) \<and>
     (tailscale_applies np surface p \<longrightarrow> \<not> (\<exists>login. tailscale_vouches np p login))"
| "grants np surface p now st MethodPassword u \<longleftrightarrow>
     u = None \<and> \<not> rate_limited np p now st \<and> secret_matches (presented_password p) (ra_password (cp_auth p)) \<and>
     (ra_mode (cp_auth p) = ModePassword \<and> (tailscale_applies np surface p \<longrightarrow> \<not> (\<exists>login. tailscale_vouches np p login)) \<or>
      ra_mode (cp_auth p) = ModeTrustedProxy \<and> is_local_direct_request np (cp_req p) \<and> cp_trusted_proxies p \<noteq> [] \<and>
      (\<exists>t. ra_trusted_proxy (cp_auth p) = Some t \<and> \<not> (\<exists>v. proxy_vouches np (cp_req p) (cp_trusted_proxies p) t v)))"
| "grants np surface p now st m u \<longleftrightarrow> False"


lemma reject_if_rate_limited_eq:
  "x = resolve_gateway_auth_request_context np p \<Longrightarrow>
   fst (reject_if_rate_limited np x now st) =
     (if rate_limited np p now st
      then Some ((auth_refused ''rate_limited'')\<lparr>ar_rate_limited := True, ar_retry_after := Some (wr_retry_after
        (fst (auth_check (the (cp_limiter p)) (platform_net np) (context_client x) now st)))\<rparr>)
      else None)"
  by (auto simp: reject_if_rate_limited_def rate_limited_def resolve_gateway_auth_request_context_def split: option.splits prod.splits)

lemma granted_inject [simp]: "auth_granted m u = auth_granted m' u' \<longleftrightarrow> m = m' \<and> u = u'"
  by (simp add: auth_granted_def)

lemma ok_granted [simp]: "ar_ok (auth_granted m u)" "\<not> ar_ok (auth_refused r)"
  by (simp_all add: auth_granted_def auth_refused_def)

lemma refused_not_granted [simp]: "auth_refused r \<noteq> auth_granted m u" "auth_granted m u \<noteq> auth_refused r"
  by (simp_all add: auth_granted_def auth_refused_def)

lemma limited_not_granted [simp]:
  "(auth_refused r)\<lparr>ar_rate_limited := b, ar_retry_after := n\<rparr> \<noteq> auth_granted m u"
  "\<not> ar_ok ((auth_refused r)\<lparr>ar_rate_limited := b, ar_retry_after := n\<rparr>)"
  by (simp_all add: auth_granted_def auth_refused_def)

lemma authorize_token_auth_granted:
  "fst (authorize_token_auth np x t c later st) = auth_granted m u \<longleftrightarrow> m = MethodToken \<and> u = None \<and> secret_matches c t"
  "ar_ok (fst (authorize_token_auth np x t c later st)) \<longleftrightarrow> secret_matches c t"
  using secret_matches_iff [of t c] by (auto simp: authorize_token_auth_def)

lemma authorize_password_auth_granted:
  "fst (authorize_password_auth np x t c later st) = auth_granted m u \<longleftrightarrow> m = MethodPassword \<and> u = None \<and> secret_matches c t"
  "ar_ok (fst (authorize_password_auth np x t c later st)) \<longleftrightarrow> secret_matches c t"
  using secret_matches_iff [of t c] by (auto simp: authorize_password_auth_def)

lemma context_simps [simp]:
  "rq_local_direct (resolve_gateway_auth_request_context np p) = is_local_direct_request np (cp_req p)"
  "rq_limiter (resolve_gateway_auth_request_context np p) = cp_limiter p"
  by (simp_all add: resolve_gateway_auth_request_context_def)

text \<open>The Tailscale branch of the code: the login that the daemon vouches for, where the branch is open.\<close>

definition tailscale_login :: "platform \<Rightarrow> auth_surface \<Rightarrow> connect_params \<Rightarrow> string option" where
  "tailscale_login np surface p =
     (if tailscale_applies np surface p
      then (case resolve_verified_tailscale_user np (cp_req p) (cp_whois p) of Inr u \<Rightarrow> Some (tu_login u) | Inl _ \<Rightarrow> None)
      else None)"

lemma tailscale_login_iff:
  "tailscale_login np surface p = Some login \<longleftrightarrow> tailscale_applies np surface p \<and> tailscale_vouches np p login"
  using resolve_verified_tailscale_user_iff [of np p login]
  by (auto simp: tailscale_login_def split: sum.splits)

lemma core_shared_secret:
  assumes "ra_mode (cp_auth p) \<in> {ModeToken, ModePassword}" and x: "x = resolve_gateway_auth_request_context np p"
  shows "authorize_gateway_connect_core np surface p now later st =
    (case reject_if_rate_limited np x now st of
       (Some r, st') \<Rightarrow> (r, st')
     | (None, st') \<Rightarrow>
         (case tailscale_login np surface p of
            Some login \<Rightarrow> (auth_granted MethodTailscale (Some login), note_success np x st')
          | None \<Rightarrow>
              if ra_mode (cp_auth p) = ModeToken
              then authorize_token_auth np x (ra_token (cp_auth p)) (presented_token p) later st'
              else authorize_password_auth np x (ra_password (cp_auth p)) (presented_password p) later st'))"
proof -
  have ts: "map_option tu_login (if should_allow_tailscale_header_auth surface \<and> ra_allow_tailscale (cp_auth p) \<and>
        \<not> is_local_direct_request np (cp_req p) \<and> \<not> has_explicit_shared_secret_auth (cp_connect p)
      then (case resolve_verified_tailscale_user np (cp_req p) (cp_whois p) of Inr u \<Rightarrow> Some u | Inl _ \<Rightarrow> None)
      else None) = tailscale_login np surface p"
    by (auto simp: tailscale_login_def tailscale_applies_def should_allow_tailscale_header_auth_def split: sum.split)
  define o1 where "o1 = (if should_allow_tailscale_header_auth surface \<and> ra_allow_tailscale (cp_auth p) \<and>
        \<not> is_local_direct_request np (cp_req p) \<and> \<not> has_explicit_shared_secret_auth (cp_connect p)
      then (case resolve_verified_tailscale_user np (cp_req p) (cp_whois p) of Inr u \<Rightarrow> Some u | Inl _ \<Rightarrow> None)
      else None)"
  have o1: "tailscale_login np surface p = map_option tu_login o1" using ts by (simp add: o1_def)
  obtain q st' where r: "reject_if_rate_limited np x now st = (q, st')" by (cases "reject_if_rate_limited np x now st")
  have "authorize_gateway_connect_core np surface p now later st =
    (case q of
       Some r \<Rightarrow> (r, st')
     | None \<Rightarrow>
         (case o1 of
            Some u \<Rightarrow> (auth_granted MethodTailscale (Some (tu_login u)), note_success np x st')
          | None \<Rightarrow>
              if ra_mode (cp_auth p) = ModeToken
              then authorize_token_auth np x (ra_token (cp_auth p)) (presented_token p) later st'
              else authorize_password_auth np x (ra_password (cp_auth p)) (presented_password p) later st'))"
    using assms(1) r unfolding x
    by (elim insertE emptyE; simp only: authorize_gateway_connect_core_def Let_def context_simps o1_def [symmetric]; simp)
  then show ?thesis by (cases q; cases o1) (simp_all add: r o1)
qed

lemma core_trusted_proxy:
  assumes "ra_mode (cp_auth p) = ModeTrustedProxy" and x: "x = resolve_gateway_auth_request_context np p"
  shows "authorize_gateway_connect_core np surface p now later st =
    (case ra_trusted_proxy (cp_auth p) of
       None \<Rightarrow> (auth_refused ''trusted_proxy_config_missing'', st)
     | Some t \<Rightarrow>
         if cp_trusted_proxies p = [] then (auth_refused ''trusted_proxy_no_proxies_configured'', st)
         else
           (case authorize_trusted_proxy np (cp_req p) (cp_trusted_proxies p) t of
              Inr user \<Rightarrow>
                (if origin_passes np surface p False then auth_granted MethodTrustedProxy (Some user)
                 else auth_refused ''trusted_proxy_origin_not_allowed'', st)
            | Inl reason \<Rightarrow>
                if is_local_direct_request np (cp_req p) \<and> truthy (ra_password (cp_auth p)) \<and> truthy (presented_password p)
                then (case reject_if_rate_limited np x now st of
                        (Some r, st') \<Rightarrow> (r, st')
                      | (None, st') \<Rightarrow> authorize_password_auth np x (ra_password (cp_auth p)) (presented_password p) later st')
                else (auth_refused reason, st)))"
  using assms(1) unfolding x
  by (auto simp: authorize_gateway_connect_core_def Let_def authorize_http_browser_origin_iff
      split: option.splits sum.splits)

lemma core_none:
  assumes "ra_mode (cp_auth p) = ModeNone"
  shows "authorize_gateway_connect_core np surface p now later st =
    (if origin_passes np surface p (is_local_direct_request np (cp_req p)) then auth_granted MethodNone None
     else auth_refused ''origin_not_allowed'', st)"
  using assms by (simp add: authorize_gateway_connect_core_def Let_def authorize_http_browser_origin_iff)

lemma no_proxy_reason:
  "authorize_trusted_proxy np req trusted t = Inl reason \<Longrightarrow> \<not> proxy_vouches np req trusted t v"
  by (simp add: authorize_trusted_proxy_iff [symmetric])

lemma authorize_gateway_connect_grants:
  "fst (authorize_gateway_connect_core np surface p now later st) = auth_granted m u \<longleftrightarrow> grants np surface p now st m u"
proof -
  define x where "x = resolve_gateway_auth_request_context np p"
  note lim = reject_if_rate_limited_eq [OF x_def, of now st]
  have ts: "tailscale_login np surface p = None \<longleftrightarrow>
      (tailscale_applies np surface p \<longrightarrow> \<not> (\<exists>login. tailscale_vouches np p login))"
    using tailscale_login_iff [of np surface p] by (cases "tailscale_login np surface p") auto
  obtain o' st' where r: "reject_if_rate_limited np x now st = (o', st')" by (cases "reject_if_rate_limited np x now st")
  consider (none) "ra_mode (cp_auth p) = ModeNone" | (proxy) "ra_mode (cp_auth p) = ModeTrustedProxy"
    | (secret) "ra_mode (cp_auth p) \<in> {ModeToken, ModePassword}" by (cases "ra_mode (cp_auth p)") auto
  then show ?thesis
  proof cases
    case none
    then show ?thesis by (cases m) (auto simp: core_none)
  next
    case proxy
    note core = core_trusted_proxy [OF proxy x_def, of surface now later st]
    show ?thesis
    proof (cases "ra_trusted_proxy (cp_auth p)")
      case None
      then show ?thesis by (cases m) (simp_all add: core proxy)
    next
      case (Some t)
      show ?thesis
      proof (cases "authorize_trusted_proxy np (cp_req p) (cp_trusted_proxies p) t")
        case (Inr v)
        then have v: "proxy_vouches np (cp_req p) (cp_trusted_proxies p) t w \<longleftrightarrow> w = v" for w
          by (auto simp: authorize_trusted_proxy_iff [symmetric])
        show ?thesis by (cases m) (auto simp: core proxy Some Inr v)
      next
        case (Inl reason)
        note no = no_proxy_reason [OF Inl]
        have "truthy (ra_password (cp_auth p)) \<and> truthy (presented_password p)"
          if "secret_matches (presented_password p) (ra_password (cp_auth p))"
          using that by (simp add: secret_matches_def)
        then show ?thesis
          using lim r by (cases m; cases "rate_limited np p now st")
            (auto simp: core proxy Some Inl no authorize_password_auth_granted)
      qed
    qed
  next
    case secret
    note core = core_shared_secret [OF secret x_def, of surface now later st]
    show ?thesis
    proof (cases "rate_limited np p now st")
      case True
      then show ?thesis using lim r secret by (cases m) (auto simp: core)
    next
      case ok: False
      then have o': "o' = None" using lim r by simp
      show ?thesis
      proof (cases "tailscale_login np surface p")
        case None
        then show ?thesis
          using secret ok r ts tailscale_login_iff [of np surface p]
          by (cases m) (auto simp: core o' authorize_token_auth_granted authorize_password_auth_granted)
      next
        case (Some login)
        then have "tailscale_applies np surface p" "tailscale_vouches np p l \<longleftrightarrow> l = login" for l
          using tailscale_login_iff [of np surface p l] tailscale_login_iff [of np surface p login] by auto
        note ts = this
        have res: "fst (authorize_gateway_connect_core np surface p now later st) = auth_granted MethodTailscale (Some login)"
          by (simp add: core r o' Some)
        show ?thesis unfolding res using secret ok by (cases m) (auto simp: ts)
      qed
    qed
  qed
qed


lemma core_result_shape:
  "ar_ok (fst (authorize_gateway_connect_core np surface p now later st)) \<longleftrightarrow>
   (\<exists>m u. fst (authorize_gateway_connect_core np surface p now later st) = auth_granted m u)" (is "?ok \<longleftrightarrow> ?g")
proof
  define x where "x = resolve_gateway_auth_request_context np p"
  have lim: "\<not> ar_ok r" if "reject_if_rate_limited np x now st = (Some r, st')" for r st'
    using that by (auto simp: reject_if_rate_limited_def split: option.splits prod.splits if_splits)
  have tok: "ar_ok (fst (authorize_token_auth np x t c later s)) \<Longrightarrow> \<exists>m u. fst (authorize_token_auth np x t c later s) = auth_granted m u"
    "ar_ok (fst (authorize_password_auth np x t c later s)) \<Longrightarrow> \<exists>m u. fst (authorize_password_auth np x t c later s) = auth_granted m u"
    for t c s by (simp_all add: authorize_token_auth_granted authorize_password_auth_granted)
  assume ok: ?ok
  consider (none) "ra_mode (cp_auth p) = ModeNone" | (proxy) "ra_mode (cp_auth p) = ModeTrustedProxy"
    | (secret) "ra_mode (cp_auth p) \<in> {ModeToken, ModePassword}" by (cases "ra_mode (cp_auth p)") auto
  then show ?g
  proof cases
    case none
    then show ?thesis using ok by (auto simp: core_none split: if_splits)
  next
    case proxy
    show ?thesis using ok lim tok(2) unfolding core_trusted_proxy [OF proxy x_def]
      by (fastforce split: option.splits sum.splits prod.splits if_splits)
  next
    case secret
    show ?thesis using ok lim tok unfolding core_shared_secret [OF secret x_def]
      by (fastforce split: option.splits sum.splits prod.splits if_splits)
  qed
qed auto


section \<open>What an attempt asks of the limiter\<close>

text \<open>A refusal that tells a wrong guess from a right one.\<close>

definition wrong_guess :: "auth_result \<Rightarrow> bool" where
  "wrong_guess r \<longleftrightarrow> ar_reason r \<in> {Some ''token_mismatch'', Some ''password_mismatch''}"

definition attempt_client :: "platform \<Rightarrow> connect_params \<Rightarrow> auth_client" where
  "attempt_client np p = context_client (resolve_gateway_auth_request_context np p)"

definition attempt_key :: "platform \<Rightarrow> connect_params \<Rightarrow> string" where
  "attempt_key np p = auth_key (platform_net np) (attempt_client np p)"

text \<open>The calls an attempt with outcome \<open>r\<close> makes: none, a check, or a check and the note of its outcome.\<close>

definition attempt_calls :: "auth_client \<Rightarrow> int \<Rightarrow> int \<Rightarrow> bool \<Rightarrow> auth_result \<Rightarrow> (int \<times> auth_call) list \<Rightarrow> bool" where
  "attempt_calls c now later allowed r es \<longleftrightarrow>
     (es = [] \<or> es = [(now, ACheck c)]) \<and> \<not> wrong_guess r \<or>
     es = [(now, ACheck c), (later, AFailure c)] \<and> wrong_guess r \<and> allowed \<or>
     es = [(now, ACheck c), (later, AReset c)] \<and> ar_ok r"

lemma wrong_guess_simps [simp]:
  "\<not> wrong_guess (auth_granted m u)"
  "wrong_guess (auth_refused s) \<longleftrightarrow> s = ''token_mismatch'' \<or> s = ''password_mismatch''"
  "\<not> wrong_guess ((auth_refused ''rate_limited'')\<lparr>ar_rate_limited := b, ar_retry_after := n\<rparr>)"
  by (auto simp: wrong_guess_def auth_granted_def auth_refused_def)

lemma trusted_proxy_reason:
  "authorize_trusted_proxy np req trusted t = Inl s \<Longrightarrow> prefix ''trusted_proxy_'' s"
  by (auto simp: authorize_trusted_proxy_def Let_def split: option.splits if_splits)

lemma noted_calls:
  assumes "rq_limiter x = Some cfg" and c: "c = context_client x"
    and "y \<in> {(auth_refused ''token_mismatch'', note_failure np x later s'), (auth_refused ''password_mismatch'', note_failure np x later s'),
      (auth_granted m u, note_success np x s')} \<or> snd y = s' \<and> \<not> wrong_guess (fst y)"
  shows "\<exists>es. attempt_calls c now later True (fst y) es \<and>
      snd y = foldl (auth_step cfg (platform_net np)) s' (tl es) \<and> es \<noteq> [] \<and> hd es = (now, ACheck c)"
  using assms(3)
proof (elim disjE insertE conjE)
  assume "y = (auth_granted m u, note_success np x s')"
  then show ?thesis using assms(1,2)
    by (intro exI [of _ "[(now, ACheck c), (later, AReset c)]"]) (simp add: attempt_calls_def note_success_def)
next
  assume "snd y = s'" "\<not> wrong_guess (fst y)"
  then show ?thesis by (intro exI [of _ "[(now, ACheck c)]"]) (simp add: attempt_calls_def)
qed (use assms(1,2) in \<open>auto intro!: exI [of _ "[(now, ACheck c), (later, AFailure c)]"] simp: attempt_calls_def note_failure_def\<close>)

lemma secret_calls:
  assumes "rq_limiter x = Some cfg" and c: "c = context_client x"
  shows "\<exists>es. attempt_calls c now later True (fst (authorize_token_auth np x t k later s')) es \<and>
      snd (authorize_token_auth np x t k later s') = foldl (auth_step cfg (platform_net np)) s' (tl es) \<and> es \<noteq> [] \<and> hd es = (now, ACheck c)"
    and "\<exists>es. attempt_calls c now later True (fst (authorize_password_auth np x t k later s')) es \<and>
      snd (authorize_password_auth np x t k later s') = foldl (auth_step cfg (platform_net np)) s' (tl es) \<and> es \<noteq> [] \<and> hd es = (now, ACheck c)"
  by (rule noted_calls [OF assms, of _ np later s' MethodToken None]; auto simp: authorize_token_auth_def)
    (rule noted_calls [OF assms, of _ np later s' MethodPassword None]; auto simp: authorize_password_auth_def)

lemma limited_then:
  assumes cfg: "cp_limiter p = Some cfg" and x: "x = resolve_gateway_auth_request_context np p"
    and c: "c = attempt_client np p" and al: "al = wr_allowed (fst (auth_check cfg (platform_net np) c now st))"
    and f: "\<And>s'. \<exists>es. attempt_calls c now later True (fst (f s')) es \<and>
      snd (f s') = foldl (auth_step cfg (platform_net np)) s' (tl es) \<and> es \<noteq> [] \<and> hd es = (now, ACheck c)"
    and core: "core = (case reject_if_rate_limited np x now st of (Some r, st') \<Rightarrow> (r, st') | (None, st') \<Rightarrow> f st')"
  shows "\<exists>es. attempt_calls c now later al (fst core) es \<and> snd core = foldl (auth_step cfg (platform_net np)) st es"
proof -
  obtain r st' where ch: "auth_check cfg (platform_net np) c now st = (r, st')" by (cases "auth_check cfg (platform_net np) c now st")
  have lim: "reject_if_rate_limited np x now st =
      (if al then None else Some ((auth_refused ''rate_limited'')\<lparr>ar_rate_limited := True, ar_retry_after := Some (wr_retry_after r)\<rparr>), st')"
    using cfg ch by (simp add: x reject_if_rate_limited_def al c attempt_client_def)
  show ?thesis
  proof (cases al)
    case True
    obtain es where es: "attempt_calls c now later True (fst (f st')) es" "es \<noteq> []" "hd es = (now, ACheck c)"
      "snd (f st') = foldl (auth_step cfg (platform_net np)) st' (tl es)" using f [of st'] by blast
    then have "foldl (auth_step cfg (platform_net np)) st es = foldl (auth_step cfg (platform_net np)) st' (tl es)"
      using ch by (cases es) auto
    then show ?thesis using es True by (auto simp: core lim)
  next
    case False
    then have "attempt_calls c now later al (fst core) [(now, ACheck c)]"
      "snd core = foldl (auth_step cfg (platform_net np)) st [(now, ACheck c)]"
      by (simp_all add: core lim attempt_calls_def ch)
    then show ?thesis by blast
  qed
qed

lemma core_calls:
  assumes cfg: "cp_limiter p = Some cfg"
  shows "\<exists>es. attempt_calls (attempt_client np p) now later
        (wr_allowed (fst (auth_check cfg (platform_net np) (attempt_client np p) now st)))
        (fst (authorize_gateway_connect_core np surface p now later st)) es \<and>
      snd (authorize_gateway_connect_core np surface p now later st) = foldl (auth_step cfg (platform_net np)) st es"
    (is "\<exists>es. attempt_calls ?c now later ?al ?r es \<and> ?st = _ es")
proof -
  define x where "x = resolve_gateway_auth_request_context np p"
  have xc: "rq_limiter x = Some cfg" "?c = context_client x" using cfg by (simp_all add: x_def attempt_client_def)
  note sec = secret_calls [OF xc, of now later np]
  note lim = limited_then [OF cfg x_def refl refl]
  have free: ?thesis if "snd (authorize_gateway_connect_core np surface p now later st) = st" "\<not> wrong_guess ?r"
    using that by (intro exI [of _ "[]"]) (simp add: attempt_calls_def)
  consider (none) "ra_mode (cp_auth p) = ModeNone" | (proxy) "ra_mode (cp_auth p) = ModeTrustedProxy"
    | (secret) "ra_mode (cp_auth p) \<in> {ModeToken, ModePassword}" by (cases "ra_mode (cp_auth p)") auto
  then show ?thesis
  proof cases
    case none
    show ?thesis by (rule free) (simp_all add: core_none [OF none])
  next
    case proxy
    note core = core_trusted_proxy [OF proxy x_def, of surface now later st]
    show ?thesis
    proof (cases "ra_trusted_proxy (cp_auth p)")
      case None
      show ?thesis by (rule free) (simp_all add: core None)
    next
      case t: (Some t)
      show ?thesis
      proof (cases "authorize_trusted_proxy np (cp_req p) (cp_trusted_proxies p) t")
        case (Inr v)
        show ?thesis by (rule free) (simp_all add: core t Inr)
      next
        case (Inl reason)
        have nr: "reason \<noteq> ''token_mismatch''" "reason \<noteq> ''password_mismatch''" using trusted_proxy_reason [OF Inl] by auto
        show ?thesis
        proof (cases "cp_trusted_proxies p \<noteq> [] \<and> is_local_direct_request np (cp_req p) \<and> truthy (ra_password (cp_auth p)) \<and>
            truthy (presented_password p)")
          case True
          show ?thesis by (rule lim [OF sec(2)]) (simp add: core t Inl True)
        next
          case False
          show ?thesis by (rule free) (use False nr in \<open>auto simp: core t Inl\<close>)
        qed
      qed
    qed
  next
    case secret
    note core = core_shared_secret [OF secret x_def, of surface now later st]
    define f where "f = (\<lambda>st'. case tailscale_login np surface p of
            Some login \<Rightarrow> (auth_granted MethodTailscale (Some login), note_success np x st')
          | None \<Rightarrow>
              if ra_mode (cp_auth p) = ModeToken
              then authorize_token_auth np x (ra_token (cp_auth p)) (presented_token p) later st'
              else authorize_password_auth np x (ra_password (cp_auth p)) (presented_password p) later st')"
    have f: "\<exists>es. attempt_calls ?c now later True (fst (f s')) es \<and>
      snd (f s') = foldl (auth_step cfg (platform_net np)) s' (tl es) \<and> es \<noteq> [] \<and> hd es = (now, ACheck ?c)" for s'
    proof (cases "tailscale_login np surface p")
      case None
      then show ?thesis using sec by (simp add: f_def)
    next
      case (Some login)
      then show ?thesis using xc
        by (intro exI [of _ "[(now, ACheck ?c), (later, AReset ?c)]"]) (simp add: f_def attempt_calls_def note_success_def)
    qed
    show ?thesis by (rule lim [OF f]) (unfold core f_def, rule refl)
  qed
qed

section \<open>Guesses are bounded\<close>

lemma allowed_account:
  assumes acc: "on_account cfg a (auth_key net c) n st" and ex: "\<not> is_exempt cfg net c"
    and al: "wr_allowed (fst (auth_check cfg net c now st))" and "0 < a" and "now < a + ac_lockout_ms cfg"
    and "1 \<le> ac_max_attempts cfg" and "a \<le> now"
  shows "int n < ac_max_attempts cfg"
proof (cases "js_get (as_entries st) (auth_key net c)")
  case None
  then show ?thesis using acc assms(6) by (simp add: on_account_def)
next
  case (Some e)
  show ?thesis
  proof (cases "ae_locked_until e")
    case None
    have "attempts_since a e \<le> length (ae_attempts e)" by (simp add: attempts_since_def)
    then show ?thesis using acc Some None by (simp add: on_account_def)
  next
    case (Some u)
    then have "a + ac_lockout_ms cfg \<le> u" using acc \<open>js_get _ _ = Some e\<close> by (simp add: on_account_def)
    then have "locked_at now e" using assms(4,5,7) Some by (auto simp: locked_at_def)
    then show ?thesis using al ex \<open>js_get _ _ = Some e\<close> by (simp add: auth_check_def Let_def)
  qed
qed

type_synonym connect_attempt = "auth_surface \<times> connect_params \<times> int \<times> int"

fun connect_attempts :: "platform \<Rightarrow> auth_state \<Rightarrow> connect_attempt list \<Rightarrow> (connect_attempt \<times> auth_result) list" where
  "connect_attempts np st [] = []"
| "connect_attempts np st ((surface, p, now, later) # es) =
     (case authorize_gateway_connect_core np surface p now later st of
        (r, st') \<Rightarrow> ((surface, p, now, later), r) # connect_attempts np st' es)"

definition attempt_within :: "platform \<Rightarrow> auth_config \<Rightarrow> int \<Rightarrow> string list \<Rightarrow> connect_attempt \<Rightarrow> bool" where
  "attempt_within np cfg a ks e =
     (case e of (surface, p, now, later) \<Rightarrow>
        cp_limiter p = Some cfg \<and> a \<le> now \<and> a \<le> later \<and> now < a + ac_window_ms cfg \<and> later < a + ac_window_ms cfg \<and>
        now < a + ac_lockout_ms cfg \<and> later < a + ac_lockout_ms cfg \<and> attempt_key np p \<in> set ks)"

definition attempt_of :: "platform \<Rightarrow> string \<Rightarrow> connect_attempt \<Rightarrow> bool" where
  "attempt_of np k e \<longleftrightarrow> attempt_key np (fst (snd e)) = k"

lemma guess_step:
  assumes w: "auth_within ks cfg st" and acc: "on_account cfg a k n st" and "0 < a" and pos: "0 < ac_max_entries cfg"
    and e: "attempt_within np cfg a ks (surface, p, now, later)"
    and core: "authorize_gateway_connect_core np surface p now later st = (r, st')"
    and ex: "attempt_key np p = k \<Longrightarrow> \<not> is_exempt cfg (platform_net np) (attempt_client np p)"
    and max1: "1 \<le> ac_max_attempts cfg" and fail: "attempt_key np p = k \<Longrightarrow> \<not> ar_ok r"
  shows "auth_within ks cfg st'"
    and "on_account cfg a k (n + (if attempt_key np p = k \<and> wrong_guess r then 1 else 0)) st'"
    and "attempt_key np p = k \<Longrightarrow> wrong_guess r \<Longrightarrow> int n < ac_max_attempts cfg"
proof -
  let ?net = "platform_net np" and ?c = "attempt_client np p"
  have cfg: "cp_limiter p = Some cfg" and t: "a \<le> now" "a \<le> later" "now < a + ac_window_ms cfg"
    "later < a + ac_window_ms cfg" "now < a + ac_lockout_ms cfg" "later < a + ac_lockout_ms cfg"
    and key: "attempt_key np p \<in> set ks" using e by (simp_all add: attempt_within_def)
  obtain es where es: "attempt_calls ?c now later (wr_allowed (fst (auth_check cfg ?net ?c now st))) r es"
    "st' = foldl (auth_step cfg ?net) st es" using core_calls [OF cfg, where np = np and now = now and st = st and surface = surface and later = later] core by auto
  note step = on_account_step [OF _ _ \<open>0 < a\<close>] and within = auth_within_step [OF _ _ pos]
  have in_ks: "set (call_keys ?net (AFailure ?c)) \<subseteq> set ks" using key by (simp add: attempt_key_def)
  let ?s1 = "auth_step cfg ?net st (now, ACheck ?c)"
  have s1: "auth_within ks cfg ?s1" "on_account cfg a k n ?s1"
    using within [OF w, of ?net "ACheck ?c" now] step [OF w acc t(1,3,5), of ?net "ACheck ?c"]
    by (simp_all add: auth_touches_def failure_of_def)
  have f: "failure_of cfg ?net k (AFailure ?c) \<longleftrightarrow> attempt_key np p = k"
    using ex by (auto simp: failure_of_def attempt_key_def)
  consider (free) "es = []" "\<not> wrong_guess r" | (check) "es = [(now, ACheck ?c)]" "\<not> wrong_guess r"
    | (guess) "es = [(now, ACheck ?c), (later, AFailure ?c)]" "wrong_guess r" "wr_allowed (fst (auth_check cfg ?net ?c now st))"
    | (reset) "es = [(now, ACheck ?c), (later, AReset ?c)]" "ar_ok r"
    using es(1) by (auto simp: attempt_calls_def)
  then have "auth_within ks cfg st' \<and>
      on_account cfg a k (n + (if attempt_key np p = k \<and> wrong_guess r then 1 else 0)) st' \<and>
      (attempt_key np p = k \<and> wrong_guess r \<longrightarrow> int n < ac_max_attempts cfg)"
  proof cases
    case free
    then show ?thesis using w acc es(2) by simp
  next
    case check
    then show ?thesis using s1 es(2) by simp
  next
    case guess
    have "int n < ac_max_attempts cfg" if "attempt_key np p = k"
      using allowed_account [of cfg a ?net ?c n st now] guess(3) acc that ex \<open>0 < a\<close> t(5) max1 t(1)
      by (simp add: attempt_key_def)
    then show ?thesis
      using guess es(2) within [OF s1(1) in_ks, of later] step [OF s1 t(2,4,6) _ in_ks] by (simp add: f auth_touches_def)
  next
    case reset
    have other: "attempt_key np p \<noteq> k" using fail reset(2) by blast
    then show ?thesis
      using reset es(2) within [OF s1(1), of ?net "AReset ?c" later] step [OF s1 t(2,4,6), of ?net "AReset ?c"]
      by (simp add: auth_touches_def failure_of_def attempt_key_def)
  qed
  then show "auth_within ks cfg st'"
    and "on_account cfg a k (n + (if attempt_key np p = k \<and> wrong_guess r then 1 else 0)) st'"
    and "attempt_key np p = k \<Longrightarrow> wrong_guess r \<Longrightarrow> int n < ac_max_attempts cfg" by blast+
qed

lemma guesses_run:
  assumes "auth_within ks cfg st" and "on_account cfg a k n st" and "0 < a" and "0 < ac_max_entries cfg"
    and "\<forall>e \<in> set es. attempt_within np cfg a ks e"
    and "\<forall>e \<in> set es. attempt_of np k e \<longrightarrow> \<not> is_exempt cfg (platform_net np) (attempt_client np (fst (snd e)))"
    and "1 \<le> ac_max_attempts cfg" and "int n \<le> ac_max_attempts cfg"
    and "\<forall>(e, r) \<in> set (connect_attempts np st es). attempt_of np k e \<longrightarrow> \<not> ar_ok r"
  shows "int n + int (length (filter (\<lambda>(e, r). attempt_of np k e \<and> wrong_guess r) (connect_attempts np st es)))
     \<le> ac_max_attempts cfg"
  using assms
proof (induction es arbitrary: st n)
  case (Cons e es)
  obtain surface p now later where e: "e = (surface, p, now, later)" by (cases e)
  obtain r st' where core: "authorize_gateway_connect_core np surface p now later st = (r, st')"
    by (cases "authorize_gateway_connect_core np surface p now later st")
  let ?m = "n + (if attempt_key np p = k \<and> wrong_guess r then 1 else 0)"
  have w: "attempt_within np cfg a ks (surface, p, now, later)" using Cons.prems(5) by (simp add: e)
  have fail: "attempt_key np p = k \<Longrightarrow> \<not> ar_ok r" using Cons.prems(9) by (simp add: e core attempt_of_def)
  have ex: "attempt_key np p = k \<Longrightarrow> \<not> is_exempt cfg (platform_net np) (attempt_client np p)"
    using Cons.prems(6) by (simp add: e attempt_of_def)
  note g = guess_step [OF Cons.prems(1-4) w core ex Cons.prems(7) fail]
  have "int ?m \<le> ac_max_attempts cfg" using g(3) Cons.prems(8) by (cases "attempt_key np p = k \<and> wrong_guess r") auto
  then have "int ?m + int (length (filter (\<lambda>(e, r). attempt_of np k e \<and> wrong_guess r) (connect_attempts np st' es)))
      \<le> ac_max_attempts cfg"
    using Cons.IH [OF g(1,2) Cons.prems(3,4) _ _ Cons.prems(7)] Cons.prems(5,6,9) by (simp add: e core)
  then show ?case by (cases "attempt_key np p = k \<and> wrong_guess r") (auto simp: e core attempt_of_def)
qed simp

section \<open>Forwarded chains\<close>

lemma js_split_append_any: "js_split sep (p @ sep # s) = js_split sep p @ js_split sep s"
proof (induction p)
  case (Cons c p)
  obtain q qs where "js_split sep p = q # qs" by (cases "js_split sep p") auto
  then show ?case using Cons by simp
qed simp

lemma forwarded_chain_append:
  "forwarded_chain np (Some (p @ CHR '','' # s)) = forwarded_chain np (Some p) @ forwarded_chain np (Some s)"
  by (simp add: forwarded_chain_def js_split_append_any List.map_filter_def)

lemma find_append_found: "\<exists>x \<in> set xs. P x \<Longrightarrow> find P (xs @ ys) = find P xs"
  by (induction xs) auto

lemma resolve_forwarded_forged:
  assumes "\<exists>h \<in> set (forwarded_chain np (Some genuine)). untrusted_hop np trusted h" and "trusted \<noteq> []"
  shows "resolve_forwarded_client_ip np (Some (forged @ CHR '','' # genuine)) trusted = resolve_forwarded_client_ip np (Some genuine) trusted"
    and "resolve_forwarded_client_ip np (Some genuine) trusted \<noteq> None"
  using assms find_append_found [of "rev (forwarded_chain np (Some genuine))" "untrusted_hop np trusted" "rev (forwarded_chain np (Some forged))"]
  by (auto simp: resolve_forwarded_client_ip_def forwarded_chain_append find_None_iff2 find_None_iff)

lemma resolve_client_ip_forged:
  assumes "\<exists>h \<in> set (forwarded_chain np (Some genuine)). untrusted_hop np trusted h"
  shows "resolve_client_ip np remote (Some (forged @ CHR '','' # genuine)) via trusted b =
    resolve_client_ip np remote (Some genuine) via' trusted b"
proof (cases "trusted = []")
  case True
  then show ?thesis by (simp add: resolve_client_ip_def is_trusted_proxy_address_def split: option.split)
next
  case False
  note f = resolve_forwarded_forged [OF assms False]
  obtain a where "resolve_forwarded_client_ip np (Some genuine) trusted = Some a" using f(2) by blast
  then show ?thesis using f(1) [of forged] by (simp add: resolve_client_ip_def split: option.split)
qed

section \<open>Properties\<close>

text \<open>C6: a gateway connection is granted exactly by the policy \<open>grants\<close>: without authentication when that is
  configured and the browser origin passes; to the user a trusted proxy names; to the login the Tailscale daemon
  confirms, on the Control UI surface alone; or to a presented secret equal to the configured, non-empty one, unless
  the limiter denies the client. No other outcome counts as success.
\<close>

theorem connection_granted_iff:
  "(fst (authorize_gateway_connect_core np surface p now later st) = auth_granted m u \<longleftrightarrow> grants np surface p now st m u) \<and>
   (ar_ok (fst (authorize_gateway_connect_core np surface p now later st)) \<longleftrightarrow> (\<exists>m u. grants np surface p now st m u))"
  by (simp add: authorize_gateway_connect_grants core_result_shape)

text \<open>a client may guess a shared secret at most \<open>maxAttempts\<close> times in a window: in every sequence of connection
  attempts of any clients on any surface, as long as none of this client's is granted and no more than \<open>maxEntries\<close>
  clients take part, at most \<open>maxAttempts\<close> of its attempts get an answer that tells a wrong secret.
\<close>

theorem secret_guesses_bounded:
  assumes "auth_within ks cfg st" and "js_get (as_entries st) k = None" and "0 < a" and "0 < ac_max_entries cfg"
    and "\<forall>e \<in> set es. attempt_within np cfg a ks e"
    and "\<forall>e \<in> set es. attempt_of np k e \<longrightarrow> \<not> is_exempt cfg (platform_net np) (attempt_client np (fst (snd e)))"
    and "1 \<le> ac_max_attempts cfg"
    and "\<forall>(e, r) \<in> set (connect_attempts np st es). attempt_of np k e \<longrightarrow> \<not> ar_ok r"
  shows "int (length (filter (\<lambda>(e, r). attempt_of np k e \<and> wrong_guess r) (connect_attempts np st es))) \<le> ac_max_attempts cfg"
proof -
  have "on_account cfg a k 0 st" using assms(2) by (simp add: on_account_def)
  from guesses_run [OF assms(1) this assms(3-7) _ assms(8)] assms(7) show ?thesis by simp
qed

text \<open>C21: a client behind a trusted proxy cannot change the address it is counted under: whatever it puts in front of
  the forwarded chain, and whatever other headers it adds, its limiter key stays the one of the right-most hop that
  is no proxy.
\<close>

theorem forged_hops_do_not_move_client:
  assumes "hr_remote r' = hr_remote r"
    and "header_value_of (header r ''x-forwarded-for'') = Some genuine"
    and "header_value_of (header r' ''x-forwarded-for'') = Some (forged @ CHR '','' # genuine)"
    and "\<exists>h \<in> set (forwarded_chain np (Some genuine)). untrusted_hop np (cp_trusted_proxies p) h"
  shows "attempt_key np (p\<lparr>cp_req := Some r'\<rparr>) = attempt_key np (p\<lparr>cp_req := Some r\<rparr>)"
proof -
  have "resolve_request_client_ip np (Some r') (cp_trusted_proxies p) b = resolve_request_client_ip np (Some r) (cp_trusted_proxies p) b" for b
    using assms(1-3) resolve_client_ip_forged [OF assms(4)] by (simp add: resolve_request_client_ip_def)
  then show ?thesis
    using assms(1)
    by (simp add: attempt_key_def attempt_client_def context_client_def resolve_gateway_auth_request_context_def cong: option.case_cong)
qed

text \<open>a gateway that passed its startup check never refuses a connection for want of a configured secret or proxy,
  except in token mode without a token, which the check admits when Tailscale may authenticate.
\<close>

theorem startup_check_excludes_missing_config:
  assumes "assert_gateway_auth_configured (cp_auth p) raw = Inr ()"
    and "ar_reason (fst (authorize_gateway_connect_core np surface p now later st)) \<in>
      {Some ''token_missing_config'', Some ''password_missing_config'', Some ''trusted_proxy_config_missing''}"
  shows "ra_mode (cp_auth p) = ModeToken \<and> \<not> truthy (ra_token (cp_auth p)) \<and> ra_allow_tailscale (cp_auth p)"
proof (rule ccontr)
  assume no: "\<not> ?thesis"
  define x where "x = resolve_gateway_auth_request_context np p"
  have lim: "ar_reason r = Some ''rate_limited''" if "reject_if_rate_limited np x now st = (Some r, st')" for r st'
    using that by (auto simp: reject_if_rate_limited_def auth_refused_def split: option.splits prod.splits if_splits)
  have tok: "ar_reason (fst (authorize_token_auth np x t c later s)) \<in> {None, Some ''token_missing'', Some ''token_mismatch''}"
    if "truthy t" for t c s using that by (simp add: authorize_token_auth_def auth_refused_def auth_granted_def)
  have pw: "ar_reason (fst (authorize_password_auth np x t c later s)) \<in> {None, Some ''password_missing'', Some ''password_mismatch''}"
    if "truthy t" for t c s using that by (simp add: authorize_password_auth_def auth_refused_def auth_granted_def)
  obtain q st' where rl: "reject_if_rate_limited np x now st = (q, st')" by (cases "reject_if_rate_limited np x now st")
  consider (none) "ra_mode (cp_auth p) = ModeNone" | (proxy) "ra_mode (cp_auth p) = ModeTrustedProxy"
    | (token) "ra_mode (cp_auth p) = ModeToken" "truthy (ra_token (cp_auth p))"
    | (password) "ra_mode (cp_auth p) = ModePassword" "truthy (ra_password (cp_auth p))"
    using assms(1) no by (cases "ra_mode (cp_auth p)") (auto simp: assert_gateway_auth_configured_def split: if_splits)
  then show False
  proof cases
    case none
    then show ?thesis using assms(2) by (auto simp: core_none auth_refused_def auth_granted_def split: if_splits)
  next
    case proxy
    obtain t where t: "ra_trusted_proxy (cp_auth p) = Some t"
      using assms(1) proxy by (auto simp: assert_gateway_auth_configured_def split: option.splits)
    show ?thesis
    proof (cases "authorize_trusted_proxy np (cp_req p) (cp_trusted_proxies p) t")
      case (Inr v)
      then show ?thesis using assms(2)
        by (auto simp: core_trusted_proxy [OF proxy x_def] t auth_refused_def auth_granted_def split: if_splits)
    next
      case (Inl reason)
      then have "reason \<notin> {''token_missing_config'', ''password_missing_config'', ''trusted_proxy_config_missing''}"
        by (auto simp: authorize_trusted_proxy_def Let_def split: option.splits if_splits)
      then show ?thesis
        using assms(2) Inl rl lim [of _ st'] pw [of "ra_password (cp_auth p)" "presented_password p" st']
        by (cases q) (auto simp: core_trusted_proxy [OF proxy x_def] t auth_refused_def split: if_splits)
    qed
  next
    case token
    then have s: "ra_mode (cp_auth p) \<in> {ModeToken, ModePassword}" by simp
    show ?thesis
      using assms(2) token rl lim [of _ st'] tok [of "ra_token (cp_auth p)" "presented_token p" st']
      by (cases q; cases "tailscale_login np surface p") (auto simp: core_shared_secret [OF s x_def] auth_granted_def)
  next
    case password
    then have s: "ra_mode (cp_auth p) \<in> {ModeToken, ModePassword}" by simp
    show ?thesis
      using assms(2) password rl lim [of _ st'] pw [of "ra_password (cp_auth p)" "presented_password p" st']
      by (cases q; cases "tailscale_login np surface p") (auto simp: core_shared_secret [OF s x_def] auth_granted_def)
  qed
qed

section \<open>Sample values\<close>

definition sample_platform :: platform where
  "sample_platform =
     \<lparr>np_lib = sample_lib, np_is_ip = (\<lambda>s. if s \<in> set (js_keys sample_addresses) then 4 else 0),
      np_interfaces = Some [], np_url = (\<lambda>_. None), np_container = False, np_windows = False, np_can_bind = (\<lambda>_. True)\<rparr>"

definition sample_gateway_auth :: resolved_auth where
  "sample_gateway_auth =
     \<lparr>ra_mode = ModeToken, ra_token = Some ''s3cret'', ra_password = None, ra_allow_tailscale = False, ra_trusted_proxy = None\<rparr>"

definition sample_request :: "string \<Rightarrow> http_request" where
  "sample_request xff = \<lparr>hr_remote = Some ''10.0.0.2'', hr_headers = [(''x-forwarded-for'', One xff)]\<rparr>"

definition sample_connect :: "string \<Rightarrow> string \<Rightarrow> connect_params" where
  "sample_connect xff token =
     \<lparr>cp_auth = sample_gateway_auth, cp_connect = Some \<lparr>ca_token = Some token, ca_password = None\<rparr>,
      cp_req = Some (sample_request xff), cp_trusted_proxies = [''10.0.0.2''], cp_whois = (\<lambda>_. None),
      cp_limiter = Some sample_auth_config, cp_client_ip = None, cp_scope = None, cp_allow_real_ip = False, cp_origin_policy = None\<rparr>"

lemma sample_attempt_key:
  "attempt_key sample_platform (sample_connect ''203.0.113.7'' t) = ''shared-secret:203.0.113.7''"
  "attempt_key sample_platform (sample_connect ''203.0.113.8,203.0.113.7'' t) = ''shared-secret:203.0.113.7''"
  by code_simp+

lemma sample_attempts:
  "connect_attempts sample_platform empty_auth_state
     [(SurfaceHttp, sample_connect ''203.0.113.7'' ''a'', 200, 201), (SurfaceHttp, sample_connect ''203.0.113.7'' ''b'', 210, 211),
      (SurfaceHttp, sample_connect ''203.0.113.8,203.0.113.7'' ''s3cret'', 220, 221)] =
   [((SurfaceHttp, sample_connect ''203.0.113.7'' ''a'', 200, 201), auth_refused ''token_mismatch''),
    ((SurfaceHttp, sample_connect ''203.0.113.7'' ''b'', 210, 211), auth_refused ''token_mismatch''),
    ((SurfaceHttp, sample_connect ''203.0.113.8,203.0.113.7'' ''s3cret'', 220, 221),
     (auth_refused ''rate_limited'')\<lparr>ar_rate_limited := True, ar_retry_after := Some 491\<rparr>)]"
proof -
  have r: "authorize_gateway_connect_core sample_platform SurfaceHttp (sample_connect ''203.0.113.7'' ''a'') 200 201 empty_auth_state =
      (auth_refused ''token_mismatch'',
       \<lparr>as_entries = [(''shared-secret:203.0.113.7'', \<lparr>ae_attempts = [201], ae_locked_until = None\<rparr>)], as_overflow_locked_until = None\<rparr>)"
    by code_simp
  have s: "authorize_gateway_connect_core sample_platform SurfaceHttp (sample_connect ''203.0.113.7'' ''b'') 210 211
      \<lparr>as_entries = [(''shared-secret:203.0.113.7'', \<lparr>ae_attempts = [201], ae_locked_until = None\<rparr>)], as_overflow_locked_until = None\<rparr> =
      (auth_refused ''token_mismatch'',
       \<lparr>as_entries = [(''shared-secret:203.0.113.7'', \<lparr>ae_attempts = [201, 211], ae_locked_until = Some 711\<rparr>)], as_overflow_locked_until = None\<rparr>)"
    by code_simp
  have t: "fst (authorize_gateway_connect_core sample_platform SurfaceHttp (sample_connect ''203.0.113.8,203.0.113.7'' ''s3cret'') 220 221
      \<lparr>as_entries = [(''shared-secret:203.0.113.7'', \<lparr>ae_attempts = [201, 211], ae_locked_until = Some 711\<rparr>)], as_overflow_locked_until = None\<rparr>) =
      (auth_refused ''rate_limited'')\<lparr>ar_rate_limited := True, ar_retry_after := Some 491\<rparr>"
    by code_simp
  then show ?thesis
    by (cases "authorize_gateway_connect_core sample_platform SurfaceHttp (sample_connect ''203.0.113.8,203.0.113.7'' ''s3cret'') 220 221
      \<lparr>as_entries = [(''shared-secret:203.0.113.7'', \<lparr>ae_attempts = [201, 211], ae_locked_until = Some 711\<rparr>)], as_overflow_locked_until = None\<rparr>")
      (simp add: r s)
qed

theorem secret_guesses_bounded_witness:
  "int (length (filter (\<lambda>(e, r). attempt_of sample_platform ''shared-secret:203.0.113.7'' e \<and> wrong_guess r)
     (connect_attempts sample_platform empty_auth_state
       [(SurfaceHttp, sample_connect ''203.0.113.7'' ''a'', 200, 201), (SurfaceHttp, sample_connect ''203.0.113.7'' ''b'', 210, 211),
        (SurfaceHttp, sample_connect ''203.0.113.8,203.0.113.7'' ''s3cret'', 220, 221)]))) \<le> ac_max_attempts sample_auth_config"
proof (rule secret_guesses_bounded [where a = 200 and ks = "[''shared-secret:203.0.113.7'']"])
  let ?es = "[(SurfaceHttp, sample_connect ''203.0.113.7'' ''a'', 200, 201), (SurfaceHttp, sample_connect ''203.0.113.7'' ''b'', 210, 211),
        (SurfaceHttp, sample_connect ''203.0.113.8,203.0.113.7'' ''s3cret'', 220, 221)] :: connect_attempt list"
  have x: "\<not> is_exempt sample_auth_config (platform_net sample_platform) (attempt_client sample_platform (sample_connect ''203.0.113.7'' ''a''))"
    "\<not> is_exempt sample_auth_config (platform_net sample_platform) (attempt_client sample_platform (sample_connect ''203.0.113.7'' ''b''))"
    "\<not> is_exempt sample_auth_config (platform_net sample_platform) (attempt_client sample_platform (sample_connect ''203.0.113.8,203.0.113.7'' ''s3cret''))"
    by code_simp+
  then show "\<forall>e \<in> set ?es. attempt_of sample_platform ''shared-secret:203.0.113.7'' e \<longrightarrow>
      \<not> is_exempt sample_auth_config (platform_net sample_platform) (attempt_client sample_platform (fst (snd e)))"
    by simp
  show "\<forall>e \<in> set ?es. attempt_within sample_platform sample_auth_config 200 [''shared-secret:203.0.113.7''] e"
    by (simp add: attempt_within_def sample_attempt_key) (simp add: sample_connect_def)
  show "\<forall>(e, r) \<in> set (connect_attempts sample_platform empty_auth_state ?es).
      attempt_of sample_platform ''shared-secret:203.0.113.7'' e \<longrightarrow> \<not> ar_ok r"
    unfolding sample_attempts by simp
qed (simp_all add: auth_within_def auth_ok_def empty_auth_state_def)

theorem forged_hops_do_not_move_client_witness:
  "attempt_key sample_platform ((sample_connect ''203.0.113.7'' ''a'')\<lparr>cp_req := Some (sample_request ''203.0.113.8,203.0.113.7'')\<rparr>) =
   attempt_key sample_platform ((sample_connect ''203.0.113.7'' ''a'')\<lparr>cp_req := Some (sample_request ''203.0.113.7'')\<rparr>)"
proof (rule forged_hops_do_not_move_client [where forged = "''203.0.113.8''" and genuine = "''203.0.113.7''"])
  have "forwarded_chain sample_platform (Some ''203.0.113.7'') = [''203.0.113.7'']"
    "untrusted_hop sample_platform [''10.0.0.2''] ''203.0.113.7''" by code_simp+
  then show "\<exists>h \<in> set (forwarded_chain sample_platform (Some ''203.0.113.7'')).
      untrusted_hop sample_platform (cp_trusted_proxies (sample_connect ''203.0.113.7'' ''a'')) h"
    by (simp add: sample_connect_def)
qed (simp_all add: sample_request_def header_value_of_def)

theorem startup_check_excludes_missing_config_witness:
  "truthy None = False \<and>
   ra_allow_tailscale (cp_auth ((sample_connect ''203.0.113.7'' ''a'')\<lparr>cp_auth := sample_gateway_auth\<lparr>ra_token := None, ra_allow_tailscale := True\<rparr>\<rparr>))"
proof -
  let ?p = "(sample_connect ''203.0.113.7'' ''a'')\<lparr>cp_auth := sample_gateway_auth\<lparr>ra_token := None, ra_allow_tailscale := True\<rparr>\<rparr>"
  have "assert_gateway_auth_configured (cp_auth ?p) RawMissing = Inr ()" by code_simp
  moreover have "ar_reason (fst (authorize_gateway_connect_core sample_platform SurfaceHttp ?p 200 201 empty_auth_state)) =
      Some ''token_missing_config''" by code_simp
  ultimately show ?thesis
    using startup_check_excludes_missing_config [of ?p RawMissing sample_platform SurfaceHttp 200 201 empty_auth_state]
    by (simp add: truthy_def)
qed

end
