(* ===== verification/Serialized_Auth.thy ===== *)
theory Serialized_Auth
  imports Keyed_Queue Gateway_Auth_Props
begin

text \<open>
  Concurrent connection attempts: on the Control UI surface an attempt waits for the Tailscale daemon between the
  question to the limiter and the note of its outcome. \<open>gateway/rate-limit-attempt-serialization.ts\<close> puts attempts of
  one client behind each other in a keyed queue; the machine here interleaves the phases of any attempts through it.
\<close>

section \<open>The serialization key\<close>





section \<open>The two phases of an attempt\<close>

definition attempt_begin :: "platform \<Rightarrow> connect_params \<Rightarrow> int \<Rightarrow> auth_state \<Rightarrow> auth_result option \<times> auth_state" where
  "attempt_begin np p now st = reject_if_rate_limited np (resolve_gateway_auth_request_context np p) now st"

definition attempt_finish :: "platform \<Rightarrow> auth_surface \<Rightarrow> connect_params \<Rightarrow> int \<Rightarrow> auth_state \<Rightarrow> auth_result \<times> auth_state" where
  "attempt_finish np surface p later st =
     (let x = resolve_gateway_auth_request_context np p
      in case tailscale_login np surface p of
           Some login \<Rightarrow> (auth_granted MethodTailscale (Some login), note_success np x st)
         | None \<Rightarrow>
             if ra_mode (cp_auth p) = ModeToken then authorize_token_auth np x (ra_token (cp_auth p)) (presented_token p) later st
             else authorize_password_auth np x (ra_password (cp_auth p)) (presented_password p) later st)"

lemma core_is_begin_then_finish:
  assumes "ra_mode (cp_auth p) \<in> {ModeToken, ModePassword}"
  shows "authorize_gateway_connect_core np surface p now later st =
    (case attempt_begin np p now st of (Some r, st') \<Rightarrow> (r, st') | (None, st') \<Rightarrow> attempt_finish np surface p later st')"
  unfolding core_shared_secret [OF assms refl] attempt_begin_def attempt_finish_def Let_def ..



section \<open>Interleaved attempts\<close>







definition guesses_of :: "platform \<Rightarrow> (nat \<Rightarrow> connect_params) \<Rightarrow> string \<Rightarrow> (nat \<times> auth_result) list \<Rightarrow> nat" where
  "guesses_of np who k xs = length (filter (\<lambda>(i, r). attempt_key np (who i) = k \<and> wrong_guess r) xs)"

definition granted_in :: "platform \<Rightarrow> (nat \<Rightarrow> connect_params) \<Rightarrow> string \<Rightarrow> (nat \<times> auth_result) list \<Rightarrow> bool" where
  "granted_in np who k xs \<longleftrightarrow> (\<exists>(i, r) \<in> set xs. attempt_key np (who i) = k \<and> ar_ok r)"

lemma guesses_of_snoc [simp]:
  "guesses_of np who k (xs @ [(i, r)]) = guesses_of np who k xs + (if attempt_key np (who i) = k \<and> wrong_guess r then 1 else 0)"
  by (simp add: guesses_of_def)

lemma granted_in_snoc [simp]:
  "granted_in np who k (xs @ [(i, r)]) \<longleftrightarrow> granted_in np who k xs \<or> attempt_key np (who i) = k \<and> ar_ok r"
  by (auto simp: granted_in_def)









section \<open>Properties\<close>

text \<open>C20: the keyed queue refines one first-in-first-out line per key: in every order of microtasks, a task starts only
  as the head of a line in which nothing runs, the running head alone settles, and the cleanup of a settled tail,
  however late it comes, changes no line.
\<close>

theorem keyed_queue_refines_lines:
  assumes "keyed_run empty_keyed_queue es q" and "keyed_step q e q'"
  shows "line_step (key_lines q) (kq_next q) e (key_lines q')"
  using keyed_step_ok [OF keyed_run_ok [OF assms(1)] assms(2)] by blast

theorem keyed_queue_refines_lines_witness:
  "\<exists>q q'. keyed_run empty_keyed_queue [KEnqueue ''a'', KEnqueue ''a''] q \<and> keyed_step q (KStart 0 ''a'') q' \<and>
     line_step (key_lines q) (kq_next q) (KStart 0 ''a'') (key_lines q')"
proof -
  let ?q = "enqueue_keyed_task ''a'' (enqueue_keyed_task ''a'' empty_keyed_queue)"
  let ?t = "\<lparr>wt_id = 0, wt_key = ''a'', wt_previous = None\<rparr>"
  have r: "keyed_run empty_keyed_queue [KEnqueue ''a'', KEnqueue ''a''] ?q"
    using keyed_run_append [OF keyed_run_single [OF keyed_step.enqueue] keyed_run_single [OF keyed_step.enqueue]] by simp
  have "?t \<in> set (kq_waiting ?q)" by (simp add: enqueue_keyed_task_def empty_keyed_queue_def)
  from keyed_step.start [OF this] have s: "keyed_step ?q (KStart 0 ''a'') (start_keyed_task ?t ?q)" by simp
  show ?thesis using r s keyed_queue_refines_lines [OF r s] by blast
qed

text \<open>no key of the queue gets stuck or is remembered for ever: from every reachable state, events of the key
  alone, at most two for each of its tasks and one cleanup, run its line down and delete its tail.
\<close>

theorem keyed_queue_drains_and_forgets:
  assumes "keyed_run empty_keyed_queue es q"
  shows "\<exists>es' q'. keyed_run q es' q' \<and> (\<forall>e \<in> set es'. event_key e = k \<and> e \<noteq> KEnqueue k) \<and>
    length es' \<le> 2 * length (kl_tasks (key_lines q k)) + 1 \<and> kl_tasks (key_lines q' k) = [] \<and> js_get (kq_tails q') k = None"
proof -
  obtain es' q' where d: "keyed_run q es' q'" "\<forall>e \<in> set es'. event_key e = k \<and> e \<noteq> KEnqueue k"
    "length es' \<le> 2 * length (kl_tasks (key_lines q k))" "kl_tasks (key_lines q' k) = []" "keyed_ok q'"
    using drain_busy_or_idle [OF keyed_run_ok [OF assms]] by blast
  show ?thesis
  proof (cases "js_get (kq_tails q') k")
    case None
    then show ?thesis using d by (intro exI [of _ es'] exI [of _ q']) simp
  next
    case (Some i)
    have c: "keyed_step q' (KCleanup i k) (cleanup_tail i k q')"
      by (rule keyed_step.cleanup) (rule tail_of_empty_line [OF d(5,4) Some])
    have "key_lines (cleanup_tail i k q') = key_lines q'" using keyed_step_ok [OF d(5) c] by simp
    then show ?thesis using keyed_run_append [OF d(1) keyed_run_single [OF c]] d Some
      by (intro exI [of _ "es' @ [KCleanup i k]"] exI [of _ "cleanup_tail i k q'"]) (auto simp: cleanup_tail_def)
  qed
qed

theorem keyed_queue_drains_and_forgets_witness:
  "\<exists>es' q'. keyed_run (enqueue_keyed_task ''a'' empty_keyed_queue) es' q' \<and> kl_tasks (key_lines q' ''a'') = [] \<and>
     js_get (kq_tails q') ''a'' = None"
  using keyed_queue_drains_and_forgets [OF keyed_run_single [OF keyed_step.enqueue], of "''a''" "''a''"] by blast





end
