(* ===== verification/SSRF_Policy.thy ===== *)
theory SSRF_Policy
  imports Gateway_Net
begin

text \<open>
  The policy of outgoing requests, \<open>infra/net/ssrf.ts\<close> with \<open>infra/net/hostname.ts\<close>: which hostnames and
  addresses a request may reach, and the lookup that pins a hostname to the addresses that were checked. The
  WHATWG URL implementation is the parameter \<open>url_api\<close>, the resolver a function to the addresses it answers
  with (nothing when it fails). A flag of a policy is set when it is \<open>true\<close>; an absent list is the empty one, which
  the code treats alike. Messages of errors are the constructors of \<open>ssrf_error\<close>.
\<close>

section \<open>Policies\<close>

record url_api =
  ua_parse :: "string \<Rightarrow> url option"
  ua_resolve :: "string \<Rightarrow> url \<Rightarrow> url option"
  ua_text :: "url \<Rightarrow> string"
  ua_with_hostname :: "url \<Rightarrow> string \<Rightarrow> url"

record ssrf_policy =
  sp_allow_private :: bool
  sp_dangerously_allow_private :: bool
  sp_allow_benchmark :: bool
  sp_allow_unique_local :: bool
  sp_allowed_hostnames :: "string list"
  sp_allowed_origins :: "string list"
  sp_hostname_allowlist :: "string list"

definition empty_ssrf_policy :: ssrf_policy where
  "empty_ssrf_policy =
     \<lparr>sp_allow_private = False, sp_dangerously_allow_private = False, sp_allow_benchmark = False,
      sp_allow_unique_local = False, sp_allowed_hostnames = [], sp_allowed_origins = [], sp_hostname_allowlist = []\<rparr>"

text \<open>The policy that an absent one amounts to in every test.\<close>

definition effective :: "ssrf_policy option \<Rightarrow> ssrf_policy" where
  "effective p = (case p of Some p \<Rightarrow> p | None \<Rightarrow> empty_ssrf_policy)"

definition normalize_hostname :: "string \<Rightarrow> string" where
  "normalize_hostname h = strip_ipv6_brackets (strip_trailing_dots (normalize_lowercase_string_or_empty (Some h)))"

definition normalize_policy_hostnames :: "string list \<Rightarrow> string list" where
  "normalize_policy_hostnames vs = unique_values (List.map_filter (\<lambda>v. normalize_optional_string (Some (normalize_hostname v))) vs)"

definition http_protocol :: "url \<Rightarrow> bool" where
  "http_protocol u \<longleftrightarrow> url_protocol u = ''http:'' \<or> url_protocol u = ''https:''"

definition normalize_ssrf_policy_origin :: "url_api \<Rightarrow> string \<Rightarrow> string option" where
  "normalize_ssrf_policy_origin api v =
     (if js_trim v = [] then None
      else case ua_parse api (js_trim v) of
        None \<Rightarrow> None
      | Some u \<Rightarrow>
          if \<not> http_protocol u then None
          else Some (js_lower (url_origin (ua_with_hostname api u (strip_trailing_dots (url_hostname u))))))"

definition policy_origins :: "url_api \<Rightarrow> string list \<Rightarrow> string list" where
  "policy_origins api vs =
     unique_values (filter (\<lambda>v. v \<noteq> []) (List.map_filter (normalize_ssrf_policy_origin api) vs))"

definition normalize_hostname_allowlist :: "string list \<Rightarrow> string list" where
  "normalize_hostname_allowlist vs = filter (\<lambda>v. v \<noteq> ''*'' \<and> v \<noteq> ''*.'') (normalize_policy_hostnames vs)"

text \<open>\<open>isSameSsrFPolicy\<close> compares the texts of the sorted normal forms, hence the forms.\<close>

definition policy_normal_form ::
    "url_api \<Rightarrow> ssrf_policy \<Rightarrow> bool \<times> bool \<times> bool \<times> bool \<times> string list \<times> string list \<times> string list" where
  "policy_normal_form api p =
     (sp_allow_private p, sp_dangerously_allow_private p, sp_allow_benchmark p, sp_allow_unique_local p,
      sort (normalize_policy_hostnames (sp_allowed_hostnames p)), sort (policy_origins api (sp_allowed_origins p)),
      sort (normalize_hostname_allowlist (sp_hostname_allowlist p)))"

definition is_same_ssrf_policy :: "url_api \<Rightarrow> ssrf_policy option \<Rightarrow> ssrf_policy option \<Rightarrow> bool" where
  "is_same_ssrf_policy api a b = (map_option (policy_normal_form api) a = map_option (policy_normal_form api) b)"

fun merge_into :: "ssrf_policy \<Rightarrow> ssrf_policy option list \<Rightarrow> ssrf_policy" where
  "merge_into m [] = m"
| "merge_into m (None # ps) = merge_into m ps"
| "merge_into m (Some p # ps) =
     merge_into
       \<lparr>sp_allow_private = sp_allow_private m \<or> sp_allow_private p,
        sp_dangerously_allow_private = sp_dangerously_allow_private m \<or> sp_dangerously_allow_private p,
        sp_allow_benchmark = sp_allow_benchmark m \<or> sp_allow_benchmark p,
        sp_allow_unique_local = sp_allow_unique_local m \<or> sp_allow_unique_local p,
        sp_allowed_hostnames =
          (if sp_allowed_hostnames p = [] then sp_allowed_hostnames m
           else unique_values (sp_allowed_hostnames m @ sp_allowed_hostnames p)),
        sp_allowed_origins =
          (if sp_allowed_origins p = [] then sp_allowed_origins m
           else unique_values (sp_allowed_origins m @ sp_allowed_origins p)),
        sp_hostname_allowlist =
          (if sp_hostname_allowlist p = [] then sp_hostname_allowlist m
           else unique_values (sp_hostname_allowlist m @ sp_hostname_allowlist p))\<rparr> ps"

definition merge_ssrf_policies :: "ssrf_policy option list \<Rightarrow> ssrf_policy option" where
  "merge_ssrf_policies ps =
     (let m = merge_into empty_ssrf_policy ps in if m = empty_ssrf_policy then None else Some m)"

definition http_base_url :: "url_api \<Rightarrow> string \<Rightarrow> url option" where
  "http_base_url api base_url =
     (if js_trim base_url = [] then None
      else case ua_parse api (js_trim base_url) of
        None \<Rightarrow> None
      | Some u \<Rightarrow> if http_protocol u then Some u else None)"

definition ssrf_policy_from_allowed_hostname :: "url_api \<Rightarrow> string \<Rightarrow> ssrf_policy option" where
  "ssrf_policy_from_allowed_hostname api base_url =
     map_option (\<lambda>u. empty_ssrf_policy\<lparr>sp_allowed_hostnames := [url_hostname u]\<rparr>) (http_base_url api base_url)"

definition ssrf_policy_from_allowed_origin :: "url_api \<Rightarrow> string \<Rightarrow> ssrf_policy option" where
  "ssrf_policy_from_allowed_origin api base_url =
     (case normalize_ssrf_policy_origin api base_url of
        None \<Rightarrow> None
      | Some origin' \<Rightarrow> if origin' = [] then None else Some (empty_ssrf_policy\<lparr>sp_allowed_origins := [origin']\<rparr>))"

definition ssrf_policy_from_fake_ip_allowlist :: "url_api \<Rightarrow> string \<Rightarrow> ssrf_policy option" where
  "ssrf_policy_from_fake_ip_allowlist api base_url =
     map_option (\<lambda>u. empty_ssrf_policy\<lparr>sp_allow_benchmark := True, sp_allow_unique_local := True, sp_hostname_allowlist := [url_hostname u]\<rparr>)
       (http_base_url api base_url)"

definition is_private_network_allowed_by_policy :: "ssrf_policy option \<Rightarrow> bool" where
  "is_private_network_allowed_by_policy p \<longleftrightarrow> sp_dangerously_allow_private (effective p) \<or> sp_allow_private (effective p)"

definition should_skip_private_network_checks :: "string \<Rightarrow> ssrf_policy option \<Rightarrow> bool" where
  "should_skip_private_network_checks hostname p \<longleftrightarrow>
     is_private_network_allowed_by_policy p \<or> hostname \<in> set (normalize_policy_hostnames (sp_allowed_hostnames (effective p)))"

definition resolve_ssrf_policy_for_url :: "url_api \<Rightarrow> url \<Rightarrow> ssrf_policy option \<Rightarrow> ssrf_policy option" where
  "resolve_ssrf_policy_for_url api u p =
     (case p of
        None \<Rightarrow> None
      | Some q \<Rightarrow>
          if sp_allowed_origins q = [] then p
          else case normalize_ssrf_policy_origin api (ua_text api u) of
            None \<Rightarrow> p
          | Some origin' \<Rightarrow>
              if origin' = [] \<or> origin' \<notin> set (policy_origins api (sp_allowed_origins q)) then p
              else Some (q\<lparr>sp_allowed_hostnames := unique_values (sp_allowed_hostnames q @ [normalize_hostname (url_hostname u)])\<rparr>))"

definition is_hostname_allowed_by_pattern :: "string \<Rightarrow> string \<Rightarrow> bool" where
  "is_hostname_allowed_by_pattern hostname pattern \<longleftrightarrow>
     (if prefix ''*.'' pattern then
        (let tail = drop 2 pattern in if tail = [] \<or> hostname = tail then False else suffix (CHR ''.'' # tail) hostname)
      else hostname = pattern)"

definition matches_hostname_allowlist :: "string \<Rightarrow> string list \<Rightarrow> bool" where
  "matches_hostname_allowlist hostname allowlist \<longleftrightarrow>
     allowlist = [] \<or> list_ex (is_hostname_allowed_by_pattern hostname) allowlist"

section \<open>Addresses\<close>

definition looks_like_unsupported_ipv4_literal :: "string \<Rightarrow> bool" where
  "looks_like_unsupported_ipv4_literal address \<longleftrightarrow>
     (let parts = js_split (CHR ''.'') address
      in if length parts = 0 \<or> length parts > 4 then False
         else if [] \<in> set parts then True
         else list_all (\<lambda>p. list_all is_decimal_digit p \<or>
                (case p of z # x # _ \<Rightarrow> z = CHR ''0'' \<and> (x = CHR ''x'' \<or> x = CHR ''X'') | _ \<Rightarrow> False)) parts)"

definition is_private_ip_address :: "ipaddr \<Rightarrow> string \<Rightarrow> ssrf_policy option \<Rightarrow> bool" where
  "is_private_ip_address lib address p \<longleftrightarrow>
     (let n = normalize_hostname address;
          benchmark = sp_allow_benchmark (effective p);
          unique_local = sp_allow_unique_local (effective p)
      in if n = [] then False
         else case parse_canonical_ip_address lib (Some n) of
           Some (V4 x) \<Rightarrow> is_blocked_special_use_ipv4_address lib benchmark x
         | Some (V6 h) \<Rightarrow>
             if is_blocked_special_use_ipv6_address lib unique_local h then True
             else (case extract_embedded_ipv4_from_ipv6 lib h of
                     Some x \<Rightarrow> is_blocked_special_use_ipv4_address lib benchmark x
                   | None \<Rightarrow> False)
         | None \<Rightarrow>
             CHR '':'' \<in> set n \<and> parse_loose_ip_address lib (Some n) = None \<or>
             \<not> is_canonical_dotted_decimal_ipv4 lib (Some n) \<and> is_legacy_ipv4_literal lib (Some n) \<or>
             looks_like_unsupported_ipv4_literal n)"

definition blocked_hostnames :: "string list" where
  "blocked_hostnames = [''localhost'', ''localhost.localdomain'', ''metadata.google.internal'']"

definition is_blocked_hostname_normalized :: "string \<Rightarrow> bool" where
  "is_blocked_hostname_normalized n \<longleftrightarrow>
     n \<in> set blocked_hostnames \<or> suffix ''.localhost'' n \<or> suffix ''.local'' n \<or> suffix ''.internal'' n"

definition is_blocked_hostname :: "string \<Rightarrow> bool" where
  "is_blocked_hostname hostname \<longleftrightarrow>
     (let n = normalize_hostname hostname in n \<noteq> [] \<and> is_blocked_hostname_normalized n)"

definition is_blocked_hostname_or_ip :: "ipaddr \<Rightarrow> string \<Rightarrow> ssrf_policy option \<Rightarrow> bool" where
  "is_blocked_hostname_or_ip lib hostname p \<longleftrightarrow>
     (let n = normalize_hostname hostname
      in n \<noteq> [] \<and> (is_blocked_hostname_normalized n \<or> is_private_ip_address lib n p))"

definition loopback_including_embedded :: "ipaddr \<Rightarrow> string \<Rightarrow> bool" where
  "loopback_including_embedded lib address \<longleftrightarrow>
     is_loopback_ip_address lib (Some address) \<or>
     (case parse_canonical_ip_address lib (Some address) of
        Some (V6 h) \<Rightarrow> (case extract_embedded_ipv4_from_ipv6 lib h of Some x \<Rightarrow> lib_range4 lib x = ''loopback'' | None \<Rightarrow> False)
      | _ \<Rightarrow> False)"

definition unspecified_including_embedded :: "ipaddr \<Rightarrow> string \<Rightarrow> bool" where
  "unspecified_including_embedded lib address \<longleftrightarrow>
     (case parse_canonical_ip_address lib (Some address) of
        None \<Rightarrow> False
      | Some (V4 x) \<Rightarrow> lib_range4 lib x = ''unspecified''
      | Some (V6 h) \<Rightarrow>
          if lib_range6 lib h = ''unspecified'' then True
          else if lib_range6 lib h = ''loopback'' then False
          else (case extract_embedded_ipv4_from_ipv6 lib h of Some x \<Rightarrow> lib_range4 lib x = ''unspecified'' | None \<Rightarrow> False))"

definition is_explicit_loopback_hostname :: "ipaddr \<Rightarrow> string \<Rightarrow> bool" where
  "is_explicit_loopback_hostname lib hostname \<longleftrightarrow>
     hostname = ''localhost'' \<or> hostname = ''localhost.localdomain'' \<or> suffix ''.localhost'' hostname \<or>
     loopback_including_embedded lib hostname"

section \<open>Checks\<close>

datatype ssrf_error =
  InvalidHostname | NotInAllowlist string | BlockedHostOrIp | BlockedResolvedIp | UnableToResolve string | LookupFailed
  | EmptyPinnedLookup string | OverrideMismatch string string

record lookup_address =
  la_address :: string
  la_family :: nat

type_synonym resolver = "string \<Rightarrow> lookup_address list option"

text \<open>The normalized hostname, and whether the private network checks are skipped.\<close>

definition resolve_hostname_policy_checks ::
    "ipaddr \<Rightarrow> string \<Rightarrow> ssrf_policy option \<Rightarrow> ssrf_error + (string \<times> bool)" where
  "resolve_hostname_policy_checks lib hostname p =
     (let n = normalize_hostname hostname
      in if n = [] then Inl InvalidHostname
         else
           (let skip = should_skip_private_network_checks n p
            in if \<not> matches_hostname_allowlist n (normalize_hostname_allowlist (sp_hostname_allowlist (effective p)))
               then Inl (NotInAllowlist hostname)
               else if \<not> skip \<and> is_blocked_hostname_or_ip lib n p then Inl BlockedHostOrIp
               else Inr (n, skip)))"

definition resolved_addresses_allowed :: "ipaddr \<Rightarrow> string list \<Rightarrow> ssrf_policy option \<Rightarrow> bool" where
  "resolved_addresses_allowed lib addresses p = list_all (\<lambda>a. \<not> is_blocked_hostname_or_ip lib a p) addresses"

definition trusted_hostname_addresses_allowed :: "ipaddr \<Rightarrow> string list \<Rightarrow> string \<Rightarrow> bool" where
  "trusted_hostname_addresses_allowed lib addresses hostname =
     list_all (\<lambda>a. \<not> (unspecified_including_embedded lib a \<or>
        \<not> is_explicit_loopback_hostname lib hostname \<and> loopback_including_embedded lib a \<or>
        is_link_local_ip_address lib (Some a) \<or> is_cloud_metadata_ip_address lib (Some a))) addresses"

definition dedupe_and_prefer_ipv4 :: "lookup_address list \<Rightarrow> string list" where
  "dedupe_and_prefer_ipv4 rs =
     (let firsts = fold (\<lambda>r seen. if la_address r \<in> set (map la_address seen) then seen else seen @ [r]) rs []
      in map la_address (filter (\<lambda>r. la_family r = 4) firsts) @ map la_address (filter (\<lambda>r. la_family r \<noteq> 4) firsts))"

section \<open>Pinned lookups\<close>

text \<open>A pinned lookup: the hostname it answers for, the addresses, and the counter of its round robin.\<close>

record pinned_lookup =
  pl_hostname :: string
  pl_records :: "(string \<times> nat) list"
  pl_index :: nat

record lookup_options =
  lo_family :: nat
  lo_all :: bool

datatype lookup_answer = AskFallback | AllRecords "(string \<times> nat) list" | OneRecord "string \<times> nat"

definition address_record :: "string \<Rightarrow> string \<times> nat" where
  "address_record a = (a, if CHR '':'' \<in> set a then 6 else 4)"

definition create_pinned_lookup :: "string \<Rightarrow> string list \<Rightarrow> ssrf_error + pinned_lookup" where
  "create_pinned_lookup hostname addresses =
     (if addresses = [] then Inl (EmptyPinnedLookup hostname)
      else Inr \<lparr>pl_hostname = normalize_hostname hostname, pl_records = map address_record addresses, pl_index = 0\<rparr>)"

definition automatic_records :: "pinned_lookup \<Rightarrow> (string \<times> nat) list" where
  "automatic_records l =
     (let v4 = filter (\<lambda>(_, f). f = 4) (pl_records l) in if v4 \<noteq> [] then v4 else pl_records l)"

definition usable_records :: "pinned_lookup \<Rightarrow> nat \<Rightarrow> (string \<times> nat) list" where
  "usable_records l family =
     (let candidates = (if family = 4 \<or> family = 6 then filter (\<lambda>(_, f). f = family) (pl_records l) else automatic_records l)
      in if candidates \<noteq> [] then candidates else automatic_records l)"

definition pinned_lookup_call :: "string \<Rightarrow> lookup_options \<Rightarrow> pinned_lookup \<Rightarrow> lookup_answer \<times> pinned_lookup" where
  "pinned_lookup_call host opts l =
     (let n = normalize_hostname host
      in if n = [] \<or> n \<noteq> pl_hostname l then (AskFallback, l)
         else
           (let usable = usable_records l (lo_family opts)
            in if lo_all opts then (AllRecords usable, l)
               else (OneRecord (usable ! (pl_index l mod length usable)), l\<lparr>pl_index := Suc (pl_index l)\<rparr>)))"

record pinned_hostname =
  ph_hostname :: string
  ph_addresses :: "string list"
  ph_lookup :: pinned_lookup

definition resolve_pinned_hostname_with_policy ::
    "ipaddr \<Rightarrow> resolver \<Rightarrow> string \<Rightarrow> ssrf_policy option \<Rightarrow> ssrf_error + pinned_hostname" where
  "resolve_pinned_hostname_with_policy lib resolve hostname p =
     (case resolve_hostname_policy_checks lib hostname p of
        Inl e \<Rightarrow> Inl e
      | Inr (n, skip) \<Rightarrow>
          (case resolve n of
             None \<Rightarrow> Inl LookupFailed
           | Some results \<Rightarrow>
               if results = [] then Inl (UnableToResolve hostname)
               else if \<not> skip \<and> \<not> resolved_addresses_allowed lib (map la_address results) p then Inl BlockedResolvedIp
               else if skip \<and> \<not> is_private_network_allowed_by_policy p \<and>
                       \<not> trusted_hostname_addresses_allowed lib (map la_address results) n then Inl BlockedResolvedIp
               else
                 (let addresses = dedupe_and_prefer_ipv4 results
                  in if addresses = [] then Inl (UnableToResolve hostname)
                     else case create_pinned_lookup n addresses of
                       Inl e \<Rightarrow> Inl e
                     | Inr l \<Rightarrow> Inr \<lparr>ph_hostname = n, ph_addresses = addresses, ph_lookup = l\<rparr>)))"

definition assert_hostname_allowed_with_policy :: "ipaddr \<Rightarrow> string \<Rightarrow> ssrf_policy option \<Rightarrow> ssrf_error + string" where
  "assert_hostname_allowed_with_policy lib hostname p =
     (case resolve_hostname_policy_checks lib hostname p of Inl e \<Rightarrow> Inl e | Inr (n, _) \<Rightarrow> Inr n)"

text \<open>The lookup of a dispatcher: the pinned one, or the one of an override for the same hostname, whose addresses
  pass the checks again.\<close>

definition resolve_pinned_dispatcher_lookup ::
    "ipaddr \<Rightarrow> pinned_hostname \<Rightarrow> (string \<times> string list) option \<Rightarrow> ssrf_policy option \<Rightarrow> ssrf_error + pinned_lookup" where
  "resolve_pinned_dispatcher_lookup lib pinned override p =
     (case override of
        None \<Rightarrow> Inr (ph_lookup pinned)
      | Some (hostname, addresses) \<Rightarrow>
          (let n = normalize_hostname hostname
           in if n = [] \<or> n \<noteq> ph_hostname pinned then Inl (OverrideMismatch (ph_hostname pinned) hostname)
              else if \<not> should_skip_private_network_checks (ph_hostname pinned) p \<and> \<not> resolved_addresses_allowed lib addresses p
              then Inl BlockedResolvedIp
              else if should_skip_private_network_checks (ph_hostname pinned) p \<and> \<not> is_private_network_allowed_by_policy p \<and>
                      \<not> trusted_hostname_addresses_allowed lib addresses (ph_hostname pinned)
              then Inl BlockedResolvedIp
              else create_pinned_lookup (ph_hostname pinned) addresses))"

end
