(* ===== verification/Proxy_Env.thy ===== *)
theory Proxy_Env
  imports Gateway_Net
begin

text \<open>
  The proxy environment variables, \<open>infra/net/proxy-env.ts\<close>: which proxy an HTTP or HTTPS request uses, and which
  targets \<open>NO_PROXY\<close> exempts. The environment is a function from names to values, the URL parser that of the
  platform; IPv4 addresses are 32-bit words.
\<close>

unbundle bit_operations_syntax

type_synonym env = "string \<Rightarrow> string option"

definition proxy_env_keys :: "string list" where
  "proxy_env_keys = [''HTTP_PROXY'', ''HTTPS_PROXY'', ''ALL_PROXY'', ''http_proxy'', ''https_proxy'', ''all_proxy'']"

definition has_proxy_env_configured :: "env \<Rightarrow> bool" where
  "has_proxy_env_configured env \<longleftrightarrow> list_ex (\<lambda>k. normalize_optional_string (env k) \<noteq> None) proxy_env_keys"

text \<open>Undefined, null for a blank value, or the trimmed value.\<close>

definition normalize_proxy_env_value :: "string option \<Rightarrow> string option option" where
  "normalize_proxy_env_value v = map_option (\<lambda>s. if js_trim s \<noteq> [] then Some (js_trim s) else None) v"

definition lower_shadows :: "env \<Rightarrow> string \<Rightarrow> string \<Rightarrow> string option" where
  "lower_shadows env lower upper =
     (case normalize_proxy_env_value (env lower) of
        Some v \<Rightarrow> v
      | None \<Rightarrow> (case normalize_proxy_env_value (env upper) of Some v \<Rightarrow> v | None \<Rightarrow> None))"

definition resolve_env_http_proxy_url :: "bool \<Rightarrow> env \<Rightarrow> string option" where
  "resolve_env_http_proxy_url https env =
     (let http_proxy = lower_shadows env ''http_proxy'' ''HTTP_PROXY'';
          https_proxy = lower_shadows env ''https_proxy'' ''HTTPS_PROXY''
      in if https then (case https_proxy of Some p \<Rightarrow> Some p | None \<Rightarrow> http_proxy) else http_proxy)"

definition has_env_http_proxy_configured :: "bool \<Rightarrow> env \<Rightarrow> bool" where
  "has_env_http_proxy_configured https env \<longleftrightarrow> resolve_env_http_proxy_url https env \<noteq> None"

definition resolve_env_all_proxy_url :: "env \<Rightarrow> string option" where
  "resolve_env_all_proxy_url env = lower_shadows env ''all_proxy'' ''ALL_PROXY''"

text \<open>The explicit options of the agent: the HTTP and the HTTPS proxy.\<close>

definition resolve_env_http_proxy_agent_options :: "env \<Rightarrow> (string option \<times> string option) option" where
  "resolve_env_http_proxy_agent_options env =
     (let all_proxy = resolve_env_all_proxy_url env;
          http_proxy = (case resolve_env_http_proxy_url False env of Some p \<Rightarrow> Some p | None \<Rightarrow> all_proxy);
          https_proxy = (case resolve_env_http_proxy_url True env of Some p \<Rightarrow> Some p | None \<Rightarrow> http_proxy)
      in if http_proxy \<noteq> None \<or> https_proxy \<noteq> None then Some (http_proxy, https_proxy) else None)"

definition has_env_http_proxy_agent_configured :: "env \<Rightarrow> bool" where
  "has_env_http_proxy_agent_configured env \<longleftrightarrow> resolve_env_http_proxy_agent_options env \<noteq> None"

section \<open>NO_PROXY\<close>

definition decimal_value :: "string \<Rightarrow> nat" where
  "decimal_value s = foldl (\<lambda>n c. 10 * n + (of_char c - 48)) 0 s"

text \<open>One to \<open>k\<close> decimal digits.\<close>

definition short_digits :: "nat \<Rightarrow> string \<Rightarrow> bool" where
  "short_digits k s \<longleftrightarrow> s \<noteq> [] \<and> length s \<le> k \<and> list_all is_decimal_digit s"

definition parse_ipv4_address :: "string \<Rightarrow> 32 word option" where
  "parse_ipv4_address host =
     (let parts = js_split (CHR ''.'') host
      in if length parts \<noteq> 4 then None
         else if \<not> list_all (\<lambda>p. short_digits 3 p \<and> decimal_value p \<le> 255) parts then None
         else Some (foldl (\<lambda>v p. push_bit 8 v OR of_nat (decimal_value p)) 0 parts))"

definition cidr_mask :: "nat \<Rightarrow> 32 word" where
  "cidr_mask n = (if n = 0 then 0 else push_bit (32 - n) 0xffffffff)"

definition cidr_matches :: "32 word \<Rightarrow> 32 word \<Rightarrow> nat \<Rightarrow> bool" where
  "cidr_matches target network n \<longleftrightarrow> target AND cidr_mask n = network AND cidr_mask n"

text \<open>The test \<open>/^(\d{1,3}(?:\.\d{1,3}){3})\/(\d{1,2})$/\<close> with its groups.\<close>

definition cidr_match :: "string \<Rightarrow> (string \<times> string) option" where
  "cidr_match s =
     (case js_split (CHR ''/'') s of
        [address, bits] \<Rightarrow>
          if length (js_split (CHR ''.'') address) = 4 \<and> list_all (short_digits 3) (js_split (CHR ''.'') address) \<and> short_digits 2 bits
          then Some (address, bits) else None
      | _ \<Rightarrow> None)"

text \<open>The octets of a wildcard pattern against those of the target; the pattern has at most as many as the target.\<close>

fun wildcard_parts :: "string list \<Rightarrow> string list \<Rightarrow> bool" where
  "wildcard_parts [] ts \<longleftrightarrow> ts = []"
| "wildcard_parts (p # ps) ts \<longleftrightarrow>
     (if p = ''*'' then ps = [] \<or> wildcard_parts ps (tl ts)
      else ts \<noteq> [] \<and> short_digits 3 p \<and> decimal_value p = decimal_value (hd ts) \<and> wildcard_parts ps (tl ts))"

definition matches_ipv4_no_proxy_pattern :: "string \<Rightarrow> string \<Rightarrow> bool" where
  "matches_ipv4_no_proxy_pattern target_host entry_host =
     (case parse_ipv4_address target_host of
        None \<Rightarrow> False
      | Some target \<Rightarrow>
          (case cidr_match entry_host of
             Some (address, bits) \<Rightarrow>
               (case parse_ipv4_address address of
                  None \<Rightarrow> False
                | Some network \<Rightarrow> decimal_value bits \<le> 32 \<and> cidr_matches target network (decimal_value bits))
           | None \<Rightarrow>
               CHR ''*'' \<in> set entry_host \<and> length (js_split (CHR ''.'') entry_host) \<le> 4 \<and>
               wildcard_parts (js_split (CHR ''.'') entry_host) (js_split (CHR ''.'') target_host)))"

fun split_entries :: "string \<Rightarrow> string list" where
  "split_entries [] = [[]]"
| "split_entries (c # s) =
     (if c = CHR '','' \<or> js_is_space c then [] # split_entries s
      else (case split_entries s of [] \<Rightarrow> [[c]] | p # ps \<Rightarrow> (c # p) # ps))"

text \<open>The host and the port of an entry; nothing for a bracketed entry of another shape.\<close>

definition parse_no_proxy_entry :: "string \<Rightarrow> (string \<times> string option) option" where
  "parse_no_proxy_entry entry =
     (if prefix ''['' entry then
        (let host = takeWhile (\<lambda>c. c \<noteq> CHR '']'') (tl entry);
             rest = dropWhile (\<lambda>c. c \<noteq> CHR '']'') (tl entry)
         in if host = [] \<or> rest = [] then None
            else if rest = '']'' then Some (host, None)
            else if prefix '']:'' rest \<and> drop 2 rest \<noteq> [] \<and> list_all is_decimal_digit (drop 2 rest)
            then Some (host, Some (drop 2 rest))
            else None)
      else
        (let host = takeWhile (\<lambda>c. c \<noteq> CHR '':'') entry;
             port = drop (Suc (length host)) entry
         in if count_list entry (CHR '':'') = 1 \<and> port \<noteq> [] \<and> list_all is_decimal_digit port
            then Some (host, Some port) else Some (entry, None)))"

definition strip_wildcard_dot :: "string \<Rightarrow> string" where
  "strip_wildcard_dot h =
     (let h1 = (if prefix ''*.'' h then drop 2 h else h) in if prefix ''.'' h1 then tl h1 else h1)"

definition no_proxy_entry_matches :: "string \<Rightarrow> string \<Rightarrow> string \<Rightarrow> bool" where
  "no_proxy_entry_matches target_host target_port raw_entry =
     (let entry = js_lower (js_trim raw_entry)
      in if entry = [] then False
         else case parse_no_proxy_entry entry of
           None \<Rightarrow> False
         | Some (host, port) \<Rightarrow>
             if port \<noteq> None \<and> port \<noteq> Some target_port then False
             else
               (let n = strip_wildcard_dot host
                in if n = [] \<or> n = ''*'' then False
                   else matches_ipv4_no_proxy_pattern target_host n \<or> target_host = n \<or> suffix (CHR ''.'' # n) target_host))"

definition strip_url_brackets :: "string \<Rightarrow> string" where
  "strip_url_brackets h =
     (let h1 = (if prefix ''['' h then tl h else h) in if h1 \<noteq> [] \<and> last h1 = CHR '']'' then butlast h1 else h1)"

definition matches_no_proxy :: "platform \<Rightarrow> string \<Rightarrow> env \<Rightarrow> bool" where
  "matches_no_proxy np target_url env =
     (let raw = (case env ''no_proxy'' of Some v \<Rightarrow> v | None \<Rightarrow> (case env ''NO_PROXY'' of Some v \<Rightarrow> v | None \<Rightarrow> []))
      in if raw = [] then False
         else case np_url np target_url of
           None \<Rightarrow> False
         | Some u \<Rightarrow>
             (let host = strip_url_brackets (js_lower (url_hostname u));
                  port = (if url_port u \<noteq> [] then url_port u
                          else if url_protocol u = ''https:'' then ''443''
                          else if url_protocol u = ''http:'' then ''80'' else [])
              in if host = [] then False
                 else if raw = ''*'' then True
                 else list_ex (no_proxy_entry_matches host port) (split_entries raw)))"

definition should_use_env_http_proxy_for_url :: "platform \<Rightarrow> string \<Rightarrow> env \<Rightarrow> bool" where
  "should_use_env_http_proxy_for_url np target_url env =
     (case np_url np target_url of
        None \<Rightarrow> False
      | Some u \<Rightarrow>
          if url_protocol u = ''http:'' then has_env_http_proxy_configured False env \<and> \<not> matches_no_proxy np target_url env
          else if url_protocol u = ''https:'' then has_env_http_proxy_configured True env \<and> \<not> matches_no_proxy np target_url env
          else False)"

section \<open>Properties\<close>

lemma ones32: "(0xffffffff :: 32 word) = mask 32"
  by (simp add: mask_eq_exp_minus_1)

lemma cidr_mask_bit: "n \<le> 32 \<Longrightarrow> bit (cidr_mask n) i \<longleftrightarrow> 32 - n \<le> i \<and> i < 32"
  unfolding cidr_mask_def ones32 by (auto simp: bit_simps)

text \<open>a CIDR entry of \<open>NO_PROXY\<close> exempts exactly the targets of its network: with the mask computed by shifting a
  32-bit number, a target matches when it agrees with the network in the leading bits of the prefix, for every prefix
  from 0 to 32.
\<close>

theorem no_proxy_cidr_is_network:
  assumes "n \<le> 32"
  shows "cidr_matches target network n \<longleftrightarrow> drop_bit (32 - n) target = drop_bit (32 - n) network"
proof -
  have "cidr_matches target network n \<longleftrightarrow> (\<forall>i. 32 - n \<le> i \<and> i < 32 \<longrightarrow> bit target i = bit network i)"
  proof
    assume m: "cidr_matches target network n"
    show "\<forall>i. 32 - n \<le> i \<and> i < 32 \<longrightarrow> bit target i = bit network i"
    proof (intro allI impI)
      fix i assume i: "32 - n \<le> i \<and> i < 32"
      have "bit (target AND cidr_mask n) i = bit (network AND cidr_mask n) i" using m by (simp add: cidr_matches_def)
      then show "bit target i = bit network i" using i by (simp add: bit_and_iff cidr_mask_bit [OF assms])
    qed
  next
    assume "\<forall>i. 32 - n \<le> i \<and> i < 32 \<longrightarrow> bit target i = bit network i"
    then show "cidr_matches target network n"
      unfolding cidr_matches_def by (intro bit_word_eqI) (auto simp: bit_and_iff cidr_mask_bit [OF assms])
  qed
  also have "\<dots> \<longleftrightarrow> drop_bit (32 - n) target = drop_bit (32 - n) network"
  proof
    assume a: "\<forall>i. 32 - n \<le> i \<and> i < 32 \<longrightarrow> bit target i = bit network i"
    show "drop_bit (32 - n) target = drop_bit (32 - n) network"
    proof (rule bit_word_eqI)
      fix i
      show "bit (drop_bit (32 - n) target) i = bit (drop_bit (32 - n) network) i"
        using a bit_imp_le_length [of target "32 - n + i"] bit_imp_le_length [of network "32 - n + i"]
        by (cases "32 - n + i < 32") (simp_all add: bit_drop_bit_eq, blast+)
    qed
  next
    assume e: "drop_bit (32 - n) target = drop_bit (32 - n) network"
    show "\<forall>i. 32 - n \<le> i \<and> i < 32 \<longrightarrow> bit target i = bit network i"
    proof (intro allI impI)
      fix i assume i: "32 - n \<le> i \<and> i < 32"
      have "bit (drop_bit (32 - n) target) (i - (32 - n)) = bit (drop_bit (32 - n) network) (i - (32 - n))" by (simp add: e)
      then show "bit target i = bit network i" using i by (simp add: bit_drop_bit_eq)
    qed
  qed
  finally show ?thesis .
qed

theorem no_proxy_cidr_is_network_witness:
  "cidr_matches 0x0a000005 0x0a000000 24 \<longleftrightarrow> drop_bit (32 - 24) (0x0a000005 :: 32 word) = drop_bit (32 - 24) 0x0a000000"
  by (rule no_proxy_cidr_is_network) simp

end
