(* ===== verification/Guarded_Fetch.thy ===== *)
theory Guarded_Fetch
  imports SSRF_Policy Proxy_Env JS_Numbers
begin

text \<open>
  The guarded fetch, \<open>infra/net/fetch-guard.ts\<close> with \<open>redirect-headers.ts\<close>, \<open>fetch-headers.ts\<close> and
  \<open>configured-local-origin-bypass.ts\<close>: each hop of a redirect chain is checked against the request policy, gets a
  dispatcher, and carries on the request's method, body and headers under the redirect rules.

  The network is the parameter \<open>fe_respond\<close>: the answer to the last of the requests sent so far, or nothing when
  the fetch fails. A dispatcher is what the code builds it from: a pinned lookup, the environment's proxy or an
  unpinned policy; the connect and TLS options it passes through, timeouts, abort signals, the release of a
  dispatcher and the debug capture of exchanges are not modelled. Headers are pairs of names and values, in the order
  in which they were given. The URL parser is \<open>fe_api\<close>, that of \<open>proxy-env.ts\<close> the one of the platform.
\<close>

section \<open>Headers\<close>

type_synonym header_list = "(string \<times> string) list"

text \<open>\<open>new Headers(...)\<close>: names in lower case, the values of equal names joined.\<close>

definition new_headers :: "header_list \<Rightarrow> (string, string) js_map" where
  "new_headers hs =
     fold (\<lambda>(k, v) m. js_set (js_lower k) (case js_get m (js_lower k) of None \<Rightarrow> v | Some w \<Rightarrow> w @ '', '' @ v) m) hs []"

definition safe_redirect_headers :: "string list" where
  "safe_redirect_headers =
     [''accept'', ''accept-encoding'', ''accept-language'', ''cache-control'', ''content-language'', ''content-type'', ''if-match'',
      ''if-modified-since'', ''if-none-match'', ''if-unmodified-since'', ''pragma'', ''range'', ''user-agent'']"

definition retain_safe_headers :: "header_list \<Rightarrow> header_list" where
  "retain_safe_headers hs = filter (\<lambda>(k, _). normalize_lowercase_string_or_empty (Some k) \<in> set safe_redirect_headers) (new_headers hs)"

definition body_headers :: "string list" where
  "body_headers =
     [''content-encoding'', ''content-language'', ''content-length'', ''content-location'', ''content-type'', ''transfer-encoding'']"

definition drop_body_headers :: "header_list option \<Rightarrow> header_list option" where
  "drop_body_headers h = map_option (\<lambda>hs. fold js_delete body_headers (new_headers hs)) h"

section \<open>Requests\<close>

text \<open>Methods are ASCII tokens.\<close>

definition ascii_upper :: "string \<Rightarrow> string" where
  "ascii_upper s = map (\<lambda>c. let n = (of_char c :: nat) in if 97 \<le> n \<and> n \<le> 122 then char_of (n - 32) else c) s"

record fetch_init =
  fi_method :: "string option"
  fi_body :: "string option"
  fi_headers :: "header_list option"

definition request_method :: "fetch_init option \<Rightarrow> string" where
  "request_method i =
     (case i of
        None \<Rightarrow> ''GET''
      | Some i \<Rightarrow> (case fi_method i of None \<Rightarrow> ''GET'' | Some m \<Rightarrow> ascii_upper m))"

definition get_redirect_visit_key :: "string \<Rightarrow> fetch_init option \<Rightarrow> string" where
  "get_redirect_visit_key u i = request_method i @ '' '' @ u"

definition retain_safe_headers_for_cross_origin_redirect :: "fetch_init option \<Rightarrow> fetch_init option" where
  "retain_safe_headers_for_cross_origin_redirect i =
     map_option (\<lambda>i. i\<lparr>fi_headers := map_option retain_safe_headers (fi_headers i)\<rparr>) i"

definition resolve_retained_authorization :: "fetch_init option \<Rightarrow> url \<Rightarrow> string list \<Rightarrow> string option" where
  "resolve_retained_authorization i next_url allowlist =
     (case Option.bind i fi_headers of
        None \<Rightarrow> None
      | Some hs \<Rightarrow>
          if allowlist = [] then None
          else if url_protocol next_url \<noteq> ''https:'' then None
          else if ''*'' \<notin> set allowlist \<and> \<not> matches_hostname_allowlist (url_hostname next_url) allowlist then None
          else js_get (new_headers hs) ''authorization'')"

definition restore_redirect_authorization :: "fetch_init option \<Rightarrow> string option \<Rightarrow> fetch_init option" where
  "restore_redirect_authorization i authorization =
     (case authorization of
        None \<Rightarrow> i
      | Some a \<Rightarrow>
          if a = [] then i
          else
            (let hs = (case Option.bind i fi_headers of Some hs \<Rightarrow> hs | None \<Rightarrow> []);
                 hs' = js_set ''authorization'' a (new_headers hs)
             in Some (case i of
                  Some i \<Rightarrow> i\<lparr>fi_headers := Some hs'\<rparr>
                | None \<Rightarrow> \<lparr>fi_method = None, fi_body = None, fi_headers = Some hs'\<rparr>)))"

definition rewrite_redirect_init_for_method :: "fetch_init option \<Rightarrow> nat \<Rightarrow> fetch_init option" where
  "rewrite_redirect_init_for_method i status =
     (case i of
        None \<Rightarrow> None
      | Some j \<Rightarrow>
          (let m = request_method i;
               force_get = (if status = 303 then m \<noteq> ''GET'' \<and> m \<noteq> ''HEAD'' else (status = 301 \<or> status = 302) \<and> m = ''POST'')
           in if \<not> force_get then i
              else Some (j\<lparr>fi_method := Some ''GET'', fi_body := None, fi_headers := drop_body_headers (fi_headers j)\<rparr>)))"

definition rewrite_redirect_init_for_cross_origin :: "fetch_init option \<Rightarrow> bool \<Rightarrow> fetch_init option" where
  "rewrite_redirect_init_for_cross_origin i allow_unsafe_replay =
     (case i of
        None \<Rightarrow> None
      | Some j \<Rightarrow>
          if allow_unsafe_replay then i
          else if request_method i = ''GET'' \<or> request_method i = ''HEAD'' then i
          else Some (j\<lparr>fi_body := None, fi_headers := drop_body_headers (fi_headers j)\<rparr>))"

definition is_redirect_status :: "nat \<Rightarrow> bool" where
  "is_redirect_status s \<longleftrightarrow> s = 301 \<or> s = 302 \<or> s = 303 \<or> s = 307 \<or> s = 308"

section \<open>Options and dispatchers\<close>

datatype fetch_mode = Strict | TrustedEnvProxy | TrustedExplicitProxy

datatype dispatcher_policy =
  Direct "(string \<times> string list) option"
| EnvProxy "(string \<times> string list) option"
| ExplicitProxy string bool "(string \<times> string list) option"

fun pinned_override :: "dispatcher_policy option \<Rightarrow> (string \<times> string list) option" where
  "pinned_override None = None"
| "pinned_override (Some (Direct ov)) = ov"
| "pinned_override (Some (EnvProxy ov)) = ov"
| "pinned_override (Some (ExplicitProxy u b ov)) = ov"

fun is_explicit_proxy :: "dispatcher_policy option \<Rightarrow> bool" where
  "is_explicit_proxy (Some (ExplicitProxy u b ov)) = True"
| "is_explicit_proxy _ = False"

datatype dispatcher = NoDispatcher | EnvAgent | PinnedAgent pinned_lookup "dispatcher_policy option" | UnpinnedAgent dispatcher_policy

record guarded_fetch =
  gf_url :: string
  gf_init :: "fetch_init option"
  gf_max_redirects :: "js_value option"
  gf_allow_unsafe_replay :: bool
  gf_require_https :: bool
  gf_policy :: "ssrf_policy option"
  gf_dispatcher_policy :: "dispatcher_policy option"
  gf_resolve_dispatcher_policy :: "url \<Rightarrow> dispatcher_policy option"
  gf_retain_authorization :: "string list"
  gf_mode :: "fetch_mode option"
  gf_pin_dns :: bool
  gf_legacy_env_proxy :: bool
  gf_managed_bypass :: "string option"
  gf_use_env_proxy :: bool

datatype loopback_mode = GatewayOnly | ProxyLoopback | BlockLoopback

record fetch_response =
  fr_status :: nat
  fr_location :: "string option"

record sent_request =
  sr_url :: url
  sr_init :: "fetch_init option"
  sr_dispatcher :: dispatcher

record fetch_env =
  fe_api :: url_api
  fe_platform :: platform
  fe_env :: env
  fe_resolver :: resolver
  fe_custom_lookup :: bool
  fe_mocked :: bool
  fe_loopback_mode :: "loopback_mode option"
  fe_respond :: "sent_request list \<Rightarrow> fetch_response option"

datatype fetch_error =
  InvalidUrl | HttpsRequired | PinningNeedsHttps | InvalidProxyUrl | ProxyScheme | Refused ssrf_error | LoopbackBlocked
  | NetworkFailed | MissingLocation nat | InvalidLocation | TooManyRedirects nat | RedirectLoop

definition default_max_redirects :: nat where
  "default_max_redirects = 3"

definition max_redirects :: "guarded_fetch \<Rightarrow> nat" where
  "max_redirects p =
     (case Option.bind (gf_max_redirects p) as_finite_number of
        Some q \<Rightarrow> nat (max 0 \<lfloor>q\<rfloor>)
      | None \<Rightarrow> default_max_redirects)"

definition resolve_guarded_fetch_mode :: "guarded_fetch \<Rightarrow> fetch_mode" where
  "resolve_guarded_fetch_mode p =
     (case gf_mode p of
        Some m \<Rightarrow> m
      | None \<Rightarrow> if gf_legacy_env_proxy p then TrustedEnvProxy else Strict)"

definition is_managed_proxy_active :: "env \<Rightarrow> bool" where
  "is_managed_proxy_active env \<longleftrightarrow> env ''OPENCLAW_PROXY_ACTIVE'' = Some ''1''"

section \<open>The bypass of the managed proxy\<close>

definition resolve_http_origin :: "url_api \<Rightarrow> string \<Rightarrow> string option" where
  "resolve_http_origin api v =
     (case ua_parse api (js_trim v) of
        None \<Rightarrow> None
      | Some u \<Rightarrow>
          if \<not> http_protocol u then None
          else Some (js_lower (url_origin (ua_with_hostname api u (strip_trailing_dots (url_hostname u))))))"

definition is_loopback_bypass_host :: "ipaddr \<Rightarrow> string \<Rightarrow> bool" where
  "is_loopback_bypass_host lib hostname \<longleftrightarrow>
     (let n = strip_ipv6_brackets (strip_trailing_dots (js_lower (js_trim hostname)))
      in n = ''localhost'' \<or> is_loopback_ip_address lib (Some n))"

definition is_exact_local_origin_bypass :: "fetch_env \<Rightarrow> url \<Rightarrow> string option \<Rightarrow> bool" where
  "is_exact_local_origin_bypass env u bypass =
     (case bypass of
        None \<Rightarrow> False
      | Some base_url \<Rightarrow>
          (case resolve_http_origin (fe_api env) base_url of
             None \<Rightarrow> False
           | Some base_origin \<Rightarrow>
               base_origin \<noteq> [] \<and>
               (case ua_parse (fe_api env) (js_trim base_url) of
                  None \<Rightarrow> False
                | Some b \<Rightarrow>
                    is_loopback_bypass_host (np_lib (fe_platform env)) (url_hostname b) \<and>
                    resolve_http_origin (fe_api env) (ua_text (fe_api env) u) = Some base_origin)))"

definition use_local_origin_bypass :: "fetch_env \<Rightarrow> url \<Rightarrow> string option \<Rightarrow> string list \<Rightarrow> fetch_error + bool" where
  "use_local_origin_bypass env u bypass addresses =
     (if \<not> is_exact_local_origin_bypass env u bypass then Inr False
      else if fe_loopback_mode env = Some ProxyLoopback then Inr False
      else if fe_loopback_mode env = Some BlockLoopback \<and> is_loopback_bypass_host (np_lib (fe_platform env)) (url_hostname u)
      then Inl LoopbackBlocked
      else Inr (addresses \<noteq> [] \<and> list_all (\<lambda>a. is_loopback_ip_address (np_lib (fe_platform env)) (Some a)) addresses))"

section \<open>One hop\<close>

definition assert_explicit_proxy_allowed :: "fetch_env \<Rightarrow> dispatcher_policy option \<Rightarrow> ssrf_policy option \<Rightarrow> fetch_error option" where
  "assert_explicit_proxy_allowed env dp policy =
     (case dp of
        Some (ExplicitProxy proxy_url allow_private ov) \<Rightarrow>
          (case ua_parse (fe_api env) proxy_url of
             None \<Rightarrow> Some InvalidProxyUrl
           | Some u \<Rightarrow>
               if \<not> http_protocol u then Some ProxyScheme
               else
                 (let proxy_policy =
                    (if policy \<noteq> None \<or> allow_private
                     then Some ((effective policy)\<lparr>sp_hostname_allowlist := [],
                            sp_allow_private := sp_allow_private (effective policy) \<or> allow_private\<rparr>)
                     else None)
                  in case resolve_pinned_hostname_with_policy (np_lib (fe_platform env)) (fe_resolver env) (url_hostname u) proxy_policy of
                       Inl e \<Rightarrow> Some (Refused e)
                     | Inr _ \<Rightarrow> None))
      | _ \<Rightarrow> None)"

definition pin :: "fetch_env \<Rightarrow> url \<Rightarrow> ssrf_policy option \<Rightarrow> fetch_error + pinned_hostname" where
  "pin env u policy =
     (case resolve_pinned_hostname_with_policy (np_lib (fe_platform env)) (fe_resolver env) (url_hostname u) policy of
        Inl e \<Rightarrow> Inl (Refused e)
      | Inr ph \<Rightarrow> Inr ph)"

definition create_pinned_dispatcher ::
    "ipaddr \<Rightarrow> pinned_hostname \<Rightarrow> dispatcher_policy option \<Rightarrow> ssrf_policy option \<Rightarrow> fetch_error + dispatcher" where
  "create_pinned_dispatcher lib ph dp policy =
     (case resolve_pinned_dispatcher_lookup lib ph (pinned_override dp) policy of
        Inl e \<Rightarrow> Inl (Refused e)
      | Inr l \<Rightarrow> Inr (PinnedAgent l dp))"

definition create_policy_dispatcher_without_pinned_dns :: "dispatcher_policy option \<Rightarrow> dispatcher" where
  "create_policy_dispatcher_without_pinned_dns dp = (case dp of None \<Rightarrow> NoDispatcher | Some p \<Rightarrow> UnpinnedAgent p)"

definition hostname_allowed :: "fetch_env \<Rightarrow> url \<Rightarrow> ssrf_policy option \<Rightarrow> fetch_error option" where
  "hostname_allowed env u policy =
     (case assert_hostname_allowed_with_policy (np_lib (fe_platform env)) (url_hostname u) policy of
        Inl e \<Rightarrow> Some (Refused e)
      | Inr _ \<Rightarrow> None)"

definition hop_dispatcher_policy :: "guarded_fetch \<Rightarrow> url \<Rightarrow> dispatcher_policy option" where
  "hop_dispatcher_policy p u =
     (case gf_resolve_dispatcher_policy p u of Some d \<Rightarrow> Some d | None \<Rightarrow> gf_dispatcher_policy p)"

text \<open>The checks of a hop and the dispatcher it is sent with.\<close>

definition choose_dispatcher :: "fetch_env \<Rightarrow> guarded_fetch \<Rightarrow> url \<Rightarrow> fetch_error + dispatcher" where
  "choose_dispatcher env p u =
     (let lib = np_lib (fe_platform env);
          mode = resolve_guarded_fetch_mode p;
          policy = resolve_ssrf_policy_for_url (fe_api env) u (gf_policy p);
          dp = hop_dispatcher_policy p u;
          trusted_explicit = (mode = TrustedExplicitProxy \<and> is_explicit_proxy dp);
          env_proxy_for_url = should_use_env_http_proxy_for_url (fe_platform env) (ua_text (fe_api env) u) (fe_env env);
          strict_managed = (mode = Strict \<and> is_managed_proxy_active (fe_env env));
          check_bypass = (strict_managed \<and> is_exact_local_origin_bypass env u (gf_managed_bypass p));
          managed = (strict_managed \<and> (env_proxy_for_url \<or> check_bypass));
          trusted_env = ((mode = TrustedEnvProxy \<or> gf_use_env_proxy p \<and> \<not> managed) \<and> dp = None \<and> env_proxy_for_url);
          mocked = (fe_mocked env \<and> \<not> fe_custom_lookup env \<and> \<not> trusted_env \<and> \<not> managed \<and> \<not> trusted_explicit \<and> gf_pin_dns p)
      in if \<not> trusted_explicit \<and> gf_pin_dns p \<and> is_explicit_proxy dp \<and> url_protocol u \<noteq> ''https:'' then Inl PinningNeedsHttps
         else case assert_explicit_proxy_allowed env dp (gf_policy p) of
           Some e \<Rightarrow> Inl e
         | None \<Rightarrow>
             (case (if trusted_env \<or> managed \<or> \<not> gf_pin_dns p then hostname_allowed env u policy else None) of
                Some e \<Rightarrow> Inl e
              | None \<Rightarrow>
                  if trusted_env then Inr EnvAgent
                  else if managed then
                    (if check_bypass then
                       (case pin env u policy of
                          Inl e \<Rightarrow> Inl e
                        | Inr ph \<Rightarrow>
                            (case use_local_origin_bypass env u (gf_managed_bypass p) (ph_addresses ph) of
                               Inl e \<Rightarrow> Inl e
                             | Inr True \<Rightarrow> create_pinned_dispatcher lib ph dp policy
                             | Inr False \<Rightarrow> Inr EnvAgent))
                     else Inr EnvAgent)
                  else if trusted_explicit then
                    (case hostname_allowed env u policy of
                       Some e \<Rightarrow> Inl e
                     | None \<Rightarrow> Inr (create_policy_dispatcher_without_pinned_dns dp))
                  else if mocked then
                    (case hostname_allowed env u policy of Some e \<Rightarrow> Inl e | None \<Rightarrow> Inr NoDispatcher)
                  else
                    (case pin env u policy of
                       Inl e \<Rightarrow> Inl e
                     | Inr ph \<Rightarrow>
                         if \<not> gf_pin_dns p then Inr (create_policy_dispatcher_without_pinned_dns dp)
                         else create_pinned_dispatcher lib ph dp policy)))"

text \<open>The request that follows a redirect.\<close>

definition next_init :: "guarded_fetch \<Rightarrow> url \<Rightarrow> url \<Rightarrow> nat \<Rightarrow> fetch_init option \<Rightarrow> fetch_init option" where
  "next_init p u next_url status i =
     (let authorization = resolve_retained_authorization i next_url (gf_retain_authorization p);
          i1 = rewrite_redirect_init_for_method i status
      in if url_origin next_url \<noteq> url_origin u
         then restore_redirect_authorization
                (retain_safe_headers_for_cross_origin_redirect
                   (rewrite_redirect_init_for_cross_origin i1 (gf_allow_unsafe_replay p))) authorization
         else i1)"

section \<open>The loop\<close>

text \<open>The loop counts down the redirects that are left, so that it ends; it returns the outcome and the requests sent.\<close>

fun fetch_loop ::
    "fetch_env \<Rightarrow> guarded_fetch \<Rightarrow> nat \<Rightarrow> string \<Rightarrow> fetch_init option \<Rightarrow> string list \<Rightarrow> sent_request list \<Rightarrow>
     (fetch_error + fetch_response \<times> string) \<times> sent_request list" where
  "fetch_loop env p left_over current i visited sent =
     (case ua_parse (fe_api env) current of
        None \<Rightarrow> (Inl InvalidUrl, sent)
      | Some u \<Rightarrow>
          if \<not> http_protocol u then (Inl InvalidUrl, sent)
          else if gf_require_https p \<and> url_protocol u \<noteq> ''https:'' then (Inl HttpsRequired, sent)
          else case choose_dispatcher env p u of
            Inl e \<Rightarrow> (Inl e, sent)
          | Inr d \<Rightarrow>
              (let sent' = sent @ [\<lparr>sr_url = u, sr_init = i, sr_dispatcher = d\<rparr>]
               in case fe_respond env sent' of
                    None \<Rightarrow> (Inl NetworkFailed, sent')
                  | Some r \<Rightarrow>
                      if \<not> is_redirect_status (fr_status r) then (Inr (r, current), sent')
                      else (case fr_location r of
                              None \<Rightarrow> (Inl (MissingLocation (fr_status r)), sent')
                            | Some l \<Rightarrow>
                                if l = [] then (Inl (MissingLocation (fr_status r)), sent')
                                else (case left_over of
                                        0 \<Rightarrow> (Inl (TooManyRedirects (max_redirects p)), sent')
                                      | Suc n \<Rightarrow>
                                          (case ua_resolve (fe_api env) l u of
                                             None \<Rightarrow> (Inl InvalidLocation, sent')
                                           | Some v \<Rightarrow>
                                               (let j = next_init p u v (fr_status r) i;
                                                    k = get_redirect_visit_key (ua_text (fe_api env) v) j
                                                in if k \<in> set visited then (Inl RedirectLoop, sent')
                                                   else fetch_loop env p n (ua_text (fe_api env) v) j (visited @ [k]) sent'))))))"

declare fetch_loop.simps [simp del]

definition fetch_with_ssrf_guard_internal ::
    "fetch_env \<Rightarrow> guarded_fetch \<Rightarrow> (fetch_error + fetch_response \<times> string) \<times> sent_request list" where
  "fetch_with_ssrf_guard_internal env p =
     fetch_loop env p (max_redirects p) (gf_url p) (gf_init p) [get_redirect_visit_key (gf_url p) (gf_init p)] []"

definition fetch_with_ssrf_guard ::
    "fetch_env \<Rightarrow> guarded_fetch \<Rightarrow> (fetch_error + fetch_response \<times> string) \<times> sent_request list" where
  "fetch_with_ssrf_guard env p = fetch_with_ssrf_guard_internal env (p\<lparr>gf_managed_bypass := None\<rparr>)"

definition fetch_configured_local_origin ::
    "fetch_env \<Rightarrow> guarded_fetch \<Rightarrow> string \<Rightarrow> (fetch_error + fetch_response \<times> string) \<times> sent_request list" where
  "fetch_configured_local_origin env p base_url = fetch_with_ssrf_guard_internal env (p\<lparr>gf_managed_bypass := Some base_url\<rparr>)"

end
