(* ===== verification/SSRF_Props.thy ===== *)
theory SSRF_Props
  imports SSRF_Policy
begin

text \<open>
  What the request policy guarantees: no IPv6 form hides a forbidden IPv4 address, and a pinned hostname is
  only ever looked up to addresses that were checked, whatever the resolver answers.
\<close>

unbundle bit_operations_syntax

section \<open>Embedded addresses\<close>

definition hextet :: "8 word \<Rightarrow> 8 word \<Rightarrow> 16 word" where
  "hextet hi lo = push_bit 8 (ucast hi) OR ucast lo"

lemma low_byte: "(0xff :: 16 word) = mask 8"
  by (simp add: mask_eq_exp_minus_1)

lemma hextet_high: "ucast (drop_bit 8 (hextet hi lo) AND 0xff) = hi"
  unfolding low_byte by (rule bit_word_eqI) (auto simp: hextet_def bit_simps dest: bit_imp_le_length)

lemma hextet_low: "ucast (hextet hi lo AND 0xff) = lo"
  unfolding low_byte by (rule bit_word_eqI) (auto simp: hextet_def bit_simps)

lemma decode_hextets: "decode_ipv4_from_hextets (hextet a b) (hextet c d) = IP4 a b c d"
  by (simp add: decode_ipv4_from_hextets_def hextet_high hextet_low)

fun high_hextet :: "ip4 \<Rightarrow> 16 word" where "high_hextet (IP4 a b c d) = hextet a b"

fun low_hextet :: "ip4 \<Rightarrow> 16 word" where "low_hextet (IP4 a b c d) = hextet c d"

lemma decode_ip4: "decode_ipv4_from_hextets (high_hextet x) (low_hextet x) = x"
  by (cases x) (simp add: decode_hextets)

text \<open>The ways in which an IPv6 address carries an IPv4 one.\<close>

datatype carrier = Mapped | Translated | Well_known | Six_to_four | Teredo | Compatible | Isatap

fun carries :: "ipaddr \<Rightarrow> carrier \<Rightarrow> ip6 \<Rightarrow> ip4 \<Rightarrow> bool" where
  "carries lib Mapped h x \<longleftrightarrow> lib_range6 lib h = ''ipv4Mapped'' \<and> lib_to_ipv4 lib h = x"
| "carries lib Translated (IP6 p0 p1 p2 p3 p4 p5 p6 p7) x \<longleftrightarrow>
     lib_range6 lib (IP6 p0 p1 p2 p3 p4 p5 p6 p7) = ''rfc6145'' \<and> p6 = high_hextet x \<and> p7 = low_hextet x"
| "carries lib Well_known (IP6 p0 p1 p2 p3 p4 p5 p6 p7) x \<longleftrightarrow>
     lib_range6 lib (IP6 p0 p1 p2 p3 p4 p5 p6 p7) = ''rfc6052'' \<and> p6 = high_hextet x \<and> p7 = low_hextet x"
| "carries lib Six_to_four (IP6 p0 p1 p2 p3 p4 p5 p6 p7) x \<longleftrightarrow>
     lib_range6 lib (IP6 p0 p1 p2 p3 p4 p5 p6 p7) = ''6to4'' \<and> p1 = high_hextet x \<and> p2 = low_hextet x"
| "carries lib Teredo (IP6 p0 p1 p2 p3 p4 p5 p6 p7) x \<longleftrightarrow>
     lib_range6 lib (IP6 p0 p1 p2 p3 p4 p5 p6 p7) = ''teredo'' \<and> p6 = NOT (high_hextet x) \<and> p7 = NOT (low_hextet x)"
| "carries lib Compatible (IP6 p0 p1 p2 p3 p4 p5 p6 p7) x \<longleftrightarrow>
     lib_range6 lib (IP6 p0 p1 p2 p3 p4 p5 p6 p7) \<notin> {''ipv4Mapped'', ''rfc6145'', ''rfc6052'', ''6to4'', ''teredo''} \<and>
     p0 = 0 \<and> p1 = 0 \<and> p2 = 0 \<and> p3 = 0 \<and> p4 = 0 \<and> p5 = 0 \<and> p6 = high_hextet x \<and> p7 = low_hextet x"
| "carries lib Isatap (IP6 p0 p1 p2 p3 p4 p5 p6 p7) x \<longleftrightarrow>
     lib_range6 lib (IP6 p0 p1 p2 p3 p4 p5 p6 p7) \<notin> {''ipv4Mapped'', ''rfc6145'', ''rfc6052'', ''6to4'', ''teredo''} \<and>
     p4 \<in> {0, 0x0100, 0x0200, 0x0300} \<and> p5 = 0x5efe \<and> p6 = high_hextet x \<and> p7 = low_hextet x"

lemma xor_ones: "NOT (w XOR (0xffff :: 16 word)) = w"
proof -
  have "(0xffff :: 16 word) = -1" by simp
  then show ?thesis by (simp add: bit_eq_iff bit_simps)
qed

lemma carries_extracted:
  assumes "carries lib c h x"
  shows "extract_embedded_ipv4_from_ipv6 lib h = Some x"
proof -
  obtain p0 p1 p2 p3 p4 p5 p6 p7 where h: "h = IP6 p0 p1 p2 p3 p4 p5 p6 p7" by (cases h)
  show ?thesis using assms
    by (cases c) (auto simp: h extract_embedded_ipv4_from_ipv6_def Let_def decode_ip4 xor_ones)
qed

section \<open>Screened addresses\<close>

text \<open>An address that a request to the hostname \<open>n\<close> may reach: any address when the operator allows private networks,
  for a hostname that is trusted by name any but the unspecified, link-local, metadata and, unless the name itself is
  a loopback name, loopback addresses, and otherwise any address that is not blocked.\<close>

definition screened :: "ipaddr \<Rightarrow> ssrf_policy option \<Rightarrow> string \<Rightarrow> string \<Rightarrow> bool" where
  "screened lib p n a \<longleftrightarrow>
     is_private_network_allowed_by_policy p \<or>
     (if n \<in> set (normalize_policy_hostnames (sp_allowed_hostnames (effective p)))
      then \<not> unspecified_including_embedded lib a \<and> \<not> is_link_local_ip_address lib (Some a) \<and>
        \<not> is_cloud_metadata_ip_address lib (Some a) \<and>
        (is_explicit_loopback_hostname lib n \<or> \<not> loopback_including_embedded lib a)
      else \<not> is_blocked_hostname_or_ip lib a p)"

lemma screened_by_checks:
  assumes "should_skip_private_network_checks n p \<or> resolved_addresses_allowed lib as p"
    and "\<not> should_skip_private_network_checks n p \<or> is_private_network_allowed_by_policy p \<or> trusted_hostname_addresses_allowed lib as n"
    and "a \<in> set as"
  shows "screened lib p n a"
  using assms
  by (auto simp: screened_def should_skip_private_network_checks_def resolved_addresses_allowed_def
      trusted_hostname_addresses_allowed_def list_all_iff)

lemma dedupe_fold:
  "set (map la_address (fold (\<lambda>r seen. if la_address r \<in> set (map la_address seen) then seen else seen @ [r]) rs acc)) =
   set (map la_address acc) \<union> set (map la_address rs)"
  by (induction rs arbitrary: acc) (auto simp: image_iff)

lemma dedupe_and_prefer_ipv4_set: "set (dedupe_and_prefer_ipv4 rs) = set (map la_address rs)"
  using dedupe_fold [of rs "[]"] by (auto simp: dedupe_and_prefer_ipv4_def Let_def)

definition lookup_addresses :: "pinned_lookup \<Rightarrow> string set" where
  "lookup_addresses l = fst ` set (pl_records l)"

lemma create_pinned_lookup_Inr:
  assumes "create_pinned_lookup h as = Inr l"
  shows "lookup_addresses l = set as" "pl_hostname l = normalize_hostname h" "pl_records l \<noteq> []" "pl_index l = 0"
  using assms by (auto simp: create_pinned_lookup_def lookup_addresses_def address_record_def image_image split: if_splits)

lemma pinned_hostname_props:
  assumes "resolve_pinned_hostname_with_policy lib resolve hostname p = Inr ph"
  shows "ph_hostname ph = normalize_hostname hostname" "ph_hostname ph \<noteq> []"
    and "matches_hostname_allowlist (ph_hostname ph) (normalize_hostname_allowlist (sp_hostname_allowlist (effective p)))"
    and "\<not> should_skip_private_network_checks (ph_hostname ph) p \<Longrightarrow> \<not> is_blocked_hostname_or_ip lib (ph_hostname ph) p"
    and "pl_hostname (ph_lookup ph) = normalize_hostname (ph_hostname ph)" "pl_records (ph_lookup ph) \<noteq> []"
    and "a \<in> lookup_addresses (ph_lookup ph) \<Longrightarrow> screened lib p (ph_hostname ph) a"
    and "\<exists>rs. resolve (ph_hostname ph) = Some rs \<and> lookup_addresses (ph_lookup ph) = set (map la_address rs)"
proof -
  define n where "n = normalize_hostname hostname"
  define skip where "skip = should_skip_private_network_checks n p"
  have checks: "resolve_hostname_policy_checks lib hostname p = Inr (n, skip)" "n \<noteq> []"
    "matches_hostname_allowlist n (normalize_hostname_allowlist (sp_hostname_allowlist (effective p)))"
    "skip \<or> \<not> is_blocked_hostname_or_ip lib n p"
    using assms
    by (auto simp: resolve_pinned_hostname_with_policy_def resolve_hostname_policy_checks_def Let_def n_def skip_def
        split: sum.splits if_splits)
  obtain rs where rs: "resolve n = Some rs"
    using assms by (auto simp: resolve_pinned_hostname_with_policy_def checks(1) split: option.splits)
  let ?as = "map la_address rs"
  obtain l where l: "create_pinned_lookup n (dedupe_and_prefer_ipv4 rs) = Inr l"
    and ph: "ph = \<lparr>ph_hostname = n, ph_addresses = dedupe_and_prefer_ipv4 rs, ph_lookup = l\<rparr>"
    and ok: "skip \<or> resolved_addresses_allowed lib ?as p" "\<not> skip \<or> is_private_network_allowed_by_policy p \<or> trusted_hostname_addresses_allowed lib ?as n"
    using assms by (auto simp: resolve_pinned_hostname_with_policy_def checks(1) rs Let_def split: if_splits sum.splits)
  note c = create_pinned_lookup_Inr [OF l, unfolded dedupe_and_prefer_ipv4_set]
  show "ph_hostname ph = normalize_hostname hostname" "ph_hostname ph \<noteq> []" using checks(2) by (simp_all add: ph n_def)
  show "matches_hostname_allowlist (ph_hostname ph) (normalize_hostname_allowlist (sp_hostname_allowlist (effective p)))"
    using checks(3) by (simp add: ph)
  show "\<not> should_skip_private_network_checks (ph_hostname ph) p \<Longrightarrow> \<not> is_blocked_hostname_or_ip lib (ph_hostname ph) p"
    using checks(4) by (simp add: ph skip_def)
  show "pl_hostname (ph_lookup ph) = normalize_hostname (ph_hostname ph)" "pl_records (ph_lookup ph) \<noteq> []"
    using c by (simp_all add: ph)
  show "a \<in> lookup_addresses (ph_lookup ph) \<Longrightarrow> screened lib p (ph_hostname ph) a"
    using c(1) screened_by_checks [of n p lib ?as a] ok by (auto simp: ph skip_def)
  show "\<exists>rs. resolve (ph_hostname ph) = Some rs \<and> lookup_addresses (ph_lookup ph) = set (map la_address rs)"
    using rs c(1) by (simp add: ph)
qed

lemma dispatcher_lookup_props:
  assumes "resolve_pinned_hostname_with_policy lib resolve hostname p = Inr ph"
    and "resolve_pinned_dispatcher_lookup lib ph override p = Inr l"
  shows "pl_hostname l = normalize_hostname (ph_hostname ph)" "pl_records l \<noteq> []"
    and "a \<in> lookup_addresses l \<Longrightarrow> screened lib p (ph_hostname ph) a"
proof -
  note ph = pinned_hostname_props [OF assms(1)]
  have "pl_hostname l = normalize_hostname (ph_hostname ph) \<and> pl_records l \<noteq> [] \<and>
      (a \<in> lookup_addresses l \<longrightarrow> screened lib p (ph_hostname ph) a)"
  proof (cases override)
    case None
    then show ?thesis using assms(2) ph(5,6,7) by (simp add: resolve_pinned_dispatcher_lookup_def)
  next
    case (Some o1)
    obtain h as where o1: "o1 = (h, as)" by (cases o1)
    have l: "create_pinned_lookup (ph_hostname ph) as = Inr l"
      and ok: "should_skip_private_network_checks (ph_hostname ph) p \<or> resolved_addresses_allowed lib as p"
        "\<not> should_skip_private_network_checks (ph_hostname ph) p \<or> is_private_network_allowed_by_policy p \<or>
          trusted_hostname_addresses_allowed lib as (ph_hostname ph)"
      using assms(2) by (auto simp: resolve_pinned_dispatcher_lookup_def Some o1 Let_def split: if_splits)
    show ?thesis using create_pinned_lookup_Inr [OF l] screened_by_checks [OF ok, of a] by auto
  qed
  then show "pl_hostname l = normalize_hostname (ph_hostname ph)" "pl_records l \<noteq> []"
    and "a \<in> lookup_addresses l \<Longrightarrow> screened lib p (ph_hostname ph) a" by blast+
qed

section \<open>Calls of a pinned lookup\<close>

fun lookup_calls :: "pinned_lookup \<Rightarrow> (string \<times> lookup_options) list \<Rightarrow> lookup_answer list" where
  "lookup_calls l [] = []"
| "lookup_calls l ((host, opts) # cs) =
     (case pinned_lookup_call host opts l of (r, l') \<Rightarrow> r # lookup_calls l' cs)"

fun answer_addresses :: "lookup_answer \<Rightarrow> string set" where
  "answer_addresses AskFallback = {}"
| "answer_addresses (AllRecords rs) = fst ` set rs"
| "answer_addresses (OneRecord r) = {fst r}"

lemma usable_records_props:
  assumes "pl_records l \<noteq> []"
  shows "usable_records l f \<noteq> []" "set (usable_records l f) \<subseteq> set (pl_records l)"
proof -
  have "automatic_records l \<noteq> []" "set (automatic_records l) \<subseteq> set (pl_records l)"
    using assms by (auto simp: automatic_records_def Let_def)
  then show "usable_records l f \<noteq> []" "set (usable_records l f) \<subseteq> set (pl_records l)"
    by (auto simp: usable_records_def Let_def)
qed

lemma lookup_call_props:
  assumes "pl_records l \<noteq> []" and "pinned_lookup_call host opts l = (r, l')"
  shows "pl_records l' = pl_records l" "pl_hostname l' = pl_hostname l" "answer_addresses r \<subseteq> lookup_addresses l"
    and "normalize_hostname host = pl_hostname l \<Longrightarrow> pl_hostname l \<noteq> [] \<Longrightarrow> answer_addresses r \<noteq> {}"
proof -
  note u = usable_records_props [OF assms(1), of "lo_family opts"]
  have "usable_records l (lo_family opts) ! (pl_index l mod length (usable_records l (lo_family opts))) \<in> set (usable_records l (lo_family opts))"
    using u(1) by (intro nth_mem) simp
  then have "fst (usable_records l (lo_family opts) ! (pl_index l mod length (usable_records l (lo_family opts)))) \<in> lookup_addresses l"
    "fst ` set (usable_records l (lo_family opts)) \<subseteq> lookup_addresses l"
    using u(2) by (auto simp: lookup_addresses_def)
  then have "pl_records l' = pl_records l \<and> pl_hostname l' = pl_hostname l \<and> answer_addresses r \<subseteq> lookup_addresses l \<and>
      (normalize_hostname host = pl_hostname l \<and> pl_hostname l \<noteq> [] \<longrightarrow> answer_addresses r \<noteq> {})"
    using assms(2) u(1) by (auto simp: pinned_lookup_call_def Let_def split: if_splits)
  then show "pl_records l' = pl_records l" "pl_hostname l' = pl_hostname l" "answer_addresses r \<subseteq> lookup_addresses l"
    and "normalize_hostname host = pl_hostname l \<Longrightarrow> pl_hostname l \<noteq> [] \<Longrightarrow> answer_addresses r \<noteq> {}" by blast+
qed

lemma lookup_calls_props:
  assumes "pl_records l \<noteq> []" and "pl_hostname l \<noteq> []"
  shows "\<forall>(c, r) \<in> set (zip cs (lookup_calls l cs)). answer_addresses r \<subseteq> lookup_addresses l \<and>
    (normalize_hostname (fst c) = pl_hostname l \<longrightarrow> answer_addresses r \<noteq> {})"
  using assms
proof (induction cs arbitrary: l)
  case (Cons c cs)
  obtain host opts where c: "c = (host, opts)" by (cases c)
  obtain r l' where r: "pinned_lookup_call host opts l = (r, l')" by (cases "pinned_lookup_call host opts l")
  note p = lookup_call_props [OF Cons.prems(1) r]
  have "lookup_addresses l' = lookup_addresses l" by (simp add: lookup_addresses_def p(1))
  then show ?case using Cons.IH [of l'] Cons.prems p by (auto simp: c r)
qed simp

lemma round_robin:
  assumes "pl_records l \<noteq> []" and "normalize_hostname host = pl_hostname l" and "pl_hostname l \<noteq> []" and "\<not> lo_all opts"
  shows "lookup_calls l (replicate m (host, opts)) =
    map (\<lambda>i. OneRecord (usable_records l (lo_family opts) ! ((pl_index l + i) mod length (usable_records l (lo_family opts))))) [0..<m]"
  using assms
proof (induction m arbitrary: l)
  case (Suc m)
  let ?l = "l\<lparr>pl_index := Suc (pl_index l)\<rparr>"
  have "usable_records ?l f = usable_records l f" for f by (simp add: usable_records_def automatic_records_def Let_def)
  then show ?case using Suc.IH [of ?l] Suc.prems
    by (simp add: pinned_lookup_call_def Let_def upt_conv_Cons map_Suc_upt [symmetric] del: upt_Suc)
qed simp

section \<open>Properties\<close>

text \<open>C24: no IPv6 form hides a forbidden IPv4 address: an address that carries one, IPv4-mapped, translated, through the
  well-known NAT64 prefix, 6to4, Teredo with its complemented octets, IPv4-compatible or ISATAP, is as private as
  the carried address, whichever exemptions the policy has.
\<close>

theorem embedding_hides_no_address:
  assumes "parse_canonical_ip_address lib (Some (normalize_hostname s)) = Some (V6 h)" and "normalize_hostname s \<noteq> []"
    and "carries lib c h x"
  shows "is_private_ip_address lib s p \<longleftrightarrow>
    is_blocked_special_use_ipv6_address lib (sp_allow_unique_local (effective p)) h \<or>
    is_blocked_special_use_ipv4_address lib (sp_allow_benchmark (effective p)) x"
  using assms carries_extracted [OF assms(3)] by (simp add: is_private_ip_address_def Let_def)

text \<open>DNS rebinding reaches only screened addresses: once a hostname is pinned, and whatever its resolver answered,
  also when a dispatcher overrides the addresses, every call of the lookup, with any options and in any order,
  answers with addresses that passed the policy for that hostname, and for the pinned hostname it does answer.
\<close>

theorem rebinding_reaches_only_screened:
  assumes "resolve_pinned_hostname_with_policy lib resolve hostname p = Inr ph"
    and "resolve_pinned_dispatcher_lookup lib ph override p = Inr l"
    and "(c, r) \<in> set (zip cs (lookup_calls l cs))"
  shows "(\<forall>a \<in> answer_addresses r. screened lib p (normalize_hostname hostname) a) \<and>
    (normalize_hostname (fst c) = normalize_hostname (normalize_hostname hostname) \<and> normalize_hostname (normalize_hostname hostname) \<noteq> []
       \<longrightarrow> answer_addresses r \<noteq> {})"
proof (cases "pl_hostname l = []")
  case True
  note d = dispatcher_lookup_props [OF assms(1,2)] pinned_hostname_props(1) [OF assms(1)]
  have "r = AskFallback"
    using assms(3) True by (induction cs) (auto simp: pinned_lookup_call_def Let_def split: prod.splits)
  then show ?thesis using d True by auto
next
  case False
  note d = dispatcher_lookup_props [OF assms(1,2)] pinned_hostname_props(1) [OF assms(1)]
  from lookup_calls_props [OF d(2) False, of cs] assms(3) d show ?thesis by fastforce
qed

text \<open>a pinned lookup tries every address: as many successive calls of the pinned hostname as there are usable
  addresses of the requested family return each of them.
\<close>

theorem pinned_lookup_tries_every_address:
  assumes "pl_records l \<noteq> []" and "normalize_hostname host = pl_hostname l" and "pl_hostname l \<noteq> []" and "\<not> lo_all opts"
  shows "set (lookup_calls l (replicate (length (usable_records l (lo_family opts))) (host, opts))) =
    OneRecord ` set (usable_records l (lo_family opts))"
proof -
  let ?u = "usable_records l (lo_family opts)" and ?i = "pl_index l"
  have n: "0 < length ?u" using usable_records_props(1) [OF assms(1)] by simp
  have "\<exists>i < length ?u. (?i + i) mod length ?u = j" if "j < length ?u" for j
  proof -
    let ?k = "(j + length ?u - ?i mod length ?u) mod length ?u"
    have "(?i + ?k) mod length ?u = (?i mod length ?u + (j + length ?u - ?i mod length ?u)) mod length ?u"
      by (simp add: mod_simps)
    also have "?i mod length ?u + (j + length ?u - ?i mod length ?u) = j + length ?u"
      using n mod_less_divisor [OF n, of ?i] by linarith
    finally show ?thesis using that n by (intro exI [of _ ?k]) simp
  qed
  then have "(\<lambda>i. (?i + i) mod length ?u) ` {0..<length ?u} = {0..<length ?u}"
    using n by (force simp: image_iff)
  then have "(\<lambda>i. OneRecord (?u ! ((?i + i) mod length ?u))) ` {0..<length ?u} = (\<lambda>j. OneRecord (?u ! j)) ` {0..<length ?u}"
    by (metis (no_types, lifting) image_cong image_image)
  also have "\<dots> = OneRecord ` set ?u" by (auto simp: in_set_conv_nth image_iff) force
  finally show ?thesis by (simp add: round_robin [OF assms])
qed

definition sample_nat64 :: ip6 where
  "sample_nat64 = IP6 0x64 0xff9b 0 0 0 0 0x7f00 1"

definition sample_lib6 :: ipaddr where
  "sample_lib6 = sample_lib\<lparr>lib_valid6 := (\<lambda>s. s = ''64:ff9b::7f00:1''),
     lib_parse := (\<lambda>s. if s = ''64:ff9b::7f00:1'' then V6 sample_nat64 else sample_parse s), lib_range6 := (\<lambda>_. ''rfc6052'')\<rparr>"

theorem embedding_hides_no_address_witness:
  "is_private_ip_address sample_lib6 ''64:ff9b::7f00:1'' None \<longleftrightarrow>
    is_blocked_special_use_ipv6_address sample_lib6 (sp_allow_unique_local (effective None)) sample_nat64 \<or>
    is_blocked_special_use_ipv4_address sample_lib6 (sp_allow_benchmark (effective None)) (IP4 127 0 0 1)"
proof (rule embedding_hides_no_address [where c = Well_known])
  show "parse_canonical_ip_address sample_lib6 (Some (normalize_hostname ''64:ff9b::7f00:1'')) = Some (V6 sample_nat64)"
    by code_simp
  show "normalize_hostname ''64:ff9b::7f00:1'' \<noteq> []" by code_simp
  show "carries sample_lib6 Well_known sample_nat64 (IP4 127 0 0 1)"
    by (simp add: sample_nat64_def sample_lib6_def hextet_def)
qed

definition sample_resolver :: resolver where
  "sample_resolver h = Some [\<lparr>la_address = ''203.0.113.7'', la_family = 4\<rparr>, \<lparr>la_address = ''203.0.113.8'', la_family = 4\<rparr>]"

definition sample_lookup :: pinned_lookup where
  "sample_lookup = \<lparr>pl_hostname = ''example.com'', pl_records = [(''203.0.113.7'', 4), (''203.0.113.8'', 4)], pl_index = 0\<rparr>"

lemma sample_pinned:
  "resolve_pinned_hostname_with_policy sample_lib sample_resolver ''Example.com.'' None =
     Inr \<lparr>ph_hostname = ''example.com'', ph_addresses = [''203.0.113.7'', ''203.0.113.8''], ph_lookup = sample_lookup\<rparr>"
  by code_simp

theorem rebinding_reaches_only_screened_witness:
  "\<forall>a \<in> answer_addresses (OneRecord (''203.0.113.7'', 4)). screened sample_lib None (normalize_hostname ''Example.com.'') a"
proof -
  have o: "resolve_pinned_dispatcher_lookup sample_lib \<lparr>ph_hostname = ''example.com'', ph_addresses = [''203.0.113.7'', ''203.0.113.8''],
      ph_lookup = sample_lookup\<rparr> None None = Inr sample_lookup" by (simp add: resolve_pinned_dispatcher_lookup_def)
  have "((''example.com'', \<lparr>lo_family = 0, lo_all = False\<rparr>), OneRecord (''203.0.113.7'', 4)) \<in>
      set (zip [(''example.com'', \<lparr>lo_family = 0, lo_all = False\<rparr>)] (lookup_calls sample_lookup [(''example.com'', \<lparr>lo_family = 0, lo_all = False\<rparr>)]))"
    by code_simp
  from rebinding_reaches_only_screened [OF sample_pinned o this] show ?thesis by blast
qed

theorem pinned_lookup_tries_every_address_witness:
  "set (lookup_calls sample_lookup (replicate (length (usable_records sample_lookup 0)) (''example.com'', \<lparr>lo_family = 0, lo_all = False\<rparr>))) =
    OneRecord ` set (usable_records sample_lookup 0)"
proof -
  have "normalize_hostname ''example.com'' = pl_hostname sample_lookup" by code_simp
  then show ?thesis
    using pinned_lookup_tries_every_address [of sample_lookup "''example.com''" "\<lparr>lo_family = 0, lo_all = False\<rparr>"]
    by (simp add: sample_lookup_def)
qed

end
