(* ===== verification/Guarded_Fetch_Props.thy ===== *)
theory Guarded_Fetch_Props
  imports Guarded_Fetch SSRF_Props
begin

text \<open>
  What the guarded fetch guarantees for every chain of redirects a server can answer with: each request was
  screened, the chain is bounded and does not repeat itself, and nothing sensitive crosses an origin.
\<close>

section \<open>Shape of the loop\<close>

text \<open>What holds of each request before the network is asked, and of the state of the loop, carried along.\<close>

lemma fetch_loop_step:
  assumes "fetch_loop env p left_over current i visited sent = (res, out)"
  obtains (refused) "out = sent"
  | (last) u d where "ua_parse (fe_api env) current = Some u" "http_protocol u" "gf_require_https p \<longrightarrow> url_protocol u = ''https:''"
      "choose_dispatcher env p u = Inr d" "out = sent @ [\<lparr>sr_url = u, sr_init = i, sr_dispatcher = d\<rparr>]"
  | (again) u d s l n v where "ua_parse (fe_api env) current = Some u" "http_protocol u" "gf_require_https p \<longrightarrow> url_protocol u = ''https:''"
      "choose_dispatcher env p u = Inr d" "left_over = Suc n" "ua_resolve (fe_api env) l u = Some v"
      "get_redirect_visit_key (ua_text (fe_api env) v) (next_init p u v s i) \<notin> set visited"
      "fetch_loop env p n (ua_text (fe_api env) v) (next_init p u v s i)
         (visited @ [get_redirect_visit_key (ua_text (fe_api env) v) (next_init p u v s i)])
         (sent @ [\<lparr>sr_url = u, sr_init = i, sr_dispatcher = d\<rparr>]) = (res, out)"
proof (cases "ua_parse (fe_api env) current")
  case None
  then show ?thesis using assms refused by (simp add: fetch_loop.simps [of env p left_over])
next
  case (Some u)
  show ?thesis
  proof (cases "http_protocol u \<and> (gf_require_https p \<longrightarrow> url_protocol u = ''https:'')")
    case False
    then show ?thesis using assms refused Some by (auto simp: fetch_loop.simps [of env p left_over] split: if_splits)
  next
    case ok: True
    show ?thesis
    proof (cases "choose_dispatcher env p u")
      case (Inl e)
      then show ?thesis using assms refused Some ok by (auto simp: fetch_loop.simps [of env p left_over] split: if_splits)
    next
      case d: (Inr d)
      define sent' where "sent' = sent @ [\<lparr>sr_url = u, sr_init = i, sr_dispatcher = d\<rparr>]"
      note hop = Some ok d
      have g: "(\<not> http_protocol u) = False" "(gf_require_https p \<and> url_protocol u \<noteq> ''https:'') = False" using ok by auto
      note loop = assms [unfolded fetch_loop.simps [of env p left_over] Some option.case d sum.case Let_def g if_False, folded sent'_def]
      have last: thesis if "out = sent'"
        using that last [OF Some _ _ d] ok by (simp add: sent'_def)
      show ?thesis
      proof (cases "fe_respond env sent'")
        case None
        then show ?thesis using loop last ok by simp
      next
        case r: (Some r)
        show ?thesis
        proof (cases "is_redirect_status (fr_status r) \<and> fr_location r \<noteq> None \<and> fr_location r \<noteq> Some []")
          case False
          then show ?thesis using loop last ok r by (auto split: option.splits if_splits)
        next
          case True
          then obtain l where l: "fr_location r = Some l" "l \<noteq> []" by auto
          show ?thesis
          proof (cases left_over)
            case 0
            then show ?thesis using loop last ok r True l by simp
          next
            case n: (Suc n)
            show ?thesis
            proof (cases "ua_resolve (fe_api env) l u")
              case None
              then show ?thesis using loop last ok r True l n by simp
            next
              case v: (Some v)
              show ?thesis
              proof (cases "get_redirect_visit_key (ua_text (fe_api env) v) (next_init p u v (fr_status r) i) \<in> set visited")
                case seen: True
                then show ?thesis using loop last ok r True l n v by simp
              next
                case False
                then show ?thesis
                  using again [OF Some _ _ d n v, of "fr_status r"] loop ok r True l n v by (simp add: sent'_def)
              qed
            qed
          qed
        qed
      qed
    qed
  qed
qed

lemma fetch_loop_induct [consumes 1, case_names refused last again]:
  assumes "fetch_loop env p left_over current i visited sent = (res, out)"
    and "\<And>left_over current i visited sent. P left_over current i visited sent sent"
    and "\<And>left_over current i visited sent u d. ua_parse (fe_api env) current = Some u \<Longrightarrow> http_protocol u \<Longrightarrow>
      (gf_require_https p \<longrightarrow> url_protocol u = ''https:'') \<Longrightarrow> choose_dispatcher env p u = Inr d \<Longrightarrow>
      P left_over current i visited sent (sent @ [\<lparr>sr_url = u, sr_init = i, sr_dispatcher = d\<rparr>])"
    and "\<And>n current i visited sent u d s l v out. ua_parse (fe_api env) current = Some u \<Longrightarrow> http_protocol u \<Longrightarrow>
      (gf_require_https p \<longrightarrow> url_protocol u = ''https:'') \<Longrightarrow> choose_dispatcher env p u = Inr d \<Longrightarrow>
      ua_resolve (fe_api env) l u = Some v \<Longrightarrow>
      get_redirect_visit_key (ua_text (fe_api env) v) (next_init p u v s i) \<notin> set visited \<Longrightarrow>
      P n (ua_text (fe_api env) v) (next_init p u v s i)
        (visited @ [get_redirect_visit_key (ua_text (fe_api env) v) (next_init p u v s i)])
        (sent @ [\<lparr>sr_url = u, sr_init = i, sr_dispatcher = d\<rparr>]) out \<Longrightarrow>
      P (Suc n) current i visited sent out"
  shows "P left_over current i visited sent out"
  using assms(1)
proof (induction left_over arbitrary: current i visited sent)
  case 0
  from 0 show ?case by (rule fetch_loop_step) (auto intro: assms(2,3))
next
  case (Suc n)
  from Suc.prems show ?case
    by (rule fetch_loop_step) (auto intro: assms(2,3) assms(4) Suc.IH)
qed

section \<open>Every request is screened\<close>

lemma hostname_allowed_None:
  assumes "hostname_allowed env u policy = None"
  defines "n \<equiv> normalize_hostname (url_hostname u)"
  shows "n \<noteq> []" "matches_hostname_allowlist n (normalize_hostname_allowlist (sp_hostname_allowlist (effective policy)))"
    and "should_skip_private_network_checks n policy \<or> \<not> is_blocked_hostname_or_ip (np_lib (fe_platform env)) n policy"
  using assms(1)
  by (auto simp: n_def hostname_allowed_def assert_hostname_allowed_with_policy_def resolve_hostname_policy_checks_def Let_def
      split: sum.splits if_splits)

text \<open>What the policy allows of a request: its hostname, and the addresses a pinned lookup of it can answer with.\<close>

definition hop_screened :: "fetch_env \<Rightarrow> guarded_fetch \<Rightarrow> url \<Rightarrow> dispatcher \<Rightarrow> bool" where
  "hop_screened env p u d \<longleftrightarrow>
     (let lib = np_lib (fe_platform env);
          policy = resolve_ssrf_policy_for_url (fe_api env) u (gf_policy p);
          n = normalize_hostname (url_hostname u)
      in n \<noteq> [] \<and>
         matches_hostname_allowlist n (normalize_hostname_allowlist (sp_hostname_allowlist (effective policy))) \<and>
         (should_skip_private_network_checks n policy \<or> \<not> is_blocked_hostname_or_ip lib n policy) \<and>
         (case d of PinnedAgent l dp \<Rightarrow> (\<forall>a\<in>lookup_addresses l. screened lib policy n a) | _ \<Rightarrow> True))"

lemma hop_screened_by_name:
  assumes "hostname_allowed env u (resolve_ssrf_policy_for_url (fe_api env) u (gf_policy p)) = None"
    and "\<And>l dp. d \<noteq> PinnedAgent l dp"
  shows "hop_screened env p u d"
  using hostname_allowed_None [OF assms(1)] assms(2) by (cases d) (auto simp: hop_screened_def Let_def)

lemma hop_screened_by_pin:
  assumes "pin env u (resolve_ssrf_policy_for_url (fe_api env) u (gf_policy p)) = Inr ph"
    and "(\<forall>l dp. d \<noteq> PinnedAgent l dp) \<or>
      create_pinned_dispatcher (np_lib (fe_platform env)) ph dp0 (resolve_ssrf_policy_for_url (fe_api env) u (gf_policy p)) = Inr d"
  shows "hop_screened env p u d"
proof -
  let ?policy = "resolve_ssrf_policy_for_url (fe_api env) u (gf_policy p)"
  have r: "resolve_pinned_hostname_with_policy (np_lib (fe_platform env)) (fe_resolver env) (url_hostname u) ?policy = Inr ph"
    using assms(1) by (simp add: pin_def split: sum.splits)
  note ph = pinned_hostname_props [OF r]
  show ?thesis
  proof (cases "\<exists>l dp. d = PinnedAgent l dp")
    case False
    then show ?thesis using ph(1-4) by (cases d) (auto simp: hop_screened_def Let_def)
  next
    case True
    then obtain l dp where d: "d = PinnedAgent l dp" by blast
    then have "resolve_pinned_dispatcher_lookup (np_lib (fe_platform env)) ph (pinned_override dp0) ?policy = Inr l"
      using assms(2) by (auto simp: create_pinned_dispatcher_def split: sum.splits)
    from dispatcher_lookup_props(3) [OF r this]
    show ?thesis using ph(1-4) by (auto simp: hop_screened_def Let_def d)
  qed
qed

lemma create_policy_dispatcher_not_pinned [simp]: "create_policy_dispatcher_without_pinned_dns dp \<noteq> PinnedAgent l dp'"
  by (simp add: create_policy_dispatcher_without_pinned_dns_def split: option.splits)

lemma choose_dispatcher_screened:
  assumes "choose_dispatcher env p u = Inr d"
  shows "hop_screened env p u d"
  using assms
  by (auto simp: choose_dispatcher_def Let_def split: if_splits option.splits sum.splits bool.splits
      intro: hop_screened_by_name hop_screened_by_pin)

lemma choose_dispatcher_pinned:
  assumes "choose_dispatcher env p u = Inr d"
    and "resolve_guarded_fetch_mode p = Strict" "\<not> is_managed_proxy_active (fe_env env)" "\<not> gf_use_env_proxy p"
      "gf_pin_dns p" "\<not> fe_mocked env"
  shows "\<exists>l dp. d = PinnedAgent l dp"
  using assms
  by (auto simp: choose_dispatcher_def Let_def create_pinned_dispatcher_def split: if_splits option.splits sum.splits)

lemma fetch_loop_requests:
  assumes "fetch_loop env p left_over current i visited sent = (res, out)" and "r \<in> set out" "r \<notin> set sent"
  shows "http_protocol (sr_url r) \<and> (gf_require_https p \<longrightarrow> url_protocol (sr_url r) = ''https:'') \<and>
    choose_dispatcher env p (sr_url r) = Inr (sr_dispatcher r)"
  using assms
proof (induction rule: fetch_loop_induct)
  case (again n current i visited sent u d s l v out)
  then show ?case by (cases "r = \<lparr>sr_url = u, sr_init = i, sr_dispatcher = d\<rparr>") auto
qed auto

text \<open>C9: every request of a guarded fetch is screened, the first one and those that follow redirects, whatever the
  servers answer: it is an HTTP request (an HTTPS one where that is required), its hostname passes the allowlist and,
  unless it is trusted, is not a blocked name or address, and a pinned lookup that it is sent with holds only
  addresses the policy allows; and a strict fetch without a managed proxy or one from the environment, with pinning
  left on, is always sent with a pinned lookup.
\<close>

theorem every_hop_is_screened:
  assumes "fetch_with_ssrf_guard_internal env p = (res, sent)" and "r \<in> set sent"
  shows "http_protocol (sr_url r) \<and> (gf_require_https p \<longrightarrow> url_protocol (sr_url r) = ''https:'') \<and>
    hop_screened env p (sr_url r) (sr_dispatcher r) \<and>
    (resolve_guarded_fetch_mode p = Strict \<and> \<not> is_managed_proxy_active (fe_env env) \<and> \<not> gf_use_env_proxy p \<and> gf_pin_dns p \<and>
       \<not> fe_mocked env \<longrightarrow> (\<exists>l dp. sr_dispatcher r = PinnedAgent l dp))"
  using fetch_loop_requests [OF assms(1) [unfolded fetch_with_ssrf_guard_internal_def] assms(2)]
    choose_dispatcher_screened choose_dispatcher_pinned by auto

section \<open>Redirects end\<close>

lemma fetch_loop_length:
  assumes "fetch_loop env p left_over current i visited sent = (res, out)"
  shows "length out \<le> length sent + left_over + 1"
  using assms by (induction rule: fetch_loop_induct) auto

definition request_key :: "fetch_env \<Rightarrow> sent_request \<Rightarrow> string" where
  "request_key env r = get_redirect_visit_key (ua_text (fe_api env) (sr_url r)) (sr_init r)"

lemma fetch_loop_distinct:
  assumes "fetch_loop env p left_over current i visited sent = (res, out)"
    and "\<And>l u v. ua_resolve (fe_api env) l u = Some v \<Longrightarrow> ua_parse (fe_api env) (ua_text (fe_api env) v) = Some v"
    and "visited = map (request_key env) sent @ [get_redirect_visit_key current i]" "distinct visited"
    and "\<And>u. ua_parse (fe_api env) current = Some u \<Longrightarrow> ua_text (fe_api env) u = current"
  shows "distinct (map (request_key env) out)"
  using assms(1,3-)
proof (induction rule: fetch_loop_induct)
  case (refused left_over current i visited sent)
  then show ?case by simp
next
  case (last left_over current i visited sent u d)
  then show ?case by (simp add: request_key_def)
next
  case (again n current i visited sent u d s l v out)
  have "ua_text (fe_api env) u = current" using again.prems(3) again.hyps by blast
  then have k: "request_key env \<lparr>sr_url = u, sr_init = i, sr_dispatcher = d\<rparr> = get_redirect_visit_key current i"
    by (simp add: request_key_def)
  show ?case
    by (rule again.IH) (use again.prems(1,2) again.hyps assms(2) k in auto)
qed

text \<open>C25: a guarded fetch sends at most one request more than its redirect limit, and never the same request twice: no
  two of its requests agree in method and URL, for a URL parser that reads back the URLs it resolves and a first
  URL given in normal form.
\<close>

theorem redirects_are_bounded:
  assumes "fetch_with_ssrf_guard_internal env p = (res, sent)"
    and "\<And>l u v. ua_resolve (fe_api env) l u = Some v \<Longrightarrow> ua_parse (fe_api env) (ua_text (fe_api env) v) = Some v"
    and "\<And>u. ua_parse (fe_api env) (gf_url p) = Some u \<Longrightarrow> ua_text (fe_api env) u = gf_url p"
  shows "length sent \<le> max_redirects p + 1 \<and> distinct (map (request_key env) sent)"
proof -
  note loop = assms(1) [unfolded fetch_with_ssrf_guard_internal_def]
  show ?thesis using fetch_loop_length [OF loop] fetch_loop_distinct [OF loop assms(2) _ _ assms(3)] by auto
qed

section \<open>Nothing sensitive crosses an origin\<close>

fun crosses :: "url list \<Rightarrow> bool" where
  "crosses (u # v # us) \<longleftrightarrow> url_origin u \<noteq> url_origin v \<or> crosses (v # us)"
| "crosses _ \<longleftrightarrow> False"

lemma crosses_snoc [simp]: "crosses (us @ [u, v]) \<longleftrightarrow> crosses (us @ [u]) \<or> url_origin u \<noteq> url_origin v"
proof (induction us rule: crosses.induct)
  case (1 u v us)
  then show ?case by auto
qed auto

definition init_headers :: "fetch_init option \<Rightarrow> header_list" where
  "init_headers i = (case Option.bind i fi_headers of Some hs \<Rightarrow> hs | None \<Rightarrow> [])"

definition init_body :: "fetch_init option \<Rightarrow> string option" where
  "init_body i = Option.bind i fi_body"

text \<open>A request that may be sent to another origin than the caller named.\<close>

definition stripped :: "guarded_fetch \<Rightarrow> url \<Rightarrow> fetch_init option \<Rightarrow> bool" where
  "stripped p u i \<longleftrightarrow>
     (\<forall>(k, v)\<in>set (init_headers i). normalize_lowercase_string_or_empty (Some k) \<in> set safe_redirect_headers \<or>
        normalize_lowercase_string_or_empty (Some k) = ''authorization'' \<and> gf_retain_authorization p \<noteq> [] \<and> url_protocol u = ''https:'' \<and>
        (''*'' \<in> set (gf_retain_authorization p) \<or> matches_hostname_allowlist (url_hostname u) (gf_retain_authorization p))) \<and>
     (init_body i = None \<or> gf_allow_unsafe_replay p \<or> request_method i = ''GET'' \<or> request_method i = ''HEAD'')"

lemma js_set_names: "(k', v') \<in> set (js_set k v m) \<Longrightarrow> k' = k \<or> (\<exists>w. (k', w) \<in> set m)"
  by (auto dest: js_set_in)

lemma new_headers_fold_names:
  assumes "(k, v) \<in> set (fold (\<lambda>(k, v) m. js_set (js_lower k) (case js_get m (js_lower k) of None \<Rightarrow> v | Some w \<Rightarrow> w @ '', '' @ v) m) hs m)"
  shows "(\<exists>w. (k, w) \<in> set m) \<or> (\<exists>k0 w. k = js_lower k0 \<and> (k0, w) \<in> set hs)"
  using assms
proof (induction hs arbitrary: m)
  case (Cons h hs)
  obtain k1 v1 where h: "h = (k1, v1)" by (cases h)
  from Cons.IH [of "js_set (js_lower k1) (case js_get m (js_lower k1) of None \<Rightarrow> v1 | Some w \<Rightarrow> w @ '', '' @ v1) m"] Cons.prems
  show ?case by (auto simp: h dest!: js_set_in)
qed auto

lemma new_headers_names: "(k, v) \<in> set (new_headers hs) \<Longrightarrow> \<exists>k0 w. k = js_lower k0 \<and> (k0, w) \<in> set hs"
  using new_headers_fold_names [of k v hs "[]"] by (simp add: new_headers_def)

lemma normalize_lower_name [simp]:
  "normalize_lowercase_string_or_empty (Some (js_lower k)) = normalize_lowercase_string_or_empty (Some k)"
  by (simp add: normalize_lowercase_eq js_trim_lower)

lemma drop_body_names: "(k, v) \<in> set (fold js_delete ks m) \<Longrightarrow> (k, v) \<in> set m"
  by (induction ks arbitrary: m) (fastforce simp: js_delete_def)+

text \<open>What one rewriting of a request leaves: headers named before, the body, or nothing of it.\<close>

lemma init_headers_simps [simp]:
  "init_headers None = []" "init_headers (Some i) = (case fi_headers i of Some hs \<Rightarrow> hs | None \<Rightarrow> [])"
  "init_body None = None" "init_body (Some i) = fi_body i"
  by (simp_all add: init_headers_def init_body_def)

definition header_names :: "header_list option \<Rightarrow> string set" where
  "header_names h = (case h of None \<Rightarrow> {} | Some hs \<Rightarrow> (\<lambda>(k, v). normalize_lowercase_string_or_empty (Some k)) ` set hs)"

definition names_of :: "fetch_init option \<Rightarrow> string set" where
  "names_of i = header_names (Option.bind i fi_headers)"

lemma names_of_simps [simp]: "names_of None = {}" "names_of (Some i) = header_names (fi_headers i)" "header_names None = {}"
  by (simp_all add: names_of_def header_names_def)

lemma names_of_new_headers:
  assumes "set hs' \<subseteq> set (new_headers hs)"
  shows "header_names (Some hs') \<subseteq> header_names (Some hs)"
  using assms by (force simp: header_names_def dest: new_headers_names)

lemma drop_body_headers_names: "header_names (drop_body_headers h) \<subseteq> header_names h"
proof (cases h)
  case (Some hs)
  have "set (fold js_delete body_headers (new_headers hs)) \<subseteq> set (new_headers hs)" by (auto dest: drop_body_names)
  from names_of_new_headers [OF this] show ?thesis by (simp add: drop_body_headers_def Some)
qed (simp add: drop_body_headers_def)

lemma rewrite_for_method_names: "names_of (rewrite_redirect_init_for_method i s) \<subseteq> names_of i"
  using drop_body_headers_names by (cases i) (simp_all add: rewrite_redirect_init_for_method_def Let_def)

lemma rewrite_for_cross_origin_names: "names_of (rewrite_redirect_init_for_cross_origin i b) \<subseteq> names_of i"
  using drop_body_headers_names by (cases i) (simp_all add: rewrite_redirect_init_for_cross_origin_def)

lemma retain_safe_names: "names_of (retain_safe_headers_for_cross_origin_redirect i) \<subseteq> set safe_redirect_headers"
  by (cases i) (auto simp: retain_safe_headers_for_cross_origin_redirect_def header_names_def retain_safe_headers_def split: option.splits)

lemma restore_authorization_names:
  "names_of (restore_redirect_authorization i a) \<subseteq> names_of i \<union> (if a = None then {} else {''authorization''})"
proof (cases a)
  case None
  then show ?thesis by (simp add: restore_redirect_authorization_def)
next
  case (Some v)
  have auth: "normalize_lowercase_string_or_empty (Some ''authorization'') = ''authorization''" by code_simp
  have n: "header_names (Some (js_set ''authorization'' v (new_headers hs))) \<subseteq> insert ''authorization'' (header_names (Some hs))" for hs
    using auth by (force simp: header_names_def dest!: js_set_in dest: new_headers_names)
  show ?thesis
  proof (cases i)
    case None
    then show ?thesis using n [of "[]"] by (simp add: restore_redirect_authorization_def Some Let_def) (simp add: header_names_def)
  next
    case i: (Some j)
    show ?thesis
    proof (cases "fi_headers j")
      case None
      then show ?thesis using n [of "[]"] by (simp add: restore_redirect_authorization_def Some i Let_def) (simp add: header_names_def)
    next
      case h: (Some hs)
      then show ?thesis using n [of hs] by (auto simp: restore_redirect_authorization_def Some i Let_def)
    qed
  qed
qed

text \<open>The body that may go on: none, or that of a request without one.\<close>

definition body_safe :: "guarded_fetch \<Rightarrow> fetch_init option \<Rightarrow> bool" where
  "body_safe p i \<longleftrightarrow> init_body i = None \<or> gf_allow_unsafe_replay p \<or> request_method i = ''GET'' \<or> request_method i = ''HEAD''"

lemma request_method_update [simp]:
  "request_method (Some (i\<lparr>fi_headers := h\<rparr>)) = request_method (Some i)"
  "request_method (Some (i\<lparr>fi_body := b\<rparr>)) = request_method (Some i)"
  by (simp_all add: request_method_def)

lemma body_safe_method: "body_safe p i \<Longrightarrow> body_safe p (rewrite_redirect_init_for_method i s)"
  by (auto simp: body_safe_def rewrite_redirect_init_for_method_def Let_def split: option.splits)

lemma body_safe_cross: "body_safe p (rewrite_redirect_init_for_cross_origin i (gf_allow_unsafe_replay p))"
  by (auto simp: body_safe_def rewrite_redirect_init_for_cross_origin_def split: option.splits)

lemma body_safe_retain [simp]: "body_safe p (retain_safe_headers_for_cross_origin_redirect i) \<longleftrightarrow> body_safe p i"
  by (cases i) (simp_all add: body_safe_def retain_safe_headers_for_cross_origin_redirect_def)

lemma body_safe_restore: "body_safe p i \<Longrightarrow> body_safe p (restore_redirect_authorization i a)"
  by (cases i) (auto simp: body_safe_def restore_redirect_authorization_def Let_def split: option.splits)

definition may_keep_authorization :: "guarded_fetch \<Rightarrow> url \<Rightarrow> bool" where
  "may_keep_authorization p u \<longleftrightarrow>
     gf_retain_authorization p \<noteq> [] \<and> url_protocol u = ''https:'' \<and>
     (''*'' \<in> set (gf_retain_authorization p) \<or> matches_hostname_allowlist (url_hostname u) (gf_retain_authorization p))"

lemma stripped_iff:
  "stripped p u i \<longleftrightarrow>
     names_of i \<subseteq> set safe_redirect_headers \<union> (if may_keep_authorization p u then {''authorization''} else {}) \<and> body_safe p i"
  by (auto simp: stripped_def names_of_def header_names_def init_headers_def may_keep_authorization_def body_safe_def split: option.splits)

lemma resolve_retained_authorization_Some:
  "resolve_retained_authorization i v (gf_retain_authorization p) = Some a \<Longrightarrow> may_keep_authorization p v"
  by (auto simp: resolve_retained_authorization_def may_keep_authorization_def split: option.splits if_splits)

lemma next_init_crossing:
  assumes "url_origin v \<noteq> url_origin u"
  shows "stripped p v (next_init p u v s i)"
proof -
  let ?i = "rewrite_redirect_init_for_cross_origin (rewrite_redirect_init_for_method i s) (gf_allow_unsafe_replay p)"
  let ?a = "resolve_retained_authorization i v (gf_retain_authorization p)"
  have n: "next_init p u v s i = restore_redirect_authorization (retain_safe_headers_for_cross_origin_redirect ?i) ?a"
    using assms by (simp add: next_init_def)
  have "names_of (next_init p u v s i) \<subseteq> set safe_redirect_headers \<union> (if ?a = None then {} else {''authorization''})"
    unfolding n using restore_authorization_names [of "retain_safe_headers_for_cross_origin_redirect ?i" ?a] retain_safe_names [of ?i]
    by blast
  moreover have "body_safe p (next_init p u v s i)" unfolding n by (intro body_safe_restore) (simp add: body_safe_cross)
  ultimately show ?thesis using resolve_retained_authorization_Some [of i v p] by (cases ?a) (auto simp: stripped_iff)
qed

lemma next_init_same_origin:
  assumes "url_origin v = url_origin u" "may_keep_authorization p v = may_keep_authorization p u" and "stripped p u i"
  shows "stripped p v (next_init p u v s i)"
  using assms rewrite_for_method_names [of i s] body_safe_method [of p i s] by (auto simp: next_init_def stripped_iff)

definition sent_stripped :: "guarded_fetch \<Rightarrow> sent_request list \<Rightarrow> bool" where
  "sent_stripped p out \<longleftrightarrow>
     (\<forall>j<length out. crosses (map sr_url (take (Suc j) out)) \<longrightarrow> stripped p (sr_url (out ! j)) (sr_init (out ! j)))"

lemma sent_stripped_snoc:
  "sent_stripped p (sent @ [r]) \<longleftrightarrow>
     sent_stripped p sent \<and> (crosses (map sr_url sent @ [sr_url r]) \<longrightarrow> stripped p (sr_url r) (sr_init r))"
  by (auto simp: sent_stripped_def less_Suc_eq nth_append)

text \<open>What documents of the URL standard say of a parser: it reads back what it wrote, and an HTTP origin names the protocol
  and the hostname.\<close>

definition url_laws :: "url_api \<Rightarrow> bool" where
  "url_laws api \<longleftrightarrow>
     (\<forall>l u v. ua_resolve api l u = Some v \<longrightarrow> ua_parse api (ua_text api v) = Some v) \<and>
     (\<forall>s t u v. ua_parse api s = Some u \<longrightarrow> ua_parse api t = Some v \<longrightarrow> http_protocol u \<longrightarrow> http_protocol v \<longrightarrow>
        url_origin u = url_origin v \<longrightarrow> url_protocol u = url_protocol v \<and> url_hostname u = url_hostname v)"

lemma url_laws_read_back: "url_laws api \<Longrightarrow> ua_resolve api l u = Some v \<Longrightarrow> ua_parse api (ua_text api v) = Some v"
  unfolding url_laws_def by blast

lemma url_laws_origin:
  "url_laws api \<Longrightarrow> ua_parse api s = Some u \<Longrightarrow> ua_parse api t = Some v \<Longrightarrow> http_protocol u \<Longrightarrow> http_protocol v \<Longrightarrow>
    url_origin u = url_origin v \<Longrightarrow> url_protocol u = url_protocol v \<and> url_hostname u = url_hostname v"
  unfolding url_laws_def by blast

lemma fetch_loop_stripped:
  assumes "fetch_loop env p left_over current i visited sent = (res, out)"
    and "url_laws (fe_api env)" and "sent_stripped p sent"
    and "\<And>u. ua_parse (fe_api env) current = Some u \<Longrightarrow> http_protocol u \<Longrightarrow> crosses (map sr_url sent @ [u]) \<Longrightarrow> stripped p u i"
  shows "sent_stripped p out"
  using assms(1,3-)
proof (induction rule: fetch_loop_induct)
  case (refused left_over current i visited sent)
  then show ?case by simp
next
  case (last left_over current i visited sent u d)
  then show ?case by (simp add: sent_stripped_snoc)
next
  case (again n current i visited sent u d s l v out)
  have v: "ua_parse (fe_api env) (ua_text (fe_api env) v) = Some v"
    by (rule url_laws_read_back [OF assms(2) again.hyps(5)])
  have keep: "may_keep_authorization p v = may_keep_authorization p u" if "http_protocol v" "url_origin v = url_origin u"
    using url_laws_origin [OF assms(2) v again.hyps(1) that(1) again.hyps(2) that(2)] by (simp add: may_keep_authorization_def)
  show ?case
  proof (rule again.IH)
    show "sent_stripped p (sent @ [\<lparr>sr_url = u, sr_init = i, sr_dispatcher = d\<rparr>])"
      using again.prems again.hyps by (simp add: sent_stripped_snoc)
  next
    fix w
    assume w: "ua_parse (fe_api env) (ua_text (fe_api env) v) = Some w" "http_protocol w"
      and c: "crosses (map sr_url (sent @ [\<lparr>sr_url = u, sr_init = i, sr_dispatcher = d\<rparr>]) @ [w])"
    then have wv: "w = v" using v by simp
    show "stripped p w (next_init p u v s i)"
    proof (cases "url_origin v = url_origin u")
      case True
      then have "crosses (map sr_url sent @ [u])" using c wv by simp
      then have "stripped p u i" using again by blast
      then show ?thesis using next_init_same_origin [OF True keep] w(2) wv True by simp
    next
      case False
      then show ?thesis using next_init_crossing wv by simp
    qed
  qed
qed

text \<open>C10: nothing sensitive crosses an origin. Once a chain of redirects has left an origin, every later request, also one
  back to the first origin, carries only headers of the safe list, with the Authorization header at most where the
  caller lists the hostname for it and over HTTPS, and carries a body only when its method cannot have one or the caller
  allows unsafe replays. The URL parser reads back what it wrote and its HTTP origins name protocol and hostname.
\<close>

theorem nothing_sensitive_crosses_origins:
  assumes "fetch_with_ssrf_guard_internal env p = (res, sent)" and "url_laws (fe_api env)"
    and "j < length sent" and "crosses (map sr_url (take (Suc j) sent))"
  shows "stripped p (sr_url (sent ! j)) (sr_init (sent ! j))"
proof -
  have "sent_stripped p sent"
    by (rule fetch_loop_stripped [OF assms(1) [unfolded fetch_with_ssrf_guard_internal_def] assms(2)]) (simp_all add: sent_stripped_def)
  then show ?thesis using assms(3,4) by (simp add: sent_stripped_def)
qed

section \<open>A sample chain\<close>

text \<open>Two sites, one of which redirects to the other.\<close>

definition sample_url :: "string \<Rightarrow> url" where
  "sample_url h =
     \<lparr>url_protocol = ''https:'', url_host = h, url_hostname = h, url_port = [], url_origin = ''https://'' @ h,
      url_username = [], url_password = []\<rparr>"

definition sample_sites :: "(string \<times> url) list" where
  "sample_sites = [(''https://one.example/'', sample_url ''one.example''), (''https://two.example/'', sample_url ''two.example'')]"

definition sample_url_api :: url_api where
  "sample_url_api =
     \<lparr>ua_parse = js_get sample_sites, ua_resolve = (\<lambda>l _. js_get sample_sites l),
      ua_text = (\<lambda>u. ''https://'' @ url_host u @ ''/''), ua_with_hostname = (\<lambda>u h. u\<lparr>url_hostname := h\<rparr>)\<rparr>"

definition sample_answers :: resolver where
  "sample_answers n = Some [\<lparr>la_address = ''203.0.113.7'', la_family = 4\<rparr>]"

definition sample_fetch_env :: fetch_env where
  "sample_fetch_env =
     \<lparr>fe_api = sample_url_api,
      fe_platform = \<lparr>np_lib = sample_lib, np_is_ip = (\<lambda>_. 0), np_interfaces = None, np_url = js_get sample_sites, np_container = False,
        np_windows = False, np_can_bind = (\<lambda>_. True)\<rparr>,
      fe_env = (\<lambda>_. None), fe_resolver = sample_answers, fe_custom_lookup = False,
      fe_mocked = False, fe_loopback_mode = None,
      fe_respond = (\<lambda>rs. Some (if length rs = 1 then \<lparr>fr_status = 307, fr_location = Some ''https://two.example/''\<rparr>
                               else \<lparr>fr_status = 200, fr_location = None\<rparr>))\<rparr>"

definition sample_fetch :: guarded_fetch where
  "sample_fetch =
     \<lparr>gf_url = ''https://one.example/'',
      gf_init = Some \<lparr>fi_method = Some ''post'', fi_body = Some ''data'',
        fi_headers = Some [(''Authorization'', ''Bearer s3cret''), (''Accept'', ''text/plain'')]\<rparr>,
      gf_max_redirects = None, gf_allow_unsafe_replay = False, gf_require_https = True, gf_policy = None, gf_dispatcher_policy = None,
      gf_resolve_dispatcher_policy = (\<lambda>_. None), gf_retain_authorization = [], gf_mode = None, gf_pin_dns = True,
      gf_legacy_env_proxy = False, gf_managed_bypass = None, gf_use_env_proxy = False\<rparr>"

definition sample_sent :: "sent_request list" where
  "sample_sent =
     [\<lparr>sr_url = sample_url ''one.example'', sr_init = gf_init sample_fetch,
       sr_dispatcher = PinnedAgent \<lparr>pl_hostname = ''one.example'', pl_records = [(''203.0.113.7'', 4)], pl_index = 0\<rparr> None\<rparr>,
      \<lparr>sr_url = sample_url ''two.example'',
       sr_init = Some \<lparr>fi_method = Some ''post'', fi_body = None, fi_headers = Some [(''accept'', ''text/plain'')]\<rparr>,
       sr_dispatcher = PinnedAgent \<lparr>pl_hostname = ''two.example'', pl_records = [(''203.0.113.7'', 4)], pl_index = 0\<rparr> None\<rparr>]"

lemma sample_run:
  "fetch_with_ssrf_guard_internal sample_fetch_env sample_fetch =
     (Inr (\<lparr>fr_status = 200, fr_location = None\<rparr>, ''https://two.example/''), sample_sent)"
  by code_simp

lemma sample_sites_Some: "js_get sample_sites s = Some u \<Longrightarrow> u = sample_url ''one.example'' \<or> u = sample_url ''two.example''"
  by (auto simp: sample_sites_def split: if_splits)

lemma sample_url_reads_back: "js_get sample_sites l = Some v \<Longrightarrow> js_get sample_sites (''https://'' @ url_host v @ ''/'') = Some v"
  using sample_sites_Some [of l v] by (auto simp: sample_sites_def sample_url_def)

lemma sample_url_laws: "url_laws sample_url_api"
  unfolding url_laws_def
proof (intro conjI allI impI)
  fix l u v
  assume "ua_resolve sample_url_api l u = Some v"
  then show "ua_parse sample_url_api (ua_text sample_url_api v) = Some v"
    using sample_url_reads_back by (simp add: sample_url_api_def)
next
  fix s t u v
  assume "ua_parse sample_url_api s = Some u" "ua_parse sample_url_api t = Some v" "url_origin u = url_origin v"
  then have "u = v" using sample_sites_Some [of s u] sample_sites_Some [of t v] by (auto simp: sample_url_api_def sample_url_def)
  then show "url_protocol u = url_protocol v" "url_hostname u = url_hostname v" by simp_all
qed

theorem every_hop_is_screened_witness:
  "hop_screened sample_fetch_env sample_fetch (sample_url ''two.example'')
     (PinnedAgent \<lparr>pl_hostname = ''two.example'', pl_records = [(''203.0.113.7'', 4)], pl_index = 0\<rparr> None)"
  using every_hop_is_screened [OF sample_run, of "sample_sent ! 1"] by (simp add: sample_sent_def)

theorem redirects_are_bounded_witness:
  "length sample_sent \<le> max_redirects sample_fetch + 1 \<and> distinct (map (request_key sample_fetch_env) sample_sent)"
proof (rule redirects_are_bounded [OF sample_run])
  fix l u v
  assume "ua_resolve (fe_api sample_fetch_env) l u = Some v"
  then show "ua_parse (fe_api sample_fetch_env) (ua_text (fe_api sample_fetch_env) v) = Some v"
    using url_laws_read_back [OF sample_url_laws] by (simp add: sample_fetch_env_def)
next
  fix u
  assume "ua_parse (fe_api sample_fetch_env) (gf_url sample_fetch) = Some u"
  then show "ua_text (fe_api sample_fetch_env) u = gf_url sample_fetch"
    by (auto simp: sample_fetch_env_def sample_fetch_def sample_url_api_def sample_sites_def sample_url_def)
qed

theorem nothing_sensitive_crosses_origins_witness:
  "stripped sample_fetch (sample_url ''two.example'')
     (Some \<lparr>fi_method = Some ''post'', fi_body = None, fi_headers = Some [(''accept'', ''text/plain'')]\<rparr>)"
proof -
  have "url_laws (fe_api sample_fetch_env)" using sample_url_laws by (simp add: sample_fetch_env_def)
  moreover have "crosses (map sr_url (take (Suc 1) sample_sent))" by (simp add: sample_sent_def sample_url_def)
  ultimately show ?thesis
    using nothing_sensitive_crosses_origins [OF sample_run, of 1] by (simp add: sample_sent_def)
qed

end
