(* ===== verification/Operator_Scopes.thy ===== *)
theory Operator_Scopes
  imports JS_Strings
begin

text \<open>
  The operator scopes, \<open>gateway/operator-scopes.ts\<close>, and the relation between requested and granted scopes of
  \<open>shared/operator-scope-compat.ts\<close>. The closed set of scopes is a datatype; scopes presented by a client are texts.
\<close>

section \<open>The closed set\<close>

datatype operator_scope = AdminScope | ReadScope | WriteScope | ApprovalsScope | QuestionsScope | PairingScope | TalkSecretsScope

fun scope_name :: "operator_scope \<Rightarrow> string" where
  "scope_name AdminScope = ''operator.admin''"
| "scope_name ReadScope = ''operator.read''"
| "scope_name WriteScope = ''operator.write''"
| "scope_name ApprovalsScope = ''operator.approvals''"
| "scope_name QuestionsScope = ''operator.questions''"
| "scope_name PairingScope = ''operator.pairing''"
| "scope_name TalkSecretsScope = ''operator.talk.secrets''"

definition known_operator_scope_values :: "operator_scope list" where
  "known_operator_scope_values =
     [AdminScope, ReadScope, WriteScope, ApprovalsScope, QuestionsScope, PairingScope, TalkSecretsScope]"

definition is_operator_scope :: "string \<Rightarrow> bool" where
  "is_operator_scope v \<longleftrightarrow> v \<in> set (map scope_name known_operator_scope_values)"

definition normalize_operator_scope_list :: "string list option \<Rightarrow> string list option" where
  "normalize_operator_scope_list scopes =
     map_option (\<lambda>ss. fold (\<lambda>s acc. if is_operator_scope s \<and> s \<notin> set acc then acc @ [s] else acc) ss []) scopes"

lemma scope_name_inj [simp]: "scope_name a = scope_name b \<longleftrightarrow> a = b"
  by (cases a; cases b) simp_all

lemma known_operator_scopes [simp]: "s \<in> set known_operator_scope_values"
  by (cases s) (simp_all add: known_operator_scope_values_def)

lemma is_operator_scope_iff: "is_operator_scope v \<longleftrightarrow> (\<exists>s. v = scope_name s)"
  by (auto simp: is_operator_scope_def)

lemma is_operator_scope_name [simp]: "is_operator_scope (scope_name s)"
  by (auto simp: is_operator_scope_iff)

lemma js_trim_scope_name [simp]: "js_trim (scope_name s) = scope_name s"
  by (cases s; simp only: scope_name.simps; code_simp)

section \<open>Requested and granted scopes\<close>

definition normalize_scope_list :: "string list \<Rightarrow> string list" where
  "normalize_scope_list scopes =
     fold (\<lambda>s out. if js_trim s \<noteq> [] \<and> js_trim s \<notin> set out then out @ [js_trim s] else out) scopes []"

definition operator_scope_satisfied :: "string \<Rightarrow> string list \<Rightarrow> bool" where
  "operator_scope_satisfied requested granted \<longleftrightarrow>
     prefix ''operator.'' requested \<and>
     (''operator.admin'' \<in> set granted \<or>
      (if requested = ''operator.read'' then ''operator.read'' \<in> set granted \<or> ''operator.write'' \<in> set granted
       else if requested = ''operator.write'' then ''operator.write'' \<in> set granted
       else requested \<in> set granted))"

definition role_scopes_allow :: "string \<Rightarrow> string list \<Rightarrow> string list \<Rightarrow> bool" where
  "role_scopes_allow role requested_scopes allowed_scopes \<longleftrightarrow>
     (let requested = normalize_scope_list requested_scopes;
          allowed = normalize_scope_list allowed_scopes
      in if requested = [] then True
         else if allowed = [] then False
         else if js_trim role \<noteq> ''operator''
         then list_all (\<lambda>s. prefix (js_trim role @ ''.'') s \<and> s \<in> set allowed) requested
         else list_all (\<lambda>s. operator_scope_satisfied s allowed) requested)"

definition resolve_missing_requested_scope :: "string \<Rightarrow> string list \<Rightarrow> string list \<Rightarrow> string option" where
  "resolve_missing_requested_scope role requested allowed =
     find (\<lambda>s. \<not> role_scopes_allow role [s] allowed) requested"

definition resolve_scope_outside_requested_roles :: "string list \<Rightarrow> string list \<Rightarrow> string option" where
  "resolve_scope_outside_requested_roles roles requested =
     find (\<lambda>s. \<not> list_ex (\<lambda>role. role_scopes_allow role [s] [s]) roles) requested"

lemma normalize_scope_fold:
  "set (fold (\<lambda>s out. if js_trim s \<noteq> [] \<and> js_trim s \<notin> set out then out @ [js_trim s] else out) scopes acc) =
   set acc \<union> {js_trim s |s. s \<in> set scopes \<and> js_trim s \<noteq> []}"
  by (induction scopes arbitrary: acc) auto

lemma normalize_scope_list_set: "set (normalize_scope_list scopes) = {js_trim s |s. s \<in> set scopes \<and> js_trim s \<noteq> []}"
  using normalize_scope_fold [of scopes "[]"] by (simp add: normalize_scope_list_def)

lemma normalize_scope_list_Nil: "normalize_scope_list scopes = [] \<longleftrightarrow> (\<forall>s\<in>set scopes. js_trim s = [])"
proof -
  have "normalize_scope_list scopes = [] \<longleftrightarrow> set (normalize_scope_list scopes) = {}" by simp
  then show ?thesis by (auto simp: normalize_scope_list_set)
qed

text \<open>What both relations decide: a scope is covered by itself, by the admin scope, and reading by writing.\<close>

definition scope_covered :: "string list \<Rightarrow> operator_scope \<Rightarrow> bool" where
  "scope_covered scopes s \<longleftrightarrow>
     scope_name AdminScope \<in> set scopes \<or> scope_name s \<in> set scopes \<or> s = ReadScope \<and> scope_name WriteScope \<in> set scopes"

lemma scope_covered_mono: "set scopes \<subseteq> set scopes' \<Longrightarrow> scope_covered scopes s \<Longrightarrow> scope_covered scopes' s"
  by (auto simp: scope_covered_def)

lemma operator_scope_satisfied_name: "operator_scope_satisfied (scope_name s) granted \<longleftrightarrow> scope_covered granted s"
  by (cases s) (auto simp: operator_scope_satisfied_def scope_covered_def)

lemma scope_covered_normalized: "scope_covered (normalize_scope_list scopes) s \<longleftrightarrow> scope_covered (map js_trim scopes) s"
proof -
  have "scope_name t \<in> set (normalize_scope_list scopes) \<longleftrightarrow> scope_name t \<in> set (map js_trim scopes)" for t
    by (cases t) (auto simp: normalize_scope_list_set)
  from this [of AdminScope] this [of WriteScope] this [of s] show ?thesis by (simp add: scope_covered_def)
qed

lemma role_scopes_allow_operator:
  assumes "rs \<noteq> []"
  shows "role_scopes_allow ''operator'' (map scope_name rs) scopes \<longleftrightarrow> (\<forall>s\<in>set rs. scope_covered (map js_trim scopes) s)"
proof -
  have ne: "scope_name s \<noteq> []" for s by (cases s) simp_all
  have r: "set (normalize_scope_list (map scope_name rs)) = scope_name ` set rs"
    using ne by (auto simp: normalize_scope_list_set image_iff) (metis js_trim_scope_name)
  have o: "js_trim ''operator'' = ''operator''" by code_simp
  have e: "\<not> (\<forall>s\<in>set rs. scope_covered (map js_trim scopes) s)" if "normalize_scope_list scopes = []"
  proof -
    obtain x where "x \<in> set rs" using assms by (cases rs) auto
    moreover have "\<not> scope_covered (map js_trim scopes) x"
      using that scope_covered_normalized [of scopes x] by (simp add: scope_covered_def)
    ultimately show ?thesis by blast
  qed
  have n: "normalize_scope_list (map scope_name rs) \<noteq> []" using assms r by auto
  show ?thesis
    using e n r by (auto simp: role_scopes_allow_def o Let_def list_all_iff operator_scope_satisfied_name scope_covered_normalized)
qed

end
