(* ===== verification/Method_Policy.thy ===== *)
theory Method_Policy
  imports Operator_Scopes Prelude
begin

text \<open>
  The policy of gateway methods: the descriptor table of \<open>gateway/methods/core-descriptors.ts\<close>, the registry of
  \<open>gateway/methods/registry.ts\<close>, the roles of \<open>gateway/role-policy.ts\<close> and the scopes that
  \<open>gateway/method-scopes.ts\<close> asks for, with the tables it reads (\<open>shared/gateway-method-policy.ts\<close>,
  \<open>gateway/agent-command-policy.ts\<close>, \<open>gateway/node-browser-proxy-policy.ts\<close>, \<open>infra/node-commands.ts\<close>).
  Parameters of a request are JSON values; an object is the list of its properties. Handlers are opaque numbers.
\<close>

section \<open>JSON\<close>

datatype json = JsonNull | JsonBool bool | JsonNumber rat | JsonText string | JsonList "json list" | JsonObject "(string \<times> json) list"

text \<open>The properties of a value that is an object and not an array.\<close>

fun json_object :: "json option \<Rightarrow> (string \<times> json) list option" where
  "json_object (Some (JsonObject ps)) = Some ps"
| "json_object _ = None"

definition json_field :: "json option \<Rightarrow> string \<Rightarrow> json option" where
  "json_field v k = Option.bind (json_object v) (\<lambda>ps. js_get ps k)"

fun json_text :: "json option \<Rightarrow> string option" where
  "json_text (Some (JsonText s)) = Some s"
| "json_text _ = None"

section \<open>Method descriptors\<close>

datatype method_scope = OpScope operator_scope | NodeScope | DynamicScope

record core_method =
  cm_name :: string
  cm_scope :: method_scope
  cm_since :: string
  cm_advertise :: bool
  cm_startup :: bool
  cm_control_plane_write :: bool

definition spec_row :: "string \<Rightarrow> method_scope \<Rightarrow> string \<Rightarrow> core_method" where
  "spec_row name scope since =
     \<lparr>cm_name = name, cm_scope = scope, cm_since = since, cm_advertise = True, cm_startup = False, cm_control_plane_write = False\<rparr>"

definition core_gateway_method_specs :: "core_method list" where
  "core_gateway_method_specs =
     [spec_row ''health'' (OpScope ReadScope) ''<=2026.7'',
      spec_row ''diagnostics.stability'' (OpScope ReadScope) ''<=2026.7'',
      spec_row ''doctor.memory.status'' (OpScope ReadScope) ''<=2026.7'',
      spec_row ''doctor.memory.dreamDiary'' (OpScope ReadScope) ''<=2026.7'',
      spec_row ''doctor.memory.backfillDreamDiary'' (OpScope WriteScope) ''<=2026.7'',
      spec_row ''doctor.memory.resetDreamDiary'' (OpScope WriteScope) ''<=2026.7'',
      spec_row ''doctor.memory.resetGroundedShortTerm'' (OpScope WriteScope) ''<=2026.7'',
      spec_row ''doctor.memory.repairDreamingArtifacts'' (OpScope WriteScope) ''<=2026.7'',
      spec_row ''doctor.memory.dedupeDreamDiary'' (OpScope WriteScope) ''<=2026.7'',
      spec_row ''doctor.memory.remHarness'' (OpScope ReadScope) ''<=2026.7'',
      spec_row ''logs.tail'' (OpScope ReadScope) ''<=2026.7'',
      spec_row ''channels.status'' (OpScope ReadScope) ''<=2026.7'',
      spec_row ''channels.start'' (OpScope AdminScope) ''<=2026.7'',
      spec_row ''channels.stop'' (OpScope AdminScope) ''<=2026.7'',
      spec_row ''channels.logout'' (OpScope AdminScope) ''<=2026.7'',
      spec_row ''status'' (OpScope ReadScope) ''<=2026.7'',
      spec_row ''usage.status'' (OpScope ReadScope) ''<=2026.7'',
      spec_row ''usage.cost'' (OpScope ReadScope) ''<=2026.7'',
      spec_row ''tts.status'' (OpScope ReadScope) ''<=2026.7'',
      spec_row ''tts.providers'' (OpScope ReadScope) ''<=2026.7'',
      spec_row ''tts.personas'' (OpScope ReadScope) ''<=2026.7'',
      spec_row ''tts.enable'' (OpScope WriteScope) ''<=2026.7'',
      spec_row ''tts.disable'' (OpScope WriteScope) ''<=2026.7'',
      spec_row ''tts.convert'' (OpScope WriteScope) ''<=2026.7'',
      spec_row ''tts.setProvider'' (OpScope WriteScope) ''<=2026.7'',
      spec_row ''tts.setPersona'' (OpScope WriteScope) ''<=2026.7'',
      spec_row ''config.get'' (OpScope ReadScope) ''<=2026.7'',
      spec_row ''config.set'' (OpScope AdminScope) ''<=2026.7'',
      (spec_row ''config.apply'' (OpScope AdminScope) ''<=2026.7'')\<lparr>cm_control_plane_write := True\<rparr>,
      (spec_row ''config.patch'' (OpScope AdminScope) ''<=2026.7'')\<lparr>cm_control_plane_write := True\<rparr>,
      spec_row ''config.schema'' (OpScope AdminScope) ''<=2026.7'',
      spec_row ''config.schema.lookup'' (OpScope ReadScope) ''<=2026.7'',
      spec_row ''exec.approvals.get'' (OpScope AdminScope) ''<=2026.7'',
      spec_row ''exec.approvals.set'' (OpScope AdminScope) ''<=2026.7'',
      spec_row ''exec.approvals.node.get'' (OpScope AdminScope) ''<=2026.7'',
      spec_row ''exec.approvals.node.set'' (OpScope AdminScope) ''<=2026.7'',
      spec_row ''exec.approval.get'' (OpScope ApprovalsScope) ''<=2026.7'',
      spec_row ''exec.approval.list'' (OpScope ApprovalsScope) ''<=2026.7'',
      spec_row ''exec.approval.request'' (OpScope ApprovalsScope) ''<=2026.7'',
      spec_row ''exec.approval.waitDecision'' (OpScope ApprovalsScope) ''<=2026.7'',
      spec_row ''exec.approval.resolve'' (OpScope ApprovalsScope) ''<=2026.7'',
      spec_row ''question.request'' (OpScope QuestionsScope) ''2026.7'',
      spec_row ''question.waitAnswer'' (OpScope QuestionsScope) ''2026.7'',
      spec_row ''question.resolve'' (OpScope QuestionsScope) ''2026.7'',
      spec_row ''question.get'' (OpScope QuestionsScope) ''2026.7'',
      spec_row ''question.list'' (OpScope QuestionsScope) ''2026.7'',
      spec_row ''plugin.approval.list'' (OpScope ApprovalsScope) ''<=2026.7'',
      spec_row ''plugin.approval.request'' (OpScope ApprovalsScope) ''<=2026.7'',
      spec_row ''plugin.approval.waitDecision'' (OpScope ApprovalsScope) ''<=2026.7'',
      spec_row ''plugin.approval.resolve'' (OpScope ApprovalsScope) ''<=2026.7'',
      spec_row ''plugins.uiDescriptors'' (OpScope ReadScope) ''<=2026.7'',
      spec_row ''plugins.sessionAction'' DynamicScope ''<=2026.7'',
      spec_row ''openclaw.chat'' (OpScope AdminScope) ''<=2026.7'',
      spec_row ''openclaw.chat.history'' (OpScope AdminScope) ''2026.7'',
      spec_row ''openclaw.changes.list'' (OpScope AdminScope) ''<=2026.7'',
      spec_row ''openclaw.approval.list'' (OpScope ApprovalsScope) ''<=2026.7'',
      spec_row ''openclaw.setup.detect'' (OpScope AdminScope) ''<=2026.7'',
      spec_row ''openclaw.setup.activate'' (OpScope AdminScope) ''<=2026.7'',
      spec_row ''openclaw.setup.auth.start'' (OpScope AdminScope) ''<=2026.7'',
      spec_row ''openclaw.setup.prepare.start'' (OpScope AdminScope) ''<=2026.7'',
      spec_row ''wizard.start'' (OpScope AdminScope) ''<=2026.7'',
      spec_row ''wizard.next'' (OpScope AdminScope) ''<=2026.7'',
      spec_row ''wizard.cancel'' (OpScope AdminScope) ''<=2026.7'',
      spec_row ''wizard.status'' (OpScope AdminScope) ''<=2026.7'',
      spec_row ''talk.catalog'' (OpScope ReadScope) ''<=2026.7'',
      spec_row ''talk.config'' DynamicScope ''<=2026.7'',
      spec_row ''talk.client.create'' (OpScope WriteScope) ''<=2026.7'',
      spec_row ''talk.client.transcript'' (OpScope WriteScope) ''<=2026.7'',
      spec_row ''talk.client.close'' (OpScope WriteScope) ''<=2026.7'',
      spec_row ''talk.client.toolCall'' (OpScope WriteScope) ''<=2026.7'',
      spec_row ''talk.client.steer'' (OpScope WriteScope) ''<=2026.7'',
      spec_row ''talk.session.create'' (OpScope WriteScope) ''<=2026.7'',
      spec_row ''talk.session.join'' (OpScope WriteScope) ''<=2026.7'',
      spec_row ''talk.session.appendAudio'' (OpScope WriteScope) ''<=2026.7'',
      spec_row ''talk.session.startTurn'' (OpScope WriteScope) ''<=2026.7'',
      spec_row ''talk.session.endTurn'' (OpScope WriteScope) ''<=2026.7'',
      spec_row ''talk.session.cancelTurn'' (OpScope WriteScope) ''<=2026.7'',
      spec_row ''talk.session.cancelOutput'' (OpScope WriteScope) ''<=2026.7'',
      spec_row ''talk.session.acknowledgeMark'' (OpScope WriteScope) ''<=2026.7'',
      spec_row ''talk.session.submitToolResult'' (OpScope WriteScope) ''<=2026.7'',
      spec_row ''talk.session.steer'' (OpScope WriteScope) ''<=2026.7'',
      spec_row ''talk.session.close'' (OpScope WriteScope) ''<=2026.7'',
      spec_row ''talk.speak'' (OpScope WriteScope) ''<=2026.7'',
      spec_row ''talk.mode'' (OpScope WriteScope) ''<=2026.7'',
      spec_row ''commands.list'' (OpScope ReadScope) ''<=2026.7'',
      (spec_row ''models.list'' (OpScope ReadScope) ''<=2026.7'')\<lparr>cm_startup := True\<rparr>,
      spec_row ''models.authStatus'' (OpScope ReadScope) ''<=2026.7'',
      (spec_row ''models.authLogout'' (OpScope AdminScope) ''<=2026.7'')\<lparr>cm_control_plane_write := True\<rparr>,
      spec_row ''tools.catalog'' (OpScope ReadScope) ''<=2026.7'',
      (spec_row ''tools.effective'' (OpScope ReadScope) ''<=2026.7'')\<lparr>cm_startup := True\<rparr>,
      spec_row ''tools.invoke'' (OpScope WriteScope) ''<=2026.7'',
      spec_row ''mcp.app.view'' (OpScope ReadScope) ''<=2026.7'',
      spec_row ''mcp.app.listTools'' (OpScope ReadScope) ''<=2026.7'',
      spec_row ''mcp.app.listResources'' (OpScope ReadScope) ''<=2026.7'',
      spec_row ''mcp.app.listResourceTemplates'' (OpScope ReadScope) ''<=2026.7'',
      spec_row ''mcp.app.readResource'' (OpScope ReadScope) ''<=2026.7'',
      spec_row ''mcp.app.callTool'' (OpScope WriteScope) ''<=2026.7'',
      spec_row ''mcp.app.updateModelContext'' (OpScope WriteScope) ''<=2026.7'',
      spec_row ''board.get'' (OpScope ReadScope) ''<=2026.7'',
      spec_row ''board.update'' (OpScope WriteScope) ''<=2026.7'',
      spec_row ''board.widget.put'' (OpScope WriteScope) ''<=2026.7'',
      spec_row ''board.widget.grant'' (OpScope ApprovalsScope) ''<=2026.7'',
      spec_row ''board.widget.appView'' (OpScope ReadScope) ''2026.7'',
      spec_row ''board.event'' (OpScope WriteScope) ''<=2026.7'',
      spec_row ''audit.list'' (OpScope ReadScope) ''2026.7'',
      spec_row ''audit.activity.list'' (OpScope ReadScope) ''2026.7'',
      spec_row ''users.list'' (OpScope ReadScope) ''<=2026.7'',
      spec_row ''users.self'' (OpScope WriteScope) ''<=2026.7'',
      spec_row ''users.linkEmail'' (OpScope AdminScope) ''<=2026.7'',
      spec_row ''users.setDisplayName'' (OpScope WriteScope) ''<=2026.7'',
      spec_row ''users.setAvatar'' (OpScope WriteScope) ''<=2026.7'',
      spec_row ''tasks.list'' (OpScope ReadScope) ''<=2026.7'',
      spec_row ''tasks.get'' (OpScope ReadScope) ''<=2026.7'',
      spec_row ''tasks.cancel'' (OpScope WriteScope) ''<=2026.7'',
      spec_row ''taskSuggestions.list'' (OpScope ReadScope) ''<=2026.7'',
      spec_row ''taskSuggestions.create'' (OpScope WriteScope) ''<=2026.7'',
      spec_row ''taskSuggestions.accept'' (OpScope AdminScope) ''<=2026.7'',
      spec_row ''taskSuggestions.dismiss'' (OpScope WriteScope) ''<=2026.7'',
      spec_row ''environments.list'' (OpScope ReadScope) ''2026.7'',
      spec_row ''environments.status'' (OpScope ReadScope) ''2026.7'',
      spec_row ''worktrees.list'' (OpScope ReadScope) ''2026.7'',
      spec_row ''worktrees.branches'' (OpScope WriteScope) ''2026.7'',
      spec_row ''fs.listDir'' (OpScope AdminScope) ''<=2026.7'',
      (spec_row ''worktrees.create'' (OpScope AdminScope) ''2026.7'')\<lparr>cm_control_plane_write := True\<rparr>,
      (spec_row ''worktrees.remove'' (OpScope AdminScope) ''2026.7'')\<lparr>cm_control_plane_write := True\<rparr>,
      (spec_row ''worktrees.restore'' (OpScope AdminScope) ''2026.7'')\<lparr>cm_control_plane_write := True\<rparr>,
      (spec_row ''worktrees.gc'' (OpScope AdminScope) ''2026.7'')\<lparr>cm_control_plane_write := True\<rparr>,
      spec_row ''agents.list'' (OpScope ReadScope) ''<=2026.7'',
      spec_row ''agents.create'' (OpScope AdminScope) ''<=2026.7'',
      spec_row ''agents.update'' (OpScope AdminScope) ''<=2026.7'',
      spec_row ''agents.delete'' (OpScope AdminScope) ''<=2026.7'',
      spec_row ''agents.files.list'' (OpScope ReadScope) ''<=2026.7'',
      spec_row ''agents.files.get'' (OpScope ReadScope) ''<=2026.7'',
      spec_row ''agents.files.set'' (OpScope AdminScope) ''<=2026.7'',
      spec_row ''sessions.files.list'' (OpScope ReadScope) ''<=2026.7'',
      spec_row ''sessions.files.get'' (OpScope ReadScope) ''<=2026.7'',
      spec_row ''sessions.files.set'' (OpScope AdminScope) ''<=2026.7'',
      spec_row ''sessions.files.reveal'' (OpScope AdminScope) ''<=2026.7'',
      spec_row ''artifacts.list'' (OpScope ReadScope) ''<=2026.7'',
      spec_row ''artifacts.get'' (OpScope ReadScope) ''<=2026.7'',
      spec_row ''artifacts.download'' (OpScope ReadScope) ''<=2026.7'',
      spec_row ''skills.status'' (OpScope ReadScope) ''<=2026.7'',
      spec_row ''skills.search'' (OpScope ReadScope) ''<=2026.7'',
      spec_row ''skills.detail'' (OpScope ReadScope) ''<=2026.7'',
      spec_row ''skills.securityVerdicts'' (OpScope ReadScope) ''<=2026.7'',
      spec_row ''skills.skillCard'' (OpScope ReadScope) ''<=2026.7'',
      spec_row ''skills.bins'' NodeScope ''<=2026.7'',
      spec_row ''skills.upload.begin'' (OpScope AdminScope) ''<=2026.7'',
      spec_row ''skills.upload.chunk'' (OpScope AdminScope) ''<=2026.7'',
      spec_row ''skills.upload.commit'' (OpScope AdminScope) ''<=2026.7'',
      spec_row ''skills.install'' (OpScope AdminScope) ''<=2026.7'',
      spec_row ''skills.update'' (OpScope AdminScope) ''<=2026.7'',
      spec_row ''skills.curator.status'' (OpScope ReadScope) ''<=2026.7'',
      spec_row ''skills.curator.pin'' (OpScope AdminScope) ''<=2026.7'',
      spec_row ''skills.curator.unpin'' (OpScope AdminScope) ''<=2026.7'',
      spec_row ''skills.curator.restore'' (OpScope AdminScope) ''<=2026.7'',
      spec_row ''skills.proposals.list'' (OpScope ReadScope) ''<=2026.7'',
      spec_row ''skills.proposals.inspect'' (OpScope ReadScope) ''<=2026.7'',
      spec_row ''skills.proposals.historyStatus'' (OpScope ReadScope) ''<=2026.7'',
      spec_row ''skills.proposals.historyScan'' (OpScope AdminScope) ''<=2026.7'',
      spec_row ''skills.proposals.create'' (OpScope AdminScope) ''<=2026.7'',
      spec_row ''skills.proposals.update'' (OpScope AdminScope) ''<=2026.7'',
      spec_row ''skills.proposals.revise'' (OpScope AdminScope) ''<=2026.7'',
      spec_row ''skills.proposals.requestRevision'' (OpScope AdminScope) ''<=2026.7'',
      spec_row ''skills.proposals.apply'' (OpScope AdminScope) ''<=2026.7'',
      spec_row ''skills.proposals.reject'' (OpScope AdminScope) ''<=2026.7'',
      spec_row ''skills.proposals.quarantine'' (OpScope AdminScope) ''<=2026.7'',
      spec_row ''update.status'' (OpScope AdminScope) ''<=2026.7'',
      (spec_row ''update.run'' (OpScope AdminScope) ''<=2026.7'')\<lparr>cm_control_plane_write := True\<rparr>,
      spec_row ''voicewake.get'' (OpScope ReadScope) ''<=2026.7'',
      spec_row ''voicewake.set'' (OpScope WriteScope) ''<=2026.7'',
      spec_row ''secrets.reload'' (OpScope AdminScope) ''<=2026.7'',
      spec_row ''secrets.resolve'' (OpScope AdminScope) ''<=2026.7'',
      spec_row ''voicewake.routing.get'' (OpScope ReadScope) ''<=2026.7'',
      spec_row ''voicewake.routing.set'' (OpScope WriteScope) ''<=2026.7'',
      (spec_row ''sessions.list'' (OpScope ReadScope) ''<=2026.7'')\<lparr>cm_startup := True\<rparr>,
      spec_row ''sessions.subscribe'' (OpScope ReadScope) ''<=2026.7'',
      spec_row ''sessions.unsubscribe'' (OpScope ReadScope) ''<=2026.7'',
      spec_row ''sessions.messages.subscribe'' (OpScope ReadScope) ''<=2026.7'',
      spec_row ''sessions.messages.unsubscribe'' (OpScope ReadScope) ''<=2026.7'',
      spec_row ''sessions.preview'' (OpScope ReadScope) ''<=2026.7'',
      spec_row ''sessions.describe'' (OpScope ReadScope) ''<=2026.7'',
      spec_row ''sessions.compaction.list'' (OpScope ReadScope) ''<=2026.7'',
      spec_row ''sessions.compaction.get'' (OpScope ReadScope) ''<=2026.7'',
      spec_row ''sessions.compaction.branch'' (OpScope WriteScope) ''<=2026.7'',
      spec_row ''sessions.compaction.restore'' (OpScope AdminScope) ''<=2026.7'',
      spec_row ''sessions.branches.list'' (OpScope ReadScope) ''<=2026.7'',
      spec_row ''sessions.branches.switch'' (OpScope AdminScope) ''<=2026.7'',
      spec_row ''sessions.rewind'' (OpScope AdminScope) ''<=2026.7'',
      spec_row ''sessions.fork'' (OpScope WriteScope) ''<=2026.7'',
      (spec_row ''sessions.create'' DynamicScope ''<=2026.7'')\<lparr>cm_startup := True\<rparr>,
      (spec_row ''sessions.send'' (OpScope WriteScope) ''<=2026.7'')\<lparr>cm_startup := True\<rparr>,
      (spec_row ''sessions.abort'' (OpScope WriteScope) ''<=2026.7'')\<lparr>cm_startup := True\<rparr>,
      spec_row ''sessions.patch'' DynamicScope ''<=2026.7'',
      spec_row ''sessions.pluginPatch'' (OpScope AdminScope) ''<=2026.7'',
      spec_row ''sessions.cleanup'' (OpScope AdminScope) ''<=2026.7'',
      spec_row ''sessions.reset'' (OpScope AdminScope) ''<=2026.7'',
      spec_row ''sessions.delete'' DynamicScope ''<=2026.7'',
      spec_row ''sessions.compact'' (OpScope AdminScope) ''<=2026.7'',
      spec_row ''sessions.groups.list'' (OpScope ReadScope) ''<=2026.7'',
      spec_row ''sessions.groups.put'' (OpScope WriteScope) ''<=2026.7'',
      spec_row ''sessions.groups.rename'' (OpScope WriteScope) ''<=2026.7'',
      spec_row ''sessions.groups.delete'' (OpScope WriteScope) ''<=2026.7'',
      spec_row ''last-heartbeat'' (OpScope ReadScope) ''<=2026.7'',
      spec_row ''set-heartbeats'' (OpScope AdminScope) ''<=2026.7'',
      spec_row ''wake'' (OpScope WriteScope) ''<=2026.7'',
      spec_row ''node.pair.list'' (OpScope PairingScope) ''<=2026.7'',
      spec_row ''node.pair.approve'' (OpScope PairingScope) ''<=2026.7'',
      spec_row ''node.pair.reject'' (OpScope PairingScope) ''<=2026.7'',
      spec_row ''node.pair.remove'' (OpScope PairingScope) ''<=2026.7'',
      spec_row ''device.pair.list'' (OpScope PairingScope) ''<=2026.7'',
      spec_row ''device.pair.approve'' (OpScope PairingScope) ''<=2026.7'',
      spec_row ''device.pair.reject'' (OpScope PairingScope) ''<=2026.7'',
      spec_row ''device.pair.remove'' (OpScope PairingScope) ''<=2026.7'',
      spec_row ''device.pair.rename'' (OpScope PairingScope) ''2026.7'',
      spec_row ''device.token.rotate'' (OpScope PairingScope) ''<=2026.7'',
      spec_row ''device.token.revoke'' (OpScope PairingScope) ''<=2026.7'',
      (spec_row ''device.pair.setupCode'' (OpScope AdminScope) ''<=2026.7'')\<lparr>cm_advertise := False\<rparr>,
      spec_row ''node.rename'' (OpScope PairingScope) ''<=2026.7'',
      spec_row ''node.list'' (OpScope ReadScope) ''<=2026.7'',
      spec_row ''node.describe'' (OpScope ReadScope) ''<=2026.7'',
      spec_row ''node.pluginSurface.refresh'' NodeScope ''<=2026.7'',
      spec_row ''node.pluginTools.update'' NodeScope ''<=2026.7'',
      spec_row ''node.skills.update'' NodeScope ''<=2026.7'',
      spec_row ''node.pending.drain'' NodeScope ''<=2026.7'',
      spec_row ''node.pending.enqueue'' (OpScope WriteScope) ''<=2026.7'',
      spec_row ''node.invoke'' DynamicScope ''<=2026.7'',
      spec_row ''node.pending.pull'' NodeScope ''<=2026.7'',
      spec_row ''node.pending.ack'' NodeScope ''<=2026.7'',
      spec_row ''node.invoke.progress'' NodeScope ''<=2026.7'',
      spec_row ''node.invoke.result'' NodeScope ''<=2026.7'',
      spec_row ''node.event'' NodeScope ''<=2026.7'',
      spec_row ''cron.get'' (OpScope ReadScope) ''<=2026.7'',
      spec_row ''cron.list'' (OpScope ReadScope) ''<=2026.7'',
      spec_row ''cron.status'' (OpScope ReadScope) ''<=2026.7'',
      spec_row ''cron.add'' (OpScope AdminScope) ''<=2026.7'',
      spec_row ''cron.update'' (OpScope AdminScope) ''<=2026.7'',
      spec_row ''cron.remove'' (OpScope AdminScope) ''<=2026.7'',
      spec_row ''cron.run'' (OpScope AdminScope) ''<=2026.7'',
      spec_row ''cron.runs'' (OpScope ReadScope) ''<=2026.7'',
      spec_row ''gateway.identity.get'' (OpScope ReadScope) ''<=2026.7'',
      spec_row ''gateway.restart.preflight'' (OpScope ReadScope) ''<=2026.7'',
      (spec_row ''gateway.restart.request'' (OpScope AdminScope) ''<=2026.7'')\<lparr>cm_control_plane_write := True\<rparr>,
      spec_row ''system-presence'' (OpScope ReadScope) ''<=2026.7'',
      spec_row ''system-event'' (OpScope AdminScope) ''<=2026.7'',
      spec_row ''message.action'' (OpScope WriteScope) ''<=2026.7'',
      spec_row ''conversations.send'' (OpScope AdminScope) ''<=2026.7'',
      spec_row ''conversations.turn'' (OpScope AdminScope) ''<=2026.7'',
      spec_row ''conversations.turn.cancel'' (OpScope AdminScope) ''<=2026.7'',
      spec_row ''send'' (OpScope WriteScope) ''<=2026.7'',
      (spec_row ''agent'' DynamicScope ''<=2026.7'')\<lparr>cm_startup := True\<rparr>,
      spec_row ''agent.identity.get'' (OpScope ReadScope) ''<=2026.7'',
      (spec_row ''agent.wait'' (OpScope WriteScope) ''<=2026.7'')\<lparr>cm_startup := True\<rparr>,
      (spec_row ''chat.history'' (OpScope ReadScope) ''<=2026.7'')\<lparr>cm_startup := True\<rparr>,
      (spec_row ''chat.startup'' (OpScope ReadScope) ''<=2026.7'')\<lparr>cm_startup := True\<rparr>,
      (spec_row ''chat.metadata'' (OpScope ReadScope) ''<=2026.7'')\<lparr>cm_startup := True\<rparr>,
      (spec_row ''chat.message.get'' (OpScope ReadScope) ''<=2026.7'')\<lparr>cm_startup := True\<rparr>,
      spec_row ''chat.abort'' (OpScope WriteScope) ''<=2026.7'',
      (spec_row ''chat.send'' (OpScope WriteScope) ''<=2026.7'')\<lparr>cm_startup := True\<rparr>,
      spec_row ''terminal.open'' (OpScope AdminScope) ''2026.7'',
      spec_row ''terminal.input'' (OpScope AdminScope) ''2026.7'',
      spec_row ''terminal.resize'' (OpScope AdminScope) ''2026.7'',
      spec_row ''terminal.close'' (OpScope AdminScope) ''2026.7'',
      (spec_row ''assistant.media.get'' (OpScope ReadScope) ''<=2026.7'')\<lparr>cm_advertise := False\<rparr>,
      (spec_row ''sessions.get'' (OpScope ReadScope) ''<=2026.7'')\<lparr>cm_advertise := False\<rparr>,
      (spec_row ''sessions.resolve'' (OpScope ReadScope) ''<=2026.7'')\<lparr>cm_advertise := False\<rparr>,
      (spec_row ''sessions.usage'' (OpScope ReadScope) ''<=2026.7'')\<lparr>cm_advertise := False\<rparr>,
      (spec_row ''sessions.usage.timeseries'' (OpScope ReadScope) ''<=2026.7'')\<lparr>cm_advertise := False\<rparr>,
      (spec_row ''sessions.usage.logs'' (OpScope ReadScope) ''<=2026.7'')\<lparr>cm_advertise := False\<rparr>,
      (spec_row ''poll'' (OpScope WriteScope) ''<=2026.7'')\<lparr>cm_advertise := False\<rparr>,
      (spec_row ''sessions.steer'' (OpScope WriteScope) ''<=2026.7'')\<lparr>cm_advertise := False\<rparr>,
      (spec_row ''push.test'' (OpScope WriteScope) ''<=2026.7'')\<lparr>cm_advertise := False\<rparr>,
      (spec_row ''attach.grant'' (OpScope AdminScope) ''<=2026.7'')\<lparr>cm_control_plane_write := True\<rparr>,
      spec_row ''attach.revoke'' (OpScope AdminScope) ''<=2026.7'',
      (spec_row ''push.web.vapidPublicKey'' (OpScope WriteScope) ''<=2026.7'')\<lparr>cm_advertise := False\<rparr>,
      (spec_row ''push.web.subscribe'' (OpScope WriteScope) ''<=2026.7'')\<lparr>cm_advertise := False\<rparr>,
      (spec_row ''push.web.unsubscribe'' (OpScope WriteScope) ''<=2026.7'')\<lparr>cm_advertise := False\<rparr>,
      (spec_row ''push.web.test'' (OpScope WriteScope) ''<=2026.7'')\<lparr>cm_advertise := False\<rparr>,
      (spec_row ''config.openFile'' (OpScope AdminScope) ''<=2026.7'')\<lparr>cm_advertise := False\<rparr>,
      (spec_row ''connect'' (OpScope AdminScope) ''<=2026.7'')\<lparr>cm_advertise := False\<rparr>,
      (spec_row ''chat.inject'' (OpScope AdminScope) ''<=2026.7'')\<lparr>cm_advertise := False\<rparr>,
      (spec_row ''nativeHook.invoke'' (OpScope AdminScope) ''<=2026.7'')\<lparr>cm_advertise := False\<rparr>,
      (spec_row ''web.login.start'' (OpScope AdminScope) ''<=2026.7'')\<lparr>cm_advertise := False\<rparr>,
      (spec_row ''web.login.wait'' (OpScope AdminScope) ''<=2026.7'')\<lparr>cm_advertise := False\<rparr>,
      spec_row ''terminal.attach'' (OpScope AdminScope) ''2026.7'',
      spec_row ''terminal.list'' (OpScope AdminScope) ''2026.7'',
      spec_row ''terminal.text'' (OpScope AdminScope) ''2026.7'',
      spec_row ''controlUi.githubPreview'' (OpScope ReadScope) ''<=2026.7'',
      spec_row ''system.info'' (OpScope ReadScope) ''<=2026.7'',
      spec_row ''agents.workspace.list'' (OpScope ReadScope) ''2026.7'',
      spec_row ''agents.workspace.get'' (OpScope ReadScope) ''2026.7'',
      spec_row ''tts.speak'' (OpScope WriteScope) ''2026.7'',
      spec_row ''plugins.list'' (OpScope ReadScope) ''<=2026.7'',
      spec_row ''plugins.search'' (OpScope ReadScope) ''<=2026.7'',
      (spec_row ''plugins.install'' (OpScope AdminScope) ''<=2026.7'')\<lparr>cm_control_plane_write := True\<rparr>,
      (spec_row ''plugins.setEnabled'' (OpScope AdminScope) ''<=2026.7'')\<lparr>cm_control_plane_write := True\<rparr>,
      (spec_row ''plugins.uninstall'' (OpScope AdminScope) ''<=2026.7'')\<lparr>cm_control_plane_write := True\<rparr>,
      (spec_row ''plugins.refresh'' (OpScope AdminScope) ''<=2026.7'')\<lparr>cm_control_plane_write := True\<rparr>,
      spec_row ''controlUi.sessionPullRequests'' (OpScope ReadScope) ''<=2026.7'',
      (spec_row ''gateway.suspend.prepare'' (OpScope AdminScope) ''2026.7'')\<lparr>cm_startup := True, cm_control_plane_write := True\<rparr>,
      spec_row ''gateway.suspend.status'' (OpScope ReadScope) ''2026.7'',
      spec_row ''gateway.suspend.resume'' (OpScope AdminScope) ''2026.7'',
      spec_row ''chat.toolTitles'' (OpScope WriteScope) ''<=2026.7'',
      spec_row ''sessions.diff'' (OpScope ReadScope) ''<=2026.7'',
      spec_row ''openclaw.setup.verify'' (OpScope AdminScope) ''<=2026.7'',
      (spec_row ''environments.create'' (OpScope AdminScope) ''2026.7'')\<lparr>cm_startup := True, cm_control_plane_write := True\<rparr>,
      (spec_row ''environments.destroy'' (OpScope AdminScope) ''2026.7'')\<lparr>cm_startup := True, cm_control_plane_write := True\<rparr>,
      spec_row ''sessions.catalog.list'' (OpScope ReadScope) ''2026.7'',
      spec_row ''sessions.catalog.read'' (OpScope ReadScope) ''2026.7'',
      spec_row ''terminal.upload'' (OpScope AdminScope) ''2026.7'',
      spec_row ''sessions.catalog.continue'' (OpScope WriteScope) ''2026.7'',
      spec_row ''sessions.catalog.archive'' (OpScope WriteScope) ''2026.7'',
      spec_row ''approval.get'' (OpScope ApprovalsScope) ''2026.7'',
      spec_row ''approval.resolve'' (OpScope ApprovalsScope) ''2026.7'',
      spec_row ''sessions.search'' (OpScope ReadScope) ''<=2026.7'',
      (spec_row ''sessions.dispatch'' (OpScope AdminScope) ''2026.7'')\<lparr>cm_startup := True, cm_control_plane_write := True\<rparr>,
      (spec_row ''sessions.reclaim'' (OpScope AdminScope) ''2026.7'')\<lparr>cm_startup := True, cm_control_plane_write := True\<rparr>,
      spec_row ''models.probe'' (OpScope AdminScope) ''<=2026.7'',
      spec_row ''migrations.memory.plan'' (OpScope AdminScope) ''2026.7'',
      (spec_row ''migrations.memory.apply'' (OpScope AdminScope) ''2026.7'')\<lparr>cm_control_plane_write := True\<rparr>,
      spec_row ''ui.command'' (OpScope WriteScope) ''2026.7'',
      spec_row ''approval.history'' (OpScope ApprovalsScope) ''2026.7'',
      spec_row ''plugin.surface.refresh'' (OpScope ReadScope) ''<=2026.7'',
      spec_row ''conversations.list'' (OpScope AdminScope) ''<=2026.7'',
      spec_row ''session.discussion.info'' (OpScope ReadScope) ''2026.7'',
      spec_row ''session.discussion.open'' (OpScope WriteScope) ''2026.7'',
      spec_row ''board.prompt.authorize'' (OpScope ReadScope) ''2026.7'',
      spec_row ''board.data.read'' (OpScope ReadScope) ''2026.7'',
      spec_row ''board.action'' (OpScope WriteScope) ''2026.7'',
      spec_row ''sessions.observer.ask'' (OpScope ReadScope) ''2026.7'',
      spec_row ''sessions.observer.visibility'' (OpScope ReadScope) ''2026.7'']"

text \<open>The map by name, in which a later row would replace an earlier one.\<close>

definition core_method_spec :: "string \<Rightarrow> core_method option" where
  "core_method_spec name = find (\<lambda>m. cm_name m = name) (rev core_gateway_method_specs)"

definition startup_unavailable_gateway_methods :: "string list" where
  "startup_unavailable_gateway_methods = map cm_name (filter cm_startup core_gateway_method_specs)"

definition list_core_advertised_gateway_method_names :: "string list" where
  "list_core_advertised_gateway_method_names = map cm_name (filter cm_advertise core_gateway_method_specs)"

definition list_core_gateway_method_metadata :: "(string \<times> method_scope \<times> string) list" where
  "list_core_gateway_method_metadata = map (\<lambda>m. (cm_name m, cm_scope m, cm_since m)) core_gateway_method_specs"

definition list_core_gateway_method_names :: "string list" where
  "list_core_gateway_method_names = map fst list_core_gateway_method_metadata"

definition resolve_core_gateway_method_scope :: "string \<Rightarrow> method_scope option" where
  "resolve_core_gateway_method_scope name = map_option cm_scope (core_method_spec name)"

definition resolve_core_operator_gateway_method_scope :: "string \<Rightarrow> operator_scope option" where
  "resolve_core_operator_gateway_method_scope name =
     (case resolve_core_gateway_method_scope name of Some (OpScope s) \<Rightarrow> Some s | _ \<Rightarrow> None)"

definition is_core_node_gateway_method :: "string \<Rightarrow> bool" where
  "is_core_node_gateway_method name \<longleftrightarrow> resolve_core_gateway_method_scope name = Some NodeScope"

definition is_dynamic_operator_gateway_method :: "string \<Rightarrow> bool" where
  "is_dynamic_operator_gateway_method name \<longleftrightarrow> resolve_core_gateway_method_scope name = Some DynamicScope"

definition is_core_gateway_method_classified :: "string \<Rightarrow> bool" where
  "is_core_gateway_method_classified name \<longleftrightarrow> core_method_spec name \<noteq> None"

section \<open>Reserved names\<close>

definition reserved_admin_prefixes :: "string list" where
  "reserved_admin_prefixes = [''exec.approvals.'', ''config.'', ''wizard.'', ''update.'']"

definition resolve_reserved_gateway_method_scope :: "string \<Rightarrow> operator_scope option" where
  "resolve_reserved_gateway_method_scope name = (if list_ex (\<lambda>p. prefix p name) reserved_admin_prefixes then Some AdminScope else None)"

text \<open>The scope, and whether it was coerced.\<close>

definition normalize_plugin_gateway_method_scope :: "string \<Rightarrow> operator_scope option \<Rightarrow> operator_scope option \<times> bool" where
  "normalize_plugin_gateway_method_scope name scope =
     (case (resolve_reserved_gateway_method_scope name, scope) of
        (Some r, Some s) \<Rightarrow> if s = r then (scope, False) else (Some r, True)
      | _ \<Rightarrow> (scope, False))"

section \<open>The registry\<close>

datatype method_owner = CoreOwner string | PluginOwner string | ChannelOwner string | AuxOwner string

record method_descriptor =
  md_name :: string
  md_handler :: nat
  md_scope :: method_scope
  md_owner :: method_owner
  md_since :: "string option"
  md_startup_unavailable :: bool
  md_control_plane_write :: bool
  md_advertise :: bool

datatype registry_error = EmptyMethodName | AlreadyRegistered string | MissingDescriptor string | MissingScope string

definition normalize_descriptor :: "method_descriptor \<Rightarrow> registry_error + method_descriptor" where
  "normalize_descriptor i =
     (let name = js_trim (md_name i)
      in if name = [] then Inl EmptyMethodName
         else Inr (i\<lparr>md_name := name,
                     md_scope :=
                       (case (md_scope i, md_owner i) of
                          (OpScope s, PluginOwner p) \<Rightarrow>
                            (case fst (normalize_plugin_gateway_method_scope name (Some s)) of
                               Some s' \<Rightarrow> OpScope s'
                             | None \<Rightarrow> OpScope s)
                        | (sc, _) \<Rightarrow> sc)\<rparr>))"

fun normalize_descriptors :: "method_descriptor list \<Rightarrow> registry_error + method_descriptor list" where
  "normalize_descriptors [] = Inr []"
| "normalize_descriptors (i # is) =
     (case normalize_descriptor i of
        Inl e \<Rightarrow> Inl e
      | Inr d \<Rightarrow> (case normalize_descriptors is of Inl e \<Rightarrow> Inl e | Inr ds \<Rightarrow> Inr (d # ds)))"

text \<open>The first name that is there twice.\<close>

fun first_duplicate :: "string list \<Rightarrow> string list \<Rightarrow> string option" where
  "first_duplicate seen [] = None"
| "first_duplicate seen (n # ns) = (if n \<in> set seen then Some n else first_duplicate (n # seen) ns)"

type_synonym method_registry = "method_descriptor list"

definition create_gateway_method_registry :: "method_descriptor list \<Rightarrow> registry_error + method_registry" where
  "create_gateway_method_registry inputs =
     (case normalize_descriptors inputs of
        Inl e \<Rightarrow> Inl e
      | Inr ds \<Rightarrow>
          (case first_duplicate [] (map md_name ds) of
             Some n \<Rightarrow> Inl (AlreadyRegistered n)
           | None \<Rightarrow> Inr ds))"

definition registry_descriptor :: "method_registry \<Rightarrow> string \<Rightarrow> method_descriptor option" where
  "registry_descriptor reg name = find (\<lambda>d. md_name d = name) reg"

definition registry_handler :: "method_registry \<Rightarrow> string \<Rightarrow> nat option" where
  "registry_handler reg name = map_option md_handler (registry_descriptor reg name)"

definition registry_scope :: "method_registry \<Rightarrow> string \<Rightarrow> method_scope option" where
  "registry_scope reg name = map_option md_scope (registry_descriptor reg name)"

definition registry_control_plane_write :: "method_registry \<Rightarrow> string \<Rightarrow> bool" where
  "registry_control_plane_write reg name \<longleftrightarrow>
     (case registry_descriptor reg name of Some d \<Rightarrow> md_control_plane_write d | None \<Rightarrow> False)"

definition registry_startup_unavailable :: "method_registry \<Rightarrow> string \<Rightarrow> bool" where
  "registry_startup_unavailable reg name \<longleftrightarrow>
     (case registry_descriptor reg name of Some d \<Rightarrow> md_startup_unavailable d | None \<Rightarrow> False)"

definition registry_advertised :: "method_registry \<Rightarrow> string list" where
  "registry_advertised reg = map md_name (filter md_advertise reg)"

type_synonym handlers = "(string, nat) js_map"

definition core_descriptor :: "core_method \<Rightarrow> nat \<Rightarrow> method_descriptor" where
  "core_descriptor m h =
     \<lparr>md_name = cm_name m, md_handler = h, md_scope = cm_scope m, md_owner = CoreOwner ''gateway'', md_since = Some (cm_since m),
      md_startup_unavailable = cm_startup m, md_control_plane_write = cm_control_plane_write m, md_advertise = cm_advertise m\<rparr>"

definition create_core_gateway_method_descriptors :: "handlers \<Rightarrow> registry_error + method_descriptor list" where
  "create_core_gateway_method_descriptors hs =
     (case find (\<lambda>n. n \<notin> set (map cm_name core_gateway_method_specs)) (js_keys hs) of
        Some n \<Rightarrow> Inl (MissingDescriptor n)
      | None \<Rightarrow> Inr (List.map_filter (\<lambda>m. map_option (core_descriptor m) (js_get hs (cm_name m))) core_gateway_method_specs))"

definition plain_descriptor :: "string \<Rightarrow> nat \<Rightarrow> method_owner \<Rightarrow> operator_scope \<Rightarrow> method_descriptor" where
  "plain_descriptor name h own s =
     \<lparr>md_name = name, md_handler = h, md_scope = OpScope s, md_owner = own, md_since = None,
      md_startup_unavailable = False, md_control_plane_write = False, md_advertise = True\<rparr>"

fun create_gateway_method_descriptors_from_handlers ::
    "handlers \<Rightarrow> method_owner \<Rightarrow> operator_scope option \<Rightarrow> (string, operator_scope) js_map \<Rightarrow> registry_error + method_descriptor list" where
  "create_gateway_method_descriptors_from_handlers [] own def scopes = Inr []"
| "create_gateway_method_descriptors_from_handlers ((name, h) # hs) own def scopes =
     (case (case js_get scopes name of Some s \<Rightarrow> Some s | None \<Rightarrow> def) of
        None \<Rightarrow> Inl (MissingScope name)
      | Some s \<Rightarrow>
          (case create_gateway_method_descriptors_from_handlers hs own def scopes of
             Inl e \<Rightarrow> Inl e
           | Inr ds \<Rightarrow> Inr (plain_descriptor name h own s # ds)))"

definition create_plugin_gateway_method_descriptor :: "string \<Rightarrow> string \<Rightarrow> nat \<Rightarrow> operator_scope option \<Rightarrow> method_descriptor" where
  "create_plugin_gateway_method_descriptor plugin name h scope =
     plain_descriptor name h (PluginOwner plugin)
       (case fst (normalize_plugin_gateway_method_scope name scope) of Some s \<Rightarrow> s | None \<Rightarrow> AdminScope)"

text \<open>The active plugins: their descriptors, their handlers, and their session actions with the scopes they require.\<close>

record session_action =
  sa_plugin :: string
  sa_action :: string
  sa_required_scopes :: "operator_scope list option"

record plugin_registry =
  pr_descriptors :: "method_descriptor list option"
  pr_handlers :: handlers
  pr_session_actions :: "session_action list option"

definition create_plugin_gateway_method_descriptors :: "plugin_registry \<Rightarrow> registry_error + method_descriptor list" where
  "create_plugin_gateway_method_descriptors pr =
     (case pr_descriptors pr of
        Some (d # ds) \<Rightarrow> Inr (d # ds)
      | _ \<Rightarrow> create_gateway_method_descriptors_from_handlers (pr_handlers pr) (PluginOwner ''unknown'') (Some AdminScope) [])"

section \<open>Required scopes\<close>

definition cli_default_operator_scopes :: "operator_scope list" where
  "cli_default_operator_scopes =
     [AdminScope, ReadScope, WriteScope, ApprovalsScope, QuestionsScope, PairingScope, TalkSecretsScope]"

definition plugin_descriptors :: "plugin_registry option \<Rightarrow> method_descriptor list" where
  "plugin_descriptors pr = (case Option.bind pr pr_descriptors of Some ds \<Rightarrow> ds | None \<Rightarrow> [])"

definition resolve_scoped_method :: "plugin_registry option \<Rightarrow> string \<Rightarrow> operator_scope option" where
  "resolve_scoped_method pr name =
     (case resolve_core_operator_gateway_method_scope name of
        Some s \<Rightarrow> Some s
      | None \<Rightarrow>
          (case resolve_reserved_gateway_method_scope name of
             Some s \<Rightarrow> Some s
           | None \<Rightarrow>
               (case registry_scope (plugin_descriptors pr) name of Some (OpScope s) \<Rightarrow> Some s | _ \<Rightarrow> None)))"

definition is_approval_method :: "plugin_registry option \<Rightarrow> string \<Rightarrow> bool" where
  "is_approval_method pr name \<longleftrightarrow> resolve_scoped_method pr name = Some ApprovalsScope"

definition is_gateway_method_classified :: "plugin_registry option \<Rightarrow> string \<Rightarrow> bool" where
  "is_gateway_method_classified pr name \<longleftrightarrow>
     is_core_node_gateway_method name \<or> is_dynamic_operator_gateway_method name \<or>
     is_core_gateway_method_classified name \<or> resolve_scoped_method pr name \<noteq> None"

definition sessions_patch_write_scope_fields :: "string list" where
  "sessions_patch_write_scope_fields =
     [''key'', ''agentId'', ''label'', ''category'', ''icon'', ''pinned'', ''archived'', ''unread'']"

definition resolve_sessions_patch_required_scopes :: "json option \<Rightarrow> operator_scope list" where
  "resolve_sessions_patch_required_scopes params =
     (case json_object params of
        None \<Rightarrow> [WriteScope]
      | Some ps \<Rightarrow> if list_all (\<lambda>k. k \<in> set sessions_patch_write_scope_fields) (js_keys ps) then [WriteScope] else [AdminScope])"

definition resolve_sessions_create_required_scopes :: "json option \<Rightarrow> operator_scope list" where
  "resolve_sessions_create_required_scopes params =
     (case json_object params of
        None \<Rightarrow> [WriteScope]
      | Some ps \<Rightarrow> if ''cwd'' \<in> set (js_keys ps) \<or> ''execNode'' \<in> set (js_keys ps) then [AdminScope] else [WriteScope])"

definition sessions_delete_write_scope_fields :: "string list" where
  "sessions_delete_write_scope_fields = [''key'', ''agentId'', ''deleteTranscript'', ''archivedOnly'']"

definition resolve_sessions_delete_required_scopes :: "json option \<Rightarrow> operator_scope list" where
  "resolve_sessions_delete_required_scopes params =
     (case json_object params of
        None \<Rightarrow> [AdminScope]
      | Some ps \<Rightarrow>
          if js_get ps ''archivedOnly'' \<noteq> Some (JsonBool True) then [AdminScope]
          else if list_all (\<lambda>k. k \<in> set sessions_delete_write_scope_fields) (js_keys ps) then [WriteScope] else [AdminScope])"

text \<open>The plugin and the action that the parameters name, blank or missing ones as nothing.\<close>

definition session_action_ids :: "json option \<Rightarrow> (string \<times> string) option" where
  "session_action_ids params =
     (case (normalize_optional_string (json_text (json_field params ''pluginId'')),
            normalize_optional_string (json_text (json_field params ''actionId''))) of
        (Some p, Some a) \<Rightarrow> Some (p, a)
      | _ \<Rightarrow> None)"

definition resolve_session_action_registered_scopes :: "plugin_registry option \<Rightarrow> json option \<Rightarrow> operator_scope list option" where
  "resolve_session_action_registered_scopes pr params =
     (case session_action_ids params of
        None \<Rightarrow> None
      | Some (p, a) \<Rightarrow>
          (case find (\<lambda>e. sa_plugin e = p \<and> sa_action e = a)
                  (case Option.bind pr pr_session_actions of Some es \<Rightarrow> es | None \<Rightarrow> []) of
             None \<Rightarrow> None
           | Some e \<Rightarrow>
               (case sa_required_scopes e of Some (s # ss) \<Rightarrow> Some (s # ss) | _ \<Rightarrow> Some [WriteScope])))"

definition resolve_session_action_least_privilege_scopes :: "plugin_registry option \<Rightarrow> json option \<Rightarrow> operator_scope list" where
  "resolve_session_action_least_privilege_scopes pr params =
     (case resolve_session_action_registered_scopes pr params of
        Some ss \<Rightarrow> ss
      | None \<Rightarrow> if session_action_ids params \<noteq> None then cli_default_operator_scopes else [WriteScope])"

text \<open>The expression \<open>AGENT_SESSION_RESET_COMMAND_RE\<close>: a command word, and white space or the end.\<close>

definition is_agent_session_reset_command :: "json option \<Rightarrow> bool" where
  "is_agent_session_reset_command message \<longleftrightarrow>
     (case json_text message of
        None \<Rightarrow> False
      | Some s \<Rightarrow>
          list_ex (\<lambda>w. prefix w (js_lower s) \<and> (drop (length w) s = [] \<or> js_is_space (hd (drop (length w) s)))) [''/new'', ''/reset''])"

definition normalize_browser_proxy_path :: "string \<Rightarrow> string" where
  "normalize_browser_proxy_path v =
     (let trimmed = js_trim v
      in if trimmed = [] then trimmed
         else
           (let slashed = (if prefix ''/'' trimmed then trimmed else ''/'' @ trimmed)
            in if length slashed \<le> 1 then slashed
               else rev (dropWhile (\<lambda>c. c = CHR ''/'') (rev slashed))))"

definition is_persistent_browser_proxy_mutation :: "string \<Rightarrow> string \<Rightarrow> bool" where
  "is_persistent_browser_proxy_mutation verb path \<longleftrightarrow>
     (let n = normalize_browser_proxy_path path
      in verb = ''POST'' \<and> (n = ''/profiles/create'' \<or> n = ''/reset-profile'') \<or>
         verb = ''DELETE'' \<and> prefix ''/profiles/'' n \<and> drop 10 n \<noteq> [] \<and> CHR ''/'' \<notin> set (drop 10 n))"

definition is_forbidden_browser_proxy_mutation :: "json option \<Rightarrow> bool" where
  "is_forbidden_browser_proxy_mutation params \<longleftrightarrow>
     (let verb = js_upper (case normalize_optional_string (json_text (json_field params ''method'')) of Some m \<Rightarrow> m | None \<Rightarrow> []);
          path = (case normalize_optional_string (json_text (json_field params ''path'')) of Some p \<Rightarrow> p | None \<Rightarrow> [])
      in verb \<noteq> [] \<and> path \<noteq> [] \<and> is_persistent_browser_proxy_mutation verb path)"

definition node_admin_only_invoke_commands :: "string list" where
  "node_admin_only_invoke_commands = [''browser.proxy'', ''fs.listDir'', ''terminal.upload'']"

definition is_admin_only_node_invoke_command :: "json option \<Rightarrow> bool" where
  "is_admin_only_node_invoke_command command \<longleftrightarrow>
     (case json_text command of Some c \<Rightarrow> c \<in> set node_admin_only_invoke_commands | None \<Rightarrow> False)"

definition resolve_dynamic_least_privilege_scopes :: "plugin_registry option \<Rightarrow> string \<Rightarrow> json option \<Rightarrow> operator_scope list" where
  "resolve_dynamic_least_privilege_scopes pr name params =
     (if name = ''plugins.sessionAction'' then resolve_session_action_least_privilege_scopes pr params
      else if name = ''agent'' then
        (if is_agent_session_reset_command (json_field params ''message'') then [AdminScope] else [WriteScope])
      else if name = ''node.invoke'' then
        (let command = json_field params ''command''
         in if json_text command = Some ''browser.proxy'' \<and> is_forbidden_browser_proxy_mutation (json_field params ''params'')
            then [WriteScope]
            else if is_admin_only_node_invoke_command command then [AdminScope] else [WriteScope])
      else if name = ''talk.config'' then
        (if json_field params ''includeSecrets'' = Some (JsonBool True) then [ReadScope, TalkSecretsScope] else [ReadScope])
      else if name = ''sessions.patch'' then resolve_sessions_patch_required_scopes params
      else if name = ''sessions.create'' then resolve_sessions_create_required_scopes params
      else if name = ''sessions.delete'' then resolve_sessions_delete_required_scopes params
      else [WriteScope])"

definition find_missing_operator_scope :: "operator_scope list \<Rightarrow> string list \<Rightarrow> operator_scope option" where
  "find_missing_operator_scope required scopes =
     find (\<lambda>s. scope_name s \<notin> set scopes \<and> \<not> (s = ReadScope \<and> scope_name WriteScope \<in> set scopes)) required"

definition resolve_least_privilege_scopes :: "plugin_registry option \<Rightarrow> string \<Rightarrow> json option \<Rightarrow> operator_scope list" where
  "resolve_least_privilege_scopes pr name params =
     (if is_dynamic_operator_gateway_method name then resolve_dynamic_least_privilege_scopes pr name params
      else case resolve_scoped_method pr name of Some s \<Rightarrow> [s] | None \<Rightarrow> [])"

section \<open>Authorization\<close>

text \<open>An authorization is the scope that is missing, or nothing.\<close>

definition authorize_operator_scopes_for_required_scope :: "operator_scope \<Rightarrow> string list \<Rightarrow> operator_scope option" where
  "authorize_operator_scopes_for_required_scope required scopes =
     (if scope_name AdminScope \<in> set scopes then None
      else if required = ReadScope then
        (if scope_name ReadScope \<in> set scopes \<or> scope_name WriteScope \<in> set scopes then None else Some ReadScope)
      else if scope_name required \<in> set scopes then None else Some required)"

definition authorize_operator_scopes_for_method ::
    "plugin_registry option \<Rightarrow> string \<Rightarrow> string list \<Rightarrow> json option \<Rightarrow> operator_scope option" where
  "authorize_operator_scopes_for_method pr name scopes params =
     (if scope_name AdminScope \<in> set scopes then None
      else if is_dynamic_operator_gateway_method name then
        (if name = ''plugins.sessionAction'' then
           (let registered = resolve_session_action_registered_scopes pr params
            in if registered = None \<and> json_object params \<noteq> None \<and> session_action_ids params = None
               then (if list_ex is_operator_scope scopes then None else Some WriteScope)
               else find_missing_operator_scope (case registered of Some ss \<Rightarrow> ss | None \<Rightarrow> [WriteScope]) scopes)
         else find_missing_operator_scope (resolve_dynamic_least_privilege_scopes pr name params) scopes)
      else authorize_operator_scopes_for_required_scope
             (case resolve_scoped_method pr name of Some s \<Rightarrow> s | None \<Rightarrow> AdminScope) scopes)"

section \<open>Roles\<close>

datatype gateway_role = OperatorRole | NodeRole

definition parse_gateway_role :: "string \<Rightarrow> gateway_role option" where
  "parse_gateway_role raw = (if raw = ''operator'' then Some OperatorRole else if raw = ''node'' then Some NodeRole else None)"

definition role_can_skip_device_identity :: "gateway_role \<Rightarrow> bool \<Rightarrow> bool" where
  "role_can_skip_device_identity role shared_auth_ok \<longleftrightarrow> role = OperatorRole \<and> shared_auth_ok"

definition is_role_authorized_for_method :: "gateway_role \<Rightarrow> string \<Rightarrow> bool" where
  "is_role_authorized_for_method role name \<longleftrightarrow> (if is_core_node_gateway_method name then role = NodeRole else role = OperatorRole)"

end
