(* ===== verification/Work_Admission.thy ===== *)
theory Work_Admission
  imports Prelude
begin

text \<open>
  Process-wide admission of root work: \<open>src/src/process/gateway-work-admission.ts\<close>.

  The module's singleton \<open>GATEWAY_WORK_ADMISSION_STATE\<close> is the record \<open>admission\<close>. Root work
  objects are shared by reference (several leases count references on one object), so they live
  in an explicit heap indexed by allocation order; a lease is a closure with its own
  \<open>leaseReleased\<close> flag, held in a second heap. Callbacks, log lines and promise resolutions are
  recorded in order in \<open>adm_trace\<close>. The asynchronous context (\<open>currentRootWork.getStore()\<close>) of the
  calling chain is the argument \<open>cur\<close>.
\<close>

section \<open>State\<close>

datatype suspend_phase = Accepting | Preparing | Prepared

datatype close_reason = RestartSignalFence | RestartDrain | SuspendPhase

datatype adm_effect =
    LogClosed close_reason
  | LogReopened close_reason
  | WokeOpenWaiter nat
  | WokeDrainWaiter nat
  | CalledInvalidated nat

record root_work =
  references :: int
  released :: bool

record admission =
  restart_draining :: bool
  restart_signal_pending :: bool
  restart_signal_generation :: nat
  suspend_phase_of :: suspend_phase
  suspend_generation :: nat
  suspend_invalidated :: "nat option"
  active_root_work :: "nat list"
  root_drain_waiters :: "nat list"
  suspend_open_waiters :: "nat list"
  root_heap :: "root_work list"
  lease_heap :: "(nat \<times> bool) list"
  adm_trace :: "adm_effect list"

definition initial_admission :: admission where
  "initial_admission =
     \<lparr>restart_draining = False, restart_signal_pending = False, restart_signal_generation = 0,
      suspend_phase_of = Accepting, suspend_generation = 0, suspend_invalidated = None,
      active_root_work = [], root_drain_waiters = [], suspend_open_waiters = [],
      root_heap = [], lease_heap = [], adm_trace = []\<rparr>"

definition adm_emit :: "adm_effect list \<Rightarrow> admission \<Rightarrow> admission" where
  "adm_emit es s = s\<lparr>adm_trace := adm_trace s @ es\<rparr>"

section \<open>Root work and its leases\<close>

definition resolve_root_drain_waiters :: "admission \<Rightarrow> admission" where
  "resolve_root_drain_waiters s =
     adm_emit (map WokeDrainWaiter (root_drain_waiters s)) (s\<lparr>root_drain_waiters := []\<rparr>)"

definition resolve_suspend_open_waiters :: "admission \<Rightarrow> admission" where
  "resolve_suspend_open_waiters s =
     adm_emit (map WokeOpenWaiter (suspend_open_waiters s)) (s\<lparr>suspend_open_waiters := []\<rparr>)"

text \<open>
  The root an asynchronous chain inherits is live until it is released; only allocated roots can be
  inherited.
\<close>

definition root_live :: "nat \<Rightarrow> admission \<Rightarrow> bool" where
  "root_live r s \<longleftrightarrow> r < length (root_heap s) \<and> \<not> released (root_heap s ! r)"

datatype root_lease = NestedLease | OwnedLease nat nat

text \<open>\<open>createGatewayRootWorkRelease\<close>: a fresh release closure on an existing root.\<close>

definition create_release :: "nat \<Rightarrow> admission \<Rightarrow> admission \<times> nat" where
  "create_release r s = (s\<lparr>lease_heap := lease_heap s @ [(r, False)]\<rparr>, length (lease_heap s))"

definition create_root_work_admission :: "admission \<Rightarrow> admission \<times> root_lease" where
  "create_root_work_admission s =
     (let r = length (root_heap s);
          s1 = s\<lparr>root_heap := root_heap s @ [\<lparr>references = 1, released = False\<rparr>],
                 active_root_work := set_add r (active_root_work s)\<rparr>;
          (s2, l) = create_release r s1
      in (s2, OwnedLease r l))"

text \<open>Calling a release closure. A handle that was never issued cannot be called.\<close>

definition release_lease :: "nat \<Rightarrow> admission \<Rightarrow> admission" where
  "release_lease l s =
     (if l < length (lease_heap s) then
        (let (r, lease_released) = lease_heap s ! l in
         if lease_released \<or> \<not> root_live r s then s
         else
           let s1 = s\<lparr>lease_heap := (lease_heap s)[l := (r, True)]\<rparr>;
               w = (root_heap s1 ! r)\<lparr>references := references (root_heap s1 ! r) - 1\<rparr>
           in if references w > 0 then s1\<lparr>root_heap := (root_heap s1)[r := w]\<rparr>
              else
                let s2 = s1\<lparr>root_heap := (root_heap s1)[r := w\<lparr>released := True\<rparr>],
                            active_root_work := set_del r (active_root_work s1)\<rparr>
                in if active_root_work s2 = [] then resolve_root_drain_waiters s2 else s2)
      else s)"

section \<open>Restart fence and suspension\<close>

definition invalidate_suspend_admission :: "admission \<Rightarrow> admission" where
  "invalidate_suspend_admission s =
     (let callback = suspend_invalidated s;
          was_closed = (suspend_phase_of s \<noteq> Accepting);
          s1 = s\<lparr>suspend_invalidated := None, suspend_phase_of := Accepting,
                 suspend_generation := Suc (suspend_generation s)\<rparr>;
          s2 = resolve_suspend_open_waiters s1;
          s3 = (if was_closed \<and> \<not> restart_draining s2 then adm_emit [LogReopened SuspendPhase] s2 else s2)
      in (case callback of None \<Rightarrow> s3 | Some c \<Rightarrow> adm_emit [CalledInvalidated c] s3))"

definition clear_restart_signal_fence :: "admission \<Rightarrow> admission \<times> bool" where
  "clear_restart_signal_fence s =
     (if restart_draining s \<or> \<not> restart_signal_pending s then (s, False)
      else
        (let s1 = s\<lparr>restart_signal_pending := False,
                    restart_signal_generation := Suc (restart_signal_generation s)\<rparr>
         in (adm_emit [LogReopened RestartSignalFence] (resolve_suspend_open_waiters s1), True)))"

definition is_work_admission_closed :: "admission \<Rightarrow> bool" where
  "is_work_admission_closed s \<longleftrightarrow>
     restart_draining s \<or> restart_signal_pending s \<or> suspend_phase_of s \<noteq> Accepting"

text \<open>\<open>isGatewaySubordinateWorkAdmissionClosed\<close>: what \<open>enqueueCommandInLane\<close> consults.\<close>

definition is_subordinate_admission_closed :: "nat option \<Rightarrow> admission \<Rightarrow> bool" where
  "is_subordinate_admission_closed cur s \<longleftrightarrow>
     (if restart_draining s \<or> restart_signal_pending s then True
      else (case cur of
              Some r \<Rightarrow> \<not> root_live r s
            | None \<Rightarrow> suspend_phase_of s \<noteq> Accepting))"

definition is_restart_draining :: "admission \<Rightarrow> bool" where
  "is_restart_draining s \<longleftrightarrow> restart_draining s \<or> restart_signal_pending s"

definition mark_restart_draining :: "admission \<Rightarrow> admission" where
  "mark_restart_draining s =
     (if restart_draining s then s
      else
        let s1 = s\<lparr>restart_signal_pending := False,
                   restart_signal_generation := Suc (restart_signal_generation s),
                   restart_draining := True\<rparr>;
            s2 = adm_emit [LogClosed RestartDrain] (resolve_suspend_open_waiters s1)
        in if suspend_phase_of s2 \<noteq> Accepting then invalidate_suspend_admission s2 else s2)"

text \<open>The lease's payload is the generation captured by its \<open>rollback\<close> closure.\<close>

definition begin_restart_signal :: "admission \<Rightarrow> admission \<times> nat option" where
  "begin_restart_signal s =
     (if restart_draining s \<or> restart_signal_pending s then (s, None)
      else
        let g = Suc (restart_signal_generation s);
            s1 = s\<lparr>restart_signal_pending := True, restart_signal_generation := g\<rparr>
        in (adm_emit [LogClosed RestartSignalFence] s1, Some g))"

definition rollback_restart_signal :: "nat \<Rightarrow> admission \<Rightarrow> admission \<times> bool" where
  "rollback_restart_signal g s =
     (if \<not> restart_signal_pending s \<or> restart_signal_generation s \<noteq> g then (s, False)
      else clear_restart_signal_fence s)"

definition rollback_restart_signal_fence :: "admission \<Rightarrow> admission \<times> bool" where
  "rollback_restart_signal_fence s = clear_restart_signal_fence s"

section \<open>Beginning root work\<close>

definition try_begin_root :: "nat option \<Rightarrow> admission \<Rightarrow> admission \<times> root_lease option" where
  "try_begin_root cur s =
     (case cur of
        Some r \<Rightarrow>
          if root_live r s then (s, Some NestedLease)
          else if is_work_admission_closed s then (s, None)
          else (let (s', l) = create_root_work_admission s in (s', Some l))
      | None \<Rightarrow>
          if is_work_admission_closed s then (s, None)
          else (let (s', l) = create_root_work_admission s in (s', Some l)))"

definition try_begin_independent_root :: "admission \<Rightarrow> admission \<times> root_lease option" where
  "try_begin_independent_root s =
     (if is_work_admission_closed s then (s, None)
      else (let (s', l) = create_root_work_admission s in (s', Some l)))"

text \<open>
  One turn of the loops of \<open>beginGatewayRootWorkAdmissionWhenOpen\<close> and
  \<open>runWithGatewayIndependentRootWorkAdmission\<close>: throw while draining, return a lease, or park the
  promise resolver \<open>w\<close> until admission reopens.
\<close>

datatype wait_turn = ThrewDraining | Admitted root_lease | Parked

definition begin_root_when_open :: "nat option \<Rightarrow> nat \<Rightarrow> admission \<Rightarrow> admission \<times> wait_turn" where
  "begin_root_when_open cur w s =
     (if restart_draining s then (s, ThrewDraining)
      else (case try_begin_root cur s of
              (s', Some l) \<Rightarrow> (s', Admitted l)
            | (s', None) \<Rightarrow> (s'\<lparr>suspend_open_waiters := set_add w (suspend_open_waiters s')\<rparr>, Parked)))"

definition begin_independent_when_open :: "nat \<Rightarrow> admission \<Rightarrow> admission \<times> wait_turn" where
  "begin_independent_when_open w s =
     (if restart_draining s then (s, ThrewDraining)
      else (case try_begin_independent_root s of
              (s', Some l) \<Rightarrow> (s', Admitted l)
            | (s', None) \<Rightarrow> (s'\<lparr>suspend_open_waiters := set_add w (suspend_open_waiters s')\<rparr>, Parked)))"

text \<open>
  \<open>runWithGatewayIndependentRootWorkContinuation\<close> up to the point where the work runs: a live
  parent reserves a tracked root at once, whatever the fence says.
\<close>

definition begin_continuation :: "nat option \<Rightarrow> nat \<Rightarrow> admission \<Rightarrow> admission \<times> wait_turn" where
  "begin_continuation cur w s =
     (case cur of
        Some r \<Rightarrow>
          if \<not> root_live r s then begin_independent_when_open w s
          else (let (s', l) = create_root_work_admission s in (s', Admitted l))
      | None \<Rightarrow> begin_independent_when_open w s)"

definition retain_continuation :: "nat option \<Rightarrow> admission \<Rightarrow> admission \<times> nat option" where
  "retain_continuation cur s =
     (case cur of
        None \<Rightarrow> (s, None)
      | Some r \<Rightarrow>
          if \<not> root_live r s then (s, None)
          else
            (let w = root_heap s ! r;
                 s1 = s\<lparr>root_heap := (root_heap s)[r := w\<lparr>references := references w + 1\<rparr>]\<rparr>;
                 (s2, l) = create_release r s1
             in (s2, Some l)))"

definition active_root_work_count :: "bool \<Rightarrow> nat option \<Rightarrow> admission \<Rightarrow> int" where
  "active_root_work_count exclude_current cur s =
     (let count = int (length (active_root_work s));
          count' = (case cur of
                      Some r \<Rightarrow>
                        if exclude_current \<and> root_live r s \<and> r \<in> set (active_root_work s)
                        then count - 1 else count
                    | None \<Rightarrow> count)
      in max 0 count')"

text \<open>
  \<open>waitForActiveGatewayRootWork\<close> before and after its \<open>await\<close>. \<open>timeout\<close> is \<open>None\<close> for an
  \<open>undefined\<close> or non-finite argument; \<open>Parked_drain\<close> means that the resolver \<open>w\<close> was registered.
\<close>

datatype drain_turn = Drained_now bool int | Parked_drain

definition wait_root_work :: "rat option \<Rightarrow> nat \<Rightarrow> admission \<Rightarrow> admission \<times> drain_turn" where
  "wait_root_work timeout w s =
     (if active_root_work s = [] then (s, Drained_now True 0)
      else
        (let t = (case timeout of None \<Rightarrow> None | Some ms \<Rightarrow> Some (max 0 \<lfloor>ms\<rfloor>))
         in if t = Some 0 then (s, Drained_now False (int (length (active_root_work s))))
            else (s\<lparr>root_drain_waiters := set_add w (root_drain_waiters s)\<rparr>, Parked_drain)))"

definition resume_root_wait :: "nat \<Rightarrow> admission \<Rightarrow> admission \<times> bool \<times> int" where
  "resume_root_wait w s =
     (let s1 = s\<lparr>root_drain_waiters := set_del w (root_drain_waiters s)\<rparr>;
          active = int (length (active_root_work s1))
      in (s1, active = 0, active))"

section \<open>Suspension leases\<close>

definition try_begin_suspend :: "nat \<Rightarrow> admission \<Rightarrow> admission \<times> nat option" where
  "try_begin_suspend on_invalidated s =
     (if is_work_admission_closed s then (s, None)
      else
        let g = Suc (suspend_generation s);
            s1 = s\<lparr>suspend_phase_of := Preparing, suspend_generation := g,
                   suspend_invalidated := Some on_invalidated\<rparr>
        in (adm_emit [LogClosed SuspendPhase] s1, Some g))"

definition suspend_transition ::
    "nat \<Rightarrow> suspend_phase \<Rightarrow> suspend_phase \<Rightarrow> admission \<Rightarrow> admission \<times> bool" where
  "suspend_transition g expected nxt s =
     (if suspend_generation s \<noteq> g \<or> suspend_phase_of s \<noteq> expected then (s, False)
      else
        let s1 = s\<lparr>suspend_phase_of := nxt\<rparr>
        in if nxt = Accepting then
             (adm_emit [LogReopened SuspendPhase]
                (resolve_suspend_open_waiters (s1\<lparr>suspend_invalidated := None\<rparr>)), True)
           else (s1, True))"

definition suspend_commit :: "nat \<Rightarrow> admission \<Rightarrow> admission \<times> bool" where
  "suspend_commit g = suspend_transition g Preparing Prepared"

definition suspend_rollback :: "nat \<Rightarrow> admission \<Rightarrow> admission \<times> bool" where
  "suspend_rollback g = suspend_transition g Preparing Accepting"

definition suspend_release :: "nat \<Rightarrow> admission \<Rightarrow> admission \<times> bool" where
  "suspend_release g = suspend_transition g Prepared Accepting"

section \<open>Reset\<close>

definition retire_roots :: "nat list \<Rightarrow> root_work list \<Rightarrow> root_work list" where
  "retire_roots rs h = fold (\<lambda>r h. h[r := \<lparr>references = 0, released = True\<rparr>]) rs h"

definition reset_work_admission :: "admission \<Rightarrow> admission" where
  "reset_work_admission s =
     (let s1 = resolve_root_drain_waiters
                 (s\<lparr>root_heap := retire_roots (active_root_work s) (root_heap s), active_root_work := []\<rparr>);
          s2 = s1\<lparr>restart_draining := False, restart_signal_pending := False,
                  restart_signal_generation := Suc (restart_signal_generation s1)\<rparr>;
          s3 = (if suspend_phase_of s2 \<noteq> Accepting then invalidate_suspend_admission s2
                else s2\<lparr>suspend_generation := Suc (suspend_generation s2), suspend_invalidated := None\<rparr>)
      in resolve_suspend_open_waiters s3)"

section \<open>The component as a machine\<close>

datatype adm_op =
    TryBeginRoot "nat option"
  | BeginRootWhenOpen "nat option" nat
  | BeginIndependentWhenOpen nat
  | BeginContinuation "nat option" nat
  | RetainContinuation "nat option"
  | ReleaseLease nat
  | BeginRestartSignal
  | RollbackRestartSignal nat
  | RollbackRestartSignalFence
  | MarkRestartDraining
  | TryBeginSuspend nat
  | SuspendCommit nat
  | SuspendRollback nat
  | SuspendRelease nat
  | WaitRootWork "rat option" nat
  | ResumeRootWait nat
  | ResetWorkAdmission

fun adm_step :: "admission \<Rightarrow> adm_op \<Rightarrow> admission" where
  "adm_step s (TryBeginRoot cur) = fst (try_begin_root cur s)"
| "adm_step s (BeginRootWhenOpen cur w) = fst (begin_root_when_open cur w s)"
| "adm_step s (BeginIndependentWhenOpen w) = fst (begin_independent_when_open w s)"
| "adm_step s (BeginContinuation cur w) = fst (begin_continuation cur w s)"
| "adm_step s (RetainContinuation cur) = fst (retain_continuation cur s)"
| "adm_step s (ReleaseLease l) = release_lease l s"
| "adm_step s BeginRestartSignal = fst (begin_restart_signal s)"
| "adm_step s (RollbackRestartSignal g) = fst (rollback_restart_signal g s)"
| "adm_step s RollbackRestartSignalFence = fst (rollback_restart_signal_fence s)"
| "adm_step s MarkRestartDraining = mark_restart_draining s"
| "adm_step s (TryBeginSuspend c) = fst (try_begin_suspend c s)"
| "adm_step s (SuspendCommit g) = fst (suspend_commit g s)"
| "adm_step s (SuspendRollback g) = fst (suspend_rollback g s)"
| "adm_step s (SuspendRelease g) = fst (suspend_release g s)"
| "adm_step s (WaitRootWork t w) = fst (wait_root_work t w s)"
| "adm_step s (ResumeRootWait w) = fst (resume_root_wait w s)"
| "adm_step s ResetWorkAdmission = reset_work_admission s"

section \<open>Invariants\<close>

text \<open>
  The gate: the restart fence and the suspension phase exclude each other once draining began, a
  suspension callback exists exactly while suspended, and a parked waiter is only ever waiting for a
  closed gate that can still reopen.
\<close>

definition adm_gate_inv :: "admission \<Rightarrow> bool" where
  "adm_gate_inv s \<longleftrightarrow>
     (restart_signal_pending s \<longrightarrow> \<not> restart_draining s) \<and>
     (restart_draining s \<longrightarrow> suspend_phase_of s = Accepting) \<and>
     (suspend_phase_of s \<noteq> Accepting \<longleftrightarrow> suspend_invalidated s \<noteq> None) \<and>
     (suspend_open_waiters s \<noteq> [] \<longrightarrow> is_work_admission_closed s \<and> \<not> restart_draining s)"

text \<open>
  The roots: a root is tracked exactly while it is live, its reference count is the number of its
  outstanding leases, and drain waiters exist only while some root is active.
\<close>

definition adm_root_inv :: "admission \<Rightarrow> bool" where
  "adm_root_inv s \<longleftrightarrow>
     distinct (active_root_work s) \<and>
     (\<forall>r. r \<in> set (active_root_work s) \<longleftrightarrow> root_live r s) \<and>
     (\<forall>r \<in> set (active_root_work s).
        references (root_heap s ! r) = int (count_list (lease_heap s) (r, False)) \<and>
        references (root_heap s ! r) > 0) \<and>
     (\<forall>p \<in> set (lease_heap s). fst p < length (root_heap s)) \<and>
     (root_drain_waiters s \<noteq> [] \<longrightarrow> active_root_work s \<noteq> [])"

lemmas adm_core_defs =
  adm_emit_def resolve_root_drain_waiters_def resolve_suspend_open_waiters_def
  create_release_def create_root_work_admission_def

lemmas adm_gate_defs = adm_core_defs
  invalidate_suspend_admission_def clear_restart_signal_fence_def is_work_admission_closed_def
  mark_restart_draining_def begin_restart_signal_def rollback_restart_signal_def
  rollback_restart_signal_fence_def try_begin_suspend_def suspend_transition_def
  suspend_commit_def suspend_rollback_def suspend_release_def

lemma release_lease_gate:
  "restart_draining (release_lease l s) = restart_draining s"
  "restart_signal_pending (release_lease l s) = restart_signal_pending s"
  "restart_signal_generation (release_lease l s) = restart_signal_generation s"
  "suspend_phase_of (release_lease l s) = suspend_phase_of s"
  "suspend_generation (release_lease l s) = suspend_generation s"
  "suspend_invalidated (release_lease l s) = suspend_invalidated s"
  "suspend_open_waiters (release_lease l s) = suspend_open_waiters s"
  by (simp_all add: release_lease_def adm_core_defs Let_def split: prod.split)

lemma adm_gate_inv_step [step_inv]: "adm_gate_inv s \<Longrightarrow> adm_gate_inv (adm_step s e)"
proof (cases e)
  case (ReleaseLease l)
  then show "adm_gate_inv s \<Longrightarrow> ?thesis"
    by (auto simp: adm_gate_inv_def is_work_admission_closed_def release_lease_gate)
qed (auto simp: adm_gate_inv_def adm_gate_defs try_begin_root_def begin_root_when_open_def
      try_begin_independent_root_def begin_independent_when_open_def begin_continuation_def
      retain_continuation_def wait_root_work_def resume_root_wait_def reset_work_admission_def Let_def
      set_add_def
      split: option.splits if_splits)

lemma adm_root_inv_cong:
  assumes "adm_root_inv s" "active_root_work t = active_root_work s" "root_heap t = root_heap s"
    "lease_heap t = lease_heap s" "set (root_drain_waiters t) \<subseteq> set (root_drain_waiters s) \<or> active_root_work s \<noteq> []"
  shows "adm_root_inv t"
  using assms by (auto simp: adm_root_inv_def root_live_def)

lemma create_root_inv:
  assumes "adm_root_inv s"
  shows "adm_root_inv (fst (create_root_work_admission s))"
proof -
  let ?r = "length (root_heap s)"
  have fresh: "?r \<notin> set (active_root_work s)" using assms by (auto simp: adm_root_inv_def root_live_def)
  have "count_list (lease_heap s) (?r, False) = 0"
    using assms by (auto simp: adm_root_inv_def count_list_0_iff)
  with assms fresh show ?thesis
    by (auto simp: adm_root_inv_def adm_core_defs Let_def root_live_def nth_append set_add_fresh)
qed

lemma retain_continuation_inv:
  assumes "adm_root_inv s"
  shows "adm_root_inv (fst (retain_continuation cur s))"
proof (cases "\<exists>r. cur = Some r \<and> root_live r s")
  case True
  then obtain r where r: "cur = Some r" "root_live r s" by blast
  then show ?thesis using assms
    by (auto simp: adm_root_inv_def retain_continuation_def create_release_def Let_def root_live_def
        nth_list_update)
next
  case False
  then show ?thesis using assms by (auto simp: retain_continuation_def split: option.split)
qed

lemma release_lease_inv:
  assumes inv: "adm_root_inv s"
  shows "adm_root_inv (release_lease l s)"
proof (cases "l < length (lease_heap s) \<and> \<not> snd (lease_heap s ! l) \<and> root_live (fst (lease_heap s ! l)) s")
  case False
  then show ?thesis using inv by (auto simp: release_lease_def split: prod.split)
next
  case True
  obtain r where l: "lease_heap s ! l = (r, False)" "root_live r s" "l < length (lease_heap s)"
    using True by (cases "lease_heap s ! l") auto
  let ?L = "(lease_heap s)[l := (r, True)]"
  have rlt: "r < length (root_heap s)" using l by (simp add: root_live_def)
  have ract: "r \<in> set (active_root_work s)" using inv l by (simp add: adm_root_inv_def)
  have cnt: "Suc (count_list ?L (r, False)) = count_list (lease_heap s) (r, False)"
    using count_list_update_remove [of l "lease_heap s" "(r, True)"] l by simp
  have other: "count_list ?L (q, False) = count_list (lease_heap s) (q, False)" if "q \<noteq> r" for q
    using count_list_update_other [of l "lease_heap s" "(q, False)" "(r, True)"] l that by simp
  have lset: "\<forall>p \<in> set ?L. fst p < length (root_heap s)"
    using inv set_update_subset_insert [of "lease_heap s" l "(r, True)"] rlt
    by (fastforce simp: adm_root_inv_def)
  show ?thesis
  proof (cases "references (root_heap s ! r) - 1 > 0")
    case True
    then show ?thesis using inv l ract cnt other lset rlt
      by (auto simp: adm_root_inv_def release_lease_def Let_def root_live_def nth_list_update)
  next
    case False
    let ?t = "release_lease l s"
    let ?A = "set_del r (active_root_work s)"
    let ?H = "(root_heap s)[r := (root_heap s ! r)
                \<lparr>references := references (root_heap s ! r) - 1, released := True\<rparr>]"
    have t: "active_root_work ?t = ?A" "root_heap ?t = ?H" "lease_heap ?t = ?L"
      "root_drain_waiters ?t = (if ?A = [] then [] else root_drain_waiters s)"
      using False l by (simp_all add: release_lease_def adm_core_defs Let_def)
    have "\<forall>q. q \<in> set ?A \<longleftrightarrow> root_live q ?t"
      using inv rlt by (auto simp: adm_root_inv_def root_live_def t nth_list_update)
    moreover have "\<forall>q \<in> set ?A. references (?H ! q) = int (count_list ?L (q, False)) \<and> references (?H ! q) > 0"
      using inv other by (auto simp: adm_root_inv_def)
    ultimately show ?thesis
      using inv lset unfolding adm_root_inv_def t by (auto simp: Ball_def)
  qed
qed

lemma length_retire_roots [simp]: "length (retire_roots rs h) = length h"
  unfolding retire_roots_def by (induction rs arbitrary: h) auto

lemma retire_roots_nth:
  "i < length h \<Longrightarrow> retire_roots rs h ! i = (if i \<in> set rs then \<lparr>references = 0, released = True\<rparr> else h ! i)"
  unfolding retire_roots_def by (induction rs arbitrary: h) (auto simp: nth_list_update)

lemma reset_inv:
  assumes "adm_root_inv s"
  shows "adm_root_inv (reset_work_admission s)"
  using assms
  by (auto simp: adm_root_inv_def reset_work_admission_def adm_gate_defs Let_def root_live_def
      retire_roots_nth split: option.split)

lemma adm_root_inv_step [step_inv]: "adm_root_inv s \<Longrightarrow> adm_root_inv (adm_step s e)"
proof (cases e)
  case (ReleaseLease l)
  then show "adm_root_inv s \<Longrightarrow> ?thesis" by (simp add: release_lease_inv)
next
  case (RetainContinuation cur)
  then show "adm_root_inv s \<Longrightarrow> ?thesis" by (simp add: retain_continuation_inv)
next
  case ResetWorkAdmission
  then show "adm_root_inv s \<Longrightarrow> ?thesis" by (simp add: reset_inv)
qed (auto simp: adm_gate_defs try_begin_root_def begin_root_when_open_def
      try_begin_independent_root_def begin_independent_when_open_def begin_continuation_def
      wait_root_work_def resume_root_wait_def Let_def set_add_def set_del_def
      intro: adm_root_inv_cong create_root_inv
      split: option.splits if_splits prod.splits)

section \<open>Traces and wake-ups\<close>

definition adm_grows :: "admission \<Rightarrow> admission \<Rightarrow> bool" where
  "adm_grows s t \<longleftrightarrow>
     (\<exists>es. adm_trace t = adm_trace s @ es \<and>
        (\<forall>w \<in> set (suspend_open_waiters s). w \<in> set (suspend_open_waiters t) \<or> WokeOpenWaiter w \<in> set es))"

lemma adm_grows_refl: "adm_grows s s"
  by (simp add: adm_grows_def)

lemma adm_grows_trans: "adm_grows s t \<Longrightarrow> adm_grows t u \<Longrightarrow> adm_grows s u"
  unfolding adm_grows_def by (elim exE conjE) (rule exI, rule conjI, simp, fastforce)

lemma adm_grows_same:
  "suspend_open_waiters t = suspend_open_waiters s \<Longrightarrow> adm_trace t = adm_trace s @ es \<Longrightarrow> adm_grows s t"
  by (auto simp: adm_grows_def)

lemma release_lease_grows: "adm_grows s (release_lease l s)"
  by (auto simp: release_lease_def adm_core_defs Let_def adm_grows_def split: prod.split)

lemma adm_step_grows: "adm_grows s (adm_step s e)"
proof (cases e)
  case (ReleaseLease l)
  then show ?thesis by (simp add: release_lease_grows)
qed (auto simp: adm_grows_def adm_gate_defs try_begin_root_def begin_root_when_open_def
      try_begin_independent_root_def begin_independent_when_open_def begin_continuation_def
      retain_continuation_def wait_root_work_def resume_root_wait_def reset_work_admission_def Let_def
      split: option.splits if_splits)

lemma adm_run_grows: "adm_grows s (foldl adm_step s es)"
  by (induction es arbitrary: s) (auto intro: adm_grows_refl adm_grows_trans adm_step_grows)

section \<open>Generations of suspension leases\<close>

definition suspend_lease_dead :: "nat \<Rightarrow> admission \<Rightarrow> bool" where
  "suspend_lease_dead g s \<longleftrightarrow>
     g < suspend_generation s \<or> g = suspend_generation s \<and> suspend_phase_of s = Accepting"

lemma suspend_lease_dead_step: "suspend_lease_dead g s \<Longrightarrow> suspend_lease_dead g (adm_step s e)"
proof (cases e)
  case (ReleaseLease l)
  then show "suspend_lease_dead g s \<Longrightarrow> ?thesis" by (simp add: suspend_lease_dead_def release_lease_gate)
qed (auto simp: suspend_lease_dead_def adm_gate_defs try_begin_root_def begin_root_when_open_def
      try_begin_independent_root_def begin_independent_when_open_def begin_continuation_def
      retain_continuation_def wait_root_work_def resume_root_wait_def reset_work_admission_def Let_def
      split: option.splits if_splits)

lemma suspend_generation_mono: "suspend_generation s \<le> suspend_generation (adm_step s e)"
proof (cases e)
  case (ReleaseLease l)
  then show ?thesis by (simp add: release_lease_gate)
qed (auto simp: adm_gate_defs try_begin_root_def begin_root_when_open_def
      try_begin_independent_root_def begin_independent_when_open_def begin_continuation_def
      retain_continuation_def wait_root_work_def resume_root_wait_def reset_work_admission_def Let_def
      split: option.splits if_splits)

lemma restart_draining_step:
  "restart_draining s \<Longrightarrow> e \<noteq> ResetWorkAdmission \<Longrightarrow> restart_draining (adm_step s e)"
  by (cases e) (auto simp: adm_gate_defs try_begin_root_def begin_root_when_open_def
      try_begin_independent_root_def begin_independent_when_open_def begin_continuation_def
      retain_continuation_def wait_root_work_def resume_root_wait_def release_lease_gate Let_def
      split: option.splits if_splits)

interpretation adm_gate: invariant_machine adm_step adm_gate_inv
  by unfold_locales (rule adm_gate_inv_step)

interpretation adm_gen: monotone_machine adm_step "\<lambda>_. True" suspend_generation
  by unfold_locales (simp_all add: suspend_generation_mono)

interpretation adm_roots: invariant_machine adm_step adm_root_inv
  by unfold_locales (rule adm_root_inv_step)

interpretation adm_dead: invariant_machine adm_step "suspend_lease_dead g" for g
  by unfold_locales (rule suspend_lease_dead_step)

lemma adm_gate_inv_initial: "adm_gate_inv initial_admission"
  by (simp add: adm_gate_inv_def initial_admission_def)

lemma adm_root_inv_initial: "adm_root_inv initial_admission"
  by (simp add: adm_root_inv_def initial_admission_def root_live_def)

section \<open>Properties\<close>

text \<open>C32: In every state the admission module can reach, the restart fence, the suspension phase and
  the parked waiters are consistent, a root is tracked exactly while it is live, and its reference
  count is the number of its outstanding leases.\<close>

theorem admission_invariants_reachable:
  "adm_gate_inv (foldl adm_step initial_admission ops) \<and> adm_root_inv (foldl adm_step initial_admission ops)"
  by (simp add: adm_gate.run_keeps adm_roots.run_keeps adm_gate_inv_initial adm_root_inv_initial)

text \<open>A caller parked until admission reopens is never lost: after any sequence of operations it has
  been woken, or it is still parked and the gate is still closed without being draining.\<close>

theorem parked_waiter_not_lost:
  assumes "adm_gate_inv s" and "w \<in> set (suspend_open_waiters s)"
  shows "\<exists>es. adm_trace (foldl adm_step s ops) = adm_trace s @ es \<and>
     (WokeOpenWaiter w \<in> set es \<or>
      w \<in> set (suspend_open_waiters (foldl adm_step s ops)) \<and>
      is_work_admission_closed (foldl adm_step s ops) \<and> \<not> restart_draining (foldl adm_step s ops))"
proof -
  have "adm_gate_inv (foldl adm_step s ops)" using assms(1) by (rule adm_gate.run_keeps)
  moreover obtain es where "adm_trace (foldl adm_step s ops) = adm_trace s @ es"
    "w \<in> set (suspend_open_waiters (foldl adm_step s ops)) \<or> WokeOpenWaiter w \<in> set es"
    using adm_run_grows [of s ops] assms(2) by (auto simp: adm_grows_def)
  ultimately show ?thesis by (auto simp: adm_gate_inv_def)
qed

theorem parked_waiter_not_lost_witness:
  "adm_gate_inv (foldl adm_step initial_admission [TryBeginSuspend 7, BeginRootWhenOpen None 3]) \<and>
   (\<exists>es. adm_trace (foldl adm_step (foldl adm_step initial_admission
           [TryBeginSuspend 7, BeginRootWhenOpen None 3]) [SuspendRollback 1]) =
         adm_trace (foldl adm_step initial_admission [TryBeginSuspend 7, BeginRootWhenOpen None 3]) @ es)"
proof -
  let ?s = "foldl adm_step initial_admission [TryBeginSuspend 7, BeginRootWhenOpen None 3]"
  have i: "adm_gate_inv ?s" by (rule adm_gate.run_keeps) (rule adm_gate_inv_initial)
  have m: "3 \<in> set (suspend_open_waiters ?s)"
    by (simp add: initial_admission_def adm_gate_defs begin_root_when_open_def try_begin_root_def Let_def)
  show ?thesis using i parked_waiter_not_lost [OF i m, of "[SuspendRollback 1]"] by blast
qed

text \<open>A suspension lease whose suspension ended (rolled back, released, or invalidated by a restart)
  is dead for good: after any further operations its commit, rollback and release change nothing and
  return false, even while a newer suspension is being prepared.\<close>

theorem ended_suspend_lease_is_inert:
  fixes ops' :: "adm_op list"
  assumes "try_begin_suspend c s = (s1, Some g)"
    and "suspend_phase_of (foldl adm_step s1 ops) = Accepting"
  defines "t \<equiv> foldl adm_step (foldl adm_step s1 ops) ops'"
  shows "suspend_commit g t = (t, False) \<and> suspend_rollback g t = (t, False) \<and>
         suspend_release g t = (t, False)"
proof -
  have "suspend_lease_dead g (foldl adm_step s1 ops)"
  proof -
    have "suspend_generation s1 = g" using assms(1)
      by (auto simp: try_begin_suspend_def adm_emit_def Let_def split: if_splits)
    moreover have "suspend_generation s1 \<le> suspend_generation (foldl adm_step s1 ops)"
      by (rule adm_gen.run_mono) simp
    ultimately show ?thesis using assms(2) by (auto simp: suspend_lease_dead_def)
  qed
  then have "suspend_lease_dead g t" unfolding t_def by (rule adm_dead.run_keeps)
  then show ?thesis
    by (auto simp: suspend_lease_dead_def suspend_commit_def suspend_rollback_def suspend_release_def
        suspend_transition_def)
qed

theorem ended_suspend_lease_is_inert_witness:
  "suspend_commit 1 (foldl adm_step (foldl adm_step (fst (try_begin_suspend 9 initial_admission))
      [SuspendRollback 1]) [TryBeginSuspend 4]) =
   (foldl adm_step (foldl adm_step (fst (try_begin_suspend 9 initial_admission))
      [SuspendRollback 1]) [TryBeginSuspend 4], False)"
proof -
  have a: "try_begin_suspend 9 initial_admission = (fst (try_begin_suspend 9 initial_admission), Some 1)"
    by (simp add: initial_admission_def adm_gate_defs Let_def)
  have b: "suspend_phase_of (foldl adm_step (fst (try_begin_suspend 9 initial_admission)) [SuspendRollback 1]) = Accepting"
    by (simp add: initial_admission_def adm_gate_defs Let_def)
  show ?thesis using ended_suspend_lease_is_inert [OF a b, of "[TryBeginSuspend 4]"] by blast
qed

text \<open>Restart drain is one-way until the in-process reset: whatever else happens, the process keeps
  draining, refuses subordinate command work from every chain, throws in the waiting loop and hands out
  neither suspension leases nor signal fences.\<close>

theorem restart_drain_is_one_way:
  assumes "restart_draining s" and "ResetWorkAdmission \<notin> set ops"
  defines "t \<equiv> foldl adm_step s ops"
  shows "restart_draining t \<and> is_subordinate_admission_closed cur t \<and>
         begin_root_when_open cur w t = (t, ThrewDraining) \<and>
         try_begin_suspend c t = (t, None) \<and> begin_restart_signal t = (t, None)"
proof -
  have "restart_draining t" unfolding t_def using assms(1,2)
    by (induction ops arbitrary: s) (auto simp: restart_draining_step)
  then show ?thesis
    by (simp add: is_subordinate_admission_closed_def begin_root_when_open_def try_begin_suspend_def
        begin_restart_signal_def is_work_admission_closed_def)
qed

theorem restart_drain_is_one_way_witness:
  "restart_draining (foldl adm_step (mark_restart_draining initial_admission)
     [BeginRestartSignal, RollbackRestartSignalFence, TryBeginRoot None])"
proof -
  have a: "restart_draining (mark_restart_draining initial_admission)"
    by (simp add: initial_admission_def adm_gate_defs Let_def)
  have b: "ResetWorkAdmission \<notin> set [BeginRestartSignal, RollbackRestartSignalFence, TryBeginRoot None]"
    by simp
  show ?thesis using restart_drain_is_one_way [OF a b] by blast
qed

text \<open>A release closure counts once: releasing a lease again changes nothing, and the root stays live
  after a release exactly when another of its leases is still outstanding.\<close>

theorem root_released_with_last_lease:
  assumes "adm_root_inv s" and "l < length (lease_heap s)" and "lease_heap s ! l = (r, False)"
    and "root_live r s"
  shows "release_lease l (release_lease l s) = release_lease l s \<and>
         (root_live r (release_lease l s) \<longleftrightarrow> count_list (lease_heap s) (r, False) > 1)"
proof -
  have r: "r < length (root_heap s)" "\<not> released (root_heap s ! r)"
    using assms(4) by (auto simp: root_live_def)
  have refs: "references (root_heap s ! r) = int (count_list (lease_heap s) (r, False))"
    using assms(1,4) by (auto simp: adm_root_inv_def)
  have "lease_heap (release_lease l s) ! l = (r, True) \<and> l < length (lease_heap (release_lease l s))"
    using assms(2-4) by (auto simp: release_lease_def adm_core_defs Let_def)
  then have "release_lease l (release_lease l s) = release_lease l s"
    by (simp add: release_lease_def [of l "release_lease l s"])
  moreover have "root_live r (release_lease l s) \<longleftrightarrow> count_list (lease_heap s) (r, False) > 1"
    using assms(2-4) r refs
    by (auto simp: release_lease_def adm_core_defs Let_def root_live_def)
  ultimately show ?thesis by blast
qed

theorem root_released_with_last_lease_witness:
  "let s = foldl adm_step initial_admission [TryBeginRoot None, RetainContinuation (Some 0)]
   in release_lease 0 (release_lease 0 s) = release_lease 0 s \<and> root_live 0 (release_lease 0 s)"
proof -
  let ?s = "foldl adm_step initial_admission [TryBeginRoot None, RetainContinuation (Some 0)]"
  have inv: "adm_root_inv ?s" by (rule adm_roots.run_keeps) (rule adm_root_inv_initial)
  have l: "lease_heap ?s = [(0, False), (0, False)]" "root_live 0 ?s"
    by (simp_all add: initial_admission_def adm_gate_defs try_begin_root_def retain_continuation_def
        root_live_def Let_def)
  show ?thesis
    using root_released_with_last_lease [OF inv, of 0 0] l by (simp add: Let_def)
qed

end
