(* ===== verification/Gateway_Dispatch.thy ===== *)
theory Gateway_Dispatch
  imports Method_Policy Rate_Limits Work_Admission
begin

text \<open>
  The dispatch of gateway requests, \<open>authorizeGatewayMethod\<close>, \<open>createRequestGatewayMethodRegistry\<close> and
  \<open>handleGatewayRequest\<close> of \<open>gateway/server-methods.ts\<close>: the registry of the request, role and scopes, the pairing of
  nodes, the methods that are not ready, the gate of the work admission and the budget of control-plane writes.

  The handlers of the core are a parameter, handlers are opaque. A request is dispatched in one turn, up to the call of
  its handler, which returns the lease it runs under; the lease is released when the handler has settled. The
  check whether a node is still paired is a parameter, read in the same turn. Diagnostics and responses are not modelled
  beyond the error that is reported.
\<close>

section \<open>Requests\<close>

record client_connect =
  cn_role :: "string option"
  cn_scopes :: "string list option"
  cn_device_id :: "string option"

record gateway_client =
  gc_connect :: "client_connect option"
  gc_client_ip :: "string option"
  gc_conn_id :: "string option"

text \<open>The identity under which the write budget is kept.\<close>

definition control_identity :: "gateway_client option \<Rightarrow> control_client" where
  "control_identity c =
     \<lparr>cc_device_id = Option.bind (Option.bind c gc_connect) cn_device_id, cc_client_ip = Option.bind c gc_client_ip,
      cc_conn_id = Option.bind c gc_conn_id\<rparr>"

datatype gateway_error =
  UnauthorizedRole string | MissingOperatorScope operator_scope "operator_scope list" | PairingChanged | StartupUnavailable string
| WriteRateLimited string int | UnknownMethod string | NestedSuspend | GateClosed string bool suspend_phase | RegistryFailed registry_error

definition authorize_gateway_method ::
    "plugin_registry option \<Rightarrow> string \<Rightarrow> gateway_client option \<Rightarrow> json option \<Rightarrow> method_registry \<Rightarrow> gateway_error option" where
  "authorize_gateway_method pr name client params reg =
     (case Option.bind client gc_connect of
        None \<Rightarrow> None
      | Some cn \<Rightarrow>
          if name = ''health'' then None
          else
            (let raw = (case cn_role cn of Some r \<Rightarrow> r | None \<Rightarrow> ''operator'')
             in case parse_gateway_role raw of
                  None \<Rightarrow> Some (UnauthorizedRole raw)
                | Some role \<Rightarrow>
                    (let scopes = (case cn_scopes cn of Some ss \<Rightarrow> ss | None \<Rightarrow> [])
                     in if \<not> is_role_authorized_for_method role name then Some (UnauthorizedRole raw)
                        else if role = NodeRole then None
                        else if scope_name AdminScope \<in> set scopes then None
                        else
                          (let registered = (case registry_scope reg name of Some (OpScope s) \<Rightarrow> Some s | _ \<Rightarrow> None)
                           in case (case registered of
                                      Some s \<Rightarrow> authorize_operator_scopes_for_required_scope s scopes
                                    | None \<Rightarrow> authorize_operator_scopes_for_method pr name scopes params) of
                                None \<Rightarrow> None
                              | Some missing \<Rightarrow>
                                  (let required = (case registered of Some s \<Rightarrow> [s] | None \<Rightarrow> resolve_least_privilege_scopes pr name params)
                                   in Some (MissingOperatorScope missing (if required \<noteq> [] then required else [missing])))))))"

section \<open>The registry of a request\<close>

record dispatch_env =
  de_plugins :: "plugin_registry option"
  de_core_handlers :: handlers
  de_extra_handlers :: "handlers option"
  de_attached :: "method_registry option"
  de_unavailable :: "string list"
  de_pairing_current :: "string \<Rightarrow> bool"
  de_current_root :: "nat option"

definition plugin_method_names :: "dispatch_env \<Rightarrow> string list" where
  "plugin_method_names env = (case de_plugins env of Some pr \<Rightarrow> js_keys (pr_handlers pr) | None \<Rightarrow> [])"

definition extra_handler_entries :: "dispatch_env \<Rightarrow> handlers" where
  "extra_handler_entries env = (case de_extra_handlers env of Some hs \<Rightarrow> hs | None \<Rightarrow> [])"

definition core_descriptor_handlers :: "dispatch_env \<Rightarrow> handlers" where
  "core_descriptor_handlers env =
     fold (\<lambda>(m, h) hs. if m \<notin> set (plugin_method_names env) \<and> is_core_gateway_method_classified m then js_set m h hs else hs)
       (extra_handler_entries env) (de_core_handlers env)"

definition with_extra_handler :: "dispatch_env \<Rightarrow> method_descriptor \<Rightarrow> method_descriptor" where
  "with_extra_handler env d =
     (case js_get (extra_handler_entries env) (md_name d) of
        Some h \<Rightarrow> if md_name d \<notin> set (plugin_method_names env) then d\<lparr>md_handler := h\<rparr> else d
      | None \<Rightarrow> d)"

definition active_plugin_descriptors :: "dispatch_env \<Rightarrow> registry_error + method_descriptor list" where
  "active_plugin_descriptors env =
     (case de_plugins env of Some pr \<Rightarrow> create_plugin_gateway_method_descriptors pr | None \<Rightarrow> Inr [])"

definition create_request_gateway_method_registry :: "dispatch_env \<Rightarrow> registry_error + method_registry" where
  "create_request_gateway_method_registry env =
     (case create_core_gateway_method_descriptors (core_descriptor_handlers env) of
        Inl e \<Rightarrow> Inl e
      | Inr core \<Rightarrow>
          (case active_plugin_descriptors env of
             Inl e \<Rightarrow> Inl e
           | Inr plugin \<Rightarrow>
               (case create_gateway_method_descriptors_from_handlers
                       (filter (\<lambda>(m, _). m \<notin> set (plugin_method_names env) \<and> m \<notin> set (map md_name core)) (extra_handler_entries env))
                       (AuxOwner ''gateway-extra'') (Some AdminScope) [] of
                  Inl e \<Rightarrow> Inl e
                | Inr aux \<Rightarrow> create_gateway_method_registry (map (with_extra_handler env) core @ plugin @ aux))))"

definition request_registry :: "dispatch_env \<Rightarrow> string \<Rightarrow> registry_error + method_registry" where
  "request_registry env name =
     (case de_attached env of
        Some reg \<Rightarrow> if registry_handler reg name \<noteq> None then Inr reg else create_request_gateway_method_registry env
      | None \<Rightarrow> create_request_gateway_method_registry env)"

section \<open>Dispatch\<close>

definition suspend_control_methods :: "string list" where
  "suspend_control_methods = [''gateway.suspend.prepare'', ''gateway.suspend.status'', ''gateway.suspend.resume'']"

record dispatch_state =
  ds_buckets :: buckets
  ds_admission :: admission

datatype dispatch = Refused gateway_error | Invoked nat "root_lease option"

text \<open>The write budget: a refusal, or nothing, and the buckets.\<close>

definition reject_rate_limited_write ::
    "method_registry \<Rightarrow> gateway_client option \<Rightarrow> string \<Rightarrow> int \<Rightarrow> buckets \<Rightarrow> gateway_error option \<times> buckets" where
  "reject_rate_limited_write reg client name now b =
     (if \<not> registry_control_plane_write reg name then (None, b)
      else case consume_write_budget (control_identity client) name now b of
        ((r, _), b') \<Rightarrow> (if wr_allowed r then None else Some (WriteRateLimited name (wr_retry_after r)), b'))"

definition release_root :: "root_lease option \<Rightarrow> admission \<Rightarrow> admission" where
  "release_root l a = (case l of Some (OwnedLease r i) \<Rightarrow> release_lease i a | _ \<Rightarrow> a)"

definition node_pairing_changed :: "dispatch_env \<Rightarrow> gateway_client option \<Rightarrow> bool" where
  "node_pairing_changed env client \<longleftrightarrow>
     Option.bind (Option.bind client gc_connect) cn_role = Some ''node'' \<and>
     (case Option.bind client gc_conn_id of
        None \<Rightarrow> True
      | Some i \<Rightarrow> i = [] \<or> \<not> de_pairing_current env i)"

definition admit_request ::
    "dispatch_env \<Rightarrow> method_registry \<Rightarrow> gateway_client option \<Rightarrow> string \<Rightarrow> int \<Rightarrow> nat \<Rightarrow> dispatch_state \<Rightarrow> dispatch \<times> dispatch_state" where
  "admit_request env reg client name now h s =
     (let prepare = (name = ''gateway.suspend.prepare'');
          (lease, a1) = (case try_begin_root (de_current_root env) (ds_admission s) of (a, l) \<Rightarrow> (l, a));
          s1 = s\<lparr>ds_admission := a1\<rparr>
      in if prepare \<and> lease = Some NestedLease then (Refused NestedSuspend, s1)
         else if lease = None \<and> name \<notin> set suspend_control_methods
         then (Refused (GateClosed name (is_restart_draining a1) (suspend_phase_of a1)), s1)
         else
           (case (if prepare then (None, ds_buckets s1) else reject_rate_limited_write reg client name now (ds_buckets s1)) of
              (Some e, b) \<Rightarrow> (Refused e, s1\<lparr>ds_buckets := b, ds_admission := release_root lease a1\<rparr>)
            | (None, b) \<Rightarrow> (Invoked h lease, s1\<lparr>ds_buckets := b\<rparr>)))"

definition handle_gateway_request ::
    "dispatch_env \<Rightarrow> gateway_client option \<Rightarrow> string \<Rightarrow> json option \<Rightarrow> int \<Rightarrow> dispatch_state \<Rightarrow> dispatch \<times> dispatch_state" where
  "handle_gateway_request env client name params now s =
     (case request_registry env name of
        Inl e \<Rightarrow> (Refused (RegistryFailed e), s)
      | Inr reg \<Rightarrow>
          (case authorize_gateway_method (de_plugins env) name client params reg of
             Some e \<Rightarrow> (Refused e, s)
           | None \<Rightarrow>
               if node_pairing_changed env client then (Refused PairingChanged, s)
               else if name \<in> set (de_unavailable env) then (Refused (StartupUnavailable name), s)
               else
                 (case (if name = ''gateway.suspend.prepare'' then reject_rate_limited_write reg client name now (ds_buckets s)
                        else (None, ds_buckets s)) of
                    (Some e, b) \<Rightarrow> (Refused e, s\<lparr>ds_buckets := b\<rparr>)
                  | (None, b) \<Rightarrow>
                      (case registry_handler reg name of
                         None \<Rightarrow> (Refused (UnknownMethod name), s\<lparr>ds_buckets := b\<rparr>)
                       | Some h \<Rightarrow> admit_request env reg client name now h (s\<lparr>ds_buckets := b\<rparr>)))))"

text \<open>The end of a request whose handler has settled.\<close>

definition finish_request :: "root_lease option \<Rightarrow> dispatch_state \<Rightarrow> dispatch_state" where
  "finish_request l s = s\<lparr>ds_admission := release_root l (ds_admission s)\<rparr>"

end
