(* ===== verification/Gateway_Dispatch_Props.thy ===== *)
theory Gateway_Dispatch_Props
  imports Gateway_Dispatch
begin

text \<open>
  What the dispatch of requests guarantees: the scopes asked for are exact, the relation of granted scopes used when a
  device is paired is the one used for requests, plugins cannot open reserved methods, and what is served was
  authorized, admitted and paid for, while a refusal leaves no trace.
\<close>

section \<open>Required scopes\<close>

lemma authorize_required_None:
  "authorize_operator_scopes_for_required_scope s scopes = None \<longleftrightarrow> scope_covered scopes s"
  by (auto simp: authorize_operator_scopes_for_required_scope_def scope_covered_def)

lemma find_missing_None:
  assumes "scope_name AdminScope \<notin> set scopes"
  shows "find_missing_operator_scope rs scopes = None \<longleftrightarrow> (\<forall>s\<in>set rs. scope_covered scopes s)"
  using assms by (auto simp: find_missing_operator_scope_def find_None_iff scope_covered_def)

lemma registered_scopes_nonempty: "resolve_session_action_registered_scopes pr params = Some ss \<Longrightarrow> ss \<noteq> []"
  by (auto simp: resolve_session_action_registered_scopes_def split: option.splits list.splits)

lemma session_action_least_nonempty: "resolve_session_action_least_privilege_scopes pr params \<noteq> []"
  by (simp add: resolve_session_action_least_privilege_scopes_def cli_default_operator_scopes_def registered_scopes_nonempty split: option.split)

lemma dynamic_least_nonempty: "resolve_dynamic_least_privilege_scopes pr name params \<noteq> []"
  by (simp add: resolve_dynamic_least_privilege_scopes_def session_action_least_nonempty Let_def
      resolve_sessions_patch_required_scopes_def resolve_sessions_create_required_scopes_def
      resolve_sessions_delete_required_scopes_def split: option.split)

lemma authorize_static:
  assumes "\<not> is_dynamic_operator_gateway_method name"
  shows "authorize_operator_scopes_for_method pr name scopes params = None \<longleftrightarrow>
    scope_covered scopes (case resolve_scoped_method pr name of Some s \<Rightarrow> s | None \<Rightarrow> AdminScope)"
  using assms by (auto simp: authorize_operator_scopes_for_method_def authorize_required_None scope_covered_def)

lemma authorize_dynamic:
  assumes "is_dynamic_operator_gateway_method name" "name \<noteq> ''plugins.sessionAction''"
  shows "authorize_operator_scopes_for_method pr name scopes params = None \<longleftrightarrow>
    (\<forall>s\<in>set (resolve_dynamic_least_privilege_scopes pr name params). scope_covered scopes s)"
proof (cases "scope_name AdminScope \<in> set scopes")
  case True
  then show ?thesis by (simp add: authorize_operator_scopes_for_method_def scope_covered_def)
next
  case False
  then show ?thesis using assms by (simp add: authorize_operator_scopes_for_method_def find_missing_None)
qed

lemma authorize_iff_least:
  assumes "name \<noteq> ''plugins.sessionAction''"
  shows "authorize_operator_scopes_for_method pr name scopes params = None \<longleftrightarrow>
    scope_name AdminScope \<in> set scopes \<or>
    resolve_least_privilege_scopes pr name params \<noteq> [] \<and> (\<forall>s\<in>set (resolve_least_privilege_scopes pr name params). scope_covered scopes s)"
proof (cases "is_dynamic_operator_gateway_method name")
  case True
  then show ?thesis using authorize_dynamic [OF True assms] dynamic_least_nonempty [of pr name params]
    by (auto simp: resolve_least_privilege_scopes_def scope_covered_def)
next
  case False
  then show ?thesis using authorize_static [OF False, of pr scopes params]
    by (auto simp: resolve_least_privilege_scopes_def scope_covered_def split: option.splits)
qed

lemma least_privilege_authorizes:
  assumes "resolve_least_privilege_scopes pr name params \<noteq> []"
  shows "authorize_operator_scopes_for_method pr name (map scope_name (resolve_least_privilege_scopes pr name params)) params = None"
proof (cases "name = ''plugins.sessionAction''")
  case False
  then show ?thesis using assms authorize_iff_least [OF False] by (auto simp: scope_covered_def)
next
  case True
  let ?least = "resolve_least_privilege_scopes pr name params"
  show ?thesis
  proof (cases "scope_name AdminScope \<in> set (map scope_name ?least)")
    case True
    then show ?thesis by (simp add: authorize_operator_scopes_for_method_def)
  next
    case noadmin: False
    show ?thesis
    proof (cases "is_dynamic_operator_gateway_method name")
      case False
      then show ?thesis using assms authorize_static [OF False, of pr "map scope_name ?least" params]
        by (auto simp: resolve_least_privilege_scopes_def scope_covered_def split: option.splits)
    next
      case dyn: True
      then have l: "?least = resolve_session_action_least_privilege_scopes pr params"
        using True by (simp add: resolve_least_privilege_scopes_def resolve_dynamic_least_privilege_scopes_def)
      have any: "list_ex is_operator_scope (map scope_name ?least)" using assms by (cases ?least) simp_all
      have cov: "\<forall>s\<in>set (case resolve_session_action_registered_scopes pr params of Some ss \<Rightarrow> ss | None \<Rightarrow> [WriteScope]).
          scope_covered (map scope_name ?least) s"
        using noadmin l
        by (auto simp: resolve_session_action_least_privilege_scopes_def cli_default_operator_scopes_def scope_covered_def
            split: option.splits if_splits)
      show ?thesis
        using True dyn noadmin any find_missing_None [OF noadmin] cov
        by (simp add: authorize_operator_scopes_for_method_def Let_def)
    qed
  qed
qed

text \<open>C23: the scopes that a client is told to ask for are exact: for every method and parameters they authorize the call,
  unless the method is unclassified and there are none to ask for; and for every method but the session actions
  of plugins, whose requirements a client may not know, a set of scopes without the admin scope authorizes the
  call only if it covers every one of them, reading being covered by writing. Unclassified methods are left to the admin scope.
\<close>

theorem least_privilege_is_exact:
  "(authorize_operator_scopes_for_method pr name (map scope_name (resolve_least_privilege_scopes pr name params)) params = None \<longleftrightarrow>
      resolve_least_privilege_scopes pr name params \<noteq> []) \<and>
   (name \<noteq> ''plugins.sessionAction'' \<longrightarrow>
      (authorize_operator_scopes_for_method pr name scopes params = None \<longleftrightarrow>
         scope_name AdminScope \<in> set scopes \<or>
         resolve_least_privilege_scopes pr name params \<noteq> [] \<and>
         (\<forall>s\<in>set (resolve_least_privilege_scopes pr name params). scope_covered scopes s)))"
proof -
  have "authorize_operator_scopes_for_method pr name [] params \<noteq> None" if n: "resolve_least_privilege_scopes pr name params = []"
  proof -
    have "\<not> is_dynamic_operator_gateway_method name"
      using that dynamic_least_nonempty [of pr name params] by (auto simp: resolve_least_privilege_scopes_def)
    then show ?thesis by (simp add: authorize_static scope_covered_def)
  qed
  then show ?thesis using least_privilege_authorizes [of pr name params] authorize_iff_least [of name pr scopes params] by auto
qed

text \<open>the scopes a device is paired with authorize the requests they were granted for: for every method with known
  requirements, and scopes without surrounding space, the relation of requested and granted scopes that pairing uses
  allows the required scopes exactly when the check of requests authorizes the method.
\<close>

theorem pairing_and_requests_agree:
  assumes "name \<noteq> ''plugins.sessionAction''" and "resolve_least_privilege_scopes pr name params \<noteq> []"
    and "\<forall>s\<in>set scopes. js_trim s = s"
  shows "role_scopes_allow ''operator'' (map scope_name (resolve_least_privilege_scopes pr name params)) scopes \<longleftrightarrow>
    authorize_operator_scopes_for_method pr name scopes params = None"
proof -
  have t: "map js_trim scopes = scopes" using assms(3) by (simp add: map_idI)
  show ?thesis
    unfolding role_scopes_allow_operator [OF assms(2)] t authorize_iff_least [OF assms(1)]
    using assms(2) by (auto simp: scope_covered_def)
qed

section \<open>Authorization of requests\<close>

text \<open>The policy of requests, as one formula: who may call a method, whatever the order of the checks.\<close>

definition registered_operator_scope :: "method_registry \<Rightarrow> string \<Rightarrow> operator_scope option" where
  "registered_operator_scope reg name = (case registry_scope reg name of Some (OpScope s) \<Rightarrow> Some s | _ \<Rightarrow> None)"

definition session_action_permitted :: "plugin_registry option \<Rightarrow> json option \<Rightarrow> string list \<Rightarrow> bool" where
  "session_action_permitted pr params scopes \<longleftrightarrow>
     (case resolve_session_action_registered_scopes pr params of
        Some ss \<Rightarrow> \<forall>s\<in>set ss. scope_covered scopes s
      | None \<Rightarrow>
          if json_object params \<noteq> None \<and> session_action_ids params = None then \<exists>s. scope_name s \<in> set scopes
          else scope_covered scopes WriteScope)"

definition operator_permitted :: "plugin_registry option \<Rightarrow> method_registry \<Rightarrow> string \<Rightarrow> json option \<Rightarrow> string list \<Rightarrow> bool" where
  "operator_permitted pr reg name params scopes \<longleftrightarrow>
     scope_name AdminScope \<in> set scopes \<or>
     (case registered_operator_scope reg name of
        Some s \<Rightarrow> scope_covered scopes s
      | None \<Rightarrow>
          if name = ''plugins.sessionAction'' then session_action_permitted pr params scopes
          else resolve_least_privilege_scopes pr name params \<noteq> [] \<and>
               (\<forall>s\<in>set (resolve_least_privilege_scopes pr name params). scope_covered scopes s))"

definition connect_role :: "client_connect \<Rightarrow> string" where
  "connect_role cn = (case cn_role cn of Some r \<Rightarrow> r | None \<Rightarrow> ''operator'')"

definition connect_scopes :: "client_connect \<Rightarrow> string list" where
  "connect_scopes cn = (case cn_scopes cn of Some ss \<Rightarrow> ss | None \<Rightarrow> [])"

definition request_permitted ::
    "plugin_registry option \<Rightarrow> method_registry \<Rightarrow> gateway_client option \<Rightarrow> string \<Rightarrow> json option \<Rightarrow> bool" where
  "request_permitted pr reg client name params \<longleftrightarrow>
     (case Option.bind client gc_connect of
        None \<Rightarrow> True
      | Some cn \<Rightarrow>
          name = ''health'' \<or>
          connect_role cn = ''node'' \<and> is_core_node_gateway_method name \<or>
          connect_role cn = ''operator'' \<and> \<not> is_core_node_gateway_method name \<and> operator_permitted pr reg name params (connect_scopes cn))"

lemma session_action_dynamic: "is_dynamic_operator_gateway_method ''plugins.sessionAction''"
  by code_simp

lemma session_action_permitted_iff:
  assumes "scope_name AdminScope \<notin> set scopes"
  shows "authorize_operator_scopes_for_method pr ''plugins.sessionAction'' scopes params = None \<longleftrightarrow> session_action_permitted pr params scopes"
proof -
  have any: "list_ex is_operator_scope scopes \<longleftrightarrow> (\<exists>s. scope_name s \<in> set scopes)"
    by (auto simp: list_ex_iff is_operator_scope_iff)
  note u = authorize_operator_scopes_for_method_def session_action_dynamic session_action_permitted_def Let_def
  show ?thesis
  proof (cases "resolve_session_action_registered_scopes pr params")
    case None
    then show ?thesis using assms any find_missing_None [OF assms, of "[WriteScope]"] by (simp add: u del: scope_name.simps)
  next
    case (Some ss)
    then show ?thesis using assms find_missing_None [OF assms, of ss] by (simp add: u del: scope_name.simps)
  qed
qed

text \<open>C12: a request is authorized exactly by one flat policy: before the handshake and for the health method always; a node
  exactly for the methods reserved for nodes; an operator for all others, with the admin scope, with the scope the
  method is registered with, or with every scope that the method and its parameters require; any other role never.
\<close>

theorem request_authorized_iff:
  "authorize_gateway_method pr name client params reg = None \<longleftrightarrow> request_permitted pr reg client name params"
proof (cases "Option.bind client gc_connect")
  case None
  then show ?thesis by (simp add: authorize_gateway_method_def request_permitted_def)
next
  case (Some cn)
  have op: "(case registered_operator_scope reg name of
        Some s \<Rightarrow> authorize_operator_scopes_for_required_scope s (connect_scopes cn)
      | None \<Rightarrow> authorize_operator_scopes_for_method pr name (connect_scopes cn) params) = None \<longleftrightarrow>
      operator_permitted pr reg name params (connect_scopes cn)"
    if "scope_name AdminScope \<notin> set (connect_scopes cn)"
    using that session_action_permitted_iff [OF that, of pr params] authorize_iff_least [of name pr "connect_scopes cn" params]
    by (auto simp: operator_permitted_def authorize_required_None split: option.split)
  have adm: "operator_permitted pr reg name params (connect_scopes cn)" if "scope_name AdminScope \<in> set (connect_scopes cn)"
    using that by (simp add: operator_permitted_def)
  show ?thesis
    unfolding authorize_gateway_method_def Some option.case Let_def
      connect_role_def [symmetric] connect_scopes_def [symmetric] registered_operator_scope_def [symmetric]
    using op adm
    by (auto simp: request_permitted_def Some parse_gateway_role_def is_role_authorized_for_method_def split: option.splits)
qed

section \<open>Served requests\<close>

lemma reject_rate_limited_None:
  "reject_rate_limited_write reg client name now b = (None, b') \<Longrightarrow> registry_control_plane_write reg name \<Longrightarrow>
    \<exists>r k. consume_write_budget (control_identity client) name now b = ((r, k), b') \<and> wr_allowed r"
  by (auto simp: reject_rate_limited_write_def split: prod.splits if_splits)

lemma reject_rate_limited_Some: "reject_rate_limited_write reg client name now b = (Some e, b') \<Longrightarrow> b' = b"
  by (auto simp: reject_rate_limited_write_def consume_write_budget_def consume_bucket_def Let_def split: option.splits prod.splits if_splits)

text \<open>How a request got past the gate: inside a live root, as a new root through the open gate, or as a method that controls
  the suspension.\<close>

definition admitted_past_gate :: "dispatch_env \<Rightarrow> string \<Rightarrow> root_lease option \<Rightarrow> admission \<Rightarrow> bool" where
  "admitted_past_gate env name lease a \<longleftrightarrow>
     (case lease of
        None \<Rightarrow> is_work_admission_closed a \<and> name \<in> set suspend_control_methods
      | Some NestedLease \<Rightarrow> name \<noteq> ''gateway.suspend.prepare'' \<and> (\<exists>r. de_current_root env = Some r \<and> root_live r a)
      | Some (OwnedLease r i) \<Rightarrow> \<not> is_work_admission_closed a)"

lemma create_root_owned:
  "create_root_work_admission a = (fst (create_root_work_admission a), OwnedLease (length (root_heap a)) (length (lease_heap a)))"
  by (simp add: create_root_work_admission_def create_release_def Let_def)

lemma try_begin_root_cases:
  assumes "try_begin_root cur a = (a', l)"
  obtains (nested) r where "cur = Some r" "root_live r a" "a' = a" "l = Some NestedLease"
  | (shut) "is_work_admission_closed a" "a' = a" "l = None"
  | (owned) r i where "\<not> is_work_admission_closed a" "create_root_work_admission a = (a', OwnedLease r i)" "l = Some (OwnedLease r i)"
proof -
  obtain a2 r i where c: "create_root_work_admission a = (a2, OwnedLease r i)"
    by (rule that [OF create_root_owned])
  show thesis
  proof (cases "\<exists>r. cur = Some r \<and> root_live r a")
    case True
    then obtain q where q: "cur = Some q" "root_live q a" by blast
    show ?thesis by (rule nested [OF q]) (use assms q in \<open>simp_all add: try_begin_root_def\<close>)
  next
    case False
    then have t: "try_begin_root cur a = (if is_work_admission_closed a then (a, None) else (a2, Some (OwnedLease r i)))"
      by (cases cur) (simp_all add: try_begin_root_def c)
    show ?thesis
    proof (cases "is_work_admission_closed a")
      case True
      show ?thesis by (rule shut [OF True]) (use assms t True in simp_all)
    next
      case False
      show ?thesis by (rule owned [OF False, of r i]) (use assms t False c in simp_all)
    qed
  qed
qed

lemma admit_request_cases:
  assumes "admit_request env reg client name now h s = (d, s')" and "try_begin_root (de_current_root env) (ds_admission s) = (a1, l)"
  obtains (nested) "name = ''gateway.suspend.prepare''" "l = Some NestedLease" "d = Refused NestedSuspend" "s' = s\<lparr>ds_admission := a1\<rparr>"
  | (shut) e where "l = None" "d = Refused e" "s' = s\<lparr>ds_admission := a1\<rparr>"
  | (unpaid) e where "d = Refused e" "s' = s\<lparr>ds_admission := release_root l a1\<rparr>"
  | (invoked) b where "d = Invoked h l" "s' = s\<lparr>ds_admission := a1, ds_buckets := b\<rparr>"
      "l = None \<longrightarrow> name \<in> set suspend_control_methods" "l = Some NestedLease \<longrightarrow> name \<noteq> ''gateway.suspend.prepare''"
      "(if name = ''gateway.suspend.prepare'' then (None, ds_buckets s) else reject_rate_limited_write reg client name now (ds_buckets s)) = (None, b)"
proof -
  let ?paid = "if name = ''gateway.suspend.prepare'' then (None, ds_buckets s) else reject_rate_limited_write reg client name now (ds_buckets s)"
  have p: "(if name = ''gateway.suspend.prepare'' then (None, ds_buckets (s\<lparr>ds_admission := a1\<rparr>))
      else reject_rate_limited_write reg client name now (ds_buckets (s\<lparr>ds_admission := a1\<rparr>))) = ?paid" by simp
  note A = assms(1) [unfolded admit_request_def assms(2) Let_def prod.case p]
  show thesis
  proof (cases "name = ''gateway.suspend.prepare'' \<and> l = Some NestedLease")
    case True
    then show ?thesis using A nested by simp
  next
    case n: False
    note A1 = A [unfolded if_not_P [OF n]]
    show ?thesis
    proof (cases "l = None \<and> name \<notin> set suspend_control_methods")
      case True
      then show ?thesis using A1 shut by auto
    next
      case m: False
      note A2 = A1 [unfolded if_not_P [OF m]]
      obtain x b where x: "?paid = (x, b)" by fastforce
      show ?thesis
      proof (cases x)
        case None
        show ?thesis by (rule invoked [of b]) (use A2 [unfolded x None] n m x None in auto)
      next
        case (Some e)
        then have "reject_rate_limited_write reg client name now (ds_buckets s) = (Some e, b)" using x by (simp split: if_splits)
        from reject_rate_limited_Some [OF this] have "b = ds_buckets s" .
        then show ?thesis by (intro unpaid [of e]) (use A2 [unfolded x Some] in auto)
      qed
    qed
  qed
qed

lemma admit_request_invoked:
  assumes "admit_request env reg client name now h s = (Invoked h' lease, s')"
  shows "h' = h" "admitted_past_gate env name lease (ds_admission s)"
    and "name \<noteq> ''gateway.suspend.prepare'' \<Longrightarrow> reject_rate_limited_write reg client name now (ds_buckets s) = (None, ds_buckets s')"
    and "name = ''gateway.suspend.prepare'' \<Longrightarrow> ds_buckets s' = ds_buckets s"
proof -
  obtain a1 l where t: "try_begin_root (de_current_root env) (ds_admission s) = (a1, l)" by fastforce
  obtain b where b: "h' = h" "lease = l" "ds_buckets s' = b"
      "l = None \<longrightarrow> name \<in> set suspend_control_methods" "l = Some NestedLease \<longrightarrow> name \<noteq> ''gateway.suspend.prepare''"
      "(if name = ''gateway.suspend.prepare'' then (None, ds_buckets s) else reject_rate_limited_write reg client name now (ds_buckets s)) = (None, b)"
    using assms t by (cases rule: admit_request_cases) auto
  from t show "admitted_past_gate env name lease (ds_admission s)"
    by (cases rule: try_begin_root_cases) (use b in \<open>simp_all add: admitted_past_gate_def\<close>)
  show "h' = h" "name \<noteq> ''gateway.suspend.prepare'' \<Longrightarrow> reject_rate_limited_write reg client name now (ds_buckets s) = (None, ds_buckets s')"
    "name = ''gateway.suspend.prepare'' \<Longrightarrow> ds_buckets s' = ds_buckets s" using b by simp_all
qed

text \<open>C11: what the gateway serves was authorized, ready, admitted and paid for: when a request reaches a handler, it is the
  one registered for the method, the policy of requests permits the call, a node is still paired, the method is not held
  back by the startup, the request came in through the open gate, inside live work or as a control of the
  suspension, and a control-plane write was granted by the budget of its client.
\<close>

theorem served_request_is_authorized:
  assumes "handle_gateway_request env client name params now s = (Invoked h lease, s')"
  shows "\<exists>reg. request_registry env name = Inr reg \<and> registry_handler reg name = Some h \<and>
    request_permitted (de_plugins env) reg client name params \<and> \<not> node_pairing_changed env client \<and>
    name \<notin> set (de_unavailable env) \<and> admitted_past_gate env name lease (ds_admission s) \<and>
    (registry_control_plane_write reg name \<longrightarrow>
       (\<exists>r k. consume_write_budget (control_identity client) name now (ds_buckets s) = ((r, k), ds_buckets s') \<and> wr_allowed r))"
proof -
  obtain reg where reg: "request_registry env name = Inr reg"
    using assms by (cases "request_registry env name") (auto simp: handle_gateway_request_def)
  have au: "authorize_gateway_method (de_plugins env) name client params reg = None"
    using assms by (cases "authorize_gateway_method (de_plugins env) name client params reg") (auto simp: handle_gateway_request_def reg)
  have ready: "\<not> node_pairing_changed env client" "name \<notin> set (de_unavailable env)"
    using assms by (auto simp: handle_gateway_request_def reg au split: if_splits)
  note H = assms [unfolded handle_gateway_request_def reg sum.case au option.case ready if_False]
  obtain e b where p: "(if name = ''gateway.suspend.prepare'' then reject_rate_limited_write reg client name now (ds_buckets s)
        else (None, ds_buckets s)) = (e, b)" by fastforce
  have e: "e = None" using H by (cases e) (simp_all add: p ready)
  obtain h0 where h0: "registry_handler reg name = Some h0"
    using H by (cases "registry_handler reg name") (simp_all add: p e ready)
  have adm: "admit_request env reg client name now h0 (s\<lparr>ds_buckets := b\<rparr>) = (Invoked h lease, s')"
    using H by (simp add: p e h0 ready)
  note inv = admit_request_invoked [OF adm]
  have paid: "reject_rate_limited_write reg client name now (ds_buckets s) = (None, ds_buckets s')"
    using p e inv(3,4) by (cases "name = ''gateway.suspend.prepare''") simp_all
  show ?thesis
    using reg h0 au ready inv(1,2) reject_rate_limited_None [OF paid] by (simp add: request_authorized_iff)
qed

section \<open>Refused requests\<close>

text \<open>Two states of the admission between which nothing happened that anyone can see.\<close>

definition same_admission :: "admission \<Rightarrow> admission \<Rightarrow> bool" where
  "same_admission a a' \<longleftrightarrow>
     active_root_work a' = active_root_work a \<and> (\<forall>r<length (root_heap a). root_heap a' ! r = root_heap a ! r) \<and>
     adm_trace a' = adm_trace a \<and> root_drain_waiters a' = root_drain_waiters a \<and>
     suspend_open_waiters a' = suspend_open_waiters a \<and> is_work_admission_closed a' = is_work_admission_closed a"

lemma same_admission_refl [simp]: "same_admission a a"
  by (simp add: same_admission_def)

lemma begun_and_released:
  assumes "adm_root_inv a" and "create_root_work_admission a = (a1, OwnedLease r i)"
  shows "same_admission a (release_lease i a1)"
proof -
  let ?r = "length (root_heap a)"
  have fresh: "?r \<notin> set (active_root_work a)" using assms(1) by (auto simp: adm_root_inv_def root_live_def)
  have waiters: "root_drain_waiters a = [] \<or> active_root_work a \<noteq> []" using assms(1) by (auto simp: adm_root_inv_def)
  have a1: "a1 = a\<lparr>root_heap := root_heap a @ [\<lparr>references = 1, released = False\<rparr>], active_root_work := active_root_work a @ [?r],
      lease_heap := lease_heap a @ [(?r, False)]\<rparr>" "i = length (lease_heap a)"
    using assms(2) fresh by (auto simp: create_root_work_admission_def create_release_def Let_def set_add_fresh)
  have del: "set_del ?r (active_root_work a @ [?r]) = active_root_work a" using set_del_absent [OF fresh] by (simp add: set_del_def)
  show ?thesis
    using waiters
    by (auto simp: same_admission_def release_lease_def a1 root_live_def del adm_core_defs nth_append is_work_admission_closed_def Let_def)
qed

lemma admit_request_refused:
  assumes "adm_root_inv (ds_admission s)" and "admit_request env reg client name now h s = (Refused e, s')"
  shows "same_admission (ds_admission s) (ds_admission s')" "ds_buckets s' = ds_buckets s"
proof -
  obtain a1 l where t: "try_begin_root (de_current_root env) (ds_admission s) = (a1, l)" by fastforce
  have b: "ds_buckets s' = ds_buckets s" "ds_admission s' = a1 \<and> l \<in> {None, Some NestedLease} \<or> ds_admission s' = release_root l a1"
    using assms(2) t by (cases rule: admit_request_cases; simp)+
  show "ds_buckets s' = ds_buckets s" by (rule b(1))
  from t show "same_admission (ds_admission s) (ds_admission s')"
  proof (cases rule: try_begin_root_cases)
    case (owned r i)
    then have "ds_admission s' = release_lease i a1" using b(2) by (simp add: release_root_def)
    then show ?thesis using begun_and_released [OF assms(1) owned(2)] by simp
  next
    case (nested r)
    then have "ds_admission s' = ds_admission s" using b(2) by (simp add: release_root_def)
    then show ?thesis by simp
  next
    case shut
    then have "ds_admission s' = ds_admission s" using b(2) by (simp add: release_root_def)
    then show ?thesis by simp
  qed
qed

text \<open>C22: a refused request leaves no trace: no root work stays behind or is ended, nobody waiting for the gate or for the end of
  the work is woken, and no write budget is used up, but for the preparation of a suspension, which pays before it
  is admitted.
\<close>

theorem refused_request_leaves_no_trace:
  assumes "adm_root_inv (ds_admission s)" and "handle_gateway_request env client name params now s = (Refused e, s')"
  shows "same_admission (ds_admission s) (ds_admission s') \<and>
    (ds_buckets s' = ds_buckets s \<or> name = ''gateway.suspend.prepare'')"
proof (cases "request_registry env name")
  case (Inl x)
  then show ?thesis using assms(2) by (simp add: handle_gateway_request_def)
next
  case (Inr reg)
  show ?thesis
  proof (cases "authorize_gateway_method (de_plugins env) name client params reg = None \<and> \<not> node_pairing_changed env client \<and>
      name \<notin> set (de_unavailable env)")
    case False
    then show ?thesis using assms(2) by (auto simp: handle_gateway_request_def Inr split: option.splits if_splits)
  next
    case True
    then have au: "authorize_gateway_method (de_plugins env) name client params reg = None"
      and ready: "\<not> node_pairing_changed env client" "name \<notin> set (de_unavailable env)" by simp_all
    note H = assms(2) [unfolded handle_gateway_request_def Inr sum.case au option.case]
    obtain x b where p: "(if name = ''gateway.suspend.prepare'' then reject_rate_limited_write reg client name now (ds_buckets s)
        else (None, ds_buckets s)) = (x, b)" by fastforce
    then have b: "b = ds_buckets s \<or> name = ''gateway.suspend.prepare''" by (auto split: if_splits)
    show ?thesis
    proof (cases "x = None \<and> registry_handler reg name \<noteq> None")
      case False
      then have "s' = s\<lparr>ds_buckets := b\<rparr>" using H by (cases x; cases "registry_handler reg name") (auto simp: p ready)
      then show ?thesis using b by auto
    next
      case True
      then obtain h where "admit_request env reg client name now h (s\<lparr>ds_buckets := b\<rparr>) = (Refused e, s')"
        using H by (auto simp: p ready)
      from admit_request_refused [OF _ this] assms(1) b show ?thesis by auto
    qed
  qed
qed

section \<open>Reserved names\<close>








lemma with_extra_handler_simps [simp]:
  "md_name (with_extra_handler env d) = md_name d" "md_scope (with_extra_handler env d) = md_scope d"
  by (simp_all add: with_extra_handler_def split: option.split)






section \<open>A sample gateway\<close>

definition sample_patch :: "json option" where
  "sample_patch = Some (JsonObject [(''key'', JsonText ''main''), (''label'', JsonText ''notes'')])"

lemma sample_patch_scopes: "resolve_least_privilege_scopes None ''sessions.patch'' sample_patch = [WriteScope]"
  by code_simp

theorem least_privilege_is_exact_witness:
  "authorize_operator_scopes_for_method None ''sessions.patch'' [''operator.write''] sample_patch = None"
proof -
  have "''sessions.patch'' \<noteq> ''plugins.sessionAction''" by simp
  then have "authorize_operator_scopes_for_method None ''sessions.patch'' [''operator.write''] sample_patch = None \<longleftrightarrow>
      scope_name AdminScope \<in> set [''operator.write''] \<or>
      resolve_least_privilege_scopes None ''sessions.patch'' sample_patch \<noteq> [] \<and>
      (\<forall>s\<in>set (resolve_least_privilege_scopes None ''sessions.patch'' sample_patch). scope_covered [''operator.write''] s)"
    using least_privilege_is_exact [of None "''sessions.patch''" sample_patch "[''operator.write'']"] by blast
  then show ?thesis by (simp add: sample_patch_scopes scope_covered_def)
qed

theorem pairing_and_requests_agree_witness:
  "role_scopes_allow ''operator'' [''operator.write''] [''operator.write'', ''operator.read''] \<longleftrightarrow>
    authorize_operator_scopes_for_method None ''sessions.patch'' [''operator.write'', ''operator.read''] sample_patch = None"
proof -
  have "js_trim ''operator.write'' = ''operator.write''" "js_trim ''operator.read'' = ''operator.read''" by code_simp+
  then show ?thesis
    using pairing_and_requests_agree [of "''sessions.patch''" None sample_patch "[''operator.write'', ''operator.read'']"]
    by (simp add: sample_patch_scopes)
qed

definition sample_plugins :: plugin_registry where
  "sample_plugins =
     \<lparr>pr_descriptors = Some [plain_descriptor ''config.shadow'' 7 (PluginOwner ''demo'') ReadScope], pr_handlers = [(''config.shadow'', 7)],
      pr_session_actions = None\<rparr>"

definition sample_dispatch_env :: dispatch_env where
  "sample_dispatch_env =
     \<lparr>de_plugins = Some sample_plugins, de_core_handlers = [(''config.apply'', 1), (''status'', 2)], de_extra_handlers = None,
      de_attached = None, de_unavailable = [], de_pairing_current = (\<lambda>_. True), de_current_root = None\<rparr>"

definition sample_client :: "string list \<Rightarrow> gateway_client" where
  "sample_client scopes =
     \<lparr>gc_connect = Some \<lparr>cn_role = None, cn_scopes = Some scopes, cn_device_id = Some ''laptop''\<rparr>, gc_client_ip = None, gc_conn_id = None\<rparr>"

definition sample_registry :: method_registry where
  "sample_registry =
     [\<lparr>md_name = ''status'', md_handler = 2, md_scope = OpScope ReadScope, md_owner = CoreOwner ''gateway'', md_since = Some ''<=2026.7'',
       md_startup_unavailable = False, md_control_plane_write = False, md_advertise = True\<rparr>,
      \<lparr>md_name = ''config.apply'', md_handler = 1, md_scope = OpScope AdminScope, md_owner = CoreOwner ''gateway'', md_since = Some ''<=2026.7'',
       md_startup_unavailable = False, md_control_plane_write = True, md_advertise = True\<rparr>,
      plain_descriptor ''config.shadow'' 7 (PluginOwner ''demo'') AdminScope]"

lemma sample_request_registry: "create_request_gateway_method_registry sample_dispatch_env = Inr sample_registry"
  by code_simp

definition idle_dispatch :: dispatch_state where
  "idle_dispatch = \<lparr>ds_buckets = [], ds_admission = initial_admission\<rparr>"

lemma sample_request_registry_for: "request_registry sample_dispatch_env name = Inr sample_registry"
  using sample_request_registry by (simp add: request_registry_def sample_dispatch_env_def)

definition served_state :: dispatch_state where
  "served_state = snd (handle_gateway_request sample_dispatch_env (Some (sample_client [''operator.admin''])) ''config.apply'' None 5 idle_dispatch)"

lemma sample_served:
  "handle_gateway_request sample_dispatch_env (Some (sample_client [''operator.admin''])) ''config.apply'' None 5 idle_dispatch =
     (Invoked 1 (Some (OwnedLease 0 0)), served_state)"
proof -
  have "fst (handle_gateway_request sample_dispatch_env (Some (sample_client [''operator.admin''])) ''config.apply'' None 5 idle_dispatch) =
      Invoked 1 (Some (OwnedLease 0 0))"
    unfolding handle_gateway_request_def sample_request_registry_for sum.case by code_simp
  then show ?thesis by (simp add: served_state_def prod_eq_iff)
qed

theorem served_request_is_authorized_witness:
  "\<exists>reg. request_permitted (Some sample_plugins) reg (Some (sample_client [''operator.admin''])) ''config.apply'' None \<and>
    registry_handler reg ''config.apply'' = Some 1"
  using served_request_is_authorized [OF sample_served] by (auto simp: sample_dispatch_env_def)

lemma sample_refused:
  "handle_gateway_request sample_dispatch_env (Some (sample_client [''operator.write''])) ''config.shadow'' None 5 idle_dispatch =
     (Refused (MissingOperatorScope AdminScope [AdminScope]), idle_dispatch)"
proof -
  have "authorize_gateway_method (Some sample_plugins) ''config.shadow'' (Some (sample_client [''operator.write''])) None sample_registry =
      Some (MissingOperatorScope AdminScope [AdminScope])"
    by code_simp
  moreover have "de_plugins sample_dispatch_env = Some sample_plugins" by (simp add: sample_dispatch_env_def)
  ultimately show ?thesis by (simp add: handle_gateway_request_def sample_request_registry_for)
qed

theorem refused_request_leaves_no_trace_witness:
  "same_admission (ds_admission idle_dispatch) (ds_admission idle_dispatch) \<and>
    (ds_buckets idle_dispatch = ds_buckets idle_dispatch \<or> ''config.shadow'' = ''gateway.suspend.prepare'')"
  by (rule refused_request_leaves_no_trace [OF _ sample_refused]) (simp add: idle_dispatch_def adm_root_inv_initial)


end
