(* ===== verification/Command_Queue.thy ===== *)
theory Command_Queue
  imports JS_Numbers Work_Admission
begin

text \<open>
  The in-process command queue: \<open>src/src/process/command-queue.ts\<close>.

  The singleton of \<open>getQueueState\<close> is the record \<open>command_queue\<close>; a \<open>LaneState\<close> is \<open>lane_state\<close> and a
  \<open>QueueEntry\<close> is \<open>queue_entry\<close>, whose task closure and promise are one identity \<open>qe_task\<close>. JavaScript
  runs each operation to completion, so an operation is one function of the state and of \<open>Date.now()\<close>;
  the asynchronous body that the pump starts for an entry is a frame in \<open>frames\<close> until the task
  settles, which is the event \<open>task_settled\<close>. Promise settlements, log lines and started tasks are
  recorded in order in \<open>cq_trace\<close>. Callbacks (\<open>onWait\<close>, resolvers) do not call back into the queue.
\<close>

section \<open>State\<close>

datatype queue_priority = Foreground | Normal | Background

record queue_entry =
  qe_task :: nat
  qe_enqueued_at :: int
  qe_sequence :: nat
  qe_priority :: int
  qe_warn_after_ms :: int
  qe_queued_ahead :: nat
  qe_active_ahead :: nat
  qe_task_timeout_ms :: "int option"
  qe_abort_grace_ms :: "int option"

record lane_state =
  ls_queue :: "queue_entry list"
  ls_active :: "nat list"
  ls_max_concurrent :: int
  ls_draining :: bool
  ls_generation :: nat

datatype rejection = GatewayDraining | LaneCleared string | TaskFailed

datatype cq_effect =
    LaneEnqueued nat string nat
  | WaitWarned nat int nat
  | LaneDequeued string int nat
  | TaskStarted nat string nat nat
  | TaskResolved nat
  | TaskRejected nat rejection
  | WaiterResolved nat bool

record frame =
  fr_lane :: string
  fr_generation :: nat
  fr_entry :: queue_entry

record command_queue =
  lanes :: "(string, lane_state) js_map"
  active_task_waiters :: "(nat, nat list) js_map"
  next_task_id :: nat
  next_queue_sequence :: nat
  frames :: "(nat, frame) js_map"
  cq_trace :: "cq_effect list"

definition initial_command_queue :: command_queue where
  "initial_command_queue =
     \<lparr>lanes = [], active_task_waiters = [], next_task_id = 1, next_queue_sequence = 1,
      frames = [], cq_trace = []\<rparr>"

definition cq_emit :: "cq_effect list \<Rightarrow> command_queue \<Rightarrow> command_queue" where
  "cq_emit es s = s\<lparr>cq_trace := cq_trace s @ es\<rparr>"

section \<open>Lanes\<close>

definition main_lane :: string where
  "main_lane = ''main''"

definition normalize_lane :: "string \<Rightarrow> string" where
  "normalize_lane lane = (let t = js_trim lane in if t \<noteq> [] then t else main_lane)"

definition is_quiet_probe_lane :: "string \<Rightarrow> bool" where
  "is_quiet_probe_lane lane \<longleftrightarrow>
     prefix ''auth-probe:'' lane \<or> prefix ''session:probe-'' lane \<or>
     prefix ''session:temp:setup-inference:probe-setup-inference-'' lane"

definition lane_depth :: "lane_state \<Rightarrow> nat" where
  "lane_depth st = length (ls_queue st) + length (ls_active st)"

definition new_lane :: lane_state where
  "new_lane = \<lparr>ls_queue = [], ls_active = [], ls_max_concurrent = 1, ls_draining = False, ls_generation = 0\<rparr>"

text \<open>\<open>getLaneState\<close>: the lane, created and stored when it does not exist yet.\<close>

definition get_lane_state :: "string \<Rightarrow> command_queue \<Rightarrow> command_queue \<times> lane_state" where
  "get_lane_state lane s =
     (case js_get (lanes s) lane of
        Some st \<Rightarrow> (s, st)
      | None \<Rightarrow> (s\<lparr>lanes := js_set lane new_lane (lanes s)\<rparr>, new_lane))"

definition put_lane :: "string \<Rightarrow> lane_state \<Rightarrow> command_queue \<Rightarrow> command_queue" where
  "put_lane lane st s = s\<lparr>lanes := js_set lane st (lanes s)\<rparr>"

definition complete_task :: "lane_state \<Rightarrow> nat \<Rightarrow> nat \<Rightarrow> lane_state \<times> bool" where
  "complete_task st task_id task_generation =
     (if task_generation \<noteq> ls_generation st then (st, False)
      else (st\<lparr>ls_active := set_del task_id (ls_active st)\<rparr>, True))"

section \<open>Waiting for active tasks\<close>

definition has_pending_active_tasks :: "nat list \<Rightarrow> command_queue \<Rightarrow> bool" where
  "has_pending_active_tasks ids s \<longleftrightarrow>
     list_ex (\<lambda>(lane, st). list_ex (\<lambda>t. t \<in> set ids) (ls_active st)) (lanes s)"

definition resolve_active_task_waiter :: "nat \<Rightarrow> bool \<Rightarrow> command_queue \<Rightarrow> command_queue" where
  "resolve_active_task_waiter w drained s =
     (if w \<in> set (js_keys (active_task_waiters s)) then
        cq_emit [WaiterResolved w drained] (s\<lparr>active_task_waiters := js_delete w (active_task_waiters s)\<rparr>)
      else s)"

definition notify_active_task_waiters :: "command_queue \<Rightarrow> command_queue" where
  "notify_active_task_waiters s =
     fold (\<lambda>(w, ids) s. if ids = [] \<or> \<not> has_pending_active_tasks ids s
                        then resolve_active_task_waiter w True s else s)
       (active_task_waiters s) s"

section \<open>Queue order\<close>

definition normalize_task_timeout_ms :: "js_value \<Rightarrow> int option" where
  "normalize_task_timeout_ms v =
     (case as_finite_number v of
        None \<Rightarrow> None
      | Some q \<Rightarrow> if q \<le> 0 then None else clamp_positive_timer_timeout_ms v)"

fun resolve_queue_priority :: "queue_priority option \<Rightarrow> int" where
  "resolve_queue_priority (Some Foreground) = 1"
| "resolve_queue_priority (Some Background) = - 1"
| "resolve_queue_priority _ = 0"

text \<open>The entry that \<open>findIndex\<close> stops at: it must run after the new one.\<close>

definition runs_after :: "queue_entry \<Rightarrow> queue_entry \<Rightarrow> bool" where
  "runs_after entry queued \<longleftrightarrow>
     qe_priority queued < qe_priority entry \<or>
     qe_priority queued = qe_priority entry \<and> qe_sequence queued > qe_sequence entry"

definition insert_position :: "queue_entry \<Rightarrow> queue_entry list \<Rightarrow> nat" where
  "insert_position entry q = length (takeWhile (\<lambda>e. \<not> runs_after entry e) q)"

definition enqueue_lane_entry :: "lane_state \<Rightarrow> queue_entry \<Rightarrow> lane_state" where
  "enqueue_lane_entry st entry =
     (let i = insert_position entry (ls_queue st);
          entry' = entry\<lparr>qe_queued_ahead := i, qe_active_ahead := length (ls_active st)\<rparr>
      in st\<lparr>ls_queue := take i (ls_queue st) @ entry' # drop i (ls_queue st)\<rparr>)"

section \<open>The pump\<close>

text \<open>
  What one turn of the pump's loop logs and starts for the entry it shifted: \<open>act\<close> and \<open>q\<close> are the
  active set and the queue after the shift.
\<close>

definition start_effects :: "string \<Rightarrow> nat \<Rightarrow> int \<Rightarrow> nat \<Rightarrow> queue_entry \<Rightarrow> queue_entry list \<Rightarrow> cq_effect list" where
  "start_effects lane gen now task_id e q =
     (let waited = now - qe_enqueued_at e
      in (if waited \<ge> qe_warn_after_ms e then [WaitWarned (qe_task e) waited (qe_queued_ahead e)] else []) @
         [LaneDequeued lane waited (length q), TaskStarted (qe_task e) lane task_id gen])"

text \<open>The \<open>while\<close> loop: remaining queue, active set, next task id, frames started and effects.\<close>

fun pump_entries ::
    "string \<Rightarrow> nat \<Rightarrow> int \<Rightarrow> int \<Rightarrow> nat list \<Rightarrow> nat \<Rightarrow> queue_entry list \<Rightarrow>
     queue_entry list \<times> nat list \<times> nat \<times> (nat, frame) js_map \<times> cq_effect list" where
  "pump_entries lane gen max_c now act nid [] = ([], act, nid, [], [])"
| "pump_entries lane gen max_c now act nid (e # q) =
     (if int (length act) < max_c then
        (let (q', act', nid', fs, es) = pump_entries lane gen max_c now (set_add nid act) (Suc nid) q
         in (q', act', nid', (nid, \<lparr>fr_lane = lane, fr_generation = gen, fr_entry = e\<rparr>) # fs,
             start_effects lane gen now nid e q @ es))
      else (e # q, act, nid, [], []))"

definition pump :: "string \<Rightarrow> int \<Rightarrow> command_queue \<Rightarrow> command_queue" where
  "pump lane now s =
     (case js_get (lanes s) lane of
        None \<Rightarrow> s
      | Some st \<Rightarrow>
          (let (q', act', nid', fs, es) =
                 pump_entries lane (ls_generation st) (ls_max_concurrent st) now (ls_active st)
                   (next_task_id s) (ls_queue st)
           in cq_emit es
                ((put_lane lane (st\<lparr>ls_queue := q', ls_active := act', ls_draining := False\<rparr>) s)
                   \<lparr>next_task_id := nid', frames := frames s @ fs\<rparr>)))"

definition drain_lane :: "string \<Rightarrow> int \<Rightarrow> command_queue \<Rightarrow> command_queue" where
  "drain_lane lane now s =
     (let (s1, st) = get_lane_state lane s
      in if ls_draining st then s1
         else pump lane now (put_lane lane (st\<lparr>ls_draining := True\<rparr>) s1))"

text \<open>
  The continuation of the asynchronous body once its task resolved (\<open>ok\<close>) or rejected: both
  branches complete the task, notify and pump in the task's own generation, then settle the promise.
\<close>

definition task_settled :: "int \<Rightarrow> nat \<Rightarrow> bool \<Rightarrow> command_queue \<Rightarrow> command_queue" where
  "task_settled now task_id ok s =
     (case js_get (frames s) task_id of
        None \<Rightarrow> s
      | Some f \<Rightarrow>
          (let s0 = s\<lparr>frames := js_delete task_id (frames s)\<rparr>;
               (s1, st) = get_lane_state (fr_lane f) s0;
               (st', current) = complete_task st task_id (fr_generation f);
               s2 = put_lane (fr_lane f) st' s1;
               s3 = (if current then pump (fr_lane f) now (notify_active_task_waiters s2) else s2)
           in cq_emit [if ok then TaskResolved (qe_task (fr_entry f))
                       else TaskRejected (qe_task (fr_entry f)) TaskFailed] s3))"

section \<open>Operations\<close>

text \<open>\<open>setCommandLaneConcurrency\<close>, for a finite \<open>maxConcurrent\<close>.\<close>

definition set_command_lane_concurrency :: "string \<Rightarrow> rat \<Rightarrow> int \<Rightarrow> command_queue \<Rightarrow> command_queue" where
  "set_command_lane_concurrency lane max_concurrent now s =
     (let cleaned = normalize_lane lane;
          (s1, st) = get_lane_state cleaned s;
          min_concurrent = (if is_quiet_probe_lane cleaned then 1 else 0);
          m = max min_concurrent \<lfloor>max_concurrent\<rfloor>;
          s2 = put_lane cleaned (st\<lparr>ls_max_concurrent := m\<rparr>) s1
      in if m > 0 then drain_lane cleaned now s2 else s2)"

record enqueue_options =
  eo_warn_after_ms :: "int option"
  eo_priority :: "queue_priority option"
  eo_task_timeout_ms :: js_value
  eo_abort_grace_ms :: js_value

definition default_enqueue_options :: enqueue_options where
  "default_enqueue_options =
     \<lparr>eo_warn_after_ms = None, eo_priority = None, eo_task_timeout_ms = JOther, eo_abort_grace_ms = JOther\<rparr>"

definition make_entry :: "nat \<Rightarrow> enqueue_options \<Rightarrow> int \<Rightarrow> nat \<Rightarrow> queue_entry" where
  "make_entry task opts now sequence =
     \<lparr>qe_task = task, qe_enqueued_at = now, qe_sequence = sequence,
      qe_priority = resolve_queue_priority (eo_priority opts),
      qe_warn_after_ms = (case eo_warn_after_ms opts of None \<Rightarrow> 2000 | Some w \<Rightarrow> w),
      qe_queued_ahead = 0, qe_active_ahead = 0,
      qe_task_timeout_ms = normalize_task_timeout_ms (eo_task_timeout_ms opts),
      qe_abort_grace_ms = normalize_task_timeout_ms (eo_abort_grace_ms opts)\<rparr>"

text \<open>
  \<open>enqueueCommandInLane\<close>: \<open>gate_closed\<close> is \<open>isGatewaySubordinateWorkAdmissionClosed()\<close> at the call.
\<close>

definition enqueue_command_in_lane ::
    "bool \<Rightarrow> string \<Rightarrow> nat \<Rightarrow> enqueue_options \<Rightarrow> int \<Rightarrow> command_queue \<Rightarrow> command_queue" where
  "enqueue_command_in_lane gate_closed lane task opts now s =
     (if gate_closed then cq_emit [TaskRejected task GatewayDraining] s
      else
        (let cleaned = normalize_lane lane;
             (s1, st) = get_lane_state cleaned s;
             entry = make_entry task opts now (next_queue_sequence s1);
             st' = enqueue_lane_entry st entry;
             s2 = put_lane cleaned st' (s1\<lparr>next_queue_sequence := Suc (next_queue_sequence s1)\<rparr>);
             s3 = cq_emit [LaneEnqueued task cleaned (lane_depth st')] s2
         in drain_lane cleaned now s3))"

definition get_queue_size :: "string \<Rightarrow> command_queue \<Rightarrow> nat" where
  "get_queue_size lane s =
     (case js_get (lanes s) (normalize_lane lane) of None \<Rightarrow> 0 | Some st \<Rightarrow> lane_depth st)"

text \<open>\<open>getCommandLaneSnapshot\<close>: lane, queued, active, concurrency limit, draining flag, generation.\<close>

definition get_command_lane_snapshot ::
    "string \<Rightarrow> command_queue \<Rightarrow> string \<times> nat \<times> nat \<times> int \<times> bool \<times> nat" where
  "get_command_lane_snapshot lane s =
     (let resolved = normalize_lane lane in
      case js_get (lanes s) resolved of
        None \<Rightarrow> (resolved, 0, 0, 1, False, 0)
      | Some st \<Rightarrow> (resolved, length (ls_queue st), length (ls_active st), ls_max_concurrent st,
                     ls_draining st, ls_generation st))"

definition get_command_lane_active_task_ids :: "string \<Rightarrow> command_queue \<Rightarrow> nat list" where
  "get_command_lane_active_task_ids lane s =
     (case js_get (lanes s) (normalize_lane lane) of None \<Rightarrow> [] | Some st \<Rightarrow> ls_active st)"

text \<open>\<open>isCommandLaneTaskMarkerCurrent\<close> for a marker \<open>(lane, taskId, generation)\<close>.\<close>

definition is_marker_current :: "string \<times> nat \<times> nat \<Rightarrow> command_queue \<Rightarrow> bool" where
  "is_marker_current m s =
     (case m of (lane, task_id, generation) \<Rightarrow>
        (case js_get (lanes s) (normalize_lane lane) of
           None \<Rightarrow> False
         | Some st \<Rightarrow> ls_generation st = generation \<and> task_id \<in> set (ls_active st)))"

definition get_total_queue_size :: "command_queue \<Rightarrow> nat" where
  "get_total_queue_size s = sum_list (map (\<lambda>(lane, st). lane_depth st) (lanes s))"

definition get_active_task_count :: "command_queue \<Rightarrow> nat" where
  "get_active_task_count s = sum_list (map (\<lambda>(lane, st). length (ls_active st)) (lanes s))"

definition clear_command_lane :: "string \<Rightarrow> command_queue \<Rightarrow> command_queue \<times> nat" where
  "clear_command_lane lane s =
     (let cleaned = normalize_lane lane in
      case js_get (lanes s) cleaned of
        None \<Rightarrow> (s, 0)
      | Some st \<Rightarrow>
          (cq_emit (map (\<lambda>e. TaskRejected (qe_task e) (LaneCleared cleaned)) (ls_queue st))
             (put_lane cleaned (st\<lparr>ls_queue := []\<rparr>) s),
           length (ls_queue st)))"

definition idle_lane :: "lane_state \<Rightarrow> lane_state" where
  "idle_lane st = st\<lparr>ls_generation := Suc (ls_generation st), ls_active := [], ls_draining := False\<rparr>"

definition reset_command_lane :: "string \<Rightarrow> int \<Rightarrow> command_queue \<Rightarrow> command_queue \<times> nat" where
  "reset_command_lane lane now s =
     (let cleaned = normalize_lane lane in
      case js_get (lanes s) cleaned of
        None \<Rightarrow> (s, 0)
      | Some st \<Rightarrow>
          (let s1 = put_lane cleaned (idle_lane st) s;
               s2 = (if ls_queue st \<noteq> [] then drain_lane cleaned now s1 else s1)
           in (notify_active_task_waiters s2, length (ls_active st))))"

text \<open>The queue half of \<open>resetAllLanes\<close>, which runs after \<open>resetGatewayWorkAdmission()\<close>.\<close>

definition reset_all_lanes :: "int \<Rightarrow> command_queue \<Rightarrow> command_queue" where
  "reset_all_lanes now s =
     (let lanes_to_drain = map fst (filter (\<lambda>(lane, st). ls_queue st \<noteq> []) (lanes s));
          s1 = s\<lparr>lanes := map (\<lambda>(lane, st). (lane, idle_lane st)) (lanes s)\<rparr>
      in notify_active_task_waiters (fold (\<lambda>lane s. drain_lane lane now s) lanes_to_drain s1))"

text \<open>\<open>waitForActiveTasks\<close>: the waiter \<open>w\<close> captures the tasks active at the call.\<close>

definition active_at_start :: "command_queue \<Rightarrow> nat list" where
  "active_at_start s = fold (\<lambda>(lane, st) acc. fold set_add (ls_active st) acc) (lanes s) []"

definition wait_for_active_tasks :: "int option \<Rightarrow> nat \<Rightarrow> command_queue \<Rightarrow> command_queue" where
  "wait_for_active_tasks timeout w s =
     (let ids = active_at_start s in
      if ids = [] then cq_emit [WaiterResolved w True] s
      else if (case timeout of None \<Rightarrow> False | Some t \<Rightarrow> t \<le> 0) then cq_emit [WaiterResolved w False] s
      else notify_active_task_waiters
             (s\<lparr>active_task_waiters := js_set w ids (active_task_waiters s)\<rparr>))"

text \<open>The timer callback of a waiter with a timeout.\<close>

definition waiter_timed_out :: "nat \<Rightarrow> command_queue \<Rightarrow> command_queue" where
  "waiter_timed_out w s = resolve_active_task_waiter w False s"

section \<open>The queue as a machine\<close>

datatype cq_op =
    SetConcurrency string rat int
  | Enqueue bool string nat enqueue_options int
  | TaskSettled int nat bool
  | ClearLane string
  | ResetLane string int
  | ResetAllLanes int
  | WaitForActive "int option" nat
  | WaiterTimedOut nat

fun cq_step :: "command_queue \<Rightarrow> cq_op \<Rightarrow> command_queue" where
  "cq_step s (SetConcurrency lane m now) = set_command_lane_concurrency lane m now s"
| "cq_step s (Enqueue gate_closed lane task opts now) = enqueue_command_in_lane gate_closed lane task opts now s"
| "cq_step s (TaskSettled now task_id ok) = task_settled now task_id ok s"
| "cq_step s (ClearLane lane) = fst (clear_command_lane lane s)"
| "cq_step s (ResetLane lane now) = fst (reset_command_lane lane now s)"
| "cq_step s (ResetAllLanes now) = reset_all_lanes now s"
| "cq_step s (WaitForActive timeout w) = wait_for_active_tasks timeout w s"
| "cq_step s (WaiterTimedOut w) = waiter_timed_out w s"

end
