(* ===== verification/Command_Queue_Inv.thy ===== *)
theory Command_Queue_Inv
  imports Command_Queue
begin

text \<open>
  The invariant of the command queue and its preservation by every operation: closed form of the
  pump, order of a lane's queue, no stalled lane, every active task backed by a live frame of the
  lane's current generation, and every registered waiter still waiting for an active task.
\<close>

section \<open>Closed form of the pump\<close>

fun accepted_of :: "cq_effect list \<Rightarrow> nat list" where
  "accepted_of [] = []"
| "accepted_of (LaneEnqueued t l d # es) = t # accepted_of es"
| "accepted_of (_ # es) = accepted_of es"

fun settled_of :: "cq_effect list \<Rightarrow> nat list" where
  "settled_of [] = []"
| "settled_of (TaskResolved t # es) = t # settled_of es"
| "settled_of (TaskRejected t TaskFailed # es) = t # settled_of es"
| "settled_of (TaskRejected t (LaneCleared l) # es) = t # settled_of es"
| "settled_of (_ # es) = settled_of es"

fun started_of :: "cq_effect list \<Rightarrow> (nat \<times> string \<times> nat \<times> nat) list" where
  "started_of [] = []"
| "started_of (TaskStarted t l i g # es) = (t, l, i, g) # started_of es"
| "started_of (_ # es) = started_of es"

lemma accepted_of_append [simp]: "accepted_of (xs @ ys) = accepted_of xs @ accepted_of ys"
  by (induction xs rule: accepted_of.induct) auto

lemma settled_of_append [simp]: "settled_of (xs @ ys) = settled_of xs @ settled_of ys"
  by (induction xs rule: settled_of.induct) auto

lemma started_of_append [simp]: "started_of (xs @ ys) = started_of xs @ started_of ys"
  by (induction xs rule: started_of.induct) auto

lemma of_WaiterResolved [simp]:
  "accepted_of (map (\<lambda>p. WaiterResolved (f p) (b p)) ps) = []"
  "settled_of (map (\<lambda>p. WaiterResolved (f p) (b p)) ps) = []"
  "started_of (map (\<lambda>p. WaiterResolved (f p) (b p)) ps) = []"
  by (induction ps) auto

lemma of_LaneCleared [simp]:
  "accepted_of (map (\<lambda>e. TaskRejected (f e) (LaneCleared l)) q) = []"
  "settled_of (map (\<lambda>e. TaskRejected (f e) (LaneCleared l)) q) = map f q"
  "started_of (map (\<lambda>e. TaskRejected (f e) (LaneCleared l)) q) = []"
  by (induction q) auto

lemma of_start_effects [simp]:
  "accepted_of (start_effects l g now i e q) = []"
  "settled_of (start_effects l g now i e q) = []"
  "started_of (start_effects l g now i e q) = [(qe_task e, l, i, g)]"
  by (auto simp: start_effects_def Let_def)

definition pump_count :: "int \<Rightarrow> nat list \<Rightarrow> queue_entry list \<Rightarrow> nat" where
  "pump_count m act q = min (length q) (nat (m - int (length act)))"

fun pump_effects :: "string \<Rightarrow> nat \<Rightarrow> int \<Rightarrow> nat \<Rightarrow> nat \<Rightarrow> queue_entry list \<Rightarrow> cq_effect list" where
  "pump_effects l g now nid (Suc k) (e # q) = start_effects l g now nid e q @ pump_effects l g now (Suc nid) k q"
| "pump_effects l g now nid _ _ = []"

definition pump_frames :: "string \<Rightarrow> nat \<Rightarrow> nat \<Rightarrow> queue_entry list \<Rightarrow> (nat, frame) js_map" where
  "pump_frames l g nid q =
     zip [nid..<nid + length q] (map (\<lambda>e. \<lparr>fr_lane = l, fr_generation = g, fr_entry = e\<rparr>) q)"

lemma upt_head: "[n..<Suc (n + k)] = n # [Suc n..<Suc (n + k)]"
  by (simp add: upt_conv_Cons)

lemma pump_entries_closed:
  "(\<forall>t \<in> set act. t < nid) \<Longrightarrow>
   pump_entries l g m now act nid q =
     (let k = pump_count m act q
      in (drop k q, act @ [nid..<nid + k], nid + k, pump_frames l g nid (take k q),
          pump_effects l g now nid k q))"
proof (induction q arbitrary: act nid)
  case Nil
  then show ?case by (simp add: pump_count_def pump_frames_def)
next
  case (Cons e q)
  show ?case
  proof (cases "int (length act) < m")
    case False
    then show ?thesis by (simp add: pump_count_def pump_frames_def Let_def)
  next
    case True
    have fresh: "set_add nid act = act @ [nid]" using Cons.prems by (intro set_add_fresh) auto
    have k: "pump_count m act (e # q) = Suc (pump_count m (act @ [nid]) q)"
      using True by (auto simp: pump_count_def)
    have IH: "pump_entries l g m now (act @ [nid]) (Suc nid) q =
       (let k = pump_count m (act @ [nid]) q
        in (drop k q, (act @ [nid]) @ [Suc nid..<Suc nid + k], Suc nid + k,
            pump_frames l g (Suc nid) (take k q), pump_effects l g now (Suc nid) k q))"
      by (rule Cons.IH) (use Cons.prems in \<open>auto intro: less_SucI\<close>)
    show ?thesis using True
      by (simp add: fresh k IH Let_def pump_frames_def upt_head del: upt_Suc)
  qed
qed

lemma of_pump_effects [simp]:
  "accepted_of (pump_effects l g now nid k q) = []"
  "settled_of (pump_effects l g now nid k q) = []"
  by (induction l g now nid k q rule: pump_effects.induct) auto

lemma started_of_pump_effects:
  "k \<le> length q \<Longrightarrow>
   started_of (pump_effects l g now nid k q) =
     map (\<lambda>(i, e). (qe_task e, l, i, g)) (zip [nid..<nid + k] (take k q))"
proof (induction l g now nid k q rule: pump_effects.induct)
  case (1 l g now nid k e q)
  show ?case using 1 by (simp add: upt_head del: upt_Suc)
qed auto

section \<open>Invariants\<close>

definition entry_before :: "queue_entry \<Rightarrow> queue_entry \<Rightarrow> bool" where
  "entry_before a b \<longleftrightarrow>
     qe_priority a > qe_priority b \<or> qe_priority a = qe_priority b \<and> qe_sequence a < qe_sequence b"

definition lane_core :: "nat \<Rightarrow> lane_state \<Rightarrow> bool" where
  "lane_core nseq st \<longleftrightarrow>
     sorted_wrt entry_before (ls_queue st) \<and> (\<forall>e \<in> set (ls_queue st). qe_sequence e < nseq) \<and>
     (\<forall>e \<in> set (ls_queue st). qe_priority e \<in> range (resolve_queue_priority \<circ> Some)) \<and> distinct (ls_active st)"

definition lane_settled :: "lane_state \<Rightarrow> bool" where
  "lane_settled st \<longleftrightarrow>
     \<not> ls_draining st \<and> (ls_queue st = [] \<or> ls_max_concurrent st \<le> int (length (ls_active st)))"

definition cq_base :: "(string \<Rightarrow> bool) \<Rightarrow> command_queue \<Rightarrow> bool" where
  "cq_base P s \<longleftrightarrow>
     js_wf (lanes s) \<and> js_wf (frames s) \<and> 0 < next_queue_sequence s \<and> (\<forall>t \<in> set (js_keys (frames s)). t < next_task_id s) \<and>
     (\<forall>l st. js_get (lanes s) l = Some st \<longrightarrow>
        lane_core (next_queue_sequence s) st \<and> (P l \<longrightarrow> lane_settled st) \<and>
        (\<forall>t \<in> set (ls_active st). \<exists>f. js_get (frames s) t = Some f \<and> fr_lane f = l \<and>
            fr_generation f = ls_generation st))"

definition waiters_ok :: "command_queue \<Rightarrow> bool" where
  "waiters_ok s \<longleftrightarrow>
     js_wf (active_task_waiters s) \<and>
     (\<forall>w ids. js_get (active_task_waiters s) w = Some ids \<longrightarrow>
        ids \<noteq> [] \<and> (\<exists>l st. js_get (lanes s) l = Some st \<and> set ids \<inter> set (ls_active st) \<noteq> {}))"

definition cq_inv :: "command_queue \<Rightarrow> bool" where
  "cq_inv s \<longleftrightarrow> cq_base (\<lambda>_. True) s \<and> waiters_ok s"

lemma cq_base_mono: "cq_base P s \<Longrightarrow> (\<And>l. Q l \<Longrightarrow> P l) \<Longrightarrow> cq_base Q s"
  by (auto simp: cq_base_def)

lemma lane_core_mono: "lane_core n st \<Longrightarrow> n \<le> n' \<Longrightarrow> lane_core n' st"
  by (auto simp: lane_core_def)

lemma lane_core_new [simp]: "lane_core n new_lane"
  by (simp add: lane_core_def new_lane_def)

lemma lane_settled_new [simp]: "lane_settled new_lane"
  by (simp add: lane_settled_def new_lane_def)

lemma has_pending_iff:
  "js_wf (lanes s) \<Longrightarrow>
   has_pending_active_tasks ids s \<longleftrightarrow>
     (\<exists>l st. js_get (lanes s) l = Some st \<and> set ids \<inter> set (ls_active st) \<noteq> {})"
  by (auto simp: has_pending_active_tasks_def list_ex_iff js_get_iff)

text \<open>Inserting keeps the queue sorted: all later entries run after the new one.\<close>

lemma sorted_insert_position:
  assumes "sorted_wrt entry_before q" and "\<forall>e \<in> set q. qe_sequence e < qe_sequence x"
  shows "sorted_wrt entry_before (take (insert_position x q) q @ x # drop (insert_position x q) q)"
  using assms
proof (induction q)
  case Nil
  then show ?case by (simp add: insert_position_def)
next
  case (Cons e q)
  show ?case
  proof (cases "runs_after x e")
    case True
    have "\<forall>b \<in> set q. entry_before x b"
      using True Cons.prems by (auto simp: entry_before_def runs_after_def)
    moreover have "entry_before x e"
      using True Cons.prems by (auto simp: entry_before_def runs_after_def)
    ultimately show ?thesis using Cons.prems True by (simp add: insert_position_def)
  next
    case False
    have "entry_before e x"
      using False Cons.prems by (auto simp: entry_before_def runs_after_def)
    moreover have "\<forall>b \<in> set (take (insert_position x q) q) \<union> set (drop (insert_position x q) q). entry_before e b"
      using Cons.prems by (auto dest: in_set_takeD in_set_dropD)
    ultimately show ?thesis using Cons False by (auto simp: insert_position_def)
  qed
qed

lemma insert_position_cong:
  "qe_priority x = qe_priority y \<Longrightarrow> qe_sequence x = qe_sequence y \<Longrightarrow> insert_position x q = insert_position y q"
  by (simp add: insert_position_def runs_after_def)

lemma resolve_queue_priority_range [simp, intro]:
  "resolve_queue_priority p \<in> range (\<lambda>c. resolve_queue_priority (Some c))"
proof (cases p)
  case None
  then have "resolve_queue_priority p = resolve_queue_priority (Some Normal)" by simp
  then show ?thesis by (rule range_eqI)
qed auto

lemma enqueue_lane_entry_core:
  assumes "lane_core (qe_sequence x) st" and "qe_priority x \<in> range (resolve_queue_priority \<circ> Some)"
  shows "lane_core (Suc (qe_sequence x)) (enqueue_lane_entry st x)"
proof -
  let ?y = "x\<lparr>qe_queued_ahead := insert_position x (ls_queue st), qe_active_ahead := length (ls_active st)\<rparr>"
  have i: "insert_position x (ls_queue st) = insert_position ?y (ls_queue st)"
    by (rule insert_position_cong) simp_all
  have "sorted_wrt entry_before
          (take (insert_position ?y (ls_queue st)) (ls_queue st) @ ?y # drop (insert_position ?y (ls_queue st)) (ls_queue st))"
    by (rule sorted_insert_position) (use assms in \<open>auto simp: lane_core_def\<close>)
  then show ?thesis using assms
    by (auto simp: enqueue_lane_entry_def lane_core_def Let_def i [symmetric]
        dest: in_set_takeD in_set_dropD intro: less_SucI)
qed


section \<open>The building blocks keep the invariant\<close>

lemma pump_closed:
  assumes "cq_base P s" and "js_get (lanes s) l = Some st"
  defines "k \<equiv> pump_count (ls_max_concurrent st) (ls_active st) (ls_queue st)"
  shows "pump l now s =
     s\<lparr>lanes := js_set l (st\<lparr>ls_queue := drop k (ls_queue st),
                           ls_active := ls_active st @ [next_task_id s..<next_task_id s + k],
                           ls_draining := False\<rparr>) (lanes s),
       next_task_id := next_task_id s + k,
       frames := frames s @ pump_frames l (ls_generation st) (next_task_id s) (take k (ls_queue st)),
       cq_trace := cq_trace s @ pump_effects l (ls_generation st) now (next_task_id s) k (ls_queue st)\<rparr>"
proof -
  have "\<forall>t \<in> set (ls_active st). t < next_task_id s"
  proof
    fix t assume "t \<in> set (ls_active st)"
    then obtain f where "js_get (frames s) t = Some f" using assms(1,2) by (fastforce simp: cq_base_def)
    then have "t \<in> set (js_keys (frames s))" by (metis js_get_None_keys option.distinct(1))
    then show "t < next_task_id s" using assms(1) by (auto simp: cq_base_def)
  qed
  then show ?thesis
    by (simp add: pump_def assms(2) pump_entries_closed Let_def k_def put_lane_def cq_emit_def)
qed

lemma js_keys_pump_frames [simp]: "map fst (pump_frames l g nid q) = [nid..<nid + length q]"
  by (simp add: pump_frames_def)

lemma pump_frames_get:
  "nid \<le> t \<Longrightarrow> t < nid + length q \<Longrightarrow>
   \<exists>f. js_get (pump_frames l g nid q) t = Some f \<and> fr_lane f = l \<and> fr_generation f = g"
proof -
  assume a: "nid \<le> t" "t < nid + length q"
  let ?f = "\<lparr>fr_lane = l, fr_generation = g, fr_entry = q ! (t - nid)\<rparr>"
  have "pump_frames l g nid q ! (t - nid) = (t, ?f)" "t - nid < length (pump_frames l g nid q)"
    using a by (auto simp: pump_frames_def)
  then have "(t, ?f) \<in> set (pump_frames l g nid q)" by (metis nth_mem)
  then have "js_get (pump_frames l g nid q) t = Some ?f" by (simp add: js_get_iff)
  then show ?thesis by auto
qed

lemma pump_count_le: "pump_count m act q \<le> length q"
  by (simp add: pump_count_def)

lemma pump_base:
  assumes base: "cq_base P s" and st: "js_get (lanes s) l = Some st"
  shows "cq_base (\<lambda>x. P x \<or> x = l) (pump l now s)"
proof -
  let ?k = "pump_count (ls_max_concurrent st) (ls_active st) (ls_queue st)"
  let ?st = "st\<lparr>ls_queue := drop ?k (ls_queue st),
               ls_active := ls_active st @ [next_task_id s..<next_task_id s + ?k], ls_draining := False\<rparr>"
  let ?F = "pump_frames l (ls_generation st) (next_task_id s) (take ?k (ls_queue st))"
  have keys: "set (js_keys ?F) = {next_task_id s..<next_task_id s + ?k}"
    by (simp add: pump_count_le min_absorb2)
  have old: "\<forall>t \<in> set (js_keys (frames s)). t < next_task_id s" and wf: "js_wf (frames s)"
    using base by (auto simp: cq_base_def)
  have act_lt: "t < next_task_id s" if "js_get (lanes s) l' = Some st'" "t \<in> set (ls_active st')" for l' st' t
    using base that old by (fastforce simp: cq_base_def dest: js_get_Some_in)
  have get_old: "js_get (frames s @ ?F) t = Some f" if "js_get (frames s) t = Some f" for t f
    using that by (simp add: map_add_def)
  have get_new: "\<exists>f. js_get (frames s @ ?F) t = Some f \<and> fr_lane f = l \<and> fr_generation f = ls_generation st"
    if "next_task_id s \<le> t" "t < next_task_id s + ?k" for t
  proof -
    have "js_get (frames s) t = None" using old that by (subst js_get_None_keys) fastforce
    then show ?thesis
      using pump_frames_get [of "next_task_id s" t "take ?k (ls_queue st)" l "ls_generation st"] that
      by (simp add: map_add_def pump_count_le min_absorb2 split: option.split)
  qed
  have core: "lane_core (next_queue_sequence s) ?st"
    using base st by (auto simp: cq_base_def lane_core_def sorted_wrt_drop dest: in_set_dropD act_lt [OF st])
  have settled: "lane_settled ?st"
    by (auto simp: lane_settled_def pump_count_def)
  have fwf: "js_wf (frames s @ ?F)"
    using wf old by (auto simp: pump_count_le min_absorb2)
  have fold: "\<forall>t \<in> set (js_keys (frames s @ ?F)). t < next_task_id s + ?k"
    using old keys by (auto simp: trans_less_add1)
  have frs: "\<exists>f. js_get (frames s @ ?F) t = Some f \<and> fr_lane f = l' \<and> fr_generation f = ls_generation st'"
    if hyp: "js_get (js_set l ?st (lanes s)) l' = Some st'" "t \<in> set (ls_active st')" for l' st' t
  proof (cases "l' = l \<and> next_task_id s \<le> t")
    case True
    then have "t < next_task_id s + ?k"
      using hyp act_lt [OF st, of t] by auto
    with True have "\<exists>f. js_get (frames s @ ?F) t = Some f \<and> fr_lane f = l \<and> fr_generation f = ls_generation st"
      by (intro get_new) simp_all
    moreover have "ls_generation st' = ls_generation st" using hyp True by auto
    ultimately show ?thesis using True by metis
  next
    case False
    then obtain st0 where "js_get (lanes s) l' = Some st0" "t \<in> set (ls_active st0)"
      "ls_generation st0 = ls_generation st'" using hyp st by (auto split: if_splits)
    then show ?thesis using base get_old by (fastforce simp: cq_base_def)
  qed
  show ?thesis
    unfolding pump_closed [OF base st] cq_base_def
    using base core settled fwf fold frs by (auto simp: cq_base_def)
qed

lemma put_lane_base:
  assumes "cq_base P s" and "lane_core (next_queue_sequence s) st"
    and "\<forall>t \<in> set (ls_active st). \<exists>f. js_get (frames s) t = Some f \<and> fr_lane f = l \<and>
            fr_generation f = ls_generation st"
  shows "cq_base (\<lambda>x. P x \<and> x \<noteq> l) (put_lane l st s)"
    and "lane_settled st \<Longrightarrow> cq_base P (put_lane l st s)"
  using assms by (auto simp: cq_base_def put_lane_def)

lemma get_lane_state_base:
  assumes "cq_base P s" and "get_lane_state l s = (s1, st)"
  shows "cq_base P s1" and "js_get (lanes s1) l = Some st"
    and "next_queue_sequence s1 = next_queue_sequence s" and "frames s1 = frames s"
    and "active_task_waiters s1 = active_task_waiters s" and "cq_trace s1 = cq_trace s"
    and "next_task_id s1 = next_task_id s"
proof -
  have "new_lane = st \<or> js_get (lanes s) l = Some st" and "s1 = s \<or> s1 = put_lane l new_lane s"
    using assms(2) by (auto simp: get_lane_state_def put_lane_def split: option.splits)
  moreover have "cq_base P (put_lane l new_lane s)"
    by (rule put_lane_base(2) [OF assms(1)]) (simp_all add: new_lane_def lane_core_def lane_settled_def)
  ultimately show "cq_base P s1" using assms(1) by auto
  show "js_get (lanes s1) l = Some st" and "next_queue_sequence s1 = next_queue_sequence s"
    and "frames s1 = frames s"
    and "active_task_waiters s1 = active_task_waiters s" and "cq_trace s1 = cq_trace s"
    and "next_task_id s1 = next_task_id s"
    using assms(2) by (auto simp: get_lane_state_def split: option.splits)
qed

lemma get_lane_state_present: "js_get (lanes s) l = Some st \<Longrightarrow> get_lane_state l s = (s, st)"
  by (simp add: get_lane_state_def)

text \<open>Draining a lane that is not being drained settles it and disturbs no other lane.\<close>

lemma drain_lane_eq:
  assumes "cq_base P s" and "js_get (lanes s) l = Some st" and "\<not> ls_draining st"
  shows "drain_lane l now s = pump l now s"
proof -
  let ?s = "put_lane l (st\<lparr>ls_draining := True\<rparr>) s"
  have b: "cq_base (\<lambda>_. False) ?s"
    using assms(1,2) by (auto simp: cq_base_def put_lane_def lane_core_def)
  have b0: "cq_base (\<lambda>_. False) s" using assms(1) by (auto simp: cq_base_def)
  have g: "js_get (lanes ?s) l = Some (st\<lparr>ls_draining := True\<rparr>)" by (simp add: put_lane_def)
  have twice: "js_set l a (js_set l b m) = js_set l a m" for a b :: lane_state and m
    by (induction m) auto
  show ?thesis
    using pump_closed [OF b g, of now] pump_closed [OF b0 assms(2), of now]
    by (simp add: drain_lane_def get_lane_state_present [OF assms(2)] assms(3) put_lane_def twice)
qed

lemma drain_lane_base:
  assumes "cq_base P s" and "js_get (lanes s) l = Some st" and "\<not> ls_draining st"
  shows "cq_base (\<lambda>x. P x \<or> x = l) (drain_lane l now s)"
  using pump_base [OF assms(1,2)] by (simp add: drain_lane_eq [OF assms])

section \<open>Waiters\<close>

definition pending_ids :: "command_queue \<Rightarrow> nat list \<Rightarrow> bool" where
  "pending_ids s ids \<longleftrightarrow> ids \<noteq> [] \<and> has_pending_active_tasks ids s"

lemma notify_fold:
  assumes "distinct (map fst ws)" and "js_wf (active_task_waiters s)"
    and "\<And>w. w \<in> set (map fst ws) \<Longrightarrow> w \<in> set (js_keys (active_task_waiters s))"
  shows "fold (\<lambda>(w, ids) s. if ids = [] \<or> \<not> has_pending_active_tasks ids s
                            then resolve_active_task_waiter w True s else s) ws s =
     s\<lparr>active_task_waiters := filter (\<lambda>p. \<not> (\<exists>ids. (fst p, ids) \<in> set ws \<and> \<not> pending_ids s ids)) (active_task_waiters s),
       cq_trace := cq_trace s @ map (\<lambda>p. WaiterResolved (fst p) True) (filter (\<lambda>p. \<not> pending_ids s (snd p)) ws)\<rparr>"
  using assms
proof (induction ws arbitrary: s)
  case Nil
  then show ?case by simp
next
  case (Cons p ws)
  obtain w ids where p: "p = (w, ids)" by (cases p)
  show ?case
  proof (cases "pending_ids s ids")
    case True
    then show ?thesis using Cons by (auto simp: p pending_ids_def intro!: arg_cong2 [where f = "\<lambda>f a. s\<lparr>active_task_waiters := filter f (active_task_waiters s), cq_trace := a\<rparr>"])
  next
    case False
    let ?s = "s\<lparr>active_task_waiters := js_delete w (active_task_waiters s),
                cq_trace := cq_trace s @ [WaiterResolved w True]\<rparr>"
    have r: "resolve_active_task_waiter w True s = ?s"
      using Cons.prems(3) [of w] by (simp add: p resolve_active_task_waiter_def cq_emit_def)
    have pend: "pending_ids ?s = pending_ids s"
      by (simp add: pending_ids_def has_pending_active_tasks_def fun_eq_iff)
    have IH: "fold (\<lambda>(w, ids) s. if ids = [] \<or> \<not> has_pending_active_tasks ids s
                            then resolve_active_task_waiter w True s else s) ws ?s =
      ?s\<lparr>active_task_waiters := filter (\<lambda>p. \<not> (\<exists>ids. (fst p, ids) \<in> set ws \<and> \<not> pending_ids ?s ids)) (active_task_waiters ?s),
       cq_trace := cq_trace ?s @ map (\<lambda>p. WaiterResolved (fst p) True) (filter (\<lambda>p. \<not> pending_ids ?s (snd p)) ws)\<rparr>"
      using Cons.prems by (intro Cons.IH) (auto simp: p)
    have step: "ids = [] \<or> \<not> has_pending_active_tasks ids s" using False by (auto simp: pending_ids_def)
    have "filter (\<lambda>p. \<not> (\<exists>ids. (fst p, ids) \<in> set ws \<and> \<not> pending_ids s ids)) (js_delete w (active_task_waiters s))
        = filter (\<lambda>q. \<not> (\<exists>ids. (fst q, ids) \<in> set (p # ws) \<and> \<not> pending_ids s ids)) (active_task_waiters s)"
      using False unfolding js_delete_def filter_filter p by (intro filter_cong) auto
    then show ?thesis using step IH unfolding p fold.simps
      by (simp add: r pend False)
  qed
qed

lemma notify_closed:
  assumes "js_wf (active_task_waiters s)"
  shows "notify_active_task_waiters s =
     s\<lparr>active_task_waiters := filter (\<lambda>p. pending_ids s (snd p)) (active_task_waiters s),
       cq_trace := cq_trace s @ map (\<lambda>p. WaiterResolved (fst p) True)
                     (filter (\<lambda>p. \<not> pending_ids s (snd p)) (active_task_waiters s))\<rparr>"
proof -
  have "filter (\<lambda>p. \<not> (\<exists>ids. (fst p, ids) \<in> set (active_task_waiters s) \<and> \<not> pending_ids s ids)) (active_task_waiters s)
      = filter (\<lambda>p. pending_ids s (snd p)) (active_task_waiters s)"
  proof (rule filter_cong [OF refl])
    fix p assume "p \<in> set (active_task_waiters s)"
    moreover have "ids = snd p" if "(fst p, ids) \<in> set (active_task_waiters s)" for ids
      using that assms calculation by (metis js_get_iff option.inject prod.collapse)
    ultimately show "(\<not> (\<exists>ids. (fst p, ids) \<in> set (active_task_waiters s) \<and> \<not> pending_ids s ids)) = pending_ids s (snd p)"
      by (metis prod.collapse)
  qed
  then show ?thesis
    using notify_fold [of "active_task_waiters s" s] assms by (simp add: notify_active_task_waiters_def)
qed

section \<open>Every operation keeps the invariant\<close>

lemma waiters_ok_mono:
  assumes "waiters_ok s" and "active_task_waiters t = active_task_waiters s"
    and "\<And>l st. js_get (lanes s) l = Some st \<Longrightarrow>
           \<exists>st'. js_get (lanes t) l = Some st' \<and> set (ls_active st) \<subseteq> set (ls_active st')"
  shows "waiters_ok t"
  unfolding waiters_ok_def
proof (intro conjI allI impI)
  show "js_wf (active_task_waiters t)" using assms(1,2) by (simp add: waiters_ok_def)
  fix w ids assume "js_get (active_task_waiters t) w = Some ids"
  then have w: "ids \<noteq> [] \<and> (\<exists>l st. js_get (lanes s) l = Some st \<and> set ids \<inter> set (ls_active st) \<noteq> {})"
    using assms(1,2) by (simp add: waiters_ok_def)
  then show "ids \<noteq> []" by simp
  obtain l st where "js_get (lanes s) l = Some st" "set ids \<inter> set (ls_active st) \<noteq> {}" using w by auto
  then show "\<exists>l st. js_get (lanes t) l = Some st \<and> set ids \<inter> set (ls_active st) \<noteq> {}"
    using assms(3) by blast
qed

lemma pump_waiters_ok:
  assumes "cq_base P s" and "js_get (lanes s) l = Some st" and "waiters_ok s"
  shows "waiters_ok (pump l now s)"
  by (rule waiters_ok_mono [OF assms(3)])
     (auto simp: pump_closed [OF assms(1,2)] assms(2))

lemma notify_ok:
  assumes "cq_base P s" and "js_wf (active_task_waiters s)"
  shows "cq_base P (notify_active_task_waiters s)" and "waiters_ok (notify_active_task_waiters s)"
proof -
  have wf: "js_wf (lanes s)" using assms(1) by (simp add: cq_base_def)
  show "cq_base P (notify_active_task_waiters s)"
    using assms(1) by (simp add: notify_closed [OF assms(2)] cq_base_def)
  show "waiters_ok (notify_active_task_waiters s)"
    using assms(2)
    by (auto simp: notify_closed [OF assms(2)] waiters_ok_def distinct_map_filter js_get_filter
        pending_ids_def has_pending_iff [OF wf] split: option.splits if_splits)
qed

lemma notify_frame:
  assumes "js_wf (active_task_waiters s)"
  shows "lanes (notify_active_task_waiters s) = lanes s"
    and "frames (notify_active_task_waiters s) = frames s"
    and "next_task_id (notify_active_task_waiters s) = next_task_id s"
    and "next_queue_sequence (notify_active_task_waiters s) = next_queue_sequence s"
  by (simp_all add: notify_closed [OF assms])

lemma cq_inv_lane:
  assumes "cq_inv s" and "js_get (lanes s) l = Some st"
  shows "lane_core (next_queue_sequence s) st" and "lane_settled st"
    and "\<forall>t \<in> set (ls_active st). \<exists>f. js_get (frames s) t = Some f \<and> fr_lane f = l \<and>
            fr_generation f = ls_generation st"
  using assms by (auto simp: cq_inv_def cq_base_def)

lemma get_lane_state_inv:
  assumes "cq_inv s" and "get_lane_state l s = (s1, st)"
  shows "cq_inv s1"
proof -
  note g = get_lane_state_base [OF assms(1) [unfolded cq_inv_def, THEN conjunct1] assms(2)]
  have "waiters_ok s1"
    by (rule waiters_ok_mono [of s])
      (use assms in \<open>auto simp: cq_inv_def get_lane_state_def split: option.splits if_splits\<close>)
  with g(1) show ?thesis by (simp add: cq_inv_def)
qed

text \<open>Rewriting one lane, keeping its active set, and draining it.\<close>

lemma put_drain_inv:
  assumes inv: "cq_inv s" and st: "js_get (lanes s) l = Some st"
    and core: "lane_core (next_queue_sequence s) st'"
    and act: "ls_active st' = ls_active st" "ls_generation st' = ls_generation st" "\<not> ls_draining st'"
  shows "cq_inv (drain_lane l now (put_lane l st' s))"
proof -
  let ?s = "put_lane l st' s"
  have b: "cq_base (\<lambda>x. True \<and> x \<noteq> l) ?s"
    by (rule put_lane_base(1))
      (use inv st core act cq_inv_lane(3) [OF inv st] in \<open>auto simp: cq_inv_def\<close>)
  have g: "js_get (lanes ?s) l = Some st'" by (simp add: put_lane_def)
  have w: "waiters_ok ?s"
    by (rule waiters_ok_mono [of s]) (use inv st act in \<open>auto simp: cq_inv_def put_lane_def\<close>)
  have "cq_base (\<lambda>x. (True \<and> x \<noteq> l) \<or> x = l) (drain_lane l now ?s)"
    by (rule drain_lane_base [OF b g act(3)])
  then have "cq_base (\<lambda>_. True) (drain_lane l now ?s)" by (rule cq_base_mono) auto
  moreover have "waiters_ok (drain_lane l now ?s)"
    using pump_waiters_ok [OF b g w] by (simp add: drain_lane_eq [OF b g act(3)])
  ultimately show ?thesis by (simp add: cq_inv_def)
qed

lemma put_inv:
  assumes inv: "cq_inv s" and st: "js_get (lanes s) l = Some st"
    and core: "lane_core (next_queue_sequence s) st'" and settled: "lane_settled st'"
    and act: "ls_active st' = ls_active st" "ls_generation st' = ls_generation st"
  shows "cq_inv (put_lane l st' s)"
proof -
  have "cq_base (\<lambda>_. True) (put_lane l st' s)"
    by (rule put_lane_base(2))
      (use inv st core settled act cq_inv_lane(3) [OF inv st] in \<open>auto simp: cq_inv_def\<close>)
  moreover have "waiters_ok (put_lane l st' s)"
    by (rule waiters_ok_mono [of s]) (use inv st act in \<open>auto simp: cq_inv_def put_lane_def\<close>)
  ultimately show ?thesis by (simp add: cq_inv_def)
qed

lemma cq_inv_emit [simp]: "cq_inv (cq_emit es s) = cq_inv s"
  by (simp add: cq_inv_def cq_base_def waiters_ok_def cq_emit_def)

lemma set_concurrency_inv:
  assumes "cq_inv s"
  shows "cq_inv (set_command_lane_concurrency lane m now s)"
proof -
  obtain s1 st where g: "get_lane_state (normalize_lane lane) s = (s1, st)" by (cases "get_lane_state (normalize_lane lane) s")
  have inv1: "cq_inv s1" by (rule get_lane_state_inv [OF assms g])
  have st: "js_get (lanes s1) (normalize_lane lane) = Some st"
    using get_lane_state_base(2) assms g by (auto simp: cq_inv_def)
  let ?m = "max (if is_quiet_probe_lane (normalize_lane lane) then 1 else 0) \<lfloor>m\<rfloor>"
  note lane = cq_inv_lane [OF inv1 st]
  have core: "lane_core (next_queue_sequence s1) (st\<lparr>ls_max_concurrent := ?m\<rparr>)"
    using lane(1) by (simp add: lane_core_def)
  show ?thesis
  proof (cases "?m > 0")
    case True
    then show ?thesis
      using put_drain_inv [OF inv1 st core] lane(2)
      by (simp add: set_command_lane_concurrency_def g Let_def lane_settled_def)
  next
    case False
    then have "lane_settled (st\<lparr>ls_max_concurrent := ?m\<rparr>)"
      using lane(2) by (auto simp: lane_settled_def)
    then show ?thesis
      using put_inv [OF inv1 st core] False
      by (simp add: set_command_lane_concurrency_def g Let_def)
  qed
qed

lemma lane_core_Suc: "lane_core n st \<Longrightarrow> lane_core (Suc n) st"
  by (erule lane_core_mono) simp

lemma put_lane_emit: "put_lane l st (cq_emit es s) = cq_emit es (put_lane l st s)"
  by (simp add: put_lane_def cq_emit_def)

text \<open>The state of an accepted enqueue before the drain.\<close>

definition enqueued_lane :: "nat \<Rightarrow> enqueue_options \<Rightarrow> int \<Rightarrow> lane_state \<Rightarrow> command_queue \<Rightarrow> lane_state" where
  "enqueued_lane task opts now st s1 = enqueue_lane_entry st (make_entry task opts now (next_queue_sequence s1))"

definition enqueued :: "string \<Rightarrow> nat \<Rightarrow> enqueue_options \<Rightarrow> int \<Rightarrow> lane_state \<Rightarrow> command_queue \<Rightarrow> command_queue" where
  "enqueued l task opts now st s1 =
     cq_emit [LaneEnqueued task l (lane_depth (enqueued_lane task opts now st s1))]
       (put_lane l (enqueued_lane task opts now st s1) (s1\<lparr>next_queue_sequence := Suc (next_queue_sequence s1)\<rparr>))"

lemma enqueue_eq:
  "get_lane_state (normalize_lane lane) s = (s1, st) \<Longrightarrow>
   enqueue_command_in_lane False lane task opts now s =
     drain_lane (normalize_lane lane) now (enqueued (normalize_lane lane) task opts now st s1)"
  by (simp add: enqueue_command_in_lane_def enqueued_def enqueued_lane_def Let_def)

lemma enqueue_closed_eq [simp]:
  "enqueue_command_in_lane True lane task opts now s = cq_emit [TaskRejected task GatewayDraining] s"
  by (simp add: enqueue_command_in_lane_def)

lemma enqueued_lane_frame [simp]:
  "ls_active (enqueued_lane task opts now st s1) = ls_active st"
  "ls_generation (enqueued_lane task opts now st s1) = ls_generation st"
  "ls_draining (enqueued_lane task opts now st s1) = ls_draining st"
  "ls_max_concurrent (enqueued_lane task opts now st s1) = ls_max_concurrent st"
  by (simp_all add: enqueued_lane_def enqueue_lane_entry_def Let_def)

lemma enqueued_start:
  assumes "cq_inv s1" and st: "js_get (lanes s1) l = Some st"
  shows "cq_base (\<lambda>x. True \<and> x \<noteq> l) (enqueued l task opts now st s1)"
    and "js_get (lanes (enqueued l task opts now st s1)) l = Some (enqueued_lane task opts now st s1)"
    and "\<not> ls_draining (enqueued_lane task opts now st s1)"
    and "waiters_ok (enqueued l task opts now st s1)"
proof -
  let ?s = "s1\<lparr>next_queue_sequence := Suc (next_queue_sequence s1)\<rparr>"
  let ?st = "enqueued_lane task opts now st s1"
  have base: "cq_base (\<lambda>_. True) ?s" and w: "waiters_ok ?s"
    using assms(1) by (auto simp: cq_inv_def cq_base_def waiters_ok_def intro: lane_core_Suc)
  have core: "lane_core (next_queue_sequence ?s) ?st"
    using enqueue_lane_entry_core [of "make_entry task opts now (next_queue_sequence s1)" st] cq_inv_lane(1) [OF assms]
    by (simp add: make_entry_def enqueued_lane_def comp_def)
  have "cq_base (\<lambda>x. True \<and> x \<noteq> l) (put_lane l ?st ?s)"
    by (rule put_lane_base(1) [OF base core]) (use cq_inv_lane(3) [OF assms] in simp)
  then show "cq_base (\<lambda>x. True \<and> x \<noteq> l) (enqueued l task opts now st s1)"
    by (simp add: enqueued_def cq_emit_def cq_base_def)
  show "js_get (lanes (enqueued l task opts now st s1)) l = Some ?st"
    by (simp add: enqueued_def cq_emit_def put_lane_def)
  show "\<not> ls_draining ?st" using cq_inv_lane(2) [OF assms] by (simp add: lane_settled_def)
  show "waiters_ok (enqueued l task opts now st s1)"
    by (rule waiters_ok_mono [OF w]) (auto simp: enqueued_def cq_emit_def put_lane_def st)
qed

lemma enqueue_inv:
  assumes "cq_inv s"
  shows "cq_inv (enqueue_command_in_lane gate_closed lane task opts now s)"
proof (cases gate_closed)
  case True
  then show ?thesis using assms by simp
next
  case False
  let ?l = "normalize_lane lane"
  obtain s1 st where g: "get_lane_state ?l s = (s1, st)" by (cases "get_lane_state ?l s")
  have inv1: "cq_inv s1" by (rule get_lane_state_inv [OF assms g])
  have st: "js_get (lanes s1) ?l = Some st"
    using get_lane_state_base(2) assms g by (auto simp: cq_inv_def)
  note e = enqueued_start [OF inv1 st, of task opts now]
  have "cq_base (\<lambda>_. True) (drain_lane ?l now (enqueued ?l task opts now st s1))"
    using drain_lane_base [OF e(1-3)] by (rule cq_base_mono) auto
  moreover have "waiters_ok (drain_lane ?l now (enqueued ?l task opts now st s1))"
    using pump_waiters_ok [OF e(1,2,4)] by (simp add: drain_lane_eq [OF e(1-3)])
  ultimately show ?thesis using False by (simp add: enqueue_eq [OF g] cq_inv_def)
qed

lemma clear_lane_inv:
  assumes "cq_inv s"
  shows "cq_inv (fst (clear_command_lane lane s))"
proof (cases "js_get (lanes s) (normalize_lane lane)")
  case None
  then show ?thesis using assms by (simp add: clear_command_lane_def Let_def)
next
  case (Some st)
  have "cq_inv (put_lane (normalize_lane lane) (st\<lparr>ls_queue := []\<rparr>) s)"
    by (rule put_inv [OF assms Some])
      (use cq_inv_lane [OF assms Some] in \<open>auto simp: lane_core_def lane_settled_def\<close>)
  then show ?thesis using Some by (simp add: clear_command_lane_def Let_def)
qed

text \<open>
  A task that settles frees its slot only when its generation is still the lane's; otherwise the
  lane cannot hold it as active any more.
\<close>

lemma complete_task_unused:
  assumes "cq_inv s" and "js_get (lanes s) (fr_lane f) = Some st" and "js_get (frames s) i = Some f"
  shows "i \<notin> set (ls_active (fst (complete_task st i (fr_generation f))))"
proof -
  have "fr_generation f = ls_generation st" if "i \<in> set (ls_active st)"
    using cq_inv_lane(3) [OF assms(1,2)] assms(3) that by auto
  then show ?thesis by (auto simp: complete_task_def)
qed

lemma cq_base_close:
  assumes "cq_base (\<lambda>x. P x \<and> x \<noteq> l) s" and "js_get (lanes s) l = Some st" and "lane_settled st"
  shows "cq_base P s"
  using assms unfolding cq_base_def by (metis option.inject)

lemma task_frame_unused:
  assumes "cq_inv s" and "js_get (lanes s) l = Some st" and "js_get (frames s) i = Some f" and "l \<noteq> fr_lane f"
  shows "i \<notin> set (ls_active st)"
  using cq_inv_lane(3) [OF assms(1,2)] assms(3,4) by fastforce

text \<open>The state of a completion before notification and pump.\<close>

definition completed :: "nat \<Rightarrow> frame \<Rightarrow> lane_state \<Rightarrow> command_queue \<Rightarrow> command_queue" where
  "completed i f st s1 =
     put_lane (fr_lane f) (fst (complete_task st i (fr_generation f))) (s1\<lparr>frames := js_delete i (frames s1)\<rparr>)"

definition outcome :: "bool \<Rightarrow> frame \<Rightarrow> cq_effect" where
  "outcome ok f = (if ok then TaskResolved (qe_task (fr_entry f)) else TaskRejected (qe_task (fr_entry f)) TaskFailed)"

lemma completed_get: "js_get (lanes (completed i f st s1)) (fr_lane f) = Some (fst (complete_task st i (fr_generation f)))"
  by (simp add: completed_def put_lane_def)

lemma task_settled_eq:
  assumes "js_get (frames s) i = Some f" and "get_lane_state (fr_lane f) s = (s1, st)"
  shows "task_settled now i ok s =
     cq_emit [outcome ok f]
       (if fr_generation f = ls_generation st
        then pump (fr_lane f) now (notify_active_task_waiters (completed i f st s1))
        else completed i f st s1)"
proof -
  have "get_lane_state (fr_lane f) (s\<lparr>frames := js_delete i (frames s)\<rparr>) = (s1\<lparr>frames := js_delete i (frames s1)\<rparr>, st)"
    using assms(2) by (auto simp: get_lane_state_def split: option.splits)
  then show ?thesis
    by (simp add: task_settled_def assms(1) Let_def complete_task_def completed_def outcome_def split: prod.splits)
qed

lemma completed_base:
  assumes inv1: "cq_inv s1" and st: "js_get (lanes s1) (fr_lane f) = Some st" and frame: "js_get (frames s1) i = Some f"
  shows "cq_base (\<lambda>x. True \<and> x \<noteq> fr_lane f) (completed i f st s1)"
    and "js_wf (active_task_waiters (completed i f st s1))"
proof -
  let ?l = "fr_lane f"
  let ?st = "fst (complete_task st i (fr_generation f))"
  let ?s2 = "completed i f st s1"
  have core: "lane_core (next_queue_sequence s1) ?st"
    using cq_inv_lane(1) [OF inv1 st] by (auto simp: complete_task_def lane_core_def)
  have sub: "set (ls_active ?st) \<subseteq> set (ls_active st)" and gen: "ls_generation ?st = ls_generation st"
    by (auto simp: complete_task_def)
  show "cq_base (\<lambda>x. True \<and> x \<noteq> ?l) ?s2"
    unfolding cq_base_def
  proof (intro conjI allI impI ballI)
    fix l' st' assume l': "js_get (lanes ?s2) l' = Some st'"
    show "lane_core (next_queue_sequence ?s2) st'"
      using l' core cq_inv_lane(1) [OF inv1] by (auto simp: completed_def put_lane_def split: if_splits)
    show "lane_settled st'" if "True \<and> l' \<noteq> ?l"
      using l' that cq_inv_lane(2) [OF inv1] by (auto simp: completed_def put_lane_def)
    fix t assume t: "t \<in> set (ls_active st')"
    show "\<exists>f. js_get (frames ?s2) t = Some f \<and> fr_lane f = l' \<and> fr_generation f = ls_generation st'"
    proof (cases "l' = ?l")
      case True
      then have "st' = ?st" using l' by (simp add: completed_get)
      then have "t \<noteq> i" "t \<in> set (ls_active st)" using t sub complete_task_unused [OF inv1 st frame] by auto
      then show ?thesis using cq_inv_lane(3) [OF inv1 st] True gen \<open>st' = ?st\<close>
        by (auto simp: completed_def put_lane_def)
    next
      case False
      then have o: "js_get (lanes s1) l' = Some st'" using l' by (simp add: completed_def put_lane_def)
      then have "t \<noteq> i" using task_frame_unused [OF inv1 o frame False] t by auto
      then show ?thesis using cq_inv_lane(3) [OF inv1 o] t by (auto simp: completed_def put_lane_def)
    qed
  qed (use inv1 in \<open>auto simp: cq_inv_def cq_base_def completed_def put_lane_def\<close>)
  show "js_wf (active_task_waiters ?s2)"
    using inv1 by (simp add: cq_inv_def waiters_ok_def completed_def put_lane_def)
qed

lemma task_settled_inv:
  assumes "cq_inv s"
  shows "cq_inv (task_settled now i ok s)"
proof (cases "js_get (frames s) i")
  case None
  then show ?thesis using assms by (simp add: task_settled_def)
next
  case (Some f)
  obtain s1 st where g: "get_lane_state (fr_lane f) s = (s1, st)" by (cases "get_lane_state (fr_lane f) s")
  note base = get_lane_state_base [OF assms [unfolded cq_inv_def, THEN conjunct1] g]
  have inv1: "cq_inv s1" by (rule get_lane_state_inv [OF assms g])
  note b = completed_base [OF inv1 base(2) Some [folded base(4)]]
  let ?s2 = "completed i f st s1"
  let ?st = "fst (complete_task st i (fr_generation f))"
  show ?thesis
  proof (cases "fr_generation f = ls_generation st")
    case False
    then have same: "?st = st" by (simp add: complete_task_def)
    have "cq_base (\<lambda>_. True) ?s2"
      by (rule cq_base_close [OF b(1) completed_get]) (simp add: same cq_inv_lane(2) [OF inv1 base(2)])
    moreover have "waiters_ok ?s2"
      by (rule waiters_ok_mono [of s1])
        (use inv1 base(2) same in \<open>auto simp: cq_inv_def completed_def put_lane_def\<close>)
    ultimately have "cq_inv ?s2" by (simp add: cq_inv_def)
    then show ?thesis using False by (simp add: task_settled_eq [OF Some g])
  next
    case True
    note n = notify_ok [OF b]
    have g3: "js_get (lanes (notify_active_task_waiters ?s2)) (fr_lane f) = Some ?st"
      by (simp add: notify_frame [OF b(2)] completed_get)
    have "cq_base (\<lambda>_. True) (pump (fr_lane f) now (notify_active_task_waiters ?s2))"
      using pump_base [OF n(1) g3] by (rule cq_base_mono) simp
    then have "cq_inv (pump (fr_lane f) now (notify_active_task_waiters ?s2))"
      using pump_waiters_ok [OF n(1) g3 n(2)] by (simp add: cq_inv_def)
    then show ?thesis using True by (simp add: task_settled_eq [OF Some g])
  qed
qed

lemma drain_lane_frame:
  assumes "cq_base P s" and "js_get (lanes s) l = Some st" and "\<not> ls_draining st"
  shows "active_task_waiters (drain_lane l now s) = active_task_waiters s"
    and "l' \<noteq> l \<Longrightarrow> js_get (lanes (drain_lane l now s)) l' = js_get (lanes s) l'"
  by (simp_all add: drain_lane_eq [OF assms] pump_closed [OF assms(1,2)])

lemma reset_start:
  assumes "cq_inv s" and "js_get (lanes s) l = Some st"
  shows "cq_base (\<lambda>x. True \<and> x \<noteq> l) (put_lane l (idle_lane st) s)"
    and "js_get (lanes (put_lane l (idle_lane st) s)) l = Some (idle_lane st)"
    and "\<not> ls_draining (idle_lane st)"
    and "ls_queue st = [] \<Longrightarrow> cq_base (\<lambda>_. True) (put_lane l (idle_lane st) s)"
    and "js_wf (active_task_waiters (put_lane l (idle_lane st) s))"
proof -
  have base: "cq_base (\<lambda>_. True) s" using assms by (simp add: cq_inv_def)
  have core: "lane_core (next_queue_sequence s) (idle_lane st)"
    using cq_inv_lane(1) [OF assms] by (simp add: lane_core_def idle_lane_def)
  show b: "cq_base (\<lambda>x. True \<and> x \<noteq> l) (put_lane l (idle_lane st) s)"
    by (rule put_lane_base(1) [OF base core]) (simp add: idle_lane_def)
  show g: "js_get (lanes (put_lane l (idle_lane st) s)) l = Some (idle_lane st)" by (simp add: put_lane_def)
  show "\<not> ls_draining (idle_lane st)" by (simp add: idle_lane_def)
  show "cq_base (\<lambda>_. True) (put_lane l (idle_lane st) s)" if "ls_queue st = []"
    by (rule cq_base_close [OF b g]) (simp add: that lane_settled_def idle_lane_def)
  show "js_wf (active_task_waiters (put_lane l (idle_lane st) s))"
    using assms(1) by (simp add: cq_inv_def waiters_ok_def put_lane_def)
qed

lemma reset_lane_inv:
  assumes "cq_inv s"
  shows "cq_inv (fst (reset_command_lane lane now s))"
proof (cases "js_get (lanes s) (normalize_lane lane)")
  case None
  then show ?thesis using assms by (simp add: reset_command_lane_def Let_def)
next
  case (Some st)
  let ?l = "normalize_lane lane"
  let ?s1 = "put_lane ?l (idle_lane st) s"
  let ?s2 = "if ls_queue st \<noteq> [] then drain_lane ?l now ?s1 else ?s1"
  note r = reset_start [OF assms Some]
  have "cq_base (\<lambda>_. True) (drain_lane ?l now ?s1)"
    using drain_lane_base [OF r(1-3)] by (rule cq_base_mono) auto
  then have "cq_base (\<lambda>_. True) ?s2" using r(4) by simp
  moreover have "js_wf (active_task_waiters ?s2)"
    using r(5) drain_lane_frame(1) [OF r(1-3), of now] by simp
  ultimately have "cq_inv (notify_active_task_waiters ?s2)"
    using notify_ok [of "\<lambda>_. True" ?s2] by (simp add: cq_inv_def)
  then show ?thesis using Some by (simp add: reset_command_lane_def Let_def)
qed

text \<open>Draining several lanes in turn settles them all and keeps whatever each drain keeps.\<close>

lemma drain_all_base:
  assumes "cq_base P s" and "distinct ls"
    and "\<And>l. l \<in> set ls \<Longrightarrow> \<exists>st. js_get (lanes s) l = Some st \<and> \<not> ls_draining st"
    and "Q s"
    and keep: "\<And>P t l st. cq_base P t \<Longrightarrow> js_get (lanes t) l = Some st \<Longrightarrow> \<not> ls_draining st \<Longrightarrow> Q t \<Longrightarrow>
                 Q (drain_lane l now t)"
  shows "cq_base (\<lambda>x. P x \<or> x \<in> set ls) (fold (\<lambda>l. drain_lane l now) ls s) \<and>
         Q (fold (\<lambda>l. drain_lane l now) ls s)"
  using assms(1-4)
proof (induction ls arbitrary: s P)
  case Nil
  then show ?case by simp
next
  case (Cons l ls)
  obtain st where st: "js_get (lanes s) l = Some st" "\<not> ls_draining st" using Cons.prems(3) [of l] by auto
  have b: "cq_base (\<lambda>x. P x \<or> x = l) (drain_lane l now s)"
    by (rule drain_lane_base [OF Cons.prems(1) st])
  have rest: "\<exists>st. js_get (lanes (drain_lane l now s)) x = Some st \<and> \<not> ls_draining st" if "x \<in> set ls" for x
  proof -
    have "x \<noteq> l" using that Cons.prems(2) by auto
    then show ?thesis
      using Cons.prems(3) [of x] that drain_lane_frame(2) [OF Cons.prems(1) st, of x now] by simp
  qed
  have d: "distinct ls" using Cons.prems(2) by simp
  have "cq_base (\<lambda>x. (P x \<or> x = l) \<or> x \<in> set ls) (fold (\<lambda>l. drain_lane l now) ls (drain_lane l now s)) \<and>
        Q (fold (\<lambda>l. drain_lane l now) ls (drain_lane l now s))"
    by (rule Cons.IH [OF b d rest keep [OF Cons.prems(1) st Cons.prems(4)]])
  then show ?case by (auto elim: cq_base_mono)
qed

text \<open>The state of \<open>resetAllLanes\<close> between its two loops.\<close>

definition pending_lanes :: "command_queue \<Rightarrow> string list" where
  "pending_lanes s = map fst (filter (\<lambda>(lane, st). ls_queue st \<noteq> []) (lanes s))"

definition idle_all :: "command_queue \<Rightarrow> command_queue" where
  "idle_all s = s\<lparr>lanes := map (\<lambda>(lane, st). (lane, idle_lane st)) (lanes s)\<rparr>"

lemma idle_all_get: "js_get (lanes (idle_all s)) l = map_option idle_lane (js_get (lanes s) l)"
proof -
  have "js_get (map (\<lambda>(lane, st). (lane, idle_lane st)) m) l = map_option idle_lane (js_get m l)" for m
    by (induction m) auto
  then show ?thesis by (simp add: idle_all_def)
qed

lemma reset_all_lanes_eq:
  "reset_all_lanes now s =
   notify_active_task_waiters (fold (\<lambda>lane s. drain_lane lane now s) (pending_lanes s) (idle_all s))"
  by (simp add: reset_all_lanes_def pending_lanes_def idle_all_def Let_def)

lemma reset_all_start:
  assumes "cq_inv s"
  shows "cq_base (\<lambda>l. l \<notin> set (pending_lanes s)) (idle_all s)" and "distinct (pending_lanes s)"
    and "\<And>l. l \<in> set (pending_lanes s) \<Longrightarrow> \<exists>st. js_get (lanes (idle_all s)) l = Some st \<and> \<not> ls_draining st"
proof -
  have wf: "js_wf (lanes s)" using assms by (simp add: cq_inv_def cq_base_def)
  have keys: "js_keys (lanes (idle_all s)) = js_keys (lanes s)"
    by (simp add: idle_all_def case_prod_beta comp_def)
  show "cq_base (\<lambda>l. l \<notin> set (pending_lanes s)) (idle_all s)"
    unfolding cq_base_def
  proof (intro conjI allI impI)
    show "js_wf (lanes (idle_all s))" unfolding keys by (rule wf)
    fix l st' assume "js_get (lanes (idle_all s)) l = Some st'"
    then obtain st where st: "js_get (lanes s) l = Some st" and st': "st' = idle_lane st"
      by (auto simp: idle_all_get)
    show "lane_core (next_queue_sequence (idle_all s)) st'"
      using cq_inv_lane(1) [OF assms st] by (simp add: st' lane_core_def idle_lane_def idle_all_def)
    show "lane_settled st'" if "l \<notin> set (pending_lanes s)"
      using that js_get_Some_in [OF st] by (force simp: st' lane_settled_def idle_lane_def pending_lanes_def)
    show "\<forall>t\<in>set (ls_active st'). \<exists>f. js_get (frames (idle_all s)) t = Some f \<and> fr_lane f = l \<and>
            fr_generation f = ls_generation st'"
      by (simp add: st' idle_lane_def)
  qed (use assms in \<open>auto simp: cq_inv_def cq_base_def idle_all_def\<close>)
  show "\<exists>st. js_get (lanes (idle_all s)) l = Some st \<and> \<not> ls_draining st" if l: "l \<in> set (pending_lanes s)" for l
  proof -
    from l obtain st where "(l, st) \<in> set (lanes s)" by (auto simp: pending_lanes_def)
    then have "js_get (lanes (idle_all s)) l = Some (idle_lane st)" using wf by (simp add: idle_all_get js_get_iff)
    moreover have "\<not> ls_draining (idle_lane st)" by (simp add: idle_lane_def)
    ultimately show ?thesis by blast
  qed
  show "distinct (pending_lanes s)" unfolding pending_lanes_def by (rule js_wf_filter [OF wf])
qed

lemma reset_all_inv:
  assumes "cq_inv s"
  shows "cq_inv (reset_all_lanes now s)"
proof -
  let ?s2 = "fold (\<lambda>l. drain_lane l now) (pending_lanes s) (idle_all s)"
  let ?Q = "\<lambda>t. active_task_waiters t = active_task_waiters s"
  have all: "cq_base (\<lambda>x. x \<notin> set (pending_lanes s) \<or> x \<in> set (pending_lanes s)) ?s2 \<and> ?Q ?s2"
    by (rule drain_all_base [OF reset_all_start [OF assms]]) (simp_all add: idle_all_def drain_lane_frame(1))
  then have "cq_base (\<lambda>_. True) ?s2" by (auto elim: cq_base_mono)
  moreover have "js_wf (active_task_waiters ?s2)" using all assms by (simp add: cq_inv_def waiters_ok_def)
  ultimately have "cq_inv (notify_active_task_waiters ?s2)" using notify_ok by (auto simp: cq_inv_def)
  then show ?thesis by (simp add: reset_all_lanes_eq)
qed

lemma resolve_waiter_inv:
  assumes "cq_inv s"
  shows "cq_inv (resolve_active_task_waiter w b s)"
  using assms by (auto simp: resolve_active_task_waiter_def cq_emit_def cq_inv_def cq_base_def waiters_ok_def)

lemma wait_inv:
  assumes "cq_inv s"
  shows "cq_inv (wait_for_active_tasks timeout w s)"
proof -
  let ?s = "s\<lparr>active_task_waiters := js_set w (active_at_start s) (active_task_waiters s)\<rparr>"
  have "cq_base (\<lambda>_. True) ?s" "js_wf (active_task_waiters ?s)"
    using assms by (auto simp: cq_inv_def cq_base_def waiters_ok_def)
  from notify_ok [OF this] have "cq_inv (notify_active_task_waiters ?s)" by (simp add: cq_inv_def)
  then show ?thesis using assms by (simp add: wait_for_active_tasks_def Let_def)
qed

lemma cq_inv_step [step_inv]: "cq_inv s \<Longrightarrow> cq_inv (cq_step s e)"
  by (cases e) (simp_all add: set_concurrency_inv enqueue_inv task_settled_inv clear_lane_inv
    reset_lane_inv reset_all_inv wait_inv waiter_timed_out_def resolve_waiter_inv)

lemma cq_inv_initial [simp]: "cq_inv initial_command_queue"
  by (simp add: initial_command_queue_def cq_inv_def cq_base_def waiters_ok_def)

interpretation cq: invariant_machine cq_step cq_inv
  by unfold_locales (rule cq_inv_step)

end
