(* ===== verification/Command_Queue_Runs.thy ===== *)
theory Command_Queue_Runs
  imports Command_Queue_Inv
begin

text \<open>
  What the operations of the command queue preserve or bound beyond its invariant: the balance of
  accepted, queued, running and settled tasks, the number of running tasks of a lane, and the
  monotone lane generations. Each is one lemma per operation, joined into a step lemma.
\<close>

section \<open>Conservation of tasks\<close>

definition queued_of :: "(string, lane_state) js_map \<Rightarrow> nat list" where
  "queued_of m = concat (map (\<lambda>p. map qe_task (ls_queue (snd p))) m)"

definition running_of :: "(nat, frame) js_map \<Rightarrow> nat list" where
  "running_of m = map (\<lambda>p. qe_task (fr_entry (snd p))) m"

definition stock :: "command_queue \<Rightarrow> nat multiset" where
  "stock s = mset (queued_of (lanes s)) + mset (running_of (frames s))"

definition balanced :: "command_queue \<Rightarrow> bool" where
  "balanced s \<longleftrightarrow> mset (accepted_of (cq_trace s)) = stock s + mset (settled_of (cq_trace s))"

lemma queued_of_set:
  "js_get m l = Some st \<Longrightarrow>
   mset (queued_of (js_set l st' m)) + mset (map qe_task (ls_queue st)) =
   mset (queued_of m) + mset (map qe_task (ls_queue st'))"
  by (induction m) (auto simp: queued_of_def)

lemma queued_of_set_new: "js_get m l = None \<Longrightarrow> queued_of (js_set l new_lane m) = queued_of m"
  by (induction m) (auto simp: queued_of_def new_lane_def split: if_splits)

lemma running_of_delete:
  "js_wf m \<Longrightarrow> js_get m i = Some f \<Longrightarrow>
   mset (running_of m) = add_mset (qe_task (fr_entry f)) (mset (running_of (js_delete i m)))"
proof (induction m)
  case (Cons p m)
  obtain j g where p: "p = (j, g)" by (cases p)
  show ?case
  proof (cases "j = i")
    case True
    then show ?thesis using Cons.prems by (simp add: p running_of_def js_delete_absent)
  next
    case False
    then show ?thesis using Cons by (simp add: p running_of_def)
  qed
qed simp

lemma stock_get_lane:
  "get_lane_state l s = (s1, st) \<Longrightarrow> stock s1 = stock s"
  by (auto simp: get_lane_state_def stock_def queued_of_set_new split: option.splits)

lemma stock_put_lane:
  "js_get (lanes s) l = Some st \<Longrightarrow>
   stock (put_lane l st' s) + mset (map qe_task (ls_queue st)) = stock s + mset (map qe_task (ls_queue st'))"
  using queued_of_set [of "lanes s" l st st'] by (simp add: stock_def put_lane_def ac_simps)

lemma stock_put_lane_same:
  "js_get (lanes s) l = Some st \<Longrightarrow> ls_queue st' = ls_queue st \<Longrightarrow> stock (put_lane l st' s) = stock s"
  using stock_put_lane [of s l st st'] by simp

lemma stock_emit [simp]: "stock (cq_emit es s) = stock s"
  by (simp add: stock_def cq_emit_def)

lemma stock_pump:
  assumes "cq_base P s" and "js_get (lanes s) l = Some st"
  shows "stock (pump l now s) = stock s"
    and "accepted_of (cq_trace (pump l now s)) = accepted_of (cq_trace s)"
    and "settled_of (cq_trace (pump l now s)) = settled_of (cq_trace s)"
proof -
  let ?k = "pump_count (ls_max_concurrent st) (ls_active st) (ls_queue st)"
  let ?st = "st\<lparr>ls_queue := drop ?k (ls_queue st),
    ls_active := ls_active st @ [next_task_id s..<next_task_id s + ?k], ls_draining := False\<rparr>"
  let ?F = "pump_frames l (ls_generation st) (next_task_id s) (take ?k (ls_queue st))"
  have F: "running_of ?F = map qe_task (take ?k (ls_queue st))"
    by (simp add: running_of_def pump_frames_def pump_count_le min_absorb2 zip_map2 case_prod_beta comp_def
        flip: map_map [of _ snd, unfolded comp_def])
  have q: "mset (map qe_task (ls_queue st)) =
      mset (map qe_task (take ?k (ls_queue st))) + mset (map qe_task (drop ?k (ls_queue st)))"
    by (metis append_take_drop_id map_append mset_append)
  have "mset (queued_of (js_set l ?st (lanes s))) + mset (map qe_task (ls_queue st)) =
      mset (queued_of (lanes s)) + mset (map qe_task (drop ?k (ls_queue st)))"
    using queued_of_set [OF assms(2), of ?st] by simp
  then have "mset (queued_of (js_set l ?st (lanes s))) + mset (running_of ?F) = mset (queued_of (lanes s))"
    unfolding F q by simp
  then show "stock (pump l now s) = stock s"
    unfolding pump_closed [OF assms] by (simp add: stock_def running_of_def)
  show "accepted_of (cq_trace (pump l now s)) = accepted_of (cq_trace s)"
    and "settled_of (cq_trace (pump l now s)) = settled_of (cq_trace s)"
    by (simp_all add: pump_closed [OF assms])
qed

lemma balanced_same:
  "balanced s \<Longrightarrow> stock t = stock s \<Longrightarrow> accepted_of (cq_trace t) = accepted_of (cq_trace s) \<Longrightarrow>
   settled_of (cq_trace t) = settled_of (cq_trace s) \<Longrightarrow> balanced t"
  by (simp add: balanced_def)

lemma balanced_drain:
  assumes "cq_base P s" and "js_get (lanes s) l = Some st" and "\<not> ls_draining st" and "balanced s"
  shows "balanced (drain_lane l now s)"
  unfolding drain_lane_eq [OF assms(1-3)]
  by (rule balanced_same [OF assms(4)]) (simp_all add: stock_pump [OF assms(1,2)])

lemma balanced_notify: "js_wf (active_task_waiters s) \<Longrightarrow> balanced s \<Longrightarrow> balanced (notify_active_task_waiters s)"
  by (rule balanced_same [of s]) (simp_all add: notify_closed stock_def)

lemma balanced_put_same:
  "js_get (lanes s) l = Some st \<Longrightarrow> ls_queue st' = ls_queue st \<Longrightarrow> balanced s \<Longrightarrow> balanced (put_lane l st' s)"
  by (erule balanced_same) (simp_all add: stock_put_lane_same, simp_all add: put_lane_def)

lemma balanced_get_lane:
  "get_lane_state l s = (s1, st) \<Longrightarrow> balanced s \<Longrightarrow> balanced s1"
  by (rule balanced_same [of s]) (simp_all add: stock_get_lane, auto simp: get_lane_state_def split: option.splits)

lemma put_lane_base_same:
  assumes "cq_inv s" and "js_get (lanes s) l = Some st" and "ls_queue st' = ls_queue st"
    and "ls_active st' = ls_active st" and "ls_generation st' = ls_generation st"
  shows "cq_base (\<lambda>x. True \<and> x \<noteq> l) (put_lane l st' s)"
  by (rule put_lane_base(1))
    (use assms cq_inv_lane [OF assms(1,2)] in \<open>auto simp: cq_inv_def lane_core_def\<close>)

lemma set_concurrency_balanced:
  assumes "cq_inv s" and "balanced s"
  shows "balanced (set_command_lane_concurrency lane m now s)"
proof -
  let ?l = "normalize_lane lane"
  obtain s1 st where g: "get_lane_state ?l s = (s1, st)" by (cases "get_lane_state ?l s")
  have inv1: "cq_inv s1" by (rule get_lane_state_inv [OF assms(1) g])
  have st: "js_get (lanes s1) ?l = Some st"
    using get_lane_state_base(2) assms g by (auto simp: cq_inv_def)
  have idle: "\<not> ls_draining st" using cq_inv_lane(2) [OF inv1 st] by (simp add: lane_settled_def)
  let ?st = "st\<lparr>ls_max_concurrent := max (if is_quiet_probe_lane ?l then 1 else 0) \<lfloor>m\<rfloor>\<rparr>"
  have b: "balanced (put_lane ?l ?st s1)"
    by (rule balanced_put_same [OF st]) (simp_all add: balanced_get_lane [OF g assms(2)])
  have d: "balanced (drain_lane ?l now (put_lane ?l ?st s1))"
    by (rule balanced_drain [OF put_lane_base_same [OF inv1 st], where st = ?st])
      (use b idle in \<open>simp_all add: put_lane_def\<close>)
  show ?thesis using b d by (simp add: set_command_lane_concurrency_def g Let_def)
qed

lemma mset_enqueue_lane_entry:
  "mset (map qe_task (ls_queue (enqueue_lane_entry st e))) = add_mset (qe_task e) (mset (map qe_task (ls_queue st)))"
proof -
  have "mset (map qe_task (take i q)) + mset (map qe_task (drop i q)) = mset (map qe_task q)" for i q
    by (metis append_take_drop_id map_append mset_append)
  then show ?thesis by (simp add: enqueue_lane_entry_def Let_def)
qed

lemma enqueue_balanced:
  assumes "cq_inv s" and "balanced s"
  shows "balanced (enqueue_command_in_lane gate_closed lane task opts now s)"
proof (cases gate_closed)
  case True
  then show ?thesis using assms(2) by (simp add: balanced_def) (simp add: cq_emit_def)
next
  case False
  let ?l = "normalize_lane lane"
  obtain s1 st where g: "get_lane_state ?l s = (s1, st)" by (cases "get_lane_state ?l s")
  have inv1: "cq_inv s1" by (rule get_lane_state_inv [OF assms(1) g])
  have st: "js_get (lanes s1) ?l = Some st"
    using get_lane_state_base(2) assms g by (auto simp: cq_inv_def)
  let ?st = "enqueued_lane task opts now st s1"
  let ?s = "enqueued ?l task opts now st s1"
  have bal1: "balanced s1" by (rule balanced_get_lane [OF g assms(2)])
  have "stock ?s + mset (map qe_task (ls_queue st)) = stock s1 + mset (map qe_task (ls_queue ?st))"
    using stock_put_lane [of "s1\<lparr>next_queue_sequence := Suc (next_queue_sequence s1)\<rparr>" ?l st ?st] st
    by (simp add: enqueued_def stock_def cq_emit_def)
  then have k: "stock ?s = add_mset task (stock s1)"
    unfolding enqueued_lane_def mset_enqueue_lane_entry by (simp add: make_entry_def)
  have "balanced ?s" using bal1 k by (simp add: balanced_def enqueued_def put_lane_def cq_emit_def)
  then have "balanced (drain_lane ?l now ?s)" by (rule balanced_drain [OF enqueued_start(1-3) [OF inv1 st]])
  then show ?thesis using False by (simp add: enqueue_eq [OF g])
qed

lemma clear_lane_balanced:
  assumes "balanced s"
  shows "balanced (fst (clear_command_lane lane s))"
proof (cases "js_get (lanes s) (normalize_lane lane)")
  case None
  then show ?thesis using assms by (simp add: clear_command_lane_def Let_def)
next
  case (Some st)
  have "stock (put_lane (normalize_lane lane) (st\<lparr>ls_queue := []\<rparr>) s) + mset (map qe_task (ls_queue st)) = stock s"
    using stock_put_lane [OF Some, of "st\<lparr>ls_queue := []\<rparr>"] by simp
  then show ?thesis using Some assms
    by (simp add: clear_command_lane_def Let_def balanced_def cq_emit_def put_lane_def stock_def ac_simps)
qed

lemma reset_lane_balanced:
  assumes "cq_inv s" and "balanced s"
  shows "balanced (fst (reset_command_lane lane now s))"
proof (cases "js_get (lanes s) (normalize_lane lane)")
  case None
  then show ?thesis using assms by (simp add: reset_command_lane_def Let_def)
next
  case (Some st)
  let ?l = "normalize_lane lane"
  let ?s1 = "put_lane ?l (idle_lane st) s"
  let ?s2 = "if ls_queue st \<noteq> [] then drain_lane ?l now ?s1 else ?s1"
  note r = reset_start [OF assms(1) Some]
  have bal1: "balanced ?s1"
    by (rule balanced_put_same [OF Some _ assms(2)]) (simp add: idle_lane_def)
  have bal2: "balanced ?s2" using bal1 balanced_drain [OF r(1-3) bal1] by simp
  have "js_wf (active_task_waiters ?s2)" using r(5) drain_lane_frame(1) [OF r(1-3), of now] by simp
  then show ?thesis using Some balanced_notify [OF _ bal2] by (simp add: reset_command_lane_def Let_def)
qed

lemma reset_all_balanced:
  assumes "cq_inv s" and "balanced s"
  shows "balanced (reset_all_lanes now s)"
proof -
  let ?s2 = "fold (\<lambda>l. drain_lane l now) (pending_lanes s) (idle_all s)"
  let ?Q = "\<lambda>t. balanced t \<and> active_task_waiters t = active_task_waiters s"
  have "queued_of (map (\<lambda>(lane, st). (lane, idle_lane st)) m) = queued_of m" for m
    by (induction m) (auto simp: queued_of_def idle_lane_def)
  then have start: "?Q (idle_all s)" using assms(2) by (simp add: balanced_def stock_def idle_all_def)
  have "cq_base (\<lambda>x. x \<notin> set (pending_lanes s) \<or> x \<in> set (pending_lanes s)) ?s2 \<and> ?Q ?s2"
    by (rule drain_all_base [OF reset_all_start [OF assms(1)]])
      (use start in \<open>simp_all add: drain_lane_frame(1) balanced_drain\<close>)
  then show ?thesis
    using assms(1) balanced_notify [of ?s2] by (simp add: reset_all_lanes_eq cq_inv_def waiters_ok_def)
qed

lemma balanced_resolve: "balanced s \<Longrightarrow> balanced (resolve_active_task_waiter w b s)"
  by (simp add: resolve_active_task_waiter_def balanced_def stock_def cq_emit_def)

lemma wait_balanced:
  assumes "cq_inv s" and "balanced s"
  shows "balanced (wait_for_active_tasks timeout w s)"
proof -
  let ?s = "s\<lparr>active_task_waiters := js_set w (active_at_start s) (active_task_waiters s)\<rparr>"
  have "balanced ?s" using assms(2) by (simp add: balanced_def stock_def)
  then have "balanced (notify_active_task_waiters ?s)"
    using assms(1) by (intro balanced_notify) (simp_all add: cq_inv_def waiters_ok_def)
  then show ?thesis using assms(2)
    by (auto simp: wait_for_active_tasks_def Let_def balanced_def stock_def cq_emit_def)
qed

text \<open>A live completion takes exactly its own task out of the stock.\<close>

lemma task_settled_stock:
  assumes "cq_inv s" and "js_get (frames s) i = Some f"
  shows "stock s = add_mset (qe_task (fr_entry f)) (stock (task_settled now i ok s))"
    and "accepted_of (cq_trace (task_settled now i ok s)) = accepted_of (cq_trace s)"
    and "settled_of (cq_trace (task_settled now i ok s)) = settled_of (cq_trace s) @ [qe_task (fr_entry f)]"
proof -
  obtain s1 st where g: "get_lane_state (fr_lane f) s = (s1, st)" by (cases "get_lane_state (fr_lane f) s")
  note base = get_lane_state_base [OF assms(1) [unfolded cq_inv_def, THEN conjunct1] g]
  have inv1: "cq_inv s1" by (rule get_lane_state_inv [OF assms(1) g])
  have frame: "js_get (frames s1) i = Some f" using assms(2) by (simp add: base(4))
  note b = completed_base [OF inv1 base(2) frame]
  let ?s2 = "completed i f st s1"
  let ?s0 = "s1\<lparr>frames := js_delete i (frames s1)\<rparr>"
  have "js_wf (frames s1)" using inv1 by (simp add: cq_inv_def cq_base_def)
  then have "stock s1 = add_mset (qe_task (fr_entry f)) (stock ?s0)"
    using running_of_delete [OF _ frame] by (simp add: stock_def)
  moreover have "stock ?s2 = stock ?s0"
    unfolding completed_def by (rule stock_put_lane_same [where st = st]) (simp_all add: base(2) complete_task_def)
  ultimately have k: "stock s = add_mset (qe_task (fr_entry f)) (stock ?s2)" by (simp add: stock_get_lane [OF g])
  have tr: "cq_trace ?s2 = cq_trace s"
    using g by (auto simp: completed_def put_lane_def get_lane_state_def split: option.splits)
  have n: "stock (notify_active_task_waiters ?s2) = stock ?s2"
    "accepted_of (cq_trace (notify_active_task_waiters ?s2)) = accepted_of (cq_trace ?s2)"
    "settled_of (cq_trace (notify_active_task_waiters ?s2)) = settled_of (cq_trace ?s2)"
    by (simp_all add: notify_closed [OF b(2)] stock_def)
  have g3: "js_get (lanes (notify_active_task_waiters ?s2)) (fr_lane f) = Some (fst (complete_task st i (fr_generation f)))"
    by (simp add: notify_frame [OF b(2)] completed_get)
  note pm = stock_pump [OF notify_ok(1) [OF b] g3, of now]
  have out: "settled_of [outcome ok f] = [qe_task (fr_entry f)]" "accepted_of [outcome ok f] = []"
    by (simp_all add: outcome_def)
  have emit: "accepted_of (cq_trace (cq_emit es t)) = accepted_of (cq_trace t) @ accepted_of es"
    "settled_of (cq_trace (cq_emit es t)) = settled_of (cq_trace t) @ settled_of es" for es t
    by (simp_all add: cq_emit_def)
  show "stock s = add_mset (qe_task (fr_entry f)) (stock (task_settled now i ok s))"
    by (simp add: task_settled_eq [OF assms(2) g] k n pm)
  show "accepted_of (cq_trace (task_settled now i ok s)) = accepted_of (cq_trace s)"
    and "settled_of (cq_trace (task_settled now i ok s)) = settled_of (cq_trace s) @ [qe_task (fr_entry f)]"
    by (simp_all add: task_settled_eq [OF assms(2) g] emit out n pm tr)
qed

lemma task_settled_balanced:
  assumes "cq_inv s" and "balanced s"
  shows "balanced (task_settled now i ok s)"
proof (cases "js_get (frames s) i")
  case None
  then show ?thesis using assms by (simp add: task_settled_def)
next
  case (Some f)
  then show ?thesis using assms(2) task_settled_stock [OF assms(1) Some, of now ok] by (simp add: balanced_def)
qed

lemma balanced_step: "cq_inv s \<and> balanced s \<Longrightarrow> cq_inv (cq_step s e) \<and> balanced (cq_step s e)"
proof
  assume a: "cq_inv s \<and> balanced s"
  then show "cq_inv (cq_step s e)" by (simp add: cq_inv_step)
  show "balanced (cq_step s e)" using a
    by (cases e) (simp_all add: set_concurrency_balanced enqueue_balanced task_settled_balanced clear_lane_balanced
      reset_lane_balanced reset_all_balanced wait_balanced waiter_timed_out_def balanced_resolve)
qed

interpretation cq_balance: invariant_machine cq_step "\<lambda>s. cq_inv s \<and> balanced s"
  by unfold_locales (rule balanced_step)

section \<open>Bounds on running tasks\<close>

definition active_length :: "command_queue \<Rightarrow> string \<Rightarrow> nat" where
  "active_length s l = (case js_get (lanes s) l of None \<Rightarrow> 0 | Some st \<Rightarrow> length (ls_active st))"

definition limited :: "(string \<Rightarrow> nat) \<Rightarrow> command_queue \<Rightarrow> bool" where
  "limited n s \<longleftrightarrow>
     (\<forall>l st. js_get (lanes s) l = Some st \<longrightarrow> int (length (ls_active st)) \<le> max (ls_max_concurrent st) (int (n l)))"

lemma limited_start: "limited (active_length s) s"
  by (simp add: limited_def active_length_def)

lemma limited_put_lane:
  "limited n s \<Longrightarrow> int (length (ls_active st)) \<le> max (ls_max_concurrent st) (int (n l)) \<Longrightarrow> limited n (put_lane l st s)"
  by (simp add: limited_def put_lane_def)

lemma limited_same_lanes: "limited n s \<Longrightarrow> lanes t = lanes s \<Longrightarrow> limited n t"
  by (simp add: limited_def)

lemma limited_pump:
  assumes "cq_base P s" and "js_get (lanes s) l = Some st" and "limited n s"
  shows "limited n (pump l now s)"
proof -
  let ?k = "pump_count (ls_max_concurrent st) (ls_active st) (ls_queue st)"
  have "int (length (ls_active st)) \<le> max (ls_max_concurrent st) (int (n l))"
    using assms(2,3) by (simp add: limited_def)
  then have "int (length (ls_active st) + ?k) \<le> max (ls_max_concurrent st) (int (n l))"
    by (auto simp: pump_count_def)
  then show ?thesis using assms(3) by (simp add: pump_closed [OF assms(1,2)] limited_def)
qed

lemma limited_drain:
  assumes "cq_base P s" and "js_get (lanes s) l = Some st" and "\<not> ls_draining st" and "limited n s"
  shows "limited n (drain_lane l now s)"
  using limited_pump [OF assms(1,2,4)] by (simp add: drain_lane_eq [OF assms(1-3)])

lemma limited_get_lane: "get_lane_state l s = (s1, st) \<Longrightarrow> limited n s \<Longrightarrow> limited n s1"
  by (auto simp: get_lane_state_def limited_def new_lane_def split: option.splits if_splits)

lemma limited_notify: "js_wf (active_task_waiters s) \<Longrightarrow> limited n s \<Longrightarrow> limited n (notify_active_task_waiters s)"
  by (rule limited_same_lanes) (simp_all add: notify_frame)

lemma active_length_get: "js_get (lanes s) l = Some st \<Longrightarrow> active_length s l = length (ls_active st)"
  by (simp add: active_length_def)

lemma active_length_get_lane: "get_lane_state l s = (s1, st) \<Longrightarrow> length (ls_active st) = active_length s l"
  by (auto simp: get_lane_state_def active_length_def new_lane_def split: option.splits)

lemma set_concurrency_limited:
  assumes "cq_inv s"
  shows "limited (active_length s) (set_command_lane_concurrency lane m now s)"
proof -
  let ?l = "normalize_lane lane"
  obtain s1 st where g: "get_lane_state ?l s = (s1, st)" by (cases "get_lane_state ?l s")
  have inv1: "cq_inv s1" by (rule get_lane_state_inv [OF assms g])
  have st: "js_get (lanes s1) ?l = Some st"
    using get_lane_state_base(2) assms g by (auto simp: cq_inv_def)
  let ?st = "st\<lparr>ls_max_concurrent := max (if is_quiet_probe_lane ?l then 1 else 0) \<lfloor>m\<rfloor>\<rparr>"
  have b: "limited (active_length s) (put_lane ?l ?st s1)"
    by (rule limited_put_lane [OF limited_get_lane [OF g limited_start]])
      (simp add: active_length_get_lane [OF g])
  have d: "limited (active_length s) (drain_lane ?l now (put_lane ?l ?st s1))"
    by (rule limited_drain [OF put_lane_base_same [OF inv1 st], where st = ?st])
      (use b cq_inv_lane(2) [OF inv1 st] in \<open>simp_all add: put_lane_def lane_settled_def\<close>)
  show ?thesis using b d by (simp add: set_command_lane_concurrency_def g Let_def)
qed

lemma enqueue_limited:
  assumes "cq_inv s"
  shows "limited (active_length s) (enqueue_command_in_lane gate_closed lane task opts now s)"
proof (cases gate_closed)
  case True
  then show ?thesis using limited_start [of s] by (simp add: limited_def cq_emit_def)
next
  case False
  let ?l = "normalize_lane lane"
  obtain s1 st where g: "get_lane_state ?l s = (s1, st)" by (cases "get_lane_state ?l s")
  have inv1: "cq_inv s1" by (rule get_lane_state_inv [OF assms g])
  have st: "js_get (lanes s1) ?l = Some st"
    using get_lane_state_base(2) assms g by (auto simp: cq_inv_def)
  have "limited (active_length s) (put_lane ?l (enqueued_lane task opts now st s1) s1)"
    by (rule limited_put_lane [OF limited_get_lane [OF g limited_start]]) (simp add: active_length_get_lane [OF g])
  then have "limited (active_length s) (enqueued ?l task opts now st s1)"
    by (rule limited_same_lanes) (simp add: enqueued_def cq_emit_def put_lane_def)
  then show ?thesis using False limited_drain [OF enqueued_start(1-3) [OF inv1 st]] by (simp add: enqueue_eq [OF g])
qed

lemma task_settled_limited:
  assumes "cq_inv s"
  shows "limited (active_length s) (task_settled now i ok s)"
proof (cases "js_get (frames s) i")
  case None
  then show ?thesis using limited_start by (simp add: task_settled_def)
next
  case (Some f)
  obtain s1 st where g: "get_lane_state (fr_lane f) s = (s1, st)" by (cases "get_lane_state (fr_lane f) s")
  note base = get_lane_state_base [OF assms(1) [unfolded cq_inv_def, THEN conjunct1] g]
  have inv1: "cq_inv s1" by (rule get_lane_state_inv [OF assms(1) g])
  note b = completed_base [OF inv1 base(2) Some [folded base(4)]]
  let ?s2 = "completed i f st s1"
  let ?st = "fst (complete_task st i (fr_generation f))"
  have le: "length (ls_active ?st) \<le> active_length s (fr_lane f)"
    using length_set_del_le [of i "ls_active st"] by (simp add: complete_task_def active_length_get_lane [OF g])
  have "limited (active_length s) (put_lane (fr_lane f) ?st (s1\<lparr>frames := js_delete i (frames s1)\<rparr>))"
    by (rule limited_put_lane [OF limited_same_lanes [OF limited_get_lane [OF g limited_start]]])
      (use le in simp_all)
  then have l2: "limited (active_length s) ?s2" by (simp add: completed_def)
  have g3: "js_get (lanes (notify_active_task_waiters ?s2)) (fr_lane f) = Some ?st"
    by (simp add: notify_frame [OF b(2)] completed_get)
  have "limited (active_length s) (pump (fr_lane f) now (notify_active_task_waiters ?s2))"
    by (rule limited_pump [OF notify_ok(1) [OF b] g3 limited_notify [OF b(2) l2]])
  then show ?thesis using l2 by (simp add: task_settled_eq [OF Some g]) (simp add: limited_def cq_emit_def)
qed

lemma reset_lane_limited:
  assumes "cq_inv s"
  shows "limited (active_length s) (fst (reset_command_lane lane now s))"
proof (cases "js_get (lanes s) (normalize_lane lane)")
  case None
  then show ?thesis using limited_start by (simp add: reset_command_lane_def Let_def)
next
  case (Some st)
  let ?l = "normalize_lane lane"
  let ?s1 = "put_lane ?l (idle_lane st) s"
  let ?s2 = "if ls_queue st \<noteq> [] then drain_lane ?l now ?s1 else ?s1"
  note r = reset_start [OF assms Some]
  have l1: "limited (active_length s) ?s1"
    by (rule limited_put_lane [OF limited_start]) (simp add: idle_lane_def)
  have l2: "limited (active_length s) ?s2" using l1 limited_drain [OF r(1-3) l1] by simp
  have "js_wf (active_task_waiters ?s2)" using r(5) drain_lane_frame(1) [OF r(1-3), of now] by simp
  then show ?thesis using Some limited_notify [OF _ l2] by (simp add: reset_command_lane_def Let_def)
qed

lemma reset_all_limited:
  assumes "cq_inv s"
  shows "limited (active_length s) (reset_all_lanes now s)"
proof -
  let ?s2 = "fold (\<lambda>l. drain_lane l now) (pending_lanes s) (idle_all s)"
  let ?Q = "\<lambda>t. limited (active_length s) t \<and> active_task_waiters t = active_task_waiters s"
  have start: "?Q (idle_all s)"
    by (auto simp: limited_def idle_all_get) (auto simp: idle_lane_def idle_all_def)
  have "cq_base (\<lambda>x. x \<notin> set (pending_lanes s) \<or> x \<in> set (pending_lanes s)) ?s2 \<and> ?Q ?s2"
    by (rule drain_all_base [OF reset_all_start [OF assms(1)]])
      (use start in \<open>simp_all add: drain_lane_frame(1) limited_drain\<close>)
  then show ?thesis
    using assms(1) limited_notify [of ?s2] by (simp add: reset_all_lanes_eq cq_inv_def waiters_ok_def)
qed

lemma wait_limited:
  assumes "cq_inv s"
  shows "limited (active_length s) (wait_for_active_tasks timeout w s)"
proof -
  let ?s = "s\<lparr>active_task_waiters := js_set w (active_at_start s) (active_task_waiters s)\<rparr>"
  have "limited (active_length s) (notify_active_task_waiters ?s)"
    by (rule limited_notify) (use assms limited_start [of s] in \<open>simp_all add: cq_inv_def waiters_ok_def limited_def\<close>)
  then show ?thesis using limited_start [of s]
    by (auto simp: wait_for_active_tasks_def Let_def) (auto simp: cq_emit_def limited_def)
qed

lemma clear_lane_limited: "limited (active_length s) (fst (clear_command_lane lane s))"
proof (cases "js_get (lanes s) (normalize_lane lane)")
  case None
  then show ?thesis using limited_start by (simp add: clear_command_lane_def Let_def)
next
  case (Some st)
  have "limited (active_length s) (put_lane (normalize_lane lane) (st\<lparr>ls_queue := []\<rparr>) s)"
    by (rule limited_put_lane [OF limited_start]) (simp add: active_length_get [OF Some])
  then show ?thesis using Some by (simp add: clear_command_lane_def Let_def) (simp add: limited_def cq_emit_def)
qed

lemma resolve_limited: "limited (active_length s) (resolve_active_task_waiter w b s)"
  using limited_start [of s] by (simp add: resolve_active_task_waiter_def limited_def cq_emit_def)

lemma limited_step: "cq_inv s \<Longrightarrow> limited (active_length s) (cq_step s e)"
  by (cases e) (simp_all add: set_concurrency_limited enqueue_limited task_settled_limited clear_lane_limited
    reset_lane_limited reset_all_limited wait_limited waiter_timed_out_def resolve_limited)

section \<open>Generations only grow\<close>

definition generation_of :: "string \<Rightarrow> command_queue \<Rightarrow> nat" where
  "generation_of l s = (case js_get (lanes s) l of None \<Rightarrow> 0 | Some st \<Rightarrow> ls_generation st)"

lemma generation_emit [simp]: "generation_of l (cq_emit es s) = generation_of l s"
  by (simp add: generation_of_def cq_emit_def)

lemma generation_get_lane: "get_lane_state l' s = (s1, st) \<Longrightarrow> generation_of l s1 = generation_of l s \<and> ls_generation st = generation_of l' s"
  by (auto simp: get_lane_state_def generation_of_def new_lane_def split: option.splits if_splits)

lemma generation_put_lane [simp]:
  "generation_of l (put_lane l' st s) = (if l = l' then ls_generation st else generation_of l s)"
  by (simp add: generation_of_def put_lane_def)

lemma generation_pump [simp]: "generation_of l (pump l' now s) = generation_of l s"
  by (auto simp: pump_def generation_of_def put_lane_def cq_emit_def split: option.splits prod.splits)

lemma generation_drain [simp]: "generation_of l (drain_lane l' now s) = generation_of l s"
proof -
  obtain s1 st where g: "get_lane_state l' s = (s1, st)" by (cases "get_lane_state l' s")
  show ?thesis using generation_get_lane [OF g] by (simp add: drain_lane_def g)
qed

lemma generation_resolve [simp]: "generation_of l (resolve_active_task_waiter w b s) = generation_of l s"
  by (simp add: resolve_active_task_waiter_def) (simp add: generation_of_def cq_emit_def)

lemma generation_notify [simp]: "generation_of l (notify_active_task_waiters s) = generation_of l s"
proof -
  have "generation_of l (fold (\<lambda>(w, ids) s. if ids = [] \<or> \<not> has_pending_active_tasks ids s
                        then resolve_active_task_waiter w True s else s) ws t) = generation_of l t" for ws t
    by (induction ws arbitrary: t) auto
  then show ?thesis by (simp add: notify_active_task_waiters_def)
qed

lemma generation_fold_drain [simp]:
  "generation_of l (fold (\<lambda>l. drain_lane l now) ls s) = generation_of l s"
  by (induction ls arbitrary: s) auto

lemma generation_idle_all: "generation_of l s \<le> generation_of l (idle_all s)"
  by (auto simp: generation_of_def idle_all_get idle_lane_def split: option.splits)

lemma generation_settled: "generation_of l (task_settled now i ok s) = generation_of l s"
proof (cases "js_get (frames s) i")
  case None
  then show ?thesis by (simp add: task_settled_def)
next
  case (Some f)
  obtain s1 st where g: "get_lane_state (fr_lane f) s = (s1, st)" by (cases "get_lane_state (fr_lane f) s")
  have "generation_of l (completed i f st s1) = generation_of l s"
    using generation_get_lane [OF g]
    by (simp add: completed_def complete_task_def) (simp add: generation_of_def)
  then show ?thesis by (simp add: task_settled_eq [OF Some g])
qed

lemma generation_enqueue: "generation_of l (enqueue_command_in_lane gate_closed lane task opts now s) = generation_of l s"
proof (cases gate_closed)
  case False
  obtain s1 st where g: "get_lane_state (normalize_lane lane) s = (s1, st)" by (cases "get_lane_state (normalize_lane lane) s")
  have "generation_of l (enqueued (normalize_lane lane) task opts now st s1) = generation_of l s"
    using generation_get_lane [OF g] by (simp add: enqueued_def) (simp add: generation_of_def)
  then show ?thesis using False by (simp add: enqueue_eq [OF g])
qed simp

lemma generation_set_concurrency: "generation_of l (set_command_lane_concurrency lane m now s) = generation_of l s"
proof -
  obtain s1 st where g: "get_lane_state (normalize_lane lane) s = (s1, st)" by (cases "get_lane_state (normalize_lane lane) s")
  show ?thesis using generation_get_lane [OF g] by (simp add: set_command_lane_concurrency_def g Let_def)
qed

lemma generation_clear: "generation_of l (fst (clear_command_lane lane s)) = generation_of l s"
  by (simp add: clear_command_lane_def Let_def split: option.split) (auto simp: generation_of_def)

lemma generation_reset:
  "generation_of l (fst (reset_command_lane lane now s)) =
     (if l = normalize_lane lane \<and> js_get (lanes s) l \<noteq> None then Suc (generation_of l s) else generation_of l s)"
  by (auto simp: reset_command_lane_def Let_def idle_lane_def split: option.splits) (auto simp: generation_of_def)

lemma generation_wait: "generation_of l (wait_for_active_tasks timeout w s) = generation_of l s"
  by (simp add: wait_for_active_tasks_def Let_def) (simp add: generation_of_def)

lemma generation_step: "generation_of l s \<le> generation_of l (cq_step s e)"
  by (cases e) (simp_all add: generation_settled generation_enqueue generation_set_concurrency generation_clear
    generation_reset generation_wait waiter_timed_out_def reset_all_lanes_eq generation_idle_all)

interpretation cq_gen: monotone_machine cq_step "\<lambda>_. True" "generation_of l" for l
  by unfold_locales (simp_all add: generation_step)

end
