(* ===== verification/Command_Queue_Props.thy ===== *)
theory Command_Queue_Props
  imports Command_Queue_Runs
begin

text \<open>The properties of the command queue, each with a concrete run that instantiates it.\<close>

section \<open>Properties\<close>

text \<open>A two-lane run used to instantiate the properties: one task runs, two wait behind it.\<close>

definition sample_ops :: "cq_op list" where
  "sample_ops =
     [Enqueue False ''a'' 11 default_enqueue_options 0, Enqueue False ''a'' 12 default_enqueue_options 1,
      Enqueue False ''a'' 13 (default_enqueue_options\<lparr>eo_priority := Some Foreground\<rparr>) 2]"

definition sample_queue :: command_queue where
  "sample_queue = foldl cq_step initial_command_queue sample_ops"

definition sample_entry :: "nat \<Rightarrow> int \<Rightarrow> nat \<Rightarrow> int \<Rightarrow> nat \<Rightarrow> nat \<Rightarrow> queue_entry" where
  "sample_entry task now sq prio ahead act =
     \<lparr>qe_task = task, qe_enqueued_at = now, qe_sequence = sq, qe_priority = prio, qe_warn_after_ms = 2000,
      qe_queued_ahead = ahead, qe_active_ahead = act, qe_task_timeout_ms = None, qe_abort_grace_ms = None\<rparr>"

lemma normalize_sample: "normalize_lane ''a'' = ''a''"
  by (simp add: normalize_lane_def js_trim_def js_is_space_def Let_def)

lemma sample_lane:
  "js_get (lanes sample_queue) ''a'' =
     Some \<lparr>ls_queue = [sample_entry 13 2 3 1 0 1, sample_entry 12 1 2 0 0 1], ls_active = [1],
           ls_max_concurrent = 1, ls_draining = False, ls_generation = 0\<rparr>"
  "js_get (frames sample_queue) 1 = Some \<lparr>fr_lane = ''a'', fr_generation = 0, fr_entry = sample_entry 11 0 1 0 0 0\<rparr>"
  "next_task_id sample_queue = 2"
  by (code_simp)+

lemma sample_inv: "cq_inv sample_queue" and sample_balanced: "balanced sample_queue"
proof -
  have "cq_inv initial_command_queue \<and> balanced initial_command_queue"
    by (simp, simp add: initial_command_queue_def balanced_def stock_def queued_of_def running_of_def)
  from cq_balance.run_keeps [OF this] show "cq_inv sample_queue" "balanced sample_queue"
    by (auto simp: sample_queue_def)
qed

text \<open>C27: In every reachable state of the queue, no lane is stalled (it is not draining, and it holds
  queued entries only when all its slots are taken), its queue is in priority and then arrival order,
  and every active task id is unique and belongs to a running task of the lane's current generation.\<close>

theorem reachable_lane_wellformed:
  assumes "js_get (lanes (foldl cq_step initial_command_queue ops)) l = Some st"
  shows "\<not> ls_draining st \<and> (ls_queue st = [] \<or> ls_max_concurrent st \<le> int (length (ls_active st))) \<and>
         sorted_wrt entry_before (ls_queue st) \<and> distinct (ls_active st) \<and>
         (\<forall>t \<in> set (ls_active st). \<exists>f. js_get (frames (foldl cq_step initial_command_queue ops)) t = Some f \<and>
             fr_lane f = l \<and> fr_generation f = ls_generation st)"
proof -
  have "cq_inv (foldl cq_step initial_command_queue ops)" by (rule cq.run_keeps) simp
  from cq_inv_lane [OF this assms] show ?thesis by (auto simp: lane_settled_def lane_core_def)
qed

theorem reachable_lane_wellformed_witness:
  "sorted_wrt entry_before [sample_entry 13 2 3 1 0 1, sample_entry 12 1 2 0 0 1]"
  using reachable_lane_wellformed [OF sample_lane(1) [unfolded sample_queue_def]] by simp

text \<open>C28: No accepted task is lost, duplicated or settled twice: at every point of every run the tasks
  accepted so far are exactly those still queued, those running and those whose promise was settled.\<close>

theorem accepted_tasks_conserved:
  fixes ops :: "cq_op list"
  defines "t \<equiv> foldl cq_step initial_command_queue ops"
  shows "mset (accepted_of (cq_trace t)) =
         mset (queued_of (lanes t)) + mset (running_of (frames t)) + mset (settled_of (cq_trace t))"
proof -
  have "cq_inv initial_command_queue \<and> balanced initial_command_queue"
    by (simp, simp add: initial_command_queue_def balanced_def stock_def queued_of_def running_of_def)
  from cq_balance.run_keeps [OF this, of ops] show ?thesis by (simp add: t_def balanced_def stock_def)
qed

text \<open>A queue operation never lets a lane exceed its concurrency limit: afterwards a lane runs at most
  as many tasks as its limit, or as it already ran when the limit was lowered under it.\<close>

theorem lane_concurrency_bounded:
  assumes "cq_inv s" and "js_get (lanes (cq_step s e)) l = Some st"
  shows "int (length (ls_active st)) \<le> max (ls_max_concurrent st) (int (active_length s l))"
  using limited_step [OF assms(1), of e] assms(2) by (auto simp: limited_def)

theorem lane_concurrency_bounded_witness:
  "\<exists>st. js_get (lanes (cq_step sample_queue (SetConcurrency ''a'' 2 5))) ''a'' = Some st \<and>
        ls_active st = [1, 2] \<and> int (length (ls_active st)) \<le> max (ls_max_concurrent st) 1"
proof -
  let ?st = "\<lparr>ls_queue = [sample_entry 12 1 2 0 0 1], ls_active = [1, 2],
              ls_max_concurrent = 2, ls_draining = False, ls_generation = 0\<rparr>"
  have g: "js_get (lanes (cq_step sample_queue (SetConcurrency ''a'' 2 5))) ''a'' = Some ?st" by code_simp
  have "active_length sample_queue ''a'' = 1" by (simp add: active_length_def sample_lane(1))
  with lane_concurrency_bounded [OF sample_inv g] g show ?thesis by auto
qed

text \<open>When a task of the lane's current generation settles, its slot is freed and the lane starts the
  head of its queue, in order, with consecutive new task ids, until the limit is reached or the queue
  is empty; no other lane changes and the task's promise is settled last.\<close>

theorem completion_starts_next_entries:
  fixes s :: command_queue
  assumes "cq_inv s" and "js_get (frames s) i = Some f" and "js_get (lanes s) (fr_lane f) = Some st"
    and "fr_generation f = ls_generation st"
  defines "act \<equiv> set_del i (ls_active st)"
  defines "k \<equiv> pump_count (ls_max_concurrent st) act (ls_queue st)"
  shows "js_get (lanes (task_settled now i ok s)) l =
           (if l = fr_lane f
            then Some (st\<lparr>ls_queue := drop k (ls_queue st),
                         ls_active := act @ [next_task_id s..<next_task_id s + k], ls_draining := False\<rparr>)
            else js_get (lanes s) l) \<and>
         (\<exists>es. cq_trace (task_settled now i ok s) = cq_trace s @ es @ [outcome ok f] \<and>
            started_of es = map (\<lambda>(j, e). (qe_task e, fr_lane f, j, ls_generation st))
                              (zip [next_task_id s..<next_task_id s + k] (take k (ls_queue st))))"
proof -
  let ?l = "fr_lane f"
  let ?s2 = "completed i f st s"
  let ?st = "st\<lparr>ls_active := act\<rparr>"
  have g: "get_lane_state ?l s = (s, st)" by (rule get_lane_state_present [OF assms(3)])
  note b = completed_base [OF assms(1,3,2)]
  have st2: "fst (complete_task st i (fr_generation f)) = ?st" using assms(4) by (simp add: complete_task_def act_def)
  have g3: "js_get (lanes (notify_active_task_waiters ?s2)) ?l = Some ?st"
    by (simp add: notify_frame [OF b(2)] completed_get st2)
  have id: "next_task_id (notify_active_task_waiters ?s2) = next_task_id s"
    by (simp add: notify_frame [OF b(2)]) (simp add: completed_def put_lane_def)
  have k: "k = pump_count (ls_max_concurrent ?st) (ls_active ?st) (ls_queue ?st)" by (simp add: k_def)
  have kq: "k \<le> length (ls_queue st)" by (simp add: k_def pump_count_le)
  have other: "l \<noteq> ?l \<Longrightarrow> js_get (lanes (notify_active_task_waiters ?s2)) l = js_get (lanes s) l"
    by (simp add: notify_frame [OF b(2)]) (simp add: completed_def put_lane_def)
  have t: "task_settled now i ok s = cq_emit [outcome ok f] (pump ?l now (notify_active_task_waiters ?s2))"
    using assms(4) by (simp add: task_settled_eq [OF assms(2) g])
  note p = pump_closed [OF notify_ok(1) [OF b] g3, of now, folded k]
  have "js_get (lanes (task_settled now i ok s)) l =
           (if l = fr_lane f
            then Some (st\<lparr>ls_queue := drop k (ls_queue st),
                         ls_active := act @ [next_task_id s..<next_task_id s + k], ls_draining := False\<rparr>)
            else js_get (lanes s) l)"
    using other by (simp add: t p cq_emit_def id)
  moreover have "cq_trace (task_settled now i ok s) = cq_trace s @
      (map (\<lambda>p. WaiterResolved (fst p) True) (filter (\<lambda>p. \<not> pending_ids ?s2 (snd p)) (active_task_waiters ?s2)) @
       pump_effects ?l (ls_generation st) now (next_task_id s) k (ls_queue st)) @ [outcome ok f]"
    by (simp add: t p cq_emit_def id) (simp add: notify_closed [OF b(2)], simp add: completed_def put_lane_def)
  ultimately show ?thesis
    using started_of_pump_effects [OF kq, of ?l "ls_generation st" now "next_task_id s"] by fastforce
qed

theorem completion_starts_next_entries_witness:
  "js_get (lanes (task_settled 9 1 True sample_queue)) ''a'' =
     Some \<lparr>ls_queue = [sample_entry 12 1 2 0 0 1], ls_active = [2], ls_max_concurrent = 1,
           ls_draining = False, ls_generation = 0\<rparr>"
  using completion_starts_next_entries [OF sample_inv sample_lane(2), of _ 9 True "''a''"]
  by (simp add: sample_lane pump_count_def set_del_def)

lemma js_set_same: "js_get m k = Some v \<Longrightarrow> js_set k v m = m"
  by (induction m) (auto split: if_splits)

text \<open>A task of an older generation that settles after its lane was reset touches no lane: it frees
  no slot, starts nothing and wakes no waiter; only its own promise is settled.\<close>

theorem stale_completion_touches_no_lane:
  assumes "js_get (frames s) i = Some f" and "js_get (lanes s) (fr_lane f) = Some st"
    and "fr_generation f \<noteq> ls_generation st"
  shows "task_settled now i ok s =
         s\<lparr>frames := js_delete i (frames s), cq_trace := cq_trace s @ [outcome ok f]\<rparr>"
  using assms(3) js_set_same [OF assms(2)]
  by (simp add: task_settled_eq [OF assms(1) get_lane_state_present [OF assms(2)]] completed_def
      complete_task_def put_lane_def cq_emit_def)

theorem stale_completion_touches_no_lane_witness:
  "lanes (task_settled 9 1 True (fst (reset_command_lane ''a'' 5 sample_queue))) =
   lanes (fst (reset_command_lane ''a'' 5 sample_queue))"
proof -
  let ?s = "fst (reset_command_lane ''a'' 5 sample_queue)"
  have a: "js_get (frames ?s) 1 = Some \<lparr>fr_lane = ''a'', fr_generation = 0, fr_entry = sample_entry 11 0 1 0 0 0\<rparr>"
    by code_simp
  have b: "js_get (lanes ?s) ''a'' = Some \<lparr>ls_queue = [sample_entry 12 1 2 0 0 1], ls_active = [2],
      ls_max_concurrent = 1, ls_draining = False, ls_generation = 1\<rparr>"
    by code_simp
  show ?thesis using stale_completion_touches_no_lane [OF a, of _ 9 True] b by simp
qed

text \<open>An accepted enqueue starts its task at once when the lane has a free slot (the queue is then
  empty), and otherwise only inserts it, behind every entry of its priority or higher and before every
  entry of lower priority; in both cases no other lane changes.\<close>

theorem enqueue_starts_or_queues:
  fixes task :: nat and opts :: enqueue_options and now :: int
  assumes "cq_inv s" and "js_get (lanes s) (normalize_lane lane) = Some st"
  defines "e \<equiv> make_entry task opts now (next_queue_sequence s)"
  defines "t \<equiv> enqueue_command_in_lane False lane task opts now s"
  defines "e' \<equiv> e\<lparr>qe_queued_ahead := insert_position e (ls_queue st), qe_active_ahead := length (ls_active st)\<rparr>"
  shows "if int (length (ls_active st)) < ls_max_concurrent st
    then lanes t = js_set (normalize_lane lane) (st\<lparr>ls_active := ls_active st @ [next_task_id s]\<rparr>) (lanes s) \<and>
         js_get (frames t) (next_task_id s) =
           Some \<lparr>fr_lane = normalize_lane lane, fr_generation = ls_generation st, fr_entry = e'\<rparr>
    else lanes t = js_set (normalize_lane lane)
           (st\<lparr>ls_queue := take (insert_position e (ls_queue st)) (ls_queue st) @ e' #
                          drop (insert_position e (ls_queue st)) (ls_queue st)\<rparr>) (lanes s) \<and>
         frames t = frames s"
proof -
  let ?l = "normalize_lane lane"
  let ?s = "enqueued ?l task opts now st s"
  let ?st = "enqueued_lane task opts now st s"
  note g = get_lane_state_present [OF assms(2)]
  note b = enqueued_start [OF assms(1,2), of task opts now]
  have t: "t = pump ?l now ?s" unfolding t_def enqueue_eq [OF g] by (rule drain_lane_eq [OF b(1-3)])
  have idle: "\<not> ls_draining st" and full: "int (length (ls_active st)) < ls_max_concurrent st \<Longrightarrow> ls_queue st = []"
    using cq_inv_lane(2) [OF assms(1,2)] by (auto simp: lane_settled_def)
  have q: "ls_queue ?st = take (insert_position e (ls_queue st)) (ls_queue st) @ e' #
                          drop (insert_position e (ls_queue st)) (ls_queue st)"
    by (simp add: enqueued_lane_def enqueue_lane_entry_def Let_def e_def e'_def)
  have ids: "next_task_id ?s = next_task_id s" "frames ?s = frames s" "lanes ?s = js_set ?l ?st (lanes s)"
    by (simp_all add: enqueued_def cq_emit_def put_lane_def)
  have twice: "js_set k a (js_set k b m) = js_set k a m" for k :: string and a b :: lane_state and m
    by (induction m) auto
  note p = pump_closed [OF b(1,2), of now]
  show ?thesis
  proof (cases "int (length (ls_active st)) < ls_max_concurrent st")
    case True
    then have k: "pump_count (ls_max_concurrent st) (ls_active st) [e'] = 1" by (simp add: pump_count_def)
    have q': "ls_queue ?st = [e']" using q full [OF True] by simp
    have st': "?st\<lparr>ls_queue := [], ls_active := ls_active st @ [next_task_id s], ls_draining := False\<rparr> =
        st\<lparr>ls_active := ls_active st @ [next_task_id s]\<rparr>"
      using idle full [OF True] by (simp add: enqueued_lane_def enqueue_lane_entry_def Let_def)
    have fresh: "js_get (frames s) (next_task_id s) = None"
      using assms(1) by (subst js_get_None_keys) (fastforce simp: cq_inv_def cq_base_def)
    show ?thesis using True
      by (simp add: t p k q' ids st' twice pump_frames_def map_add_def fresh)
  next
    case False
    then have k: "pump_count (ls_max_concurrent st) (ls_active st) Q = 0" for Q by (simp add: pump_count_def)
    have st': "?st\<lparr>ls_queue := Q, ls_active := ls_active st, ls_draining := False\<rparr> = st\<lparr>ls_queue := Q\<rparr>" for Q
      using idle by (simp add: enqueued_lane_def enqueue_lane_entry_def Let_def)
    show ?thesis using False by (simp add: t p k ids twice pump_frames_def q st')
  qed
qed

theorem enqueue_starts_or_queues_witness:
  "frames (enqueue_command_in_lane False ''a'' 14 default_enqueue_options 3 sample_queue) = frames sample_queue"
  using enqueue_starts_or_queues [OF sample_inv, of "''a''" _ 14 default_enqueue_options 3]
  by (simp add: normalize_sample sample_lane)

text \<open>A task marker that was current when its lane was reset is never current again, in any later
  run: generations only grow, so a result of the abandoned task is recognised as stale forever.\<close>

theorem reset_retires_markers:
  assumes "is_marker_current (lane, i, g) s"
  shows "\<not> is_marker_current (lane, i, g) (foldl cq_step (fst (reset_command_lane lane now s)) ops)"
proof -
  let ?l = "normalize_lane lane"
  let ?s = "fst (reset_command_lane lane now s)"
  from assms have "js_get (lanes s) ?l \<noteq> None" "generation_of ?l s = g"
    by (auto simp: is_marker_current_def generation_of_def split: option.splits)
  then have "generation_of ?l ?s = Suc g" by (simp add: generation_reset)
  moreover have "generation_of ?l ?s \<le> generation_of ?l (foldl cq_step ?s ops)" by (rule cq_gen.run_mono) simp
  ultimately show ?thesis by (auto simp: is_marker_current_def generation_of_def split: option.splits)
qed

theorem reset_retires_markers_witness:
  "\<not> is_marker_current (''a'', 1, 0)
      (foldl cq_step (fst (reset_command_lane ''a'' 5 sample_queue)) [TaskSettled 9 1 True])"
proof -
  have "is_marker_current (''a'', 1, 0) sample_queue"
    by (simp add: is_marker_current_def normalize_sample sample_lane)
  then show ?thesis by (rule reset_retires_markers)
qed

text \<open>Nobody waits for nothing: in every reachable state a registered waiter still has one of the
  tasks it captured active, so it is resolved in the very operation that ends the last of them; and a
  wait that finds no active task returns drained at once.\<close>

theorem waiter_only_while_captured_task_active:
  assumes "js_get (active_task_waiters (foldl cq_step initial_command_queue ops)) w = Some ids"
  shows "\<exists>l st. js_get (lanes (foldl cq_step initial_command_queue ops)) l = Some st \<and>
           set ids \<inter> set (ls_active st) \<noteq> {}"
proof -
  have "cq_inv (foldl cq_step initial_command_queue ops)" by (rule cq.run_keeps) simp
  then show ?thesis using assms by (simp add: cq_inv_def waiters_ok_def)
qed

theorem waiter_only_while_captured_task_active_witness:
  "\<exists>l st. js_get (lanes (foldl cq_step initial_command_queue (sample_ops @ [WaitForActive (Some 50) 7]))) l = Some st \<and>
           {1} \<inter> set (ls_active st) \<noteq> {}"
proof -
  have "js_get (active_task_waiters (foldl cq_step initial_command_queue (sample_ops @ [WaitForActive (Some 50) 7]))) 7 = Some [1]"
    by code_simp
  from waiter_only_while_captured_task_active [OF this] show ?thesis by simp
qed

end
