(* ===== verification/Gateway.thy ===== *)
theory Gateway
  imports Command_Queue_Props
begin

text \<open>
  The command queue behind the admission gate, as the exported functions of
  \<open>process/command-queue.ts\<close> compose them: every enqueue asks the gate, the drain mark closes it,
  and \<open>resetAllLanes\<close> reopens it before it resets the lanes. The caller's own root work, which the
  code reads from asynchronous context, is the argument \<open>cur\<close>.
\<close>

section \<open>The composition\<close>

record gateway =
  gw_admission :: admission
  gw_queue :: command_queue

definition initial_gateway :: gateway where
  "initial_gateway = \<lparr>gw_admission = initial_admission, gw_queue = initial_command_queue\<rparr>"

definition gateway_enqueue :: "nat option \<Rightarrow> string \<Rightarrow> nat \<Rightarrow> enqueue_options \<Rightarrow> int \<Rightarrow> gateway \<Rightarrow> gateway" where
  "gateway_enqueue cur lane task opts now g =
     g\<lparr>gw_queue := enqueue_command_in_lane (is_subordinate_admission_closed cur (gw_admission g)) lane task opts now (gw_queue g)\<rparr>"

definition mark_gateway_draining :: "gateway \<Rightarrow> gateway" where
  "mark_gateway_draining g = g\<lparr>gw_admission := mark_restart_draining (gw_admission g)\<rparr>"

definition is_gateway_draining :: "gateway \<Rightarrow> bool" where
  "is_gateway_draining g \<longleftrightarrow> is_work_admission_closed (gw_admission g)"

definition gateway_reset_all_lanes :: "int \<Rightarrow> gateway \<Rightarrow> gateway" where
  "gateway_reset_all_lanes now g =
     (let g1 = g\<lparr>gw_admission := reset_work_admission (gw_admission g)\<rparr>
      in g1\<lparr>gw_queue := reset_all_lanes now (gw_queue g1)\<rparr>)"

datatype gateway_op =
    GEnqueue "nat option" string nat enqueue_options int
  | GMarkDraining
  | GResetAllLanes int
  | GAdmission adm_op
  | GSetConcurrency string rat int
  | GTaskSettled int nat bool
  | GClearLane string
  | GResetLane string int
  | GWaitForActive "int option" nat
  | GWaiterTimedOut nat

definition on_queue :: "cq_op \<Rightarrow> gateway \<Rightarrow> gateway" where
  "on_queue op g = g\<lparr>gw_queue := cq_step (gw_queue g) op\<rparr>"

fun gateway_step :: "gateway \<Rightarrow> gateway_op \<Rightarrow> gateway" where
  "gateway_step g (GEnqueue cur lane task opts now) = gateway_enqueue cur lane task opts now g"
| "gateway_step g GMarkDraining = mark_gateway_draining g"
| "gateway_step g (GResetAllLanes now) = gateway_reset_all_lanes now g"
| "gateway_step g (GAdmission op) = g\<lparr>gw_admission := adm_step (gw_admission g) op\<rparr>"
| "gateway_step g (GSetConcurrency lane m now) = on_queue (SetConcurrency lane m now) g"
| "gateway_step g (GTaskSettled now i ok) = on_queue (TaskSettled now i ok) g"
| "gateway_step g (GClearLane lane) = on_queue (ClearLane lane) g"
| "gateway_step g (GResetLane lane now) = on_queue (ResetLane lane now) g"
| "gateway_step g (GWaitForActive t w) = on_queue (WaitForActive t w) g"
| "gateway_step g (GWaiterTimedOut w) = on_queue (WaiterTimedOut w) g"

text \<open>Each component sees a run of the composition as a run of its own operations.\<close>

fun queue_op :: "gateway \<Rightarrow> gateway_op \<Rightarrow> cq_op option" where
  "queue_op g (GEnqueue cur lane task opts now) =
     Some (Enqueue (is_subordinate_admission_closed cur (gw_admission g)) lane task opts now)"
| "queue_op g GMarkDraining = None"
| "queue_op g (GResetAllLanes now) = Some (ResetAllLanes now)"
| "queue_op g (GAdmission op) = None"
| "queue_op g (GSetConcurrency lane m now) = Some (SetConcurrency lane m now)"
| "queue_op g (GTaskSettled now i ok) = Some (TaskSettled now i ok)"
| "queue_op g (GClearLane lane) = Some (ClearLane lane)"
| "queue_op g (GResetLane lane now) = Some (ResetLane lane now)"
| "queue_op g (GWaitForActive t w) = Some (WaitForActive t w)"
| "queue_op g (GWaiterTimedOut w) = Some (WaiterTimedOut w)"

fun admission_op :: "gateway_op \<Rightarrow> adm_op option" where
  "admission_op GMarkDraining = Some MarkRestartDraining"
| "admission_op (GResetAllLanes now) = Some ResetWorkAdmission"
| "admission_op (GAdmission op) = Some op"
| "admission_op _ = None"

lemma gateway_step_queue:
  "gw_queue (gateway_step g e) = (case queue_op g e of None \<Rightarrow> gw_queue g | Some op \<Rightarrow> cq_step (gw_queue g) op)"
  by (cases e) (simp_all add: gateway_enqueue_def mark_gateway_draining_def gateway_reset_all_lanes_def on_queue_def Let_def)

lemma gateway_step_admission:
  "gw_admission (gateway_step g e) =
     (case admission_op e of None \<Rightarrow> gw_admission g | Some op \<Rightarrow> adm_step (gw_admission g) op)"
  by (cases e) (simp_all add: gateway_enqueue_def mark_gateway_draining_def gateway_reset_all_lanes_def on_queue_def Let_def)

section \<open>Operations that accept no task\<close>

text \<open>From \<open>s\<close> to \<open>t\<close> no task was accepted; a quiet change also settles none.\<close>

definition accepts_nothing :: "command_queue \<Rightarrow> command_queue \<Rightarrow> bool" where
  "accepts_nothing s t \<longleftrightarrow> (\<exists>es. cq_trace t = cq_trace s @ es \<and> accepted_of es = [])"

definition quiet :: "command_queue \<Rightarrow> command_queue \<Rightarrow> bool" where
  "quiet s t \<longleftrightarrow> (\<exists>es. cq_trace t = cq_trace s @ es \<and> accepted_of es = [] \<and> settled_of es = [])"

lemma quiet_accepts_nothing: "quiet s t \<Longrightarrow> accepts_nothing s t"
  by (auto simp: quiet_def accepts_nothing_def)

lemma accepts_nothing_trans: "accepts_nothing s t \<Longrightarrow> accepts_nothing t u \<Longrightarrow> accepts_nothing s u"
  by (fastforce simp: accepts_nothing_def)

lemma accepts_nothing_emit: "accepts_nothing s t \<Longrightarrow> accepted_of es = [] \<Longrightarrow> accepts_nothing s (cq_emit es t)"
  by (auto simp: accepts_nothing_def cq_emit_def)

lemma quiet_refl [intro]: "cq_trace t = cq_trace s \<Longrightarrow> quiet s t"
  by (simp add: quiet_def)

lemma quiet_trans [trans]: "quiet s t \<Longrightarrow> quiet t u \<Longrightarrow> quiet s u"
  by (fastforce simp: quiet_def)

lemma quiet_emit [intro]: "quiet s t \<Longrightarrow> accepted_of es = [] \<Longrightarrow> settled_of es = [] \<Longrightarrow> quiet s (cq_emit es t)"
  by (auto simp: quiet_def cq_emit_def)

lemma quiet_cong:
  "quiet s t \<Longrightarrow> cq_trace t' = cq_trace t \<Longrightarrow> quiet s t'"
  by (simp add: quiet_def)

lemma pump_entries_quiet:
  "pump_entries lane gen m now act nid q = (q', act', nid', fs, es) \<Longrightarrow> accepted_of es = [] \<and> settled_of es = []"
  by (induction lane gen m now act nid q arbitrary: q' act' nid' fs es rule: pump_entries.induct)
    (auto split: if_splits prod.splits)

lemma pump_quiet [intro]: "quiet s (pump lane now s)"
proof (cases "js_get (lanes s) lane")
  case None
  then show ?thesis by (simp add: pump_def quiet_refl)
next
  case (Some st)
  obtain q' act' nid' fs es where p: "pump_entries lane (ls_generation st) (ls_max_concurrent st) now (ls_active st)
      (next_task_id s) (ls_queue st) = (q', act', nid', fs, es)"
    by (metis prod_cases5)
  show ?thesis using pump_entries_quiet [OF p]
    by (auto simp: pump_def Some p quiet_def cq_emit_def put_lane_def)
qed

lemma get_lane_state_trace: "get_lane_state l s = (s1, st) \<Longrightarrow> cq_trace s1 = cq_trace s"
  by (auto simp: get_lane_state_def split: option.splits)

lemma put_lane_trace [simp]: "cq_trace (put_lane l st s) = cq_trace s"
  by (simp add: put_lane_def)

lemma drain_quiet: "quiet s (drain_lane lane now s)"
proof -
  obtain s1 st where g: "get_lane_state lane s = (s1, st)" by (cases "get_lane_state lane s")
  have "quiet s (put_lane lane (st\<lparr>ls_draining := True\<rparr>) s1)"
    by (rule quiet_refl) (simp add: get_lane_state_trace [OF g])
  from quiet_trans [OF this pump_quiet] show ?thesis
    by (simp add: drain_lane_def g get_lane_state_trace [OF g] quiet_refl)
qed

lemma resolve_waiter_quiet: "quiet s (resolve_active_task_waiter w b s)"
  by (simp add: resolve_active_task_waiter_def quiet_def cq_emit_def)

lemma notify_quiet: "quiet s (notify_active_task_waiters s)"
proof -
  let ?f = "\<lambda>(w, ids) s. if ids = [] \<or> \<not> has_pending_active_tasks ids s then resolve_active_task_waiter w True s else s"
  have "quiet s (fold ?f ws s)" for ws
  proof (induction ws arbitrary: s)
    case Nil
    then show ?case by (simp add: quiet_refl)
  next
    case (Cons p ws)
    have "quiet s (?f p s)" by (cases p) (simp add: resolve_waiter_quiet quiet_refl)
    from quiet_trans [OF this Cons.IH] show ?case by simp
  qed
  then show ?thesis by (simp add: notify_active_task_waiters_def)
qed

lemmas quiet_parts =
  drain_quiet notify_quiet pump_quiet resolve_waiter_quiet

lemma set_concurrency_quiet: "quiet s (set_command_lane_concurrency lane m now s)"
proof -
  let ?l = "normalize_lane lane"
  obtain s1 st where g: "get_lane_state ?l s = (s1, st)" by (cases "get_lane_state ?l s")
  let ?s2 = "put_lane ?l (st\<lparr>ls_max_concurrent := max (if is_quiet_probe_lane ?l then 1 else 0) \<lfloor>m\<rfloor>\<rparr>) s1"
  have p: "quiet s ?s2" by (rule quiet_refl) (simp add: get_lane_state_trace [OF g])
  with quiet_trans [OF p drain_quiet] show ?thesis
    by (simp add: set_command_lane_concurrency_def g Let_def)
qed

lemma task_settled_accepts_nothing: "accepts_nothing s (task_settled now i ok s)"
proof (cases "js_get (frames s) i")
  case None
  then show ?thesis by (simp add: task_settled_def accepts_nothing_def)
next
  case (Some f)
  let ?s0 = "s\<lparr>frames := js_delete i (frames s)\<rparr>"
  obtain s1 st where g: "get_lane_state (fr_lane f) ?s0 = (s1, st)" by (cases "get_lane_state (fr_lane f) ?s0")
  obtain st' c where ct: "complete_task st i (fr_generation f) = (st', c)" by (cases "complete_task st i (fr_generation f)")
  let ?s2 = "put_lane (fr_lane f) st' s1"
  have p: "quiet s ?s2" by (rule quiet_refl) (simp add: get_lane_state_trace [OF g])
  have "quiet s (pump (fr_lane f) now (notify_active_task_waiters ?s2))"
    by (rule quiet_trans [OF quiet_trans [OF p notify_quiet] pump_quiet])
  from this [THEN quiet_accepts_nothing] p [THEN quiet_accepts_nothing] show ?thesis
    by (auto simp: task_settled_def Some Let_def g ct accepts_nothing_emit)
qed

lemma reset_lane_quiet: "quiet s (fst (reset_command_lane lane now s))"
proof (cases "js_get (lanes s) (normalize_lane lane)")
  case None
  then show ?thesis by (simp add: reset_command_lane_def Let_def quiet_refl)
next
  case (Some st)
  let ?s1 = "put_lane (normalize_lane lane) (idle_lane st) s"
  have p: "quiet s ?s1" by (rule quiet_refl) simp
  with quiet_trans [OF p drain_quiet] show ?thesis
    by (simp add: reset_command_lane_def Some Let_def quiet_trans [OF _ notify_quiet])
qed

lemma clear_lane_accepts_nothing: "accepts_nothing s (fst (clear_command_lane lane s))"
  by (auto simp: clear_command_lane_def Let_def accepts_nothing_def cq_emit_def split: option.split)

lemma wait_quiet: "quiet s (wait_for_active_tasks t w s)"
proof -
  let ?s = "s\<lparr>active_task_waiters := js_set w (active_at_start s) (active_task_waiters s)\<rparr>"
  have "quiet s (notify_active_task_waiters ?s)"
    by (rule quiet_trans [OF quiet_refl notify_quiet]) simp
  then show ?thesis by (auto simp: wait_for_active_tasks_def Let_def)
qed

lemma reset_all_quiet: "quiet s (reset_all_lanes now s)"
proof -
  have f: "quiet s (fold (\<lambda>lane s. drain_lane lane now s) ls s)" for ls s
  proof (induction ls arbitrary: s)
    case Nil
    then show ?case by (simp add: quiet_refl)
  next
    case (Cons l ls)
    from quiet_trans [OF drain_quiet Cons.IH] show ?case by simp
  qed
  have "quiet s (s\<lparr>lanes := map (\<lambda>(lane, st). (lane, idle_lane st)) (lanes s)\<rparr>)" by (rule quiet_refl) simp
  from quiet_trans [OF quiet_trans [OF this f] notify_quiet] show ?thesis by (simp add: reset_all_lanes_def Let_def)
qed

lemma cq_step_accepts_nothing:
  assumes "\<And>lane task opts now. e \<noteq> Enqueue False lane task opts now"
  shows "accepts_nothing s (cq_step s e)"
proof (cases e)
  case (Enqueue gate_closed lane task opts now)
  then show ?thesis using assms
    by (cases gate_closed) (auto simp: enqueue_command_in_lane_def accepts_nothing_def cq_emit_def)
qed (simp_all add: set_concurrency_quiet task_settled_accepts_nothing reset_lane_quiet clear_lane_accepts_nothing
      wait_quiet waiter_timed_out_def resolve_waiter_quiet reset_all_quiet quiet_accepts_nothing)

section \<open>The composed gateway\<close>

definition gateway_ok :: "gateway \<Rightarrow> bool" where
  "gateway_ok g \<longleftrightarrow>
     adm_gate_inv (gw_admission g) \<and> adm_root_inv (gw_admission g) \<and> cq_inv (gw_queue g) \<and> balanced (gw_queue g)"

lemma gateway_step_ok [step_inv]: "gateway_ok g \<Longrightarrow> gateway_ok (gateway_step g e)"
  using balanced_step [of "gw_queue g"] adm_gate.step_keeps [of "gw_admission g"] adm_roots.step_keeps [of "gw_admission g"]
  by (auto simp: gateway_ok_def gateway_step_queue gateway_step_admission split: option.split)

interpretation gw_machine: invariant_machine gateway_step gateway_ok
  by unfold_locales (rule gateway_step_ok)

lemma initial_gateway_ok: "gateway_ok initial_gateway"
proof -
  have "adm_gate_inv initial_admission" "adm_root_inv initial_admission"
    by (simp_all add: adm_gate_inv_def adm_root_inv_def initial_admission_def root_live_def)
  moreover have "cq_inv initial_command_queue \<and> balanced initial_command_queue"
    by (simp, simp add: initial_command_queue_def balanced_def stock_def queued_of_def running_of_def)
  ultimately show ?thesis by (simp add: gateway_ok_def initial_gateway_def)
qed

definition resets_gateway :: "gateway_op \<Rightarrow> bool" where
  "resets_gateway e \<longleftrightarrow> admission_op e = Some ResetWorkAdmission"

lemma draining_step:
  assumes "restart_draining (gw_admission g)" and "\<not> resets_gateway e"
  shows "restart_draining (gw_admission (gateway_step g e)) \<and> accepts_nothing (gw_queue g) (gw_queue (gateway_step g e))"
proof
  show "restart_draining (gw_admission (gateway_step g e))"
    using assms restart_draining_step by (auto simp: gateway_step_admission resets_gateway_def split: option.split)
  have "accepts_nothing (gw_queue g) (cq_step (gw_queue g) op)" if "queue_op g e = Some op" for op
    by (rule cq_step_accepts_nothing) (use that assms(1) in \<open>cases e; auto simp: is_subordinate_admission_closed_def\<close>)
  then show "accepts_nothing (gw_queue g) (gw_queue (gateway_step g e))"
    by (auto simp: gateway_step_queue accepts_nothing_def split: option.split)
qed

lemma draining_run:
  "restart_draining (gw_admission g) \<Longrightarrow> \<forall>e \<in> set es. \<not> resets_gateway e \<Longrightarrow>
   accepts_nothing (gw_queue g) (gw_queue (foldl gateway_step g es))"
proof (induction es arbitrary: g)
  case Nil
  then show ?case by (simp add: accepts_nothing_def)
next
  case (Cons e es)
  note s = draining_step [OF Cons.prems(1), of e]
  show ?case
    using accepts_nothing_trans [OF _ Cons.IH [of "gateway_step g e"], of "gw_queue g"] s Cons.prems by simp
qed

lemma stock_shrinks:
  assumes "balanced s" and "balanced t" and "accepts_nothing s t"
  shows "stock t \<subseteq># stock s"
proof -
  obtain es where es: "cq_trace t = cq_trace s @ es" "accepted_of es = []" using assms(3) by (auto simp: accepts_nothing_def)
  then have "stock t + mset (settled_of es) = stock s" using assms(1,2) by (simp add: balanced_def ac_simps)
  then show ?thesis by (metis mset_subset_eq_add_left)
qed

text \<open>C31: Once a restart drain began, and until the gateway is reset, no operation of any interleaving
  accepts a task: the accepted tasks stay the same and those queued or running only become fewer.\<close>

theorem restart_drain_accepts_nothing:
  fixes es :: "gateway_op list"
  assumes "\<forall>e \<in> set later. \<not> resets_gateway e"
  defines "g \<equiv> mark_gateway_draining (foldl gateway_step initial_gateway es)"
  defines "h \<equiv> foldl gateway_step g later"
  shows "accepted_of (cq_trace (gw_queue h)) = accepted_of (cq_trace (gw_queue g)) \<and>
    stock (gw_queue h) \<subseteq># stock (gw_queue g)"
proof -
  have g: "gateway_ok g"
    using gateway_step_ok [OF gw_machine.run_keeps [OF initial_gateway_ok, of es], of GMarkDraining] by (simp add: g_def)
  have h: "gateway_ok h" unfolding h_def by (rule gw_machine.run_keeps [OF g])
  have "restart_draining (gw_admission g)"
    by (simp add: g_def mark_gateway_draining_def mark_restart_draining_def adm_gate_defs Let_def split: option.split)
  from draining_run [OF this assms(1)] have an: "accepts_nothing (gw_queue g) (gw_queue h)" by (simp add: h_def)
  have "stock (gw_queue h) \<subseteq># stock (gw_queue g)" using stock_shrinks [OF _ _ an] g h by (simp add: gateway_ok_def)
  then show ?thesis using an by (auto simp: accepts_nothing_def)
qed

theorem restart_drain_accepts_nothing_witness:
  fixes g h :: gateway
  defines "g \<equiv> mark_gateway_draining (foldl gateway_step initial_gateway
      [GEnqueue None ''a'' 11 default_enqueue_options 0, GEnqueue None ''a'' 12 default_enqueue_options 1])"
  defines "h \<equiv> foldl gateway_step g [GEnqueue None ''a'' 13 default_enqueue_options 2, GTaskSettled 3 1 True]"
  shows "accepted_of (cq_trace (gw_queue h)) = accepted_of (cq_trace (gw_queue g)) \<and>
    stock (gw_queue h) \<subseteq># stock (gw_queue g)"
  unfolding g_def h_def by (rule restart_drain_accepts_nothing) (simp add: resets_gateway_def)

text \<open>An in-process restart loses no pending work: \<open>resetAllLanes\<close> reopens the gate and keeps every
  queued task queued or starts it, settling none.\<close>

theorem reset_all_lanes_keeps_pending_work:
  fixes es :: "gateway_op list"
  defines "g \<equiv> foldl gateway_step initial_gateway es"
  shows "\<not> is_gateway_draining (gateway_reset_all_lanes now g) \<and>
    stock (gw_queue (gateway_reset_all_lanes now g)) = stock (gw_queue g) \<and>
    settled_of (cq_trace (gw_queue (gateway_reset_all_lanes now g))) = settled_of (cq_trace (gw_queue g))"
proof -
  have g: "gateway_ok g" unfolding g_def by (rule gw_machine.run_keeps [OF initial_gateway_ok])
  have b: "balanced (reset_all_lanes now (gw_queue g))" "balanced (gw_queue g)"
    using g reset_all_balanced by (simp_all add: gateway_ok_def)
  obtain es where q: "cq_trace (reset_all_lanes now (gw_queue g)) = cq_trace (gw_queue g) @ es"
      "accepted_of es = []" "settled_of es = []"
    using reset_all_quiet [of "gw_queue g" now] by (auto simp: quiet_def)
  then have "stock (reset_all_lanes now (gw_queue g)) = stock (gw_queue g)" using b by (simp add: balanced_def)
  moreover have "\<not> is_work_admission_closed (reset_work_admission (gw_admission g))"
    by (simp add: reset_work_admission_def adm_gate_defs Let_def split: option.split)
  ultimately show ?thesis using q by (simp add: gateway_reset_all_lanes_def is_gateway_draining_def Let_def)
qed

end
