(* ===== verification/Lane_Scheduler.thy ===== *)
theory Lane_Scheduler
  imports Command_Queue_Props
begin

text \<open>
  The specification that one lane of the command queue implements: a work-conserving scheduler with
  one waiting line per priority class and a limit on the running tasks. It knows no sequence
  numbers, no draining flag and no pump. \<open>lane_view\<close> abstracts a queue state to the scheduler of one
  lane, and every operation of the queue is one scheduler step of every lane.
\<close>

section \<open>The specification\<close>

record sched =
  sc_waiting :: "queue_priority \<Rightarrow> nat list"
  sc_running :: "nat list"
  sc_limit :: int
  sc_log :: "(nat \<times> nat) list"

definition sched_idle :: "sched \<Rightarrow> bool" where
  "sched_idle S \<longleftrightarrow> (\<forall>c. sc_waiting S c = [])"

text \<open>The next task: the first of the highest class that waits.\<close>

definition sched_next :: "(queue_priority \<Rightarrow> nat list) \<Rightarrow> (nat \<times> (queue_priority \<Rightarrow> nat list)) option" where
  "sched_next w =
     (case w Foreground of t # ts \<Rightarrow> Some (t, w(Foreground := ts)) | [] \<Rightarrow>
        (case w Normal of t # ts \<Rightarrow> Some (t, w(Normal := ts)) | [] \<Rightarrow>
           (case w Background of t # ts \<Rightarrow> Some (t, w(Background := ts)) | [] \<Rightarrow> None)))"

text \<open>Starting tasks under fresh ids until the limit is reached or nobody waits.\<close>

inductive sched_start :: "sched \<Rightarrow> sched \<Rightarrow> bool" where
  saturated: "sched_idle S \<or> sc_limit S \<le> int (length (sc_running S)) \<Longrightarrow> sched_start S S"
| start_next: "int (length (sc_running S)) < sc_limit S \<Longrightarrow> sched_next (sc_waiting S) = Some (t, w) \<Longrightarrow>
    i \<notin> set (sc_running S) \<Longrightarrow>
    sched_start (S\<lparr>sc_waiting := w, sc_running := sc_running S @ [i], sc_log := sc_log S @ [(t, i)]\<rparr>) S' \<Longrightarrow>
    sched_start S S'"

datatype sched_label = Submit queue_priority nat | Finish nat | Limit int | Clear | Restart | Quiet

inductive sched_step :: "sched \<Rightarrow> sched_label \<Rightarrow> sched \<Rightarrow> bool" where
  submit: "sched_start (S\<lparr>sc_waiting := (sc_waiting S)(c := sc_waiting S c @ [t])\<rparr>) S' \<Longrightarrow> sched_step S (Submit c t) S'"
| finish: "sched_start (S\<lparr>sc_running := set_del i (sc_running S)\<rparr>) S' \<Longrightarrow> sched_step S (Finish i) S'"
| limit: "sched_start (S\<lparr>sc_limit := m\<rparr>) S' \<Longrightarrow> sched_step S (Limit m) S'"
| clear: "sched_step S Clear (S\<lparr>sc_waiting := (\<lambda>_. [])\<rparr>)"
| restart: "sched_start (S\<lparr>sc_running := []\<rparr>) S' \<Longrightarrow> sched_step S Restart S'"
| quiet: "sched_step S Quiet S"

section \<open>The view of a lane\<close>

definition waiting_of :: "queue_entry list \<Rightarrow> queue_priority \<Rightarrow> nat list" where
  "waiting_of q c = map qe_task (filter (\<lambda>e. qe_priority e = resolve_queue_priority (Some c)) q)"

definition sched_of :: "queue_entry list \<Rightarrow> nat list \<Rightarrow> int \<Rightarrow> (nat \<times> nat) list \<Rightarrow> sched" where
  "sched_of q act m started = \<lparr>sc_waiting = waiting_of q, sc_running = act, sc_limit = m, sc_log = started\<rparr>"

definition lane_log :: "string \<Rightarrow> cq_effect list \<Rightarrow> (nat \<times> nat) list" where
  "lane_log l es = map (\<lambda>(t, l, i, g). (t, i)) (filter (\<lambda>(t, l', i, g). l' = l) (started_of es))"

definition the_lane :: "string \<Rightarrow> command_queue \<Rightarrow> lane_state" where
  "the_lane l s = (case js_get (lanes s) l of Some st \<Rightarrow> st | None \<Rightarrow> new_lane)"

definition lane_view :: "string \<Rightarrow> command_queue \<Rightarrow> sched" where
  "lane_view l s =
     sched_of (ls_queue (the_lane l s)) (ls_active (the_lane l s)) (ls_max_concurrent (the_lane l s)) (lane_log l (cq_trace s))"

definition lane_label :: "string \<Rightarrow> command_queue \<Rightarrow> cq_op \<Rightarrow> sched_label" where
  "lane_label l s e =
     (case e of
        SetConcurrency lane m now \<Rightarrow>
          if normalize_lane lane = l then Limit (max (if is_quiet_probe_lane l then 1 else 0) \<lfloor>m\<rfloor>) else Quiet
      | Enqueue gate_closed lane task opts now \<Rightarrow>
          if \<not> gate_closed \<and> normalize_lane lane = l
          then Submit (case eo_priority opts of Some c \<Rightarrow> c | None \<Rightarrow> Normal) task else Quiet
      | TaskSettled now i ok \<Rightarrow>
          (case js_get (frames s) i of
             Some f \<Rightarrow> if fr_lane f = l \<and> fr_generation f = ls_generation (the_lane l s) then Finish i else Quiet
           | None \<Rightarrow> Quiet)
      | ClearLane lane \<Rightarrow> if normalize_lane lane = l then Clear else Quiet
      | ResetLane lane now \<Rightarrow> if normalize_lane lane = l \<and> js_get (lanes s) l \<noteq> None then Restart else Quiet
      | ResetAllLanes now \<Rightarrow> if js_get (lanes s) l \<noteq> None then Restart else Quiet
      | _ \<Rightarrow> Quiet)"

section \<open>The sorted queue is three lines\<close>

lemma waiting_of_Cons:
  "waiting_of (e # q) =
     (if qe_priority e = 1 then (waiting_of q)(Foreground := qe_task e # waiting_of q Foreground)
      else if qe_priority e = 0 then (waiting_of q)(Normal := qe_task e # waiting_of q Normal)
      else if qe_priority e = - 1 then (waiting_of q)(Background := qe_task e # waiting_of q Background)
      else waiting_of q)"
proof
  fix c
  show "waiting_of (e # q) c = (if qe_priority e = 1 then (waiting_of q)(Foreground := qe_task e # waiting_of q Foreground)
      else if qe_priority e = 0 then (waiting_of q)(Normal := qe_task e # waiting_of q Normal)
      else if qe_priority e = - 1 then (waiting_of q)(Background := qe_task e # waiting_of q Background)
      else waiting_of q) c"
    by (cases c) (simp_all add: waiting_of_def)
qed

lemma class_cases:
  assumes "p \<in> range (resolve_queue_priority \<circ> Some)"
  shows "p = 1 \<or> p = 0 \<or> p = - 1"
proof -
  obtain c where "p = resolve_queue_priority (Some c)" using assms by auto
  then show ?thesis by (cases c) auto
qed

lemma no_higher_class:
  assumes "\<forall>b \<in> set q. qe_priority b \<le> p" and "p < resolve_queue_priority (Some c)"
  shows "waiting_of q c = []"
  using assms by (auto simp: waiting_of_def filter_empty_conv)

lemma sched_next_head:
  assumes "sorted_wrt entry_before (e # q)" and "qe_priority e \<in> range (resolve_queue_priority \<circ> Some)"
  shows "sched_next (waiting_of (e # q)) = Some (qe_task e, waiting_of q)"
proof -
  have le: "\<forall>b \<in> set q. qe_priority b \<le> qe_priority e" using assms(1) by (auto simp: entry_before_def)
  consider "qe_priority e = 1" | "qe_priority e = 0" | "qe_priority e = - 1" using class_cases [OF assms(2)] by blast
  then show ?thesis
  proof cases
    case 1
    then show ?thesis by (simp add: waiting_of_Cons sched_next_def)
  next
    case 2
    then have "waiting_of q Foreground = []" by (intro no_higher_class [OF le]) simp
    then show ?thesis using 2 by (simp add: waiting_of_Cons sched_next_def)
  next
    case 3
    then have "waiting_of q Foreground = []" "waiting_of q Normal = []" by (intro no_higher_class [OF le]; simp)+
    then show ?thesis using 3 by (simp add: waiting_of_Cons sched_next_def)
  qed
qed

lemma waiting_of_insert:
  assumes "sorted_wrt entry_before q" and "\<forall>e \<in> set q. qe_sequence e < qe_sequence x"
    and "qe_task y = qe_task x" and "qe_priority y = qe_priority x" and "qe_priority x = resolve_queue_priority (Some c)"
  shows "waiting_of (take (insert_position x q) q @ y # drop (insert_position x q) q) =
     (waiting_of q)(c := waiting_of q c @ [qe_task x])"
proof
  let ?i = "insert_position x q"
  fix d
  have split: "waiting_of (take ?i q @ y # drop ?i q) d =
      waiting_of (take ?i q) d @ (if d = c then [qe_task x] else []) @ waiting_of (drop ?i q) d"
    using assms(3-5) by (cases c; cases d) (simp_all add: waiting_of_def)
  have same: "waiting_of q d = waiting_of (take ?i q) d @ waiting_of (drop ?i q) d"
    by (metis append_take_drop_id filter_append map_append waiting_of_def)
  have rest: "waiting_of (drop ?i q) c = []"
  proof -
    have "\<forall>e \<in> set (drop ?i q). qe_priority e < qe_priority x"
    proof (cases "drop ?i q")
      case (Cons e es)
      have dw: "drop ?i q = dropWhile (\<lambda>e. \<not> runs_after x e) q"
        by (simp add: insert_position_def dropWhile_eq_drop)
      then have "runs_after x e" using Cons by (metis dropWhile_eq_Cons_conv)
      moreover have "e \<in> set q" using Cons by (metis in_set_dropD list.set_intros(1))
      ultimately have e: "qe_priority e < qe_priority x" using assms(2) by (auto simp: runs_after_def)
      have "sorted_wrt entry_before (e # es)" using assms(1) Cons by (metis sorted_wrt_drop)
      then show ?thesis using e Cons by (auto simp: entry_before_def)
    qed simp
    then show ?thesis using assms(5) by (auto simp: waiting_of_def filter_empty_conv)
  qed
  show "waiting_of (take ?i q @ y # drop ?i q) d = ((waiting_of q)(c := waiting_of q c @ [qe_task x])) d"
    using split same rest by (cases "d = c") simp_all
qed

lemma sched_idle_of: "q = [] \<Longrightarrow> sched_idle (sched_of q act m lg)"
  by (simp add: sched_idle_def sched_of_def waiting_of_def)

text \<open>The pump is the start of the specification.\<close>

lemma sched_start_pump:
  fixes act nid q m lg
  defines "k \<equiv> pump_count m act q"
  assumes "sorted_wrt entry_before q" and "\<forall>e \<in> set q. qe_priority e \<in> range (resolve_queue_priority \<circ> Some)"
    and "\<forall>t \<in> set act. t < nid"
  shows "sched_start (sched_of q act m lg)
     (sched_of (drop k q) (act @ [nid..<nid + k]) m (lg @ zip (map qe_task (take k q)) [nid..<nid + k]))"
  using assms(2-4) unfolding k_def
proof (induction q arbitrary: act nid lg)
  case Nil
  then show ?case by (simp add: pump_count_def) (rule saturated, simp add: sched_idle_of)
next
  case (Cons e q)
  show ?case
  proof (cases "int (length act) < m")
    case False
    then show ?thesis by (simp add: pump_count_def) (rule saturated, simp add: sched_of_def)
  next
    case True
    have k: "pump_count m act (e # q) = Suc (pump_count m (act @ [nid]) q)"
      using True by (auto simp: pump_count_def)
    have IH: "sched_start (sched_of q (act @ [nid]) m (lg @ [(qe_task e, nid)]))
      (sched_of (drop (pump_count m (act @ [nid]) q) q) ((act @ [nid]) @ [Suc nid..<Suc nid + pump_count m (act @ [nid]) q]) m
        ((lg @ [(qe_task e, nid)]) @ zip (map qe_task (take (pump_count m (act @ [nid]) q) q)) [Suc nid..<Suc nid + pump_count m (act @ [nid]) q]))"
      by (rule Cons.IH) (use Cons.prems in \<open>auto intro: less_SucI\<close>)
    show ?thesis
    proof (rule start_next)
      show "int (length (sc_running (sched_of (e # q) act m lg))) < sc_limit (sched_of (e # q) act m lg)"
        using True by (simp add: sched_of_def)
      show "sched_next (sc_waiting (sched_of (e # q) act m lg)) = Some (qe_task e, waiting_of q)"
        using sched_next_head [of e q] Cons.prems(1,2) by (simp add: sched_of_def)
      show "nid \<notin> set (sc_running (sched_of (e # q) act m lg))"
        using Cons.prems(3) by (auto simp: sched_of_def)
    qed (use IH in \<open>simp add: k sched_of_def upt_head del: upt_Suc\<close>)
  qed
qed

section \<open>The view under the building blocks\<close>

lemma the_lane_get [simp]: "js_get (lanes s) l = Some st \<Longrightarrow> the_lane l s = st"
  by (simp add: the_lane_def)

lemma lane_log_append [simp]: "lane_log l (xs @ ys) = lane_log l xs @ lane_log l ys"
  by (simp add: lane_log_def)

lemma lane_log_none: "started_of es = [] \<Longrightarrow> lane_log l es = []"
  by (simp add: lane_log_def)

lemma lane_log_pump:
  assumes "k \<le> length q"
  shows "lane_log l' (pump_effects l g now nid k q) = (if l' = l then zip (map qe_task (take k q)) [nid..<nid + k] else [])"
proof -
  have "map (\<lambda>x. (qe_task (snd x), fst x)) (zip [nid..<nid + k] (take k q)) = zip (map qe_task (take k q)) [nid..<nid + k]"
    using assms by (intro nth_equalityI) auto
  moreover have "filter (\<lambda>(t, l'', i, g). l'' = l') (map (\<lambda>(i, e). (qe_task e, l, i, g)) zs) =
      (if l' = l then map (\<lambda>(i, e). (qe_task e, l, i, g)) zs else [])" for zs :: "(nat \<times> queue_entry) list"
    by (induction zs) auto
  ultimately show ?thesis
    by (simp add: lane_log_def started_of_pump_effects [OF assms] case_prod_beta comp_def)
qed

lemma view_same:
  "js_get (lanes t) l = js_get (lanes s) l \<Longrightarrow> lane_log l (cq_trace t) = lane_log l (cq_trace s) \<Longrightarrow>
   lane_view l t = lane_view l s"
  by (simp add: lane_view_def the_lane_def)

lemma view_emit [simp]: "started_of es = [] \<Longrightarrow> lane_view l (cq_emit es s) = lane_view l s"
  by (rule view_same) (simp_all add: cq_emit_def lane_log_none)

lemma view_put:
  "lane_view l (put_lane l st s) = sched_of (ls_queue st) (ls_active st) (ls_max_concurrent st) (lane_log l (cq_trace s))"
  "l' \<noteq> l \<Longrightarrow> lane_view l' (put_lane l st s) = lane_view l' s"
  by (simp_all add: lane_view_def the_lane_def put_lane_def)

lemma view_get_lane:
  "get_lane_state l s = (s1, st) \<Longrightarrow> lane_view l' s1 = lane_view l' s \<and> st = the_lane l s \<and> cq_trace s1 = cq_trace s"
  by (auto simp: get_lane_state_def lane_view_def the_lane_def split: option.splits if_splits)

lemma view_fields [simp]:
  "lane_view l (s\<lparr>next_queue_sequence := n\<rparr>) = lane_view l s"
  "lane_view l (s\<lparr>frames := fs\<rparr>) = lane_view l s"
  "lane_view l (s\<lparr>active_task_waiters := ws\<rparr>) = lane_view l s"
  by (simp_all add: lane_view_def the_lane_def)

lemma view_notify [simp]: "js_wf (active_task_waiters s) \<Longrightarrow> lane_view l (notify_active_task_waiters s) = lane_view l s"
  by (rule view_same) (simp_all add: notify_closed lane_log_none)

lemma active_below:
  assumes "cq_base P s" and "js_get (lanes s) l = Some st"
  shows "\<forall>t \<in> set (ls_active st). t < next_task_id s"
proof
  fix t assume "t \<in> set (ls_active st)"
  then obtain f where "js_get (frames s) t = Some f" using assms by (fastforce simp: cq_base_def)
  then have "t \<in> set (js_keys (frames s))" by (metis js_get_None_keys option.distinct(1))
  then show "t < next_task_id s" using assms(1) by (auto simp: cq_base_def)
qed

lemma view_pump:
  assumes "cq_base P s" and "js_get (lanes s) l = Some st"
  shows "sched_start (lane_view l s) (lane_view l (pump l now s))"
    and "l' \<noteq> l \<Longrightarrow> lane_view l' (pump l now s) = lane_view l' s"
proof -
  let ?k = "pump_count (ls_max_concurrent st) (ls_active st) (ls_queue st)"
  have core: "lane_core (next_queue_sequence s) st" using assms by (auto simp: cq_base_def)
  have v: "lane_view l (pump l now s) =
      sched_of (drop ?k (ls_queue st)) (ls_active st @ [next_task_id s..<next_task_id s + ?k]) (ls_max_concurrent st)
        (lane_log l (cq_trace s) @ zip (map qe_task (take ?k (ls_queue st))) [next_task_id s..<next_task_id s + ?k])"
    by (simp add: pump_closed [OF assms] lane_view_def the_lane_def lane_log_pump pump_count_le)
  show "sched_start (lane_view l s) (lane_view l (pump l now s))"
    unfolding v using sched_start_pump [of "ls_queue st" "ls_active st" "next_task_id s" "ls_max_concurrent st"] core
      active_below [OF assms] by (simp add: lane_view_def assms(2) lane_core_def)
  show "lane_view l' (pump l now s) = lane_view l' s" if "l' \<noteq> l"
    using that by (simp add: pump_closed [OF assms] lane_view_def the_lane_def lane_log_pump pump_count_le)
qed

lemma view_drain:
  assumes "cq_base P s" and "js_get (lanes s) l = Some st" and "\<not> ls_draining st"
  shows "sched_start (lane_view l s) (lane_view l (drain_lane l now s))"
    and "l' \<noteq> l \<Longrightarrow> lane_view l' (drain_lane l now s) = lane_view l' s"
  unfolding drain_lane_eq [OF assms] by (rule view_pump [OF assms(1,2)], assumption?)+

section \<open>Every operation is a scheduler step\<close>

lemma view_enqueue:
  assumes "cq_inv s"
  shows "sched_step (lane_view l s) (lane_label l s (Enqueue gate_closed lane task opts now))
     (lane_view l (enqueue_command_in_lane gate_closed lane task opts now s))"
proof (cases gate_closed)
  case True
  then show ?thesis by (simp add: lane_label_def quiet)
next
  case False
  let ?l = "normalize_lane lane"
  obtain s1 st where g: "get_lane_state ?l s = (s1, st)" by (cases "get_lane_state ?l s")
  have inv1: "cq_inv s1" by (rule get_lane_state_inv [OF assms g])
  have st: "js_get (lanes s1) ?l = Some st" using get_lane_state_base(2) assms g by (auto simp: cq_inv_def)
  note e = enqueued_start [OF inv1 st, of task opts now]
  let ?s = "enqueued ?l task opts now st s1"
  have other: "lane_view l ?s = lane_view l s" if "l \<noteq> ?l"
    using that view_get_lane [OF g] by (simp add: enqueued_def view_put(2))
  show ?thesis
  proof (cases "?l = l")
    case False
    then show ?thesis using \<open>\<not> gate_closed\<close> view_drain(2) [OF e(1-3)] other
      by (simp add: enqueue_eq [OF g] lane_label_def quiet)
  next
    case True
    let ?c = "case eo_priority opts of Some c \<Rightarrow> c | None \<Rightarrow> Normal"
    let ?x = "make_entry task opts now (next_queue_sequence s1)"
    have c: "qe_priority ?x = resolve_queue_priority (Some ?c)" by (simp add: make_entry_def split: option.split)
    have "waiting_of (ls_queue (enqueued_lane task opts now st s1)) = (waiting_of (ls_queue st))(?c := waiting_of (ls_queue st) ?c @ [qe_task ?x])"
      using cq_inv_lane(1) [OF inv1 st] unfolding enqueued_lane_def enqueue_lane_entry_def Let_def
      by (simp, intro waiting_of_insert) (simp_all add: c lane_core_def, simp add: make_entry_def)
    moreover have "qe_task ?x = task" by (simp add: make_entry_def)
    ultimately have "lane_view l ?s = (lane_view l s)\<lparr>sc_waiting := (sc_waiting (lane_view l s))(?c := sc_waiting (lane_view l s) ?c @ [task])\<rparr>"
      using view_get_lane [OF g] True by (simp add: enqueued_def view_put(1) lane_view_def [of l s] sched_of_def)
    then show ?thesis using \<open>\<not> gate_closed\<close> True view_drain(1) [OF e(1-3), of now]
      by (simp add: enqueue_eq [OF g] lane_label_def submit)
  qed
qed

lemma view_set_concurrency:
  assumes "cq_inv s"
  shows "sched_step (lane_view l s) (lane_label l s (SetConcurrency lane m now))
     (lane_view l (set_command_lane_concurrency lane m now s))"
proof -
  let ?l = "normalize_lane lane"
  obtain s1 st where g: "get_lane_state ?l s = (s1, st)" by (cases "get_lane_state ?l s")
  have inv1: "cq_inv s1" by (rule get_lane_state_inv [OF assms g])
  have st: "js_get (lanes s1) ?l = Some st" using get_lane_state_base(2) assms g by (auto simp: cq_inv_def)
  let ?m = "max (if is_quiet_probe_lane ?l then 1 else 0) \<lfloor>m\<rfloor>"
  let ?st = "st\<lparr>ls_max_concurrent := ?m\<rparr>"
  let ?s = "put_lane ?l ?st s1"
  have b: "cq_base (\<lambda>x. True \<and> x \<noteq> ?l) ?s" by (rule put_lane_base_same [OF inv1 st]) simp_all
  have g2: "js_get (lanes ?s) ?l = Some ?st" by (simp add: put_lane_def)
  have d: "\<not> ls_draining ?st" using cq_inv_lane(2) [OF inv1 st] by (simp add: lane_settled_def)
  have v: "lane_view l ?s = (if ?l = l then (lane_view l s)\<lparr>sc_limit := ?m\<rparr> else lane_view l s)"
    using view_get_lane [OF g] by (simp add: view_put) (simp add: lane_view_def sched_of_def)
  have stop: "sched_start S S" if "sc_limit S \<le> 0" for S using that by (intro saturated) simp
  show ?thesis
  proof (cases "?l = l")
    case False
    then show ?thesis using view_drain(2) [OF b g2 d] v
      by (simp add: set_command_lane_concurrency_def g Let_def lane_label_def quiet)
  next
    case True
    have "sched_start (lane_view l ?s) (lane_view l (set_command_lane_concurrency lane m now s))"
    proof (cases "?m > 0")
      case True
      then have "set_command_lane_concurrency lane m now s = drain_lane ?l now ?s"
        by (simp only: set_command_lane_concurrency_def g Let_def prod.case if_True)
      then show ?thesis using view_drain(1) [OF b g2 d, of now] \<open>?l = l\<close> by simp
    next
      case False
      then have "set_command_lane_concurrency lane m now s = ?s"
        by (simp only: set_command_lane_concurrency_def g Let_def prod.case if_False)
      moreover have "?m \<le> 0" using False by linarith
      then have "sc_limit (lane_view l ?s) \<le> 0" unfolding v using \<open>?l = l\<close> by (simp only: if_True) simp
      ultimately show ?thesis by (simp add: stop)
    qed
    then show ?thesis using v True by (simp add: lane_label_def limit)
  qed
qed

lemma view_settled:
  assumes "cq_inv s"
  shows "sched_step (lane_view l s) (lane_label l s (TaskSettled now i ok)) (lane_view l (task_settled now i ok s))"
proof (cases "js_get (frames s) i")
  case None
  then show ?thesis by (simp add: task_settled_def lane_label_def quiet)
next
  case (Some f)
  let ?l = "fr_lane f"
  obtain s1 st where g: "get_lane_state ?l s = (s1, st)" by (cases "get_lane_state ?l s")
  note base = get_lane_state_base [OF assms [unfolded cq_inv_def, THEN conjunct1] g]
  have inv1: "cq_inv s1" by (rule get_lane_state_inv [OF assms g])
  note b = completed_base [OF inv1 base(2) Some [folded base(4)]]
  let ?s2 = "completed i f st s1"
  let ?st = "fst (complete_task st i (fr_generation f))"
  have st: "the_lane ?l s = st" using view_get_lane [OF g] by simp
  have frames: "lane_view l (s1\<lparr>frames := js_delete i (frames s1)\<rparr>) = lane_view l s"
    using view_get_lane [OF g] by simp
  have v: "lane_view l ?s2 = (if ?l = l then (lane_view l s)\<lparr>sc_running := ls_active ?st\<rparr> else lane_view l s)"
    using frames view_get_lane [OF g] st
    by (simp add: completed_def view_put complete_task_def) (auto simp: lane_view_def sched_of_def)
  have out: "lane_view l (cq_emit [outcome ok f] t) = lane_view l t" for t by (simp add: outcome_def)
  have g3: "js_get (lanes (notify_active_task_waiters ?s2)) ?l = Some ?st"
    by (simp add: notify_frame [OF b(2)] completed_get)
  note p = view_pump [OF notify_ok(1) [OF b] g3]
  show ?thesis
  proof (cases "?l = l \<and> fr_generation f = ls_generation st")
    case True
    then have act: "ls_active ?st = set_del i (sc_running (lane_view l s))"
      using st by (simp add: complete_task_def lane_view_def sched_of_def)
    have "lane_label l s (TaskSettled now i ok) = Finish i" using True Some st by (simp add: lane_label_def)
    moreover have "sched_start (lane_view l ?s2) (lane_view l (task_settled now i ok s))"
      using True p(1) [of now] b(2) by (simp add: task_settled_eq [OF Some g] out)
    ultimately show ?thesis using True v act by (simp add: finish)
  next
    case False
    have label: "lane_label l s (TaskSettled now i ok) = Quiet" using False Some st by (auto simp: lane_label_def)
    have "lane_view l ?s2 = lane_view l s"
    proof (cases "?l = l")
      case True
      then have "ls_active ?st = sc_running (lane_view l s)"
        using False st by (simp add: complete_task_def lane_view_def sched_of_def)
      then show ?thesis using v True by simp
    qed (simp add: v)
    then have "lane_view l (task_settled now i ok s) = lane_view l s"
      using False p(2) [of l now] b(2) by (auto simp: task_settled_eq [OF Some g] out)
    then show ?thesis by (simp add: label quiet)
  qed
qed

lemma view_clear:
  "sched_step (lane_view l s) (lane_label l s (ClearLane lane)) (lane_view l (fst (clear_command_lane lane s)))"
proof (cases "js_get (lanes s) (normalize_lane lane)")
  case None
  have empty: "waiting_of [] = (\<lambda>_. [])" by (simp add: waiting_of_def fun_eq_iff)
  have "lane_view l s = (lane_view l s)\<lparr>sc_waiting := (\<lambda>_. [])\<rparr>" if "normalize_lane lane = l"
    using None that by (simp add: lane_view_def the_lane_def new_lane_def sched_of_def empty)
  then show ?thesis using None clear [of "lane_view l s"]
    by (auto simp: clear_command_lane_def Let_def lane_label_def quiet)
next
  case (Some st)
  have empty: "waiting_of [] = (\<lambda>_. [])" by (simp add: waiting_of_def fun_eq_iff)
  have log: "started_of (map (\<lambda>e. TaskRejected (qe_task e) (LaneCleared c)) q) = []" for q c
    by (induction q) simp_all
  show ?thesis
  proof (cases "normalize_lane lane = l")
    case True
    have "lane_view l (fst (clear_command_lane lane s)) = (lane_view l s)\<lparr>sc_waiting := (\<lambda>_. [])\<rparr>"
      using Some True log by (simp add: clear_command_lane_def Let_def view_put(1)) (simp add: lane_view_def sched_of_def empty)
    then show ?thesis using True clear by (simp add: lane_label_def)
  next
    case False
    then show ?thesis using Some log by (simp add: clear_command_lane_def Let_def view_put(2) lane_label_def quiet)
  qed
qed

lemma view_idle:
  "js_get (lanes s) l = Some st \<Longrightarrow> js_get (lanes t) l = Some (idle_lane st) \<Longrightarrow> cq_trace t = cq_trace s \<Longrightarrow>
   lane_view l t = (lane_view l s)\<lparr>sc_running := []\<rparr>"
  by (simp add: lane_view_def sched_of_def idle_lane_def)

lemma start_nobody: "waiting_of (ls_queue (the_lane l s)) = waiting_of [] \<Longrightarrow> sched_start (lane_view l s) (lane_view l s)"
  by (rule saturated) (simp add: lane_view_def sched_of_def sched_idle_def, simp add: waiting_of_def)

lemma view_reset_lane:
  assumes "cq_inv s"
  shows "sched_step (lane_view l s) (lane_label l s (ResetLane lane now)) (lane_view l (fst (reset_command_lane lane now s)))"
proof (cases "js_get (lanes s) (normalize_lane lane)")
  case None
  then show ?thesis by (auto simp: reset_command_lane_def Let_def lane_label_def quiet)
next
  case (Some st)
  let ?l = "normalize_lane lane"
  let ?s1 = "put_lane ?l (idle_lane st) s"
  let ?s2 = "if ls_queue st \<noteq> [] then drain_lane ?l now ?s1 else ?s1"
  note r = reset_start [OF assms Some]
  have w: "js_wf (active_task_waiters ?s2)" using r(5) drain_lane_frame(1) [OF r(1-3), of now] by simp
  have eq: "lane_view l (fst (reset_command_lane lane now s)) = lane_view l ?s2"
    using w Some by (simp add: reset_command_lane_def Let_def)
  show ?thesis
  proof (cases "?l = l")
    case True
    have v: "lane_view l ?s1 = (lane_view l s)\<lparr>sc_running := []\<rparr>"
      by (rule view_idle) (use Some True in \<open>simp_all add: put_lane_def\<close>)
    have "sched_start (lane_view l ?s1) (lane_view l ?s2)"
      using view_drain(1) [OF r(1-3), of now] start_nobody [of l ?s1] r(2) True by (auto simp: idle_lane_def)
    then show ?thesis using True Some v eq by (simp add: lane_label_def restart)
  next
    case False
    then have "lane_view l ?s2 = lane_view l s" using view_drain(2) [OF r(1-3)] by (simp add: view_put(2))
    then show ?thesis using False eq by (simp add: lane_label_def quiet)
  qed
qed

text \<open>The second loop of \<open>resetAllLanes\<close> starts every lane once.\<close>

lemma view_drain_all:
  assumes "cq_base P s" and "distinct ls"
    and "\<And>l. l \<in> set ls \<Longrightarrow> \<exists>st. js_get (lanes s) l = Some st \<and> \<not> ls_draining st"
  shows "(if l \<in> set ls then sched_start (lane_view l s) (lane_view l (fold (\<lambda>l. drain_lane l now) ls s))
          else lane_view l (fold (\<lambda>l. drain_lane l now) ls s) = lane_view l s)"
  using assms
proof (induction ls arbitrary: s P)
  case Nil
  then show ?case by simp
next
  case (Cons k ls)
  obtain st where st: "js_get (lanes s) k = Some st" "\<not> ls_draining st" using Cons.prems(3) [of k] by auto
  have b: "cq_base (\<lambda>x. P x \<or> x = k) (drain_lane k now s)" by (rule drain_lane_base [OF Cons.prems(1) st])
  have rest: "\<exists>st. js_get (lanes (drain_lane k now s)) x = Some st \<and> \<not> ls_draining st" if "x \<in> set ls" for x
  proof -
    have "x \<noteq> k" using that Cons.prems(2) by auto
    then show ?thesis using Cons.prems(3) [of x] that drain_lane_frame(2) [OF Cons.prems(1) st, of x now] by simp
  qed
  have d: "distinct ls" "k \<notin> set ls" using Cons.prems(2) by auto
  note v = view_drain(1) [OF Cons.prems(1) st, of now] view_drain(2) [OF Cons.prems(1) st, of l now]
  show ?case using Cons.IH [OF b d(1) rest] v d(2) by (cases "l = k") (auto split: if_splits)
qed

lemma view_reset_all:
  assumes "cq_inv s"
  shows "sched_step (lane_view l s) (lane_label l s (ResetAllLanes now)) (lane_view l (reset_all_lanes now s))"
proof -
  let ?s2 = "fold (\<lambda>l. drain_lane l now) (pending_lanes s) (idle_all s)"
  let ?Q = "\<lambda>t. active_task_waiters t = active_task_waiters s"
  have "?Q ?s2"
    by (rule conjunct2, rule drain_all_base [OF reset_all_start [OF assms]]) (simp_all add: idle_all_def drain_lane_frame(1))
  then have "js_wf (active_task_waiters ?s2)" using assms by (simp add: cq_inv_def waiters_ok_def)
  then have eq: "lane_view l (reset_all_lanes now s) = lane_view l ?s2" by (simp add: reset_all_lanes_eq)
  note d = view_drain_all [OF reset_all_start [OF assms], of l now]
  show ?thesis
  proof (cases "js_get (lanes s) l")
    case None
    have "l \<notin> set (pending_lanes s)" using None by (force simp: pending_lanes_def js_get_None_keys)
    then have "lane_view l ?s2 = lane_view l (idle_all s)" using d by simp
    moreover have "lane_view l (idle_all s) = lane_view l s"
      by (rule view_same) (simp_all add: idle_all_get None, simp add: idle_all_def)
    ultimately show ?thesis using None eq by (simp add: lane_label_def quiet)
  next
    case (Some st)
    have v: "lane_view l (idle_all s) = (lane_view l s)\<lparr>sc_running := []\<rparr>"
      by (rule view_idle [OF Some]) (simp_all add: idle_all_get Some, simp add: idle_all_def)
    have "sched_start (lane_view l (idle_all s)) (lane_view l ?s2)"
    proof (cases "l \<in> set (pending_lanes s)")
      case True
      then show ?thesis using d by simp
    next
      case False
      then have "ls_queue st = []" using js_get_Some_in [OF Some] by (force simp: pending_lanes_def)
      then have "sched_start (lane_view l (idle_all s)) (lane_view l (idle_all s))"
        by (intro start_nobody) (simp add: the_lane_def idle_all_get Some idle_lane_def)
      then show ?thesis using d False by simp
    qed
    then show ?thesis using Some v eq by (simp add: lane_label_def restart)
  qed
qed

lemma view_wait:
  assumes "cq_inv s"
  shows "lane_view l (wait_for_active_tasks timeout w s) = lane_view l s"
    and "lane_view l (waiter_timed_out w s) = lane_view l s"
proof -
  have "js_wf (js_set w (active_at_start s) (active_task_waiters s))"
    using assms by (simp add: cq_inv_def waiters_ok_def)
  then show "lane_view l (wait_for_active_tasks timeout w s) = lane_view l s"
    and "lane_view l (waiter_timed_out w s) = lane_view l s"
    by (simp_all add: wait_for_active_tasks_def Let_def waiter_timed_out_def resolve_active_task_waiter_def)
qed

lemma lane_view_step:
  assumes "cq_inv s"
  shows "sched_step (lane_view l s) (lane_label l s e) (lane_view l (cq_step s e))"
proof (cases e)
  case (WaitForActive t w)
  then show ?thesis by (simp add: view_wait [OF assms] lane_label_def quiet)
next
  case (WaiterTimedOut w)
  then show ?thesis by (simp add: view_wait [OF assms] lane_label_def quiet)
qed (simp_all add: view_set_concurrency view_enqueue view_settled view_clear view_reset_lane view_reset_all assms)

interpretation lane: simulation cq_step cq_inv "lane_view l" "lane_label l" sched_step for l
  by unfold_locales (rule lane_view_step)

lemma initial_view: "lane_view l initial_command_queue = \<lparr>sc_waiting = (\<lambda>_. []), sc_running = [], sc_limit = 1, sc_log = []\<rparr>"
  by (simp add: lane_view_def the_lane_def initial_command_queue_def new_lane_def sched_of_def waiting_of_def lane_log_def fun_eq_iff)

text \<open>C26: Each lane of the command queue implements a work-conserving scheduler with three first-in-first-out
  lines: over every run of queue operations, what one sees of a lane (its waiting tasks per class, its running
  task ids, its limit and the log of started tasks) is a run of the specification, in which an accepted
  enqueue joins the end of its class, a current completion frees its slot, clearing and resetting empty
  the lines or the running set, and after each of them tasks start from the highest class that waits, in
  order, exactly until the limit is reached or nobody waits.\<close>

theorem lane_refines_scheduler:
  "spec_run sched_step \<lparr>sc_waiting = (\<lambda>_. []), sc_running = [], sc_limit = 1, sc_log = []\<rparr>
     (labels_of cq_step (lane_label l) initial_command_queue ops)
     (lane_view l (foldl cq_step initial_command_queue ops))"
  using lane.run_refines [OF cq_inv_initial, of l ops] by (simp add: initial_view)

section \<open>The queue runs down\<close>

text \<open>Completions that each end a task which is running at that point.\<close>

fun live_settles :: "command_queue \<Rightarrow> (int \<times> nat \<times> bool) list \<Rightarrow> bool" where
  "live_settles s [] \<longleftrightarrow> True"
| "live_settles s ((now, i, ok) # es) \<longleftrightarrow> i \<in> set (js_keys (frames s)) \<and> live_settles (task_settled now i ok s) es"

definition settle_all :: "(int \<times> nat \<times> bool) list \<Rightarrow> command_queue \<Rightarrow> command_queue" where
  "settle_all es s = foldl (\<lambda>s (now, i, ok). task_settled now i ok s) s es"

definition all_lanes_open :: "command_queue \<Rightarrow> bool" where
  "all_lanes_open s \<longleftrightarrow> (\<forall>(l, st) \<in> set (lanes s). 0 < ls_max_concurrent st)"

lemma all_lanes_open_get: "js_wf (lanes s) \<Longrightarrow> all_lanes_open s \<longleftrightarrow> (\<forall>l. 0 < sc_limit (lane_view l s))"
proof -
  assume wf: "js_wf (lanes s)"
  have limit: "sc_limit (lane_view l s) = (case js_get (lanes s) l of Some st \<Rightarrow> ls_max_concurrent st | None \<Rightarrow> 1)" for l
    by (simp add: lane_view_def sched_of_def the_lane_def new_lane_def split: option.split)
  show ?thesis unfolding all_lanes_open_def limit using wf
    by (auto simp: js_get_iff split: option.splits)
qed

lemma sched_start_limit: "sched_start S S' \<Longrightarrow> sc_limit S' = sc_limit S"
  by (induction rule: sched_start.induct) simp_all

lemma settled_keeps_open:
  assumes "cq_inv s" and "all_lanes_open s"
  shows "all_lanes_open (task_settled now i ok s)"
proof -
  have wf: "js_wf (lanes s)" "js_wf (lanes (task_settled now i ok s))"
    using assms(1) task_settled_inv [OF assms(1)] by (simp_all add: cq_inv_def cq_base_def)
  have "sc_limit (lane_view l (task_settled now i ok s)) = sc_limit (lane_view l s)" for l
    using view_settled [OF assms(1), of l now i ok]
    by (auto simp: lane_label_def elim: sched_step.cases dest!: sched_start_limit split: option.splits if_splits)
  then show ?thesis using assms(2) by (simp add: all_lanes_open_get [OF wf(1)] all_lanes_open_get [OF wf(2)])
qed

lemma settle_all_stock:
  assumes "cq_inv s" and "balanced s" and "all_lanes_open s" and "live_settles s es"
  shows "cq_inv (settle_all es s) \<and> balanced (settle_all es s) \<and> all_lanes_open (settle_all es s) \<and>
    length es + size (stock (settle_all es s)) = size (stock s)"
  using assms
proof (induction es arbitrary: s)
  case Nil
  then show ?case by (simp add: settle_all_def)
next
  case (Cons e es)
  obtain now i ok where e: "e = (now, i, ok)" by (cases e)
  have "js_get (frames s) i \<noteq> None" using Cons.prems(4) by (auto simp: e js_get_None_keys)
  then obtain f where "js_get (frames s) i = Some f" by blast
  from task_settled_stock(1) [OF Cons.prems(1) this, of now ok]
  have "size (stock s) = Suc (size (stock (task_settled now i ok s)))" by simp
  then show ?case
    using Cons.IH [of "task_settled now i ok s"] Cons.prems
    by (simp add: e settle_all_def task_settled_inv task_settled_balanced settled_keeps_open)
qed

lemma nothing_running:
  assumes "cq_inv s" and "all_lanes_open s" and "frames s = []"
  shows "get_total_queue_size s = 0" and "stock s = {#}"
proof -
  have empty: "ls_queue st = [] \<and> ls_active st = []" if "(l, st) \<in> set (lanes s)" for l st
  proof -
    have g: "js_get (lanes s) l = Some st" using that assms(1) by (simp add: cq_inv_def cq_base_def js_get_iff)
    have "ls_active st = []" using cq_inv_lane(3) [OF assms(1) g] assms(3) by (cases "ls_active st") auto
    then show ?thesis using cq_inv_lane(2) [OF assms(1) g] assms(2) that by (fastforce simp: lane_settled_def all_lanes_open_def)
  qed
  have "map (\<lambda>(l, st). lane_depth st) (lanes s) = map (\<lambda>_. 0) (lanes s)"
    by (rule map_cong [OF refl]) (use empty in \<open>auto simp: lane_depth_def\<close>)
  then show "get_total_queue_size s = 0" by (simp add: get_total_queue_size_def)
  have "map (\<lambda>p. map qe_task (ls_queue (snd p))) (lanes s) = map (\<lambda>_. []) (lanes s)"
    by (rule map_cong [OF refl]) (use empty in auto)
  then have "queued_of (lanes s) = []" by (simp add: queued_of_def)
  then show "stock s = {#}" by (simp add: stock_def running_of_def assms(3))
qed

lemma stock_running: "stock s = {#} \<Longrightarrow> frames s = []"
  by (simp add: stock_def running_of_def)

text \<open>C33: The queue runs down: when no lane is closed and nothing more is enqueued, the pending tasks settle
  after exactly as many completions as there are queued and running tasks, in whatever order the running
  tasks end. As long as any is left one is running, so a completion is always possible; when none is running the
  queue is empty and every task ever accepted has settled.\<close>

theorem queue_runs_down:
  fixes ops :: "cq_op list"
  defines "s \<equiv> foldl cq_step initial_command_queue ops"
  assumes "all_lanes_open s" and "live_settles s es"
  shows "length es + size (stock (settle_all es s)) = size (stock s) \<and>
    (frames (settle_all es s) = [] \<longleftrightarrow> length es = size (stock s)) \<and>
    (frames (settle_all es s) = [] \<longrightarrow> get_total_queue_size (settle_all es s) = 0 \<and>
      mset (settled_of (cq_trace (settle_all es s))) = mset (accepted_of (cq_trace (settle_all es s))))"
proof -
  have "cq_inv initial_command_queue \<and> balanced initial_command_queue"
    by (simp, simp add: initial_command_queue_def balanced_def stock_def queued_of_def running_of_def)
  from cq_balance.run_keeps [OF this, of ops] have "cq_inv s" "balanced s" by (simp_all add: s_def)
  note t = settle_all_stock [OF this assms(2,3)]
  let ?t = "settle_all es s"
  have idle: "get_total_queue_size ?t = 0 \<and> stock ?t = {#}" if "frames ?t = []"
    using t nothing_running [of ?t] that by blast
  have left: "frames ?t = [] \<longleftrightarrow> size (stock ?t) = 0"
    using idle stock_running [of ?t] by (metis size_eq_0_iff_empty)
  have "mset (settled_of (cq_trace ?t)) = mset (accepted_of (cq_trace ?t))" if "frames ?t = []"
  proof -
    have "balanced ?t" using t by blast
    with idle [OF that] show ?thesis by (simp add: balanced_def)
  qed
  moreover have "length es + size (stock ?t) = size (stock s)" using t by blast
  ultimately show ?thesis using idle left by (metis add.right_neutral add_left_cancel)
qed

theorem queue_runs_down_witness:
  "length (frames (settle_all [(5, 1, True), (6, 2, False), (7, 3, True)] sample_queue)) = 0 \<and>
   get_total_queue_size (settle_all [(5, 1, True), (6, 2, False), (7, 3, True)] sample_queue) = 0"
proof -
  let ?es = "[(5, 1, True), (6, 2, False), (7, 3, True)]"
  have open_live: "all_lanes_open sample_queue" "live_settles sample_queue ?es" and "length (queued_of (lanes sample_queue)) + length (running_of (frames sample_queue)) = 3"
    by code_simp+
  then have "size (stock sample_queue) = 3" by (simp add: stock_def)
  with queue_runs_down [of sample_ops ?es, folded sample_queue_def, OF open_live] show ?thesis by simp
qed

end
