(* ===== verification/Queue_Migration.thy ===== *)
theory Queue_Migration
  imports Command_Queue_Props
begin

text \<open>
  \<open>getQueueState\<close> of \<open>process/command-queue.ts\<close>: every operation reads the process-wide queue state
  through it, and it repairs what an older version of the code left there (missing waiter set, missing
  sequence counter, entries without priority, sequence or positions). A missing or non-number field of
  the stored object is \<open>None\<close>; the queue state proper is \<open>command_queue\<close>.
\<close>

section \<open>Stored states\<close>

record stored_entry =
  se_entry :: queue_entry
  se_priority :: "int option"
  se_sequence :: "nat option"
  se_queued_ahead :: "nat option"
  se_active_ahead :: "nat option"

record stored_state =
  sq_lanes :: "(string, stored_entry list \<times> lane_state) js_map"
  sq_waiters :: "(nat, nat list) js_map option"
  sq_next_sequence :: "nat option"
  sq_rest :: command_queue

text \<open>One entry: its completed form, the counter and the largest sequence seen.\<close>

definition migrate_entry :: "nat \<Rightarrow> nat \<Rightarrow> stored_entry \<Rightarrow> nat \<times> nat \<Rightarrow> queue_entry \<times> nat \<times> nat" where
  "migrate_entry index active e c =
     (let (nseq, mseq) = c;
          (sequence, nseq', mseq') = (case se_sequence e of
             None \<Rightarrow> (nseq, Suc nseq, mseq)
           | Some q \<Rightarrow> (q, nseq, max mseq q))
      in ((se_entry e)\<lparr>qe_priority := (case se_priority e of None \<Rightarrow> 0 | Some p \<Rightarrow> p),
                       qe_sequence := sequence,
                       qe_queued_ahead := (case se_queued_ahead e of None \<Rightarrow> index | Some a \<Rightarrow> a),
                       qe_active_ahead := (case se_active_ahead e of None \<Rightarrow> active | Some a \<Rightarrow> a)\<rparr>,
          nseq', mseq'))"

fun migrate_entries :: "nat \<Rightarrow> nat \<Rightarrow> stored_entry list \<Rightarrow> nat \<times> nat \<Rightarrow> queue_entry list \<times> nat \<times> nat" where
  "migrate_entries index active [] c = ([], c)"
| "migrate_entries index active (e # es) c =
     (let (e', c1) = migrate_entry index active e c;
          (es', c2) = migrate_entries (Suc index) active es c1
      in (e' # es', c2))"

fun migrate_lanes ::
    "(string, stored_entry list \<times> lane_state) js_map \<Rightarrow> nat \<times> nat \<Rightarrow> (string, lane_state) js_map \<times> nat \<times> nat" where
  "migrate_lanes [] c = ([], c)"
| "migrate_lanes ((l, es, st) # ls) c =
     (let (q, c1) = migrate_entries 0 (length (ls_active st)) es c;
          (ls', c2) = migrate_lanes ls c1
      in ((l, st\<lparr>ls_queue := q\<rparr>) # ls', c2))"

definition get_queue_state :: "stored_state \<Rightarrow> command_queue" where
  "get_queue_state d =
     (let waiters = (case sq_waiters d of None \<Rightarrow> [] | Some w \<Rightarrow> w);
          nseq = (case sq_next_sequence d of None \<Rightarrow> 1 | Some n \<Rightarrow> if n = 0 then 1 else n);
          (ls, nseq', mseq) = migrate_lanes (sq_lanes d) (nseq, nseq - 1)
      in (sq_rest d)\<lparr>lanes := ls, active_task_waiters := waiters,
                     next_queue_sequence := (if nseq' \<le> mseq then Suc mseq else nseq')\<rparr>)"

text \<open>What the current version stores: every field is there.\<close>

definition stored_entry_of :: "queue_entry \<Rightarrow> stored_entry" where
  "stored_entry_of e =
     \<lparr>se_entry = e, se_priority = Some (qe_priority e), se_sequence = Some (qe_sequence e),
      se_queued_ahead = Some (qe_queued_ahead e), se_active_ahead = Some (qe_active_ahead e)\<rparr>"

definition stored_state_of :: "command_queue \<Rightarrow> stored_state" where
  "stored_state_of s =
     \<lparr>sq_lanes = map (\<lambda>(l, st). (l, map stored_entry_of (ls_queue st), st)) (lanes s),
      sq_waiters = Some (active_task_waiters s), sq_next_sequence = Some (next_queue_sequence s), sq_rest = s\<rparr>"

section \<open>Migration\<close>

lemma migrate_complete_entries:
  "\<forall>e \<in> set q. qe_sequence e \<le> m \<Longrightarrow> migrate_entries i a (map stored_entry_of q) (n, m) = (q, n, m)"
proof (induction q arbitrary: i)
  case (Cons e q)
  have "max m (qe_sequence e) = m" using Cons.prems by simp
  then show ?case using Cons by (simp add: migrate_entry_def stored_entry_of_def Let_def)
qed simp

lemma migrate_complete_lanes:
  "\<forall>(l, st) \<in> set ls. \<forall>e \<in> set (ls_queue st). qe_sequence e \<le> m \<Longrightarrow>
   migrate_lanes (map (\<lambda>(l, st). (l, map stored_entry_of (ls_queue st), st)) ls) (n, m) = (ls, n, m)"
proof (induction ls)
  case (Cons p ls)
  obtain l st where p: "p = (l, st)" by (cases p)
  show ?case using Cons by (simp add: p migrate_complete_entries)
qed simp

text \<open>The counters only grow, and afterwards they bound every sequence number of the lane.\<close>

lemma migrate_entries_bounds:
  assumes "migrate_entries i a es (n, m) = (q, n', m')"
  shows "n \<le> n' \<and> m \<le> m' \<and> (\<forall>e \<in> set q. qe_sequence e < n' \<or> qe_sequence e \<le> m')"
  using assms
proof (induction i a es "(n, m)" arbitrary: n m q rule: migrate_entries.induct)
  case (2 i a e es)
  obtain e1 n1 m1 where e1: "migrate_entry i a e (n, m) = (e1, n1, m1)" by (cases "migrate_entry i a e (n, m)") auto
  obtain q2 n2 m2 where q2: "migrate_entries (Suc i) a es (n1, m1) = (q2, n2, m2)"
    by (cases "migrate_entries (Suc i) a es (n1, m1)") auto
  have fin: "q = e1 # q2" "n2 = n'" "m2 = m'" using "2.prems" e1 q2 by auto
  have step: "n \<le> n1 \<and> m \<le> m1 \<and> (qe_sequence e1 < n1 \<or> qe_sequence e1 \<le> m1)"
    using e1 by (auto simp: migrate_entry_def Let_def split: option.splits)
  from "2.hyps" [OF e1 [symmetric] refl, of q2] q2 fin
  have "n1 \<le> n' \<and> m1 \<le> m' \<and> (\<forall>e \<in> set q2. qe_sequence e < n' \<or> qe_sequence e \<le> m')" by simp
  then show ?case using step fin by auto
qed auto

lemma migrate_lanes_bounds:
  assumes "migrate_lanes ls (n, m) = (ls', n', m')"
  shows "n \<le> n' \<and> m \<le> m' \<and> (\<forall>(l, st) \<in> set ls'. \<forall>e \<in> set (ls_queue st). qe_sequence e < n' \<or> qe_sequence e \<le> m')"
  using assms
proof (induction ls "(n, m)" arbitrary: n m ls' rule: migrate_lanes.induct)
  case (2 l es st ls)
  obtain q n1 m1 where q: "migrate_entries 0 (length (ls_active st)) es (n, m) = (q, n1, m1)"
    by (cases "migrate_entries 0 (length (ls_active st)) es (n, m)") auto
  obtain ls2 n2 m2 where r: "migrate_lanes ls (n1, m1) = (ls2, n2, m2)" by (cases "migrate_lanes ls (n1, m1)") auto
  have fin: "ls' = (l, st\<lparr>ls_queue := q\<rparr>) # ls2" "n2 = n'" "m2 = m'" using "2.prems" q r by auto
  from "2.hyps" [OF q [symmetric] refl, of ls2] r fin
  have "n1 \<le> n' \<and> m1 \<le> m' \<and> (\<forall>(l, st) \<in> set ls2. \<forall>e \<in> set (ls_queue st). qe_sequence e < n' \<or> qe_sequence e \<le> m')"
    by simp
  then show ?case using migrate_entries_bounds [OF q] fin by fastforce
qed auto

section \<open>Properties\<close>

text \<open>Reading the queue state through the migration changes nothing once the current code runs: on every
  reachable state of the queue \<open>getQueueState\<close> is the identity.\<close>

theorem queue_state_access_is_identity:
  fixes ops :: "cq_op list"
  defines "s \<equiv> foldl cq_step initial_command_queue ops"
  shows "get_queue_state (stored_state_of s) = s"
proof -
  have inv: "cq_inv s" unfolding s_def by (rule cq.run_keeps) simp
  then have pos: "0 < next_queue_sequence s" by (simp add: cq_inv_def cq_base_def)
  have "\<forall>(l, st) \<in> set (lanes s). \<forall>e \<in> set (ls_queue st). qe_sequence e \<le> next_queue_sequence s - 1"
  proof (clarify)
    fix l st e assume "(l, st) \<in> set (lanes s)" and e: "e \<in> set (ls_queue st)"
    then have "js_get (lanes s) l = Some st" using inv by (simp add: cq_inv_def cq_base_def js_get_iff)
    from cq_inv_lane(1) [OF inv this] e show "qe_sequence e \<le> next_queue_sequence s - 1" by (auto simp: lane_core_def)
  qed
  from migrate_complete_lanes [OF this] pos show ?thesis
    by (simp add: get_queue_state_def stored_state_of_def Let_def)
qed

text \<open>Whatever an older version left behind, the migrated counter is above every queued entry's sequence
  number, so the next task enqueued sorts after all of them within its priority.\<close>

theorem migrated_counter_is_fresh:
  assumes "js_get (lanes (get_queue_state d)) l = Some st"
  shows "0 < next_queue_sequence (get_queue_state d) \<and>
    (\<forall>e \<in> set (ls_queue st). qe_sequence e < next_queue_sequence (get_queue_state d))"
proof -
  let ?n = "case sq_next_sequence d of None \<Rightarrow> 1 | Some n \<Rightarrow> if n = 0 then 1 else n"
  obtain ls n' m' where r: "migrate_lanes (sq_lanes d) (?n, ?n - 1) = (ls, n', m')"
    by (cases "migrate_lanes (sq_lanes d) (?n, ?n - 1)") auto
  have s: "lanes (get_queue_state d) = ls" "next_queue_sequence (get_queue_state d) = (if n' \<le> m' then Suc m' else n')"
    using r by (simp_all add: get_queue_state_def Let_def)
  have n: "0 < ?n" by (simp split: option.split)
  have "(l, st) \<in> set ls" using assms s(1) by (simp add: js_get_Some_in)
  with migrate_lanes_bounds [OF r] n show ?thesis by (fastforce simp: s(2))
qed

definition old_state :: stored_state where
  "old_state =
     \<lparr>sq_lanes = [(''main'', [\<lparr>se_entry = sample_entry 11 0 0 0 0 0, se_priority = None, se_sequence = None,
          se_queued_ahead = None, se_active_ahead = None\<rparr>], new_lane)],
      sq_waiters = None, sq_next_sequence = None, sq_rest = initial_command_queue\<rparr>"

theorem migrated_counter_is_fresh_witness:
  "0 < next_queue_sequence (get_queue_state old_state)"
proof -
  have "js_get (lanes (get_queue_state old_state)) ''main'' = Some (new_lane\<lparr>ls_queue := [sample_entry 11 0 1 0 0 0]\<rparr>)"
    by code_simp
  from migrated_counter_is_fresh [OF this] show ?thesis by simp
qed

end
