(* ===== verification/Lane_Timeout.thy ===== *)
theory Lane_Timeout
  imports Command_Queue
begin

text \<open>
  The timeout race of one running lane task, \<open>runQueueEntryTask\<close> of \<open>process/command-queue.ts\<close>: the
  task against a budget that progress extends, a grace period that an abort starts and a release
  signal that ends it at once. The state machine steps on the firing of its one timer, on the two
  signals and on the end of the task; what the progress callback returns when a timer fires is part
  of the event (\<open>JOther\<close> for no callback, a failing one or no number). When the race is settled its
  timer and listeners are gone, as in the code's \<open>finally\<close>.
\<close>

section \<open>State\<close>

datatype watch_timer = ProgressTimer | GraceTimer int

datatype timeout_cause = TaskBudget | ProgressIdle int | AbortGrace int | ReleaseRequested

datatype watch_result = TaskFinished bool | TimedOut timeout_cause int

record task_watch =
  tw_budget_ms :: int
  tw_grace_ms :: int
  tw_started_at :: int
  tw_tracks_progress :: bool
  tw_timer :: "(int \<times> watch_timer) option"
  tw_on_abort :: bool
  tw_on_release :: bool
  tw_result :: "watch_result option"

text \<open>\<open>readLastProgressAtMs\<close>\<close>

definition last_progress_at :: "int \<Rightarrow> js_value \<Rightarrow> int" where
  "last_progress_at started v =
     (case as_finite_number v of
        Some q \<Rightarrow> if q > 0 then max started \<lfloor>q\<rfloor> else started
      | None \<Rightarrow> started)"

text \<open>\<open>rejectForTimeout\<close>, with the cleanup that follows the settled race.\<close>

definition settle_watch :: "watch_result \<Rightarrow> task_watch \<Rightarrow> task_watch" where
  "settle_watch r w = w\<lparr>tw_result := Some r, tw_timer := None, tw_on_abort := False, tw_on_release := False\<rparr>"

definition reject_for_timeout :: "timeout_cause \<Rightarrow> int \<Rightarrow> task_watch \<Rightarrow> task_watch" where
  "reject_for_timeout cause now w = settle_watch (TimedOut cause (max 0 (now - tw_started_at w))) w"

definition arm_progress_timeout :: "int \<Rightarrow> js_value \<Rightarrow> task_watch \<Rightarrow> task_watch" where
  "arm_progress_timeout now progress w =
     (let elapsed = max 0 (now - last_progress_at (tw_started_at w) (if tw_tracks_progress w then progress else JOther));
          remaining = tw_budget_ms w - elapsed
      in if remaining \<le> 0 then
           reject_for_timeout (if tw_tracks_progress w then ProgressIdle elapsed else TaskBudget) now w
         else w\<lparr>tw_timer := Some (now + remaining, ProgressTimer)\<rparr>)"

definition arm_abort_timeout :: "int \<Rightarrow> task_watch \<Rightarrow> task_watch" where
  "arm_abort_timeout now w =
     (if tw_grace_ms w \<le> 0 then reject_for_timeout (AbortGrace 0) now w
      else w\<lparr>tw_timer := Some (now + tw_grace_ms w, GraceTimer now)\<rparr>)"

text \<open>
  The start of the race. A signal is \<open>None\<close> when the caller gave none and \<open>Some\<close> of whether it is
  aborted already; the result is \<open>None\<close> when the entry has no timeout and the task just runs.
\<close>

definition start_watch ::
    "queue_entry \<Rightarrow> bool \<Rightarrow> js_value \<Rightarrow> bool option \<Rightarrow> bool option \<Rightarrow> int \<Rightarrow> task_watch option" where
  "start_watch e tracks progress abort_signal release_signal now =
     (case qe_task_timeout_ms e of
        None \<Rightarrow> None
      | Some budget \<Rightarrow>
          (let w = \<lparr>tw_budget_ms = budget,
                    tw_grace_ms = (case qe_abort_grace_ms e of Some g \<Rightarrow> g | None \<Rightarrow> budget),
                    tw_started_at = now, tw_tracks_progress = tracks, tw_timer = None,
                    tw_on_abort = False, tw_on_release = False, tw_result = None\<rparr>
           in if release_signal = Some True then Some (reject_for_timeout ReleaseRequested now w)
              else if abort_signal = Some True then Some (arm_abort_timeout now w)
              else
                (let w' = arm_progress_timeout now progress w
                 in if tw_result w' \<noteq> None then Some w'
                    else Some (w'\<lparr>tw_on_abort := abort_signal \<noteq> None, tw_on_release := release_signal \<noteq> None\<rparr>))))"

section \<open>Steps\<close>

datatype watch_event = TimerFires int js_value | AbortSignalled int | ReleaseSignalled int | TaskEnds int bool

fun event_time :: "watch_event \<Rightarrow> int" where
  "event_time (TimerFires t _) = t"
| "event_time (AbortSignalled t) = t"
| "event_time (ReleaseSignalled t) = t"
| "event_time (TaskEnds t _) = t"

inductive watch_step :: "task_watch \<Rightarrow> watch_event \<Rightarrow> task_watch \<Rightarrow> bool" where
  progress_fires: "tw_timer w = Some (d, ProgressTimer) \<Longrightarrow> d \<le> now \<Longrightarrow>
    watch_step w (TimerFires now p) (arm_progress_timeout now p (w\<lparr>tw_timer := None\<rparr>))"
| grace_fires: "tw_timer w = Some (d, GraceTimer t0) \<Longrightarrow> d \<le> now \<Longrightarrow>
    watch_step w (TimerFires now p) (reject_for_timeout (AbortGrace (max 0 (now - t0))) now w)"
| aborts: "tw_on_abort w \<Longrightarrow> watch_step w (AbortSignalled now) (arm_abort_timeout now (w\<lparr>tw_on_abort := False\<rparr>))"
| abort_unheard: "\<not> tw_on_abort w \<Longrightarrow> watch_step w (AbortSignalled now) w"
| releases: "tw_on_release w \<Longrightarrow> watch_step w (ReleaseSignalled now) (reject_for_timeout ReleaseRequested now w)"
| release_unheard: "\<not> tw_on_release w \<Longrightarrow> watch_step w (ReleaseSignalled now) w"
| task_ends: "tw_result w = None \<Longrightarrow> watch_step w (TaskEnds now ok) (settle_watch (TaskFinished ok) w)"
| ends_late: "tw_result w \<noteq> None \<Longrightarrow> watch_step w (TaskEnds now ok) w"

inductive_cases timer_firesE: "watch_step w (TimerFires now p) w'"
inductive_cases abort_signalledE: "watch_step w (AbortSignalled now) w'"
inductive_cases release_signalledE: "watch_step w (ReleaseSignalled now) w'"
inductive_cases task_endsE: "watch_step w (TaskEnds now ok) w'"
inductive_simps release_signalled_iff: "watch_step w (ReleaseSignalled now) w'"

inductive watch_run :: "task_watch \<Rightarrow> watch_event list \<Rightarrow> task_watch \<Rightarrow> bool" where
  watch_refl: "watch_run w [] w"
| watch_more: "watch_run w es w' \<Longrightarrow> watch_step w' e w'' \<Longrightarrow> watch_run w (es @ [e]) w''"

lemmas watch_defs = arm_progress_timeout_def arm_abort_timeout_def reject_for_timeout_def settle_watch_def Let_def

section \<open>The invariant of the race\<close>

definition timer_bounded :: "int set \<Rightarrow> task_watch \<Rightarrow> bool" where
  "timer_bounded ts w \<longleftrightarrow>
     (case tw_timer w of
        None \<Rightarrow> tw_result w \<noteq> None
      | Some (d, k) \<Rightarrow>
          tw_result w = None \<and> (\<exists>t \<in> ts. d \<le> t + max (tw_budget_ms w) (tw_grace_ms w)) \<and>
          (case k of ProgressTimer \<Rightarrow> True | GraceTimer t0 \<Rightarrow> d = t0 + tw_grace_ms w))"

definition listens_while_running :: "task_watch \<Rightarrow> bool" where
  "listens_while_running w \<longleftrightarrow> (tw_on_abort w \<or> tw_on_release w \<longrightarrow> tw_result w = None)"

definition justified :: "task_watch \<Rightarrow> bool" where
  "justified w \<longleftrightarrow>
     (case tw_result w of
        Some (TimedOut cause elapsed) \<Rightarrow>
          (case cause of
             TaskBudget \<Rightarrow> \<not> tw_tracks_progress w \<and> tw_budget_ms w \<le> elapsed
           | ProgressIdle idle \<Rightarrow> tw_tracks_progress w \<and> tw_budget_ms w \<le> idle \<and> idle \<le> elapsed
           | AbortGrace g \<Rightarrow> tw_grace_ms w \<le> g
           | ReleaseRequested \<Rightarrow> True)
      | _ \<Rightarrow> True)"

definition watch_ok :: "int set \<Rightarrow> task_watch \<Rightarrow> bool" where
  "watch_ok ts w \<longleftrightarrow> timer_bounded ts w \<and> listens_while_running w \<and> justified w"

lemma last_progress_ge: "started \<le> last_progress_at started v"
  by (simp add: last_progress_at_def split: option.split)

lemma last_progress_none [simp]: "last_progress_at started JOther = started"
  by (simp add: last_progress_at_def)

lemma arm_progress_ok:
  assumes "tw_result w = None" and "now \<in> ts" and "tw_timer w = None"
  shows "watch_ok ts (arm_progress_timeout now p w)"
proof -
  let ?last = "last_progress_at (tw_started_at w) (if tw_tracks_progress w then p else JOther)"
  have last: "tw_started_at w \<le> ?last" by (rule last_progress_ge)
  show ?thesis
  proof (cases "tw_budget_ms w - max 0 (now - ?last) \<le> 0")
    case True
    then show ?thesis using last
      by (cases "tw_tracks_progress w")
        (auto simp: watch_defs watch_ok_def timer_bounded_def listens_while_running_def justified_def max_def)
  next
    case False
    have "now + (tw_budget_ms w - max 0 (now - ?last)) \<le> now + max (tw_budget_ms w) (tw_grace_ms w)" by simp
    then have b: "\<exists>t \<in> ts. now + (tw_budget_ms w - max 0 (now - ?last)) \<le> t + max (tw_budget_ms w) (tw_grace_ms w)"
      using assms(2) by blast
    have eq: "arm_progress_timeout now p w = w\<lparr>tw_timer := Some (now + (tw_budget_ms w - max 0 (now - ?last)), ProgressTimer)\<rparr>"
      using False by (simp only: arm_progress_timeout_def Let_def if_False)
    show ?thesis unfolding eq using assms(1) b
      by (simp add: watch_ok_def timer_bounded_def listens_while_running_def justified_def)
  qed
qed

lemma arm_abort_ok:
  assumes "tw_result w = None" and "now \<in> ts"
  shows "watch_ok ts (arm_abort_timeout now w)"
  using assms
  by (auto simp: watch_defs watch_ok_def timer_bounded_def listens_while_running_def justified_def intro!: bexI [of _ now])

lemma watch_ok_listen:
  "watch_ok ts w \<Longrightarrow> tw_result w = None \<Longrightarrow> watch_ok ts (w\<lparr>tw_on_abort := a, tw_on_release := r\<rparr>)"
  by (cases "tw_timer w")
    (auto simp: watch_ok_def timer_bounded_def listens_while_running_def justified_def split: watch_timer.split)

lemma watch_ok_mono: "watch_ok ts w \<Longrightarrow> ts \<subseteq> ts' \<Longrightarrow> watch_ok ts' w"
  by (auto simp: watch_ok_def timer_bounded_def split: option.splits)

lemma watch_step_ok [step_inv]:
  assumes "watch_step w e w'" and "watch_ok ts w"
  shows "watch_ok (insert (event_time e) ts) w'"
  using assms
proof (induction rule: watch_step.induct)
  case (progress_fires w d now p)
  then have "tw_result w = None" by (simp add: watch_ok_def timer_bounded_def)
  then show ?case by (intro arm_progress_ok) simp_all
next
  case (grace_fires w d t0 now p)
  then have "d = t0 + tw_grace_ms w" by (simp add: watch_ok_def timer_bounded_def)
  then show ?case using grace_fires
    by (simp add: watch_defs watch_ok_def timer_bounded_def listens_while_running_def justified_def)
next
  case (aborts w now)
  then have "tw_result w = None" by (simp add: watch_ok_def listens_while_running_def)
  then show ?case by (intro arm_abort_ok) simp_all
next
  case (releases w now)
  then show ?case by (simp add: watch_defs watch_ok_def timer_bounded_def listens_while_running_def justified_def)
next
  case (task_ends w now ok)
  then show ?case by (simp add: watch_defs watch_ok_def timer_bounded_def listens_while_running_def justified_def)
qed (auto intro: watch_ok_mono)

lemma start_watch_ok:
  assumes "start_watch e tracks p ab rel now = Some w"
  shows "watch_ok {now} w"
proof -
  obtain b where b: "qe_task_timeout_ms e = Some b" using assms by (auto simp: start_watch_def split: option.splits)
  let ?w = "\<lparr>tw_budget_ms = b, tw_grace_ms = (case qe_abort_grace_ms e of Some g \<Rightarrow> g | None \<Rightarrow> b),
     tw_started_at = now, tw_tracks_progress = tracks, tw_timer = None, tw_on_abort = False, tw_on_release = False, tw_result = None\<rparr>"
  have p: "watch_ok {now} (arm_progress_timeout now p ?w)" by (rule arm_progress_ok) simp_all
  consider "w = reject_for_timeout ReleaseRequested now ?w" | "w = arm_abort_timeout now ?w"
    | "w = arm_progress_timeout now p ?w"
    | "tw_result (arm_progress_timeout now p ?w) = None"
      "w = (arm_progress_timeout now p ?w)\<lparr>tw_on_abort := ab \<noteq> None, tw_on_release := rel \<noteq> None\<rparr>"
    using assms by (auto simp: start_watch_def b Let_def split: if_splits)
  then show ?thesis
  proof cases
    case 1
    then show ?thesis by (simp add: watch_defs watch_ok_def timer_bounded_def listens_while_running_def justified_def)
  next
    case 2
    then show ?thesis using arm_abort_ok [of ?w now "{now}"] by simp
  next
    case 3
    then show ?thesis using p by simp
  next
    case 4
    show ?thesis unfolding 4(2) by (rule watch_ok_listen [OF p 4(1)])
  qed
qed

lemma watch_run_ok:
  "watch_run w es w' \<Longrightarrow> watch_ok ts w \<Longrightarrow> watch_ok (ts \<union> set (map event_time es)) w'"
proof (induction rule: watch_run.induct)
  case (watch_refl w)
  then show ?case by simp
next
  case (watch_more w es w' e w'')
  then show ?case using watch_step_ok [OF watch_more.hyps(2)] by simp
qed

section \<open>What a run of the race guarantees\<close>

lemma started_run_ok:
  "start_watch e tracks p ab rel now = Some w \<Longrightarrow> watch_run w es w' \<Longrightarrow>
   watch_ok (set (now # map event_time es)) w'"
  using watch_run_ok [OF _ start_watch_ok, of w es w' e tracks p ab rel now] by simp

lemma watch_step_params:
  "watch_step w e w' \<Longrightarrow> tw_budget_ms w' = tw_budget_ms w \<and> tw_grace_ms w' = tw_grace_ms w \<and>
     tw_started_at w' = tw_started_at w \<and> tw_tracks_progress w' = tw_tracks_progress w"
  by (induction rule: watch_step.induct) (auto simp: watch_defs)

text \<open>A lane task with a timeout never runs unwatched: as long as it has not ended, its timer is armed,
  for at most the larger of budget and grace after some event so far; and when the timer fires and
  the callback reports no progress after the last deadline was set, the race ends.\<close>

theorem running_task_is_watched:
  assumes "start_watch e tracks p ab rel now = Some w0" and "watch_run w0 es w" and "tw_result w = None"
  shows "\<exists>d k. tw_timer w = Some (d, k) \<and>
    (\<exists>t \<in> set (now # map event_time es). d \<le> t + max (tw_budget_ms w) (tw_grace_ms w)) \<and>
    (\<forall>t v w'. d \<le> t \<and> watch_step w (TimerFires t v) w' \<and>
       last_progress_at (tw_started_at w) v + tw_budget_ms w \<le> t \<longrightarrow> tw_result w' \<noteq> None)"
proof -
  have ok: "watch_ok (set (now # map event_time es)) w" by (rule started_run_ok [OF assms(1,2)])
  then obtain d k where k: "tw_timer w = Some (d, k)"
    using assms(3) by (auto simp: watch_ok_def timer_bounded_def split: option.splits)
  have "tw_result w' \<noteq> None" if "watch_step w (TimerFires t v) w'"
      "last_progress_at (tw_started_at w) v + tw_budget_ms w \<le> t" for t v w'
    using that(1)
  proof (rule timer_firesE)
    assume w': "w' = arm_progress_timeout t v (w\<lparr>tw_timer := None\<rparr>)"
    have "last_progress_at (tw_started_at w) (if tw_tracks_progress w then v else JOther) + tw_budget_ms w \<le> t"
      using that(2) last_progress_ge [of "tw_started_at w" v] by auto
    then show ?thesis by (auto simp: w' watch_defs)
  next
    fix t0 assume "w' = reject_for_timeout (AbortGrace (max 0 (t - t0))) t w"
    then show ?thesis by (simp add: watch_defs)
  qed
  then show ?thesis using ok k assms(3)
    by (auto simp: watch_ok_def timer_bounded_def)
qed


text \<open>A sample run: a task with a budget of 100 and a grace of 30, aborted at 60.\<close>

definition sample_watched_entry :: queue_entry where
  "sample_watched_entry =
     \<lparr>qe_task = 1, qe_enqueued_at = 0, qe_sequence = 1, qe_priority = 0, qe_warn_after_ms = 2000,
      qe_queued_ahead = 0, qe_active_ahead = 0, qe_task_timeout_ms = Some 100, qe_abort_grace_ms = Some 30\<rparr>"

definition sample_watch :: "(int \<times> watch_timer) option \<Rightarrow> bool \<Rightarrow> bool \<Rightarrow> watch_result option \<Rightarrow> task_watch" where
  "sample_watch timer on_abort on_release result =
     \<lparr>tw_budget_ms = 100, tw_grace_ms = 30, tw_started_at = 10, tw_tracks_progress = True, tw_timer = timer,
      tw_on_abort = on_abort, tw_on_release = on_release, tw_result = result\<rparr>"

lemma sample_start:
  "start_watch sample_watched_entry True JOther (Some False) None 10 =
     Some (sample_watch (Some (110, ProgressTimer)) True False None)"
  by (simp add: start_watch_def sample_watched_entry_def sample_watch_def watch_defs)

lemma sample_aborted:
  "watch_run (sample_watch (Some (110, ProgressTimer)) True False None) [AbortSignalled 60]
     (sample_watch (Some (90, GraceTimer 60)) False False None)"
proof -
  have "watch_step (sample_watch (Some (110, ProgressTimer)) True False None) (AbortSignalled 60)
      (arm_abort_timeout 60 ((sample_watch (Some (110, ProgressTimer)) True False None)\<lparr>tw_on_abort := False\<rparr>))"
    by (rule watch_step.aborts) (simp add: sample_watch_def)
  then have "watch_step (sample_watch (Some (110, ProgressTimer)) True False None) (AbortSignalled 60)
      (sample_watch (Some (90, GraceTimer 60)) False False None)"
    by (simp add: sample_watch_def watch_defs)
  from watch_more [OF watch_refl this] show ?thesis by simp
qed


theorem running_task_is_watched_witness:
  "\<exists>d k. tw_timer (sample_watch (Some (90, GraceTimer 60)) False False None) = Some (d, k) \<and> d = 90 \<and>
     (\<exists>t \<in> set (10 # map event_time [AbortSignalled 60]). d \<le> t + 100)"
  using running_task_is_watched [OF sample_start sample_aborted] by (simp add: sample_watch_def)


section \<open>A lost release\<close>

lemma unheard_release_run:
  "watch_run w es w' \<Longrightarrow> \<not> tw_on_release w \<Longrightarrow> \<not> tw_on_release w'"
proof (induction rule: watch_run.induct)
  case (watch_more w es w' e w'')
  have "\<not> tw_on_release w' \<Longrightarrow> \<not> tw_on_release w''" using watch_more.hyps(2)
    by (induction rule: watch_step.induct) (auto simp: watch_defs)
  then show ?case using watch_more by simp
qed

text \<open>C38: A task that starts with its abort signal already aborted never hears its release signal: the
  early return skips the listener, so a release leaves the race as it is until the grace period ends.\<close>

theorem release_lost_after_early_abort:
  assumes "start_watch e tracks p (Some True) (Some False) now = Some w0" and "watch_run w0 es w"
    and "watch_step w (ReleaseSignalled t) w'"
  shows "w' = w"
proof -
  have "\<not> tw_on_release w0"
    using assms(1) by (auto simp: start_watch_def watch_defs split: option.splits if_splits)
  then have "\<not> tw_on_release w" by (rule unheard_release_run [OF assms(2)])
  then show ?thesis using assms(3) by (simp add: release_signalled_iff)
qed

theorem release_lost_after_early_abort_witness:
  "{w'. watch_step (sample_watch (Some (40, GraceTimer 10)) False False None) (ReleaseSignalled 20) w'} =
     {sample_watch (Some (40, GraceTimer 10)) False False None}"
proof -
  let ?w = "sample_watch (Some (40, GraceTimer 10)) False False None"
  have start: "start_watch sample_watched_entry True JOther (Some True) (Some False) 10 = Some ?w"
    by (simp add: start_watch_def sample_watched_entry_def sample_watch_def watch_defs)
  have "{w'. watch_step ?w (ReleaseSignalled 20) w'} \<subseteq> {?w}"
  proof (rule subsetI)
    fix w' assume "w' \<in> {w'. watch_step ?w (ReleaseSignalled 20) w'}"
    then have step: "watch_step ?w (ReleaseSignalled 20) w'" by (rule CollectD)
    show "w' \<in> {?w}" using release_lost_after_early_abort [OF start watch_refl step] by (rule ssubst) (rule singletonI)
  qed
  moreover have "watch_step ?w (ReleaseSignalled 20) ?w" by (rule release_unheard) (simp add: sample_watch_def)
  ultimately show ?thesis by blast
qed

end
