(* ===== verification/Session_Keys.thy ===== *)
theory Session_Keys
  imports Route_Ids
begin

text \<open>
  Session keys: \<open>src/src/sessions/session-key-utils.ts\<close> and \<open>src/src/routing/session-key.ts\<close>. A
  key is a colon-separated string \<open>agent:<agent>:<rest>\<close>. Regular expressions are scanners on the
  characters; \<open>undefined\<close> and \<open>null\<close> keys are \<open>None\<close>. The memo of normalized keys is a parameter
  state of \<open>normalize_session_key_cached\<close>; every other function uses the function it memoizes.
\<close>

section \<open>Case-preserving peers\<close>

datatype span_kind = Segment | Tail

record peer_descriptor =
  pd_channel :: string
  pd_peer_kinds :: "string list"
  pd_span :: span_kind
  pd_unscoped :: bool

definition case_preserving_peers :: "peer_descriptor list" where
  "case_preserving_peers =
     [\<lparr>pd_channel = ''signal'', pd_peer_kinds = [''group''], pd_span = Segment, pd_unscoped = True\<rparr>,
      \<lparr>pd_channel = ''matrix'', pd_peer_kinds = [''channel'', ''group''], pd_span = Tail, pd_unscoped = True\<rparr>]"

definition find_peer_descriptor :: "string option \<Rightarrow> string option \<Rightarrow> peer_descriptor option" where
  "find_peer_descriptor channel peer_kind =
     (let c = normalize_lowercase_string_or_empty channel;
          k = normalize_lowercase_string_or_empty peer_kind
      in find (\<lambda>d. pd_channel d = c \<and> k \<in> set (pd_peer_kinds d)) case_preserving_peers)"

definition is_case_preserving_peer :: "string option \<Rightarrow> string option \<Rightarrow> bool" where
  "is_case_preserving_peer channel peer_kind \<longleftrightarrow>
     find_peer_descriptor (Some (normalize_lowercase_string_or_empty channel))
       (Some (normalize_lowercase_string_or_empty peer_kind)) \<noteq> None"

definition nth_part :: "string list \<Rightarrow> nat \<Rightarrow> string option" where
  "nth_part parts i = (if i < length parts then Some (parts ! i) else None)"

text \<open>The two loops of \<open>requiresFoldedSessionKeyAliasProof\<close>.\<close>

fun skip_agent_wrappers :: "string list \<Rightarrow> bool \<times> string list" where
  "skip_agent_wrappers (a # b # c # ps) =
     (if normalize_optional_lowercase_string (Some a) = Some ''agent''
      then (True, snd (skip_agent_wrappers (c # ps))) else (False, a # b # c # ps))"
| "skip_agent_wrappers ps = (False, ps)"

definition requires_folded_alias_proof :: "string option \<Rightarrow> bool" where
  "requires_folded_alias_proof session_key =
     (case normalize_optional_string session_key of
        None \<Rightarrow> False
      | Some raw \<Rightarrow>
          (let (has_wrapper, body) = skip_agent_wrappers (js_split CHR '':'' raw);
               parts = (if has_wrapper
                        then dropWhile (\<lambda>p. normalize_optional_string (Some p) = None) body else body)
           in (case find_peer_descriptor (nth_part parts 0) (nth_part parts 1) of
                 None \<Rightarrow> False | Some d \<Rightarrow> pd_span d = Tail)))"

definition normalize_session_peer_id :: "string option \<Rightarrow> string option \<Rightarrow> string option \<Rightarrow> string" where
  "normalize_session_peer_id channel peer_kind peer_id =
     (let p = js_trim (case peer_id of None \<Rightarrow> [] | Some s \<Rightarrow> s) in
      if p = [] then []
      else if is_case_preserving_peer channel peer_kind then p
      else normalize_lowercase_string_or_empty (Some p))"

section \<open>Scanning for preserved spans\<close>

record preserved_span =
  sp_start :: nat
  sp_end :: nat
  sp_trim :: bool

text \<open>\<open>/^\<dots>/i\<close> for a pattern of lowercase ASCII characters: the rest after the prefix.\<close>

fun strip_prefix_ci :: "string \<Rightarrow> string \<Rightarrow> string option" where
  "strip_prefix_ci [] s = Some s"
| "strip_prefix_ci (p # ps) [] = None"
| "strip_prefix_ci (p # ps) (c # s) = (if fold_case c = p then strip_prefix_ci ps s else None)"

lemma length_strip_prefix_ci: "strip_prefix_ci p s = Some r \<Longrightarrow> length s = length p + length r"
  by (induction p s rule: strip_prefix_ci.induct) (auto split: if_splits)

text \<open>One match of \<open>(^|:)<pattern>([^:]+)\<close> at the head of \<open>s\<close>: the rest from the segment on.\<close>

definition segment_match :: "string \<Rightarrow> bool \<Rightarrow> string \<Rightarrow> string option" where
  "segment_match pat at_start s =
     (let rest = (if at_start then strip_prefix_ci pat s else None);
          rest' = (case rest of
                     Some r \<Rightarrow> Some r
                   | None \<Rightarrow> (case s of c # t \<Rightarrow> if c = CHR '':'' then strip_prefix_ci pat t else None
                                     | [] \<Rightarrow> None))
      in (case rest' of
            Some r \<Rightarrow> if takeWhile (\<lambda>c. c \<noteq> CHR '':'') r \<noteq> [] then Some r else None
          | None \<Rightarrow> None))"

lemma segment_match_length: "segment_match pat b s = Some r \<Longrightarrow> length r \<le> length s \<and> r \<noteq> []"
  by (auto simp: segment_match_def Let_def split: if_splits option.splits list.splits dest!: length_strip_prefix_ci)

lemma shrink_by_nonempty: "x \<le> Suc n \<Longrightarrow> xs \<noteq> [] \<Longrightarrow> x - length xs < Suc n"
  by (cases xs) auto

text \<open>\<open>raw.matchAll\<close> from offset \<open>i\<close> on, where \<open>s\<close> is the rest of \<open>raw\<close> at that offset.\<close>

function segment_spans :: "string \<Rightarrow> bool \<Rightarrow> nat \<Rightarrow> string \<Rightarrow> preserved_span list" where
  "segment_spans pat at_start i [] = []"
| "segment_spans pat at_start i (c # s) =
     (case segment_match pat at_start (c # s) of
        None \<Rightarrow> segment_spans pat False (Suc i) s
      | Some r \<Rightarrow>
          (let start = i + (length (c # s) - length r);
               n = length (takeWhile (\<lambda>c. c \<noteq> CHR '':'') r)
           in \<lparr>sp_start = start, sp_end = start + n, sp_trim = True\<rparr> #
              (if n = 0 then [] else segment_spans pat False (start + n) (drop n r))))"
  by pat_completeness auto
termination
  by (relation "measure (\<lambda>(p, b, i, s). length s)")
    (auto dest!: segment_match_length intro: shrink_by_nonempty)

fun last_index_of :: "string \<Rightarrow> string \<Rightarrow> nat option" where
  "last_index_of pat [] = (if pat = [] then Some 0 else None)"
| "last_index_of pat (c # s) =
     (case last_index_of pat s of
        Some i \<Rightarrow> Some (Suc i)
      | None \<Rightarrow> if prefix pat (c # s) then Some 0 else None)"

definition thread_marker :: string where
  "thread_marker = '':thread:''"

text \<open>
  \<open>collectTailSpan\<close>. The marker is looked up in the trimmed and lowercased tail, and its index is then
  used on the tail itself.
\<close>

definition collect_tail_span :: "string \<Rightarrow> nat \<Rightarrow> preserved_span list" where
  "collect_tail_span raw tail_start =
     (if tail_start \<ge> length raw then []
      else
        (case last_index_of thread_marker (normalize_lowercase_string_or_empty (Some (drop tail_start raw))) of
           None \<Rightarrow> [\<lparr>sp_start = tail_start, sp_end = length raw, sp_trim = False\<rparr>]
         | Some m \<Rightarrow>
             (let thread_id_start = tail_start + m + length thread_marker
              in \<lparr>sp_start = tail_start, sp_end = tail_start + m, sp_trim = False\<rparr> #
                 (if thread_id_start < length raw
                  then [\<lparr>sp_start = thread_id_start, sp_end = length raw, sp_trim = False\<rparr>] else []))))"

text \<open>One wrapper \<open>agent:[^:]*:\<close>, and \<open>^(?:agent:[^:]*:)+:*<pattern>\<close>: as many wrappers as possible.\<close>

definition strip_wrapper :: "string \<Rightarrow> string option" where
  "strip_wrapper s =
     (case strip_prefix_ci ''agent:'' s of
        None \<Rightarrow> None
      | Some r \<Rightarrow> (case dropWhile (\<lambda>c. c \<noteq> CHR '':'') r of [] \<Rightarrow> None | _ # t \<Rightarrow> Some t))"

lemma strip_wrapper_length: "strip_wrapper s = Some t \<Longrightarrow> length t < length s"
proof -
  assume "strip_wrapper s = Some t"
  then obtain r x where r: "strip_prefix_ci ''agent:'' s = Some r" "dropWhile (\<lambda>c. c \<noteq> CHR '':'') r = x # t"
    by (auto simp: strip_wrapper_def split: option.splits list.splits)
  have "length (x # t) \<le> length r" by (metis r(2) length_dropWhile_le)
  then show ?thesis using length_strip_prefix_ci [OF r(1)] by simp
qed

function scoped_match :: "string \<Rightarrow> string \<Rightarrow> string option" where
  "scoped_match pat s =
     (case strip_wrapper s of
        None \<Rightarrow> None
      | Some t \<Rightarrow>
          (case scoped_match pat t of
             Some r \<Rightarrow> Some r
           | None \<Rightarrow> strip_prefix_ci pat (dropWhile (\<lambda>c. c = CHR '':'') t)))"
  by pat_completeness auto
termination by (relation "measure (\<lambda>(p, s). length s)") (auto dest!: strip_wrapper_length)

declare scoped_match.simps [simp del]

definition kind_spans :: "peer_descriptor \<Rightarrow> string \<Rightarrow> string \<Rightarrow> preserved_span list" where
  "kind_spans d raw kind =
     (let pat = pd_channel d @ '':'' @ kind @ '':'' in
      case pd_span d of
        Segment \<Rightarrow> segment_spans pat True 0 raw
      | Tail \<Rightarrow>
          (case scoped_match pat raw of
             Some r \<Rightarrow> collect_tail_span raw (length raw - length r)
           | None \<Rightarrow>
               if pd_unscoped d then
                 (case strip_prefix_ci pat raw of
                    Some r \<Rightarrow> collect_tail_span raw (length raw - length r)
                  | None \<Rightarrow> [])
               else []))"

definition collect_case_preserved_spans :: "string \<Rightarrow> preserved_span list" where
  "collect_case_preserved_spans raw =
     concat (map (\<lambda>d. concat (map (kind_spans d raw) (pd_peer_kinds d))) case_preserving_peers)"

section \<open>Key normalization\<close>

definition substring :: "string \<Rightarrow> string \<Rightarrow> bool" where
  "substring pat s \<longleftrightarrow> last_index_of pat s \<noteq> None"

definition may_contain_case_preserving_peer :: "string \<Rightarrow> bool" where
  "may_contain_case_preserving_peer raw \<longleftrightarrow>
     list_ex (\<lambda>d. substring (pd_channel d @ '':'') (js_lower raw)) case_preserving_peers"

definition slice :: "nat \<Rightarrow> nat \<Rightarrow> string \<Rightarrow> string" where
  "slice a b s = take (b - a) (drop a s)"

text \<open>The emitting loop: text outside the spans is trimmed and lowercased piece by piece.\<close>

fun emit_spans :: "string \<Rightarrow> nat \<Rightarrow> preserved_span list \<Rightarrow> string" where
  "emit_spans raw cursor [] = normalize_lowercase_string_or_empty (Some (drop cursor raw))"
| "emit_spans raw cursor (sp # sps) =
     (if sp_start sp < cursor then emit_spans raw cursor sps
      else
        (let preserved = slice (sp_start sp) (sp_end sp) raw
         in normalize_lowercase_string_or_empty (Some (slice cursor (sp_start sp) raw)) @
            (if sp_trim sp then js_trim preserved else preserved) @
            emit_spans raw (sp_end sp) sps))"

definition normalize_raw_session_key :: "string \<Rightarrow> string" where
  "normalize_raw_session_key raw =
     (if \<not> may_contain_case_preserving_peer raw then js_lower raw
      else emit_spans raw 0
             (sort_key sp_start (filter (\<lambda>sp. sp_end sp > sp_start sp) (collect_case_preserved_spans raw))))"

definition normalize_session_key :: "string option \<Rightarrow> string" where
  "normalize_session_key session_key =
     (case normalize_optional_string session_key of
        None \<Rightarrow> []
      | Some raw \<Rightarrow> normalize_raw_session_key raw)"

text \<open>The memo in front of it: bounded by entry count, and by key length on both sides.\<close>

definition normalized_key_cache_max_entries :: nat where
  "normalized_key_cache_max_entries = 2048"

definition normalized_key_cache_max_length :: nat where
  "normalized_key_cache_max_length = 4096"

definition read_normalized_key_cache :: "string \<Rightarrow> (string, string) js_map \<Rightarrow> string option" where
  "read_normalized_key_cache raw cache =
     (if length raw \<le> normalized_key_cache_max_length then js_get cache raw else None)"

fun evict_oldest :: "nat \<Rightarrow> (string, string) js_map \<Rightarrow> (string, string) js_map" where
  "evict_oldest cap [] = []"
| "evict_oldest cap (p # m) = (if length (p # m) > cap then evict_oldest cap m else p # m)"

definition write_normalized_key_cache ::
    "string \<Rightarrow> string \<Rightarrow> (string, string) js_map \<Rightarrow> (string, string) js_map" where
  "write_normalized_key_cache raw normalized cache =
     (if length raw > normalized_key_cache_max_length then cache
      else evict_oldest normalized_key_cache_max_entries (js_set raw normalized cache))"

definition normalize_session_key_cached ::
    "string option \<Rightarrow> (string, string) js_map \<Rightarrow> string \<times> (string, string) js_map" where
  "normalize_session_key_cached session_key cache =
     (case normalize_optional_string session_key of
        None \<Rightarrow> ([], cache)
      | Some raw \<Rightarrow>
          (case read_normalized_key_cache raw cache of
             Some hit \<Rightarrow> (hit, cache)
           | None \<Rightarrow>
               (let normalized = normalize_raw_session_key raw
                in (normalized, write_normalized_key_cache raw normalized cache))))"

section \<open>Parsing\<close>

definition parse_agent_session_key :: "string option \<Rightarrow> (string \<times> string) option" where
  "parse_agent_session_key session_key =
     (let raw = normalize_session_key session_key in
      if raw = [] then None
      else
        (case js_split CHR '':'' raw of
           p0 # p1 # p2 # ps \<Rightarrow>
             if p1 = [] \<or> p2 = [] then None
             else if p0 \<noteq> ''agent'' then None
             else
               (let rest = js_join CHR '':'' (p2 # ps) in
                case normalize_optional_string (Some p1) of
                  None \<Rightarrow> None
                | Some agent_id \<Rightarrow> if rest = [] then None else Some (agent_id, rest))
         | _ \<Rightarrow> None))"

text \<open>\<open>/^cron:[^:]+:run:[^:]+(?::|$)/\<close> on the parts of \<open>rest\<close>; the suffix form wants exactly four.\<close>

definition cron_run_shape :: "string \<Rightarrow> bool" where
  "cron_run_shape rest \<longleftrightarrow>
     (case js_split CHR '':'' rest of
        a # job # b # run # ps \<Rightarrow> a = ''cron'' \<and> job \<noteq> [] \<and> b = ''run'' \<and> run \<noteq> []
      | _ \<Rightarrow> False)"

definition is_cron_run_session_key :: "string option \<Rightarrow> bool" where
  "is_cron_run_session_key session_key =
     (case parse_agent_session_key session_key of None \<Rightarrow> False | Some (_, rest) \<Rightarrow> cron_run_shape rest)"

definition parse_cron_run_scope_suffix :: "string option \<Rightarrow> string option \<times> string option" where
  "parse_cron_run_scope_suffix session_key =
     (case normalize_optional_string session_key of
        None \<Rightarrow> (None, None)
      | Some raw \<Rightarrow>
          (case parse_agent_session_key (Some raw) of
             None \<Rightarrow> (Some raw, None)
           | Some (_, rest) \<Rightarrow>
               if \<not> (cron_run_shape rest \<and> length (js_split CHR '':'' rest) = 4) then (Some raw, None)
               else
                 (case last_index_of '':run:'' (js_lower raw) of
                    None \<Rightarrow> (Some raw, None)
                  | Some m \<Rightarrow> (Some (take m raw), Some (drop (m + 5) raw)))))"

definition rest_starts_with :: "string \<Rightarrow> string option \<Rightarrow> bool" where
  "rest_starts_with pat rest =
     (case normalize_optional_lowercase_string rest of None \<Rightarrow> False | Some r \<Rightarrow> prefix pat r)"

definition is_cron_session_key :: "string option \<Rightarrow> bool" where
  "is_cron_session_key session_key =
     (case parse_agent_session_key session_key of
        None \<Rightarrow> False | Some (_, rest) \<Rightarrow> rest_starts_with ''cron:'' (Some rest))"

definition is_subagent_session_key :: "string option \<Rightarrow> bool" where
  "is_subagent_session_key session_key =
     (case normalize_optional_string session_key of
        None \<Rightarrow> False
      | Some raw \<Rightarrow>
          rest_starts_with ''subagent:'' (Some raw) \<or>
          rest_starts_with ''subagent:'' (map_option snd (parse_agent_session_key (Some raw))))"

text \<open>The matches of \<open>/(^|:)subagent:/g\<close>, which do not overlap.\<close>

function count_subagent :: "bool \<Rightarrow> string \<Rightarrow> nat" where
  "count_subagent at_start [] = 0"
| "count_subagent at_start (c # s) =
     (if at_start \<and> prefix ''subagent:'' (c # s) then Suc (count_subagent False (drop 8 s))
      else if prefix '':subagent:'' (c # s) then Suc (count_subagent False (drop 9 s))
      else count_subagent False s)"
  by pat_completeness auto
termination by (relation "measure (\<lambda>(b, s). length s)") auto

definition get_subagent_depth :: "string option \<Rightarrow> nat" where
  "get_subagent_depth session_key =
     (case normalize_optional_lowercase_string session_key of
        None \<Rightarrow> 0
      | Some raw \<Rightarrow>
          count_subagent True
            (js_lower (case parse_agent_session_key (Some raw) of Some (_, rest) \<Rightarrow> rest | None \<Rightarrow> raw)))"

definition is_acp_session_key :: "string option \<Rightarrow> bool" where
  "is_acp_session_key session_key =
     (case normalize_optional_string session_key of
        None \<Rightarrow> False
      | Some raw \<Rightarrow>
          prefix ''acp:'' (normalize_lowercase_string_or_empty (Some raw)) \<or>
          rest_starts_with ''acp:'' (map_option snd (parse_agent_session_key (Some raw))))"

definition parse_thread_session_suffix :: "string option \<Rightarrow> string option \<times> string option" where
  "parse_thread_session_suffix session_key =
     (case normalize_optional_string session_key of
        None \<Rightarrow> (None, None)
      | Some raw \<Rightarrow>
          (case last_index_of thread_marker (normalize_lowercase_string_or_empty (Some raw)) of
             None \<Rightarrow> (Some raw, None)
           | Some m \<Rightarrow>
               (Some (take m raw), normalize_optional_string (Some (drop (m + length thread_marker) raw)))))"

record delivery_route =
  dr_account_id :: "string option"
  dr_channel :: string
  dr_peer_id :: string
  dr_peer_kind :: string
  dr_thread_id :: "string option"

definition session_delivery_peer_kinds :: "string list" where
  "session_delivery_peer_kinds = [''channel'', ''direct'', ''dm'', ''group'']"

definition parse_session_delivery_route :: "string option \<Rightarrow> delivery_route option" where
  "parse_session_delivery_route session_key =
     (let (base, thread_id) = parse_thread_session_suffix session_key in
      case parse_agent_session_key (case base of Some b \<Rightarrow> Some b | None \<Rightarrow> session_key) of
        None \<Rightarrow> None
      | Some (_, rest) \<Rightarrow>
          (let parts = js_split CHR '':'' rest in
           if parts ! 0 = ''agent'' \<or> length parts < 3 then None
           else
             (case normalize_optional_lowercase_string (Some (parts ! 0)) of
                None \<Rightarrow> None
              | Some channel \<Rightarrow>
                  if length parts \<ge> 4 \<and> (parts ! 2 = ''direct'' \<or> parts ! 2 = ''dm'') then
                    (case (normalize_optional_string (Some (parts ! 1)),
                           normalize_optional_string (Some (parts ! 3)),
                           normalize_optional_string (Some (js_join CHR '':'' (drop 3 parts)))) of
                       (Some account_id, Some _, Some peer_id) \<Rightarrow>
                         Some \<lparr>dr_account_id = Some account_id, dr_channel = channel, dr_peer_id = peer_id,
                               dr_peer_kind = parts ! 2, dr_thread_id = thread_id\<rparr>
                     | _ \<Rightarrow> None)
                  else
                    (case (normalize_optional_string (Some (parts ! 2)),
                           normalize_optional_string (Some (js_join CHR '':'' (drop 2 parts)))) of
                       (Some _, Some peer_id) \<Rightarrow>
                         if parts ! 1 \<noteq> [] \<and> parts ! 1 \<in> set session_delivery_peer_kinds then
                           Some \<lparr>dr_account_id = None, dr_channel = channel, dr_peer_id = peer_id,
                                 dr_peer_kind = parts ! 1, dr_thread_id = thread_id\<rparr>
                         else None
                     | _ \<Rightarrow> None))))"

record conversation_ref =
  cr_channel :: string
  cr_kind :: chat_type
  cr_raw_id :: string
  cr_prefix :: string

definition parse_raw_session_conversation_ref :: "string option \<Rightarrow> conversation_ref option" where
  "parse_raw_session_conversation_ref session_key =
     (case normalize_optional_string session_key of
        None \<Rightarrow> None
      | Some raw \<Rightarrow>
          (let raw_parts = js_split CHR '':'' raw;
               wrapped = (normalize_optional_lowercase_string (nth_part raw_parts 0) = Some ''agent'')
           in if wrapped \<and> (normalize_optional_string (nth_part raw_parts 1) = None \<or> length raw_parts < 3) then None
              else
                (let start = (if wrapped then 2 else 0);
                     parts = drop start raw_parts
                 in if normalize_optional_lowercase_string (nth_part parts 0) = Some ''agent'' then None
                    else if length parts < 3 \<or> normalize_optional_string (nth_part parts 2) = None then None
                    else
                      (case (normalize_optional_lowercase_string (nth_part parts 0),
                             normalize_optional_lowercase_string (nth_part parts 1),
                             normalize_optional_string (Some (js_join CHR '':'' (drop 2 parts))),
                             normalize_optional_string (Some (js_join CHR '':'' (take (start + 2) raw_parts)))) of
                         (Some channel, Some kind, Some raw_id, Some pre) \<Rightarrow>
                           if kind = ''group'' then
                             Some \<lparr>cr_channel = channel, cr_kind = Group, cr_raw_id = raw_id, cr_prefix = pre\<rparr>
                           else if kind = ''channel'' then
                             Some \<lparr>cr_channel = channel, cr_kind = Channel, cr_raw_id = raw_id, cr_prefix = pre\<rparr>
                           else None
                       | _ \<Rightarrow> None))))"

section \<open>Building\<close>

datatype dm_scope = MainScope | PerPeer | PerChannelPeer | PerAccountChannelPeer

definition or_else :: "string \<Rightarrow> string \<Rightarrow> string" where
  "or_else s d = (if s \<noteq> [] then s else d)"

definition default_main_key :: string where
  "default_main_key = ''main''"

definition normalize_main_key :: "string option \<Rightarrow> string" where
  "normalize_main_key v = or_else (normalize_lowercase_string_or_empty v) default_main_key"

definition build_agent_main_session_key :: "string option \<Rightarrow> string option \<Rightarrow> string" where
  "build_agent_main_session_key agent_id main_key =
     ''agent:'' @ normalize_agent_id agent_id @ '':'' @ normalize_main_key main_key"

text \<open>\<open>resolveEventSessionKey\<close> and \<open>scopedHeartbeatWakeOptions\<close>; \<open>global\<close> is \<open>scope === "global"\<close>.\<close>

definition resolve_event_session_key :: "string \<Rightarrow> string option \<Rightarrow> bool \<Rightarrow> string" where
  "resolve_event_session_key session_key main_key global =
     (case parse_agent_session_key (Some session_key) of
        None \<Rightarrow> session_key
      | Some (agent_id, _) \<Rightarrow>
          if \<not> is_cron_run_session_key (Some session_key) then session_key
          else if global then ''global''
          else build_agent_main_session_key (Some agent_id) main_key)"

datatype wake_target = WakeUntargeted | WakeSession string | WakeAgent string

definition scoped_heartbeat_wake_options :: "string \<Rightarrow> string option \<Rightarrow> bool \<Rightarrow> wake_target" where
  "scoped_heartbeat_wake_options session_key main_key global =
     (case parse_agent_session_key (Some session_key) of
        None \<Rightarrow> WakeUntargeted
      | Some (agent_id, _) \<Rightarrow>
          if is_cron_run_session_key (Some session_key) then
            if global then WakeAgent agent_id
            else WakeSession (build_agent_main_session_key (Some agent_id) main_key)
          else WakeSession session_key)"

definition trimmed_or_empty :: "string option \<Rightarrow> string" where
  "trimmed_or_empty v = js_trim (case v of None \<Rightarrow> [] | Some s \<Rightarrow> s)"

definition to_agent_request_session_key :: "string option \<Rightarrow> string option" where
  "to_agent_request_session_key store_key =
     (let raw = trimmed_or_empty store_key in
      if raw = [] then None
      else (case parse_agent_session_key (Some raw) of Some (_, rest) \<Rightarrow> Some rest | None \<Rightarrow> Some raw))"

definition agent_session_keys_match_by_request_key :: "string option \<Rightarrow> string option \<Rightarrow> bool" where
  "agent_session_keys_match_by_request_key left right \<longleftrightarrow>
     (let l = trimmed_or_empty left; r = trimmed_or_empty right in
      l \<noteq> [] \<and> r \<noteq> [] \<and>
      (l = r \<or> to_agent_request_session_key (Some l) = to_agent_request_session_key (Some r)))"

definition to_agent_store_session_key :: "string option \<Rightarrow> string option \<Rightarrow> string option \<Rightarrow> string" where
  "to_agent_store_session_key agent_id request_key main_key =
     (let raw = trimmed_or_empty request_key;
          lowered = normalize_lowercase_string_or_empty (Some raw)
      in if raw = [] \<or> lowered = default_main_key then build_agent_main_session_key agent_id main_key
         else
           (case parse_agent_session_key (Some raw) of
              Some (a, rest) \<Rightarrow> ''agent:'' @ a @ '':'' @ rest
            | None \<Rightarrow>
                (let normalized = normalize_session_key (Some raw) in
                 if prefix ''agent:'' lowered then normalized
                 else ''agent:'' @ normalize_agent_id agent_id @ '':'' @ normalized)))"

definition resolve_agent_id_from_session_key :: "string option \<Rightarrow> string" where
  "resolve_agent_id_from_session_key session_key =
     normalize_agent_id
       (Some (case parse_agent_session_key session_key of Some (a, _) \<Rightarrow> a | None \<Rightarrow> default_agent_id))"

datatype session_key_shape = ShapeMissing | ShapeAgent | ShapeLegacyOrAlias | ShapeMalformedAgent

definition classify_session_key_shape :: "string option \<Rightarrow> session_key_shape" where
  "classify_session_key_shape session_key =
     (let raw = trimmed_or_empty session_key in
      if raw = [] then ShapeMissing
      else if parse_agent_session_key (Some raw) \<noteq> None then ShapeAgent
      else if prefix ''agent:'' (normalize_lowercase_string_or_empty (Some raw)) then ShapeMalformedAgent
      else ShapeLegacyOrAlias)"

definition is_unscoped_session_key_sentinel :: "string option \<Rightarrow> bool" where
  "is_unscoped_session_key_sentinel session_key \<longleftrightarrow>
     (let lowered = normalize_lowercase_string_or_empty session_key in
      lowered = ''global'' \<or> lowered = ''unknown'')"

definition scope_legacy_session_key_to_agent :: "string option \<Rightarrow> string option \<Rightarrow> string option \<Rightarrow> string option" where
  "scope_legacy_session_key_to_agent agent_id session_key main_key =
     (let raw = trimmed_or_empty session_key in
      if raw = [] then None
      else
        (let a = trimmed_or_empty agent_id in
         if a = [] \<or> classify_session_key_shape (Some raw) \<noteq> ShapeLegacyOrAlias then Some raw
         else Some (to_agent_store_session_key (Some a) (Some raw) main_key)))"

definition normalize_optional_agent_id :: "string option \<Rightarrow> string option" where
  "normalize_optional_agent_id v =
     (case normalize_optional_string v of None \<Rightarrow> None | Some t \<Rightarrow> Some (normalize_agent_id (Some t)))"

text \<open>
  \<open>resolveLinkedPeerId\<close>. \<open>identityLinks\<close> is the list of \<open>Object.entries\<close>; a value that is not an
  array is \<open>None\<close>.
\<close>

type_synonym identity_links = "(string \<times> string list option) list"

definition linked_candidates :: "string \<Rightarrow> string \<Rightarrow> string list" where
  "linked_candidates channel peer_id =
     (let raw_candidate = normalize_lowercase_string_or_empty (Some peer_id);
          ch = normalize_lowercase_string_or_empty (Some channel);
          scoped = normalize_lowercase_string_or_empty (Some (ch @ '':'' @ peer_id));
          c0 = (if raw_candidate \<noteq> [] then [raw_candidate] else [])
      in if ch \<noteq> [] \<and> scoped \<noteq> [] then set_add scoped c0 else c0)"

definition link_matches :: "string list \<Rightarrow> string \<times> string list option \<Rightarrow> bool" where
  "link_matches candidates entry =
     (case entry of (canonical, ids) \<Rightarrow>
        js_trim canonical \<noteq> [] \<and>
        (case ids of
           None \<Rightarrow> False
         | Some xs \<Rightarrow>
             list_ex (\<lambda>i. let n = normalize_lowercase_string_or_empty (Some i)
                          in n \<noteq> [] \<and> n \<in> set candidates) xs))"

definition resolve_linked_peer_id :: "identity_links option \<Rightarrow> string \<Rightarrow> string \<Rightarrow> string option" where
  "resolve_linked_peer_id links channel peer_id =
     (case links of
        None \<Rightarrow> None
      | Some entries \<Rightarrow>
          (let p = js_trim peer_id in
           if p = [] then None
           else
             (let candidates = linked_candidates channel p in
              if candidates = [] then None
              else map_option (\<lambda>e. js_trim (fst e)) (find (link_matches candidates) entries))))"

fun chat_type_name :: "chat_type \<Rightarrow> string" where
  "chat_type_name Direct = ''direct''"
| "chat_type_name Group = ''group''"
| "chat_type_name Channel = ''channel''"

definition build_agent_peer_session_key ::
    "string option \<Rightarrow> string option \<Rightarrow> string \<Rightarrow> string option \<Rightarrow> chat_type option \<Rightarrow> string option \<Rightarrow>
     identity_links option \<Rightarrow> dm_scope option \<Rightarrow> string" where
  "build_agent_peer_session_key agent_id main_key channel account_id peer_kind peer_id links scope =
     (let kind = (case peer_kind of None \<Rightarrow> Direct | Some k \<Rightarrow> k);
          ch = or_else (normalize_lowercase_string_or_empty (Some channel)) ''unknown''
      in if kind = Direct then
           (let dm = (case scope of None \<Rightarrow> MainScope | Some d \<Rightarrow> d);
                p0 = trimmed_or_empty peer_id;
                p1 = (case (if dm = MainScope then None else resolve_linked_peer_id links channel p0) of
                        None \<Rightarrow> p0 | Some l \<Rightarrow> or_else l p0);
                p = normalize_lowercase_string_or_empty (Some p1)
            in if dm = PerAccountChannelPeer \<and> p \<noteq> [] then
                 ''agent:'' @ normalize_agent_id agent_id @ '':'' @ ch @ '':'' @ account_id_of account_id @ '':direct:'' @ p
               else if dm = PerChannelPeer \<and> p \<noteq> [] then
                 ''agent:'' @ normalize_agent_id agent_id @ '':'' @ ch @ '':direct:'' @ p
               else if dm = PerPeer \<and> p \<noteq> [] then
                 ''agent:'' @ normalize_agent_id agent_id @ '':direct:'' @ p
               else build_agent_main_session_key agent_id main_key)
         else
           (let p = or_else (normalize_session_peer_id (Some channel) (Some (chat_type_name kind)) peer_id) ''unknown''
            in ''agent:'' @ normalize_agent_id agent_id @ '':'' @ ch @ '':'' @ chat_type_name kind @ '':'' @ p))"

definition build_group_history_key :: "string \<Rightarrow> string option \<Rightarrow> chat_type \<Rightarrow> string \<Rightarrow> string" where
  "build_group_history_key channel account_id peer_kind peer_id =
     (let ch = or_else (normalize_lowercase_string_or_empty (Some channel)) ''unknown'';
          p = or_else (normalize_session_peer_id (Some ch) (Some (chat_type_name peer_kind)) (Some peer_id)) ''unknown''
      in ch @ '':'' @ account_id_of account_id @ '':'' @ chat_type_name peer_kind @ '':'' @ p)"

text \<open>\<open>resolveThreadSessionKeys\<close>; \<open>normalize_thread\<close> is the optional callback of the channel.\<close>

definition resolve_thread_session_keys ::
    "string \<Rightarrow> string option \<Rightarrow> string option \<Rightarrow> bool option \<Rightarrow> (string \<Rightarrow> string) option \<Rightarrow> string \<times> string option" where
  "resolve_thread_session_keys base thread_id parent use_suffix normalize_thread =
     (let t = trimmed_or_empty thread_id in
      if t = [] then (base, None)
      else
        (let n = (case normalize_thread of Some f \<Rightarrow> f t | None \<Rightarrow> normalize_lowercase_string_or_empty (Some t));
             suffix = (case use_suffix of None \<Rightarrow> True | Some b \<Rightarrow> b)
         in (if suffix then base @ thread_marker @ n else base, parent)))"

end
