(* ===== verification/Session_Key_Props.thy ===== *)
theory Session_Key_Props
  imports Session_Keys
begin

text \<open>
  What session keys promise: keys parse back into what they were built from, thread suffixes split
  off again, store and request keys are inverse, and the memo of normalized keys is transparent.
\<close>

section \<open>Substrings and splitting\<close>

lemma last_index_of_None: "last_index_of pat s = None \<longleftrightarrow> \<not> sublist pat s"
proof (induction s)
  case (Cons c s)
  have "sublist pat (c # s) \<longleftrightarrow> prefix pat (c # s) \<or> sublist pat s" by (simp add: sublist_Cons_right)
  then show ?case using Cons by (auto split: option.splits)
qed simp

lemma substring_iff: "substring pat s \<longleftrightarrow> sublist pat s"
  by (simp add: substring_def last_index_of_None)

lemma last_index_of_last:
  assumes "\<not> sublist (c # r) (r @ n)"
  shows "last_index_of (c # r) (u @ (c # r) @ n) = Some (length u)"
proof (induction u)
  case Nil
  have "last_index_of (c # r) (r @ n) = None" using assms by (simp add: last_index_of_None)
  then show ?case by simp
qed simp



section \<open>Plain keys\<close>

text \<open>A key without a case-preserving channel, already trimmed and lowercase.\<close>

definition plain_key :: "string \<Rightarrow> bool" where
  "plain_key s \<longleftrightarrow> s \<noteq> [] \<and> js_trim s = s \<and> js_lower s = s \<and> \<not> may_contain_case_preserving_peer s"

lemma normalize_optional_plain: "plain_key s \<Longrightarrow> normalize_optional_string (Some s) = Some s"
  by (simp add: normalize_optional_string_def plain_key_def)

lemma normalize_plain: "plain_key s \<Longrightarrow> normalize_session_key (Some s) = s"
  by (simp add: normalize_session_key_def normalize_optional_plain normalize_raw_session_key_def) (simp add: plain_key_def)

lemma may_contain_lower: "may_contain_case_preserving_peer (js_lower s) = may_contain_case_preserving_peer s"
  by (simp add: may_contain_case_preserving_peer_def)

lemma normalize_session_key_plain:
  assumes "js_trim s \<noteq> []" and "\<not> may_contain_case_preserving_peer (js_trim s)"
  shows "normalize_session_key (Some s) = js_lower (js_trim s)" and "plain_key (normalize_session_key (Some s))"
proof -
  show e: "normalize_session_key (Some s) = js_lower (js_trim s)"
    using assms by (simp add: normalize_session_key_def normalize_optional_string_def normalize_raw_session_key_def)
  show "plain_key (normalize_session_key (Some s))"
    unfolding e plain_key_def using assms by (simp add: js_trim_lower may_contain_lower)
qed

lemma canonical_no_colon: "canonical_id s \<Longrightarrow> CHR '':'' \<notin> set s \<and> s \<noteq> [] \<and> js_trim s = s \<and> js_lower s = s"
proof -
  assume a: "canonical_id s"
  have "\<not> is_id_char (CHR '':'')" by code_simp
  with a show ?thesis by (auto simp: canonical_id_def list_all_iff trim_id lower_id_id)
qed

text \<open>An agent-scoped plain key parses into its agent and the rest.\<close>

lemma parse_plain:
  assumes "plain_key (''agent:'' @ a @ '':'' @ rest)" and "canonical_id a" and "rest \<noteq> []" and "hd rest \<noteq> CHR '':''"
  shows "parse_agent_session_key (Some (''agent:'' @ a @ '':'' @ rest)) = Some (a, rest)"
proof -
  note c = canonical_no_colon [OF assms(2)]
  have "js_split CHR '':'' (''agent:'' @ a @ '':'' @ rest) = ''agent'' # a # js_split CHR '':'' rest"
    using js_split_append [of "CHR '':''" "''agent''" "a @ CHR '':'' # rest"]
      js_split_append [of "CHR '':''" a rest] c by simp
  moreover obtain p ps where p: "js_split CHR '':'' rest = p # ps" by (cases "js_split CHR '':'' rest") auto
  moreover have "p \<noteq> []" using p assms(3,4) by (cases rest) (auto split: list.splits)
  moreover have "js_join CHR '':'' (p # ps) = rest" using js_join_split [of "CHR '':''" rest] by (simp add: p)
  moreover have "normalize_optional_string (Some a) = Some a" using c by (simp add: normalize_optional_string_def)
  ultimately show ?thesis using assms(3) c
    by (simp add: parse_agent_session_key_def normalize_plain [OF assms(1), simplified] Let_def)
qed

lemma plain_agent_key:
  assumes "canonical_id a" and "rest \<noteq> []" and "js_lower rest = rest" and "\<not> js_is_space (last rest)"
    and "\<not> may_contain_case_preserving_peer (''agent:'' @ a @ '':'' @ rest)"
  shows "plain_key (''agent:'' @ a @ '':'' @ rest)"
proof -
  have "js_trim (''agent:'' @ a @ '':'' @ rest) = ''agent:'' @ a @ '':'' @ rest"
    by (rule js_trim_eq_self) (use assms(2,4) in \<open>simp add: js_is_space_def Let_def\<close>)
  moreover have "js_lower (''agent:'' @ a @ '':'' @ rest) = ''agent:'' @ a @ '':'' @ rest"
    using canonical_no_colon [OF assms(1)] assms(3) by (simp add: js_lower_def js_lower_char_def js_is_upper_def Let_def)
  ultimately show ?thesis using assms(5) by (simp add: plain_key_def)
qed

lemma normalized_lower_props:
  "js_lower (normalize_lowercase_string_or_empty v) = normalize_lowercase_string_or_empty v"
  "js_trim (normalize_lowercase_string_or_empty v) = normalize_lowercase_string_or_empty v"
  by (cases v, simp, simp add: normalize_lowercase_eq) (cases v, simp, simp add: normalize_lowercase_eq js_trim_lower)

lemma trimmed_last: "js_trim s = s \<Longrightarrow> s \<noteq> [] \<Longrightarrow> \<not> js_is_space (last s)"
  using js_trim_ends [of s] by simp

lemma normalize_main_key_props:
  "normalize_main_key m \<noteq> []" "js_lower (normalize_main_key m) = normalize_main_key m"
  "js_trim (normalize_main_key m) = normalize_main_key m"
proof -
  have d: "js_lower default_main_key = default_main_key" "js_trim default_main_key = default_main_key"
    "default_main_key \<noteq> []" by code_simp+
  then show "normalize_main_key m \<noteq> []" "js_lower (normalize_main_key m) = normalize_main_key m"
    "js_trim (normalize_main_key m) = normalize_main_key m"
    by (simp_all add: normalize_main_key_def or_else_def normalized_lower_props)
qed

section \<open>Properties\<close>

text \<open>Every main session key parses back: building the main key of an agent and parsing it gives the
  normalized agent id and the normalized main key, for keys outside the case-preserving channels whose
  main part does not start with a colon.\<close>

theorem main_session_key_roundtrip:
  assumes "\<not> may_contain_case_preserving_peer (build_agent_main_session_key agent main)"
    and "hd (normalize_main_key main) \<noteq> CHR '':''"
  shows "parse_agent_session_key (Some (build_agent_main_session_key agent main)) =
           Some (normalize_agent_id agent, normalize_main_key main) \<and>
         classify_session_key_shape (Some (build_agent_main_session_key agent main)) = ShapeAgent \<and>
         to_agent_request_session_key (Some (build_agent_main_session_key agent main)) = Some (normalize_main_key main)"
proof -
  let ?k = "build_agent_main_session_key agent main"
  note m = normalize_main_key_props [of main]
  have k: "?k = ''agent:'' @ normalize_agent_id agent @ '':'' @ normalize_main_key main"
    by (simp add: build_agent_main_session_key_def)
  have plain: "plain_key ?k" unfolding k
    by (rule plain_agent_key) (use m trimmed_last [OF m(3) m(1)] assms(1) k in \<open>simp_all add: normalize_agent_id_canonical\<close>)
  then have p: "parse_agent_session_key (Some ?k) = Some (normalize_agent_id agent, normalize_main_key main)"
    unfolding k by (rule parse_plain [OF _ normalize_agent_id_canonical m(1) assms(2)])
  have t: "js_trim ?k = ?k" and ne: "?k \<noteq> []" using plain by (simp_all add: plain_key_def)
  show ?thesis
    using p ne by (simp add: classify_session_key_shape_def to_agent_request_session_key_def trimmed_or_empty_def t Let_def)
qed

theorem main_session_key_roundtrip_witness:
  "parse_agent_session_key (Some (build_agent_main_session_key (Some ''Ops Bot'') None)) = Some (''ops-bot'', ''main'')"
proof -
  have a: "\<not> may_contain_case_preserving_peer (build_agent_main_session_key (Some ''Ops Bot'') None)" by code_simp
  have b: "hd (normalize_main_key None) \<noteq> CHR '':''" by code_simp
  have c: "normalize_agent_id (Some ''Ops Bot'') = ''ops-bot''" "normalize_main_key None = ''main''" by code_simp+
  show ?thesis using main_session_key_roundtrip [OF a b] by (simp add: c)
qed

lemma evict_oldest_props:
  assumes "js_wf m"
  shows "js_wf (evict_oldest cap m) \<and> length (evict_oldest cap m) \<le> cap"
    and "js_get (evict_oldest cap m) k = Some v \<Longrightarrow> js_get m k = Some v"
proof -
  show "js_wf (evict_oldest cap m) \<and> length (evict_oldest cap m) \<le> cap"
    using assms by (induction cap m rule: evict_oldest.induct) auto
  show "js_get m k = Some v" if "js_get (evict_oldest cap m) k = Some v"
    using that assms
  proof (induction cap m rule: evict_oldest.induct)
    case (2 cap p m)
    show ?case
    proof (cases "length (p # m) > cap")
      case True
      with 2 have "js_get m k = Some v" by simp
      then have "k \<in> set (js_keys m)" by (metis js_get_None_keys option.distinct(1))
      then have "fst p \<noteq> k" using 2(3) by auto
      then show ?thesis using \<open>js_get m k = Some v\<close> by (cases p) simp
    next
      case False
      then show ?thesis using 2 by simp
    qed
  qed simp
qed

interpretation key_memo: memo_table normalize_raw_session_key write_normalized_key_cache normalized_key_cache_max_entries
proof unfold_locales
  fix c :: "(string, string) js_map" and k k' v a :: string
  let ?m = "js_set k v c"
  show "js_wf (write_normalized_key_cache k v c) \<and> length (write_normalized_key_cache k v c) \<le> normalized_key_cache_max_entries"
    if "js_wf c" "length c \<le> normalized_key_cache_max_entries"
    using that evict_oldest_props(1) [of ?m normalized_key_cache_max_entries]
    by (auto simp: write_normalized_key_cache_def)
  show "k' = k \<and> a = v \<or> js_get c k' = Some a"
    if "js_wf c" "js_get (write_normalized_key_cache k v c) k' = Some a"
    using that evict_oldest_props(2) [of ?m normalized_key_cache_max_entries k' a]
    by (auto simp: write_normalized_key_cache_def split: if_splits)
qed

text \<open>The bounded memo in front of key normalization never changes a result: whatever was looked up before, the cached normalizer
  returns the normalized key and keeps its table correct and within its bound.\<close>

theorem session_key_cache_transparent:
  assumes "memo_ok normalize_raw_session_key normalized_key_cache_max_entries cache"
  shows "fst (normalize_session_key_cached k cache) = normalize_session_key k \<and>
         memo_ok normalize_raw_session_key normalized_key_cache_max_entries (snd (normalize_session_key_cached k cache))"
proof (cases "normalize_optional_string k")
  case None
  then show ?thesis using assms by (simp add: normalize_session_key_cached_def normalize_session_key_def)
next
  case (Some raw)
  show ?thesis
  proof (cases "read_normalized_key_cache raw cache")
    case None
    then show ?thesis using key_memo.memo_put [OF assms, of raw] Some
      by (simp add: normalize_session_key_cached_def normalize_session_key_def Let_def)
  next
    case (Some hit)
    then have "hit = normalize_raw_session_key raw"
      using assms by (auto simp: read_normalized_key_cache_def memo_ok_def split: if_splits)
    then show ?thesis using assms Some \<open>normalize_optional_string k = Some raw\<close>
      by (simp add: normalize_session_key_cached_def normalize_session_key_def)
  qed
qed

theorem session_key_cache_transparent_witness:
  "fst (normalize_session_key_cached (Some '' Agent:Main:X '') [(''Agent:Main:X'', ''agent:main:x'')]) = ''agent:main:x''"
proof -
  have a: "normalize_raw_session_key ''Agent:Main:X'' = ''agent:main:x''" by code_simp
  then have "memo_ok normalize_raw_session_key normalized_key_cache_max_entries [(''Agent:Main:X'', ''agent:main:x'')]"
    by (simp add: memo_ok_def normalized_key_cache_max_entries_def)
  moreover have "normalize_session_key (Some '' Agent:Main:X '') = ''agent:main:x''" by code_simp
  ultimately show ?thesis using session_key_cache_transparent [of _ "Some '' Agent:Main:X ''"] by simp
qed

text \<open>The thread suffix parses back: a thread key built on a session key splits into that key and the
  normalized thread id, when the id holds no further marker.\<close>

theorem thread_suffix_roundtrip:
  assumes "js_trim base = base" and "base \<noteq> []" and "js_trim t \<noteq> []"
    and "\<not> substring thread_marker (CHR '':'' # normalize_lowercase_string_or_empty (Some t))"
  shows "parse_thread_session_suffix (Some (fst (resolve_thread_session_keys base (Some t) par None None))) =
           (Some base, Some (normalize_lowercase_string_or_empty (Some t)))"
proof -
  let ?n = "normalize_lowercase_string_or_empty (Some t)"
  let ?k = "base @ thread_marker @ ?n"
  have n: "?n \<noteq> []" "js_trim ?n = ?n" "js_lower ?n = ?n"
    using assms(3) by (simp_all add: normalized_lower_props) (simp add: normalize_lowercase_eq)
  have key: "fst (resolve_thread_session_keys base (Some t) par None None) = ?k"
    using assms(3) by (simp add: resolve_thread_session_keys_def trimmed_or_empty_def Let_def normalize_lowercase_eq)
  have trim: "js_trim ?k = ?k"
    by (rule js_trim_eq_self)
      (use trimmed_last [OF n(2,1)] js_trim_ends [of base] assms(1,2) n(1) in \<open>auto simp: hd_append\<close>)
  have low: "js_lower ?k = js_lower base @ thread_marker @ ?n"
    by (simp add: n(3)) (code_simp)
  have "\<not> sublist thread_marker (''thread:'' @ ?n)"
    using assms(4) by (simp add: substring_iff thread_marker_def sublist_Cons_right)
  then have idx: "last_index_of thread_marker (js_lower base @ thread_marker @ ?n) = Some (length base)"
    using last_index_of_last [of "CHR '':''" "''thread:''" ?n "js_lower base"] by (simp add: thread_marker_def)
  have "normalize_optional_string (Some ?k) = Some ?k" using n(1) by (simp add: normalize_optional_string_def trim)
  moreover have "normalize_lowercase_string_or_empty (Some ?k) = js_lower base @ thread_marker @ ?n"
    by (simp only: normalize_lowercase_eq [of ?k] trim low)
  ultimately show ?thesis
    using n by (simp add: key parse_thread_session_suffix_def idx) (simp add: normalize_optional_string_def)
qed

theorem thread_suffix_roundtrip_witness:
  "parse_thread_session_suffix (Some (fst (resolve_thread_session_keys ''agent:main:slack:channel:c1'' (Some '' T42 '') None None None))) =
     (Some ''agent:main:slack:channel:c1'', Some ''t42'')"
proof -
  have a: "js_trim ''agent:main:slack:channel:c1'' = ''agent:main:slack:channel:c1''" "js_trim '' T42 '' \<noteq> []" by code_simp+
  have b: "\<not> substring thread_marker (CHR '':'' # normalize_lowercase_string_or_empty (Some '' T42 ''))" by code_simp
  have c: "normalize_lowercase_string_or_empty (Some '' T42 '') = ''t42''" by code_simp
  show ?thesis using thread_suffix_roundtrip [OF a(1) _ a(2) b] by (simp add: c)
qed

lemma may_contain_eq:
  "may_contain_case_preserving_peer r \<longleftrightarrow> substring ''signal:'' (js_lower r) \<or> substring ''matrix:'' (js_lower r)"
  by (simp add: may_contain_case_preserving_peer_def case_preserving_peers_def)




lemma js_lower_Cons: "js_lower (c # s) = js_lower_char c # js_lower s"
  by (simp add: js_lower_def)







text \<open>The word \<open>thread\<close> is not reserved in the middle of a key: for an agent whose id is \<open>thread\<close> the main
  session key is split inside its own head, so the agent's main key is taken for a thread of \<open>agent\<close>
  and its group keys are no delivery routes.\<close>

theorem thread_agent_key_misparsed:
  "is_valid_agent_id (Some ''thread'') \<and>
   parse_thread_session_suffix (Some (build_agent_main_session_key (Some ''thread'') None)) = (Some ''agent'', Some ''main'') \<and>
   parse_session_delivery_route
     (Some (build_agent_peer_session_key (Some ''thread'') None ''telegram'' None (Some Group) (Some ''42'') None None)) = None"
  by code_simp

text \<open>Store keys and request keys are inverse: storing a request key under an agent and reading the request
  key back gives the normalized request key, for a key that is neither empty, nor the main alias, nor
  already agent-scoped, and outside the case-preserving channels.\<close>

theorem store_request_key_roundtrip:
  fixes agent main :: "string option" and r :: string
  assumes "js_trim r \<noteq> []" and "js_lower (js_trim r) \<noteq> default_main_key"
    and "\<not> prefix ''agent:'' (js_lower (js_trim r))" and "hd (js_trim r) \<noteq> CHR '':''"
    and "\<not> may_contain_case_preserving_peer (''agent:'' @ normalize_agent_id agent @ '':'' @ js_trim r)"
  shows "to_agent_request_session_key (Some (to_agent_store_session_key agent (Some r) main)) =
           Some (js_lower (js_trim r)) \<and>
         parse_agent_session_key (Some (to_agent_store_session_key agent (Some r) main)) =
           Some (normalize_agent_id agent, js_lower (js_trim r))"
proof -
  let ?raw = "js_trim r" and ?a = "normalize_agent_id agent"
  let ?n = "js_lower ?raw"
  let ?k = "''agent:'' @ ?a @ '':'' @ ?n"
  have sub: "sublist ?n (js_lower (''agent:'' @ ?a @ '':'' @ ?raw))"
  proof -
    have "js_lower (''agent:'' @ ?a @ '':'' @ ?raw) = js_lower (''agent:'' @ ?a @ '':'') @ ?n"
      by (simp add: js_lower_Cons)
    then show ?thesis by (simp only: sublist_append_leftI)
  qed
  have mono: "sublist x ?n \<Longrightarrow> sublist x (js_lower (''agent:'' @ ?a @ '':'' @ ?raw))" for x
    using sub sublist_order.order_trans by blast
  have m: "\<not> may_contain_case_preserving_peer ?raw"
    using assms(5) mono by (auto simp: may_contain_eq substring_iff)
  have mk: "\<not> may_contain_case_preserving_peer ?k"
    using assms(5) by (simp add: may_contain_eq js_lower_Cons)
  have ne: "?n \<noteq> []" using assms(1) by simp
  have last: "\<not> js_is_space (last ?n)" using js_trim_ends [of r] assms(1) by (simp add: js_lower_def last_map)
  have hdn: "hd ?n \<noteq> CHR '':''"
  proof
    obtain c s where c: "?raw = c # s" using assms(1) by (cases ?raw) auto
    assume "hd ?n = CHR '':''"
    then have "js_lower_char c = CHR '':''" by (simp add: c js_lower_def)
    moreover have "js_lower_char c = CHR '':'' \<Longrightarrow> c = CHR '':''"
      by (cases c) (auto simp: js_lower_char_code js_is_upper_code)
    ultimately show False using assms(4) c by simp
  qed
  have plain: "plain_key ?k"
    by (rule plain_agent_key) (use ne last mk in \<open>simp_all add: normalize_agent_id_canonical\<close>)
  have parse_k: "parse_agent_session_key (Some ?k) = Some (?a, ?n)"
    by (rule parse_plain [OF plain normalize_agent_id_canonical ne hdn])
  have norm: "normalize_session_key (Some ?raw) = ?n"
    using normalize_session_key_plain(1) [of ?raw] assms(1) m by simp
  have parse_raw: "parse_agent_session_key (Some ?raw) = None"
  proof (rule ccontr)
    assume "parse_agent_session_key (Some ?raw) \<noteq> None"
    then obtain p1 ps where "js_split CHR '':'' ?n = ''agent'' # p1 # ps"
      by (auto simp: parse_agent_session_key_def norm Let_def split: list.splits if_splits)
    then have "?n = ''agent:'' @ js_join CHR '':'' (p1 # ps)" by (metis append.simps append_assoc js_join.simps(3) js_join_split)
    then show False using assms(3) by (metis prefixI)
  qed
  have low: "normalize_lowercase_string_or_empty (Some ?raw) = ?n" by (simp add: normalize_lowercase_eq)
  have store: "to_agent_store_session_key agent (Some r) main = ?k"
    using assms(1-3) parse_raw by (simp add: to_agent_store_session_key_def trimmed_or_empty_def low norm Let_def)
  have t: "js_trim ?k = ?k" "?k \<noteq> []" using plain by (simp_all add: plain_key_def)
  have "to_agent_request_session_key (Some ?k) = Some ?n"
    unfolding to_agent_request_session_key_def trimmed_or_empty_def option.case t(1) Let_def using t(2) parse_k by simp
  with parse_k store show ?thesis by simp
qed

theorem store_request_key_roundtrip_witness:
  "to_agent_request_session_key (Some (to_agent_store_session_key (Some ''Ops'') (Some '' Cron:Daily '') None)) = Some ''cron:daily''"
proof -
  have t: "js_trim '' Cron:Daily '' = ''Cron:Daily''" "js_lower ''Cron:Daily'' = ''cron:daily''" "normalize_agent_id (Some ''Ops'') = ''ops''"
    "js_lower ''agent:ops:Cron:Daily'' = ''agent:ops:cron:daily''" by code_simp+
  have m: "\<not> may_contain_case_preserving_peer ''agent:ops:Cron:Daily''" unfolding may_contain_eq t by code_simp
  show ?thesis using store_request_key_roundtrip [of "'' Cron:Daily ''" "Some ''Ops''" None] m
    by (simp add: t default_main_key_def)
qed

end
