(* ===== verification/Routing.thy ===== *)
theory Routing
  imports Session_Keys
begin

text \<open>
  Agent routing: \<open>src/src/routing/resolve-route.ts\<close>, \<open>binding-scope.ts\<close>, \<open>bindings.ts\<close>, the binding
  list of \<open>src/src/config/bindings.ts\<close> and \<open>resolveDefaultAgentId\<close> of
  \<open>src/src/agents/agent-scope-config.ts\<close>. The configuration keeps the fields routing reads; ids are
  strings, as their types say. The caches are those of one configuration object whose bindings,
  agents and session settings are unchanged; logging is off.
\<close>

section \<open>Configuration\<close>

record agent_entry =
  ag_id :: "string option"
  ag_default :: bool

record raw_peer =
  raw_kind :: "string option"
  raw_id :: "string option"

record binding_match =
  bm_channel :: "string option"
  bm_account_id :: "string option"
  bm_peer :: "raw_peer option"
  bm_guild_id :: "string option"
  bm_team_id :: "string option"
  bm_roles :: "string list option"

record agent_binding =
  bd_acp :: bool
  bd_agent_id :: string
  bd_match :: "binding_match option"
  bd_dm_scope :: "dm_scope option"

record route_config =
  cf_agents :: "agent_entry list"
  cf_bindings :: "agent_binding list"
  cf_dm_scope :: "dm_scope option"
  cf_identity_links :: "identity_links option"
  cf_main_key :: "string option"

definition list_bindings :: "route_config \<Rightarrow> agent_binding list" where
  "list_bindings cfg = filter (\<lambda>b. \<not> bd_acp b) (cf_bindings cfg)"

definition resolve_default_agent_id :: "route_config \<Rightarrow> string" where
  "resolve_default_agent_id cfg =
     (if cf_agents cfg = [] then default_agent_id
      else
        (let defaults = filter ag_default (cf_agents cfg);
             chosen = (case defaults of d # _ \<Rightarrow> d | [] \<Rightarrow> hd (cf_agents cfg));
             i = (case ag_id chosen of None \<Rightarrow> [] | Some s \<Rightarrow> js_trim s)
         in normalize_agent_id (Some (if i \<noteq> [] then i else default_agent_id))))"

section \<open>Agent lookup\<close>

definition agent_lookup :: "route_config \<Rightarrow> (string, string) js_map" where
  "agent_lookup cfg =
     fold (\<lambda>agent m.
        (let raw = (case ag_id agent of None \<Rightarrow> [] | Some s \<Rightarrow> js_trim s) in
         if raw = [] then m else js_set (normalize_agent_id (Some raw)) (normalize_agent_id (Some raw)) m))
       (cf_agents cfg) []"

definition fallback_default_agent_id :: "route_config \<Rightarrow> string" where
  "fallback_default_agent_id cfg = normalize_agent_id (Some (resolve_default_agent_id cfg))"

definition pick_first_existing_agent_id :: "route_config \<Rightarrow> string \<Rightarrow> string" where
  "pick_first_existing_agent_id cfg agent_id =
     (let trimmed = js_trim agent_id in
      if trimmed = [] then fallback_default_agent_id cfg
      else if agent_lookup cfg = [] then normalize_agent_id (Some trimmed)
      else
        (case js_get (agent_lookup cfg) (normalize_agent_id (Some trimmed)) of
           Some resolved \<Rightarrow> if resolved \<noteq> [] then resolved else fallback_default_agent_id cfg
         | None \<Rightarrow> fallback_default_agent_id cfg))"

section \<open>Binding constraints\<close>

definition normalize_route_binding_id :: "string option \<Rightarrow> string" where
  "normalize_route_binding_id v = (case v of None \<Rightarrow> [] | Some s \<Rightarrow> js_trim s)"

definition normalize_route_binding_roles :: "string list option \<Rightarrow> string list option" where
  "normalize_route_binding_roles v = (case v of Some (r # rs) \<Rightarrow> Some (r # rs) | _ \<Rightarrow> None)"

definition scope_id_matches :: "string option \<Rightarrow> string \<Rightarrow> string \<Rightarrow> bool" where
  "scope_id_matches constraint exact group_space =
     (case constraint of
        None \<Rightarrow> True
      | Some c \<Rightarrow> c = [] \<or> c = exact \<or> c = group_space)"

definition has_any_role :: "string list \<Rightarrow> string list option \<Rightarrow> bool" where
  "has_any_role roles members =
     (case members of None \<Rightarrow> False | Some ms \<Rightarrow> list_ex (\<lambda>r. r \<in> set ms) roles)"

record route_scope =
  rs_guild_id :: "string option"
  rs_team_id :: "string option"
  rs_group_space :: "string option"
  rs_member_role_ids :: "string list option"

definition route_binding_scope_matches ::
    "string option \<Rightarrow> string option \<Rightarrow> string list option \<Rightarrow> route_scope \<Rightarrow> bool" where
  "route_binding_scope_matches c_guild c_team c_roles scope =
     (let guild_id = normalize_route_binding_id (rs_guild_id scope);
          team_id = normalize_route_binding_id (rs_team_id scope);
          group_space = normalize_route_binding_id (rs_group_space scope)
      in scope_id_matches c_guild guild_id group_space \<and>
         scope_id_matches c_team team_id group_space \<and>
         (case normalize_route_binding_roles c_roles of
            None \<Rightarrow> True
          | Some roles \<Rightarrow> has_any_role roles (rs_member_role_ids scope)))"

datatype peer_constraint = NoPeer | InvalidPeer | WildcardKind chat_type | ValidPeer chat_type string

record normalized_match =
  nm_account_pattern :: string
  nm_peer :: peer_constraint
  nm_guild_id :: "string option"
  nm_team_id :: "string option"
  nm_roles :: "string list option"

definition some_if_nonempty :: "string \<Rightarrow> string option" where
  "some_if_nonempty s = (if s \<noteq> [] then Some s else None)"

definition normalize_peer_constraint :: "raw_peer option \<Rightarrow> peer_constraint" where
  "normalize_peer_constraint peer =
     (case peer of
        None \<Rightarrow> NoPeer
      | Some p \<Rightarrow>
          (let i = normalize_route_binding_id (raw_id p) in
           case normalize_chat_type (raw_kind p) of
             None \<Rightarrow> InvalidPeer
           | Some kind \<Rightarrow>
               if i = [] then InvalidPeer
               else if i = ''*'' then WildcardKind kind
               else ValidPeer kind i))"

definition normalize_binding_match :: "binding_match option \<Rightarrow> normalized_match" where
  "normalize_binding_match m =
     \<lparr>nm_account_pattern = trimmed_or_empty (case m of None \<Rightarrow> None | Some b \<Rightarrow> bm_account_id b),
      nm_peer = normalize_peer_constraint (case m of None \<Rightarrow> None | Some b \<Rightarrow> bm_peer b),
      nm_guild_id = some_if_nonempty (normalize_route_binding_id (case m of None \<Rightarrow> None | Some b \<Rightarrow> bm_guild_id b)),
      nm_team_id = some_if_nonempty (normalize_route_binding_id (case m of None \<Rightarrow> None | Some b \<Rightarrow> bm_team_id b)),
      nm_roles = normalize_route_binding_roles (case m of None \<Rightarrow> None | Some b \<Rightarrow> bm_roles b)\<rparr>"

record route_peer =
  rp_kind :: chat_type
  rp_id :: string

definition matches_binding_scope ::
    "normalized_match \<Rightarrow> route_peer option \<Rightarrow> string \<Rightarrow> string \<Rightarrow> string list \<Rightarrow> bool" where
  "matches_binding_scope m peer guild_id team_id members \<longleftrightarrow>
     (case nm_peer m of
        InvalidPeer \<Rightarrow> False
      | ValidPeer kind i \<Rightarrow>
          (case peer of None \<Rightarrow> False | Some p \<Rightarrow> peer_kind_matches kind (rp_kind p) \<and> rp_id p = i)
      | WildcardKind kind \<Rightarrow> (case peer of None \<Rightarrow> False | Some p \<Rightarrow> peer_kind_matches kind (rp_kind p))
      | NoPeer \<Rightarrow> True) \<and>
     route_binding_scope_matches (nm_guild_id m) (nm_team_id m) (nm_roles m)
       \<lparr>rs_guild_id = Some guild_id, rs_team_id = Some team_id, rs_group_space = None,
        rs_member_role_ids = Some members\<rparr>"

section \<open>Evaluated bindings by channel and account\<close>

record evaluated_binding =
  ev_binding :: agent_binding
  ev_match :: normalized_match
  ev_order :: nat

record channel_bucket =
  cb_by_account :: "(string, evaluated_binding list) js_map"
  cb_by_any :: "evaluated_binding list"

definition resolve_account_pattern_key :: "string \<Rightarrow> string" where
  "resolve_account_pattern_key pattern =
     (if js_trim pattern = [] then default_account_id else account_id_of (Some pattern))"

definition push_map :: "'k \<Rightarrow> 'v \<Rightarrow> ('k, 'v list) js_map \<Rightarrow> ('k, 'v list) js_map" where
  "push_map k v m = js_set k ((case js_get m k of None \<Rightarrow> [] | Some vs \<Rightarrow> vs) @ [v]) m"

definition bucket_add :: "evaluated_binding \<Rightarrow> channel_bucket \<Rightarrow> channel_bucket" where
  "bucket_add e b =
     (if nm_account_pattern (ev_match e) = ''*'' then b\<lparr>cb_by_any := cb_by_any b @ [e]\<rparr>
      else b\<lparr>cb_by_account :=
               push_map (resolve_account_pattern_key (nm_account_pattern (ev_match e))) e (cb_by_account b)\<rparr>)"

definition empty_bucket :: channel_bucket where
  "empty_bucket = \<lparr>cb_by_account = [], cb_by_any = []\<rparr>"

definition binding_channel :: "agent_binding \<Rightarrow> string" where
  "binding_channel b =
     normalize_lowercase_string_or_empty (case bd_match b of None \<Rightarrow> None | Some m \<Rightarrow> bm_channel m)"

definition evaluate_binding ::
    "agent_binding \<Rightarrow> (string, channel_bucket) js_map \<times> nat \<Rightarrow> (string, channel_bucket) js_map \<times> nat" where
  "evaluate_binding b st =
     (let (by_channel, order) = st; channel = binding_channel b in
      if channel = [] then st
      else
        (let e = \<lparr>ev_binding = b, ev_match = normalize_binding_match (bd_match b), ev_order = order\<rparr>;
             bucket = (case js_get by_channel channel of None \<Rightarrow> empty_bucket | Some k \<Rightarrow> k)
         in (js_set channel (bucket_add e bucket) by_channel, Suc order)))"

definition build_evaluated_bindings_by_channel :: "route_config \<Rightarrow> (string, channel_bucket) js_map" where
  "build_evaluated_bindings_by_channel cfg = fst (fold evaluate_binding (list_bindings cfg) ([], 0))"

fun merge_in_source_order :: "evaluated_binding list \<Rightarrow> evaluated_binding list \<Rightarrow> evaluated_binding list" where
  "merge_in_source_order [] ys = ys"
| "merge_in_source_order xs [] = xs"
| "merge_in_source_order (x # xs) (y # ys) =
     (if ev_order x \<le> ev_order y then x # merge_in_source_order xs (y # ys)
      else y # merge_in_source_order (x # xs) ys)"

definition evaluated_bindings_for :: "route_config \<Rightarrow> string \<Rightarrow> string \<Rightarrow> evaluated_binding list" where
  "evaluated_bindings_for cfg channel account_id =
     (let bucket = js_get (build_evaluated_bindings_by_channel cfg) channel;
          account_scoped = (case bucket of
                              None \<Rightarrow> []
                            | Some b \<Rightarrow> (case js_get (cb_by_account b) account_id of None \<Rightarrow> [] | Some es \<Rightarrow> es));
          any_account = (case bucket of None \<Rightarrow> [] | Some b \<Rightarrow> cb_by_any b)
      in merge_in_source_order account_scoped any_account)"

section \<open>The index\<close>

record bindings_index =
  ix_by_peer :: "(string, evaluated_binding list) js_map"
  ix_by_peer_wildcard :: "evaluated_binding list"
  ix_by_guild_with_roles :: "(string, evaluated_binding list) js_map"
  ix_by_guild :: "(string, evaluated_binding list) js_map"
  ix_by_team :: "(string, evaluated_binding list) js_map"
  ix_by_account :: "evaluated_binding list"
  ix_by_channel :: "evaluated_binding list"

definition push_to_index_map ::
    "string \<Rightarrow> evaluated_binding \<Rightarrow> (string, evaluated_binding list) js_map \<Rightarrow> (string, evaluated_binding list) js_map" where
  "push_to_index_map key e m = (if key = [] then m else push_map key e m)"

fun peer_lookup_keys :: "chat_type \<Rightarrow> string \<Rightarrow> string list" where
  "peer_lookup_keys Group i = [''group:'' @ i, ''channel:'' @ i]"
| "peer_lookup_keys Channel i = [''channel:'' @ i, ''group:'' @ i]"
| "peer_lookup_keys Direct i = [''direct:'' @ i]"

definition collect_peer_indexed :: "bindings_index \<Rightarrow> route_peer option \<Rightarrow> evaluated_binding list" where
  "collect_peer_indexed ix peer =
     (case peer of
        None \<Rightarrow> []
      | Some p \<Rightarrow>
          fold (\<lambda>key out. case js_get (ix_by_peer ix) key of None \<Rightarrow> out | Some es \<Rightarrow> fold set_add es out)
            (peer_lookup_keys (rp_kind p) (rp_id p)) [])"

definition empty_index :: bindings_index where
  "empty_index =
     \<lparr>ix_by_peer = [], ix_by_peer_wildcard = [], ix_by_guild_with_roles = [], ix_by_guild = [],
      ix_by_team = [], ix_by_account = [], ix_by_channel = []\<rparr>"

definition index_binding :: "evaluated_binding \<Rightarrow> bindings_index \<Rightarrow> bindings_index" where
  "index_binding e ix =
     (let m = ev_match e in
      case nm_peer m of
        ValidPeer kind i \<Rightarrow>
          ix\<lparr>ix_by_peer := fold (\<lambda>key. push_to_index_map key e) (peer_lookup_keys kind i) (ix_by_peer ix)\<rparr>
      | WildcardKind _ \<Rightarrow> ix\<lparr>ix_by_peer_wildcard := ix_by_peer_wildcard ix @ [e]\<rparr>
      | _ \<Rightarrow>
          (case (nm_guild_id m, nm_roles m, nm_team_id m) of
             (Some g, Some _, _) \<Rightarrow> ix\<lparr>ix_by_guild_with_roles := push_to_index_map g e (ix_by_guild_with_roles ix)\<rparr>
           | (Some g, None, _) \<Rightarrow> ix\<lparr>ix_by_guild := push_to_index_map g e (ix_by_guild ix)\<rparr>
           | (None, _, Some t) \<Rightarrow> ix\<lparr>ix_by_team := push_to_index_map t e (ix_by_team ix)\<rparr>
           | (None, _, None) \<Rightarrow>
               if nm_account_pattern m \<noteq> ''*'' then ix\<lparr>ix_by_account := ix_by_account ix @ [e]\<rparr>
               else ix\<lparr>ix_by_channel := ix_by_channel ix @ [e]\<rparr>))"

definition build_evaluated_bindings_index :: "evaluated_binding list \<Rightarrow> bindings_index" where
  "build_evaluated_bindings_index es = fold index_binding es empty_index"

section \<open>Route resolution\<close>

datatype matched_by =
    ByPeer | ByPeerParent | ByPeerWildcard | ByGuildRoles | ByGuild | ByTeam | ByAccount | ByChannel | ByDefault

datatype last_route_policy = PolicyMain | PolicySession

record resolved_route =
  rr_agent_id :: string
  rr_channel :: string
  rr_account_id :: string
  rr_dm_scope :: dm_scope
  rr_session_key :: string
  rr_main_session_key :: string
  rr_last_route_policy :: last_route_policy
  rr_matched_by :: matched_by

record route_input =
  ri_channel :: string
  ri_account_id :: "string option"
  ri_peer :: "route_peer option"
  ri_dm_scope :: "dm_scope option"
  ri_parent_peer :: "route_peer option"
  ri_guild_id :: "string option"
  ri_team_id :: "string option"
  ri_member_role_ids :: "string list option"

definition derive_last_route_policy :: "string \<Rightarrow> string \<Rightarrow> last_route_policy" where
  "derive_last_route_policy session_key main_session_key =
     (if session_key = main_session_key then PolicyMain else PolicySession)"

definition resolve_inbound_last_route_session_key :: "resolved_route \<Rightarrow> string \<Rightarrow> string" where
  "resolve_inbound_last_route_session_key route session_key =
     (if rr_last_route_policy route = PolicyMain then rr_main_session_key route else session_key)"

definition build_agent_session_key ::
    "string \<Rightarrow> string option \<Rightarrow> string \<Rightarrow> string option \<Rightarrow> route_peer option \<Rightarrow> dm_scope option \<Rightarrow>
     identity_links option \<Rightarrow> string" where
  "build_agent_session_key agent_id main_key channel account_id peer scope links =
     build_agent_peer_session_key (Some agent_id)
       (Some (case main_key of None \<Rightarrow> default_main_key | Some m \<Rightarrow> m))
       (or_else (normalize_lowercase_string_or_empty (Some channel)) ''unknown'') account_id
       (Some (case peer of None \<Rightarrow> Direct | Some p \<Rightarrow> rp_kind p))
       (case peer of
          None \<Rightarrow> None
        | Some p \<Rightarrow> Some (or_else (normalize_route_binding_id (Some (rp_id p))) ''unknown''))
       links scope"

text \<open>The normalized arguments of one resolution.\<close>

record route_query =
  rq_channel :: string
  rq_account_id :: string
  rq_peer :: "route_peer option"
  rq_parent_peer :: "route_peer option"
  rq_guild_id :: string
  rq_team_id :: string
  rq_member_role_ids :: "string list"
  rq_dm_scope :: dm_scope

definition normalize_peer :: "route_peer option \<Rightarrow> route_peer option" where
  "normalize_peer peer = map_option (\<lambda>p. p\<lparr>rp_id := normalize_route_binding_id (Some (rp_id p))\<rparr>) peer"

definition route_query_of :: "route_config \<Rightarrow> route_input \<Rightarrow> route_query" where
  "route_query_of cfg input =
     \<lparr>rq_channel = normalize_lowercase_string_or_empty (Some (ri_channel input)),
      rq_account_id = account_id_of (ri_account_id input),
      rq_peer = normalize_peer (ri_peer input),
      rq_parent_peer = normalize_peer (ri_parent_peer input),
      rq_guild_id = normalize_route_binding_id (ri_guild_id input),
      rq_team_id = normalize_route_binding_id (ri_team_id input),
      rq_member_role_ids = (case ri_member_role_ids input of None \<Rightarrow> [] | Some rs \<Rightarrow> rs),
      rq_dm_scope = (case ri_dm_scope input of
                       Some d \<Rightarrow> d
                     | None \<Rightarrow> (case cf_dm_scope cfg of Some d \<Rightarrow> d | None \<Rightarrow> MainScope))\<rparr>"

definition choose_route ::
    "route_config \<Rightarrow> route_query \<Rightarrow> string \<Rightarrow> matched_by \<Rightarrow> dm_scope option \<Rightarrow> resolved_route" where
  "choose_route cfg q agent_id by override =
     (let resolved = pick_first_existing_agent_id cfg agent_id;
          dm = (case override of Some d \<Rightarrow> d | None \<Rightarrow> rq_dm_scope q);
          session_key = build_agent_session_key resolved (cf_main_key cfg) (rq_channel q)
                          (Some (rq_account_id q)) (rq_peer q) (Some dm) (cf_identity_links cfg);
          main_session_key = normalize_lowercase_string_or_empty
                               (Some (build_agent_main_session_key (Some resolved) (cf_main_key cfg)))
      in \<lparr>rr_agent_id = resolved, rr_channel = rq_channel q, rr_account_id = rq_account_id q,
          rr_dm_scope = dm, rr_session_key = session_key, rr_main_session_key = main_session_key,
          rr_last_route_policy = derive_last_route_policy session_key main_session_key,
          rr_matched_by = by\<rparr>)"

record tier =
  ti_matched_by :: matched_by
  ti_enabled :: bool
  ti_scope_peer :: "route_peer option"
  ti_candidates :: "evaluated_binding list"
  ti_predicate :: "evaluated_binding \<Rightarrow> bool"

definition is_valid_peer :: "evaluated_binding \<Rightarrow> bool" where
  "is_valid_peer e = (case nm_peer (ev_match e) of ValidPeer _ _ \<Rightarrow> True | _ \<Rightarrow> False)"

definition is_wildcard_peer :: "evaluated_binding \<Rightarrow> bool" where
  "is_wildcard_peer e = (case nm_peer (ev_match e) of WildcardKind _ \<Rightarrow> True | _ \<Rightarrow> False)"

definition has_guild :: "evaluated_binding \<Rightarrow> bool" where
  "has_guild e = (nm_guild_id (ev_match e) \<noteq> None)"

definition has_team :: "evaluated_binding \<Rightarrow> bool" where
  "has_team e = (nm_team_id (ev_match e) \<noteq> None)"

definition has_roles :: "evaluated_binding \<Rightarrow> bool" where
  "has_roles e = (nm_roles (ev_match e) \<noteq> None)"

definition map_list :: "(string, 'v list) js_map \<Rightarrow> string \<Rightarrow> 'v list" where
  "map_list m k = (case js_get m k of None \<Rightarrow> [] | Some vs \<Rightarrow> vs)"

definition parent_with_id :: "route_peer option \<Rightarrow> route_peer option" where
  "parent_with_id p = (case p of None \<Rightarrow> None | Some x \<Rightarrow> if rp_id x \<noteq> [] then Some x else None)"

definition route_tiers :: "bindings_index \<Rightarrow> route_query \<Rightarrow> tier list" where
  "route_tiers ix q =
     (let peer = rq_peer q; parent = rq_parent_peer q; guild = rq_guild_id q; team = rq_team_id q in
      [\<lparr>ti_matched_by = ByPeer, ti_enabled = (peer \<noteq> None), ti_scope_peer = peer,
        ti_candidates = collect_peer_indexed ix peer, ti_predicate = is_valid_peer\<rparr>,
       \<lparr>ti_matched_by = ByPeerParent, ti_enabled = (parent_with_id parent \<noteq> None),
        ti_scope_peer = parent_with_id parent,
        ti_candidates = collect_peer_indexed ix parent, ti_predicate = is_valid_peer\<rparr>,
       \<lparr>ti_matched_by = ByPeerWildcard, ti_enabled = (peer \<noteq> None), ti_scope_peer = peer,
        ti_candidates = ix_by_peer_wildcard ix, ti_predicate = is_wildcard_peer\<rparr>,
       \<lparr>ti_matched_by = ByGuildRoles, ti_enabled = (guild \<noteq> [] \<and> rq_member_role_ids q \<noteq> []),
        ti_scope_peer = peer,
        ti_candidates = (if guild \<noteq> [] then map_list (ix_by_guild_with_roles ix) guild else []),
        ti_predicate = (\<lambda>e. has_guild e \<and> has_roles e)\<rparr>,
       \<lparr>ti_matched_by = ByGuild, ti_enabled = (guild \<noteq> []), ti_scope_peer = peer,
        ti_candidates = (if guild \<noteq> [] then map_list (ix_by_guild ix) guild else []),
        ti_predicate = (\<lambda>e. has_guild e \<and> \<not> has_roles e)\<rparr>,
       \<lparr>ti_matched_by = ByTeam, ti_enabled = (team \<noteq> []), ti_scope_peer = peer,
        ti_candidates = (if team \<noteq> [] then map_list (ix_by_team ix) team else []),
        ti_predicate = has_team\<rparr>,
       \<lparr>ti_matched_by = ByAccount, ti_enabled = True, ti_scope_peer = peer,
        ti_candidates = ix_by_account ix,
        ti_predicate = (\<lambda>e. nm_account_pattern (ev_match e) \<noteq> ''*'')\<rparr>,
       \<lparr>ti_matched_by = ByChannel, ti_enabled = True, ti_scope_peer = peer,
        ti_candidates = ix_by_channel ix,
        ti_predicate = (\<lambda>e. nm_account_pattern (ev_match e) = ''*'')\<rparr>])"

definition tier_match :: "route_query \<Rightarrow> tier \<Rightarrow> evaluated_binding option" where
  "tier_match q t =
     (if \<not> ti_enabled t then None
      else find (\<lambda>e. ti_predicate t e \<and>
                     matches_binding_scope (ev_match e) (ti_scope_peer t) (rq_guild_id q) (rq_team_id q)
                       (rq_member_role_ids q)) (ti_candidates t))"

fun first_tier_match :: "route_query \<Rightarrow> tier list \<Rightarrow> (matched_by \<times> evaluated_binding) option" where
  "first_tier_match q [] = None"
| "first_tier_match q (t # ts) =
     (case tier_match q t of Some e \<Rightarrow> Some (ti_matched_by t, e) | None \<Rightarrow> first_tier_match q ts)"

definition select_binding :: "bindings_index \<Rightarrow> route_query \<Rightarrow> (matched_by \<times> evaluated_binding) option" where
  "select_binding ix q = first_tier_match q (route_tiers ix q)"

definition route_of_selection ::
    "route_config \<Rightarrow> route_query \<Rightarrow> (matched_by \<times> evaluated_binding) option \<Rightarrow> resolved_route" where
  "route_of_selection cfg q sel =
     (case sel of
        Some (by, e) \<Rightarrow> choose_route cfg q (bd_agent_id (ev_binding e)) by (bd_dm_scope (ev_binding e))
      | None \<Rightarrow> choose_route cfg q (resolve_default_agent_id cfg) ByDefault None)"

text \<open>\<open>resolveAgentRoute\<close> when nothing is cached yet.\<close>

definition resolve_query :: "route_config \<Rightarrow> route_query \<Rightarrow> resolved_route" where
  "resolve_query cfg q =
     route_of_selection cfg q
       (select_binding (build_evaluated_bindings_index (evaluated_bindings_for cfg (rq_channel q) (rq_account_id q))) q)"

definition resolve_agent_route_uncached :: "route_config \<Rightarrow> route_input \<Rightarrow> resolved_route" where
  "resolve_agent_route_uncached cfg input = resolve_query cfg (route_query_of cfg input)"

section \<open>The caches of one configuration\<close>

definition format_route_cache_peer :: "route_peer option \<Rightarrow> string" where
  "format_route_cache_peer peer =
     (case peer of
        None \<Rightarrow> ''-''
      | Some p \<Rightarrow> if rp_id p = [] then ''-'' else chat_type_name (rp_kind p) @ '':'' @ rp_id p)"

text \<open>\<open>JSON.stringify\<close> of an array of strings and one array of strings is injective: the key is the tuple.\<close>

type_synonym route_cache_key =
  "string \<times> string \<times> string \<times> string \<times> string \<times> string \<times> string list \<times> dm_scope"

definition build_resolved_route_cache_key :: "route_query \<Rightarrow> route_cache_key" where
  "build_resolved_route_cache_key q =
     (rq_channel q, rq_account_id q, format_route_cache_peer (rq_peer q),
      format_route_cache_peer (rq_parent_peer q), rq_guild_id q, rq_team_id q,
      sort (rq_member_role_ids q), rq_dm_scope q)"

definition max_evaluated_bindings_cache_keys :: nat where
  "max_evaluated_bindings_cache_keys = 2000"

definition max_resolved_route_cache_keys :: nat where
  "max_resolved_route_cache_keys = 4000"

record route_caches =
  rc_account :: "(string, evaluated_binding list) js_map"
  rc_index :: "(string, bindings_index) js_map"
  rc_routes :: "(route_cache_key, resolved_route) js_map"

definition empty_route_caches :: route_caches where
  "empty_route_caches = \<lparr>rc_account = [], rc_index = [], rc_routes = []\<rparr>"

definition binding_cache_key :: "string \<Rightarrow> string \<Rightarrow> string" where
  "binding_cache_key channel account_id = channel @ CHR 0x09 # account_id"

definition get_evaluated_bindings ::
    "route_config \<Rightarrow> string \<Rightarrow> string \<Rightarrow> route_caches \<Rightarrow> evaluated_binding list \<times> route_caches" where
  "get_evaluated_bindings cfg channel account_id c =
     (let key = binding_cache_key channel account_id in
      case js_get (rc_account c) key of
        Some hit \<Rightarrow> (hit, c)
      | None \<Rightarrow>
          (let evaluated = evaluated_bindings_for cfg channel account_id;
               index = build_evaluated_bindings_index evaluated;
               c1 = c\<lparr>rc_account := js_set key evaluated (rc_account c), rc_index := js_set key index (rc_index c)\<rparr>
           in (evaluated,
               if length (rc_account c1) > max_evaluated_bindings_cache_keys
               then c1\<lparr>rc_account := [(key, evaluated)], rc_index := [(key, index)]\<rparr> else c1)))"

definition get_evaluated_binding_index ::
    "route_config \<Rightarrow> string \<Rightarrow> string \<Rightarrow> route_caches \<Rightarrow> bindings_index \<times> route_caches" where
  "get_evaluated_binding_index cfg channel account_id c =
     (let (bindings, c1) = get_evaluated_bindings cfg channel account_id c;
          key = binding_cache_key channel account_id
      in (case js_get (rc_index c1) key of
            Some ix \<Rightarrow> (ix, c1)
          | None \<Rightarrow>
              (let built = build_evaluated_bindings_index bindings
               in (built, c1\<lparr>rc_index := js_set key built (rc_index c1)\<rparr>))))"

definition store_route :: "route_cache_key \<Rightarrow> resolved_route \<Rightarrow> route_caches \<Rightarrow> route_caches" where
  "store_route key route c =
     (let m = js_set key route (rc_routes c)
      in c\<lparr>rc_routes := (if length m > max_resolved_route_cache_keys then [(key, route)] else m)\<rparr>)"

text \<open>\<open>resolveAgentRoute\<close>; the route cache is bypassed while identity links are configured.\<close>

definition resolve_agent_route :: "route_config \<Rightarrow> route_input \<Rightarrow> route_caches \<Rightarrow> resolved_route \<times> route_caches" where
  "resolve_agent_route cfg input c =
     (let q = route_query_of cfg input;
          use_cache = (cf_identity_links cfg = None);
          key = build_resolved_route_cache_key q
      in (case (if use_cache then js_get (rc_routes c) key else None) of
            Some route \<Rightarrow> (route, c)
          | None \<Rightarrow>
              (let (_, c1) = get_evaluated_bindings cfg (rq_channel q) (rq_account_id q) c;
                   (ix, c2) = get_evaluated_binding_index cfg (rq_channel q) (rq_account_id q) c1;
                   route = route_of_selection cfg q (select_binding ix q)
               in (route, if use_cache then store_route key route c2 else c2))))"

section \<open>Bound accounts\<close>

text \<open>
  \<open>binding-scope.ts\<close> and \<open>bindings.ts\<close>. The channel alias table behind \<open>normalizeChatChannelId\<close> is a
  generated catalogue, and the order of \<open>localeCompare\<close> belongs to the locale library: both are
  parameters.
\<close>

definition normalize_route_binding_channel_id ::
    "(string option \<Rightarrow> string option) \<Rightarrow> string option \<Rightarrow> string option" where
  "normalize_route_binding_channel_id chat_channel_id raw =
     (case chat_channel_id raw of
        Some (c # cs) \<Rightarrow> Some (c # cs)
      | _ \<Rightarrow> some_if_nonempty (normalize_lowercase_string_or_empty raw))"

record bound_match =
  bo_agent_id :: string
  bo_account_id :: string
  bo_channel_id :: string

definition resolve_normalized_route_binding_match ::
    "(string option \<Rightarrow> string option) \<Rightarrow> agent_binding \<Rightarrow> bound_match option" where
  "resolve_normalized_route_binding_match chat_channel_id b =
     (case bd_match b of
        None \<Rightarrow> None
      | Some m \<Rightarrow>
          (case normalize_route_binding_channel_id chat_channel_id (bm_channel m) of
             None \<Rightarrow> None
           | Some channel_id \<Rightarrow>
               (let account_id = (case bm_account_id m of None \<Rightarrow> [] | Some a \<Rightarrow> js_trim a) in
                if account_id = [] \<or> account_id = ''*'' then None
                else Some \<lparr>bo_agent_id = normalize_agent_id (Some (bd_agent_id b)),
                           bo_account_id = account_id_of (Some account_id), bo_channel_id = channel_id\<rparr>)))"

definition list_bound_account_ids ::
    "(string option \<Rightarrow> string option) \<Rightarrow> (string list \<Rightarrow> string list) \<Rightarrow> route_config \<Rightarrow> string \<Rightarrow> string list" where
  "list_bound_account_ids chat_channel_id locale_sort cfg channel_id =
     (case normalize_route_binding_channel_id chat_channel_id (Some channel_id) of
        None \<Rightarrow> []
      | Some ch \<Rightarrow>
          locale_sort
            (fold (\<lambda>b ids. case resolve_normalized_route_binding_match chat_channel_id b of
                             None \<Rightarrow> ids
                           | Some r \<Rightarrow> if bo_channel_id r \<noteq> ch then ids else set_add (bo_account_id r) ids)
               (list_bindings cfg) []))"

definition resolve_default_agent_bound_account_id ::
    "(string option \<Rightarrow> string option) \<Rightarrow> route_config \<Rightarrow> string \<Rightarrow> string option" where
  "resolve_default_agent_bound_account_id chat_channel_id cfg channel_id =
     (case normalize_route_binding_channel_id chat_channel_id (Some channel_id) of
        None \<Rightarrow> None
      | Some ch \<Rightarrow>
          (let default_agent = normalize_agent_id (Some (resolve_default_agent_id cfg)) in
           map_option bo_account_id
             (find (\<lambda>r. bo_channel_id r = ch \<and> bo_agent_id r = default_agent)
                (List.map_filter (resolve_normalized_route_binding_match chat_channel_id) (list_bindings cfg)))))"

definition add_account_binding ::
    "bound_match \<Rightarrow> (string, (string, string list) js_map) js_map \<Rightarrow> (string, (string, string list) js_map) js_map" where
  "add_account_binding r m =
     (let by_agent = (case js_get m (bo_channel_id r) of None \<Rightarrow> [] | Some a \<Rightarrow> a)
      in js_set (bo_channel_id r)
           (js_set (bo_agent_id r) (set_add (bo_account_id r) (map_list by_agent (bo_agent_id r))) by_agent) m)"

definition build_channel_account_bindings ::
    "(string option \<Rightarrow> string option) \<Rightarrow> route_config \<Rightarrow> (string, (string, string list) js_map) js_map" where
  "build_channel_account_bindings chat_channel_id cfg =
     fold add_account_binding
       (List.map_filter (resolve_normalized_route_binding_match chat_channel_id) (list_bindings cfg)) []"

definition resolve_preferred_account_id :: "string \<Rightarrow> string list \<Rightarrow> string" where
  "resolve_preferred_account_id default_account bound =
     (case bound of b # _ \<Rightarrow> b | [] \<Rightarrow> default_account)"

end
