(* ===== verification/Routing_Props.thy ===== *)
theory Routing_Props
  imports Routing
begin

text \<open>
  Routing against its reference: the bindings of a channel and account in configuration order, the
  index as filters of them, tier selection as a linear scan, agents, and the transparency of the
  route caches.
\<close>

section \<open>The evaluated bindings are the matching bindings in source order\<close>

text \<open>The reference: every usable binding numbered in configuration order, with its channel.\<close>

fun numbered_bindings :: "nat \<Rightarrow> agent_binding list \<Rightarrow> (string \<times> evaluated_binding) list" where
  "numbered_bindings n [] = []"
| "numbered_bindings n (b # bs) =
     (if binding_channel b = [] then numbered_bindings n bs
      else (binding_channel b, \<lparr>ev_binding = b, ev_match = normalize_binding_match (bd_match b), ev_order = n\<rparr>)
             # numbered_bindings (Suc n) bs)"

definition any_account :: "evaluated_binding \<Rightarrow> bool" where
  "any_account e \<longleftrightarrow> nm_account_pattern (ev_match e) = ''*''"

definition for_account :: "string \<Rightarrow> evaluated_binding \<Rightarrow> bool" where
  "for_account a e \<longleftrightarrow> \<not> any_account e \<and> resolve_account_pattern_key (nm_account_pattern (ev_match e)) = a"

definition channel_bindings :: "string \<Rightarrow> (string \<times> evaluated_binding) list \<Rightarrow> evaluated_binding list" where
  "channel_bindings ch ps = map snd (filter (\<lambda>p. fst p = ch) ps)"

definition reference_bindings :: "route_config \<Rightarrow> string \<Rightarrow> string \<Rightarrow> evaluated_binding list" where
  "reference_bindings cfg ch a =
     filter (\<lambda>e. any_account e \<or> for_account a e) (channel_bindings ch (numbered_bindings 0 (list_bindings cfg)))"

lemma map_list_push [simp]: "map_list (push_map k v m) k' = (if k = k' then map_list m k @ [v] else map_list m k')"
  by (auto simp: map_list_def push_map_def)

lemma map_list_Nil [simp]: "map_list [] k = []"
  by (simp add: map_list_def)

definition bucket_of :: "(string, channel_bucket) js_map \<Rightarrow> string \<Rightarrow> channel_bucket" where
  "bucket_of m ch = (case js_get m ch of None \<Rightarrow> empty_bucket | Some b \<Rightarrow> b)"

lemma bucket_add_lists:
  "cb_by_any (bucket_add e b) = cb_by_any b @ filter any_account [e]"
  "map_list (cb_by_account (bucket_add e b)) a = map_list (cb_by_account b) a @ filter (for_account a) [e]"
  by (auto simp: bucket_add_def any_account_def for_account_def)

lemma evaluate_fold:
  "cb_by_any (bucket_of (fst (fold evaluate_binding bs (m, n))) ch) =
     cb_by_any (bucket_of m ch) @ filter any_account (channel_bindings ch (numbered_bindings n bs)) \<and>
   map_list (cb_by_account (bucket_of (fst (fold evaluate_binding bs (m, n))) ch)) a =
     map_list (cb_by_account (bucket_of m ch)) a @ filter (for_account a) (channel_bindings ch (numbered_bindings n bs))"
proof (induction bs arbitrary: m n)
  case Nil
  then show ?case by (simp add: channel_bindings_def)
next
  case (Cons b bs)
  let ?e = "\<lparr>ev_binding = b, ev_match = normalize_binding_match (bd_match b), ev_order = n\<rparr>"
  show ?case
  proof (cases "binding_channel b = []")
    case True
    then show ?thesis using Cons [of m n] by (simp add: evaluate_binding_def)
  next
    case False
    let ?m = "js_set (binding_channel b) (bucket_add ?e (bucket_of m (binding_channel b))) m"
    have e: "evaluate_binding b (m, n) = (?m, Suc n)" using False by (simp add: evaluate_binding_def bucket_of_def Let_def)
    have g: "bucket_of ?m ch = (if ch = binding_channel b then bucket_add ?e (bucket_of m ch) else bucket_of m ch)"
      by (simp add: bucket_of_def)
    show ?thesis using False Cons [of ?m "Suc n"]
      by (auto simp: e g bucket_add_lists channel_bindings_def)
  qed
qed

lemma merge_filters:
  "sorted_wrt (\<lambda>x y. ev_order x < ev_order y) xs \<Longrightarrow> (\<And>x. P x \<Longrightarrow> \<not> Q x) \<Longrightarrow>
   merge_in_source_order (filter P xs) (filter Q xs) = filter (\<lambda>x. Q x \<or> P x) xs"
proof (induction xs)
  case (Cons x xs)
  have IH: "merge_in_source_order (filter P xs) (filter Q xs) = filter (\<lambda>x. Q x \<or> P x) xs" using Cons by simp
  have later: "ev_order x < ev_order y" if "y \<in> set xs" for y using Cons.prems(1) that by simp
  consider (p) "P x" "\<not> Q x" | (q) "Q x" "\<not> P x" | (none) "\<not> P x" "\<not> Q x" using Cons.prems(2) by blast
  then show ?case
  proof cases
    case p
    show ?thesis
    proof (cases "filter Q xs")
      case Nil
      then show ?thesis using p IH by (cases "filter P xs") auto
    next
      case (Cons y ys)
      have "y \<in> set (filter Q xs)" unfolding Cons by simp
      then have "y \<in> set xs" by simp
      then show ?thesis using p IH Cons later [of y] by simp
    qed
  next
    case q
    show ?thesis
    proof (cases "filter P xs")
      case Nil
      then show ?thesis using q IH by simp
    next
      case (Cons y ys)
      have "y \<in> set (filter P xs)" unfolding Cons by simp
      then have "y \<in> set xs" by simp
      then show ?thesis using q IH Cons later [of y] by simp
    qed
  next
    case none
    then show ?thesis using IH by simp
  qed
qed simp

lemma numbered_order: "p \<in> set (numbered_bindings n bs) \<Longrightarrow> n \<le> ev_order (snd p)"
  by (induction n bs arbitrary: p rule: numbered_bindings.induct) (force split: if_splits)+

lemma numbered_sorted: "sorted_wrt (\<lambda>p q. ev_order (snd p) < ev_order (snd q)) (numbered_bindings n bs)"
  by (induction n bs rule: numbered_bindings.induct) (auto dest: numbered_order simp: Suc_le_eq)

lemma channel_bindings_sorted:
  "sorted_wrt (\<lambda>x y. ev_order x < ev_order y) (channel_bindings ch (numbered_bindings n bs))"
  unfolding channel_bindings_def sorted_wrt_map by (rule sorted_wrt_filter) (rule numbered_sorted)

lemma evaluated_bindings_eq_reference: "evaluated_bindings_for cfg ch a = reference_bindings cfg ch a"
proof -
  let ?m = "build_evaluated_bindings_by_channel cfg"
  have "evaluated_bindings_for cfg ch a =
        merge_in_source_order (map_list (cb_by_account (bucket_of ?m ch)) a) (cb_by_any (bucket_of ?m ch))"
    by (auto simp: evaluated_bindings_for_def bucket_of_def map_list_def empty_bucket_def Let_def split: option.splits)
  also have "\<dots> = merge_in_source_order
      (filter (for_account a) (channel_bindings ch (numbered_bindings 0 (list_bindings cfg))))
      (filter any_account (channel_bindings ch (numbered_bindings 0 (list_bindings cfg))))"
    using evaluate_fold [of "list_bindings cfg" "[]" 0 ch a]
    by (simp add: build_evaluated_bindings_by_channel_def) (simp add: bucket_of_def empty_bucket_def)
  also have "\<dots> = reference_bindings cfg ch a"
    unfolding reference_bindings_def by (rule merge_filters [OF channel_bindings_sorted]) (simp add: for_account_def)
  finally show ?thesis .
qed

section \<open>The index holds every binding in its class\<close>

definition binding_class :: "evaluated_binding \<Rightarrow> matched_by" where
  "binding_class e =
     (case nm_peer (ev_match e) of
        ValidPeer _ _ \<Rightarrow> ByPeer
      | WildcardKind _ \<Rightarrow> ByPeerWildcard
      | _ \<Rightarrow>
          if has_guild e then (if has_roles e then ByGuildRoles else ByGuild)
          else if has_team e then ByTeam
          else if any_account e then ByChannel else ByAccount)"

definition peer_keys_of :: "evaluated_binding \<Rightarrow> string list" where
  "peer_keys_of e = (case nm_peer (ev_match e) of ValidPeer k i \<Rightarrow> peer_lookup_keys k i | _ \<Rightarrow> [])"

lemma peer_lookup_keys_nonempty: "key \<in> set (peer_lookup_keys k i) \<Longrightarrow> key \<noteq> []"
  by (cases k) auto

lemma peer_lookup_keys_distinct: "distinct (peer_lookup_keys k i)"
  by (cases k) auto

lemma map_list_push_index [simp]:
  "k' \<noteq> [] \<Longrightarrow> map_list (push_to_index_map k v m) k' = (if k = k' then map_list m k @ [v] else map_list m k')"
  by (simp add: push_to_index_map_def)

lemma map_list_push_keys:
  "distinct ks \<Longrightarrow> key \<noteq> [] \<Longrightarrow>
   map_list (fold (\<lambda>k. push_to_index_map k e) ks m) key = map_list m key @ (if key \<in> set ks then [e] else [])"
  by (induction ks arbitrary: m) auto

lemma index_binding_lists:
  assumes "key \<noteq> []"
  shows "map_list (ix_by_peer (index_binding e ix)) key = map_list (ix_by_peer ix) key @ filter (\<lambda>e. key \<in> set (peer_keys_of e)) [e]"
    and "ix_by_peer_wildcard (index_binding e ix) = ix_by_peer_wildcard ix @ filter (\<lambda>e. binding_class e = ByPeerWildcard) [e]"
    and "map_list (ix_by_guild_with_roles (index_binding e ix)) key =
           map_list (ix_by_guild_with_roles ix) key @
             filter (\<lambda>e. binding_class e = ByGuildRoles \<and> nm_guild_id (ev_match e) = Some key) [e]"
    and "map_list (ix_by_guild (index_binding e ix)) key =
           map_list (ix_by_guild ix) key @
             filter (\<lambda>e. binding_class e = ByGuild \<and> nm_guild_id (ev_match e) = Some key) [e]"
    and "map_list (ix_by_team (index_binding e ix)) key =
           map_list (ix_by_team ix) key @
             filter (\<lambda>e. binding_class e = ByTeam \<and> nm_team_id (ev_match e) = Some key) [e]"
    and "ix_by_account (index_binding e ix) = ix_by_account ix @ filter (\<lambda>e. binding_class e = ByAccount) [e]"
    and "ix_by_channel (index_binding e ix) = ix_by_channel ix @ filter (\<lambda>e. binding_class e = ByChannel) [e]"
  using assms
  by (auto simp: index_binding_def Let_def binding_class_def peer_keys_of_def has_guild_def has_roles_def has_team_def
      any_account_def map_list_push_keys peer_lookup_keys_distinct split: peer_constraint.splits option.splits)

lemma index_fold:
  assumes "key \<noteq> []"
  shows "map_list (ix_by_peer (fold index_binding es ix)) key =
           map_list (ix_by_peer ix) key @ filter (\<lambda>e. key \<in> set (peer_keys_of e)) es"
    and "ix_by_peer_wildcard (fold index_binding es ix) =
           ix_by_peer_wildcard ix @ filter (\<lambda>e. binding_class e = ByPeerWildcard) es"
    and "map_list (ix_by_guild_with_roles (fold index_binding es ix)) key =
           map_list (ix_by_guild_with_roles ix) key @
             filter (\<lambda>e. binding_class e = ByGuildRoles \<and> nm_guild_id (ev_match e) = Some key) es"
    and "map_list (ix_by_guild (fold index_binding es ix)) key =
           map_list (ix_by_guild ix) key @
             filter (\<lambda>e. binding_class e = ByGuild \<and> nm_guild_id (ev_match e) = Some key) es"
    and "map_list (ix_by_team (fold index_binding es ix)) key =
           map_list (ix_by_team ix) key @
             filter (\<lambda>e. binding_class e = ByTeam \<and> nm_team_id (ev_match e) = Some key) es"
    and "ix_by_account (fold index_binding es ix) = ix_by_account ix @ filter (\<lambda>e. binding_class e = ByAccount) es"
    and "ix_by_channel (fold index_binding es ix) = ix_by_channel ix @ filter (\<lambda>e. binding_class e = ByChannel) es"
proof -
  show "map_list (ix_by_peer (fold index_binding es ix)) key =
           map_list (ix_by_peer ix) key @ filter (\<lambda>e. key \<in> set (peer_keys_of e)) es"
    by (induction es arbitrary: ix) (simp_all add: index_binding_lists(1) [OF assms])
  show "ix_by_peer_wildcard (fold index_binding es ix) =
           ix_by_peer_wildcard ix @ filter (\<lambda>e. binding_class e = ByPeerWildcard) es"
    by (induction es arbitrary: ix) (simp_all add: index_binding_lists(2) [OF assms])
  show "map_list (ix_by_guild_with_roles (fold index_binding es ix)) key =
           map_list (ix_by_guild_with_roles ix) key @
             filter (\<lambda>e. binding_class e = ByGuildRoles \<and> nm_guild_id (ev_match e) = Some key) es"
    by (induction es arbitrary: ix) (simp_all add: index_binding_lists(3) [OF assms])
  show "map_list (ix_by_guild (fold index_binding es ix)) key =
           map_list (ix_by_guild ix) key @
             filter (\<lambda>e. binding_class e = ByGuild \<and> nm_guild_id (ev_match e) = Some key) es"
    by (induction es arbitrary: ix) (simp_all add: index_binding_lists(4) [OF assms])
  show "map_list (ix_by_team (fold index_binding es ix)) key =
           map_list (ix_by_team ix) key @
             filter (\<lambda>e. binding_class e = ByTeam \<and> nm_team_id (ev_match e) = Some key) es"
    by (induction es arbitrary: ix) (simp_all add: index_binding_lists(5) [OF assms])
  show "ix_by_account (fold index_binding es ix) = ix_by_account ix @ filter (\<lambda>e. binding_class e = ByAccount) es"
    by (induction es arbitrary: ix) (simp_all add: index_binding_lists(6) [OF assms])
  show "ix_by_channel (fold index_binding es ix) = ix_by_channel ix @ filter (\<lambda>e. binding_class e = ByChannel) es"
    by (induction es arbitrary: ix) (simp_all add: index_binding_lists(7) [OF assms])
qed

section \<open>Indexed selection is a linear scan\<close>

text \<open>
  The reference selection scans all bindings of the channel and account once per tier, in source
  order: a tier takes the first binding of its class that matches the scope.
\<close>

definition reference_tier ::
    "evaluated_binding list \<Rightarrow> matched_by \<Rightarrow> bool \<Rightarrow> route_peer option \<Rightarrow> matched_by \<Rightarrow> tier" where
  "reference_tier es by enabled peer class =
     \<lparr>ti_matched_by = by, ti_enabled = enabled, ti_scope_peer = peer, ti_candidates = es,
      ti_predicate = (\<lambda>e. binding_class e = class)\<rparr>"

definition reference_tiers :: "evaluated_binding list \<Rightarrow> route_query \<Rightarrow> tier list" where
  "reference_tiers es q =
     [reference_tier es ByPeer (rq_peer q \<noteq> None) (rq_peer q) ByPeer,
      reference_tier es ByPeerParent (parent_with_id (rq_parent_peer q) \<noteq> None) (parent_with_id (rq_parent_peer q)) ByPeer,
      reference_tier es ByPeerWildcard (rq_peer q \<noteq> None) (rq_peer q) ByPeerWildcard,
      reference_tier es ByGuildRoles (rq_guild_id q \<noteq> [] \<and> rq_member_role_ids q \<noteq> []) (rq_peer q) ByGuildRoles,
      reference_tier es ByGuild (rq_guild_id q \<noteq> []) (rq_peer q) ByGuild,
      reference_tier es ByTeam (rq_team_id q \<noteq> []) (rq_peer q) ByTeam,
      reference_tier es ByAccount True (rq_peer q) ByAccount,
      reference_tier es ByChannel True (rq_peer q) ByChannel]"

definition well_normalized :: "evaluated_binding \<Rightarrow> bool" where
  "well_normalized e \<longleftrightarrow> nm_guild_id (ev_match e) \<noteq> Some [] \<and> nm_team_id (ev_match e) \<noteq> Some []"

lemma find_filter: "find P (filter Q xs) = find (\<lambda>x. Q x \<and> P x) xs"
  by (induction xs) auto

lemma set_add_known: "set ys \<subseteq> set xs \<Longrightarrow> fold set_add ys xs = xs"
  by (induction ys) (auto simp: set_add_def)

lemma set_add_all: "distinct (xs @ ys) \<Longrightarrow> fold set_add ys xs = xs @ ys"
  by (induction ys arbitrary: xs) (auto simp: set_add_def)

definition peer_hit :: "route_peer \<Rightarrow> evaluated_binding \<Rightarrow> bool" where
  "peer_hit p e =
     (case nm_peer (ev_match e) of
        ValidPeer k i \<Rightarrow> peer_kind_matches k (rp_kind p) \<and> rp_id p = i
      | _ \<Rightarrow> False)"

lemma peer_key_hit:
  "key \<in> set (peer_lookup_keys (rp_kind p) (rp_id p)) \<Longrightarrow> key \<in> set (peer_keys_of e) \<longleftrightarrow> peer_hit p e"
proof (cases "nm_peer (ev_match e)")
  case (ValidPeer k i)
  assume "key \<in> set (peer_lookup_keys (rp_kind p) (rp_id p))"
  then show ?thesis
    by (cases k; cases "rp_kind p") (auto simp: peer_keys_of_def peer_hit_def ValidPeer)
qed (auto simp: peer_keys_of_def peer_hit_def)

lemma collect_peer_indexed_eq:
  assumes "distinct es"
  shows "collect_peer_indexed (build_evaluated_bindings_index es) (Some p) = filter (peer_hit p) es"
proof -
  let ?m = "ix_by_peer (build_evaluated_bindings_index es)"
  have L: "map_list ?m key = filter (peer_hit p) es" if "key \<in> set (peer_lookup_keys (rp_kind p) (rp_id p))" for key
  proof -
    have "map_list ?m key = filter (\<lambda>e. key \<in> set (peer_keys_of e)) es"
      using index_fold(1) [OF peer_lookup_keys_nonempty [OF that], of es empty_index]
      by (simp add: build_evaluated_bindings_index_def) (simp add: empty_index_def)
    then show ?thesis using peer_key_hit [OF that] by simp
  qed
  have step: "(case js_get ?m key of None \<Rightarrow> out | Some es \<Rightarrow> fold set_add es out) = fold set_add (map_list ?m key) out" for key out
    by (simp add: map_list_def split: option.split)
  have d: "distinct (filter (peer_hit p) es)" using assms by simp
  have once: "fold set_add (filter (peer_hit p) es) [] = filter (peer_hit p) es"
    using set_add_all [of "[]" "filter (peer_hit p) es"] d by simp
  have twice: "fold set_add (filter (peer_hit p) es) (filter (peer_hit p) es) = filter (peer_hit p) es"
    by (rule set_add_known) simp
  show ?thesis
  proof (cases "rp_kind p")
    case Direct
    then show ?thesis using L by (simp add: collect_peer_indexed_def step once)
  next
    case Group
    then show ?thesis using L by (simp add: collect_peer_indexed_def step once twice)
  next
    case Channel
    then show ?thesis using L by (simp add: collect_peer_indexed_def step once twice)
  qed
qed

lemma first_tier_cong:
  "list_all2 (\<lambda>t u. ti_matched_by t = ti_matched_by u \<and> tier_match q t = tier_match q u) ts us \<Longrightarrow>
   first_tier_match q ts = first_tier_match q us"
  by (induction ts us rule: list_all2_induct) (auto split: option.split)

lemma tier_match_cong:
  assumes "ti_enabled t = ti_enabled u" and "ti_scope_peer t = ti_scope_peer u"
    and "ti_enabled u \<Longrightarrow> ti_candidates t = filter Q (ti_candidates u)"
    and "\<And>e. e \<in> set (ti_candidates u) \<Longrightarrow> ti_enabled u \<Longrightarrow>
           matches_binding_scope (ev_match e) (ti_scope_peer u) (rq_guild_id q) (rq_team_id q) (rq_member_role_ids q) \<Longrightarrow>
           (Q e \<and> ti_predicate t e) = ti_predicate u e"
  shows "tier_match q t = tier_match q u"
proof (cases "ti_enabled u")
  case True
  show ?thesis unfolding tier_match_def using True assms(1)
    by (simp add: assms(2) assms(3) find_filter) (rule find_cong, use assms(4) True in auto)
qed (simp add: tier_match_def assms(1))

lemma scope_guild: "matches_binding_scope m peer g t ms \<Longrightarrow> nm_guild_id m = Some x \<Longrightarrow> x = [] \<or> x = js_trim g"
  by (auto simp: matches_binding_scope_def route_binding_scope_matches_def scope_id_matches_def
      normalize_route_binding_id_def Let_def)

lemma scope_team: "matches_binding_scope m peer g t ms \<Longrightarrow> nm_team_id m = Some x \<Longrightarrow> x = [] \<or> x = js_trim t"
  by (auto simp: matches_binding_scope_def route_binding_scope_matches_def scope_id_matches_def
      normalize_route_binding_id_def Let_def)

lemma class_facts:
  "binding_class e = ByPeer \<longleftrightarrow> is_valid_peer e"
  "binding_class e = ByPeerWildcard \<longleftrightarrow> is_wildcard_peer e"
  "binding_class e = ByGuildRoles \<Longrightarrow> has_guild e \<and> has_roles e"
  "binding_class e = ByGuild \<Longrightarrow> has_guild e \<and> \<not> has_roles e"
  "binding_class e = ByTeam \<Longrightarrow> has_team e"
  "binding_class e = ByAccount \<Longrightarrow> \<not> any_account e"
  "binding_class e = ByChannel \<Longrightarrow> any_account e"
  by (auto simp: binding_class_def is_valid_peer_def is_wildcard_peer_def split: peer_constraint.splits if_splits)

lemma index_lists:
  assumes "key \<noteq> []"
  shows "ix_by_peer_wildcard (build_evaluated_bindings_index es) = filter (\<lambda>e. binding_class e = ByPeerWildcard) es"
    and "map_list (ix_by_guild_with_roles (build_evaluated_bindings_index es)) key =
           filter (\<lambda>e. binding_class e = ByGuildRoles \<and> nm_guild_id (ev_match e) = Some key) es"
    and "map_list (ix_by_guild (build_evaluated_bindings_index es)) key =
           filter (\<lambda>e. binding_class e = ByGuild \<and> nm_guild_id (ev_match e) = Some key) es"
    and "map_list (ix_by_team (build_evaluated_bindings_index es)) key =
           filter (\<lambda>e. binding_class e = ByTeam \<and> nm_team_id (ev_match e) = Some key) es"
    and "ix_by_account (build_evaluated_bindings_index es) = filter (\<lambda>e. binding_class e = ByAccount) es"
    and "ix_by_channel (build_evaluated_bindings_index es) = filter (\<lambda>e. binding_class e = ByChannel) es"
  unfolding build_evaluated_bindings_index_def
  using index_fold [OF assms, of es empty_index] by (simp_all add: empty_index_def)

section \<open>A sample configuration\<close>

definition sample_config :: route_config where
  "sample_config =
     \<lparr>cf_agents = [\<lparr>ag_id = Some ''main'', ag_default = True\<rparr>, \<lparr>ag_id = Some ''Ops'', ag_default = False\<rparr>],
      cf_bindings =
        [\<lparr>bd_acp = False, bd_agent_id = ''ops'',
          bd_match = Some \<lparr>bm_channel = Some ''telegram'', bm_account_id = Some ''*'',
                           bm_peer = Some \<lparr>raw_kind = Some ''dm'', raw_id = Some ''*''\<rparr>,
                           bm_guild_id = None, bm_team_id = None, bm_roles = None\<rparr>,
          bd_dm_scope = None\<rparr>],
      cf_dm_scope = None, cf_identity_links = None, cf_main_key = None\<rparr>"

definition sample_input :: "route_peer option \<Rightarrow> route_input" where
  "sample_input peer =
     \<lparr>ri_channel = ''Telegram'', ri_account_id = None, ri_peer = peer, ri_dm_scope = None, ri_parent_peer = None,
      ri_guild_id = None, ri_team_id = None, ri_member_role_ids = None\<rparr>"

lemma sample_routes:
  "rr_agent_id (resolve_agent_route_uncached sample_config (sample_input None)) = ''main''"
  "rr_agent_id (resolve_agent_route_uncached sample_config (sample_input (Some \<lparr>rp_kind = Direct, rp_id = ''7''\<rparr>))) = ''ops''"
  by code_simp+


lemma valid_hit:
  "is_valid_peer e \<Longrightarrow> matches_binding_scope (ev_match e) (Some p) g t ms \<Longrightarrow> peer_hit p e"
  by (auto simp: is_valid_peer_def matches_binding_scope_def peer_hit_def split: peer_constraint.splits)

lemma peer_hit_valid: "peer_hit p e \<Longrightarrow> is_valid_peer e"
  by (auto simp: is_valid_peer_def peer_hit_def split: peer_constraint.splits)

lemma parent_with_id_Some: "parent_with_id p = Some x \<Longrightarrow> p = Some x"
  by (auto simp: parent_with_id_def split: option.splits if_splits)

lemma select_binding_eq_reference:
  assumes "distinct es" and wn: "\<And>e. e \<in> set es \<Longrightarrow> well_normalized e"
    and "js_trim (rq_guild_id q) = rq_guild_id q" and "js_trim (rq_team_id q) = rq_team_id q"
  shows "select_binding (build_evaluated_bindings_index es) q = first_tier_match q (reference_tiers es q)"
proof -
  let ?ix = "build_evaluated_bindings_index es"
  let ?match = "\<lambda>e. matches_binding_scope (ev_match e) (rq_peer q) (rq_guild_id q) (rq_team_id q) (rq_member_role_ids q)"
  note idx = index_lists [of "''x''" es, simplified]
  have guild: "nm_guild_id (ev_match e) = Some (rq_guild_id q)" if "e \<in> set es" "has_guild e" "?match e" for e
    using that(2) wn [OF that(1)] scope_guild [OF that(3)] assms(3)
    by (auto simp: has_guild_def well_normalized_def)
  have team: "nm_team_id (ev_match e) = Some (rq_team_id q)" if "e \<in> set es" "has_team e" "?match e" for e
    using that(2) wn [OF that(1)] scope_team [OF that(3)] assms(4)
    by (auto simp: has_team_def well_normalized_def)
  have "list_all2 (\<lambda>t u. ti_matched_by t = ti_matched_by u \<and> tier_match q t = tier_match q u)
          (route_tiers ?ix q) (reference_tiers es q)"
    unfolding route_tiers_def reference_tiers_def Let_def list_all2_Cons
  proof (intro conjI)
    show "tier_match q \<lparr>ti_matched_by = ByPeer, ti_enabled = (rq_peer q \<noteq> None), ti_scope_peer = rq_peer q,
        ti_candidates = collect_peer_indexed ?ix (rq_peer q), ti_predicate = is_valid_peer\<rparr> =
      tier_match q (reference_tier es ByPeer (rq_peer q \<noteq> None) (rq_peer q) ByPeer)"
      by (rule tier_match_cong [where Q = "peer_hit (the (rq_peer q))"])
        (auto simp: reference_tier_def collect_peer_indexed_eq [OF assms(1)] class_facts(1) dest: valid_hit)
    show "tier_match q \<lparr>ti_matched_by = ByPeerParent, ti_enabled = (parent_with_id (rq_parent_peer q) \<noteq> None),
        ti_scope_peer = parent_with_id (rq_parent_peer q),
        ti_candidates = collect_peer_indexed ?ix (rq_parent_peer q), ti_predicate = is_valid_peer\<rparr> =
      tier_match q (reference_tier es ByPeerParent (parent_with_id (rq_parent_peer q) \<noteq> None) (parent_with_id (rq_parent_peer q)) ByPeer)"
    proof (cases "parent_with_id (rq_parent_peer q)")
      case None
      then show ?thesis by (simp add: tier_match_def reference_tier_def)
    next
      case (Some x)
      then have p: "rq_parent_peer q = Some x" by (rule parent_with_id_Some)
      show ?thesis
        by (rule tier_match_cong [where Q = "peer_hit x"])
          (use Some p in \<open>auto simp: reference_tier_def collect_peer_indexed_eq [OF assms(1)] class_facts(1) dest: valid_hit\<close>)
    qed
    show "tier_match q \<lparr>ti_matched_by = ByPeerWildcard, ti_enabled = (rq_peer q \<noteq> None), ti_scope_peer = rq_peer q,
        ti_candidates = ix_by_peer_wildcard ?ix, ti_predicate = is_wildcard_peer\<rparr> =
      tier_match q (reference_tier es ByPeerWildcard (rq_peer q \<noteq> None) (rq_peer q) ByPeerWildcard)"
      by (rule tier_match_cong [where Q = "\<lambda>e. binding_class e = ByPeerWildcard"])
        (auto simp: reference_tier_def idx(1) class_facts(2))
    show "tier_match q \<lparr>ti_matched_by = ByGuildRoles, ti_enabled = (rq_guild_id q \<noteq> [] \<and> rq_member_role_ids q \<noteq> []),
        ti_scope_peer = rq_peer q,
        ti_candidates = (if rq_guild_id q \<noteq> [] then map_list (ix_by_guild_with_roles ?ix) (rq_guild_id q) else []),
        ti_predicate = (\<lambda>e. has_guild e \<and> has_roles e)\<rparr> =
      tier_match q (reference_tier es ByGuildRoles (rq_guild_id q \<noteq> [] \<and> rq_member_role_ids q \<noteq> []) (rq_peer q) ByGuildRoles)"
      by (rule tier_match_cong [where Q = "\<lambda>e. binding_class e = ByGuildRoles \<and> nm_guild_id (ev_match e) = Some (rq_guild_id q)"])
        (auto simp: reference_tier_def index_lists(2) dest: class_facts(3) guild)
    show "tier_match q \<lparr>ti_matched_by = ByGuild, ti_enabled = (rq_guild_id q \<noteq> []), ti_scope_peer = rq_peer q,
        ti_candidates = (if rq_guild_id q \<noteq> [] then map_list (ix_by_guild ?ix) (rq_guild_id q) else []),
        ti_predicate = (\<lambda>e. has_guild e \<and> \<not> has_roles e)\<rparr> =
      tier_match q (reference_tier es ByGuild (rq_guild_id q \<noteq> []) (rq_peer q) ByGuild)"
      by (rule tier_match_cong [where Q = "\<lambda>e. binding_class e = ByGuild \<and> nm_guild_id (ev_match e) = Some (rq_guild_id q)"])
        (auto simp: reference_tier_def index_lists(3) dest: class_facts(4) guild)
    show "tier_match q \<lparr>ti_matched_by = ByTeam, ti_enabled = (rq_team_id q \<noteq> []), ti_scope_peer = rq_peer q,
        ti_candidates = (if rq_team_id q \<noteq> [] then map_list (ix_by_team ?ix) (rq_team_id q) else []),
        ti_predicate = has_team\<rparr> =
      tier_match q (reference_tier es ByTeam (rq_team_id q \<noteq> []) (rq_peer q) ByTeam)"
      by (rule tier_match_cong [where Q = "\<lambda>e. binding_class e = ByTeam \<and> nm_team_id (ev_match e) = Some (rq_team_id q)"])
        (auto simp: reference_tier_def index_lists(4) dest: class_facts(5) team)
    show "tier_match q \<lparr>ti_matched_by = ByAccount, ti_enabled = True, ti_scope_peer = rq_peer q,
        ti_candidates = ix_by_account ?ix, ti_predicate = (\<lambda>e. nm_account_pattern (ev_match e) \<noteq> ''*'')\<rparr> =
      tier_match q (reference_tier es ByAccount True (rq_peer q) ByAccount)"
      by (rule tier_match_cong [where Q = "\<lambda>e. binding_class e = ByAccount"])
        (auto simp: reference_tier_def idx(5) any_account_def dest: class_facts(6))
    show "tier_match q \<lparr>ti_matched_by = ByChannel, ti_enabled = True, ti_scope_peer = rq_peer q,
        ti_candidates = ix_by_channel ?ix, ti_predicate = (\<lambda>e. nm_account_pattern (ev_match e) = ''*'')\<rparr> =
      tier_match q (reference_tier es ByChannel True (rq_peer q) ByChannel)"
      by (rule tier_match_cong [where Q = "\<lambda>e. binding_class e = ByChannel"])
        (auto simp: reference_tier_def idx(6) any_account_def dest: class_facts(7))
  qed (simp_all add: reference_tier_def)
  then show ?thesis unfolding select_binding_def by (rule first_tier_cong)
qed

lemma reference_bindings_props:
  "distinct (reference_bindings cfg ch a)"
  "e \<in> set (reference_bindings cfg ch a) \<Longrightarrow> well_normalized e"
proof -
  have "sorted_wrt (\<lambda>x y. ev_order x < ev_order y) (reference_bindings cfg ch a)"
    unfolding reference_bindings_def by (rule sorted_wrt_filter) (rule channel_bindings_sorted)
  then have "sorted_wrt (<) (map ev_order (reference_bindings cfg ch a))" by (simp add: sorted_wrt_map)
  then have "distinct (map ev_order (reference_bindings cfg ch a))" by (simp add: strict_sorted_iff)
  then show "distinct (reference_bindings cfg ch a)" by (simp add: distinct_map)
  have n: "well_normalized (snd p)" if "p \<in> set (numbered_bindings n bs)" for p n bs
    using that
    by (induction n bs rule: numbered_bindings.induct)
      (auto simp: well_normalized_def normalize_binding_match_def some_if_nonempty_def split: if_splits)
  show "well_normalized e" if "e \<in> set (reference_bindings cfg ch a)"
    using that n by (force simp: reference_bindings_def channel_bindings_def)
qed

lemma route_query_trimmed:
  "js_trim (rq_guild_id (route_query_of cfg input)) = rq_guild_id (route_query_of cfg input)"
  "js_trim (rq_team_id (route_query_of cfg input)) = rq_team_id (route_query_of cfg input)"
  by (simp_all add: route_query_of_def normalize_route_binding_id_def split: option.split)

text \<open>C29: Indexed routing is a linear scan: whatever the configuration and the message, the route is the one
  chosen by scanning all bindings of the channel and account in configuration order once per tier (exact
  peer, parent peer, wildcard peer, guild with roles, guild, team, account, channel) and taking the first
  that matches, and the default agent when none does.\<close>

theorem indexed_routing_is_linear_scan:
  fixes cfg :: route_config and input :: route_input
  defines "q \<equiv> route_query_of cfg input"
  shows "resolve_agent_route_uncached cfg input =
     route_of_selection cfg q
       (first_tier_match q (reference_tiers (reference_bindings cfg (rq_channel q) (rq_account_id q)) q))"
  unfolding resolve_agent_route_uncached_def resolve_query_def q_def evaluated_bindings_eq_reference
  by (simp add: select_binding_eq_reference [OF reference_bindings_props route_query_trimmed])

section \<open>Agents\<close>

definition configured_agent_id :: "route_config \<Rightarrow> string \<Rightarrow> bool" where
  "configured_agent_id cfg a \<longleftrightarrow>
     (\<exists>agent \<in> set (cf_agents cfg). \<exists>s. ag_id agent = Some s \<and> js_trim s \<noteq> [] \<and> a = normalize_agent_id (Some s))"

lemma normalize_agent_id_trim: "normalize_agent_id (Some (js_trim s)) = normalize_agent_id (Some s)"
  by (simp add: normalize_agent_id_def)

lemma agent_lookup_values:
  assumes "js_get (agent_lookup cfg) k = Some v"
  shows "configured_agent_id cfg v"
proof -
  let ?add = "\<lambda>agent m. let raw = (case ag_id agent of None \<Rightarrow> [] | Some s \<Rightarrow> js_trim s) in
         if raw = [] then m else js_set (normalize_agent_id (Some raw)) (normalize_agent_id (Some raw)) m"
  have "js_get (fold ?add as m) k = Some v \<Longrightarrow> set as \<subseteq> set (cf_agents cfg) \<Longrightarrow>
        (\<And>v. js_get m k = Some v \<Longrightarrow> configured_agent_id cfg v) \<Longrightarrow> configured_agent_id cfg v" for as m
  proof (induction as arbitrary: m)
    case (Cons agent as)
    have "configured_agent_id cfg w" if "js_get (?add agent m) k = Some w" for w
      using that Cons.prems(2,3)
      by (cases "ag_id agent")
        (auto simp: Let_def configured_agent_id_def normalize_agent_id_trim split: if_splits)
    then show ?case using Cons by auto
  qed simp
  from this [of "cf_agents cfg" "[]"] assms show ?thesis by (simp add: agent_lookup_def)
qed

text \<open>Routing never invents an agent: when the configuration names agents, the agent of every route is one
  of them in normalized form, or the configured default.\<close>

theorem routed_agent_is_configured:
  assumes "agent_lookup cfg \<noteq> []"
  shows "configured_agent_id cfg (rr_agent_id (resolve_agent_route_uncached cfg input)) \<or>
         rr_agent_id (resolve_agent_route_uncached cfg input) = fallback_default_agent_id cfg"
proof -
  have "configured_agent_id cfg (pick_first_existing_agent_id cfg a) \<or>
        pick_first_existing_agent_id cfg a = fallback_default_agent_id cfg" for a
    using assms agent_lookup_values [of cfg "normalize_agent_id (Some (js_trim a))"]
    by (auto simp: pick_first_existing_agent_id_def Let_def split: option.split)
  moreover have "rr_agent_id (choose_route cfg q a by ov) = pick_first_existing_agent_id cfg a" for q a ov "by"
    by (simp add: choose_route_def Let_def)
  ultimately show ?thesis
    by (auto simp: resolve_agent_route_uncached_def resolve_query_def route_of_selection_def split: option.split prod.split)
qed

theorem routed_agent_is_configured_witness:
  "configured_agent_id sample_config (rr_agent_id (resolve_agent_route_uncached sample_config (sample_input None))) \<or>
   rr_agent_id (resolve_agent_route_uncached sample_config (sample_input None)) = fallback_default_agent_id sample_config"
proof -
  have "agent_lookup sample_config = [(''main'', ''main''), (''ops'', ''ops'')]" by code_simp
  then have "agent_lookup sample_config \<noteq> []" by simp
  then show ?thesis by (rule routed_agent_is_configured)
qed

section \<open>The route cache\<close>

text \<open>An input is regular when its peer, if any, has a non-empty id.\<close>

definition regular_query :: "route_query \<Rightarrow> bool" where
  "regular_query q \<longleftrightarrow> (\<forall>p. rq_peer q = Some p \<longrightarrow> rp_id p \<noteq> [])"

definition route_caches_ok :: "route_config \<Rightarrow> route_caches \<Rightarrow> bool" where
  "route_caches_ok cfg c \<longleftrightarrow>
     (\<forall>ch a es. js_get (rc_account c) (binding_cache_key ch (account_id_of a)) = Some es \<longrightarrow>
        es = evaluated_bindings_for cfg ch (account_id_of a)) \<and>
     (\<forall>ch a ix. js_get (rc_index c) (binding_cache_key ch (account_id_of a)) = Some ix \<longrightarrow>
        ix = build_evaluated_bindings_index (evaluated_bindings_for cfg ch (account_id_of a))) \<and>
     (\<forall>input r. regular_query (route_query_of cfg input) \<longrightarrow>
        js_get (rc_routes c) (build_resolved_route_cache_key (route_query_of cfg input)) = Some r \<longrightarrow>
        r = resolve_agent_route_uncached cfg input)"

lemma account_id_no_tab: "CHR 0x09 \<notin> set (account_id_of a)"
proof -
  have "\<not> is_id_char (CHR 0x09)" by code_simp
  then show ?thesis using account_id_of_canonical [of a] by (auto simp: canonical_id_def list_all_iff)
qed

lemma binding_cache_key_inj:
  assumes "binding_cache_key ch (account_id_of a) = binding_cache_key ch' (account_id_of a')"
  shows "ch = ch' \<and> account_id_of a = account_id_of a'"
proof -
  have "rev (account_id_of a) @ CHR 0x09 # rev ch = rev (account_id_of a') @ CHR 0x09 # rev ch'"
    using arg_cong [OF assms, of rev] by (simp add: binding_cache_key_def)
  moreover have "xs @ x # ys = zs @ x # ws \<Longrightarrow> x \<notin> set xs \<Longrightarrow> x \<notin> set zs \<Longrightarrow> xs = zs \<and> ys = ws" for x :: char and xs ys zs ws
    by (induction xs arbitrary: zs) (auto simp: Cons_eq_append_conv)
  ultimately show ?thesis using account_id_no_tab [of a] account_id_no_tab [of a'] by (metis rev_is_rev_conv set_rev)
qed

lemma get_evaluated_bindings_ok:
  assumes "route_caches_ok cfg c" and "get_evaluated_bindings cfg ch (account_id_of a) c = (es, c')"
  shows "es = evaluated_bindings_for cfg ch (account_id_of a)" and "route_caches_ok cfg c'"
proof -
  let ?k = "binding_cache_key ch (account_id_of a)"
  have "es = evaluated_bindings_for cfg ch (account_id_of a) \<and> route_caches_ok cfg c'"
  proof (cases "js_get (rc_account c) ?k")
    case None
    let ?e = "evaluated_bindings_for cfg ch (account_id_of a)"
    let ?ix = "build_evaluated_bindings_index ?e"
    have "route_caches_ok cfg (c\<lparr>rc_account := js_set ?k ?e (rc_account c), rc_index := js_set ?k ?ix (rc_index c)\<rparr>)"
      using assms(1) by (auto simp: route_caches_ok_def dest: binding_cache_key_inj)
    moreover have "route_caches_ok cfg (c\<lparr>rc_account := [(?k, ?e)], rc_index := [(?k, ?ix)]\<rparr>)"
      using assms(1) by (auto simp: route_caches_ok_def dest!: binding_cache_key_inj split: if_splits)
    ultimately show ?thesis using assms(2) None
      by (auto simp: get_evaluated_bindings_def Let_def split: if_splits)
  next
    case (Some hit)
    then show ?thesis using assms by (auto simp: get_evaluated_bindings_def route_caches_ok_def)
  qed
  then show "es = evaluated_bindings_for cfg ch (account_id_of a)" and "route_caches_ok cfg c'" by auto
qed

lemma get_evaluated_binding_index_ok:
  assumes "route_caches_ok cfg c" and "get_evaluated_binding_index cfg ch (account_id_of a) c = (ix, c')"
  shows "ix = build_evaluated_bindings_index (evaluated_bindings_for cfg ch (account_id_of a)) \<and> route_caches_ok cfg c'"
proof -
  obtain es c1 where g: "get_evaluated_bindings cfg ch (account_id_of a) c = (es, c1)"
    by (cases "get_evaluated_bindings cfg ch (account_id_of a) c")
  note ok = get_evaluated_bindings_ok [OF assms(1) g]
  let ?k = "binding_cache_key ch (account_id_of a)"
  let ?ix = "build_evaluated_bindings_index (evaluated_bindings_for cfg ch (account_id_of a))"
  have "route_caches_ok cfg (c1\<lparr>rc_index := js_set ?k ?ix (rc_index c1)\<rparr>)"
    using ok(2) by (auto simp: route_caches_ok_def dest: binding_cache_key_inj)
  moreover have "i = ?ix" if "js_get (rc_index c1) ?k = Some i" for i
    using ok(2) that by (auto simp: route_caches_ok_def)
  ultimately show ?thesis using assms(2) ok
    by (auto simp: get_evaluated_binding_index_def g Let_def split: option.splits)
qed

lemma format_peer_inj:
  assumes "format_route_cache_peer p = format_route_cache_peer p'"
  shows "parent_with_id p = parent_with_id p'"
proof -
  have neq: "chat_type_name k @ '':'' @ i \<noteq> ''-''" for k i by (cases k) auto
  have inj: "chat_type_name k @ '':'' @ i = chat_type_name k' @ '':'' @ i' \<Longrightarrow> k = k' \<and> i = i'" for k k' i i'
    by (cases k; cases k') auto
  show ?thesis
  proof (cases "parent_with_id p")
    case None
    then have "format_route_cache_peer p' = ''-''"
      using assms by (auto simp: format_route_cache_peer_def parent_with_id_def split: option.splits if_splits)
    then have "parent_with_id p' = None"
      using neq by (auto simp: format_route_cache_peer_def parent_with_id_def split: option.splits if_splits)
    then show ?thesis using None by simp
  next
    case (Some x)
    then have x: "p = Some x" "rp_id x \<noteq> []" by (auto simp: parent_with_id_def split: option.splits if_splits)
    then have f: "format_route_cache_peer p' = chat_type_name (rp_kind x) @ '':'' @ rp_id x"
      using assms by (simp add: format_route_cache_peer_def)
    then obtain y where y: "p' = Some y" "rp_id y \<noteq> []"
      using neq [of "rp_kind x" "rp_id x"] by (auto simp: format_route_cache_peer_def split: option.splits if_splits)
    then have "rp_kind y = rp_kind x \<and> rp_id y = rp_id x"
      using f inj [of "rp_kind y" "rp_id y" "rp_kind x" "rp_id x"] by (simp add: format_route_cache_peer_def)
    then have "y = x" by simp
    then show ?thesis using x y by simp
  qed
qed

lemma regular_parent_with_id: "regular_query q \<Longrightarrow> parent_with_id (rq_peer q) = rq_peer q"
  by (auto simp: regular_query_def parent_with_id_def split: option.split)

lemma matches_scope_roles:
  assumes "set ms = set ms'"
  shows "matches_binding_scope m p g t ms = matches_binding_scope m p g t ms'"
proof -
  have "has_any_role roles (Some ms) = has_any_role roles (Some ms')" for roles
    using assms by (simp add: has_any_role_def)
  then show ?thesis
    by (simp add: matches_binding_scope_def route_binding_scope_matches_def Let_def split: option.split)
qed

lemma cache_key_determines_route:
  assumes "build_resolved_route_cache_key q = build_resolved_route_cache_key q'"
    and "regular_query q" and "regular_query q'"
  shows "resolve_query cfg q = resolve_query cfg q'"
proof -
  have same: "rq_channel q = rq_channel q'" "rq_account_id q = rq_account_id q'" "rq_guild_id q = rq_guild_id q'"
    "rq_team_id q = rq_team_id q'" "rq_dm_scope q = rq_dm_scope q'"
    using assms(1) by (simp_all add: build_resolved_route_cache_key_def)
  have peer: "rq_peer q = rq_peer q'"
    using assms format_peer_inj [of "rq_peer q" "rq_peer q'"]
    by (simp add: build_resolved_route_cache_key_def regular_parent_with_id)
  have parent: "parent_with_id (rq_parent_peer q) = parent_with_id (rq_parent_peer q')"
    using assms(1) by (intro format_peer_inj) (simp add: build_resolved_route_cache_key_def)
  have "sort (rq_member_role_ids q) = sort (rq_member_role_ids q')"
    using assms(1) by (simp add: build_resolved_route_cache_key_def)
  then have roles: "mset (rq_member_role_ids q) = mset (rq_member_role_ids q')" by (metis mset_sort)
  then have rs: "set (rq_member_role_ids q) = set (rq_member_role_ids q')" and
    re: "rq_member_role_ids q = [] \<longleftrightarrow> rq_member_role_ids q' = []"
    by (auto dest: mset_eq_setD)
  have tier: "tier_match q t = tier_match q' t'"
    if "ti_enabled t = ti_enabled t'" "ti_scope_peer t = ti_scope_peer t'" "ti_predicate t = ti_predicate t'"
      "ti_enabled t \<Longrightarrow> ti_candidates t = ti_candidates t'" for t t'
    using that by (auto simp: tier_match_def same matches_scope_roles [OF rs])
  have first: "list_all2 (\<lambda>t t'. ti_matched_by t = ti_matched_by t' \<and> tier_match q t = tier_match q' t') ts ts' \<Longrightarrow>
      first_tier_match q ts = first_tier_match q' ts'" for ts ts'
    by (induction ts ts' rule: list_all2_induct) (auto split: option.split)
  have cand: "parent_with_id (rq_parent_peer q') \<noteq> None \<Longrightarrow>
      collect_peer_indexed ix (rq_parent_peer q) = collect_peer_indexed ix (rq_parent_peer q')" for ix
  proof -
    assume "parent_with_id (rq_parent_peer q') \<noteq> None"
    then obtain x where "parent_with_id (rq_parent_peer q') = Some x" by auto
    then show ?thesis using parent parent_with_id_Some [of "rq_parent_peer q" x] parent_with_id_Some [of "rq_parent_peer q'" x] by simp
  qed
  have "select_binding ix q = select_binding ix q'" for ix
    unfolding select_binding_def route_tiers_def Let_def same peer parent
    by (rule first, unfold list_all2_Cons) (intro conjI tier; simp add: cand re)
  then show ?thesis
    by (simp add: resolve_query_def same route_of_selection_def choose_route_def peer Let_def split: option.split)
qed

text \<open>The route cache is transparent for messages whose peer has an id: after any lookups that kept the
  caches correct, the cached resolution returns exactly the uncached route, and the caches stay correct.\<close>

theorem route_cache_transparent:
  assumes "route_caches_ok cfg c" and "regular_query (route_query_of cfg input)"
  shows "fst (resolve_agent_route cfg input c) = resolve_agent_route_uncached cfg input \<and>
         route_caches_ok cfg (snd (resolve_agent_route cfg input c))"
proof -
  let ?q = "route_query_of cfg input"
  let ?key = "build_resolved_route_cache_key ?q"
  have acc: "rq_account_id ?q = account_id_of (ri_account_id input)" by (simp add: route_query_of_def)
  obtain es c1 where g1: "get_evaluated_bindings cfg (rq_channel ?q) (rq_account_id ?q) c = (es, c1)"
    by (cases "get_evaluated_bindings cfg (rq_channel ?q) (rq_account_id ?q) c")
  obtain ix c2 where g2: "get_evaluated_binding_index cfg (rq_channel ?q) (rq_account_id ?q) c1 = (ix, c2)"
    by (cases "get_evaluated_binding_index cfg (rq_channel ?q) (rq_account_id ?q) c1")
  have c1: "route_caches_ok cfg c1" by (rule get_evaluated_bindings_ok(2) [OF assms(1) g1 [unfolded acc]])
  have c2: "ix = build_evaluated_bindings_index (evaluated_bindings_for cfg (rq_channel ?q) (rq_account_id ?q))"
    "route_caches_ok cfg c2"
    using get_evaluated_binding_index_ok [OF c1 g2 [unfolded acc]] by (simp_all add: acc)
  let ?r = "route_of_selection cfg ?q (select_binding ix ?q)"
  have r: "?r = resolve_agent_route_uncached cfg input"
    by (simp add: resolve_agent_route_uncached_def resolve_query_def c2(1))
  have store: "route_caches_ok cfg (store_route ?key ?r c2)"
  proof -
    have new: "resolve_agent_route_uncached cfg input' = ?r"
      if "regular_query (route_query_of cfg input')" "build_resolved_route_cache_key (route_query_of cfg input') = ?key" for input'
      using cache_key_determines_route [OF that(2,1) assms(2)] unfolding r by (simp add: resolve_agent_route_uncached_def)
    show ?thesis using c2(2) new by (auto simp: route_caches_ok_def store_route_def Let_def split: if_splits)
  qed
  show ?thesis
  proof (cases "if cf_identity_links cfg = None then js_get (rc_routes c) ?key else None")
    case None
    then show ?thesis using store c2(2)
      by (simp add: resolve_agent_route_def Let_def g1 g2 r)
  next
    case (Some route)
    then have "js_get (rc_routes c) ?key = Some route" by (simp split: if_splits)
    then have "route = resolve_agent_route_uncached cfg input" using assms by (simp add: route_caches_ok_def)
    then show ?thesis using Some assms(1) by (simp add: resolve_agent_route_def Let_def)
  qed
qed

theorem route_cache_transparent_witness:
  "rr_agent_id (fst (resolve_agent_route sample_config (sample_input (Some \<lparr>rp_kind = Direct, rp_id = ''7''\<rparr>)) empty_route_caches)) = ''ops''"
proof -
  let ?in = "sample_input (Some \<lparr>rp_kind = Direct, rp_id = ''7''\<rparr>)"
  have a: "route_caches_ok sample_config empty_route_caches" by (simp add: route_caches_ok_def empty_route_caches_def)
  have b: "regular_query (route_query_of sample_config ?in)"
    by (simp add: regular_query_def route_query_of_def sample_input_def normalize_peer_def) code_simp
  show ?thesis using route_cache_transparent [OF a b] sample_routes(2) by simp
qed


end
