(* ===== verification/Dedupe_Cache.thy ===== *)
theory Dedupe_Cache
  imports JS_Numbers
begin

text \<open>
  The duplicate-suppression cache of \<open>infra/dedupe.ts\<close> over \<open>infra/map-size.ts\<close>: keys with the
  time they were last seen, in least-recently-touched order, with an optional time to live and a
  bound on their number. A missing or empty key is \<open>None\<close> or the empty string.
\<close>

section \<open>Bounding a map\<close>

lemma js_delete_first_length: "length (js_delete (fst p) (p # m)) < Suc (length m)"
  by (cases p) (simp add: js_delete_def le_imp_less_Suc)

function drop_oldest :: "nat \<Rightarrow> ('k, 'v) js_map \<Rightarrow> ('k, 'v) js_map" where
  "drop_oldest limit m =
     (if length m > limit then
        (case m of [] \<Rightarrow> m | p # _ \<Rightarrow> drop_oldest limit (js_delete (fst p) m))
      else m)"
  by pat_completeness auto
termination
  by (relation "measure (\<lambda>(_, m). length m)") (auto simp: js_delete_def le_imp_less_Suc)

declare drop_oldest.simps [simp del]

definition prune_map_to_max_size :: "js_number \<Rightarrow> ('k, 'v) js_map \<Rightarrow> ('k, 'v) js_map" where
  "prune_map_to_max_size max_size m =
     (case max_size of
        NaN \<Rightarrow> m
      | PosInf \<Rightarrow> m
      | NegInf \<Rightarrow> []
      | Fin q \<Rightarrow> (let limit = max 0 \<lfloor>q\<rfloor> in if limit \<le> 0 then [] else drop_oldest (nat limit) m))"

lemma drop_oldest_drop: "js_wf m \<Longrightarrow> drop_oldest limit m = drop (length m - limit) m"
proof (induction m)
  case Nil
  then show ?case by (simp add: drop_oldest.simps)
next
  case (Cons p m)
  obtain k v where p: "p = (k, v)" by (cases p)
  have d: "js_delete k (p # m) = m" using Cons.prems by (simp add: p js_delete_absent)
  show ?case
  proof (cases "length (p # m) > limit")
    case True
    then have "drop_oldest limit (p # m) = drop_oldest limit m"
      using d by (subst drop_oldest.simps) (simp add: p)
    moreover have "length (p # m) - limit = Suc (length m - limit)" using True by simp
    ultimately show ?thesis using Cons by simp
  next
    case False
    then show ?thesis by (subst drop_oldest.simps) simp
  qed
qed

section \<open>The cache\<close>

record dedupe_cache =
  dc_ttl_ms :: int
  dc_max_size :: int
  dc_cache :: "(string, int) js_map"

definition create_dedupe_cache :: "js_value \<Rightarrow> js_value \<Rightarrow> dedupe_cache" where
  "create_dedupe_cache ttl_ms max_size =
     \<lparr>dc_ttl_ms = resolve_non_negative_integer_option ttl_ms 0,
      dc_max_size = resolve_non_negative_integer_option max_size 0, dc_cache = []\<rparr>"

definition dc_touch :: "string \<Rightarrow> int \<Rightarrow> dedupe_cache \<Rightarrow> dedupe_cache" where
  "dc_touch key now d = d\<lparr>dc_cache := js_set key now (js_delete key (dc_cache d))\<rparr>"

definition dc_prune :: "int \<Rightarrow> dedupe_cache \<Rightarrow> dedupe_cache" where
  "dc_prune now d =
     (let c = (if dc_ttl_ms d > 0 then filter (\<lambda>p. \<not> snd p < now - dc_ttl_ms d) (dc_cache d) else dc_cache d)
      in d\<lparr>dc_cache :=
             (if dc_max_size d \<le> 0 then []
              else prune_map_to_max_size (Fin (of_int (dc_max_size d))) c)\<rparr>)"

definition has_unexpired :: "string \<Rightarrow> int \<Rightarrow> bool \<Rightarrow> dedupe_cache \<Rightarrow> bool \<times> dedupe_cache" where
  "has_unexpired key now touch_on_read d =
     (case js_get (dc_cache d) key of
        None \<Rightarrow> (False, d)
      | Some existing \<Rightarrow>
          if dc_ttl_ms d > 0 \<and> now - existing \<ge> dc_ttl_ms d then
            (False, d\<lparr>dc_cache := js_delete key (dc_cache d)\<rparr>)
          else (True, if touch_on_read then dc_touch key now d else d))"

text \<open>The truth test \<open>!key\<close> of the operations.\<close>

definition usable_key :: "string option \<Rightarrow> string option" where
  "usable_key key = (case key of None \<Rightarrow> None | Some k \<Rightarrow> if k = [] then None else Some k)"

definition dc_check :: "string option \<Rightarrow> int \<Rightarrow> dedupe_cache \<Rightarrow> bool \<times> dedupe_cache" where
  "dc_check key now d =
     (case usable_key key of
        None \<Rightarrow> (False, d)
      | Some k \<Rightarrow>
          (case has_unexpired k now True d of
             (True, d') \<Rightarrow> (True, d')
           | (False, d') \<Rightarrow> (False, dc_prune now (dc_touch k now d'))))"

lemma dc_check_eq:
  "dc_check key now d =
     (case usable_key key of
        None \<Rightarrow> (False, d)
      | Some k \<Rightarrow>
          (let (dup, d') = has_unexpired k now True d
           in (dup, if dup then d' else dc_prune now (dc_touch k now d'))))"
  by (auto simp: dc_check_def split: option.split prod.split bool.split)

definition dc_peek :: "string option \<Rightarrow> int \<Rightarrow> dedupe_cache \<Rightarrow> bool \<times> dedupe_cache" where
  "dc_peek key now d = (case usable_key key of None \<Rightarrow> (False, d) | Some k \<Rightarrow> has_unexpired k now False d)"

definition dc_delete :: "string option \<Rightarrow> dedupe_cache \<Rightarrow> dedupe_cache" where
  "dc_delete key d =
     (case usable_key key of None \<Rightarrow> d | Some k \<Rightarrow> d\<lparr>dc_cache := js_delete k (dc_cache d)\<rparr>)"

definition dc_clear :: "dedupe_cache \<Rightarrow> dedupe_cache" where
  "dc_clear d = d\<lparr>dc_cache := []\<rparr>"

definition dc_size :: "dedupe_cache \<Rightarrow> nat" where
  "dc_size d = length (dc_cache d)"

datatype dedupe_call = DCheck "string option" | DPeek "string option" | DDelete "string option" | DClear

fun dedupe_step :: "dedupe_cache \<Rightarrow> int \<times> dedupe_call \<Rightarrow> dedupe_cache" where
  "dedupe_step d (now, DCheck k) = snd (dc_check k now d)"
| "dedupe_step d (now, DPeek k) = snd (dc_peek k now d)"
| "dedupe_step d (now, DDelete k) = dc_delete k d"
| "dedupe_step d (now, DClear) = dc_clear d"

section \<open>Bounds\<close>

definition dedupe_ok :: "dedupe_cache \<Rightarrow> bool" where
  "dedupe_ok d \<longleftrightarrow> js_wf (dc_cache d) \<and> 0 \<le> dc_max_size d \<and> int (length (dc_cache d)) \<le> dc_max_size d"

lemma dc_touch_append: "dc_cache (dc_touch k now d) = js_delete k (dc_cache d) @ [(k, now)]"
  by (simp add: dc_touch_def js_set_fresh)

lemma dc_touch_options [simp]: "dc_ttl_ms (dc_touch k now d) = dc_ttl_ms d" "dc_max_size (dc_touch k now d) = dc_max_size d"
  by (simp_all add: dc_touch_def)

lemma dc_prune_options [simp]: "dc_ttl_ms (dc_prune now d) = dc_ttl_ms d" "dc_max_size (dc_prune now d) = dc_max_size d"
  by (simp_all add: dc_prune_def Let_def)

lemma has_unexpired_options [simp]:
  "dc_ttl_ms (snd (has_unexpired k now t d)) = dc_ttl_ms d" "dc_max_size (snd (has_unexpired k now t d)) = dc_max_size d"
  by (auto simp: has_unexpired_def split: option.splits)

lemma dedupe_step_options [simp]: "dc_ttl_ms (dedupe_step d e) = dc_ttl_ms d" "dc_max_size (dedupe_step d e) = dc_max_size d"
proof -
  have "dc_ttl_ms (dedupe_step d e) = dc_ttl_ms d \<and> dc_max_size (dedupe_step d e) = dc_max_size d"
  proof (cases e)
    case (Pair now op)
    show ?thesis
    proof (cases op)
      case (DCheck k)
      then show ?thesis by (simp add: Pair dc_check_eq Let_def split_def split: option.split)
    next
      case (DPeek k)
      then show ?thesis by (simp add: Pair dc_peek_def split: option.split)
    qed (auto simp: Pair dc_delete_def dc_clear_def split: option.splits)
  qed
  then show "dc_ttl_ms (dedupe_step d e) = dc_ttl_ms d" "dc_max_size (dedupe_step d e) = dc_max_size d" by auto
qed

text \<open>The entries \<open>dc_prune\<close> keeps: the fresh ones, and of those the newest \<open>dc_max_size\<close>.\<close>

lemma dc_prune_cache:
  assumes "js_wf (dc_cache d)" and "0 < dc_max_size d"
  obtains c where "c = (if dc_ttl_ms d > 0 then filter (\<lambda>p. \<not> snd p < now - dc_ttl_ms d) (dc_cache d) else dc_cache d)"
    and "js_wf c" and "dc_cache (dc_prune now d) = drop (length c - nat (dc_max_size d)) c"
proof -
  let ?c = "if dc_ttl_ms d > 0 then filter (\<lambda>p. \<not> snd p < now - dc_ttl_ms d) (dc_cache d) else dc_cache d"
  have "js_wf ?c" using assms(1) by (simp add: js_wf_filter)
  moreover from this have "dc_cache (dc_prune now d) = drop (length ?c - nat (dc_max_size d)) ?c"
    using assms(2) by (simp add: dc_prune_def Let_def prune_map_to_max_size_def drop_oldest_drop)
  ultimately show ?thesis using that by blast
qed

lemma js_wf_drop: "js_wf m \<Longrightarrow> js_wf (drop n m)"
  by (metis distinct_drop drop_map)

lemma dc_prune_ok:
  assumes "js_wf (dc_cache d)" and "0 \<le> dc_max_size d"
  shows "dedupe_ok (dc_prune now d)"
proof (cases "dc_max_size d = 0")
  case True
  then show ?thesis by (simp add: dedupe_ok_def dc_prune_def Let_def)
next
  case False
  then have pos: "0 < dc_max_size d" using assms(2) by simp
  obtain c where c: "js_wf c" "dc_cache (dc_prune now d) = drop (length c - nat (dc_max_size d)) c"
    using dc_prune_cache [OF assms(1) pos] by metis
  then show ?thesis using assms(2) pos by (auto simp: dedupe_ok_def js_wf_drop)
qed

lemma js_wf_touch: "js_wf (dc_cache d) \<Longrightarrow> js_wf (dc_cache (dc_touch k now d))"
  by (simp add: dc_touch_def)

lemma has_unexpired_ok: "dedupe_ok d \<Longrightarrow> dedupe_ok (snd (has_unexpired k now t d))"
proof -
  assume ok: "dedupe_ok d"
  have "dedupe_ok (dc_touch k now d)" if "js_get (dc_cache d) k = Some v" for v
    using ok length_js_delete_present [of "dc_cache d" k] js_get_key [OF that] js_wf_touch [of d k now]
    by (auto simp: dedupe_ok_def dc_touch_append)
  then show "dedupe_ok (snd (has_unexpired k now t d))"
    using ok length_js_delete_le [of k "dc_cache d"] by (auto simp: has_unexpired_def dedupe_ok_def split: option.split)
qed

lemma dedupe_step_ok [step_inv]: "dedupe_ok d \<Longrightarrow> dedupe_ok (dedupe_step d e)"
proof -
  assume ok: "dedupe_ok d"
  obtain now op where e: "e = (now, op)" by (cases e)
  show ?thesis
  proof (cases op)
    case (DCheck key)
    show ?thesis
    proof (cases "usable_key key")
      case (Some k)
      have h: "dedupe_ok (snd (has_unexpired k now True d))" by (rule has_unexpired_ok [OF ok])
      then have "dedupe_ok (dc_prune now (dc_touch k now (snd (has_unexpired k now True d))))"
        by (intro dc_prune_ok js_wf_touch) (simp_all add: dedupe_ok_def)
      then show ?thesis using h
        by (simp add: e DCheck dc_check_eq Some Let_def split_def)
    qed (simp add: e DCheck dc_check_def ok)
  next
    case (DPeek key)
    then show ?thesis using ok has_unexpired_ok by (simp add: e dc_peek_def split: option.split)
  next
    case (DDelete key)
    have "int (length (js_delete k (dc_cache d))) \<le> dc_max_size d" for k
      using ok length_js_delete_le [of k "dc_cache d"] by (simp add: dedupe_ok_def)
    then show ?thesis using ok by (simp add: e DDelete dc_delete_def dedupe_ok_def split: option.split)
  next
    case DClear
    then show ?thesis using ok by (simp add: e dc_clear_def dedupe_ok_def)
  qed
qed

interpretation dedupe_machine: invariant_machine dedupe_step dedupe_ok
  by unfold_locales (rule dedupe_step_ok)

section \<open>No false duplicates\<close>

text \<open>Every entry of the cache was recorded by a check of its key at its time.\<close>

definition recorded_by :: "(int \<times> dedupe_call) list \<Rightarrow> dedupe_cache \<Rightarrow> bool" where
  "recorded_by seen d \<longleftrightarrow>
     (\<forall>p \<in> set (dc_cache d). \<exists>key. usable_key key = Some (fst p) \<and> (snd p, DCheck key) \<in> set seen)"

lemma recorded_by_mono:
  "recorded_by seen d \<Longrightarrow> set (dc_cache d') \<subseteq> set (dc_cache d) \<Longrightarrow> set seen \<subseteq> set seen' \<Longrightarrow> recorded_by seen' d'"
  unfolding recorded_by_def by blast

lemma recorded_by_touch:
  assumes "recorded_by seen d" and "usable_key key = Some k"
  shows "recorded_by (seen @ [(now, DCheck key)]) (dc_touch k now d)"
  unfolding recorded_by_def
proof
  fix p assume "p \<in> set (dc_cache (dc_touch k now d))"
  then consider "p \<in> set (dc_cache d)" | "p = (k, now)" by (auto simp: dc_touch_append js_delete_def)
  then show "\<exists>key'. usable_key key' = Some (fst p) \<and> (snd p, DCheck key') \<in> set (seen @ [(now, DCheck key)])"
    using assms by cases (fastforce simp: recorded_by_def, auto)
qed

lemma drop_oldest_subset: "set (drop_oldest n m) \<subseteq> set m"
proof (induction n m rule: drop_oldest.induct)
  case (1 n m)
  show ?case
  proof (cases "length m > n")
    case True
    then obtain p m' where m: "m = p # m'" by (cases m) auto
    have "drop_oldest n m = drop_oldest n (js_delete (fst p) m)"
      using True by (subst drop_oldest.simps) (simp add: m)
    moreover have "set (drop_oldest n (js_delete (fst p) m)) \<subseteq> set (js_delete (fst p) m)"
      by (rule 1 [OF True m])
    moreover have "set (js_delete (fst p) m) \<subseteq> set m" by (simp add: js_delete_def)
    ultimately show ?thesis by simp
  qed (simp add: drop_oldest.simps)
qed

lemma dc_prune_subset: "set (dc_cache (dc_prune now d)) \<subseteq> set (dc_cache d)"
  using subset_trans [OF drop_oldest_subset, of "filter (\<lambda>p. \<not> snd p < now - dc_ttl_ms d) (dc_cache d)" "set (dc_cache d)"]
    drop_oldest_subset [of _ "dc_cache d"]
  by (simp add: dc_prune_def Let_def prune_map_to_max_size_def)

lemma recorded_by_step [step_inv]:
  assumes "recorded_by seen d"
  shows "recorded_by (seen @ [e]) (dedupe_step d e)"
proof -
  obtain now op where e: "e = (now, op)" by (cases e)
  have keep: "recorded_by (seen @ [e]) d'" if "set (dc_cache d') \<subseteq> set (dc_cache d)" for d'
    using recorded_by_mono [OF assms that, of "seen @ [e]"] by auto
  show ?thesis
  proof (cases op)
    case (DCheck key)
    show ?thesis
    proof (cases "usable_key key")
      case None
      then show ?thesis using keep [of d] by (simp add: e DCheck dc_check_eq)
    next
      case (Some k)
      have t: "recorded_by (seen @ [e]) (dc_touch k now d')" if "set (dc_cache d') \<subseteq> set (dc_cache d)" for d'
        using recorded_by_touch [OF recorded_by_mono [OF assms that subset_refl] Some, of now] by (simp add: e DCheck)
      have p: "recorded_by (seen @ [e]) (dc_prune now (dc_touch k now d'))" if "set (dc_cache d') \<subseteq> set (dc_cache d)" for d'
        by (rule recorded_by_mono [OF t [OF that] dc_prune_subset subset_refl])
      show ?thesis
        using t [of d] p [of d] p [of "d\<lparr>dc_cache := js_delete k (dc_cache d)\<rparr>"]
        by (simp add: e DCheck dc_check_eq Some has_unexpired_def js_delete_def split: option.split)
    qed
  next
    case (DPeek key)
    then show ?thesis using keep [of d] keep [of "d\<lparr>dc_cache := js_delete (the (usable_key key)) (dc_cache d)\<rparr>"]
      by (auto simp: e dc_peek_def has_unexpired_def js_delete_def split: option.split)
  next
    case (DDelete key)
    then show ?thesis using keep [of "dc_delete key d"] by (auto simp: e dc_delete_def js_delete_def split: option.splits)
  next
    case DClear
    then show ?thesis using keep [of "dc_clear d"] by (simp add: e dc_clear_def)
  qed
qed

lemma recorded_by_run: "recorded_by seen d \<Longrightarrow> recorded_by (seen @ es) (foldl dedupe_step d es)"
proof (induction es arbitrary: seen d)
  case (Cons e es)
  from Cons.IH [OF recorded_by_step [OF Cons.prems]] show ?case by simp
qed simp

lemma dedupe_run_options: "dc_ttl_ms (foldl dedupe_step d es) = dc_ttl_ms d"
  by (induction es arbitrary: d) simp_all

text \<open>the cache never suppresses what it has not seen: a key reported as a duplicate was checked
  before, and less than one time to live ago when the cache has one.
\<close>

theorem no_false_duplicate:
  assumes "fst (dc_check (Some k) now (foldl dedupe_step (create_dedupe_cache ttl cap) es))"
  shows "\<exists>t. (t, DCheck (Some k)) \<in> set es \<and>
    (0 < resolve_non_negative_integer_option ttl 0 \<longrightarrow> now - t < resolve_non_negative_integer_option ttl 0)"
proof -
  let ?d = "foldl dedupe_step (create_dedupe_cache ttl cap) es"
  have k: "k \<noteq> []" using assms by (auto simp: dc_check_eq usable_key_def)
  obtain ts where g: "js_get (dc_cache ?d) k = Some ts" and
      ttl: "\<not> (dc_ttl_ms ?d > 0 \<and> now - ts \<ge> dc_ttl_ms ?d)"
    using assms k by (auto simp: dc_check_eq usable_key_def has_unexpired_def split: option.splits if_splits)
  have "recorded_by ([] @ es) ?d"
    by (rule recorded_by_run) (simp add: recorded_by_def create_dedupe_cache_def)
  then obtain key where "usable_key key = Some k" "(ts, DCheck key) \<in> set es"
    using js_get_Some_in [OF g] by (fastforce simp: recorded_by_def)
  moreover from this have "key = Some k" by (auto simp: usable_key_def split: option.splits if_splits)
  ultimately show ?thesis
    using ttl by (auto simp: dedupe_run_options create_dedupe_cache_def)
qed

theorem no_false_duplicate_witness:
  "\<exists>t. (t, DCheck (Some ''a'')) \<in> set [(5, DCheck (Some ''a''))] \<and>
    (0 < resolve_non_negative_integer_option (JNum (Fin 10)) 0 \<longrightarrow>
      8 - t < resolve_non_negative_integer_option (JNum (Fin 10)) 0)"
  by (rule no_false_duplicate [where cap = "JNum (Fin 4)"])
    (simp add: create_dedupe_cache_def resolve_non_negative_integer_option_def resolve_integer_option_def
      dc_check_eq usable_key_def has_unexpired_def dc_touch_def dc_prune_def Let_def
      prune_map_to_max_size_def drop_oldest.simps)

section \<open>No missed replays\<close>

text \<open>
  The key is in the cache with a time no older than \<open>t\<close>, and only keys of \<open>others\<close> were touched
  after it: with fewer than \<open>dc_max_size\<close> of them it cannot be the one that is dropped.
\<close>

definition remembers :: "string \<Rightarrow> int \<Rightarrow> string list \<Rightarrow> dedupe_cache \<Rightarrow> bool" where
  "remembers k t others d \<longleftrightarrow>
     (\<exists>pre ts post. dc_cache d = pre @ (k, ts) # post \<and> t \<le> ts \<and> set (js_keys post) \<subseteq> set others)"

definition fresh_at :: "int \<Rightarrow> int \<Rightarrow> dedupe_cache \<Rightarrow> bool" where
  "fresh_at t now d \<longleftrightarrow> t \<le> now \<and> (0 < dc_ttl_ms d \<longrightarrow> now < t + dc_ttl_ms d)"

lemma js_wf_middle: "js_wf (pre @ (k, ts) # post) \<Longrightarrow> js_get (pre @ (k, ts) # post) k = Some ts"
proof -
  assume "js_wf (pre @ (k, ts) # post)"
  then have "js_get pre k = None" by (simp add: js_get_None_keys)
  then show ?thesis by (simp add: map_add_def)
qed

lemma js_delete_append: "js_delete k (m @ m') = js_delete k m @ js_delete k m'"
  by (simp add: js_delete_def)

lemma remembersI:
  "dc_cache d = pre @ (k, ts) # post \<Longrightarrow> t \<le> ts \<Longrightarrow> set (js_keys post) \<subseteq> set others \<Longrightarrow> remembers k t others d"
  unfolding remembers_def by blast

lemma remembersE:
  assumes "remembers k t others d"
  obtains pre ts post where "dc_cache d = pre @ (k, ts) # post" "t \<le> ts" "set (js_keys post) \<subseteq> set others"
  using assms unfolding remembers_def by blast

lemma remembers_get:
  assumes "remembers k t others d" and "js_wf (dc_cache d)"
  shows "\<exists>ts. js_get (dc_cache d) k = Some ts \<and> t \<le> ts"
proof -
  obtain pre ts post where d: "dc_cache d = pre @ (k, ts) # post" "t \<le> ts" using assms(1) by (rule remembersE)
  have "js_get (dc_cache d) k = Some ts" unfolding d(1) by (rule js_wf_middle) (use assms(2) d(1) in simp)
  with d(2) show ?thesis by blast
qed

lemma remembers_touch_self: "t \<le> now \<Longrightarrow> remembers k t others (dc_touch k now d)"
  by (rule remembersI [where post = "[]"]) (simp_all add: dc_touch_append)

lemma remembers_delete_other: "remembers k t others d \<Longrightarrow> k' \<noteq> k \<Longrightarrow>
    remembers k t others (d\<lparr>dc_cache := js_delete k' (dc_cache d)\<rparr>)"
proof -
  assume r: "remembers k t others d" and ne: "k' \<noteq> k"
  obtain pre ts post where d: "dc_cache d = pre @ (k, ts) # post" "t \<le> ts" "set (js_keys post) \<subseteq> set others"
    using r by (rule remembersE)
  show ?thesis
    by (rule remembersI [OF _ d(2), where pre = "js_delete k' pre" and post = "js_delete k' post"])
      (use d(1,3) ne in \<open>auto simp: js_delete_append\<close>)
qed

lemma remembers_touch_other: "remembers k t others d \<Longrightarrow> k' \<noteq> k \<Longrightarrow> k' \<in> set others \<Longrightarrow>
    remembers k t others (dc_touch k' now d)"
proof -
  assume r: "remembers k t others d" and ne: "k' \<noteq> k" and o': "k' \<in> set others"
  obtain pre ts post where d: "dc_cache (d\<lparr>dc_cache := js_delete k' (dc_cache d)\<rparr>) = pre @ (k, ts) # post"
      "t \<le> ts" "set (js_keys post) \<subseteq> set others"
    using remembers_delete_other [OF r ne] by (rule remembersE)
  show ?thesis
    by (rule remembersI [OF _ d(2), where pre = pre and post = "post @ [(k', now)]"])
      (use d(1,3) o' in \<open>simp_all add: dc_touch_append\<close>)
qed

lemma remembers_prune:
  assumes r: "remembers k t others d" and wf: "js_wf (dc_cache d)" and f: "fresh_at t now d"
    and few: "length (remdups others) < nat (dc_max_size d)"
  shows "remembers k t others (dc_prune now d)"
proof -
  obtain pre ts post where d: "dc_cache d = pre @ (k, ts) # post" "t \<le> ts" "set (js_keys post) \<subseteq> set others"
    using r by (rule remembersE)
  let ?P = "\<lambda>p. \<not> snd p < now - dc_ttl_ms d"
  obtain c where c: "c = (if dc_ttl_ms d > 0 then filter ?P (dc_cache d) else dc_cache d)" "js_wf c"
      "dc_cache (dc_prune now d) = drop (length c - nat (dc_max_size d)) c"
    using dc_prune_cache [OF wf] few by (metis nat_0_iff not_le less_nat_zero_code)
  have "filter ?P (dc_cache d) = filter ?P pre @ (k, ts) # filter ?P post" if "dc_ttl_ms d > 0"
    using d f that by (auto simp: fresh_at_def)
  moreover have "set (js_keys (filter ?P post)) \<subseteq> set others" using d(3) by auto
  ultimately obtain pre' post' where c': "c = pre' @ (k, ts) # post'" "set (js_keys post') \<subseteq> set others"
    using c(1) d(1,3) by (cases "dc_ttl_ms d > 0") auto
  have "length post' = card (set (js_keys post'))"
    using c(2) distinct_card [of "js_keys post'"] by (simp add: c'(1))
  also have "\<dots> \<le> length (remdups others)"
    using card_mono [OF finite_set c'(2)] by (simp add: length_remdups_card_conv)
  finally have "length c - nat (dc_max_size d) \<le> length pre'" using few by (simp add: c'(1))
  then have "dc_cache (dc_prune now d) = drop (length c - nat (dc_max_size d)) pre' @ (k, ts) # post'"
    using c(3) by (simp add: c'(1))
  then show ?thesis by (rule remembersI) (rule d(2), rule c'(2))
qed


text \<open>The keys an operation touches, and whether it makes the cache forget \<open>k\<close>.\<close>

fun touched_keys :: "dedupe_call \<Rightarrow> string list" where
  "touched_keys (DCheck key) = (case usable_key key of None \<Rightarrow> [] | Some k \<Rightarrow> [k])"
| "touched_keys _ = []"

fun forgets :: "string \<Rightarrow> dedupe_call \<Rightarrow> bool" where
  "forgets k (DDelete key) = (usable_key key = Some k)"
| "forgets k DClear = True"
| "forgets k _ = False"

lemma has_unexpired_live:
  assumes "remembers k t others d" and "js_wf (dc_cache d)" and "fresh_at t now d"
  shows "has_unexpired k now refresh d = (True, if refresh then dc_touch k now d else d)"
  using remembers_get [OF assms(1,2)] assms(3) by (auto simp: has_unexpired_def fresh_at_def)

lemma has_unexpired_other:
  assumes "remembers k t others d" and "k' \<noteq> k" and "k' \<in> set others"
  shows "remembers k t others (snd (has_unexpired k' now refresh d))"
  using assms remembers_delete_other [OF assms(1,2)] remembers_touch_other [OF assms, of now]
  by (auto simp: has_unexpired_def split: option.split)

lemma remembers_step [step_inv]:
  assumes r: "remembers k t others d" and ok: "dedupe_ok d" and f: "fresh_at t now d"
    and few: "length (remdups others) < nat (dc_max_size d)"
    and op: "\<not> forgets k op" "set (touched_keys op) \<subseteq> insert k (set others)"
  shows "remembers k t others (dedupe_step d (now, op))"
proof -
  have wf: "js_wf (dc_cache d)" using ok by (simp add: dedupe_ok_def)
  note live = has_unexpired_live [OF r wf f]
  show ?thesis
  proof (cases op)
    case (DCheck key)
    show ?thesis
    proof (cases "usable_key key")
      case None
      then show ?thesis using r by (simp add: DCheck dc_check_eq)
    next
      case (Some k')
      show ?thesis
      proof (cases "k' = k")
        case True
        then show ?thesis using live [of True] remembers_touch_self [of t now k others d] f
          by (simp add: DCheck dc_check_eq Some fresh_at_def)
      next
        case False
        then have o': "k' \<in> set others" using op(2) by (simp add: DCheck Some)
        let ?d = "snd (has_unexpired k' now True d)"
        have h: "remembers k t others ?d" by (rule has_unexpired_other [OF r False o'])
        have w: "js_wf (dc_cache ?d)" using has_unexpired_ok [OF ok] by (simp add: dedupe_ok_def)
        have "remembers k t others (dc_prune now (dc_touch k' now ?d))"
          by (rule remembers_prune [OF remembers_touch_other [OF h False o'] js_wf_touch [OF w]])
            (use f few in \<open>simp_all add: fresh_at_def\<close>)
        then show ?thesis using h by (simp add: DCheck dc_check_eq Some Let_def split_def)
      qed
    qed
  next
    case (DPeek key)
    have del: "remembers k t others (d\<lparr>dc_cache := js_delete k' (dc_cache d)\<rparr>)" if "k' \<noteq> k" for k'
      by (rule remembers_delete_other [OF r that])
    show ?thesis
    proof (cases "usable_key key = Some k")
      case True
      then show ?thesis using live [of False] r by (simp add: DPeek dc_peek_def)
    next
      case False
      then show ?thesis using r del by (auto simp: DPeek dc_peek_def has_unexpired_def split: option.split)
    qed
  next
    case (DDelete key)
    then show ?thesis using r op(1) remembers_delete_other [OF r]
      by (auto simp: dc_delete_def split: option.split)
  next
    case DClear
    then show ?thesis using op(1) by simp
  qed
qed

lemma remembers_run:
  assumes "remembers k t others d" and "dedupe_ok d" and "length (remdups others) < nat (dc_max_size d)"
    and "\<forall>e \<in> set es. fresh_at t (fst e) d \<and> \<not> forgets k (snd e) \<and> set (touched_keys (snd e)) \<subseteq> insert k (set others)"
  shows "remembers k t others (foldl dedupe_step d es) \<and> dedupe_ok (foldl dedupe_step d es)"
  using assms
proof (induction es arbitrary: d)
  case (Cons e es)
  obtain now op where e: "e = (now, op)" by (cases e)
  have "remembers k t others (dedupe_step d e)"
    unfolding e by (rule remembers_step) (use Cons.prems in \<open>auto simp: e\<close>)
  then show ?case
    using Cons.IH [of "dedupe_step d e"] Cons.prems dedupe_step_ok [of d e] by (simp add: fresh_at_def)
qed simp

text \<open>a replay is caught: after a key was checked at \<open>t\<close>, any check of it within the time to live
  reports a duplicate, as long as fewer than \<open>maxSize\<close> other keys were checked since and the key was
  neither deleted nor the cache cleared.
\<close>

theorem replay_is_caught:
  assumes "dedupe_ok d" and "k \<noteq> []" and "length (remdups others) < nat (dc_max_size d)"
    and "\<forall>e \<in> set es. fresh_at t (fst e) d \<and> \<not> forgets k (snd e) \<and> set (touched_keys (snd e)) \<subseteq> insert k (set others)"
    and "fresh_at t now d"
  shows "fst (dc_check (Some k) now (foldl dedupe_step (snd (dc_check (Some k) t d)) es))"
proof -
  let ?d = "snd (dc_check (Some k) t d)"
  have ok: "dedupe_ok ?d" using dedupe_step_ok [OF assms(1), of "(t, DCheck (Some k))"] by simp
  have opts: "dc_ttl_ms ?d = dc_ttl_ms d" "dc_max_size ?d = dc_max_size d"
    using dedupe_step_options [of d "(t, DCheck (Some k))"] by simp_all
  let ?h = "snd (has_unexpired k t True d)"
  have wf: "js_wf (dc_cache ?h)" using has_unexpired_ok [OF assms(1)] by (simp add: dedupe_ok_def)
  have "remembers k t others (dc_prune t (dc_touch k t ?h))"
    by (rule remembers_prune [OF remembers_touch_self [of t t] js_wf_touch [OF wf]])
      (use assms(3,5) in \<open>auto simp: fresh_at_def\<close>)
  moreover have "remembers k t others ?h" if "fst (has_unexpired k t True d)"
    using that remembers_touch_self [of t t k others d]
    by (auto simp: has_unexpired_def split: option.splits if_splits)
  ultimately have "remembers k t others ?d" using assms(2) by (simp add: dc_check_eq usable_key_def Let_def split_def)
  from remembers_run [OF this ok] assms(3,4) opts
  have run: "remembers k t others (foldl dedupe_step ?d es)" "dedupe_ok (foldl dedupe_step ?d es)"
    by (auto simp: fresh_at_def)
  have "fresh_at t now (foldl dedupe_step ?d es)"
    using assms(5) opts by (simp add: fresh_at_def dedupe_run_options)
  from has_unexpired_live [OF run(1) _ this] run(2) assms(2) show ?thesis
    by (simp add: dc_check_eq usable_key_def dedupe_ok_def Let_def)
qed

theorem replay_is_caught_witness:
  "fst (dc_check (Some ''m1'') 900 (foldl dedupe_step
     (snd (dc_check (Some ''m1'') 0 (create_dedupe_cache (JNum (Fin 1000)) (JNum (Fin 3)))))
     [(10, DCheck (Some ''m2'')), (20, DCheck (Some ''m3'')), (30, DPeek (Some ''m2'')), (40, DCheck None)]))"
  by (rule replay_is_caught [where others = "[''m2'', ''m3'']"])
    (simp_all add: create_dedupe_cache_def dedupe_ok_def resolve_non_negative_integer_option_def
      resolve_integer_option_def fresh_at_def usable_key_def)

end
