(* ===== verification/Retry.thy ===== *)
theory Retry
  imports JS_Numbers
begin

text \<open>
  The retry package, \<open>packages/retry/src/index.ts\<close>: backoff, the supervisor that hands out one
  abortable delay at a time, and the retry runner with jitter and Retry-After hints.

  The task is a function from the attempt number to an error or a value; the random draws are a
  function from the attempt number to \<open>[0, 1)\<close> (an attempt draws at most once); the callbacks
  \<open>shouldRetry\<close>, \<open>retryAfterMs\<close> and \<open>delayMs\<close> are functions and \<open>onRetry\<close> and \<open>sleep\<close> are events
  of the trace a run returns; the callbacks and sleeps return normally. \<open>Math.round\<close> is \<open>round\<close>.
\<close>

section \<open>Backoff\<close>

record backoff_policy =
  bp_initial_ms :: rat
  bp_max_ms :: rat
  bp_factor :: rat
  bp_jitter :: rat

definition compute_backoff :: "backoff_policy \<Rightarrow> nat \<Rightarrow> rat \<Rightarrow> rat" where
  "compute_backoff p attempt draw =
     (let base = min (bp_max_ms p) (bp_initial_ms p * bp_factor p ^ (attempt - 1));
          jit = base * bp_jitter p * draw
      in min (bp_max_ms p) (of_int (round (base + jit))))"

definition compute_backoff_schedule :: "rat list \<Rightarrow> int \<Rightarrow> rat" where
  "compute_backoff_schedule schedule attempt =
     (let index = min (attempt - 1) (int (length schedule) - 1)
      in if attempt \<le> 0 then 0
         else if 0 \<le> index \<and> index < int (length schedule) then schedule ! nat index else 0)"

section \<open>The supervisor\<close>

text \<open>
  Abort controllers are numbered in creation order; \<open>rs_aborted\<close> lists the aborted ones. A retry
  carries its controller and the caller's own signal, and is aborted when either is.
\<close>

record retry_supervisor =
  rs_policy :: backoff_policy
  rs_max_attempts :: js_number
  rs_attempts :: nat
  rs_override :: "rat option"
  rs_initial_ms :: rat
  rs_pending :: "nat option"
  rs_next_controller :: nat
  rs_aborted :: "nat list"

record retry_ticket =
  rt_attempt :: nat
  rt_delay_ms :: rat
  rt_controller :: nat

definition new_supervisor :: "backoff_policy \<Rightarrow> js_number \<Rightarrow> retry_supervisor" where
  "new_supervisor p max_attempts =
     \<lparr>rs_policy = p, rs_max_attempts = max_attempts, rs_attempts = 0, rs_override = None,
      rs_initial_ms = bp_initial_ms p, rs_pending = None, rs_next_controller = 0, rs_aborted = []\<rparr>"

definition supervisor_cancel :: "retry_supervisor \<Rightarrow> retry_supervisor" where
  "supervisor_cancel s =
     s\<lparr>rs_aborted := (case rs_pending s of None \<Rightarrow> rs_aborted s | Some c \<Rightarrow> set_add c (rs_aborted s)),
       rs_pending := None\<rparr>"

definition supervisor_reset :: "rat option \<Rightarrow> retry_supervisor \<Rightarrow> retry_supervisor" where
  "supervisor_reset initial s =
     (let s1 = supervisor_cancel s
      in s1\<lparr>rs_attempts := 0,
            rs_initial_ms := (case initial of None \<Rightarrow> bp_initial_ms (rs_policy s) | Some i \<Rightarrow> i),
            rs_override := None\<rparr>)"

definition attempts_exhausted :: "nat \<Rightarrow> js_number \<Rightarrow> bool" where
  "attempts_exhausted n m =
     (case m of Fin q \<Rightarrow> int n > \<lceil>q\<rceil> | PosInf \<Rightarrow> False | NaN \<Rightarrow> False | NegInf \<Rightarrow> True)"

definition supervisor_next :: "rat \<Rightarrow> retry_supervisor \<Rightarrow> retry_ticket option \<times> retry_supervisor" where
  "supervisor_next draw s =
     (let s1 = s\<lparr>rs_override := None\<rparr>;
          s2 = (if rs_override s = None then s1\<lparr>rs_attempts := rs_attempts s + 1\<rparr> else s1)
      in if rs_override s = None \<and> attempts_exhausted (rs_attempts s2) (rs_max_attempts s) then (None, s2)
         else
           (let attempt = max (rs_attempts s2) 1;
                delay = (case rs_override s of
                           Some d \<Rightarrow> d
                         | None \<Rightarrow> compute_backoff ((rs_policy s)\<lparr>bp_initial_ms := rs_initial_ms s\<rparr>) attempt draw);
                s3 = supervisor_cancel s2
            in (Some \<lparr>rt_attempt = attempt, rt_delay_ms = delay, rt_controller = rs_next_controller s\<rparr>,
                s3\<lparr>rs_pending := Some (rs_next_controller s), rs_next_controller := rs_next_controller s + 1\<rparr>)))"

section \<open>Configuration of the runner\<close>

datatype retry_jitter = FullJitter | FractionJitter rat

record retry_config =
  rc_attempts :: nat
  rc_min_delay_ms :: int
  rc_max_delay_ms :: int
  rc_jitter :: retry_jitter

text \<open>\<open>DEFAULT_RETRY_CONFIG\<close>\<close>

definition default_retry_config :: retry_config where
  "default_retry_config = \<lparr>rc_attempts = 3, rc_min_delay_ms = 300, rc_max_delay_ms = 30000, rc_jitter = FractionJitter 0\<rparr>"

definition clamp_number :: "js_value \<Rightarrow> js_number \<Rightarrow> rat option \<Rightarrow> rat option \<Rightarrow> js_number" where
  "clamp_number v fallback lo hi =
     (case as_finite_number v of
        None \<Rightarrow> fallback
      | Some n \<Rightarrow>
          (let n1 = (case lo of None \<Rightarrow> n | Some l \<Rightarrow> max n l)
           in Fin (case hi of None \<Rightarrow> n1 | Some h \<Rightarrow> min n1 h)))"

definition resolve_attempt_count :: "js_value \<Rightarrow> nat \<Rightarrow> nat" where
  "resolve_attempt_count v fallback =
     nat (max 1 (round (case as_finite_number v of Some q \<Rightarrow> q | None \<Rightarrow> of_nat fallback)))"

definition resolve_retry_delay_ms :: "js_number \<Rightarrow> int" where
  "resolve_retry_delay_ms v =
     (let finite = (case v of PosInf \<Rightarrow> of_int max_timer_timeout_ms | Fin q \<Rightarrow> q | _ \<Rightarrow> 0)
      in min (max (round finite) 0) max_timer_timeout_ms)"

definition resolve_jitter_config :: "js_value \<Rightarrow> retry_jitter \<Rightarrow> retry_jitter" where
  "resolve_jitter_config v fallback =
     (if v = JStr ''full'' then FullJitter
      else (case as_finite_number v of
              None \<Rightarrow> fallback
            | Some q \<Rightarrow> FractionJitter (min (max q 0) 1)))"

text \<open>The \<open>RetryConfig\<close> part of the options, with \<open>JOther\<close> for an absent field.\<close>

record retry_overrides =
  ro_attempts :: js_value
  ro_min_delay_ms :: js_value
  ro_max_delay_ms :: js_value
  ro_jitter :: js_value

definition resolve_retry_config :: "retry_config \<Rightarrow> retry_overrides \<Rightarrow> retry_config" where
  "resolve_retry_config defaults ov =
     (let lo = resolve_retry_delay_ms (clamp_number (ro_min_delay_ms ov) (Fin (of_int (rc_min_delay_ms defaults))) (Some 0) None)
      in \<lparr>rc_attempts = resolve_attempt_count (ro_attempts ov) (rc_attempts defaults),
          rc_min_delay_ms = lo,
          rc_max_delay_ms = max lo
            (resolve_retry_delay_ms (clamp_number (ro_max_delay_ms ov) (Fin (of_int (rc_max_delay_ms defaults))) (Some 0) None)),
          rc_jitter = resolve_jitter_config (ro_jitter ov) (rc_jitter defaults)\<rparr>)"

datatype jitter_mode = Symmetric | Positive

definition apply_jitter :: "rat \<Rightarrow> retry_jitter \<Rightarrow> jitter_mode \<Rightarrow> rat \<Rightarrow> rat" where
  "apply_jitter delay jitter mode draw =
     (case jitter of
        FullJitter \<Rightarrow>
          (if mode = Symmetric then max 0 (of_int (round (delay * (1/2 + draw * (1/2)))))
           else max 0 (of_int \<lceil>delay * (1 + draw)\<rceil>))
      | FractionJitter j \<Rightarrow>
          if j \<le> 0 then (if mode = Positive then of_int \<lceil>delay\<rceil> else delay)
          else
            (let offset = (if mode = Positive then draw * j else (draw * 2 - 1) * j);
                 raw = delay * (1 + offset)
             in max 0 (if mode = Positive then of_int \<lceil>raw\<rceil> else of_int (round raw))))"

section \<open>The runner\<close>

datatype 'e delay_option = NoDelay | FixedDelay js_number | DelayBy "nat \<Rightarrow> nat \<Rightarrow> 'e \<Rightarrow> js_number option"

record 'e retry_options =
  op_config :: retry_overrides
  op_should_retry :: "'e \<Rightarrow> nat \<Rightarrow> bool"
  op_retry_after_ms :: "'e \<Rightarrow> js_value"
  op_retry_after_max_delay_ms :: "js_value option"
  op_delay_ms :: "'e delay_option"

text \<open>Delays may be capped at infinity (\<open>None\<close>).\<close>

definition cap_delay :: "rat option \<Rightarrow> rat \<Rightarrow> rat" where
  "cap_delay cap d = (case cap of None \<Rightarrow> d | Some c \<Rightarrow> min d c)"

definition max_delay_cap :: "retry_config \<Rightarrow> rat option" where
  "max_delay_cap cfg = (if rc_max_delay_ms cfg > 0 then Some (of_int (rc_max_delay_ms cfg)) else None)"

definition retry_after_cap :: "'e retry_options \<Rightarrow> retry_config \<Rightarrow> rat option" where
  "retry_after_cap opts cfg =
     (case op_retry_after_max_delay_ms opts of
        None \<Rightarrow> max_delay_cap cfg
      | Some v \<Rightarrow>
          Some (of_int (max (rc_min_delay_ms cfg)
            (resolve_retry_delay_ms
              (clamp_number v (case max_delay_cap cfg of None \<Rightarrow> PosInf | Some q \<Rightarrow> Fin q) (Some 0) None)))))"

definition configured_delay :: "'e retry_options \<Rightarrow> nat \<Rightarrow> nat \<Rightarrow> 'e \<Rightarrow> int option" where
  "configured_delay opts max_attempts attempt err =
     (case op_delay_ms opts of
        NoDelay \<Rightarrow> None
      | FixedDelay d \<Rightarrow> Some (resolve_retry_delay_ms d)
      | DelayBy f \<Rightarrow> map_option resolve_retry_delay_ms (f attempt max_attempts err))"

definition retry_delay :: "'e retry_options \<Rightarrow> retry_config \<Rightarrow> nat \<Rightarrow> 'e \<Rightarrow> rat \<Rightarrow> rat" where
  "retry_delay opts cfg attempt err draw =
     (let lo = (of_int (rc_min_delay_ms cfg) :: rat);
          hint = as_finite_number (op_retry_after_ms opts err);
          base = (case hint of
                    Some h \<Rightarrow> max h lo
                  | None \<Rightarrow> (case configured_delay opts (rc_attempts cfg) attempt err of
                               None \<Rightarrow> lo * 2 ^ (attempt - 1)
                             | Some d \<Rightarrow> max (of_int d) lo));
          cap = (if hint \<noteq> None then retry_after_cap opts cfg else max_delay_cap cfg);
          delay = cap_delay cap base;
          honor = (case hint of None \<Rightarrow> False | Some h \<Rightarrow> (case cap of None \<Rightarrow> True | Some c \<Rightarrow> h \<le> c));
          positive = (if rc_jitter cfg = FullJitter then hint = None \<or> honor else honor);
          jittered = apply_jitter delay (rc_jitter cfg) (if positive then Positive else Symmetric) draw
      in cap_delay cap (max jittered lo))"

datatype retry_event = Call nat | OnRetry nat rat | Sleep rat

fun retry_loop ::
    "'e retry_options \<Rightarrow> retry_config \<Rightarrow> (nat \<Rightarrow> 'e + 'a) \<Rightarrow> (nat \<Rightarrow> rat) \<Rightarrow> nat \<Rightarrow> nat \<Rightarrow> 'e list \<Rightarrow>
     retry_event list \<times> ('e list + 'a)" where
  "retry_loop opts cfg outcome draw 0 attempt errors = ([], Inl errors)"
| "retry_loop opts cfg outcome draw (Suc left) attempt errors =
     (case outcome attempt of
        Inr v \<Rightarrow> ([Call attempt], Inr v)
      | Inl err \<Rightarrow>
          if attempt \<ge> rc_attempts cfg \<or> \<not> op_should_retry opts err attempt then ([Call attempt], Inl (errors @ [err]))
          else
            (let delay = retry_delay opts cfg attempt err (draw attempt);
                 (tr, res) = retry_loop opts cfg outcome draw left (attempt + 1) (errors @ [err])
             in (Call attempt # OnRetry attempt delay # (if delay > 0 then Sleep delay # tr else tr), res)))"

text \<open>The loop body runs at most \<open>rc_attempts\<close> times, from attempt 1; \<open>Inl\<close> is what \<open>createFailure\<close> gets.\<close>

definition retry_async ::
    "'e retry_options \<Rightarrow> (nat \<Rightarrow> 'e + 'a) \<Rightarrow> (nat \<Rightarrow> rat) \<Rightarrow> retry_event list \<times> ('e list + 'a)" where
  "retry_async opts outcome draw =
     (let cfg = resolve_retry_config default_retry_config (op_config opts)
      in retry_loop opts cfg outcome draw (rc_attempts cfg) 1 [])"

text \<open>The short form: a number of attempts and an initial delay that doubles.\<close>

fun retry_doubling ::
    "rat \<Rightarrow> nat \<Rightarrow> (nat \<Rightarrow> 'e + 'a) \<Rightarrow> nat \<Rightarrow> nat \<Rightarrow> 'e list \<Rightarrow> retry_event list \<times> ('e list + 'a)" where
  "retry_doubling initial attempts outcome 0 index errors = ([], Inl errors)"
| "retry_doubling initial attempts outcome (Suc left) index errors =
     (case outcome (index + 1) of
        Inr v \<Rightarrow> ([Call (index + 1)], Inr v)
      | Inl err \<Rightarrow>
          if index = attempts - 1 then ([Call (index + 1)], Inl (errors @ [err]))
          else
            (let (tr, res) = retry_doubling initial attempts outcome left (index + 1) (errors @ [err])
             in (Call (index + 1) # Sleep (of_int (resolve_retry_delay_ms (Fin (initial * 2 ^ index)))) # tr, res)))"

definition retry_async_count :: "js_value \<Rightarrow> rat \<Rightarrow> (nat \<Rightarrow> 'e + 'a) \<Rightarrow> retry_event list \<times> ('e list + 'a)" where
  "retry_async_count attempts initial outcome =
     (let n = resolve_attempt_count attempts (rc_attempts default_retry_config)
      in retry_doubling initial n outcome n 0 [])"

section \<open>What a run reports\<close>

fun called :: "retry_event list \<Rightarrow> nat list" where
  "called [] = []"
| "called (Call n # tr) = n # called tr"
| "called (_ # tr) = called tr"

definition retriable :: "'e retry_options \<Rightarrow> (nat \<Rightarrow> 'e + 'a) \<Rightarrow> nat \<Rightarrow> bool" where
  "retriable opts outcome n = (case outcome n of Inl e \<Rightarrow> op_should_retry opts e n | Inr _ \<Rightarrow> False)"

text \<open>The report of a run that began at \<open>first\<close> with \<open>errors\<close> collected and ended at attempt \<open>n\<close>.\<close>

definition run_report ::
    "'e retry_options \<Rightarrow> nat \<Rightarrow> (nat \<Rightarrow> 'e + 'a) \<Rightarrow> nat \<Rightarrow> 'e list \<Rightarrow> nat \<Rightarrow> retry_event list \<times> ('e list + 'a) \<Rightarrow> bool" where
  "run_report opts max_attempts outcome first errors n r \<longleftrightarrow>
     first \<le> n \<and> n \<le> max_attempts \<and> called (fst r) = [first..<Suc n] \<and>
     list_all (retriable opts outcome) [first..<n] \<and>
     (case snd r of
        Inr v \<Rightarrow> outcome n = Inr v
      | Inl es \<Rightarrow> \<exists>es'. es = errors @ es' \<and> map Inl es' = map outcome [first..<Suc n] \<and>
          (n = max_attempts \<or> \<not> retriable opts outcome n))"

lemma retry_loop_report:
  "left = Suc (rc_attempts cfg) - attempt \<Longrightarrow> attempt \<le> rc_attempts cfg \<Longrightarrow>
   \<exists>n. run_report opts (rc_attempts cfg) outcome attempt errors n (retry_loop opts cfg outcome draw left attempt errors)"
proof (induction left arbitrary: attempt errors)
  case 0
  then show ?case by simp
next
  case (Suc left)
  show ?case
  proof (cases "outcome attempt")
    case (Inr v)
    then show ?thesis using Suc.prems(2) by (intro exI [of _ attempt]) (simp add: run_report_def)
  next
    case (Inl e)
    show ?thesis
    proof (cases "attempt \<ge> rc_attempts cfg \<or> \<not> op_should_retry opts e attempt")
      case True
      then show ?thesis using Suc.prems(2) Inl
        by (intro exI [of _ attempt]) (auto simp: run_report_def retriable_def)
    next
      case False
      obtain tr res where rec: "retry_loop opts cfg outcome draw left (Suc attempt) (errors @ [e]) = (tr, res)"
        by (cases "retry_loop opts cfg outcome draw left (Suc attempt) (errors @ [e])")
      have "\<exists>n. run_report opts (rc_attempts cfg) outcome (Suc attempt) (errors @ [e]) n
          (retry_loop opts cfg outcome draw left (Suc attempt) (errors @ [e]))"
        by (rule Suc.IH) (use Suc.prems False in auto)
      then obtain n where n: "run_report opts (rc_attempts cfg) outcome (Suc attempt) (errors @ [e]) n (tr, res)"
        unfolding rec by blast
      have up: "[attempt..<Suc n] = attempt # [Suc attempt..<Suc n]" "[attempt..<n] = attempt # [Suc attempt..<n]"
        using n by (auto simp: run_report_def upt_conv_Cons)
      have "run_report opts (rc_attempts cfg) outcome attempt errors n
          (retry_loop opts cfg outcome draw (Suc left) attempt errors)"
        using n False Inl rec unfolding run_report_def up
        by (fastforce simp: retriable_def Let_def split: sum.splits)
      then show ?thesis ..
    qed
  qed
qed

lemma rc_attempts_pos: "1 \<le> rc_attempts (resolve_retry_config d ov)"
  by (simp add: resolve_retry_config_def resolve_attempt_count_def Let_def)

text \<open>C35: a run calls the task at attempts 1, 2, ... n with n at most the configured count, goes on only
  after errors that \<open>shouldRetry\<close> accepts, and ends with the first success, or with the list of all
  errors in order, when the attempts are used up or an error is not retriable.
\<close>

theorem retry_first_success_or_all_errors:
  "\<exists>n. run_report opts (rc_attempts (resolve_retry_config default_retry_config (op_config opts))) outcome 1 [] n
     (retry_async opts outcome draw)"
  unfolding retry_async_def Let_def by (rule retry_loop_report) (simp_all add: rc_attempts_pos [simplified])

section \<open>Delays\<close>

lemma retry_loop_events:
  "OnRetry n d \<in> set (fst (retry_loop opts cfg outcome draw left attempt errors)) \<Longrightarrow>
     \<exists>e. outcome n = Inl e \<and> d = retry_delay opts cfg n e (draw n) \<and> op_should_retry opts e n \<and> n < rc_attempts cfg"
  "Sleep d \<in> set (fst (retry_loop opts cfg outcome draw left attempt errors)) \<Longrightarrow>
     0 < d \<and> (\<exists>n. OnRetry n d \<in> set (fst (retry_loop opts cfg outcome draw left attempt errors)))"
proof (induction left arbitrary: attempt errors)
  case (Suc left)
  {
    case 1
    then show ?case using Suc.IH(1)
      by (auto simp: Let_def split_def split: sum.splits if_splits)
  next
    case 2
    then show ?case using Suc.IH(2)
      by (fastforce simp: Let_def split_def split: sum.splits if_splits)
  }
qed simp_all

lemma cap_delay_le: "cap = Some c \<Longrightarrow> cap_delay cap d \<le> c"
  by (simp add: cap_delay_def)

lemma cap_delay_ge: "lo \<le> d \<Longrightarrow> (\<And>c. cap = Some c \<Longrightarrow> lo \<le> c) \<Longrightarrow> lo \<le> cap_delay cap d"
  by (simp add: cap_delay_def split: option.split)

lemma resolved_min_le_max: "rc_min_delay_ms (resolve_retry_config d ov) \<le> rc_max_delay_ms (resolve_retry_config d ov)"
  by (simp add: resolve_retry_config_def Let_def)

definition delay_cap :: "'e retry_options \<Rightarrow> retry_config \<Rightarrow> 'e \<Rightarrow> rat option" where
  "delay_cap opts cfg err =
     (if as_finite_number (op_retry_after_ms opts err) \<noteq> None then retry_after_cap opts cfg else max_delay_cap cfg)"

lemma delay_cap_ge_min:
  assumes "rc_min_delay_ms cfg \<le> rc_max_delay_ms cfg" and "delay_cap opts cfg err = Some c"
  shows "of_int (rc_min_delay_ms cfg) \<le> c"
  using assms by (auto simp: delay_cap_def retry_after_cap_def max_delay_cap_def split: if_splits option.splits)

lemma retry_delay_bounds:
  assumes "rc_min_delay_ms cfg \<le> rc_max_delay_ms cfg"
  shows "of_int (rc_min_delay_ms cfg) \<le> retry_delay opts cfg n e r" (is ?low)
    and "delay_cap opts cfg e = Some c \<Longrightarrow> retry_delay opts cfg n e r \<le> c" (is "_ \<Longrightarrow> ?high")
proof -
  obtain d where d: "retry_delay opts cfg n e r = cap_delay (delay_cap opts cfg e) (max d (of_int (rc_min_delay_ms cfg)))"
    by (simp add: retry_delay_def delay_cap_def Let_def)
  show ?low unfolding d by (rule cap_delay_ge) (simp_all add: delay_cap_ge_min [OF assms])
  show ?high if "delay_cap opts cfg e = Some c" unfolding d by (rule cap_delay_le [OF that])
qed

lemma apply_jitter_positive:
  assumes "0 \<le> r" and "0 \<le> d" shows "d \<le> apply_jitter d j Positive r"
proof -
  have up: "d \<le> of_int \<lceil>d * (1 + x)\<rceil>" if "0 \<le> x" for x
  proof -
    have "d \<le> d * (1 + x)" using assms(2) that by (simp add: distrib_left)
    also have "\<dots> \<le> of_int \<lceil>d * (1 + x)\<rceil>" by (rule le_of_int_ceiling)
    finally show ?thesis .
  qed
  show ?thesis
  proof (cases j)
    case FullJitter
    then show ?thesis using up [OF assms(1)] by (simp add: apply_jitter_def le_max_iff_disj)
  next
    case (FractionJitter q)
    show ?thesis
    proof (cases "q \<le> 0")
      case True
      then show ?thesis by (simp add: FractionJitter apply_jitter_def)
    next
      case False
      then show ?thesis using up [of "r * q"] assms(1) by (simp add: FractionJitter apply_jitter_def Let_def le_max_iff_disj)
    qed
  qed
qed

lemma retry_delay_honors_hint:
  assumes "as_finite_number (op_retry_after_ms opts e) = Some h" and "\<And>c. delay_cap opts cfg e = Some c \<Longrightarrow> h \<le> c"
    and "0 \<le> r" and "0 \<le> rc_min_delay_ms cfg"
  shows "h \<le> retry_delay opts cfg n e r"
proof -
  let ?lo = "of_int (rc_min_delay_ms cfg) :: rat" and ?cap = "delay_cap opts cfg e"
  let ?d = "cap_delay ?cap (max h ?lo)"
  have honor: "case ?cap of None \<Rightarrow> True | Some c \<Rightarrow> h \<le> c" using assms(2) by (simp split: option.split)
  have eq: "retry_delay opts cfg n e r = cap_delay ?cap (max (apply_jitter ?d (rc_jitter cfg) Positive r) ?lo)"
    using honor assms(1) by (simp add: retry_delay_def delay_cap_def Let_def)
  show ?thesis
  proof (cases "0 \<le> ?d")
    case True
    have "h \<le> ?d" by (rule cap_delay_ge) (simp_all add: assms(2))
    also have "\<dots> \<le> apply_jitter ?d (rc_jitter cfg) Positive r" by (rule apply_jitter_positive [OF assms(3) True])
    finally show ?thesis unfolding eq by (intro cap_delay_ge) (simp_all add: assms(2) le_max_iff_disj)
  next
    case False
    have "h \<le> ?d" by (rule cap_delay_ge) (simp_all add: assms(2))
    then have "h \<le> 0" using False by simp
    then have "h \<le> ?lo" using assms(4) by (meson of_int_0_le_iff order_trans)
    then show ?thesis unfolding eq by (intro cap_delay_ge) (simp_all add: assms(2) le_max_iff_disj)
  qed
qed


text \<open>every delay a run waits lies between the configured minimum and the cap that applies to its
  error, and when the error carries a Retry-After hint that the cap allows, the delay is not shorter
  than the hint, whatever the jitter draws.
\<close>

theorem retry_delays_bounded_and_honor_hints:
  fixes opts :: "'e retry_options"
  assumes cfg: "cfg = resolve_retry_config default_retry_config (op_config opts)"
    and s: "Sleep d \<in> set (fst (retry_async opts outcome draw))"
    and draw: "\<And>n. 0 \<le> draw n"
  shows "\<exists>n e. outcome n = Inl e \<and> n < rc_attempts cfg \<and>
    of_int (rc_min_delay_ms cfg) \<le> d \<and>
    (case delay_cap opts cfg e of None \<Rightarrow> True | Some c \<Rightarrow> d \<le> c) \<and>
    (case as_finite_number (op_retry_after_ms opts e) of
       None \<Rightarrow> True
     | Some h \<Rightarrow> h \<le> d \<or> (\<exists>c. delay_cap opts cfg e = Some c \<and> c < h))"
proof -
  have run: "retry_async opts outcome draw = retry_loop opts cfg outcome draw (rc_attempts cfg) 1 []"
    by (simp add: retry_async_def cfg Let_def)
  obtain n where "OnRetry n d \<in> set (fst (retry_async opts outcome draw))"
    using retry_loop_events(2) [OF s [unfolded run]] unfolding run by blast
  from retry_loop_events(1) [OF this [unfolded run]]
  obtain e where e: "outcome n = Inl e" "d = retry_delay opts cfg n e (draw n)" "n < rc_attempts cfg" by blast
  have mm: "rc_min_delay_ms cfg \<le> rc_max_delay_ms cfg" unfolding cfg by (rule resolved_min_le_max)
  have lo: "0 \<le> rc_min_delay_ms cfg"
    unfolding cfg by (simp add: resolve_retry_config_def resolve_retry_delay_ms_def max_timer_timeout_ms_def Let_def)
  have "h \<le> d \<or> (\<exists>c. delay_cap opts cfg e = Some c \<and> c < h)" if "as_finite_number (op_retry_after_ms opts e) = Some h" for h
  proof (cases "\<exists>c. delay_cap opts cfg e = Some c \<and> c < h")
    case False
    then have "h \<le> c" if "delay_cap opts cfg e = Some c" for c using that not_le by blast
    from retry_delay_honors_hint [OF that this draw lo] show ?thesis by (simp add: e(2))
  qed blast
  then show ?thesis using e retry_delay_bounds(1) [OF mm, of opts n e "draw n"]
      retry_delay_bounds(2) [OF mm, where n = n and e = e and r = "draw n" and opts = opts]
    by (intro exI [of _ n] exI [of _ e]) (auto split: option.split)
qed

definition sample_retry_options :: "nat retry_options" where
  "sample_retry_options =
     \<lparr>op_config = \<lparr>ro_attempts = JNum (Fin 3), ro_min_delay_ms = JNum (Fin 100), ro_max_delay_ms = JNum (Fin 1000), ro_jitter = JOther\<rparr>,
      op_should_retry = (\<lambda>e n. True), op_retry_after_ms = (\<lambda>e. JNum (Fin (of_nat e))),
      op_retry_after_max_delay_ms = None, op_delay_ms = NoDelay\<rparr>"

theorem retry_delays_bounded_and_honor_hints_witness:
  "\<exists>n e. (if n = 1 then Inl 250 else Inr ()) = (Inl e :: nat + unit) \<and>
    n < rc_attempts (resolve_retry_config default_retry_config (op_config sample_retry_options)) \<and>
    of_int (rc_min_delay_ms (resolve_retry_config default_retry_config (op_config sample_retry_options))) \<le> (250 :: rat) \<and>
    (case delay_cap sample_retry_options (resolve_retry_config default_retry_config (op_config sample_retry_options)) e of
       None \<Rightarrow> True | Some c \<Rightarrow> 250 \<le> c) \<and>
    (case as_finite_number (op_retry_after_ms sample_retry_options e) of
       None \<Rightarrow> True
     | Some h \<Rightarrow> h \<le> 250 \<or> (\<exists>c. delay_cap sample_retry_options
         (resolve_retry_config default_retry_config (op_config sample_retry_options)) e = Some c \<and> c < h))"
proof (rule retry_delays_bounded_and_honor_hints
    [where outcome = "\<lambda>n. if n = 1 then Inl 250 else Inr ()" and draw = "\<lambda>_. 1/2"])
  let ?cfg = "\<lparr>rc_attempts = 3, rc_min_delay_ms = 100, rc_max_delay_ms = 1000, rc_jitter = FractionJitter 0\<rparr>"
  have cfg: "resolve_retry_config default_retry_config (op_config sample_retry_options) = ?cfg"
    by (simp add: sample_retry_options_def resolve_retry_config_def resolve_attempt_count_def
        resolve_retry_delay_ms_def clamp_number_def resolve_jitter_config_def default_retry_config_def
        max_timer_timeout_ms_def)
  have d: "retry_delay sample_retry_options ?cfg 1 250 (1/2) = 250"
    by (simp add: retry_delay_def sample_retry_options_def retry_after_cap_def max_delay_cap_def
        cap_delay_def apply_jitter_def)
  have r: "op_should_retry sample_retry_options 250 1" by (simp add: sample_retry_options_def)
  show "Sleep 250 \<in> set (fst (retry_async sample_retry_options (\<lambda>n. if n = 1 then Inl 250 else Inr ()) (\<lambda>_. 1/2)))"
    using d r by (simp add: retry_async_def cfg eval_nat_numeral)
qed (rule refl, simp)

section \<open>One live ticket\<close>

datatype supervisor_call = SNext rat | SCancel | SReset "rat option" | SOverride "rat option"

fun supervisor_step :: "retry_supervisor \<Rightarrow> supervisor_call \<Rightarrow> retry_supervisor" where
  "supervisor_step s (SNext draw) = snd (supervisor_next draw s)"
| "supervisor_step s SCancel = supervisor_cancel s"
| "supervisor_step s (SReset initial) = supervisor_reset initial s"
| "supervisor_step s (SOverride d) = s\<lparr>rs_override := d\<rparr>"

definition tickets_ok :: "nat option \<Rightarrow> nat list \<Rightarrow> nat \<Rightarrow> bool" where
  "tickets_ok pending aborted n \<longleftrightarrow>
     (case pending of
        None \<Rightarrow> set aborted = {..<n}
      | Some c \<Rightarrow> Suc c = n \<and> set aborted = {..<c})"

definition supervisor_ok :: "retry_supervisor \<Rightarrow> bool" where
  "supervisor_ok s \<longleftrightarrow> tickets_ok (rs_pending s) (rs_aborted s) (rs_next_controller s)"

lemma supervisor_cancel_fields:
  "rs_pending (supervisor_cancel s) = None" "rs_next_controller (supervisor_cancel s) = rs_next_controller s"
  "supervisor_ok s \<Longrightarrow> set (rs_aborted (supervisor_cancel s)) = {..<rs_next_controller s}"
proof -
  assume ok: "supervisor_ok s"
  show "set (rs_aborted (supervisor_cancel s)) = {..<rs_next_controller s}"
  proof (cases "rs_pending s")
    case None
    then show ?thesis using ok by (simp add: supervisor_ok_def tickets_ok_def supervisor_cancel_def)
  next
    case (Some c)
    then have "rs_next_controller s = Suc c" "set (rs_aborted s) = {..<c}"
      using ok by (simp_all add: supervisor_ok_def tickets_ok_def)
    then show ?thesis by (simp add: supervisor_cancel_def Some lessThan_Suc)
  qed
qed (simp_all add: supervisor_cancel_def)

lemma supervisor_step_ok [step_inv]:
  assumes ok: "supervisor_ok s" shows "supervisor_ok (supervisor_step s c)"
proof (cases c)
  case (SNext draw)
  define s2 where "s2 = (if rs_override s = None then s\<lparr>rs_override := None, rs_attempts := rs_attempts s + 1\<rparr>
                         else s\<lparr>rs_override := None\<rparr>)"
  have s2: "supervisor_ok s2" "rs_next_controller s2 = rs_next_controller s" using ok by (auto simp: s2_def supervisor_ok_def)
  have "snd (supervisor_next draw s) =
      (if rs_override s = None \<and> attempts_exhausted (rs_attempts s2) (rs_max_attempts s) then s2
       else (supervisor_cancel s2)
        \<lparr>rs_pending := Some (rs_next_controller s), rs_next_controller := rs_next_controller s + 1\<rparr>)"
    by (simp only: supervisor_next_def Let_def s2_def [symmetric] if_distrib [of snd] snd_conv)
  then consider "snd (supervisor_next draw s) = s2" | "snd (supervisor_next draw s) = (supervisor_cancel s2)
        \<lparr>rs_pending := Some (rs_next_controller s), rs_next_controller := rs_next_controller s + 1\<rparr>"
    by metis
  then show ?thesis
  proof cases
    case 1
    then show ?thesis using s2 by (simp add: SNext)
  next
    case 2
    show ?thesis unfolding SNext supervisor_step.simps 2
      using supervisor_cancel_fields(3) [OF s2(1)] s2(2) by (simp add: supervisor_ok_def tickets_ok_def)
  qed
next
  case SCancel
  then show ?thesis using supervisor_cancel_fields [of s] ok by (simp add: supervisor_ok_def tickets_ok_def)
next
  case (SReset i)
  then show ?thesis using supervisor_cancel_fields [of s] ok
    by (simp add: supervisor_reset_def Let_def supervisor_ok_def tickets_ok_def)
next
  case (SOverride d)
  then show ?thesis using ok by (simp add: supervisor_ok_def)
qed

interpretation supervisor: invariant_machine supervisor_step supervisor_ok
  by unfold_locales (rule supervisor_step_ok)

text \<open>whatever is called on a supervisor, every delay it ever handed out is aborted, except possibly
  the latest one: at most one retry timer is live.
\<close>

theorem supervisor_one_live_ticket:
  "let s = foldl supervisor_step (new_supervisor p n) cs
   in set (rs_aborted s) = {..<rs_next_controller s} \<or>
      (\<exists>c. rs_pending s = Some c \<and> Suc c = rs_next_controller s \<and> set (rs_aborted s) = {..<c})"
proof -
  have "supervisor_ok (new_supervisor p n)" by (simp add: supervisor_ok_def tickets_ok_def new_supervisor_def)
  from supervisor.run_keeps [OF this, of cs] show ?thesis
    by (auto simp: supervisor_ok_def tickets_ok_def Let_def split: option.splits)
qed

end
