(* ===== verification/Spec2Isabelle.thy ===== *)
theory Spec2Isabelle
  imports Pairing_Ingress Session_Props Serialized_Auth Guarded_Fetch_Props Gateway_Dispatch_Props Gateway Lane_Scheduler Queue_Migration Lane_Timeout Session_Key_Props Routing_Props Auth_Limiter Dedupe_Cache Retry
begin

text \<open>
  A verification development for the gateway core.
\<close>

end
